(* ===== verification/Prelude.thy ===== *)
theory Prelude
  imports Main "HOL-Library.Word"
begin

unbundle bit_operations_syntax

text \<open>
  What every component shares: the machine types of the Rust code, byte sequences and their
  little-endian encodings, the error values of \<^verbatim>\<open>std::io\<close>, and the generic lemmas on
  lists and words that the component theories use.  The collection \<open>bits\<close> holds the
  bit-level equations that decide equalities of machine words.
\<close>

named_theorems bits \<open>bit-level equations for machine words\<close>

type_synonym u8 = "8 word"
type_synonym u16 = "16 word"
type_synonym u32 = "32 word"
type_synonym u64 = "64 word"
type_synonym usize = "64 word"
type_synonym bytes = "8 word list"

text \<open>The \<^verbatim>\<open>std::io::Error\<close> values the code builds itself, with their kind and message.\<close>

datatype io_error = InvalidData string | InvalidInput string | OtherError string

lemma unat_u8_less [simp]: "unat (b :: u8) < 256"
  using unsigned_less [of b, where 'a = nat] by simp

subsection \<open>Little-endian bytes\<close>

definition le_bytes :: "nat \<Rightarrow> 'a::len word \<Rightarrow> bytes" where
  "le_bytes n w = map (\<lambda>i. ucast (drop_bit (8 * i) w)) [0..<n]"

lemma length_le_bytes [simp]: "length (le_bytes n w) = n"
  by (simp add: le_bytes_def)

lemma nth_le_bytes [simp]: "i < n \<Longrightarrow> le_bytes n w ! i = ucast (drop_bit (8 * i) w)"
  by (simp add: le_bytes_def)

lemmas word_bit_simps [bits] =
  bit_and_iff bit_or_iff bit_xor_iff bit_push_bit_iff bit_drop_bit_eq bit_ucast_iff
  bit_take_bit_iff

text \<open>A word below a power of two has no bit at or above the exponent.\<close>

lemma word_less_bitD:
  fixes w :: "'a::len word"
  assumes "w < 2 ^ n" and "bit w i"
  shows "i < n"
proof -
  from assms(1) have "take_bit n w = w"
    by (simp add: take_bit_eq_mask less_mask_eq)
  with assms(2) show ?thesis
    by (metis bit_take_bit_iff)
qed

lemma word_less_bitI:
  fixes w :: "'a::len word"
  assumes "\<And>i. bit w i \<Longrightarrow> i < n" and "n < LENGTH('a)"
  shows "w < 2 ^ n"
proof -
  have "take_bit n w = w"
    using assms(1) by (intro bit_word_eqI) (auto simp: bits)
  moreover have "w AND mask n < 2 ^ n"
    using assms(2) by (intro and_mask_less_size) (simp add: word_size)
  ultimately show ?thesis by (simp add: take_bit_eq_mask)
qed

lemma le_bytes_2: "le_bytes 2 v = [ucast v, ucast (drop_bit 8 v)]"
  and le_bytes_4: "le_bytes 4 v = [ucast v, ucast (drop_bit 8 v), ucast (drop_bit 16 v), ucast (drop_bit 24 v)]"
  by (simp_all add: le_bytes_def upt_rec)

lemma tag_bits:
  assumes "2 \<le> i"
  shows "\<not> bit (1::'a::len word) i" "\<not> bit (2::'a::len word) i" "\<not> bit (3::'a::len word) i"
proof -
  from assms obtain j where "i = Suc (Suc j)"
    by (metis add_2_eq_Suc le_Suc_ex)
  then show "\<not> bit (1::'a::len word) i" "\<not> bit (2::'a::len word) i" "\<not> bit (3::'a::len word) i"
    by (simp_all add: bit_numeral_rec bit_1_iff)
qed

lemma le_bytes_inj:
  fixes v w :: "'a::len word"
  assumes eq: "le_bytes n v = le_bytes n w" and len: "LENGTH('a) \<le> 8 * n"
  shows "v = w"
proof (rule bit_word_eqI)
  fix i assume i: "i < LENGTH('a)"
  define q r where "q = i div 8" and "r = i mod 8"
  have "q < n" and r: "r < 8" and iqr: "i = 8 * q + r"
    using i len by (auto simp: q_def r_def)
  then have "(ucast (drop_bit (8 * q) v) :: u8) = ucast (drop_bit (8 * q) w)"
    using arg_cong [OF eq, of "\<lambda>xs. xs ! q"] by simp
  then have "bit (ucast (drop_bit (8 * q) v) :: u8) r = bit (ucast (drop_bit (8 * q) w) :: u8) r"
    by simp
  then show "bit v i = bit w i"
    using r by (simp add: bits iqr)
qed

subsection \<open>Strings\<close>

text \<open>\<^verbatim>\<open>str::split\<close> at a character.\<close>

fun split_char :: "char \<Rightarrow> string \<Rightarrow> string list" where
  "split_char d [] = [[]]"
| "split_char d (c # cs) =
     (if c = d then [] # split_char d cs
      else (case split_char d cs of x # xs \<Rightarrow> (c # x) # xs | [] \<Rightarrow> [[c]]))"

lemma split_char_plain: "d \<notin> set x \<Longrightarrow> split_char d x = [x]"
  by (induction x) auto

lemma split_char_at: "d \<notin> set x \<Longrightarrow> split_char d (x @ d # r) = x # split_char d r"
  by (induction x) auto

subsection \<open>Formatting\<close>

text \<open>\<^verbatim>\<open>{}\<close> of a number.\<close>

fun decimal :: "nat \<Rightarrow> string" where
  "decimal n = (if n < 10 then [] else decimal (n div 10)) @ [''0123456789'' ! (n mod 10)]"

declare decimal.simps [simp del]

definition int_decimal :: "int \<Rightarrow> string" where
  "int_decimal i = (if i < 0 then CHR ''-'' # decimal (nat (- i)) else decimal (nat i))"

end
