(* ===== verification/Stream_Decoder.thy ===== *)
theory Stream_Decoder
  imports Prelude
begin

text \<open>
  The contract between a stream reader and a decoder that is called again whenever more bytes
  have arrived.  A decoder step returns an error, an item or "not yet", together with the
  decoder state after the call and the bytes it has left in the buffer.  The laws say that a
  step decides on what it has consumed alone: further bytes at the end of the buffer change
  neither an item nor an error, and after "not yet" the work already done is not lost.  The
  locale shows once that the items found do not depend on how the bytes were split into reads.
\<close>

text \<open>
  The read loop of a framed stream: every read appends a chunk to the buffer, the decoder
  drains it, and the loop stops at the first error.
\<close>

fun feed_with ::
  "('s \<Rightarrow> 'b list \<Rightarrow> 'm list \<times> 'e option \<times> 's \<times> 'b list) \<Rightarrow> 's \<Rightarrow> 'b list \<Rightarrow> 'b list list
     \<Rightarrow> 'm list \<times> 'e option \<times> 's \<times> 'b list" where
  "feed_with drain s buf [] = ([], None, s, buf)"
| "feed_with drain s buf (ch # chs) =
     (case drain s (buf @ ch) of
        (ms, Some e, s', r) \<Rightarrow> (ms, Some e, s', r)
      | (ms, None, s', r) \<Rightarrow>
          (case feed_with drain s' r chs of (ms', e, s'', r') \<Rightarrow> (ms @ ms', e, s'', r')))"

locale incremental_decoder =
  fixes dec :: "'s \<Rightarrow> 'b list \<Rightarrow> ('e + 'm option) \<times> 's \<times> 'b list"
    and drain :: "'s \<Rightarrow> 'b list \<Rightarrow> 'm list \<times> 'e option \<times> 's \<times> 'b list"
    and weight :: "'s \<Rightarrow> 'b list \<Rightarrow> nat"
    and ok :: "'s \<Rightarrow> bool"
  assumes dec_item:
      "ok s \<Longrightarrow> dec s a = (Inr (Some m), s', r) \<Longrightarrow> dec s (a @ b) = (Inr (Some m), s', r @ b)"
    and dec_wait: "ok s \<Longrightarrow> dec s a = (Inr None, s', r) \<Longrightarrow> dec s (a @ b) = dec s' (r @ b)"
    and dec_err: "ok s \<Longrightarrow> dec s a = (Inl e, s', r) \<Longrightarrow> dec s (a @ b) = (Inl e, s', r @ b)"
    and dec_progress:
      "ok s \<Longrightarrow> dec s a = (Inr (Some m), s', r) \<Longrightarrow> weight s' r < weight s a"
    and dec_ok: "ok s \<Longrightarrow> dec s a = (res, s', r) \<Longrightarrow> ok s'"
    and drain_unfold:
      "drain s a =
         (case dec s a of
            (Inl e, s', r) \<Rightarrow> ([], Some e, s', r)
          | (Inr None, s', r) \<Rightarrow> ([], None, s', r)
          | (Inr (Some m), s', r) \<Rightarrow>
              (case drain s' r of (ms, e, s'', r') \<Rightarrow> (m # ms, e, s'', r')))"
begin

lemma drain_ok: "ok s \<Longrightarrow> drain s a = (ms, e, s', r) \<Longrightarrow> ok s'"
proof (induction "weight s a" arbitrary: s a ms rule: less_induct)
  case less
  obtain res s1 r1 where d: "dec s a = (res, s1, r1)"
    by (cases "dec s a")
  then have ok1: "ok s1"
    using less.prems(1) by (rule dec_ok [rotated])
  show ?case
  proof (cases res)
    case (Inl e')
    with less.prems d ok1 show ?thesis by (simp add: drain_unfold [of s])
  next
    case (Inr x)
    show ?thesis
    proof (cases x)
      case None
      with Inr less.prems d ok1 show ?thesis by (simp add: drain_unfold [of s])
    next
      case (Some m)
      with Inr d less.prems have "weight s1 r1 < weight s a"
        by (auto intro: dec_progress)
      moreover obtain ms1 where "drain s1 r1 = (ms1, e, s', r)"
        using less.prems(2) d Inr Some by (auto simp: drain_unfold [of s] split: prod.splits)
      ultimately show ?thesis using ok1 less.hyps by blast
    qed
  qed
qed

text \<open>
  Draining a longer buffer is draining the first part and going on with what it left, or
  stopping at the first part's error.
\<close>

lemma drain_append:
  assumes "ok s" and "drain s a = (ms, e, s', r)"
  shows "drain s (a @ b) =
    (case e of
       Some err \<Rightarrow> (ms, Some err, s', r @ b)
     | None \<Rightarrow> (case drain s' (r @ b) of (ms', e', s'', r') \<Rightarrow> (ms @ ms', e', s'', r')))"
  using assms
proof (induction "weight s a" arbitrary: s a ms rule: less_induct)
  case less
  obtain res s1 r1 where d: "dec s a = (res, s1, r1)"
    by (cases "dec s a")
  show ?case
  proof (cases res)
    case (Inl err)
    with d less.prems(1) have "dec s (a @ b) = (Inl err, s1, r1 @ b)"
      by (auto intro: dec_err)
    with Inl d less.prems(2) show ?thesis
      by (auto simp: drain_unfold [of s])
  next
    case (Inr x)
    show ?thesis
    proof (cases x)
      case None
      with Inr d less.prems have eq: "ms = []" "e = None" "s' = s1" "r = r1"
        by (auto simp: drain_unfold [of s])
      have "dec s (a @ b) = dec s1 (r1 @ b)"
        using d Inr None less.prems(1) by (auto intro: dec_wait)
      then have "drain s (a @ b) = drain s1 (r1 @ b)"
        by (simp add: drain_unfold [of s] drain_unfold [of s1])
      with eq show ?thesis by simp
    next
      case (Some m)
      have item: "dec s (a @ b) = (Inr (Some m), s1, r1 @ b)"
        using d Inr Some less.prems(1) by (auto intro: dec_item)
      obtain ms1 where ms1: "drain s1 r1 = (ms1, e, s', r)" "ms = m # ms1"
        using less.prems(2) d Inr Some by (auto simp: drain_unfold [of s] split: prod.splits)
      have "weight s1 r1 < weight s a" and "ok s1"
        using d Inr Some less.prems(1) by (auto intro: dec_progress dec_ok)
      from less.hyps [OF this ms1(1)] item ms1(2) show ?thesis
        by (auto simp: drain_unfold [of s] split: option.splits prod.splits)
    qed
  qed
qed

text \<open>A drained buffer holds nothing more to find.\<close>

lemma drain_drained:
  assumes "ok s" and "drain s a = (ms, None, s', r)"
  shows "drain s' r = ([], None, s', r)"
proof -
  obtain ms' e' s'' r' where d: "drain s' r = (ms', e', s'', r')"
    by (cases "drain s' r")
  from drain_append [OF assms, of "[]"] assms(2) d show ?thesis by simp
qed

text \<open>
  Whatever the reads, a run over the chunks finds the same items and the same error as one
  drain of all the bytes together; without an error it also leaves the same decoder state.
\<close>

theorem feed_drain:
  assumes "ok s" and "drain s buf = ([], None, s, buf)"
  shows "feed_with drain s buf chs = (ms, e, s', r) \<Longrightarrow>
    \<exists>r'. drain s (buf @ concat chs) = (ms, e, s', r') \<and> (e = None \<longrightarrow> r' = r)"
  using assms
proof (induction chs arbitrary: s buf ms)
  case Nil
  then show ?case by simp
next
  case (Cons ch chs)
  obtain ms1 e1 s1 r1 where d: "drain s (buf @ ch) = (ms1, e1, s1, r1)"
    by (cases "drain s (buf @ ch)")
  have app: "drain s (buf @ concat (ch # chs)) = drain s ((buf @ ch) @ concat chs)"
    by simp
  show ?case
  proof (cases e1)
    case (Some err)
    with Cons.prems(1) d have "ms = ms1" "e = Some err" "s' = s1" by auto
    then show ?thesis
      unfolding app using drain_append [OF Cons.prems(2) d] Some by simp
  next
    case None
    then obtain ms2 where f: "feed_with drain s1 r1 chs = (ms2, e, s', r)" and ms: "ms = ms1 @ ms2"
      using Cons.prems(1) d by (auto split: prod.splits)
    have "ok s1" and "drain s1 r1 = ([], None, s1, r1)"
      using drain_ok drain_drained Cons.prems(2) d None by blast+
    from Cons.IH [OF f this] obtain r'
      where "drain s1 (r1 @ concat chs) = (ms2, e, s', r')" "e = None \<longrightarrow> r' = r" by blast
    then show ?thesis
      unfolding app using drain_append [OF Cons.prems(2) d] None ms by simp
  qed
qed

end

end
