(* ===== verification/Bytes_Codec.thy ===== *)
theory Bytes_Codec
  imports Stream_Decoder
begin

text \<open>
  The length-prefixed framing of \<^verbatim>\<open>libs/hbb_common/src/bytes_codec.rs\<close>: the record and the
  decoder state, \<open>decode_head\<close>, \<open>decode_data\<close>, \<open>decode\<close> and \<open>encode\<close>.  The locale
  \<open>incremental_decoder\<close> is the contract a stream reader relies on (a decoder that only
  consumes what it has understood); its lemmas show that the frames found do not depend on
  how the bytes were split into reads, and it is interpreted on the codec.
\<close>

subsection \<open>The codec\<close>

datatype decode_state = Head | Data usize

record bytes_codec =
  codec_state :: decode_state
  codec_raw :: bool
  max_packet_length :: usize

definition codec_new :: bytes_codec where
  "codec_new = \<lparr>codec_state = Head, codec_raw = False, max_packet_length = - 1\<rparr>"

definition set_raw :: "bytes_codec \<Rightarrow> bytes_codec" where
  "set_raw c = c\<lparr>codec_raw := True\<rparr>"

definition set_max_packet_length :: "bytes_codec \<Rightarrow> usize \<Rightarrow> bytes_codec" where
  "set_max_packet_length c n = c\<lparr>max_packet_length := n\<rparr>"

text \<open>
  \<open>decode_head\<close> reads the two low bits of the first byte as the header length less one.
  \<open>Inr None\<close> is \<^verbatim>\<open>Ok(None)\<close> with the source buffer untouched; \<open>Inr (Some (n, src'))\<close> is
  \<^verbatim>\<open>Ok(Some(n))\<close> with the buffer advanced past the header.
\<close>

definition head_len :: "u8 \<Rightarrow> nat" where
  "head_len b = unat ((b AND 3) + 1)"

definition head_value :: "bytes \<Rightarrow> usize" where
  "head_value src =
     (let hl = head_len (src ! 0);
          n0 = ucast (src ! 0);
          n1 = (if 1 < hl then n0 OR push_bit 8 (ucast (src ! 1)) else n0);
          n2 = (if 2 < hl then n1 OR push_bit 16 (ucast (src ! 2)) else n1);
          n3 = (if 3 < hl then n2 OR push_bit 24 (ucast (src ! 3)) else n2)
      in drop_bit 2 n3)"

definition decode_head :: "bytes_codec \<Rightarrow> bytes \<Rightarrow> io_error + (usize \<times> bytes) option" where
  "decode_head c src =
     (if src = [] then Inr None
      else if length src < head_len (src ! 0) then Inr None
      else if max_packet_length c < head_value src then Inl (InvalidData ''Too big packet'')
      else Inr (Some (head_value src, drop (head_len (src ! 0)) src)))"

definition decode_data :: "usize \<Rightarrow> bytes \<Rightarrow> (bytes \<times> bytes) option" where
  "decode_data n src =
     (if length src < unat n then None else Some (take (unat n) src, drop (unat n) src))"

text \<open>One call of \<^verbatim>\<open>Decoder::decode\<close>: the result, the codec after the call and the bytes left.\<close>

definition decode :: "bytes_codec \<Rightarrow> bytes \<Rightarrow> (io_error + bytes option) \<times> bytes_codec \<times> bytes" where
  "decode c src =
     (if codec_raw c then
        (if src \<noteq> [] then (Inr (Some src), c, []) else (Inr None, c, src))
      else
        case (case codec_state c of
                Head \<Rightarrow> (case decode_head c src of
                          Inl e \<Rightarrow> Inl e
                        | Inr None \<Rightarrow> Inr None
                        | Inr (Some (n, src')) \<Rightarrow> Inr (Some (n, c\<lparr>codec_state := Data n\<rparr>, src')))
              | Data n \<Rightarrow> Inr (Some (n, c, src))) of
          Inl e \<Rightarrow> (Inl e, c, src)
        | Inr None \<Rightarrow> (Inr None, c, src)
        | Inr (Some (n, c', src')) \<Rightarrow>
            (case decode_data n src' of
               Some (dat, rest) \<Rightarrow> (Inr (Some dat), c'\<lparr>codec_state := Head\<rparr>, rest)
             | None \<Rightarrow> (Inr None, c', src')))"

text \<open>
  \<^verbatim>\<open>Encoder::encode\<close> appends a header of one to four bytes and the data to the buffer; the
  shift happens at the width of \<^verbatim>\<open>usize\<close>, the truncation to the header's width after it.
\<close>

definition len_word :: "bytes \<Rightarrow> usize" where
  "len_word dat = word_of_nat (length dat)"

definition encode_header :: "bytes \<Rightarrow> bytes option" where
  "encode_header dat =
     (if length dat \<le> 0x3F then Some [ucast (push_bit 2 (len_word dat))]
      else if length dat \<le> 0x3FFF then
        Some (le_bytes 2 ((ucast (push_bit 2 (len_word dat)) :: u16) OR 1))
      else if length dat \<le> 0x3FFFFF then
        (let h = (ucast (push_bit 2 (len_word dat)) :: u32) OR 2
         in Some (le_bytes 2 (ucast (h AND 0xFFFF) :: u16) @ [ucast (drop_bit 16 h)]))
      else if length dat \<le> 0x3FFFFFFF then
        Some (le_bytes 4 ((ucast (push_bit 2 (len_word dat)) :: u32) OR 3))
      else None)"

definition encode :: "bytes_codec \<Rightarrow> bytes \<Rightarrow> bytes \<Rightarrow> io_error + bytes" where
  "encode c dat buf =
     (if codec_raw c then Inr (buf @ dat)
      else case encode_header dat of
             None \<Rightarrow> Inl (InvalidInput ''Overflow'')
           | Some hdr \<Rightarrow> Inr (buf @ hdr @ dat))"

subsection \<open>Headers\<close>

lemma unat_len_word:
  assumes "length dat < 2 ^ 64" shows "unat (len_word dat) = length dat"
  using assms by (simp add: len_word_def unat_of_nat)

lemma len_word_less:
  assumes "length dat < 2 ^ k" "k < 64" shows "len_word dat < 2 ^ k"
proof -
  have "(2::nat) ^ k \<le> 2 ^ 64" using assms(2) by (intro power_increasing) auto
  then have "unat (len_word dat) = length dat" using assms by (intro unat_len_word) simp
  moreover have "unat (word_of_nat (2 ^ k) :: usize) = 2 ^ k"
    using power_strict_increasing [OF assms(2), of "2::nat"] by (simp only: unat_of_nat) simp
  ultimately show ?thesis using assms(1) by (simp add: word_less_nat_alt)
qed

lemma head_len_bits:
  "head_len b = (if bit b 0 then (if bit b 1 then 4 else 2) else (if bit b 1 then 3 else 1))"
proof -
  have "b AND 3 = (if bit b 0 then 1 else 0) OR (if bit b 1 then 2 else 0)"
   by (rule bit_word_eqI) (auto simp: bits bit_numeral_rec less_Suc_eq numeral_eq_Suc bit_1_iff)
  then show ?thesis by (simp add: head_len_def)
qed

lemma join_bytes_2:
  fixes v :: u16
  shows "(ucast (ucast v :: u8) :: usize) OR push_bit 8 (ucast (ucast (drop_bit 8 v) :: u8)) = ucast v"
  by (rule bit_word_eqI) (auto simp: bits dest: bit_imp_le_length)

lemma join_bytes_3:
  fixes v :: u32
  assumes "v < 2 ^ 24"
  shows "(ucast (ucast v :: u8) :: usize) OR push_bit 8 (ucast (ucast (drop_bit 8 v) :: u8))
     OR push_bit 16 (ucast (ucast (drop_bit 16 v) :: u8)) = ucast v"
proof (rule bit_word_eqI)
  fix i :: nat
  consider "i < 8" | "8 \<le> i" "i < 16" | "16 \<le> i" by linarith
  then show "bit ((ucast (ucast v :: u8) :: usize) OR push_bit 8 (ucast (ucast (drop_bit 8 v) :: u8))
     OR push_bit 16 (ucast (ucast (drop_bit 16 v) :: u8))) i = bit (ucast v :: usize) i"
    by cases (auto simp: bits dest: word_less_bitD [OF assms])
qed

lemma join_bytes_4:
  fixes v :: u32
  shows "(ucast (ucast v :: u8) :: usize) OR push_bit 8 (ucast (ucast (drop_bit 8 v) :: u8))
     OR push_bit 16 (ucast (ucast (drop_bit 16 v) :: u8)) OR push_bit 24 (ucast (ucast (drop_bit 24 v) :: u8)) = ucast v"
proof (rule bit_word_eqI)
  fix i :: nat
  consider "i < 8" | "8 \<le> i" "i < 16" | "16 \<le> i" "i < 24" | "24 \<le> i" by linarith
  then show "bit ((ucast (ucast v :: u8) :: usize) OR push_bit 8 (ucast (ucast (drop_bit 8 v) :: u8))
     OR push_bit 16 (ucast (ucast (drop_bit 16 v) :: u8))
     OR push_bit 24 (ucast (ucast (drop_bit 24 v) :: u8))) i = bit (ucast v :: usize) i"
    by cases (auto simp: bits dest: bit_imp_le_length)
qed

lemma drop_tag:
  fixes w :: usize and c :: "'a::len word"
  assumes w: "w < 2 ^ k" and k: "k + 2 \<le> LENGTH('a)" "LENGTH('a) \<le> 32" and c: "\<And>i. 2 \<le> i \<Longrightarrow> \<not> bit c i"
  shows "drop_bit 2 (ucast ((ucast (push_bit 2 w) :: 'a word) OR c) :: usize) = w"
  using k word_less_bitD [OF w] c by - (rule bit_word_eqI, fastforce simp: bits)


lemma head_value_cons:
  "head_len b0 = 1 \<Longrightarrow> head_value (b0 # xs) = drop_bit 2 (ucast b0)"
  "head_len b0 = 2 \<Longrightarrow> head_value (b0 # b1 # xs) = drop_bit 2 (ucast b0 OR push_bit 8 (ucast b1))"
  "head_len b0 = 3 \<Longrightarrow> head_value (b0 # b1 # b2 # xs) =
     drop_bit 2 (ucast b0 OR push_bit 8 (ucast b1) OR push_bit 16 (ucast b2))"
  "head_len b0 = 4 \<Longrightarrow> head_value (b0 # b1 # b2 # b3 # xs) =
     drop_bit 2 (ucast b0 OR push_bit 8 (ucast b1) OR push_bit 16 (ucast b2) OR push_bit 24 (ucast b3))"
  by (simp_all add: head_value_def Let_def or.assoc)

lemma head_value_1:
  assumes "w < 2 ^ 6"
  shows "head_len (ucast (push_bit 2 w)) = 1"
    and "head_value (ucast (push_bit 2 w) # xs) = w"
proof -
  show len: "head_len (ucast (push_bit 2 w)) = 1"
    by (simp add: head_len_bits bits)
  show "head_value (ucast (push_bit 2 w) # xs) = w"
    unfolding head_value_cons(1) [OF len] using drop_tag [OF assms, where 'a=8 and c=0] by simp
qed

lemma head_value_2:
  fixes v :: u16
  assumes w: "w < 2 ^ 14" and v: "v = ucast (push_bit 2 w) OR 1"
  shows "head_len (ucast v) = 2" and "head_value (ucast v # ucast (drop_bit 8 v) # xs) = w"
proof -
  show len: "head_len (ucast v) = 2"
    by (simp add: head_len_bits bits v)
  have "drop_bit 2 (ucast v :: usize) = w"
    unfolding v by (rule drop_tag [OF w], simp, simp, rule tag_bits)
  then show "head_value (ucast v # ucast (drop_bit 8 v) # xs) = w"
    by (simp only: head_value_cons(2) [OF len] join_bytes_2)
qed

lemma head_value_3:
  fixes v :: u32
  assumes w: "w < 2 ^ 22" and v: "v = ucast (push_bit 2 w) OR 2"
  shows "head_len (ucast v) = 3"
    and "head_value (ucast v # ucast (drop_bit 8 v) # ucast (drop_bit 16 v) # xs) = w"
proof -
  show len: "head_len (ucast v) = 3"
    by (simp add: head_len_bits bits v)
  have d: "drop_bit 2 (ucast v :: usize) = w"
    unfolding v by (rule drop_tag [OF w], simp, simp, rule tag_bits)
  have "i < 24" if b: "bit v i" for i
  proof (cases "i < 2")
    case False
    then have "bit w (i - 2)"
      using b tag_bits(2) [where 'a = 32, of i] False by (auto simp: v bits)
    then show ?thesis using word_less_bitD [OF w] by fastforce
  qed simp
  then have "v < 2 ^ 24"
    by (rule word_less_bitI) simp_all
  with d show "head_value (ucast v # ucast (drop_bit 8 v) # ucast (drop_bit 16 v) # xs) = w"
    by (simp only: head_value_cons(3) [OF len] join_bytes_3)
qed

lemma head_value_4:
  fixes v :: u32
  assumes w: "w < 2 ^ 30" and v: "v = ucast (push_bit 2 w) OR 3"
  shows "head_len (ucast v) = 4" and
    "head_value (ucast v # ucast (drop_bit 8 v) # ucast (drop_bit 16 v) # ucast (drop_bit 24 v) # xs) = w"
proof -
  show len: "head_len (ucast v) = 4"
    by (simp add: head_len_bits bits v)
  have "drop_bit 2 (ucast v :: usize) = w"
    unfolding v by (rule drop_tag [OF w], simp, simp, rule tag_bits)
  then show "head_value (ucast v # ucast (drop_bit 8 v) # ucast (drop_bit 16 v) # ucast (drop_bit 24 v) # xs) = w"
    by (simp only: head_value_cons(4) [OF len] join_bytes_4)
qed

lemma low_half:
  fixes v :: u32
  shows "ucast (ucast (v AND 0xFFFF) :: u16) = (ucast v :: u8)"
    and "ucast (drop_bit 8 (ucast (v AND 0xFFFF) :: u16)) = (ucast (drop_bit 8 v) :: u8)"
proof -
  have m: "(0xFFFF :: u32) = mask 16" by (simp add: mask_eq_exp_minus_1)
  show "ucast (ucast (v AND 0xFFFF) :: u16) = (ucast v :: u8)"
    and "ucast (drop_bit 8 (ucast (v AND 0xFFFF) :: u16)) = (ucast (drop_bit 8 v) :: u8)"
    unfolding m by (rule bit_word_eqI, auto simp: bits bit_mask_iff)+
qed

text \<open>
  Whatever the class of the header, decoding it gives the data's length back: the header is
  as long as its first byte says, and its value is the length.
\<close>

lemma encode_header_decodes:
  assumes "encode_header dat = Some hdr"
  shows "hdr \<noteq> []" and "head_len ((hdr @ xs) ! 0) = length hdr"
    and "head_value (hdr @ xs) = len_word dat"
proof -
  consider (one) "length dat < 2 ^ 6" | (two) "length dat < 2 ^ 14" "0x3F < length dat"
    | (three) "length dat < 2 ^ 22" "0x3FFF < length dat"
    | (four) "length dat < 2 ^ 30" "0x3FFFFF < length dat"
    using assms by (fastforce simp: encode_header_def split: if_splits)
  then have "hdr \<noteq> [] \<and> head_len ((hdr @ xs) ! 0) = length hdr
      \<and> head_value (hdr @ xs) = len_word dat"
  proof cases
    case one
    note w = len_word_less [OF one]
    show ?thesis
      using assms one by (auto simp: encode_header_def head_value_1 [OF w])
  next
    case two
    note w = len_word_less [OF two(1)]
    define v :: u16 where v: "v = ucast (push_bit 2 (len_word dat)) OR 1"
    have "hdr = [ucast v, ucast (drop_bit 8 v)]"
      using assms two by (auto simp: encode_header_def le_bytes_2 v)
    then show ?thesis
      by (simp add: head_value_2 [OF w v])
  next
    case three
    note w = len_word_less [OF three(1)]
    define v :: u32 where v: "v = ucast (push_bit 2 (len_word dat)) OR 2"
    have "hdr = [ucast v, ucast (drop_bit 8 v), ucast (drop_bit 16 v)]"
      using assms three low_half [of v]
      by (auto simp: encode_header_def le_bytes_2 Let_def simp flip: v)
    then show ?thesis
      by (simp add: head_value_3 [OF w v])
  next
    case four
    note w = len_word_less [OF four(1)]
    define v :: u32 where v: "v = ucast (push_bit 2 (len_word dat)) OR 3"
    have "hdr = [ucast v, ucast (drop_bit 8 v), ucast (drop_bit 16 v), ucast (drop_bit 24 v)]"
      using assms four by (auto simp: encode_header_def le_bytes_4 v)
    then show ?thesis
      by (simp add: head_value_4 [OF w v])
  qed
  then show "hdr \<noteq> []" and "head_len ((hdr @ xs) ! 0) = length hdr"
    and "head_value (hdr @ xs) = len_word dat" by simp_all
qed

subsection \<open>The codec as an incremental decoder\<close>

text \<open>
  \<open>drain\<close> is a run of \<open>decode\<close> calls on one buffer, until the decoder asks for more bytes or
  fails.  Every item takes bytes from the buffer or returns the decoder from a pending
  payload to the next header, so the run ends.
\<close>

definition codec_weight :: "bytes_codec \<Rightarrow> bytes \<Rightarrow> nat" where
  "codec_weight c src = 2 * length src + (case codec_state c of Head \<Rightarrow> 0 | Data _ \<Rightarrow> 1)"

lemma decode_weight:
  "decode c src = (Inr (Some m), c', r) \<Longrightarrow> codec_weight c' r < codec_weight c src"
  by (auto simp: decode_def decode_head_def decode_data_def codec_weight_def head_len_bits
      split: if_splits decode_state.splits sum.splits option.splits)

function drain :: "bytes_codec \<Rightarrow> bytes \<Rightarrow> bytes list \<times> io_error option \<times> bytes_codec \<times> bytes" where
  "drain c src =
     (case decode c src of
        (Inl e, c', r) \<Rightarrow> ([], Some e, c', r)
      | (Inr None, c', r) \<Rightarrow> ([], None, c', r)
      | (Inr (Some m), c', r) \<Rightarrow> (case drain c' r of (ms, e, c'', r') \<Rightarrow> (m # ms, e, c'', r')))"
  by pat_completeness auto
termination
  by (relation "measure (\<lambda>(c, src). codec_weight c src)") (auto dest: decode_weight [OF sym])

declare drain.simps [simp del]

lemma decode_raw_state:
  "decode c src = (res, c', r) \<Longrightarrow> codec_raw c' = codec_raw c \<and> max_packet_length c' = max_packet_length c"
  by (auto simp: decode_def split: if_splits decode_state.splits sum.splits option.splits)

lemma head_value_append:
  assumes "src \<noteq> []" and "head_len (src ! 0) \<le> length src"
  shows "head_value (src @ b) = head_value src"
  using assms by (auto simp: head_value_def Let_def nth_append)

lemma decode_head_append:
  "decode_head c src = Inr (Some (n, r)) \<Longrightarrow> decode_head c (src @ b) = Inr (Some (n, r @ b))"
  "decode_head c src = Inl e \<Longrightarrow> decode_head c (src @ b) = Inl e"
  by (auto simp: decode_head_def nth_append head_value_append split: if_splits)

interpretation codec: incremental_decoder decode drain codec_weight "\<lambda>c. \<not> codec_raw c"
proof unfold_locales
  fix c c' :: bytes_codec and a b r :: bytes and m
  assume "\<not> codec_raw c" and "decode c a = (Inr (Some m), c', r)"
  then show "decode c (a @ b) = (Inr (Some m), c', r @ b)"
    by (auto simp: decode_def decode_data_def
        split: if_splits decode_state.splits sum.splits option.splits dest!: decode_head_append [where src = a and b = b])
next
  fix c c' :: bytes_codec and a b r :: bytes
  assume raw: "\<not> codec_raw c" and d: "decode c a = (Inr None, c', r)"
  show "decode c (a @ b) = decode c' (r @ b)"
  proof (cases "c' = c \<and> r = a")
    case True
    then show ?thesis by simp
  next
    case False
    then obtain n where st: "codec_state c = Head" "decode_head c a = Inr (Some (n, r))"
      "c' = c\<lparr>codec_state := Data n\<rparr>"
      using raw d by (auto simp: decode_def split: decode_state.splits sum.splits option.splits)
    from decode_head_append(1) [OF st(2)] show ?thesis
      using raw st(1,3) by (simp add: decode_def split: option.split)
  qed
next
  fix c c' :: bytes_codec and a b r :: bytes and e
  assume "\<not> codec_raw c" and "decode c a = (Inl e, c', r)"
  then show "decode c (a @ b) = (Inl e, c', r @ b)"
    by (auto simp: decode_def 
        split: if_splits decode_state.splits sum.splits option.splits dest!: decode_head_append [where src = r and b = b])
next
  fix c c' :: bytes_codec and a r :: bytes and m
  assume "decode c a = (Inr (Some m), c', r)"
  then show "codec_weight c' r < codec_weight c a"
    by (rule decode_weight)
next
  fix c c' :: bytes_codec and a r :: bytes and res
  assume "\<not> codec_raw c" and "decode c a = (res, c', r)"
  then show "\<not> codec_raw c'"
    using decode_raw_state by blast
next
  fix c :: bytes_codec and a :: bytes
  show "drain c a =
         (case decode c a of
            (Inl e, s', r) \<Rightarrow> ([], Some e, s', r)
          | (Inr None, s', r) \<Rightarrow> ([], None, s', r)
          | (Inr (Some m), s', r) \<Rightarrow>
              (case drain s' r of (ms, e, s'', r') \<Rightarrow> (m # ms, e, s'', r')))"
    by (rule drain.simps)
qed

subsection \<open>Sending and receiving\<close>

text \<open>A sender encodes its messages one after the other into the same buffer.\<close>

fun encode_all :: "bytes_codec \<Rightarrow> bytes list \<Rightarrow> bytes \<Rightarrow> io_error + bytes" where
  "encode_all c [] buf = Inr buf"
| "encode_all c (m # ms) buf =
     (case encode c m buf of Inl e \<Rightarrow> Inl e | Inr buf' \<Rightarrow> encode_all c ms buf')"

lemma encode_header_length: "encode_header m = Some hdr \<Longrightarrow> length m \<le> 0x3FFFFFFF"
  by (auto simp: encode_header_def split: if_splits)

lemma encode_header_None: "encode_header m = None \<longleftrightarrow> 0x3FFFFFFF < length m"
  by (auto simp: encode_header_def Let_def split: if_splits)

lemma decode_frame:
  assumes raw: "\<not> codec_raw c" and st: "codec_state c = Head" and hdr: "encode_header m = Some hdr"
    and max: "length m \<le> unat (max_packet_length c)"
  shows "decode c (hdr @ m @ rest) = (Inr (Some m), c, rest)"
proof -
  have len: "unat (len_word m) = length m"
    using encode_header_length [OF hdr] by (intro unat_len_word) simp
  have "c\<lparr>codec_state := Head\<rparr> = c" using st by simp
  moreover have "\<not> max_packet_length c < len_word m"
    using max by (simp add: word_less_nat_alt len)
  ultimately show ?thesis
    using raw st encode_header_decodes(1) [OF hdr] encode_header_decodes(2,3) [OF hdr, of "m @ rest"]
    by (simp add: decode_def decode_head_def decode_data_def len)
qed

lemma drain_frames:
  assumes "\<not> codec_raw c" "codec_state c = Head" "\<forall>m \<in> set ms. length m \<le> unat (max_packet_length c)"
  shows "encode_all c ms buf = Inr wire \<Longrightarrow>
    \<exists>w. wire = buf @ w \<and> drain c w = (ms, None, c, [])"
  using assms(3)
proof (induction ms arbitrary: buf)
  case Nil
  then show ?case
    using assms(1,2) by (simp add: drain.simps decode_def decode_head_def)
next
  case (Cons m ms)
  then obtain hdr where hdr: "encode_header m = Some hdr"
    and all: "encode_all c ms (buf @ hdr @ m) = Inr wire"
    using assms(1) by (auto simp: encode_def split: option.splits sum.splits)
  from Cons.IH [OF all] Cons.prems(2) obtain w
    where w: "wire = (buf @ hdr @ m) @ w" "drain c w = (ms, None, c, [])" by auto
  from decode_frame [OF assms(1,2) hdr, of w] Cons.prems(2) w(2)
  have "drain c (hdr @ m @ w) = (m # ms, None, c, [])"
    by (simp add: drain.simps [of c "hdr @ m @ w"])
  with w(1) show ?case by auto
qed

lemma feed_frames:
  assumes "\<not> codec_raw c" and "codec_state c = Head"
    and "\<forall>m \<in> set ms. length m \<le> unat (max_packet_length c)"
    and "encode_all c ms [] = Inr wire" and "concat chunks = wire"
  shows "feed_with drain c [] chunks = (ms, None, c, [])"
proof -
  obtain ms' e c' r where f: "feed_with drain c [] chunks = (ms', e, c', r)"
    by (cases "feed_with drain c [] chunks")
  have "drain c [] = ([], None, c, [])"
    using assms(1,2) by (simp add: drain.simps decode_def decode_head_def)
  from codec.feed_drain [OF assms(1) this f] obtain r'
    where "drain c wire = (ms', e, c', r')" "e = None \<longrightarrow> r' = r"
    using assms(5) by auto
  with drain_frames [OF assms(1-3) assms(4)] f show ?thesis by auto
qed

text \<open>
  C1. Framing is a round trip whatever the reads: messages that the encoder accepts and that
  are within the decoder's limit are given back in order, each once and complete, however the
  bytes on the wire were cut into chunks, and the decoder ends at a header with no byte left.
\<close>

theorem codec_stream_roundtrip:
  assumes "\<not> codec_raw c" and "codec_state c = Head"
    and "\<forall>m \<in> set ms. length m \<le> unat (max_packet_length c)"
    and "encode_all c ms [] = Inr wire" and "concat chunks = wire"
  shows "feed_with drain c [] chunks = (ms, None, c, [])"
  using assms by (rule feed_frames)

theorem codec_stream_roundtrip_witness:
  "feed_with drain codec_new [] [[4], [7, 8], [1, 2]] = ([[7], [1, 2]], None, codec_new, [])"
  by (rule codec_stream_roundtrip [where wire = "[4, 7, 8, 1, 2]"])
    (simp_all add: codec_new_def encode_def encode_header_def len_word_def unsigned_minus_1_eq_mask mask_eq_exp_minus_1)

text \<open>
  The size limit is enforced on the header alone: from a header state the decoder fails
  exactly when the whole header is there and announces more than the limit, it then consumes
  nothing and stays where it was, and every item it ever returns is within the limit.
\<close>

theorem decode_limit:
  assumes "\<not> codec_raw c" and "codec_state c = Head"
  shows "(decode c src = (Inl e, c', r)) =
      (src \<noteq> [] \<and> head_len (src ! 0) \<le> length src \<and> max_packet_length c < head_value src \<and>
       e = InvalidData ''Too big packet'' \<and> c' = c \<and> r = src) \<and>
    (decode c src = (Inr (Some m), c', r) \<longrightarrow> length m \<le> unat (max_packet_length c))"
proof (intro conjI impI)
  show "(decode c src = (Inl e, c', r)) =
      (src \<noteq> [] \<and> head_len (src ! 0) \<le> length src \<and> max_packet_length c < head_value src \<and>
       e = InvalidData ''Too big packet'' \<and> c' = c \<and> r = src)"
    using assms by (auto simp: decode_def decode_head_def split: option.splits)
next
  assume "decode c src = (Inr (Some m), c', r)"
  with assms show "length m \<le> unat (max_packet_length c)"
    by (auto simp: decode_def decode_head_def decode_data_def word_less_nat_alt split: if_splits)
qed

theorem decode_limit_witness:
  "decode (codec_new\<lparr>max_packet_length := 1\<rparr>) [8, 1, 2] =
     (Inl (InvalidData ''Too big packet''), codec_new\<lparr>max_packet_length := 1\<rparr>, [8, 1, 2])"
  using decode_limit [of "codec_new\<lparr>max_packet_length := 1\<rparr>" "[8, 1, 2]" "InvalidData ''Too big packet''"
      "codec_new\<lparr>max_packet_length := 1\<rparr>" "[8, 1, 2]"]
  by (simp add: codec_new_def head_len_def head_value_def)

end
