(* ===== verification/Framed_Stream.thy ===== *)
theory Framed_Stream
  imports Bytes_Codec
begin

text \<open>
  The message stream of \<^verbatim>\<open>libs/hbb_common/src/tcp.rs\<close>: \<open>FramedStream\<close> with its optional
  \<open>Encrypt\<close> state (a key and two sequence numbers), the peek buffer, \<open>send_raw\<close>,
  \<open>next\<close>, \<open>peek\<close>, and the nonces built from the sequence numbers.

  libsodium's \<^verbatim>\<open>secretbox::seal\<close> and \<^verbatim>\<open>secretbox::open\<close> are the parameters \<open>seal\<close> and
  \<open>unseal\<close>; the frames \<^verbatim>\<open>tokio_util::codec::Framed\<close> yields are the list
  \<open>inbox\<close> (what one \<^verbatim>\<open>next().await\<close> on it returns is its head, and the end of the stream
  is the empty list).  Socket set-up, timeouts and proxies are not modelled.
\<close>

subsection \<open>Nonces\<close>

definition get_nonce :: "u64 \<Rightarrow> bytes" where
  "get_nonce seqnum = le_bytes 8 seqnum @ replicate 16 0"

lemma get_nonce_inj: "get_nonce a = get_nonce b \<Longrightarrow> a = b"
  by (auto simp: get_nonce_def intro: le_bytes_inj)

subsection \<open>Encryption state\<close>

record 'k encrypt =
  enc_key :: 'k
  send_seq :: u64
  recv_seq :: u64

definition encrypt_new :: "'k \<Rightarrow> 'k encrypt" where
  "encrypt_new k = \<lparr>enc_key = k, send_seq = 0, recv_seq = 0\<rparr>"

definition enc ::
  "(bytes \<Rightarrow> bytes \<Rightarrow> 'k \<Rightarrow> bytes) \<Rightarrow> 'k encrypt \<Rightarrow> bytes \<Rightarrow> bytes \<times> 'k encrypt" where
  "enc seal e dat =
     (let e' = e\<lparr>send_seq := send_seq e + 1\<rparr>
      in (seal dat (get_nonce (send_seq e')) (enc_key e'), e'))"

definition dec ::
  "(bytes \<Rightarrow> bytes \<Rightarrow> 'k \<Rightarrow> bytes option) \<Rightarrow> 'k encrypt \<Rightarrow> bytes \<Rightarrow> (io_error + bytes) \<times> 'k encrypt" where
  "dec unseal e b =
     (if length b \<le> 1 then (Inr b, e)
      else
        let e' = e\<lparr>recv_seq := recv_seq e + 1\<rparr>
        in case unseal b (get_nonce (recv_seq e')) (enc_key e') of
             Some res \<Rightarrow> (Inr res, e')
           | None \<Rightarrow> (Inl (OtherError ''decryption error''), e'))"

subsection \<open>The stream\<close>

record 'k framed_stream =
  framed_codec :: bytes_codec
  wire_out :: bytes
  inbox :: "(io_error + bytes) list"
  encrypt_of :: "'k encrypt option"
  peek_buf :: "bytes option"

definition is_secured :: "'k framed_stream \<Rightarrow> bool" where
  "is_secured s = (encrypt_of s \<noteq> None)"

definition set_key :: "'k framed_stream \<Rightarrow> 'k \<Rightarrow> 'k framed_stream" where
  "set_key s k = s\<lparr>encrypt_of := Some (encrypt_new k)\<rparr>"

definition stream_set_raw :: "'k framed_stream \<Rightarrow> 'k framed_stream" where
  "stream_set_raw s = s\<lparr>framed_codec := set_raw (framed_codec s), encrypt_of := None\<rparr>"

definition send_bytes :: "'k framed_stream \<Rightarrow> bytes \<Rightarrow> (io_error + unit) \<times> 'k framed_stream" where
  "send_bytes s b =
     (case encode (framed_codec s) b (wire_out s) of
        Inl e \<Rightarrow> (Inl e, s)
      | Inr w \<Rightarrow> (Inr (), s\<lparr>wire_out := w\<rparr>))"

definition send_raw ::
  "(bytes \<Rightarrow> bytes \<Rightarrow> 'k \<Rightarrow> bytes) \<Rightarrow> 'k framed_stream \<Rightarrow> bytes
     \<Rightarrow> (io_error + unit) \<times> 'k framed_stream" where
  "send_raw seal s msg =
     (case encrypt_of s of
        Some e \<Rightarrow> (case enc seal e msg of (msg', e') \<Rightarrow> send_bytes (s\<lparr>encrypt_of := Some e'\<rparr>) msg')
      | None \<Rightarrow> send_bytes s msg)"

definition next_frame ::
  "(bytes \<Rightarrow> bytes \<Rightarrow> 'k \<Rightarrow> bytes option) \<Rightarrow> 'k framed_stream
     \<Rightarrow> (io_error + bytes) option \<times> 'k framed_stream" where
  "next_frame unseal s =
     (case inbox s of
        [] \<Rightarrow> (None, s)
      | Inl e # fs \<Rightarrow> (Some (Inl e), s\<lparr>inbox := fs\<rparr>)
      | Inr b # fs \<Rightarrow>
          (case encrypt_of s of
             None \<Rightarrow> (Some (Inr b), s\<lparr>inbox := fs\<rparr>)
           | Some key \<Rightarrow> (case dec unseal key b of
                 (res, key') \<Rightarrow> (Some res, s\<lparr>inbox := fs, encrypt_of := Some key'\<rparr>))))"

definition stream_next ::
  "(bytes \<Rightarrow> bytes \<Rightarrow> 'k \<Rightarrow> bytes option) \<Rightarrow> 'k framed_stream
     \<Rightarrow> (io_error + bytes) option \<times> 'k framed_stream" where
  "stream_next unseal s =
     (case peek_buf s of
        Some b \<Rightarrow> (Some (Inr b), s\<lparr>peek_buf := None\<rparr>)
      | None \<Rightarrow> next_frame unseal s)"

definition stream_peek ::
  "(bytes \<Rightarrow> bytes \<Rightarrow> 'k \<Rightarrow> bytes option) \<Rightarrow> 'k framed_stream
     \<Rightarrow> (io_error + bytes) option \<times> 'k framed_stream" where
  "stream_peek unseal s =
     (case peek_buf s of
        Some b \<Rightarrow> (Some (Inr b), s)
      | None \<Rightarrow> (case next_frame unseal s of
            (Some (Inr b), s') \<Rightarrow> (Some (Inr b), s'\<lparr>peek_buf := Some b\<rparr>)
          | (Some (Inl e), s') \<Rightarrow> (Some (Inl e), s')
          | (None, s') \<Rightarrow> (None, s')))"

subsection \<open>Runs\<close>

fun send_all ::
  "(bytes \<Rightarrow> bytes \<Rightarrow> 'k \<Rightarrow> bytes) \<Rightarrow> 'k framed_stream \<Rightarrow> bytes list \<Rightarrow> io_error + 'k framed_stream" where
  "send_all seal s [] = Inr s"
| "send_all seal s (m # ms) =
     (case send_raw seal s m of (Inl e, s') \<Rightarrow> Inl e | (Inr _, s') \<Rightarrow> send_all seal s' ms)"

fun recv_n ::
  "(bytes \<Rightarrow> bytes \<Rightarrow> 'k \<Rightarrow> bytes option) \<Rightarrow> nat \<Rightarrow> 'k framed_stream
     \<Rightarrow> (io_error + bytes) option list \<times> 'k framed_stream" where
  "recv_n unseal 0 s = ([], s)"
| "recv_n unseal (Suc n) s =
     (case stream_next unseal s of (x, s') \<Rightarrow>
       (case recv_n unseal n s' of (xs, s'') \<Rightarrow> (x # xs, s'')))"

text \<open>The frames a secured sender puts on the wire, from sequence number \<open>q\<close> on.\<close>

fun sealed_frames ::
  "(bytes \<Rightarrow> bytes \<Rightarrow> 'k \<Rightarrow> bytes) \<Rightarrow> 'k \<Rightarrow> u64 \<Rightarrow> bytes list \<Rightarrow> bytes list" where
  "sealed_frames seal k q [] = []"
| "sealed_frames seal k q (m # ms) = seal m (get_nonce (q + 1)) k # sealed_frames seal k (q + 1) ms"

lemma send_all_wire:
  "send_all seal s ms = Inr s' \<Longrightarrow> encrypt_of s = Some e \<Longrightarrow>
    encode_all (framed_codec s) (sealed_frames seal (enc_key e) (send_seq e) ms) (wire_out s)
      = Inr (wire_out s')"
proof (induction ms arbitrary: s e)
  case Nil
  then show ?case by simp
next
  case (Cons m ms)
  let ?e = "e\<lparr>send_seq := send_seq e + 1\<rparr>"
  let ?c = "seal m (get_nonce (send_seq e + 1)) (enc_key e)"
  obtain w where w: "encode (framed_codec s) ?c (wire_out s) = Inr w"
    and all: "send_all seal (s\<lparr>encrypt_of := Some ?e, wire_out := w\<rparr>) ms = Inr s'"
    using Cons.prems by (auto simp: send_raw_def enc_def Let_def send_bytes_def split: sum.splits)
  from Cons.IH [OF all, of ?e] w show ?case by simp
qed

lemma recv_sealed:
  assumes unseal: "\<And>m n k. unseal (seal m n k) n k = Some m"
    and len: "\<And>m n k. length (seal m n k) = length m + 16"
  shows "inbox r = map Inr (sealed_frames seal k q ms) \<Longrightarrow> encrypt_of r = Some e \<Longrightarrow>
    enc_key e = k \<Longrightarrow> recv_seq e = q \<Longrightarrow> peek_buf r = None \<Longrightarrow>
    \<exists>r'. recv_n unseal (length ms) r = (map (Some \<circ> Inr) ms, r') \<and> inbox r' = []"
proof (induction ms arbitrary: r e q)
  case Nil
  then show ?case by simp
next
  case (Cons m ms)
  let ?e = "e\<lparr>recv_seq := q + 1\<rparr>"
  let ?r = "r\<lparr>inbox := map Inr (sealed_frames seal k (q + 1) ms), encrypt_of := Some ?e\<rparr>"
  have "stream_next unseal r = (Some (Inr m), ?r)"
    using Cons.prems unseal len by (simp add: stream_next_def next_frame_def dec_def)
  moreover from Cons.IH [of ?r "q + 1" ?e] Cons.prems
  obtain r' where "recv_n unseal (length ms) ?r = (map (Some \<circ> Inr) ms, r')" "inbox r' = []"
    by auto
  ultimately show ?case by simp
qed

lemma sealed_frames_bound:
  assumes "\<And>m n k. length (seal m n k) = length m + 16"
  shows "(\<forall>m \<in> set ms. length m + 16 \<le> b) \<Longrightarrow>
    \<forall>f \<in> set (sealed_frames seal k q ms). length f \<le> b"
  using assms by (induction ms arbitrary: q) auto

text \<open>
  C2. A secured connection delivers what was sent: when sender and receiver hold the same key
  and the receiver's count equals the sender's, the plaintexts sent one after the other are
  what the receiver's calls of \<open>next\<close> return, in order, however the wire bytes were cut into
  reads; nothing is left over.  The hypotheses on \<open>seal\<close> and \<open>unseal\<close> are libsodium's
  documented contract: opening with the same nonce and key undoes sealing, and sealing adds
  an authenticator of 16 bytes.
\<close>

theorem secure_channel_roundtrip:
  assumes "\<And>m n k. unseal (seal m n k) n k = Some m"
    and "\<And>m n k. length (seal m n k) = length m + 16"
    and "encrypt_of s = Some e" and "wire_out s = []" and "framed_codec s = codec_new"
    and "send_all seal s ms = Inr s'"
    and "\<forall>m \<in> set ms. length m + 16 \<le> unat (max_packet_length codec_new)"
    and "concat chunks = wire_out s'"
    and "feed_with drain codec_new [] chunks = (frames, err, c', rest)"
    and "inbox r = map Inr frames" and "encrypt_of r = Some e'" and "enc_key e' = enc_key e"
    and "recv_seq e' = send_seq e" and "peek_buf r = None"
  shows "\<exists>r'. recv_n unseal (length ms) r = (map (Some \<circ> Inr) ms, r') \<and> inbox r' = [] \<and>
    err = None \<and> rest = []"
proof -
  let ?fs = "sealed_frames seal (enc_key e) (send_seq e) ms"
  have "encode_all codec_new ?fs [] = Inr (wire_out s')"
    using send_all_wire [OF assms(6,3)] assms(4,5) by simp
  moreover have "\<forall>m \<in> set ?fs. length m \<le> unat (max_packet_length codec_new)"
    using sealed_frames_bound [where seal = seal, OF assms(2) assms(7)] .
  ultimately have "feed_with drain codec_new [] chunks = (?fs, None, codec_new, [])"
    using assms(8) by (intro feed_frames) (simp_all add: codec_new_def)
  with assms(9) have "frames = ?fs" "err = None" "rest = []" by auto
  with recv_sealed [where unseal = unseal and seal = seal, OF assms(1,2)] assms(10-14)
  show ?thesis by simp
qed

theorem secure_channel_roundtrip_witness:
  "\<exists>r'. recv_n (\<lambda>c n k. if k = () then Some (drop 16 c) else None) 1
      \<lparr>framed_codec = codec_new, wire_out = [], inbox = [Inr (replicate 16 0 @ [7])],
        encrypt_of = Some (encrypt_new ()), peek_buf = None\<rparr> = ([Some (Inr [7])], r') \<and> inbox r' = []"
proof -
  let ?seal = "\<lambda>m n (k :: unit). replicate 16 0 @ m"
  let ?s = "\<lparr>framed_codec = codec_new, wire_out = [], inbox = [], encrypt_of = Some (encrypt_new ()),
    peek_buf = None\<rparr>"
  have snd: "send_all ?seal ?s [[7]] = Inr (?s\<lparr>wire_out := 68 # replicate 16 0 @ [7],
      encrypt_of := Some (encrypt_new ()\<lparr>send_seq := 1\<rparr>)\<rparr>)"
    by (simp add: send_raw_def enc_def send_bytes_def encode_def encode_header_def codec_new_def
        encrypt_new_def len_word_def)
  have fr: "feed_with drain codec_new [] [68 # replicate 16 0 @ [7]]
      = ([replicate 16 0 @ [7]], None, codec_new, [])"
    by (rule feed_frames)
      (simp_all add: codec_new_def encode_def encode_header_def len_word_def
        unsigned_minus_1_eq_mask mask_eq_exp_minus_1)
  show ?thesis
    using secure_channel_roundtrip [where seal = ?seal and s = ?s and ms = "[[7]]"
        and unseal = "\<lambda>c n k. if k = () then Some (drop 16 c) else None"
        and chunks = "[68 # replicate 16 0 @ [7]]" and e = "encrypt_new ()" and e' = "encrypt_new ()"
        and r = "\<lparr>framed_codec = codec_new, wire_out = [], inbox = [Inr (replicate 16 0 @ [7])],
        encrypt_of = Some (encrypt_new ()), peek_buf = None\<rparr>", OF _ _ _ _ _ snd _ _ fr]
    by (simp add: codec_new_def unsigned_minus_1_eq_mask mask_eq_exp_minus_1 encrypt_new_def)
qed

lemma sealed_nonces_nth:
  "i < length ms \<Longrightarrow>
    sealed_frames (\<lambda>m n k. n) k q ms ! i = get_nonce (q + 1 + word_of_nat i)"
proof (induction ms arbitrary: q i)
  case (Cons m ms)
  then show ?case by (cases i) (simp_all add: add_ac)
qed simp

lemma length_sealed_frames [simp]: "length (sealed_frames seal k q ms) = length ms"
  by (induction ms arbitrary: q) simp_all

text \<open>
  A secured sender never uses a nonce twice within \<open>2 ^ 64\<close> messages: the nonces of the
  frames it seals (the frames of a \<open>seal\<close> that returns its nonce) are pairwise distinct.
\<close>

theorem nonces_distinct:
  assumes "length ms \<le> 2 ^ 64"
  shows "distinct (sealed_frames (\<lambda>m n k. n) k q ms)"
proof -
  have "i = j" if "i < length ms" "j < length ms"
    and eq: "get_nonce (q + 1 + word_of_nat i) = get_nonce (q + 1 + word_of_nat j)" for i j
  proof -
    from get_nonce_inj [OF eq] have "(word_of_nat i :: u64) = word_of_nat j" by simp
    then have "unat (word_of_nat i :: u64) = unat (word_of_nat j :: u64)" by simp
    with that(1,2) assms show ?thesis by (simp add: unat_of_nat)
  qed
  then show ?thesis by (auto simp: distinct_conv_nth sealed_nonces_nth)
qed

theorem nonces_distinct_witness:
  "distinct (sealed_frames (\<lambda>m n k. n) () (- 1) [[1], [2], [3 :: u8]])"
  by (rule nonces_distinct) simp

text \<open>
  Peeking consumes nothing: after a successful \<open>peek\<close> the next \<open>next\<close> returns the
  message that was peeked, and both its result and the stream it leaves are those of a \<open>next\<close>
  without the peek.
\<close>

theorem peek_then_next:
  assumes "stream_peek unseal s = (Some (Inr b), s1)"
  shows "stream_next unseal s1 = stream_next unseal s \<and>
    fst (stream_next unseal s) = Some (Inr b)"
proof -
  have keep: "peek_buf s' = peek_buf s" if "next_frame unseal s = (x, s')" for x s'
    using that by (auto simp: next_frame_def split: list.splits sum.splits option.splits prod.splits)
  show ?thesis
    using assms keep
    by (auto simp: stream_peek_def stream_next_def split: option.splits prod.splits sum.splits)
qed

theorem peek_then_next_witness:
  "stream_next (\<lambda>c n k. Some c)
     \<lparr>framed_codec = codec_new, wire_out = [], inbox = [], encrypt_of = None :: unit encrypt option,
      peek_buf = Some [9]\<rparr>
   = (Some (Inr [9]), \<lparr>framed_codec = codec_new, wire_out = [], inbox = [], encrypt_of = None,
      peek_buf = None\<rparr>)"
proof -
  let ?s = "\<lparr>framed_codec = codec_new, wire_out = [], inbox = [Inr [9]],
    encrypt_of = None :: unit encrypt option, peek_buf = None\<rparr>"
  have "stream_peek (\<lambda>c n k. Some c) ?s
    = (Some (Inr [9]), ?s\<lparr>inbox := [], peek_buf := Some [9]\<rparr>)"
    by (simp add: stream_peek_def next_frame_def)
  from peek_then_next [OF this] show ?thesis
    by (simp add: stream_next_def next_frame_def)
qed

end
