(* ===== verification/Terminal_Buffer.thy ===== *)
theory Terminal_Buffer
  imports Prelude "HOL-Library.Sublist"
begin

text \<open>
  The scroll-back buffer of a terminal session, \<^verbatim>\<open>OutputBuffer\<close> of
  \<^verbatim>\<open>src/server/terminal_service.rs\<close>: \<open>append\<close> with its handling of unfinished lines and the
  trimming loop, and \<open>get_recent\<close>.  Sizes are \<^verbatim>\<open>usize\<close> values that wrap, as in the release
  profile; the trimming loop is a partial function, \<open>None\<close> where it never ends.
\<close>

subsection \<open>The buffer\<close>

definition MAX_OUTPUT_BUFFER_SIZE :: usize where
  "MAX_OUTPUT_BUFFER_SIZE = 1024 * 1024"

definition MAX_BUFFER_LINES :: nat where
  "MAX_BUFFER_LINES = 10000"

record output_buffer =
  buf_lines :: "bytes list"
  total_size :: usize
  last_line_incomplete :: bool

definition output_buffer_new :: output_buffer where
  "output_buffer_new = \<lparr>buf_lines = [], total_size = 0, last_line_incomplete = False\<rparr>"

text \<open>The newline byte, and \<^verbatim>\<open>slice::split\<close> at newlines: one part more than newlines.\<close>

abbreviation newline :: u8 where
  "newline \<equiv> 10"

fun split_newline :: "bytes \<Rightarrow> bytes list" where
  "split_newline [] = [[]]"
| "split_newline (x # xs) =
     (if x = newline then [] # split_newline xs
      else case split_newline xs of [] \<Rightarrow> [[x]] | s # ss \<Rightarrow> (x # s) # ss)"

text \<open>
  The first part of \<open>append\<close>: completing an unfinished last line.  \<open>Inl\<close> is the early return
  of the branch without a newline, \<open>Inr\<close> the buffer and the data that is left.
\<close>

definition complete_line :: "output_buffer \<Rightarrow> bytes \<Rightarrow> output_buffer + (output_buffer \<times> bytes)" where
  "complete_line b dat =
     (if last_line_incomplete b \<and> buf_lines b \<noteq> [] then
        (let ls = butlast (buf_lines b); l = last (buf_lines b);
             pre = takeWhile (\<lambda>x. x \<noteq> newline) dat
         in if newline \<in> set dat then
              Inr (b\<lparr>buf_lines := ls @ [l @ pre @ [newline]], last_line_incomplete := False\<rparr>,
                   drop (length pre + 1) dat)
            else
              Inl (b\<lparr>buf_lines := ls @ [l @ dat],
                     total_size := total_size b + word_of_nat (length dat)\<rparr>))
      else Inr (b, dat))"

text \<open>The loop over the parts of the remaining data; the last part has no newline after it.\<close>

fun push_lines :: "bool \<Rightarrow> bytes list \<Rightarrow> output_buffer \<Rightarrow> output_buffer" where
  "push_lines ends [] b = b"
| "push_lines ends (l # ls) b =
     (let is_last = (ls = []);
          b1 = (if is_last \<and> \<not> ends \<and> l \<noteq> [] then b\<lparr>last_line_incomplete := True\<rparr> else b);
          b2 = (if l \<noteq> [] \<or> \<not> is_last then
                  (let line_data = (if \<not> is_last \<or> ends then l @ [newline] else l)
                   in b1\<lparr>total_size := total_size b1 + word_of_nat (length line_data),
                         buf_lines := buf_lines b1 @ [line_data]\<rparr>)
                else b1)
      in push_lines ends ls b2)"

partial_function (option) trim :: "output_buffer \<Rightarrow> output_buffer option" where
  "trim b =
     (if MAX_OUTPUT_BUFFER_SIZE < total_size b \<or> MAX_BUFFER_LINES < length (buf_lines b) then
        (case buf_lines b of
           [] \<Rightarrow> trim b
         | l # ls \<Rightarrow> trim (b\<lparr>buf_lines := ls, total_size := total_size b - word_of_nat (length l)\<rparr>))
      else Some b)"

definition append_output :: "output_buffer \<Rightarrow> bytes \<Rightarrow> output_buffer option" where
  "append_output b dat =
     (if dat = [] then Some b
      else case complete_line b dat of
             Inl b' \<Rightarrow> Some b'
           | Inr (b', remaining) \<Rightarrow>
               (let ends = (remaining \<noteq> [] \<and> last remaining = newline)
                in trim (push_lines ends (split_newline remaining) b')))"

text \<open>
  \<open>get_recent\<close> walks the lines from the newest and stops at the first that would exceed the
  limit.
\<close>

fun recent :: "nat \<Rightarrow> nat \<Rightarrow> bytes list \<Rightarrow> bytes \<Rightarrow> bytes" where
  "recent max_bytes sz [] result = result"
| "recent max_bytes sz (l # ls) result =
     (if max_bytes < sz + length l then result
      else recent max_bytes (sz + length l) ls (l @ result))"

definition get_recent :: "output_buffer \<Rightarrow> nat \<Rightarrow> bytes" where
  "get_recent b max_bytes = recent max_bytes 0 (rev (buf_lines b)) []"

subsection \<open>What the buffer holds\<close>

definition content :: "output_buffer \<Rightarrow> bytes" where
  "content b = concat (buf_lines b)"

lemma split_newline_not_Nil [simp]: "split_newline xs \<noteq> []"
  by (cases xs) (auto split: list.splits)

lemma split_newline_join:
  "concat (map (\<lambda>l. l @ [newline]) (butlast (split_newline xs))) @ last (split_newline xs) = xs"
  by (induction xs) (auto split: list.splits if_splits)

lemma split_newline_empty [simp]: "split_newline xs = [[]] \<longleftrightarrow> xs = []"
  by (induction xs) (auto split: list.splits if_splits)

lemma split_newline_last: "xs \<noteq> [] \<Longrightarrow> last xs = newline \<Longrightarrow> last (split_newline xs) = []"
  by (induction xs) (auto split: list.splits if_splits)

text \<open>
  What the loop over the parts adds: the parts joined again, counted byte for byte; the last
  part is marked unfinished when it is not empty.
\<close>

lemma push_lines_adds:
  assumes "ls \<noteq> []" and "ends \<longrightarrow> last ls = []"
  shows "\<exists>new. buf_lines (push_lines ends ls b) = buf_lines b @ new
    \<and> concat new = concat (map (\<lambda>l. l @ [newline]) (butlast ls)) @ last ls
    \<and> total_size (push_lines ends ls b) = total_size b + word_of_nat (length (concat new))
    \<and> (last_line_incomplete (push_lines ends ls b) = (last_line_incomplete b \<or> last ls \<noteq> []))
    \<and> (last ls \<noteq> [] \<longrightarrow> new \<noteq> [])"
  using assms
proof (induction ls arbitrary: b)
  case Nil
  then show ?case by simp
next
  case (Cons l ls)
  show ?case
  proof (cases "ls = []")
    case True
    with Cons.prems show ?thesis
      by (intro exI [of _ "if l = [] then [] else [l]"]) auto
  next
    case False
    let ?b = "b\<lparr>total_size := total_size b + word_of_nat (length (l @ [newline])),
      buf_lines := buf_lines b @ [l @ [newline]]\<rparr>"
    from Cons.IH [OF False, of ?b] Cons.prems False obtain new
      where new: "buf_lines (push_lines ends ls ?b) = buf_lines ?b @ new"
        "concat new = concat (map (\<lambda>l. l @ [newline]) (butlast ls)) @ last ls"
        "total_size (push_lines ends ls ?b) = total_size ?b + word_of_nat (length (concat new))"
        "last_line_incomplete (push_lines ends ls ?b) = (last_line_incomplete ?b \<or> last ls \<noteq> [])"
        "last ls \<noteq> [] \<longrightarrow> new \<noteq> []"
      by auto
    with False show ?thesis
      by (intro exI [of _ "(l @ [newline]) # new"]) (simp add: Let_def algebra_simps)
  qed
qed

lemma push_split_adds:
  assumes "ends = (xs \<noteq> [] \<and> last xs = newline)"
  shows "\<exists>new. buf_lines (push_lines ends (split_newline xs) b) = buf_lines b @ new \<and> concat new = xs
    \<and> total_size (push_lines ends (split_newline xs) b) = total_size b + word_of_nat (length xs)
    \<and> (last_line_incomplete (push_lines ends (split_newline xs) b)
        = (last_line_incomplete b \<or> xs \<noteq> [] \<and> last xs \<noteq> newline))
    \<and> (xs \<noteq> [] \<and> last xs \<noteq> newline \<longrightarrow> new \<noteq> [])"
proof -
  have "last (split_newline xs) \<noteq> [] \<longleftrightarrow> xs \<noteq> [] \<and> last xs \<noteq> newline"
    by (induction xs) (auto split: list.splits if_splits)
  with push_lines_adds [of "split_newline xs" ends b] split_newline_last [of xs]
  show ?thesis using assms by (auto simp: split_newline_join)
qed

text \<open>Trimming drops lines from the front only.\<close>

lemma trim_suffix:
  assumes "trim b = Some b'"
  shows "suffix (buf_lines b') (buf_lines b) \<and> last_line_incomplete b' = last_line_incomplete b
    \<and> total_size b' \<le> MAX_OUTPUT_BUFFER_SIZE \<and> length (buf_lines b') \<le> MAX_BUFFER_LINES"
proof (rule trim.raw_induct [where P = "\<lambda>b b'. suffix (buf_lines b') (buf_lines b)
    \<and> last_line_incomplete b' = last_line_incomplete b
    \<and> total_size b' \<le> MAX_OUTPUT_BUFFER_SIZE \<and> length (buf_lines b') \<le> MAX_BUFFER_LINES", OF _ assms])
  fix f b b'
  assume "\<And>b b'. f b = Some b' \<Longrightarrow> suffix (buf_lines b') (buf_lines b)
    \<and> last_line_incomplete b' = last_line_incomplete b
    \<and> total_size b' \<le> MAX_OUTPUT_BUFFER_SIZE \<and> length (buf_lines b') \<le> MAX_BUFFER_LINES"
  and "(if MAX_OUTPUT_BUFFER_SIZE < total_size b \<or> MAX_BUFFER_LINES < length (buf_lines b)
      then case buf_lines b of [] \<Rightarrow> f b
        | l # ls \<Rightarrow> f (b\<lparr>buf_lines := ls, total_size := total_size b - word_of_nat (length l)\<rparr>)
      else Some b) = Some b'"
  then show "suffix (buf_lines b') (buf_lines b) \<and> last_line_incomplete b' = last_line_incomplete b
    \<and> total_size b' \<le> MAX_OUTPUT_BUFFER_SIZE \<and> length (buf_lines b') \<le> MAX_BUFFER_LINES"
    by (fastforce split: if_splits list.splits intro: suffix_ConsI)
qed

text \<open>
  With no line left and the count above the limit, the loop never ends; a count that is too
  low by what the last line holds leads there, since the last subtraction wraps.
\<close>

lemma trim_empty_diverges:
  assumes "buf_lines b = []" and "MAX_OUTPUT_BUFFER_SIZE < total_size b"
  shows "trim b = None"
proof (rule ccontr)
  assume "trim b \<noteq> None"
  then obtain b' where b': "trim b = Some b'" by auto
  have "\<not> (buf_lines b = [] \<and> MAX_OUTPUT_BUFFER_SIZE < total_size b)"
    by (rule trim.raw_induct
        [where P = "\<lambda>b b'. \<not> (buf_lines b = [] \<and> MAX_OUTPUT_BUFFER_SIZE < total_size b)", OF _ b'])
      (auto split: if_splits)
  with assms show False by simp
qed

lemma trim_undercounted_diverges:
  assumes "MAX_OUTPUT_BUFFER_SIZE < word_of_nat r" "r < length l" "length l < 2 ^ 63" "r < 2 ^ 63"
  shows "buf_lines b = ls @ [l] \<Longrightarrow> total_size b = word_of_nat (length (concat ls) + r) \<Longrightarrow>
    length (concat ls) + r < 2 ^ 63 \<Longrightarrow> trim b = None"
proof (induction ls arbitrary: b)
  case Nil
  have "MAX_OUTPUT_BUFFER_SIZE < word_of_nat r - word_of_nat (length l)"
  proof -
    have "unat (word_of_nat r - word_of_nat (length l) :: usize) = r + 2 ^ 64 - length l"
      using assms(2-4) by (simp add: unat_sub_if' unat_of_nat)
    with assms(2,3) show ?thesis
      by (simp add: word_less_nat_alt MAX_OUTPUT_BUFFER_SIZE_def)
  qed
  with Nil assms(1) show ?case
    by (subst trim.simps) (simp add: trim_empty_diverges)
next
  case (Cons x ls)
  have "word_of_nat r \<le> total_size b"
    using Cons.prems(2,3) assms(4) by (simp add: word_le_nat_alt unat_of_nat del: of_nat_add)
  with assms(1) have big: "MAX_OUTPUT_BUFFER_SIZE < total_size b" by simp
  let ?b = "b\<lparr>buf_lines := ls @ [l], total_size := total_size b - word_of_nat (length x)\<rparr>"
  have "trim ?b = None"
    using Cons.prems by (intro Cons.IH) simp_all
  with big Cons.prems(1) show ?case
    by (subst trim.simps) simp
qed

text \<open>
  A buffer is counted when its size field is what it holds.
\<close>

definition counted :: "output_buffer \<Rightarrow> bool" where
  "counted b \<longleftrightarrow> total_size b = word_of_nat (length (content b))"

lemma trim_counted:
  "counted b \<Longrightarrow> length (content b) < 2 ^ 63 \<Longrightarrow> \<exists>b'. trim b = Some b' \<and> counted b'"
proof (induction "buf_lines b" arbitrary: b)
  case Nil
  then have "total_size b = 0" "buf_lines b = []" by (simp_all add: counted_def content_def)
  with Nil.prems show ?case
    by (subst trim.simps) (simp add: MAX_OUTPUT_BUFFER_SIZE_def)
next
  case (Cons l ls)
  let ?b = "b\<lparr>buf_lines := ls, total_size := total_size b - word_of_nat (length l)\<rparr>"
  have l: "buf_lines b = l # ls" using Cons.hyps(2) by simp
  have "counted ?b" "length (content ?b) < 2 ^ 63"
    using Cons.prems l by (simp_all add: counted_def content_def)
  with Cons.hyps(1) [of ?b] obtain b' where "trim ?b = Some b'" "counted b'" by auto
  with Cons.prems(1) l show ?case
    by (subst trim.simps) simp
qed

lemma complete_line_content:
  "complete_line b dat = Inl b' \<Longrightarrow> content b' = content b @ dat"
  "complete_line b dat = Inr (b', rest) \<Longrightarrow> content b' @ rest = content b @ dat"
proof -
  have snoc: "concat (butlast (buf_lines b)) @ last (buf_lines b) = content b" if "buf_lines b \<noteq> []"
    using that by (metis append_butlast_last_id concat.simps(1) concat.simps(2) concat_append
        append_Nil2 content_def)
  show "complete_line b dat = Inl b' \<Longrightarrow> content b' = content b @ dat"
    using snoc by (auto simp: complete_line_def Let_def content_def split: if_splits)
  assume c: "complete_line b dat = Inr (b', rest)"
  show "content b' @ rest = content b @ dat"
  proof (cases "last_line_incomplete b \<and> buf_lines b \<noteq> []")
    case True
    let ?pre = "takeWhile (\<lambda>x. x \<noteq> newline) dat"
    from True c have n: "newline \<in> set dat" and rest: "rest = drop (length ?pre + 1) dat"
      and b': "content b' = content b @ ?pre @ [newline]"
      using snoc by (auto simp: complete_line_def Let_def content_def split: if_splits)
    have "?pre @ [newline] @ drop (length ?pre + 1) dat = dat"
      using n by (induction dat) auto
    with rest b' show ?thesis by simp
  next
    case False
    with c show ?thesis by (auto simp: complete_line_def)
  qed
qed

lemma suffix_concat: "suffix xs ys \<Longrightarrow> suffix (concat xs) (concat ys)"
  by (auto simp: suffix_def)

text \<open>
  Appending loses nothing but the oldest output: whenever \<open>append\<close> returns, the bytes
  held are a suffix of the bytes held before followed by the new data.
\<close>

theorem append_output_content:
  assumes "append_output b dat = Some b'"
  shows "suffix (content b') (content b @ dat)"
proof (cases "complete_line b dat")
  case (Inl b1)
  then show ?thesis
    using assms complete_line_content(1) by (auto simp: append_output_def split: if_splits)
next
  case (Inr p)
  obtain b1 rest where p: "p = (b1, rest)" by (cases p)
  let ?ends = "rest \<noteq> [] \<and> last rest = newline"
  have cl: "content b1 @ rest = content b @ dat"
    using complete_line_content(2) Inr p by simp
  from push_split_adds [of ?ends rest b1]
  have "content (push_lines ?ends (split_newline rest) b1) = content b1 @ rest"
    by (auto simp: content_def)
  moreover have "dat \<noteq> [] \<Longrightarrow> trim (push_lines ?ends (split_newline rest) b1) = Some b'"
    using assms Inr p by (simp add: append_output_def)
  ultimately show ?thesis
    using cl assms trim_suffix [THEN conjunct1, THEN suffix_concat]
    by (cases "dat = []") (fastforce simp: content_def append_output_def)+
qed

theorem append_output_content_witness:
  "suffix (content \<lparr>buf_lines = [[65]], total_size = 1, last_line_incomplete = True\<rparr>)
     (content output_buffer_new @ [65])"
  by (rule append_output_content)
    (simp add: append_output_def complete_line_def output_buffer_new_def trim.simps
      MAX_OUTPUT_BUFFER_SIZE_def MAX_BUFFER_LINES_def)

text \<open>
  While no unfinished line is completed, the accounting is right and \<open>append\<close> is total:
  from a counted buffer it returns a counted buffer, and outside the early return of the
  unfinished line it leaves at most 1 MiB and at most 10000 lines.
\<close>

theorem append_output_bounded:
  assumes "counted b" and "length (content b) + length dat < 2 ^ 63"
    and "last_line_incomplete b \<and> buf_lines b \<noteq> [] \<longrightarrow> newline \<notin> set dat"
  shows "\<exists>b'. append_output b dat = Some b' \<and> counted b' \<and>
    (dat \<noteq> [] \<and> \<not> (last_line_incomplete b \<and> buf_lines b \<noteq> []) \<longrightarrow>
      length (content b') \<le> 1048576 \<and> length (buf_lines b') \<le> 10000)"
proof (cases "dat = [] \<or> last_line_incomplete b \<and> buf_lines b \<noteq> []")
  case True
  then obtain b' where b': "append_output b dat = Some b'" "dat = [] \<and> b' = b \<or> complete_line b dat = Inl b'"
  proof (cases "dat = []")
    case False
    with True assms(3) obtain b' where "complete_line b dat = Inl b'"
      by (auto simp: complete_line_def)
    with False that show thesis by (auto simp: append_output_def)
  qed (simp add: that append_output_def)
  then have "counted b'"
    using assms(1) complete_line_content(1) [of b dat b']
    by (auto simp: counted_def complete_line_def Let_def split: if_splits)
  with True b' show ?thesis by auto
next
  case False
  let ?ends = "last dat = newline"
  let ?b1 = "push_lines ?ends (split_newline dat) b"
  have "complete_line b dat = Inr (b, dat)"
    using False by (auto simp: complete_line_def)
  then have app: "append_output b dat = trim ?b1"
    using False by (simp add: append_output_def)
  from push_split_adds [of ?ends dat b] False
  have c: "content ?b1 = content b @ dat" "total_size ?b1 = total_size b + word_of_nat (length dat)"
    by (auto simp: content_def)
  then have "counted ?b1" and "length (content ?b1) < 2 ^ 63"
    using assms(1,2) by (simp_all add: counted_def)
  from trim_counted [OF this] obtain b' where b': "trim ?b1 = Some b'" "counted b'" by auto
  from trim_suffix [OF b'(1)] suffix_length_le
  have "total_size b' \<le> MAX_OUTPUT_BUFFER_SIZE" "length (buf_lines b') \<le> MAX_BUFFER_LINES"
    and "length (content b') \<le> length (content ?b1)"
    by (auto simp: content_def intro!: suffix_length_le suffix_concat)
  with b' app c assms(2) show ?thesis
    by (auto simp: counted_def word_le_nat_alt unat_of_nat MAX_OUTPUT_BUFFER_SIZE_def
        MAX_BUFFER_LINES_def)
qed


theorem append_output_bounded_witness:
  "\<exists>b'. append_output output_buffer_new [65, 10] = Some b' \<and> counted b' \<and>
    length (content b') \<le> 1048576 \<and> length (buf_lines b') \<le> 10000"
  using append_output_bounded [of output_buffer_new "[65, 10]"]
  by (auto simp: output_buffer_new_def counted_def content_def)

lemma complete_undercounts:
  "append_output \<lparr>buf_lines = [[97]], total_size = 1, last_line_incomplete = True\<rparr> [newline]
    = Some \<lparr>buf_lines = [[97, newline]], total_size = 1, last_line_incomplete = False\<rparr>"
  by (simp add: append_output_def complete_line_def trim.simps MAX_OUTPUT_BUFFER_SIZE_def
      MAX_BUFFER_LINES_def)

lemma split_no_newline: "newline \<notin> set xs \<Longrightarrow> split_newline xs = [xs]"
  by (induction xs) auto

text \<open>
  C7. Completing an unfinished line breaks the accounting, and the trimming loop can then run
  forever: the bytes that complete the line are never counted, so after an unfinished \<open>a\<close> and
  its newline, a chunk of more than 1 MiB makes the size count wrap below zero with no line
  left, and \<open>append\<close> does not return.
\<close>

theorem append_output_diverges:
  assumes "newline \<notin> set x" and "1048577 < length x" and "length x < 2 ^ 62"
  shows "append_output output_buffer_new [97]
      = Some \<lparr>buf_lines = [[97]], total_size = 1, last_line_incomplete = True\<rparr> \<and>
    append_output \<lparr>buf_lines = [[97]], total_size = 1, last_line_incomplete = True\<rparr> [newline]
      = Some \<lparr>buf_lines = [[97, newline]], total_size = 1, last_line_incomplete = False\<rparr> \<and>
    append_output \<lparr>buf_lines = [[97, newline]], total_size = 1, last_line_incomplete = False\<rparr> x
      = None"
proof (intro conjI)
  show "append_output output_buffer_new [97]
      = Some \<lparr>buf_lines = [[97]], total_size = 1, last_line_incomplete = True\<rparr>"
    by (simp add: append_output_def complete_line_def output_buffer_new_def trim.simps
        MAX_OUTPUT_BUFFER_SIZE_def MAX_BUFFER_LINES_def)
  show "append_output \<lparr>buf_lines = [[97]], total_size = 1, last_line_incomplete = True\<rparr> [newline]
      = Some \<lparr>buf_lines = [[97, newline]], total_size = 1, last_line_incomplete = False\<rparr>"
    by (rule complete_undercounts)
  let ?b = "\<lparr>buf_lines = [[97, newline], x], total_size = 1 + word_of_nat (length x),
    last_line_incomplete = True\<rparr>"
  have "x \<noteq> []" using assms(2) by auto
  moreover from this have "last x \<noteq> newline" using assms(1) last_in_set by metis
  ultimately have app: "append_output \<lparr>buf_lines = [[97, newline]], total_size = 1,
      last_line_incomplete = False\<rparr> x = trim ?b"
    using assms(1) by (simp add: append_output_def complete_line_def split_no_newline)
  have r: "MAX_OUTPUT_BUFFER_SIZE < word_of_nat (length x - 1)"
    using assms(2,3)
    by (simp add: word_less_nat_alt MAX_OUTPUT_BUFFER_SIZE_def unat_of_nat del: of_nat_diff)
  have sum: "1 + word_of_nat (length x) = (word_of_nat (2 + (length x - 1)) :: usize)"
    using assms(2) by (simp add: of_nat_diff)
  have "trim ?b = None"
  proof (rule trim_undercounted_diverges [OF r, where l = x and ls = "[[97, newline]]"])
    show "total_size ?b = word_of_nat (length (concat [[97, newline]]) + (length x - 1))"
      using sum by (simp del: of_nat_add)
  qed (use assms(2,3) in simp_all)
  with app show "append_output \<lparr>buf_lines = [[97, newline]], total_size = 1,
      last_line_incomplete = False\<rparr> x = None" by simp
qed

theorem append_output_diverges_witness:
  "append_output \<lparr>buf_lines = [[97, newline]], total_size = 1, last_line_incomplete = False\<rparr>
     (replicate 1048578 98) = None"
proof (rule append_output_diverges [THEN conjunct2, THEN conjunct2])
  show "newline \<notin> set (replicate 1048578 98)" by (simp only: in_set_replicate) simp
  show "1048577 < length (replicate 1048578 (98 :: u8))" "length (replicate 1048578 (98 :: u8)) < 2 ^ 62"
    by (simp_all only: length_replicate) simp_all
qed

lemma recent_spec:
  "length result = sz \<Longrightarrow> sz \<le> max_bytes \<Longrightarrow>
    \<exists>newer older. ls = newer @ older \<and> recent max_bytes sz ls result = concat (rev newer) @ result \<and>
      length (recent max_bytes sz ls result) \<le> max_bytes \<and>
      (older \<noteq> [] \<longrightarrow> max_bytes < length (recent max_bytes sz ls result) + length (hd older))"
proof (induction max_bytes sz ls result rule: recent.induct)
  case (1 max_bytes sz result)
  then show ?case by simp
next
  case (2 max_bytes sz l ls result)
  show ?case
  proof (cases "max_bytes < sz + length l")
    case True
    with 2 show ?thesis by (intro exI [of _ "[]"] exI [of _ "l # ls"]) simp
  next
    case False
    from "2.prems" False have pre: "length (l @ result) = sz + length l" "sz + length l \<le> max_bytes"
      by simp_all
    from "2.IH" [OF False pre] obtain newer older where "ls = newer @ older \<and>
      recent max_bytes (sz + length l) ls (l @ result) = concat (rev newer) @ l @ result \<and>
      length (recent max_bytes (sz + length l) ls (l @ result)) \<le> max_bytes \<and>
      (older \<noteq> [] \<longrightarrow> max_bytes < length (recent max_bytes (sz + length l) ls (l @ result)) + length (hd older))"
      by blast
    with False show ?thesis
      by - (rule exI [of _ "l # newer"], rule exI [of _ older], auto)
  qed
qed

text \<open>
  \<open>get_recent\<close> returns the longest run of whole newest lines that fits: at most the limit,
  a concatenation of the last lines, and the next older line would not fit any more.
\<close>

theorem get_recent_longest:
  "\<exists>older newer. buf_lines b = older @ newer \<and> get_recent b max_bytes = concat newer \<and>
    length (concat newer) \<le> max_bytes \<and>
    (older = [] \<or> max_bytes < length (concat newer) + length (last older))"
proof -
  from recent_spec [of "[]" 0 max_bytes "rev (buf_lines b)"]
  obtain newer older where rec: "rev (buf_lines b) = newer @ older"
    "get_recent b max_bytes = concat (rev newer)" "length (get_recent b max_bytes) \<le> max_bytes"
    "older \<noteq> [] \<longrightarrow> max_bytes < length (get_recent b max_bytes) + length (hd older)"
    unfolding get_recent_def by (metis append_Nil2 list.size(3) zero_le)
  have "buf_lines b = rev older @ rev newer"
    using rec(1) by (metis rev_append rev_rev_ident)
  with rec show ?thesis
    by - (rule exI [of _ "rev older"], rule exI [of _ "rev newer"], auto simp: last_rev)
qed

end
