(* ===== verification/Terminal_Emulator.thy ===== *)
theory Terminal_Emulator
  imports Prelude
begin

text \<open>
  The HTML terminal view of \<^verbatim>\<open>src/ui/terminal_emulator.rs\<close>: colours and attributes, runs of
  equally formatted cells rendered as \<^verbatim>\<open>span\<close> elements, escaping for HTML and JSON, and the
  frame updates with their dirty rows.

  Rust strings are their UTF-8 bytes (\<open>char list\<close>): every character the code tests for or
  emits is ASCII, so a character of several bytes passes byte by byte.  The terminal parser
  (crate \<^verbatim>\<open>vt100\<close>) is a parameter: a screen is the record of the observations the code makes
  of it, and \<open>process\<close>, \<open>set_size\<close> and \<open>set_scrollback\<close> are arguments.
\<close>

subsection \<open>Cells and attributes\<close>

datatype color = ColDefault | ColIdx u8 | ColRgb u8 u8 u8

record cell =
  contents :: string
  fgcolor :: color
  bgcolor :: color
  cell_bold :: bool
  cell_italic :: bool
  cell_underline :: bool
  cell_inverse :: bool
  is_wide_continuation :: bool

record screen =
  screen_size :: "nat \<times> nat"
  cell_at :: "nat \<Rightarrow> nat \<Rightarrow> cell option"
  cursor_position :: "nat \<times> nat"
  hide_cursor :: bool
  application_cursor :: bool
  application_keypad :: bool
  alternate_screen :: bool
  bracketed_paste :: bool
  screen_title :: string

record attrs =
  fg :: color
  bg :: color
  bold :: bool
  italic :: bool
  underline :: bool
  inverse :: bool

definition from_cell :: "cell \<Rightarrow> attrs" where
  "from_cell c = \<lparr>fg = fgcolor c, bg = bgcolor c, bold = cell_bold c, italic = cell_italic c,
     underline = cell_underline c, inverse = cell_inverse c\<rparr>"

definition is_plain :: "attrs \<Rightarrow> bool" where
  "is_plain a = (fg a = ColDefault \<and> bg a = ColDefault \<and> \<not> bold a \<and> \<not> italic a \<and>
     \<not> underline a \<and> \<not> inverse a)"

subsection \<open>Colours\<close>

definition palette_table :: "(u8 \<times> u8 \<times> u8) list" where
  "palette_table =
     [(0, 0, 0), (205, 49, 49), (13, 188, 121), (229, 229, 16),
      (36, 114, 200), (188, 63, 188), (17, 168, 205), (229, 229, 229),
      (102, 102, 102), (241, 76, 76), (35, 209, 139), (245, 245, 67),
      (59, 142, 234), (214, 112, 214), (41, 184, 219), (255, 255, 255)]"

definition palette_256 :: "u8 \<Rightarrow> u8 \<times> u8 \<times> u8" where
  "palette_256 idx =
     (if idx \<le> 15 then palette_table ! unat idx
      else if idx \<le> 231 then
        (let i = idx - 16; r = i div 36; g = (i mod 36) div 6; b = i mod 6;
             scale = (\<lambda>v. if v = 0 then 0 else 55 + v * 40)
         in (scale r, scale g, scale b))
      else (let v = 8 + (idx - 232) * 10 in (v, v, v)))"

definition hex_digit :: "nat \<Rightarrow> char" where
  "hex_digit n = ''0123456789abcdef'' ! n"

text \<open>\<^verbatim>\<open>{:02x}\<close> of a byte and \<^verbatim>\<open>{:04x}\<close> of a code point below 256.\<close>

definition hex02 :: "u8 \<Rightarrow> string" where
  "hex02 b = [hex_digit (unat b div 16), hex_digit (unat b mod 16)]"

definition hex04 :: "nat \<Rightarrow> string" where
  "hex04 n = ''00'' @ [hex_digit (n div 16 mod 16), hex_digit (n mod 16)]"

definition css_rgb :: "string \<Rightarrow> u8 \<times> u8 \<times> u8 \<Rightarrow> string" where
  "css_rgb prop rgb =
     (case rgb of (r, g, b) \<Rightarrow> prop @ '':#'' @ hex02 r @ hex02 g @ hex02 b @ '';'')"

definition ANSI_FG :: "string list" where
  "ANSI_FG = [''ansi-black'', ''ansi-red'', ''ansi-green'', ''ansi-yellow'',
     ''ansi-blue'', ''ansi-magenta'', ''ansi-cyan'', ''ansi-white'']"

definition ANSI_FG_BRIGHT :: "string list" where
  "ANSI_FG_BRIGHT = [''ansi-bright-black'', ''ansi-bright-red'', ''ansi-bright-green'',
     ''ansi-bright-yellow'', ''ansi-bright-blue'', ''ansi-bright-magenta'', ''ansi-bright-cyan'',
     ''ansi-bright-white'']"

definition ANSI_BG :: "string list" where
  "ANSI_BG = [''ansi-bg-black'', ''ansi-bg-red'', ''ansi-bg-green'', ''ansi-bg-yellow'',
     ''ansi-bg-blue'', ''ansi-bg-magenta'', ''ansi-bg-cyan'', ''ansi-bg-white'']"

definition ANSI_BG_BRIGHT :: "string list" where
  "ANSI_BG_BRIGHT = [''ansi-bg-bright-black'', ''ansi-bg-bright-red'', ''ansi-bg-bright-green'',
     ''ansi-bg-bright-yellow'', ''ansi-bg-bright-blue'', ''ansi-bg-bright-magenta'',
     ''ansi-bg-bright-cyan'', ''ansi-bg-bright-white'']"

subsection \<open>Escaping\<close>

definition html_escape_char :: "char \<Rightarrow> string" where
  "html_escape_char ch =
     (if ch = CHR ''<'' then ''&lt;''
      else if ch = CHR ''>'' then ''&gt;''
      else if ch = CHR ''&'' then ''&amp;''
      else if ch = CHR 0x22 then ''&quot;''
      else if ch = CHR 0x27 then ''&#39;''
      else [ch])"

definition html_escape :: "string \<Rightarrow> string" where
  "html_escape text = concat (map html_escape_char text)"

definition json_escape_char :: "char \<Rightarrow> string" where
  "json_escape_char ch =
     (if ch = CHR 0x5C then [CHR 0x5C, CHR 0x5C]
      else if ch = CHR 0x22 then [CHR 0x5C, CHR 0x22]
      else if ch = CHR 0x0A then [CHR 0x5C, CHR ''n'']
      else if ch = CHR 0x0D then [CHR 0x5C, CHR ''r'']
      else if ch = CHR 0x09 then [CHR 0x5C, CHR ''t'']
      else if (of_char ch :: nat) < 0x20 then [CHR 0x5C, CHR ''u''] @ hex04 (of_char ch)
      else [ch])"

definition json_escape_into :: "string \<Rightarrow> string \<Rightarrow> string" where
  "json_escape_into out html = out @ concat (map json_escape_char html)"

subsection \<open>Rendering a row\<close>

definition fg_classes :: "color \<Rightarrow> bool \<Rightarrow> string list \<times> string" where
  "fg_classes c invd =
     (case c of
        ColDefault \<Rightarrow> ([], if invd then ''color:#1e1e1e;'' else [])
      | ColIdx idx \<Rightarrow>
          (if idx \<le> 7 then ([ANSI_FG ! unat idx], [])
           else if idx \<le> 15 then ([ANSI_FG_BRIGHT ! unat (idx - 8)], [])
           else ([], css_rgb ''color'' (palette_256 idx)))
      | ColRgb r g b \<Rightarrow> ([], css_rgb ''color'' (r, g, b)))"

definition bg_classes :: "color \<Rightarrow> bool \<Rightarrow> string list \<times> string" where
  "bg_classes c invd =
     (case c of
        ColDefault \<Rightarrow> ([], if invd then ''background-color:#d4d4d4;'' else [])
      | ColIdx idx \<Rightarrow>
          (if idx \<le> 7 then ([ANSI_BG ! unat idx], [])
           else if idx \<le> 15 then ([ANSI_BG_BRIGHT ! unat (idx - 8)], [])
           else ([], css_rgb ''background-color'' (palette_256 idx)))
      | ColRgb r g b \<Rightarrow> ([], css_rgb ''background-color'' (r, g, b)))"

fun join_space :: "string list \<Rightarrow> string" where
  "join_space [] = []"
| "join_space [x] = x"
| "join_space (x # y # ys) = x @ '' '' @ join_space (y # ys)"

definition fg_for_class :: "attrs \<Rightarrow> color" where
  "fg_for_class a =
     (let fg_use = (if inverse a then bg a else fg a)
      in if bold a then
           (case fg_use of
              ColIdx idx \<Rightarrow> (if idx < 8 then ColIdx (idx + 8) else ColIdx idx)
            | ColDefault \<Rightarrow> (if \<not> inverse a then ColIdx 15 else ColDefault)
            | other \<Rightarrow> other)
         else fg_use)"

definition span_open :: "attrs \<Rightarrow> string" where
  "span_open a =
     (let bg_use = (if inverse a then fg a else bg a);
          f = fg_classes (fg_for_class a) (inverse a);
          b = bg_classes bg_use (inverse a);
          classes = (if bold a then [''ansi-bold''] else []) @ fst f @ fst b;
          styles = (if underline a then ''text-decoration:underline;'' else []) @
            (if italic a then ''font-style:italic;'' else []) @ snd f @ snd b
      in ''<span'' @
         (if classes \<noteq> [] then '' class='' @ [CHR 0x22] @ join_space classes @ [CHR 0x22] else []) @
         (if styles \<noteq> [] then '' style='' @ [CHR 0x22] @ styles @ [CHR 0x22] else []) @ ''>'')"

definition flush_run :: "string \<Rightarrow> attrs \<Rightarrow> string \<Rightarrow> string" where
  "flush_run out a text =
     (if text = [] then out
      else if is_plain a then out @ html_escape text
      else out @ span_open a @ html_escape text @ ''</span>'')"

text \<open>The state of the column loop: the output, the attributes of the open run and its text.\<close>

type_synonym run_state = "string \<times> attrs option \<times> string"

definition glyph_of :: "cell \<Rightarrow> string" where
  "glyph_of c = (if contents c = [] then '' '' else contents c)"

definition cell_attrs :: "cell \<Rightarrow> nat \<Rightarrow> nat option \<Rightarrow> attrs" where
  "cell_attrs c col cursor_col =
     (let a = from_cell c in if cursor_col = Some col then a\<lparr>inverse := \<not> inverse a\<rparr> else a)"

definition push_cell :: "attrs \<Rightarrow> string \<Rightarrow> run_state \<Rightarrow> run_state" where
  "push_cell a glyph st =
     (case st of (out, run_attrs, run_text) \<Rightarrow>
       (if run_attrs = Some a then (out, run_attrs, run_text @ glyph)
        else ((case run_attrs of Some a' \<Rightarrow> flush_run out a' run_text | None \<Rightarrow> out), Some a, glyph)))"

fun render_cols ::
  "(nat \<Rightarrow> cell option) \<Rightarrow> nat list \<Rightarrow> nat option \<Rightarrow> run_state \<Rightarrow> run_state" where
  "render_cols row [] cursor_col st = st"
| "render_cols row (c # cs) cursor_col st =
     (case row c of
        None \<Rightarrow> st
      | Some cl \<Rightarrow>
          render_cols row cs cursor_col
            (if is_wide_continuation cl then st
             else push_cell (cell_attrs cl c cursor_col) (glyph_of cl) st))"

definition cursor_attrs :: attrs where
  "cursor_attrs = \<lparr>fg = ColDefault, bg = ColDefault, bold = False, italic = False,
     underline = False, inverse = True\<rparr>"

definition render_row :: "screen \<Rightarrow> nat \<Rightarrow> nat \<Rightarrow> nat option \<Rightarrow> string" where
  "render_row s row cols cursor_col =
     (case render_cols (cell_at s row) [0..<cols] cursor_col ([], None, []) of
        (out, run_attrs, run_text) \<Rightarrow>
          (let (out1, ra1, rt1) =
                 (case cursor_col of
                    Some cc \<Rightarrow>
                      (if cols \<le> cc then
                         (let (o2, ra2, rt2) =
                                (case run_attrs of
                                   Some a \<Rightarrow> (flush_run out a run_text, None, [])
                                 | None \<Rightarrow> (out, run_attrs, run_text))
                          in (flush_run o2 cursor_attrs '' '', ra2, rt2))
                       else (out, run_attrs, run_text))
                  | None \<Rightarrow> (out, run_attrs, run_text));
               out3 = (case ra1 of Some a \<Rightarrow> flush_run out1 a rt1 | None \<Rightarrow> out1)
           in if out3 = [] then ''&nbsp;'' else out3))"

subsection \<open>Frame updates\<close>

record frame_update =
  dirty_rows :: "(nat \<times> string) list"
  cursor_row :: nat
  cursor_col :: nat
  cursor_visible :: bool
  app_cursor_keys :: bool
  app_keypad :: bool
  alt_screen :: bool
  paste_mode :: bool
  title :: "string option"
  full_repaint :: bool

record 'p terminal_emulator =
  parser :: 'p
  prev :: "screen option"
  view_offset :: nat

definition row_equal :: "screen \<Rightarrow> screen \<Rightarrow> nat \<Rightarrow> nat \<Rightarrow> bool" where
  "row_equal a b row cols = list_all (\<lambda>c. cell_at a row c = cell_at b row c) [0..<cols]"

definition screen_title_opt :: "screen \<Rightarrow> string option" where
  "screen_title_opt s = (if screen_title s = [] then None else Some (screen_title s))"

definition emulator_new :: "(nat \<Rightarrow> nat \<Rightarrow> nat \<Rightarrow> 'p) \<Rightarrow> nat \<Rightarrow> nat \<Rightarrow> 'p terminal_emulator" where
  "emulator_new new_parser rows cols =
     \<lparr>parser = new_parser (max rows 1) (max cols 1) 500, prev = None, view_offset = 0\<rparr>"

definition emulator_resize ::
  "('p \<Rightarrow> nat \<Rightarrow> nat \<Rightarrow> 'p) \<Rightarrow> 'p terminal_emulator \<Rightarrow> nat \<Rightarrow> nat \<Rightarrow> 'p terminal_emulator" where
  "emulator_resize set_size t rows cols =
     t\<lparr>parser := set_size (parser t) (max rows 1) (max cols 1), prev := None\<rparr>"

definition set_view ::
  "('p \<Rightarrow> nat \<Rightarrow> 'p) \<Rightarrow> ('p \<Rightarrow> screen) \<Rightarrow> 'p terminal_emulator \<Rightarrow> nat
     \<Rightarrow> frame_update \<times> 'p terminal_emulator" where
  "set_view set_scrollback screen_of t offset =
     (let p = set_scrollback (parser t) offset; s = screen_of p;
          (rows, cols) = screen_size s
      in (\<lparr>dirty_rows = map (\<lambda>r. (r, render_row s r cols None)) [0..<rows],
           cursor_row = fst (cursor_position s), cursor_col = snd (cursor_position s),
           cursor_visible = False, app_cursor_keys = application_cursor s,
           app_keypad = application_keypad s, alt_screen = alternate_screen s,
           paste_mode = bracketed_paste s, title = screen_title_opt s, full_repaint = True\<rparr>,
          t\<lparr>parser := p, view_offset := offset, prev := Some s\<rparr>))"

definition cursor_for_row :: "screen \<Rightarrow> nat \<Rightarrow> nat option" where
  "cursor_for_row s r =
     (if \<not> hide_cursor s \<and> r = fst (cursor_position s) then Some (snd (cursor_position s)) else None)"

definition row_dirty :: "screen \<Rightarrow> screen \<Rightarrow> nat \<Rightarrow> nat \<Rightarrow> bool" where
  "row_dirty pv s cols r =
     (cursor_for_row s r \<noteq> None \<or> fst (cursor_position pv) = r \<or> \<not> row_equal pv s r cols)"

definition feed ::
  "('p \<Rightarrow> bytes \<Rightarrow> 'p) \<Rightarrow> ('p \<Rightarrow> screen) \<Rightarrow> 'p terminal_emulator \<Rightarrow> bytes
     \<Rightarrow> frame_update \<times> 'p terminal_emulator" where
  "feed process screen_of t dat =
     (let p = process (parser t) dat; s = screen_of p; (rows, cols) = screen_size s;
          need_full = (case prev t of None \<Rightarrow> True | Some pv \<Rightarrow> screen_size pv \<noteq> (rows, cols));
          dirty = map (\<lambda>r. (r, render_row s r cols (cursor_for_row s r)))
            (case prev t of
               None \<Rightarrow> [0..<rows]
             | Some pv \<Rightarrow> (if need_full then [0..<rows] else filter (row_dirty pv s cols) [0..<rows]))
      in (\<lparr>dirty_rows = dirty,
           cursor_row = fst (cursor_position s), cursor_col = snd (cursor_position s),
           cursor_visible = \<not> hide_cursor s, app_cursor_keys = application_cursor s,
           app_keypad = application_keypad s, alt_screen = alternate_screen s,
           paste_mode = bracketed_paste s, title = screen_title_opt s,
           full_repaint = need_full\<rparr>,
          t\<lparr>parser := p, prev := Some s\<rparr>))"

definition payload_row :: "nat \<times> string \<Rightarrow> string" where
  "payload_row row =
     json_escape_into (''{'' @ [CHR 0x22] @ ''r'' @ [CHR 0x22] @ '':'' @ decimal (fst row) @ '','' @
       [CHR 0x22] @ ''h'' @ [CHR 0x22] @ '':'' @ [CHR 0x22]) (snd row) @ [CHR 0x22] @ ''}''"

fun payload_rows :: "(nat \<times> string) list \<Rightarrow> string" where
  "payload_rows [] = []"
| "payload_rows [r] = payload_row r"
| "payload_rows (r # r' # rs) = payload_row r @ '','' @ payload_rows (r' # rs)"

definition build_update_payload :: "frame_update \<Rightarrow> string" where
  "build_update_payload u = ''['' @ payload_rows (dirty_rows u) @ '']''"

subsection \<open>The text a row displays\<close>

text \<open>
  What a browser shows of a fragment: \<open>strip_tags\<close> drops everything between angle brackets
  (the flag says whether the scan is inside a tag) and \<open>html_unescape\<close> reads the five
  entities back.
\<close>

fun strip_tags :: "bool \<Rightarrow> string \<Rightarrow> string" where
  "strip_tags intag [] = []"
| "strip_tags True (c # cs) = strip_tags (c \<noteq> CHR ''>'') cs"
| "strip_tags False (c # cs) = (if c = CHR ''<'' then strip_tags True cs else c # strip_tags False cs)"

fun html_unescape :: "string \<Rightarrow> string" where
  "html_unescape [] = []"
| "html_unescape (c # cs) =
     (if c \<noteq> CHR ''&'' then c # html_unescape cs
      else if take 3 cs = ''lt;'' then CHR ''<'' # html_unescape (drop 3 cs)
      else if take 3 cs = ''gt;'' then CHR ''>'' # html_unescape (drop 3 cs)
      else if take 4 cs = ''amp;'' then CHR ''&'' # html_unescape (drop 4 cs)
      else if take 5 cs = ''quot;'' then CHR 0x22 # html_unescape (drop 5 cs)
      else if take 4 cs = ''#39;'' then CHR 0x27 # html_unescape (drop 4 cs)
      else c # html_unescape cs)"

lemma html_unescape_entities:
  "html_unescape (''&lt;'' @ xs) = CHR ''<'' # html_unescape xs"
  "html_unescape (''&gt;'' @ xs) = CHR ''>'' # html_unescape xs"
  "html_unescape (''&amp;'' @ xs) = CHR ''&'' # html_unescape xs"
  "html_unescape (''&quot;'' @ xs) = CHR 0x22 # html_unescape xs"
  "html_unescape (''&#39;'' @ xs) = CHR 0x27 # html_unescape xs"
  by simp_all

lemma html_unescape_other: "c \<noteq> CHR ''&'' \<Longrightarrow> html_unescape (c # xs) = c # html_unescape xs"
  by simp

declare html_unescape.simps(2) [simp del]

lemma html_unescape_char: "html_unescape (html_escape_char c @ xs) = c # html_unescape xs"
  using html_unescape_entities [of xs]
  by (simp add: html_escape_char_def del: append_Cons) (simp add: html_unescape_other)

lemma html_unescape_escape_append: "html_unescape (html_escape t @ xs) = t @ html_unescape xs"
  by (induction t) (simp_all add: html_escape_def html_unescape_char)

lemma html_escape_append [simp]: "html_escape (s @ t) = html_escape s @ html_escape t"
  by (simp add: html_escape_def)

lemma html_escape_char_not_Nil [simp]: "html_escape_char c \<noteq> []"
  by (simp add: html_escape_char_def)

lemma html_escape_Nil [simp]:
  "html_escape [] = []" "html_escape t = [] \<longleftrightarrow> t = []" "[] = html_escape t \<longleftrightarrow> t = []"
  by (simp_all add: html_escape_def)

lemma html_escape_plain: "set (html_escape t) \<inter> {CHR ''<'', CHR ''>'', CHR 0x22, CHR 0x27} = {}"
  by (auto simp: html_escape_def html_escape_char_def split: if_splits)

lemma html_escape_read: "html_unescape (html_escape t) = t"
  using html_unescape_escape_append [of t "[]"] by simp

text \<open>
  Escaping for HTML is safe and loses nothing: the escaped text holds no angle bracket
  and no quote, and reading the entities back gives the text.
\<close>

theorem html_escape_safe:
  "set (html_escape t) \<inter> {CHR ''<'', CHR ''>'', CHR 0x22, CHR 0x27} = {} \<and>
   html_unescape (html_escape t) = t"
  by (rule conjI [OF html_escape_plain html_escape_read])

text \<open>A closed fragment ends outside every tag, so what follows it is read on its own.\<close>

definition closed_html :: "string \<Rightarrow> bool" where
  "closed_html out \<longleftrightarrow> (\<forall>x. strip_tags False (out @ x) = strip_tags False out @ strip_tags False x)"

lemma strip_plain:
  "CHR ''<'' \<notin> set s \<Longrightarrow> strip_tags False (s @ x) = s @ strip_tags False x"
  by (induction s) auto

lemma strip_in_tag:
  "CHR ''>'' \<notin> set s \<Longrightarrow> strip_tags True (s @ CHR ''>'' # x) = strip_tags False x"
  by (induction s) auto

lemma strip_escape [simp]: "strip_tags False (html_escape t @ x) = html_escape t @ strip_tags False x"
  using html_escape_plain [of t] by (intro strip_plain) auto

lemma strip_tag:
  "CHR ''>'' \<notin> set s \<Longrightarrow> strip_tags False (CHR ''<'' # s @ CHR ''>'' # x) = strip_tags False x"
  by (simp add: strip_in_tag)

lemma hex_digit_range: "n < 16 \<Longrightarrow> hex_digit n \<in> set ''0123456789abcdef''"
  unfolding hex_digit_def by (rule nth_mem) simp

lemma hex02_plain: "CHR ''>'' \<notin> set (hex02 b)"
proof -
  have "unat b div 16 < 16" and "unat b mod 16 < 16"
    using unat_u8_less [of b] by (auto simp: less_mult_imp_div_less)
  from this [THEN hex_digit_range] show ?thesis by (auto simp: hex02_def)
qed

lemma css_rgb_plain: "CHR ''>'' \<notin> set prop \<Longrightarrow> CHR ''>'' \<notin> set (css_rgb prop rgb)"
  by (auto simp: css_rgb_def hex02_plain split: prod.splits)

lemma ansi_names_plain:
  assumes "k < 8"
  shows "CHR ''>'' \<notin> set (ANSI_FG ! k)" "CHR ''>'' \<notin> set (ANSI_FG_BRIGHT ! k)"
    "CHR ''>'' \<notin> set (ANSI_BG ! k)" "CHR ''>'' \<notin> set (ANSI_BG_BRIGHT ! k)"
proof -
  have plain: "\<forall>n \<in> set (ANSI_FG @ ANSI_FG_BRIGHT @ ANSI_BG @ ANSI_BG_BRIGHT). CHR ''>'' \<notin> set n"
    by (simp add: ANSI_FG_def ANSI_FG_BRIGHT_def ANSI_BG_def ANSI_BG_BRIGHT_def)
  have "length ANSI_FG = 8" "length ANSI_FG_BRIGHT = 8" "length ANSI_BG = 8" "length ANSI_BG_BRIGHT = 8"
    by (simp_all add: ANSI_FG_def ANSI_FG_BRIGHT_def ANSI_BG_def ANSI_BG_BRIGHT_def)
  with assms have "ANSI_FG ! k \<in> set ANSI_FG" "ANSI_FG_BRIGHT ! k \<in> set ANSI_FG_BRIGHT"
    "ANSI_BG ! k \<in> set ANSI_BG" "ANSI_BG_BRIGHT ! k \<in> set ANSI_BG_BRIGHT"
    by simp_all
  with plain show "CHR ''>'' \<notin> set (ANSI_FG ! k)" "CHR ''>'' \<notin> set (ANSI_FG_BRIGHT ! k)"
    "CHR ''>'' \<notin> set (ANSI_BG ! k)" "CHR ''>'' \<notin> set (ANSI_BG_BRIGHT ! k)"
    by auto
qed

lemma idx_bounds:
  "(idx :: u8) \<le> 7 \<Longrightarrow> unat idx < 8"
  "\<not> (idx :: u8) \<le> 7 \<Longrightarrow> idx \<le> 15 \<Longrightarrow> unat (idx - 8) < 8"
  by unat_arith+

lemma classes_plain:
  "\<forall>n \<in> set (fst (fg_classes c i)). CHR ''>'' \<notin> set n" "CHR ''>'' \<notin> set (snd (fg_classes c i))"
  "\<forall>n \<in> set (fst (bg_classes c i)). CHR ''>'' \<notin> set n" "CHR ''>'' \<notin> set (snd (bg_classes c i))"
  by (auto simp: fg_classes_def bg_classes_def css_rgb_plain ansi_names_plain idx_bounds
      split: color.splits)

lemma join_space_plain: "\<forall>n \<in> set ns. CHR ''>'' \<notin> set n \<Longrightarrow> CHR ''>'' \<notin> set (join_space ns)"
  by (induction ns rule: join_space.induct) auto

lemma span_open_tag: "\<exists>s. span_open a = CHR ''<'' # s @ ''>'' \<and> CHR ''>'' \<notin> set s"
proof -
  let ?f = "fg_classes (fg_for_class a) (inverse a)"
  let ?b = "bg_classes (if inverse a then fg a else bg a) (inverse a)"
  define cl where "cl = (if bold a then [''ansi-bold''] else []) @ fst ?f @ fst ?b"
  define st where "st = (if underline a then ''text-decoration:underline;'' else []) @
    (if italic a then ''font-style:italic;'' else []) @ snd ?f @ snd ?b"
  define s where "s = ''span'' @
    (if cl \<noteq> [] then '' class='' @ [CHR 0x22] @ join_space cl @ [CHR 0x22] else []) @
    (if st \<noteq> [] then '' style='' @ [CHR 0x22] @ st @ [CHR 0x22] else [])"
  have "\<forall>n \<in> set cl. CHR ''>'' \<notin> set n"
    unfolding cl_def using classes_plain(1,3) by auto
  then have "CHR ''>'' \<notin> set (join_space cl)" by (rule join_space_plain)
  moreover have "CHR ''>'' \<notin> set st"
    unfolding st_def using classes_plain(2,4) by auto
  ultimately have "CHR ''>'' \<notin> set s" by (simp add: s_def)
  moreover have "span_open a = CHR ''<'' # s @ ''>''"
    by (simp only: span_open_def Let_def s_def cl_def st_def) simp
  ultimately show ?thesis by blast
qed

lemma flush_run_text:
  assumes "closed_html out"
  shows "closed_html (flush_run out a t)"
    and "strip_tags False (flush_run out a t) = strip_tags False out @ html_escape t"
proof -
  obtain s where s: "span_open a = CHR ''<'' # s @ ''>''" "CHR ''>'' \<notin> set s"
    using span_open_tag by blast
  have "strip_tags False (flush_run out a t @ x) =
      strip_tags False out @ html_escape t @ strip_tags False x" for x
    using assms s(2) by (simp add: flush_run_def s(1) closed_html_def strip_in_tag)
  from this this [of "[]"] show "closed_html (flush_run out a t)"
    and "strip_tags False (flush_run out a t) = strip_tags False out @ html_escape t"
    by (simp_all add: closed_html_def)
qed

text \<open>The text of a run state and of a row's cells up to the first missing cell.\<close>

definition run_text_of :: "run_state \<Rightarrow> string" where
  "run_text_of st = (case st of (out, run_attrs, run_text) \<Rightarrow> strip_tags False out @ html_escape run_text)"

definition run_ok :: "run_state \<Rightarrow> bool" where
  "run_ok st = (case st of (out, run_attrs, run_text) \<Rightarrow>
     closed_html out \<and> (run_attrs = None \<longrightarrow> out = [] \<and> run_text = []) \<and>
     (run_attrs \<noteq> None \<longrightarrow> run_text \<noteq> []))"

fun row_text :: "(nat \<Rightarrow> cell option) \<Rightarrow> nat list \<Rightarrow> string" where
  "row_text row [] = []"
| "row_text row (c # cs) =
     (case row c of
        None \<Rightarrow> []
      | Some cl \<Rightarrow> (if is_wide_continuation cl then [] else glyph_of cl) @ row_text row cs)"

lemma glyph_of_not_Nil [simp]: "glyph_of c \<noteq> []"
  by (simp add: glyph_of_def)

lemma push_cell_text:
  assumes "run_ok st" and "glyph \<noteq> []"
  shows "run_ok (push_cell a glyph st)"
    and "run_text_of (push_cell a glyph st) = run_text_of st @ html_escape glyph"
  using assms
  by (auto simp: run_ok_def run_text_of_def push_cell_def flush_run_text split: prod.splits option.splits)

lemma render_cols_text:
  "run_ok st \<Longrightarrow> run_ok (render_cols row cs cur st) \<and>
    run_text_of (render_cols row cs cur st) = run_text_of st @ html_escape (row_text row cs)"
proof (induction cs arbitrary: st)
  case (Cons c cs)
  then show ?case
    by (cases "row c") (auto simp: push_cell_text)
qed simp

definition overhang :: "nat \<Rightarrow> nat option \<Rightarrow> string" where
  "overhang cols cur = (case cur of Some cc \<Rightarrow> (if cols \<le> cc then '' '' else []) | None \<Rightarrow> [])"

lemma closed_Nil [simp]: "closed_html []"
  by (simp add: closed_html_def)

lemma flush_run_not_Nil: "t \<noteq> [] \<Longrightarrow> flush_run out a t \<noteq> []"
  by (simp add: flush_run_def span_open_def)

lemma render_row_strip:
  "render_row s row cols cur =
     (if row_text (cell_at s row) [0..<cols] @ overhang cols cur = [] then ''&nbsp;''
      else render_row s row cols cur)
   \<and> (row_text (cell_at s row) [0..<cols] @ overhang cols cur \<noteq> [] \<longrightarrow>
      strip_tags False (render_row s row cols cur) =
        html_escape (row_text (cell_at s row) [0..<cols] @ overhang cols cur))"
proof -
  obtain out ra rt where st: "render_cols (cell_at s row) [0..<cols] cur ([], None, []) = (out, ra, rt)"
    by (cases "render_cols (cell_at s row) [0..<cols] cur ([], None, [])")
  have ok: "run_ok (out, ra, rt)"
    and tx: "strip_tags False out @ html_escape rt =
      html_escape (row_text (cell_at s row) [0..<cols])"
    using render_cols_text [of "([], None, [])" "cell_at s row" "[0..<cols]" cur]
    by (simp_all add: st run_ok_def run_text_of_def)
  show ?thesis
  proof (cases "\<exists>cc. cur = Some cc \<and> cols \<le> cc")
    case True
    with ok tx show ?thesis
      by (cases ra)
        (auto simp: render_row_def st overhang_def run_ok_def flush_run_text flush_run_not_Nil
          html_escape_def [of "'' ''"] html_escape_char_def)
  next
    case False
    then have "overhang cols cur = []" by (auto simp: overhang_def split: option.splits)
    moreover have "render_row s row cols cur =
        (case ra of None \<Rightarrow> ''&nbsp;'' | Some a \<Rightarrow> flush_run out a rt)"
      using False ok
      by (auto simp: render_row_def st run_ok_def flush_run_not_Nil split: option.splits)
    ultimately show ?thesis
      using ok tx by (auto simp: run_ok_def flush_run_text split: option.splits)
  qed
qed

text \<open>
  A rendered row shows exactly the cells' text: stripping the tags and reading the
  entities of \<open>render_row\<close> gives the glyphs of the row, continuation cells left out, up to the
  first missing cell, and one more space where the cursor stands beyond the last column; a row
  with nothing to show is a non-breaking space.  No cell content can therefore open or close
  a tag.
\<close>

theorem render_row_shows_text:
  "html_unescape (strip_tags False (render_row s row cols cur)) =
     (let t = row_text (cell_at s row) [0..<cols] @ overhang cols cur
      in if t = [] then ''&nbsp;'' else t)"
proof (cases "row_text (cell_at s row) [0..<cols] @ overhang cols cur = []")
  case True
  then have "render_row s row cols cur = ''&nbsp;''"
    using render_row_strip [of s row cols cur] by simp
  with True show ?thesis by (simp add: html_unescape.simps(2))
next
  case False
  let ?t = "row_text (cell_at s row) [0..<cols] @ overhang cols cur"
  have "html_unescape (html_escape ?t) = ?t"
    by (rule html_escape_read)
  with False show ?thesis
    using render_row_strip [of s row cols cur] by (simp add: Let_def del: html_escape_append)
qed

subsection \<open>Repainting only dirty rows\<close>

lemma render_cols_cong:
  "\<forall>c \<in> set cs. f c = g c \<Longrightarrow> render_cols f cs cur st = render_cols g cs cur st"
  by (induction cs arbitrary: st) (auto split: option.splits)

lemma render_row_cong:
  "row_equal a b row cols \<Longrightarrow> render_row a row cols cur = render_row b row cols cur"
  unfolding render_row_def
  by (subst render_cols_cong [where g = "cell_at b row"]) (auto simp: row_equal_def list_all_iff)

text \<open>
  The view applies an update by replacing the dirty rows.  It is in step with the emulator
  when every row shows what \<open>render_row\<close> gives for the last screen, a cursor drawn at most in
  that screen's cursor row.
\<close>

definition repaint :: "(nat \<Rightarrow> string) \<Rightarrow> (nat \<times> string) list \<Rightarrow> nat \<Rightarrow> string" where
  "repaint shown dirty r = (case map_of dirty r of Some h \<Rightarrow> h | None \<Rightarrow> shown r)"

definition in_step :: "(nat \<Rightarrow> string) \<Rightarrow> 'p terminal_emulator \<Rightarrow> bool" where
  "in_step shown t =
     (case prev t of
        None \<Rightarrow> True
      | Some pv \<Rightarrow> (\<forall>r < fst (screen_size pv). \<exists>cur.
          (r \<noteq> fst (cursor_position pv) \<longrightarrow> cur = None) \<and>
          shown r = render_row pv r (snd (screen_size pv)) cur))"

lemma map_of_map_key: "map_of (map (\<lambda>r. (r, f r)) rs) r = (if r \<in> set rs then Some (f r) else None)"
  by (induction rs) auto

lemma feed_rows:
  assumes "in_step shown t" and "feed process screen_of t dat = (u, t')"
    and "screen_of (process (parser t) dat) = s" and "r < fst (screen_size s)"
  shows "repaint shown (dirty_rows u) r = render_row s r (snd (screen_size s)) (cursor_for_row s r)"
proof -
  obtain rows cols where size: "screen_size s = (rows, cols)" by (cases "screen_size s")
  show ?thesis
  proof (cases "\<exists>pv. prev t = Some pv \<and> screen_size pv = (rows, cols) \<and> \<not> row_dirty pv s cols r")
    case True
    then obtain pv where pv: "prev t = Some pv" "screen_size pv = (rows, cols)" "\<not> row_dirty pv s cols r"
      by blast
    with assms(1,4) size obtain cur where cur: "r \<noteq> fst (cursor_position pv) \<longrightarrow> cur = None"
      "shown r = render_row pv r cols cur" by (auto simp: in_step_def)
    from pv(3) cur have "shown r = render_row s r cols (cursor_for_row s r)"
      by (auto simp: row_dirty_def intro: render_row_cong)
    moreover have "r \<notin> set (filter (row_dirty pv s cols) [0..<rows])" using pv(3) by simp
    ultimately show ?thesis
      using assms(2,3) pv(1,2) size by (auto simp: feed_def repaint_def map_of_map_key)
  next
    case False
    then show ?thesis
      using assms(2-4) size
      by (auto simp: feed_def Let_def repaint_def map_of_map_key split: option.splits if_splits)
  qed
qed

datatype view_event = Feed bytes | View nat | Resize nat nat

text \<open>The emulator and the view together: every update is applied as it is produced.\<close>

fun view_step ::
  "('p \<Rightarrow> bytes \<Rightarrow> 'p) \<Rightarrow> ('p \<Rightarrow> nat \<Rightarrow> 'p) \<Rightarrow> ('p \<Rightarrow> nat \<Rightarrow> nat \<Rightarrow> 'p) \<Rightarrow> ('p \<Rightarrow> screen)
     \<Rightarrow> 'p terminal_emulator \<times> (nat \<Rightarrow> string) \<Rightarrow> view_event \<Rightarrow> 'p terminal_emulator \<times> (nat \<Rightarrow> string)" where
  "view_step process scrollback resize screen_of (t, shown) (Feed dat) =
     (case feed process screen_of t dat of (u, t') \<Rightarrow> (t', repaint shown (dirty_rows u)))"
| "view_step process scrollback resize screen_of (t, shown) (View n) =
     (case set_view scrollback screen_of t n of (u, t') \<Rightarrow> (t', repaint shown (dirty_rows u)))"
| "view_step process scrollback resize screen_of (t, shown) (Resize rows cols) =
     (emulator_resize resize t rows cols, shown)"

lemma view_step_in_step:
  "in_step shown t \<Longrightarrow> view_step pr sb rs so (t, shown) e = (t', shown') \<Longrightarrow> in_step shown' t'"
proof (induction e)
  case (Feed dat)
  obtain u t1 where f: "feed pr so t dat = (u, t1)" by (cases "feed pr so t dat")
  let ?s = "so (pr (parser t) dat)"
  have "prev t1 = Some ?s" using f by (auto simp: feed_def Let_def split: prod.splits)
  moreover have "cursor_for_row ?s r = None" if "r \<noteq> fst (cursor_position ?s)" for r
    using that by (simp add: cursor_for_row_def)
  ultimately show ?case
    using Feed f feed_rows [OF Feed.prems(1) f refl] by (auto simp: in_step_def)
next
  case (View n)
  then show ?case
    by (auto simp: set_view_def in_step_def repaint_def map_of_map_key Let_def split: prod.splits)
next
  case (Resize rows cols)
  then show ?case by (auto simp: emulator_resize_def in_step_def)
qed

lemma view_run_in_step:
  "in_step shown t \<Longrightarrow> foldl (view_step pr sb rs so) (t, shown) es = (t', shown') \<Longrightarrow> in_step shown' t'"
proof (induction es arbitrary: t shown)
  case (Cons e es)
  obtain t1 shown1 where "view_step pr sb rs so (t, shown) e = (t1, shown1)"
    by (cases "view_step pr sb rs so (t, shown) e")
  with Cons view_step_in_step show ?case by fastforce
qed simp

text \<open>
  C6. Repainting the dirty rows is repainting everything: after any sequence of output,
  scrolling and resizing, feeding more output and replacing only the rows marked dirty leaves
  every row of the view equal to a full rendering of the new screen with its cursor.
\<close>

theorem dirty_rows_suffice:
  assumes "foldl (view_step process scrollback resize screen_of) (emulator_new new_parser rows cols, shown) es
      = (t, shown')"
    and "feed process screen_of t dat = (u, t')"
    and "screen_of (process (parser t) dat) = s" and "r < fst (screen_size s)"
  shows "repaint shown' (dirty_rows u) r
    = render_row s r (snd (screen_size s)) (cursor_for_row s r)"
proof -
  have "in_step shown (emulator_new new_parser rows cols)"
    by (simp add: in_step_def emulator_new_def)
  from view_run_in_step [OF this assms(1)] have "in_step shown' t" .
  from feed_rows [OF this assms(2-4)] show ?thesis .
qed


theorem dirty_rows_suffice_witness:
  "\<exists>u t'. feed (\<lambda>p b. p + length b) (\<lambda>p. \<lparr>screen_size = (1, 1), cell_at = (\<lambda>r c. None),
        cursor_position = (0, p), hide_cursor = False, application_cursor = False,
        application_keypad = False, alternate_screen = False, bracketed_paste = False,
        screen_title = []\<rparr>)
      (emulator_new (\<lambda>r c n. 0) 1 1) [65, 66] = (u, t') \<and>
    repaint (\<lambda>r. []) (dirty_rows u) 0 =
      ''<span style='' @ [CHR 0x22] @ ''color:#1e1e1e;background-color:#d4d4d4;'' @ [CHR 0x22] @
      ''> </span>''"
proof -
  let ?scr = "\<lambda>p. \<lparr>screen_size = (1, 1), cell_at = (\<lambda>r c. None),
        cursor_position = (0, p), hide_cursor = False, application_cursor = False,
        application_keypad = False, alternate_screen = False, bracketed_paste = False,
        screen_title = []\<rparr>"
  let ?t = "emulator_new (\<lambda>r c n. 0) 1 1"
  obtain u t' where f: "feed (\<lambda>p b. p + length b) ?scr ?t [65, 66] = (u, t')"
    by (cases "feed (\<lambda>p b. p + length b) ?scr ?t [65, 66]")
  have "repaint (\<lambda>r. []) (dirty_rows u) 0 =
      render_row (?scr 2) 0 (snd (screen_size (?scr 2))) (cursor_for_row (?scr 2) 0)"
    by (rule dirty_rows_suffice [where es = "[]" and process = "\<lambda>p b. p + length b" and
          screen_of = ?scr and rows = 1 and cols = 1 and new_parser = "\<lambda>r c n. 0" and t = ?t,
          OF _ f]) (simp_all add: emulator_new_def)
  also have "\<dots> = ''<span style='' @ [CHR 0x22] @ ''color:#1e1e1e;background-color:#d4d4d4;'' @
      [CHR 0x22] @ ''> </span>''"
    by (simp add: render_row_def cursor_for_row_def flush_run_def cursor_attrs_def is_plain_def
        span_open_def fg_for_class_def fg_classes_def bg_classes_def html_escape_def
        html_escape_char_def)
  finally show ?thesis using f by blast
qed

subsection \<open>The update payload\<close>

text \<open>
  The receiving side of the payload: a JSON string literal up to its closing quote, a decimal
  number, and a list of row objects.
\<close>

definition hex_value :: "char \<Rightarrow> nat" where
  "hex_value c =
     (let n = of_char c in if n < 58 then n - 48 else n - 87)"

fun json_string :: "string \<Rightarrow> (string \<times> string) option" where
  "json_string [] = None"
| "json_string (c # cs) =
     (if c = CHR 0x22 then Some ([], cs)
      else if c \<noteq> CHR 0x5C then map_option (map_prod (Cons c) id) (json_string cs)
      else case cs of
          [] \<Rightarrow> None
        | e # es \<Rightarrow>
            (if e = CHR 0x5C \<or> e = CHR 0x22 then map_option (map_prod (Cons e) id) (json_string es)
             else if e = CHR ''n'' then map_option (map_prod (Cons (CHR 0x0A)) id) (json_string es)
             else if e = CHR ''r'' then map_option (map_prod (Cons (CHR 0x0D)) id) (json_string es)
             else if e = CHR ''t'' then map_option (map_prod (Cons (CHR 0x09)) id) (json_string es)
             else if e = CHR ''u'' \<and> 4 \<le> length es then
               map_option (map_prod (Cons (char_of (16 * hex_value (es ! 2) + hex_value (es ! 3)))) id)
                 (json_string (drop 4 es))
             else None))"

declare json_string.simps(2) [simp del]

lemma hex_value_digit: "n < 16 \<Longrightarrow> hex_value (hex_digit n) = n"
proof -
  have "list_all (\<lambda>n. hex_value (hex_digit n) = n) [0..<16]" by code_simp
  then show "n < 16 \<Longrightarrow> hex_value (hex_digit n) = n" by (simp add: list_all_iff)
qed

lemma json_string_char:
  "json_string (json_escape_char c @ rest) = map_option (map_prod (Cons c) id) (json_string rest)"
proof -
  consider "c \<in> {CHR 0x5C, CHR 0x22, CHR 0x0A, CHR 0x0D, CHR 0x09}"
    | (ctl) "c \<notin> {CHR 0x5C, CHR 0x22, CHR 0x0A, CHR 0x0D, CHR 0x09}" "(of_char c :: nat) < 0x20"
    | (other) "c \<notin> {CHR 0x5C, CHR 0x22, CHR 0x0A, CHR 0x0D, CHR 0x09}" "\<not> (of_char c :: nat) < 0x20"
    by blast
  then show ?thesis
  proof cases
    case 1
    then show ?thesis by (auto simp: json_escape_char_def json_string.simps(2))
  next
    case ctl
    have "of_char c div 16 mod 16 < (16 :: nat)" "of_char c mod 16 < (16 :: nat)" by simp_all
    from this [THEN hex_value_digit]
    have "char_of (16 * hex_value (hex_digit (of_char c div 16 mod 16)) +
        hex_value (hex_digit (of_char c mod 16))) = c"
      using ctl(2) by (simp add: div_mult_mod_eq mult.commute)
    with ctl show ?thesis
      by (simp add: json_escape_char_def json_string.simps(2) hex04_def)
  next
    case other
    then show ?thesis by (simp add: json_escape_char_def json_string.simps(2))
  qed
qed

lemma json_string_escape:
  "json_string (concat (map json_escape_char h) @ CHR 0x22 # rest) = Some (h, rest)"
  by (induction h) (simp_all add: json_string_char json_string.simps(2) [of "CHR 0x22"])

fun json_digits :: "nat \<Rightarrow> string \<Rightarrow> nat \<times> string" where
  "json_digits acc [] = (acc, [])"
| "json_digits acc (c # cs) =
     (let n = of_char c in if 48 \<le> n \<and> n \<le> 57 then json_digits (10 * acc + (n - 48)) cs else (acc, c # cs))"

lemma decimal_digit:
  "n < 10 \<Longrightarrow> json_digits acc ((''0123456789'' ! n) # x) = json_digits (10 * acc + n) x"
proof -
  have "list_all (\<lambda>n. of_char (''0123456789'' ! n) = 48 + n) [0..<10]" by code_simp
  then show "n < 10 \<Longrightarrow> json_digits acc ((''0123456789'' ! n) # x) = json_digits (10 * acc + n) x"
    by (simp add: list_all_iff Let_def)
qed

lemma json_digits_decimal:
  "json_digits acc (decimal n @ x) = json_digits (acc * 10 ^ length (decimal n) + n) x"
proof (induction n arbitrary: acc x rule: decimal.induct)
  case (1 n)
  show ?case
  proof (cases "n < 10")
    case True
    then show ?thesis
      by (simp add: decimal.simps [of n] decimal_digit [of n] mult.commute [of acc 10] del: json_digits.simps)
  next
    case False
    from False 1 [OF False] show ?thesis
      by (simp add: decimal.simps [of n] decimal_digit [of "n mod 10"] algebra_simps
          del: json_digits.simps)
  qed
qed

definition parse_row :: "string \<Rightarrow> ((nat \<times> string) \<times> string) option" where
  "parse_row s =
     (let key_r = [CHR ''{'', CHR 0x22, CHR ''r'', CHR 0x22, CHR '':''];
          key_h = [CHR '','', CHR 0x22, CHR ''h'', CHR 0x22, CHR '':'', CHR 0x22]
      in if take 5 s \<noteq> key_r then None
         else case json_digits 0 (drop 5 s) of (r, s') \<Rightarrow>
           if take 6 s' \<noteq> key_h then None
           else case json_string (drop 6 s') of
               Some (h, c # s'') \<Rightarrow> (if c = CHR ''}'' then Some ((r, h), s'') else None)
             | _ \<Rightarrow> None)"

fun parse_rows :: "nat \<Rightarrow> string \<Rightarrow> (nat \<times> string) list option" where
  "parse_rows 0 s = None"
| "parse_rows (Suc fuel) s =
     (case parse_row s of
        None \<Rightarrow> None
      | Some (row, rest) \<Rightarrow>
          (if rest = '']'' then Some [row]
           else if rest \<noteq> [] \<and> hd rest = CHR '','' then
             map_option (Cons row) (parse_rows fuel (tl rest))
           else None))"

definition parse_payload :: "string \<Rightarrow> (nat \<times> string) list option" where
  "parse_payload s =
     (if s = ''[]'' then Some []
      else if s \<noteq> [] \<and> hd s = CHR ''['' then parse_rows (length s) (tl s) else None)"

lemma parse_payload_row: "parse_row (payload_row row @ rest) = Some (row, rest)"
proof -
  obtain r h where row: "row = (r, h)" by (cases row)
  have "json_digits 0 (decimal r @ CHR '','' # x) = (r, CHR '','' # x)" for x
    by (simp add: json_digits_decimal)
  then show ?thesis
    by (simp add: parse_row_def payload_row_def row json_escape_into_def json_string_escape)
qed

lemma parse_payload_rows:
  "rows \<noteq> [] \<Longrightarrow> length rows \<le> fuel \<Longrightarrow> parse_rows fuel (payload_rows rows @ '']'') = Some rows"
proof (induction rows arbitrary: fuel rule: payload_rows.induct)
  case 1
  then show ?case by simp
next
  case (2 r)
  then show ?case by (cases fuel) (simp_all add: parse_payload_row)
next
  case (3 r r' rs)
  then show ?case by (cases fuel) (simp_all add: parse_payload_row)
qed

lemma payload_rows_length: "length rows \<le> length (payload_rows rows)"
  by (induction rows rule: payload_rows.induct) (simp_all add: payload_row_def json_escape_into_def)

text \<open>
  The payload can be read back: parsing the JSON array of row objects gives the dirty rows
  with their numbers and their HTML, whatever characters the HTML holds.
\<close>

theorem update_payload_roundtrip: "parse_payload (build_update_payload u) = Some (dirty_rows u)"
proof (cases "dirty_rows u = []")
  case True
  then show ?thesis by (simp add: parse_payload_def build_update_payload_def)
next
  case False
  have "length (dirty_rows u) \<le> length (build_update_payload u)"
    using payload_rows_length [of "dirty_rows u"] by (simp add: build_update_payload_def)
  moreover have "payload_rows (dirty_rows u) \<noteq> []"
    using False payload_rows_length [of "dirty_rows u"] by auto
  ultimately show ?thesis
    using False
    by (simp add: parse_payload_def build_update_payload_def parse_payload_rows del: parse_rows.simps)
qed

text \<open>
  The 256-colour palette is computed without overflow: within the colour cube the channels
  are the natural-number values \<open>0\<close> or \<open>55 + 40 * v\<close> of the base-6 digits, and on the grey ramp
  \<open>8 + 10 * k\<close>, all below 256.
\<close>

theorem palette_256_no_overflow:
  assumes "15 < unat idx"
  shows "map_prod unat (map_prod unat unat) (palette_256 idx) =
    (if unat idx \<le> 231 then
       (let i = unat idx - 16; scale = (\<lambda>v. if v = 0 then 0 else 55 + v * 40)
        in (scale (i div 36), scale (i mod 36 div 6), scale (i mod 6)))
     else (let v = 8 + (unat idx - 232) * 10 in (v, v, v)))"
proof -
  have le: "(idx \<le> k) = (unat idx \<le> unat k)" for k by (rule word_le_nat_alt)
  have scale: "unat (if v = 0 then 0 else 55 + v * 40 :: u8) = (if unat v = 0 then 0 else 55 + unat v * 40)"
    if "unat v < 6" for v :: u8
    using that by (simp add: unat_word_ariths unat_eq_0)
  show ?thesis
  proof (cases "unat idx \<le> 231")
    case True
    have sub: "unat (idx - 16) = unat idx - 16" using assms by unat_arith
    have "unat ((idx - 16) div 36) < 6" "unat ((idx - 16) mod 36 div 6) < 6" "unat ((idx - 16) mod 6) < 6"
      using True by (simp_all add: unat_div_distrib unat_mod_distrib sub less_mult_imp_div_less)
    from this [THEN scale] show ?thesis
      using True assms
      by (simp add: palette_256_def le Let_def unat_div_distrib unat_mod_distrib sub)
  next
    case False
    have grey: "unat (8 + w * 10) = 8 + unat w * 10" if "unat w < 24" for w :: u8
      using that by (simp add: unat_word_ariths)
    have sub: "unat (idx - 232) = unat idx - 232" using False by unat_arith
    then have "unat (8 + (idx - 232) * 10) = 8 + (unat idx - 232) * 10"
      using grey [of "idx - 232"] unat_u8_less [of idx] False by linarith
    with False assms show ?thesis by (simp add: palette_256_def le Let_def)
  qed
qed

theorem palette_256_no_overflow_witness:
  "map_prod unat (map_prod unat unat) (palette_256 196) = (255, 0, 0)"
  using palette_256_no_overflow [of 196] by simp

end
