(* ===== verification/Transfer_Job.thy ===== *)
theory Transfer_Job
  imports Prelude
begin

text \<open>
  File transfer jobs, \<^verbatim>\<open>libs/hbb_common/src/fs.rs\<close>: the job record, the data sources and
  streams, reading and writing blocks, overwrite confirmation and resuming, and the per-tick
  loop over the read jobs.

  The file system is a map from paths to files with content and modification time (seconds and nanoseconds), and a set
  of created directories; what the operating system may refuse is the record \<open>os\<close>.  The
  compressor, and the JSON form of a digest, are arguments.  Flushing and syncing have no
  effect on this file system, a write that fails writes nothing, and the removals and renamings
  whose result the code ignores succeed.  Logging and the JSON progress log are not modelled.
\<close>

subsection \<open>Files and paths\<close>

record fs_file =
  file_data :: bytes
  file_mtime :: u64
  file_nanos :: u32

record fsys =
  fs_files :: "string \<Rightarrow> fs_file option"
  fs_dirs :: "string set"

text \<open>
  \<open>read_len p\<close> is the most one read at position \<open>p\<close> returns; a read that is not at the end of
  the file returns at least one byte.
\<close>

record os =
  can_create :: "string \<Rightarrow> bool"
  can_open :: "string \<Rightarrow> bool"
  can_read :: "string \<Rightarrow> bool"
  can_remove :: "string \<Rightarrow> bool"
  can_write :: "string \<Rightarrow> bool"
  read_len :: "nat \<Rightarrow> nat"
  os_error :: string
  os_now :: u64
  os_now_nanos :: u32

definition path_exists :: "fsys \<Rightarrow> string \<Rightarrow> bool" where
  "path_exists fs p = (fs_files fs p \<noteq> None \<or> p \<in> fs_dirs fs)"

definition is_file :: "fsys \<Rightarrow> string \<Rightarrow> bool" where
  "is_file fs p = (fs_files fs p \<noteq> None)"

definition put_file :: "fsys \<Rightarrow> string \<Rightarrow> fs_file \<Rightarrow> fsys" where
  "put_file fs p f = fs\<lparr>fs_files := (fs_files fs)(p \<mapsto> f)\<rparr>"

definition create_dir_all :: "fsys \<Rightarrow> string \<Rightarrow> fsys" where
  "create_dir_all fs p = fs\<lparr>fs_dirs := insert p (fs_dirs fs)\<rparr>"

definition file_create :: "os \<Rightarrow> fsys \<Rightarrow> string \<Rightarrow> string + fsys" where
  "file_create env fs p =
     (if can_create env p then Inr (put_file fs p \<lparr>file_data = [], file_mtime = os_now env,
          file_nanos = os_now_nanos env\<rparr>)
      else Inl (os_error env))"

definition remove_file :: "fsys \<Rightarrow> string \<Rightarrow> fsys" where
  "remove_file fs p = fs\<lparr>fs_files := (fs_files fs)(p := None)\<rparr>"

definition rename_file :: "fsys \<Rightarrow> string \<Rightarrow> string \<Rightarrow> fsys" where
  "rename_file fs p q =
     (case fs_files fs p of
        None \<Rightarrow> fs
      | Some f \<Rightarrow> fs\<lparr>fs_files := ((fs_files fs)(p := None))(q \<mapsto> f)\<rparr>)"

definition set_file_mtime :: "fsys \<Rightarrow> string \<Rightarrow> u64 \<Rightarrow> fsys" where
  "set_file_mtime fs p t =
     (case fs_files fs p of None \<Rightarrow> fs | Some f \<Rightarrow> put_file fs p (f\<lparr>file_mtime := t, file_nanos := 0\<rparr>))"

definition overwrite_at :: "bytes \<Rightarrow> nat \<Rightarrow> bytes \<Rightarrow> bytes" where
  "overwrite_at old pos new =
     take pos old @ replicate (pos - length old) 0 @ new @ drop (pos + length new) old"

text \<open>\<^verbatim>\<open>Path::join\<close>: an absolute second path replaces the first.\<close>

definition path_join :: "string \<Rightarrow> string \<Rightarrow> string" where
  "path_join p name =
     (if name \<noteq> [] \<and> hd name = CHR ''/'' then name
      else if p = [] \<or> last p = CHR ''/'' then p @ name
      else p @ CHR ''/'' # name)"

definition job_join :: "string \<Rightarrow> string \<Rightarrow> string" where
  "job_join p name = (if name = [] then p else path_join p name)"

definition path_parent :: "string \<Rightarrow> string" where
  "path_parent p = rev (tl (dropWhile (\<lambda>c. c \<noteq> CHR ''/'') (rev p)))"

definition is_dir_marker :: "string \<Rightarrow> bool" where
  "is_dir_marker name = (name \<noteq> [] \<and> last name = CHR ''/'')"

definition get_ext :: "string \<Rightarrow> string" where
  "get_ext name =
     (if CHR ''.'' \<in> set name then rev (takeWhile (\<lambda>c. c \<noteq> CHR ''.'') (rev name)) else [])"

definition is_compressed_file :: "string \<Rightarrow> bool" where
  "is_compressed_file name =
     (get_ext name \<in> set [''xz'', ''gz'', ''zip'', ''7z'', ''rar'', ''bz2'', ''tgz'', ''png'', ''jpg''])"

subsection \<open>Jobs\<close>

datatype job_type = Generic | Printer

definition job_type_of_int :: "int \<Rightarrow> job_type" where
  "job_type_of_int v = (if v = 0 then Generic else if v = 1 then Printer else Generic)"

definition int_of_job_type :: "job_type \<Rightarrow> int" where
  "int_of_job_type t = (case t of Generic \<Rightarrow> 0 | Printer \<Rightarrow> 1)"

record file_entry =
  entry_name :: string
  entry_size :: u64
  entry_modified :: u64

datatype data_source = FilePath string | MemoryCursor bytes

definition to_meta :: "data_source \<Rightarrow> string" where
  "to_meta d = (case d of FilePath p \<Rightarrow> p | MemoryCursor _ \<Rightarrow> [])"

text \<open>An open file is its path and position, a buffered memory stream its bytes and position.\<close>

datatype data_stream = FileStream string nat | BufStream bytes nat

record file_digest =
  digest_size :: u64
  digest_modified :: u64

record transfer_job =
  job_id :: int
  job_type :: job_type
  job_remote :: string
  data_source :: data_source
  show_hidden :: bool
  is_remote :: bool
  is_last_job :: bool
  is_resume :: bool
  file_num :: int
  job_files :: "file_entry list"
  data_stream :: "data_stream option"
  job_total_size :: u64
  finished_size :: u64
  transferred :: u64
  enable_overwrite_detection :: bool
  file_confirmed :: bool
  file_skipped :: bool
  file_is_waiting :: bool
  default_overwrite_strategy :: "bool option"
  job_digest :: file_digest
  direct :: bool
  file_error :: "string option"

text \<open>\<^verbatim>\<open>i32 as usize\<close>: a negative number becomes a huge one.\<close>

definition as_usize :: "int \<Rightarrow> nat" where
  "as_usize i = (if 0 \<le> i then nat i else nat (2 ^ 64 + i))"

definition sum_sizes :: "file_entry list \<Rightarrow> u64" where
  "sum_sizes es = sum_list (map entry_size es)"

definition new_write ::
  "int \<Rightarrow> job_type \<Rightarrow> string \<Rightarrow> data_source \<Rightarrow> int \<Rightarrow> bool \<Rightarrow> bool \<Rightarrow> file_entry list \<Rightarrow> bool
     \<Rightarrow> transfer_job" where
  "new_write i t remote src num hidden rem files detect =
     \<lparr>job_id = i, job_type = t, job_remote = remote, data_source = src, show_hidden = hidden,
      is_remote = rem, is_last_job = False, is_resume = False, file_num = num, job_files = files,
      data_stream = None, job_total_size = sum_sizes files, finished_size = 0, transferred = 0,
      enable_overwrite_detection = detect, file_confirmed = False, file_skipped = False,
      file_is_waiting = False, default_overwrite_strategy = None,
      job_digest = \<lparr>digest_size = 0, digest_modified = 0\<rparr>, direct = False, file_error = None\<rparr>"

text \<open>\<open>new_read\<close> lists the files with \<open>get_recursive_files\<close>, an argument here.\<close>

definition new_read ::
  "(string \<Rightarrow> bool \<Rightarrow> string + file_entry list) \<Rightarrow> int \<Rightarrow> job_type \<Rightarrow> string \<Rightarrow> data_source \<Rightarrow> int
     \<Rightarrow> bool \<Rightarrow> bool \<Rightarrow> bool \<Rightarrow> string + transfer_job" where
  "new_read list_files i t remote src num hidden rem detect =
     (case (case src of
              FilePath p \<Rightarrow>
                (case list_files p hidden of Inl e \<Rightarrow> Inl e | Inr fl \<Rightarrow> Inr (fl, sum_sizes fl))
            | MemoryCursor c \<Rightarrow> Inr ([], word_of_nat (length c))) of
        Inl e \<Rightarrow> Inl e
      | Inr (files, bytes) \<Rightarrow>
          Inr ((new_write i t remote src num hidden rem files detect)\<lparr>job_total_size := bytes\<rparr>))"

definition get_buf_data :: "transfer_job \<Rightarrow> bytes option" where
  "get_buf_data j = (case data_stream j of Some (BufStream b _) \<Rightarrow> Some b | _ \<Rightarrow> None)"

definition set_files :: "fsys \<Rightarrow> transfer_job \<Rightarrow> file_entry list \<Rightarrow> fsys \<times> transfer_job" where
  "set_files fs j files =
     ((case data_source j of
         FilePath p \<Rightarrow>
           fold (\<lambda>f fs. if is_dir_marker (entry_name f)
                        then create_dir_all fs (job_join p (entry_name f)) else fs) files fs
       | MemoryCursor _ \<Rightarrow> fs),
      j\<lparr>job_files := files\<rparr>)"

definition set_digest :: "transfer_job \<Rightarrow> u64 \<Rightarrow> u64 \<Rightarrow> transfer_job" where
  "set_digest j sz modified = j\<lparr>job_digest := \<lparr>digest_size = sz, digest_modified = modified\<rparr>\<rparr>"

definition modify_time :: "fsys \<Rightarrow> transfer_job \<Rightarrow> fsys" where
  "modify_time fs j =
     (if job_type j = Printer then fs
      else case data_source j of
          FilePath p \<Rightarrow>
            (let n = as_usize (file_num j)
             in if n < length (job_files j) then
                  (let entry = job_files j ! n; path = job_join p (entry_name entry);
                       fs1 = remove_file fs (path @ ''.digest'');
                       fs2 = rename_file fs1 (path @ ''.download'') path
                   in set_file_mtime fs2 path (entry_modified entry))
                else fs)
        | MemoryCursor _ \<Rightarrow> fs)"

definition remove_download_file :: "fsys \<Rightarrow> transfer_job \<Rightarrow> fsys" where
  "remove_download_file fs j =
     (if job_type j = Printer then fs
      else case data_source j of
          FilePath p \<Rightarrow>
            (let n = as_usize (file_num j)
             in if n < length (job_files j) then
                  (let path = job_join p (entry_name (job_files j ! n))
                   in remove_file (remove_file fs (path @ ''.download'')) (path @ ''.digest''))
                else fs)
        | MemoryCursor _ \<Rightarrow> fs)"

definition set_finished_size_on_resume :: "transfer_job \<Rightarrow> transfer_job" where
  "set_finished_size_on_resume j =
     (if is_resume j \<and> 0 < file_num j
      then j\<lparr>finished_size := sum_sizes (take (as_usize (file_num j)) (job_files j))\<rparr>
      else j)"

subsection \<open>Writing a block\<close>

record file_block =
  blk_id :: int
  blk_file_num :: int
  blk_data :: bytes
  blk_compressed :: bool

text \<open>
  The preparation of the stream, up to the point where the block's bytes are written: \<open>Inl\<close>
  an error, \<open>Inr None\<close> the early return for an empty-directory marker.
\<close>

definition prepare_stream ::
  "os \<Rightarrow> (file_digest \<Rightarrow> bytes) \<Rightarrow> fsys \<Rightarrow> transfer_job \<Rightarrow> file_block
     \<Rightarrow> (string + bool) \<times> fsys \<times> transfer_job" where
  "prepare_stream env json fs j block =
     (case data_source j of
        FilePath p \<Rightarrow>
          (let n = as_usize (blk_file_num block)
           in if length (job_files j) \<le> n then (Inl ''Wrong file number'', fs, j)
              else if is_dir_marker (entry_name (job_files j ! n)) then
                (Inr False, create_dir_all fs (job_join p (entry_name (job_files j ! n))),
                 j\<lparr>file_num := blk_file_num block\<rparr>)
              else if n \<noteq> as_usize (file_num j) \<or> data_stream j = None then
                (let fs1 = modify_time fs j;
                     j1 = j\<lparr>file_num := blk_file_num block\<rparr>;
                     path = job_join p (entry_name (job_files j ! n));
                     (target, dp, fs2) =
                       (if job_type j = Printer then (p, None, fs1)
                        else (path @ ''.download'', Some (path @ ''.digest''),
                              create_dir_all fs1 (path_parent path)));
                     stale = (case dp of Some d \<Rightarrow> path_exists fs2 d | None \<Rightarrow> False)
                 in if stale \<and> \<not> can_remove env (the dp) then (Inl (os_error env), fs2, j1)
                    else
                      (let fs3 = (if stale then remove_file fs2 (the dp) else fs2)
                       in case file_create env fs3 target of
                            Inl e \<Rightarrow> (Inl e, fs3, j1)
                          | Inr fs4 \<Rightarrow>
                              (Inr True,
                               (case dp of
                                  Some d \<Rightarrow> put_file fs4 d
                                    \<lparr>file_data = json (job_digest j), file_mtime = os_now env,
          file_nanos = os_now_nanos env\<rparr>
                                | None \<Rightarrow> fs4),
                               j1\<lparr>data_stream := Some (FileStream target 0)\<rparr>)))
              else (Inr True, fs, j))
      | MemoryCursor c \<Rightarrow>
          (Inr True, fs,
           if data_stream j = None then j\<lparr>data_stream := Some (BufStream c 0)\<rparr> else j))"

definition stream_write ::
  "os \<Rightarrow> fsys \<Rightarrow> data_stream \<Rightarrow> bytes \<Rightarrow> fsys \<times> data_stream" where
  "stream_write env fs st dat =
     (case st of
        FileStream p pos \<Rightarrow>
          ((case fs_files fs p of
              Some f \<Rightarrow> put_file fs p
                \<lparr>file_data = overwrite_at (file_data f) pos dat, file_mtime = os_now env,
          file_nanos = os_now_nanos env\<rparr>
            | None \<Rightarrow> fs),
           FileStream p (pos + length dat))
      | BufStream b pos \<Rightarrow> (fs, BufStream (overwrite_at b pos dat) (pos + length dat)))"

definition stream_writable :: "os \<Rightarrow> data_stream \<Rightarrow> bool" where
  "stream_writable env st = (case st of FileStream p _ \<Rightarrow> can_write env p | BufStream _ _ \<Rightarrow> True)"

definition job_write ::
  "os \<Rightarrow> (bytes \<Rightarrow> bytes) \<Rightarrow> (file_digest \<Rightarrow> bytes) \<Rightarrow> fsys \<Rightarrow> transfer_job \<Rightarrow> file_block
     \<Rightarrow> (string + unit) \<times> fsys \<times> transfer_job" where
  "job_write env decompress json fs j block =
     (if blk_id block \<noteq> job_id j then (Inl ''Wrong id'', fs, j)
      else case prepare_stream env json fs j block of
          (Inl e, fs1, j1) \<Rightarrow> (Inl e, fs1, j1)
        | (Inr False, fs1, j1) \<Rightarrow> (Inr (), fs1, j1)
        | (Inr True, fs1, j1) \<Rightarrow>
            (let dat = (if blk_compressed block then decompress (blk_data block) else blk_data block)
             in case data_stream j1 of
                  None \<Rightarrow>
                    (Inl (if blk_compressed block then ''data stream is None'' else ''file is None''), fs1, j1)
                | Some st \<Rightarrow>
                    if \<not> stream_writable env st then (Inl (os_error env), fs1, j1)
                    else (case stream_write env fs1 st dat of (fs2, st') \<Rightarrow>
                      (Inr (), fs2,
                       j1\<lparr>data_stream := Some st',
                          finished_size := finished_size j1 + word_of_nat (length dat),
                          transferred := transferred j1 + word_of_nat (length (blk_data block))\<rparr>))))"

subsection \<open>Reading a block\<close>

datatype transfer_msg =
    MsgDigest int int u64 u64 bool
  | MsgBlock file_block
  | MsgError int string int
  | MsgDone int int

text \<open>One \<^verbatim>\<open>read\<close> into the \<open>k\<close> bytes that are left of the buffer, and the loop that fills it.\<close>

definition os_read :: "os \<Rightarrow> bytes \<Rightarrow> nat \<Rightarrow> nat \<Rightarrow> bytes" where
  "os_read env dat pos k = take (min k (max 1 (read_len env pos))) (drop pos dat)"

function read_fill :: "os \<Rightarrow> bytes \<Rightarrow> nat \<Rightarrow> nat \<Rightarrow> bytes" where
  "read_fill env dat pos k =
     (let c = os_read env dat pos k
      in if c = [] \<or> length c = k then c
         else c @ read_fill env dat (pos + length c) (k - length c))"
  by pat_completeness auto
termination
  by (relation "measure (\<lambda>(env, dat, pos, k). k)") (auto simp: os_read_def)

declare read_fill.simps [simp del]

definition stream_bytes :: "fsys \<Rightarrow> data_stream \<Rightarrow> bytes" where
  "stream_bytes fs st =
     (case st of
        FileStream p _ \<Rightarrow> (case fs_files fs p of Some f \<Rightarrow> file_data f | None \<Rightarrow> [])
      | BufStream b _ \<Rightarrow> b)"

definition stream_pos :: "data_stream \<Rightarrow> nat" where
  "stream_pos st = (case st of FileStream _ n \<Rightarrow> n | BufStream _ n \<Rightarrow> n)"

definition stream_seek :: "data_stream \<Rightarrow> nat \<Rightarrow> data_stream" where
  "stream_seek st n = (case st of FileStream p _ \<Rightarrow> FileStream p n | BufStream b _ \<Rightarrow> BufStream b n)"

definition stream_readable :: "os \<Rightarrow> data_stream \<Rightarrow> bool" where
  "stream_readable env st = (case st of FileStream p _ \<Rightarrow> can_read env p | BufStream _ _ \<Rightarrow> True)"

text \<open>The steps that leave the current file behind.\<close>

definition advance_file :: "transfer_job \<Rightarrow> transfer_job" where
  "advance_file j =
     j\<lparr>file_num := file_num j + 1, file_confirmed := False, file_is_waiting := False\<rparr>"

definition send_current_digest :: "fsys \<Rightarrow> transfer_job \<Rightarrow> string + transfer_msg" where
  "send_current_digest fs j =
     (case data_stream j of
        None \<Rightarrow> Inl ''file is None''
      | Some (FileStream p _) \<Rightarrow>
          (case fs_files fs p of
             Some f \<Rightarrow> Inr (MsgDigest (job_id j) (file_num j) (file_mtime f)
                       (word_of_nat (length (file_data f))) (is_resume j))
           | None \<Rightarrow> Inl ''No such file or directory'')
      | Some (BufStream _ _) \<Rightarrow> Inl ''No need to send digest for buf stream'')"

text \<open>
  Opening the source: \<open>Inl\<close> is an early return, \<open>Inr\<close> the job with its stream and the name
  of the current file.
\<close>

definition open_source ::
  "os \<Rightarrow> fsys \<Rightarrow> transfer_job
     \<Rightarrow> ((string + file_block option) \<times> transfer_job) + (transfer_job \<times> string)" where
  "open_source env fs j =
     (case data_source j of
        FilePath p \<Rightarrow>
          (let n = as_usize (file_num j)
           in if length (job_files j) \<le> n then Inl (Inr None, j\<lparr>data_stream := None\<rparr>)
              else
                (let name = entry_name (job_files j ! n)
                 in if is_dir_marker name then
                      Inl (Inr (Some \<lparr>blk_id = job_id j, blk_file_num = file_num j, blk_data = [],
                                     blk_compressed = False\<rparr>), advance_file j)
                    else if data_stream j \<noteq> None then Inr (j, name)
                    else
                      (let path = job_join p name
                       in if can_open env path \<and> is_file fs path then
                            Inr (j\<lparr>data_stream := Some (FileStream path 0), file_confirmed := False,
                                   file_is_waiting := False\<rparr>, name)
                          else
                            Inl (Inl (os_error env),
                                 (advance_file j)\<lparr>file_error := Some (os_error env)\<rparr>))))
      | MemoryCursor c \<Rightarrow>
          Inr (if data_stream j = None
               then j\<lparr>data_source := MemoryCursor [], data_stream := Some (BufStream c 0)\<rparr> else j, []))"

text \<open>Filling a block from the open stream; \<open>compress\<close> is the zstd compressor.\<close>

definition read_block ::
  "os \<Rightarrow> (bytes \<Rightarrow> bytes) \<Rightarrow> fsys \<Rightarrow> transfer_job \<Rightarrow> string
     \<Rightarrow> (string + file_block option) \<times> transfer_job" where
  "read_block env compress fs j name =
     (case data_stream j of
        None \<Rightarrow> (Inl ''data stream is None'', j)
      | Some st \<Rightarrow>
          if \<not> stream_readable env st then
            (Inl (os_error env),
             (advance_file j)\<lparr>data_stream := None, file_error := Some (os_error env)\<rparr>)
          else
            (let buf_size = (if direct j then 512 * 1024 else 64 * 1024);
                 buf = read_fill env (stream_bytes fs st) (stream_pos st) buf_size;
                 memory = (case data_source j of MemoryCursor _ \<Rightarrow> True | FilePath _ \<Rightarrow> False)
             in if buf = [] \<and> memory then (Inr None, j\<lparr>data_stream := None\<rparr>)
                else if buf = [] then
                  (Inr (Some \<lparr>blk_id = job_id j, blk_file_num = file_num j, blk_data = [],
                              blk_compressed = False\<rparr>),
                   (advance_file j)\<lparr>data_stream := None\<rparr>)
                else
                  (let tmp = compress buf;
                       compressed = (\<not> memory \<and> \<not> is_compressed_file name \<and> 16384 < length buf \<and>
                                     length tmp + length tmp div 5 < length buf);
                       payload = (if compressed then tmp else buf)
                   in (Inr (Some \<lparr>blk_id = job_id j, blk_file_num = file_num j, blk_data = payload,
                                   blk_compressed = compressed\<rparr>),
                       j\<lparr>data_stream := Some (stream_seek st (stream_pos st + length buf)),
                         finished_size := finished_size j + word_of_nat (length buf),
                         transferred := transferred j + word_of_nat (length payload)\<rparr>))))"

definition job_read ::
  "os \<Rightarrow> (bytes \<Rightarrow> bytes) \<Rightarrow> fsys \<Rightarrow> transfer_job
     \<Rightarrow> (string + file_block option) \<times> transfer_job \<times> transfer_msg list" where
  "job_read env compress fs j =
     (case open_source env fs j of
        Inl (res, j1) \<Rightarrow> (res, j1, [])
      | Inr (j1, name) \<Rightarrow>
          if job_type j1 = Generic \<and> enable_overwrite_detection j1 \<and> \<not> file_confirmed j1 then
            (if \<not> file_is_waiting j1 then
               (case send_current_digest fs j1 of
                  Inl e \<Rightarrow> (Inl e, j1, [])
                | Inr m \<Rightarrow> (Inr None, j1\<lparr>file_is_waiting := True\<rparr>, [m]))
             else (Inr None, j1, []))
          else (case read_block env compress fs j1 name of (res, j2) \<Rightarrow> (res, j2, [])))"

subsection \<open>Confirmation, skipping and resuming\<close>

definition set_overwrite_strategy :: "transfer_job \<Rightarrow> bool option \<Rightarrow> transfer_job" where
  "set_overwrite_strategy j s = j\<lparr>default_overwrite_strategy := s\<rparr>"

definition set_file_confirmed :: "transfer_job \<Rightarrow> bool \<Rightarrow> transfer_job" where
  "set_file_confirmed j c = j\<lparr>file_confirmed := c, file_skipped := False\<rparr>"

definition set_file_is_waiting :: "transfer_job \<Rightarrow> bool \<Rightarrow> transfer_job" where
  "set_file_is_waiting j w = j\<lparr>file_is_waiting := w\<rparr>"

definition job_skipped :: "transfer_job \<Rightarrow> bool" where
  "job_skipped j = (file_skipped j \<and> length (job_files j) = 1)"

definition job_completed :: "transfer_job \<Rightarrow> bool" where
  "job_completed j =
     (\<not> enable_overwrite_detection j \<or> \<not> file_confirmed j \<and> \<not> file_is_waiting j)"

definition job_error :: "transfer_job \<Rightarrow> string option" where
  "job_error j = (if job_skipped j then Some ''skipped'' else file_error j)"

definition set_file_skipped :: "transfer_job \<Rightarrow> transfer_job" where
  "set_file_skipped j =
     (let j1 = set_file_is_waiting (set_file_confirmed (j\<lparr>data_stream := None\<rparr>) False) False
      in j1\<lparr>file_num := file_num j1 + 1, file_skipped := True\<rparr>)"

text \<open>
  \<open>None\<close> is the panic of the unchecked index \<^verbatim>\<open>self.files[file_num]\<close>.
\<close>

definition set_stream_offset ::
  "os \<Rightarrow> fsys \<Rightarrow> transfer_job \<Rightarrow> nat \<Rightarrow> u64 \<Rightarrow> transfer_job option" where
  "set_stream_offset env fs j n offset =
     (case data_source j of
        MemoryCursor _ \<Rightarrow> Some j
      | FilePath p \<Rightarrow>
          if length (job_files j) \<le> n then None
          else
            (let path = job_join p (entry_name (job_files j ! n));
                 download = path @ ''.download'';
                 seeked = (\<lambda>q. j\<lparr>data_stream := Some (FileStream q (unat offset)),
                   transferred := transferred j + offset, finished_size := finished_size j + offset\<rparr>)
             in Some
                  (if path_exists fs download \<and> path_exists fs (path @ ''.digest'') then
                     (if can_create env download then seeked download else j)
                   else if path_exists fs path then
                     (if can_open env path then seeked path else j)
                   else j)))"

datatype confirm_union = Skip bool | OffsetBlk u32

record send_confirm =
  confirm_id :: int
  confirm_file_num :: int
  confirm_union :: "confirm_union option"

definition job_confirm ::
  "os \<Rightarrow> fsys \<Rightarrow> transfer_job \<Rightarrow> send_confirm \<Rightarrow> transfer_job option" where
  "job_confirm env fs j r =
     (if file_num j \<noteq> confirm_file_num r then Some j
      else case confirm_union r of
          Some (Skip s) \<Rightarrow> Some (if s then set_file_skipped j else set_file_confirmed j True)
        | Some (OffsetBlk offset) \<Rightarrow>
            (let j1 = set_file_confirmed j True
             in if 0 < offset
                then set_stream_offset env fs j1 (as_usize (confirm_file_num r)) (ucast offset)
                else Some j1)
        | None \<Rightarrow> Some j)"

subsection \<open>The job list\<close>

fun remove_job :: "int \<Rightarrow> transfer_job list \<Rightarrow> transfer_job option \<times> transfer_job list" where
  "remove_job i [] = (None, [])"
| "remove_job i (j # js) =
     (if job_id j = i then (Some j, js)
      else case remove_job i js of (r, js') \<Rightarrow> (r, j # js'))"

fun get_job :: "int \<Rightarrow> transfer_job list \<Rightarrow> transfer_job option" where
  "get_job i [] = None"
| "get_job i (j # js) = (if job_id j = i then Some j else get_job i js)"

text \<open>
  The inner loop over one job: \<open>k\<close> counts the blocks that may still be sent in this tick,
  \<open>sent\<close> the bytes sent.  The flag of the result says that the job has finished.
\<close>

fun read_burst ::
  "os \<Rightarrow> (bytes \<Rightarrow> bytes) \<Rightarrow> fsys \<Rightarrow> nat \<Rightarrow> nat \<Rightarrow> nat \<Rightarrow> transfer_job
     \<Rightarrow> transfer_msg list \<times> transfer_job \<times> bool" where
  "read_burst env compress fs max_bytes 0 sent j = ([], j, False)"
| "read_burst env compress fs max_bytes (Suc k) sent j =
     (case job_read env compress fs j of
        (Inl err, j1, ms) \<Rightarrow> (ms @ [MsgError (job_id j1) err (file_num j1)], j1, False)
      | (Inr (Some block), j1, ms) \<Rightarrow>
          (let sent' = sent + length (blk_data block)
           in if k = 0 \<or> max_bytes \<le> sent' then (ms @ [MsgBlock block], j1, False)
              else case read_burst env compress fs max_bytes k sent' j1 of
                  (ms', j2, fin) \<Rightarrow> (ms @ MsgBlock block # ms', j2, fin))
      | (Inr None, j1, ms) \<Rightarrow>
          (if job_completed j1 then
             (ms @ [case job_error j1 of
                      Some err \<Rightarrow> MsgError (job_id j1) err (file_num j1)
                    | None \<Rightarrow> MsgDone (job_id j1) (file_num j1)], j1, True)
           else (ms, j1, False)))"

text \<open>The first job that is not a left-over of the last session is served, then the tick ends.\<close>

fun serve_first ::
  "(transfer_job \<Rightarrow> transfer_msg list \<times> transfer_job \<times> bool) \<Rightarrow> transfer_job list
     \<Rightarrow> transfer_msg list \<times> transfer_job list \<times> int option" where
  "serve_first serve [] = ([], [], None)"
| "serve_first serve (j # js) =
     (if is_last_job j then
        (case serve_first serve js of (ms, js', fin) \<Rightarrow> (ms, j # js', fin))
      else case serve j of
          (ms, j', fin) \<Rightarrow> (ms, j' # js, if fin then Some (job_id j') else None))"

definition handle_read_jobs ::
  "os \<Rightarrow> (bytes \<Rightarrow> bytes) \<Rightarrow> fsys \<Rightarrow> bool \<Rightarrow> transfer_job list
     \<Rightarrow> transfer_msg list \<times> transfer_job list" where
  "handle_read_jobs env compress fs dir jobs =
     (let max_blocks = (if dir then 128 else 32);
          max_bytes = (if dir then 16 * 1024 * 1024 else 2 * 1024 * 1024)
      in case serve_first (read_burst env compress fs max_bytes max_blocks 0) jobs of
           (ms, jobs', None) \<Rightarrow> (ms, jobs')
         | (ms, jobs', Some i) \<Rightarrow> (ms, snd (remove_job i jobs')))"

subsection \<open>Is a confirmation needed?\<close>

record transfer_digest =
  td_id :: int
  td_file_num :: int
  td_last_modified :: u64
  td_file_size :: u64
  td_is_identical :: bool
  td_transferred_size :: u64

datatype digest_check = IsSame | NeedConfirm transfer_digest | NoSuchFile

text \<open>\<open>of_json\<close> reads a digest file back, the parser of the \<open>serde_json\<close> crate.\<close>

definition is_write_need_confirmation ::
  "(bytes \<Rightarrow> file_digest option) \<Rightarrow> fsys \<Rightarrow> bool \<Rightarrow> string \<Rightarrow> transfer_digest \<Rightarrow> digest_check" where
  "is_write_need_confirmation of_json fs resume path d =
     (let resumed =
        (if resume then
           (case (fs_files fs (path @ ''.digest''), fs_files fs (path @ ''.download'')) of
              (Some df, Some dl) \<Rightarrow>
                (case of_json (file_data df) of
                   Some local \<Rightarrow>
                     (if digest_modified local = td_last_modified d \<and> digest_size local = td_file_size d \<and>
                         file_data dl \<noteq> []
                      then Some (d\<lparr>td_is_identical := True,
                                   td_transferred_size := word_of_nat (length (file_data dl))\<rparr>)
                      else None)
                 | None \<Rightarrow> None)
            | _ \<Rightarrow> None)
         else None)
      in case resumed of
           Some r \<Rightarrow> NeedConfirm r
         | None \<Rightarrow>
             (case fs_files fs path of
                Some f \<Rightarrow>
                  NeedConfirm (d\<lparr>td_last_modified := file_mtime f,
                    td_file_size := word_of_nat (length (file_data f)),
                    td_is_identical := (td_last_modified d = file_mtime f \<and> file_nanos f = 0 \<and>
                      td_file_size d = word_of_nat (length (file_data f))),
                    td_transferred_size := 0\<rparr>)
              | None \<Rightarrow> NoSuchFile))"

end
