(* ===== verification/Transfer_Roundtrip.thy ===== *)
theory Transfer_Roundtrip
  imports Transfer_Job
begin

text \<open>
  What the transfer jobs of \<open>Transfer_Job\<close> achieve together: the blocks a read job yields, what a
  write job makes of them, the completeness of a transfer of several files, the places where it
  is not complete, and the behaviour of confirmation, resuming and the job list.
\<close>

subsection \<open>The reading side\<close>

lemma as_usize_nat [simp]: "as_usize (int n) = n"
  by (simp add: as_usize_def)

lemma read_fill_take: "0 < k \<Longrightarrow> read_fill env dat pos k = take k (drop pos dat)"
proof (induction env dat pos k rule: read_fill.induct)
  case (1 env dat pos k)
  let ?c = "os_read env dat pos k"
  have c: "?c = take (length ?c) (drop pos dat)" and le: "length ?c \<le> k"
    by (auto simp: os_read_def min_def)
  show ?case
  proof (cases "?c = [] \<or> length ?c = k")
    case True
    then show ?thesis
      using c "1.prems" by (auto simp: read_fill.simps [of env dat pos k] os_read_def)
  next
    case False
    then have "read_fill env dat (pos + length ?c) (k - length ?c)
        = take (k - length ?c) (drop (pos + length ?c) dat)"
      using le by (intro "1.IH") auto
    moreover have "take k (drop pos dat) = take (length ?c) (drop pos dat) @
        take (k - length ?c) (drop (pos + length ?c) dat)"
      using le take_add [of "length ?c" "k - length ?c" "drop pos dat"] by (simp add: add.commute)
    ultimately show ?thesis
      using False c by (simp add: read_fill.simps [of env dat pos k] Let_def)
  qed
qed

text \<open>A complete run of a read job: blocks until it returns \<open>Ok(None)\<close>.\<close>

inductive reads ::
  "os \<Rightarrow> (bytes \<Rightarrow> bytes) \<Rightarrow> fsys \<Rightarrow> transfer_job \<Rightarrow> file_block list \<Rightarrow> transfer_job \<Rightarrow> bool"
  for env compress fs where
  reads_end: "job_read env compress fs j = (Inr None, j', ms) \<Longrightarrow> reads env compress fs j [] j'"
| reads_block: "job_read env compress fs j = (Inr (Some b), j1, ms) \<Longrightarrow> reads env compress fs j1 bs j'
    \<Longrightarrow> reads env compress fs j (b # bs) j'"

definition block_size :: "transfer_job \<Rightarrow> nat" where
  "block_size j = (if direct j then 512 * 1024 else 64 * 1024)"

lemma block_size_pos [simp]: "0 < block_size j"
  by (simp add: block_size_def)

text \<open>A read job without overwrite detection on readable files.\<close>

definition sender_ok :: "os \<Rightarrow> fsys \<Rightarrow> string \<Rightarrow> (nat \<Rightarrow> bytes) \<Rightarrow> transfer_job \<Rightarrow> bool" where
  "sender_ok env fs sp D j \<longleftrightarrow>
     data_source j = FilePath sp \<and> \<not> enable_overwrite_detection j \<and>
     (\<forall>n < length (job_files j). let path = job_join sp (entry_name (job_files j ! n)) in
        \<not> is_dir_marker (entry_name (job_files j ! n)) \<and> can_open env path \<and> can_read env path \<and>
        map_option file_data (fs_files fs path) = Some (D n))"

text \<open>What a block carries once it is decoded.\<close>

definition decoded :: "(bytes \<Rightarrow> bytes) \<Rightarrow> file_block \<Rightarrow> bytes" where
  "decoded decompress b = (if blk_compressed b then decompress (blk_data b) else blk_data b)"

lemma job_read_file:
  assumes ok: "sender_ok env fs sp D j" and n: "n < length (job_files j)" and num: "file_num j = int n"
    and st: "data_stream j = (if pos = 0 then st0 else Some (FileStream path pos))"
      "st0 = None \<or> st0 = Some (FileStream path 0)"
    and path: "path = job_join sp (entry_name (job_files j ! n))"
    and inv: "\<And>b. decompress (compress b) = b"
  shows "\<exists>b j1. job_read env compress fs j = (Inr (Some b), j1, []) \<and> sender_ok env fs sp D j1 \<and>
    job_files j1 = job_files j \<and> direct j1 = direct j \<and> job_id j1 = job_id j \<and>
    blk_id b = job_id j \<and> blk_file_num b = int n \<and>
    decoded decompress b = take (block_size j) (drop pos (D n)) \<and>
    (if drop pos (D n) = [] then file_num j1 = int (Suc n) \<and> data_stream j1 = None
     else file_num j1 = int n \<and>
       data_stream j1 = Some (FileStream path (pos + length (take (block_size j) (drop pos (D n))))))"
proof -
  obtain f where f: "fs_files fs path = Some f" "file_data f = D n"
    and os: "can_open env path" "can_read env path" "\<not> is_dir_marker (entry_name (job_files j ! n))"
    using ok n path by (auto simp: sender_ok_def Let_def)
  define j0 where "j0 = (if data_stream j = None
    then j\<lparr>data_stream := Some (FileStream path 0), file_confirmed := False, file_is_waiting := False\<rparr>
    else j)"
  have open_j: "open_source env fs j = Inr (j0, entry_name (job_files j ! n))"
    using ok n num f(1) os path by (auto simp: open_source_def sender_ok_def is_file_def j0_def Let_def)
  have j0: "data_stream j0 = Some (FileStream path pos)" "job_files j0 = job_files j"
    "direct j0 = direct j" "job_id j0 = job_id j" "file_num j0 = int n"
    "data_source j0 = FilePath sp" "\<not> enable_overwrite_detection j0"
    using st num ok by (auto simp: j0_def sender_ok_def split: if_splits)
  have ok0: "sender_ok env fs sp D j1" if "data_source j1 = data_source j0"
    "enable_overwrite_detection j1 = enable_overwrite_detection j0" "job_files j1 = job_files j0" for j1
    using ok that j0 by (simp add: sender_ok_def)
  have fill: "read_fill env (stream_bytes fs (FileStream path pos)) pos (block_size j)
      = take (block_size j) (drop pos (D n))"
    by (simp add: read_fill_take stream_bytes_def f)
  have rd: "job_read env compress fs j =
      (case read_block env compress fs j0 (entry_name (job_files j ! n)) of (res, j2) \<Rightarrow> (res, j2, []))"
    using j0 by (simp add: job_read_def open_j)
  show ?thesis
  proof (cases "drop pos (D n) = []")
    case True
    then have "read_block env compress fs j0 (entry_name (job_files j ! n)) =
        (Inr (Some \<lparr>blk_id = job_id j, blk_file_num = int n, blk_data = [], blk_compressed = False\<rparr>),
         (advance_file j0)\<lparr>data_stream := None\<rparr>)"
      using j0 os fill
      by (simp add: read_block_def stream_readable_def stream_pos_def Let_def block_size_def)
    with True show ?thesis
      by (auto simp: rd decoded_def advance_file_def j0 intro!: ok0)
  next
    case False
    then have ne: "take (block_size j) (drop pos (D n)) \<noteq> []"
      by (simp add: take_eq_Nil)
    let ?buf = "take (block_size j) (drop pos (D n))"
    obtain b where rb: "read_block env compress fs j0 (entry_name (job_files j ! n)) =
        (Inr (Some b), j0\<lparr>data_stream := Some (FileStream path (pos + length ?buf)),
           finished_size := finished_size j0 + word_of_nat (length ?buf),
           transferred := transferred j0 + word_of_nat (length (blk_data b))\<rparr>)"
      and b: "blk_id b = job_id j" "blk_file_num b = int n" "decoded decompress b = ?buf"
      using j0 os fill ne inv
      by (auto simp: read_block_def stream_readable_def stream_pos_def stream_seek_def Let_def
          block_size_def decoded_def)
    with False show ?thesis
      by (auto simp: rd j0 intro!: ok0)
  qed
qed

text \<open>
  The blocks of one file from a position on: they all belong to the file, there is at least
  one, and decoded they are the rest of the file.
\<close>

lemma reads_file:
  assumes inv: "\<And>b. decompress (compress b) = b" and n: "n < length files"
    and path: "path = job_join sp (entry_name (files ! n))"
    and rest: "\<And>j1. sender_ok env fs sp D j1 \<Longrightarrow> job_files j1 = files \<Longrightarrow> job_id j1 = i \<Longrightarrow>
      file_num j1 = int (Suc n) \<Longrightarrow> data_stream j1 = None \<Longrightarrow>
      \<exists>bs j'. reads env compress fs j1 bs j' \<and> P bs"
  shows "sender_ok env fs sp D j \<Longrightarrow> job_files j = files \<Longrightarrow> job_id j = i \<Longrightarrow>
    file_num j = int n \<Longrightarrow> data_stream j = (if pos = 0 then st0 else Some (FileStream path pos)) \<Longrightarrow>
    st0 = None \<or> st0 = Some (FileStream path 0) \<Longrightarrow>
    \<exists>fb bs j'. reads env compress fs j (fb @ bs) j' \<and> fb \<noteq> [] \<and>
      (\<forall>b \<in> set fb. blk_id b = i \<and> blk_file_num b = int n) \<and>
      concat (map (decoded decompress) fb) = drop pos (D n) \<and> P bs"
proof (induction "length (D n) - pos" arbitrary: j pos st0 rule: less_induct)
  case less
  let ?buf = "take (block_size j) (drop pos (D n))"
  from less.prems(2) have nj: "n < length (job_files j)" and pj: "path = job_join sp (entry_name (job_files j ! n))"
    using n path by simp_all
  from job_read_file [where decompress = decompress and compress = compress,
      OF less.prems(1) nj less.prems(4) less.prems(5,6) pj inv] obtain b j1
    where rd: "job_read env compress fs j = (Inr (Some b), j1, [])" and ok1: "sender_ok env fs sp D j1"
      and j1: "job_files j1 = files" "job_id j1 = i"
      and b: "blk_id b = i" "blk_file_num b = int n" "decoded decompress b = ?buf"
      and nxt: "if drop pos (D n) = [] then file_num j1 = int (Suc n) \<and> data_stream j1 = None
       else file_num j1 = int n \<and> data_stream j1 = Some (FileStream path (pos + length ?buf))"
    using less.prems(2,3) by metis
  show ?case
  proof (cases "drop pos (D n) = []")
    case True
    with nxt rest [OF ok1 j1] obtain bs j' where "reads env compress fs j1 bs j'" "P bs" by auto
    with rd b True show ?thesis
      by (intro exI [of _ "[b]"] exI [of _ bs] exI [of _ j']) (auto intro: reads_block)
  next
    case False
    then have len: "0 < length ?buf" by simp
    then have lt: "length (D n) - (pos + length ?buf) < length (D n) - pos"
      using False by (intro diff_less_mono2) auto
    have st1: "data_stream j1 = (if pos + length ?buf = 0 then None
        else Some (FileStream path (pos + length ?buf)))" and num1: "file_num j1 = int n"
      using nxt False len by simp_all
    from less.hyps [OF lt ok1 j1 num1 st1] obtain fb bs j' where
      "reads env compress fs j1 (fb @ bs) j'" "fb \<noteq> []"
      "\<forall>b \<in> set fb. blk_id b = i \<and> blk_file_num b = int n"
      "concat (map (decoded decompress) fb) = drop (pos + length ?buf) (D n)" "P bs"
      by blast
    have "?buf @ drop (pos + length ?buf) (D n) = drop pos (D n)"
      by (metis append_take_drop_id drop_drop add.commute length_take min.cobounded1
          min_def take_all_iff drop_all append_Nil2 nat_le_linear)
    with \<open>concat _ = _\<close> have "concat (map (decoded decompress) (b # fb)) = drop pos (D n)"
      using b by simp
    moreover have "reads env compress fs j ((b # fb) @ bs) j'"
      using rd \<open>reads env compress fs j1 (fb @ bs) j'\<close> by (auto intro: reads_block)
    ultimately show ?thesis
      using b \<open>\<forall>b \<in> set fb. _\<close> \<open>P bs\<close>
      by (intro exI [of _ "b # fb"] exI [of _ bs] exI [of _ j']) (auto intro: reads_block)
  qed
qed

text \<open>The blocks of the files from \<open>n\<close> on: one non-empty group for each file, in order.\<close>

fun groups_from :: "(bytes \<Rightarrow> bytes) \<Rightarrow> int \<Rightarrow> (nat \<Rightarrow> bytes) \<Rightarrow> nat \<Rightarrow> file_block list list \<Rightarrow> bool" where
  "groups_from decompress i D n [] = True"
| "groups_from decompress i D n (fb # gs) =
     (fb \<noteq> [] \<and> (\<forall>b \<in> set fb. blk_id b = i \<and> blk_file_num b = int n) \<and>
      concat (map (decoded decompress) fb) = D n \<and> groups_from decompress i D (Suc n) gs)"

lemma reads_files:
  assumes inv: "\<And>b. decompress (compress b) = b"
  shows "sender_ok env fs sp D j \<Longrightarrow> job_files j = files \<Longrightarrow> job_id j = i \<Longrightarrow> file_num j = int n \<Longrightarrow>
    n \<le> length files \<Longrightarrow> data_stream j = None \<Longrightarrow>
    \<exists>gs j'. reads env compress fs j (concat gs) j' \<and> length gs = length files - n \<and>
      groups_from decompress i D n gs"
proof (induction "length files - n" arbitrary: j n)
  case 0
  then have "n = length files" by simp
  with "0.prems" have "job_read env compress fs j = (Inr None, j\<lparr>data_stream := None\<rparr>, [])"
    by (simp add: job_read_def open_source_def sender_ok_def)
  with \<open>n = length files\<close> show ?case
    by (intro exI [of _ "[]"] exI [of _ "j\<lparr>data_stream := None\<rparr>"]) (auto intro: reads_end)
next
  case (Suc k)
  then have n: "n < length files" and k: "k = length files - Suc n" by simp_all
  have "\<exists>bs j'. reads env compress fs j1 bs j' \<and> (\<exists>gs. bs = concat gs \<and>
      length gs = length files - Suc n \<and> groups_from decompress i D (Suc n) gs)"
    if "sender_ok env fs sp D j1" "job_files j1 = files" "job_id j1 = i"
      "file_num j1 = int (Suc n)" "data_stream j1 = None" for j1
    using Suc.hyps(1) [OF k that(1-4) _ that(5)] n by auto
  note rest = this
  have st: "data_stream j = (if (0 :: nat) = 0 then None else Some (FileStream path 0))" for path
    using Suc.prems(6) by simp
  from reads_file [where decompress = decompress and compress = compress,
      OF inv n refl rest Suc.prems(1-4) st] obtain fb bs j' gs
    where "reads env compress fs j (fb @ bs) j'" "fb \<noteq> []"
    "\<forall>b \<in> set fb. blk_id b = i \<and> blk_file_num b = int n"
    "concat (map (decoded decompress) fb) = drop 0 (D n)"
    "bs = concat gs" "length gs = length files - Suc n" "groups_from decompress i D (Suc n) gs"
    by blast
  then show ?case
    using n by (intro exI [of _ "fb # gs"] exI [of _ j']) simp
qed

subsection \<open>The writing side\<close>

fun write_blocks ::
  "os \<Rightarrow> (bytes \<Rightarrow> bytes) \<Rightarrow> (file_digest \<Rightarrow> bytes) \<Rightarrow> fsys \<Rightarrow> transfer_job \<Rightarrow> file_block list
     \<Rightarrow> string + (fsys \<times> transfer_job)" where
  "write_blocks env decompress json fs w [] = Inr (fs, w)"
| "write_blocks env decompress json fs w (b # bs) =
     (case job_write env decompress json fs w b of
        (Inl e, _, _) \<Rightarrow> Inl e
      | (Inr _, fs', w') \<Rightarrow> write_blocks env decompress json fs' w' bs)"

lemma write_blocks_append:
  "write_blocks env decompress json fs w (xs @ ys) =
    (case write_blocks env decompress json fs w xs of
       Inl e \<Rightarrow> Inl e | Inr (fs', w') \<Rightarrow> write_blocks env decompress json fs' w' ys)"
  by (induction xs arbitrary: fs w) (auto split: prod.splits sum.splits)

definition receiver_ok :: "string \<Rightarrow> int \<Rightarrow> file_entry list \<Rightarrow> transfer_job \<Rightarrow> bool" where
  "receiver_ok rp i files w \<longleftrightarrow>
     job_id w = i \<and> job_type w = Generic \<and> data_source w = FilePath rp \<and> job_files w = files"

abbreviation target :: "string \<Rightarrow> file_entry list \<Rightarrow> nat \<Rightarrow> string" where
  "target rp files n \<equiv> job_join rp (entry_name (files ! n))"

text \<open>
  The files of a transfer do not collide: different entries have different target paths, and
  no target path is another's partial file or digest.
\<close>

definition independent :: "string \<Rightarrow> file_entry list \<Rightarrow> bool" where
  "independent rp files \<longleftrightarrow>
     (\<forall>a < length files. \<forall>b < length files.
        (a \<noteq> b \<longrightarrow> target rp files a \<noteq> target rp files b) \<and>
        target rp files a \<noteq> target rp files b @ ''.download'' \<and>
        target rp files a \<noteq> target rp files b @ ''.digest'')"

lemma download_not_digest [simp]: "p @ ''.download'' \<noteq> q @ ''.digest''" "q @ ''.digest'' \<noteq> p @ ''.download''"
proof -
  have "last (p @ ''.download'') \<noteq> last (q @ ''.digest'')" by simp
  then show "p @ ''.download'' \<noteq> q @ ''.digest''" "q @ ''.digest'' \<noteq> p @ ''.download''" by metis+
qed

lemma overwrite_at_end [simp]: "overwrite_at c (length c) d = c @ d"
  by (simp add: overwrite_at_def)

lemma modify_time_other:
  assumes "receiver_ok rp i files w" and "file_num w = int n"
    and "q \<noteq> target rp files n" "q \<noteq> target rp files n @ ''.download''" "q \<noteq> target rp files n @ ''.digest''"
  shows "fs_files (modify_time fs w) q = fs_files fs q"
  using assms
  by (auto simp: modify_time_def receiver_ok_def Let_def remove_file_def rename_file_def
      set_file_mtime_def put_file_def split: option.splits)

lemma modify_time_target:
  assumes "receiver_ok rp i files w" and "file_num w = int n" and "n < length files"
    and "fs_files fs (target rp files n @ ''.download'') = Some f"
  shows "fs_files (modify_time fs w) (target rp files n) =
    Some (f\<lparr>file_mtime := entry_modified (files ! n), file_nanos := 0\<rparr>)"
  using assms
  by (auto simp: modify_time_def receiver_ok_def Let_def remove_file_def rename_file_def
      set_file_mtime_def put_file_def)

lemma job_write_first:
  assumes w: "receiver_ok rp i files w" and n: "n < length files"
    and mark: "\<not> is_dir_marker (entry_name (files ! n))"
    and new: "file_num w = int m" "m \<noteq> n \<or> data_stream w = None"
    and b: "blk_id b = i" "blk_file_num b = int n"
    and os: "\<And>p. can_create env p" "\<And>p. can_remove env p" "\<And>p. can_write env p"
  shows "\<exists>fs' w' f. job_write env decompress json fs w b = (Inr (), fs', w') \<and> receiver_ok rp i files w' \<and>
    file_num w' = int n \<and>
    data_stream w' = Some (FileStream (target rp files n @ ''.download'') (length (decoded decompress b))) \<and>
    fs_files fs' (target rp files n @ ''.download'') = Some f \<and> file_data f = decoded decompress b \<and>
    (\<forall>q. q \<noteq> target rp files n @ ''.download'' \<longrightarrow> q \<noteq> target rp files n @ ''.digest'' \<longrightarrow>
      fs_files fs' q = fs_files (modify_time fs w) q)"
proof -
  let ?p = "target rp files n"
  have idx: "as_usize (blk_file_num b) = n" "as_usize (file_num w) = m" using b new by simp_all
  have "\<exists>fs1. prepare_stream env json fs w b =
      (Inr True, fs1, w\<lparr>file_num := int n, data_stream := Some (FileStream (?p @ ''.download'') 0)\<rparr>) \<and>
      map_option file_data (fs_files fs1 (?p @ ''.download'')) = Some [] \<and>
      (\<forall>q. q \<noteq> ?p @ ''.download'' \<longrightarrow> q \<noteq> ?p @ ''.digest'' \<longrightarrow>
        fs_files fs1 q = fs_files (modify_time fs w) q)"
    using w n mark new(2) b os
    by (auto simp: prepare_stream_def receiver_ok_def idx Let_def file_create_def put_file_def
        remove_file_def create_dir_all_def)
  then obtain fs1 f where prep: "prepare_stream env json fs w b =
      (Inr True, fs1, w\<lparr>file_num := int n, data_stream := Some (FileStream (?p @ ''.download'') 0)\<rparr>)"
    and f: "fs_files fs1 (?p @ ''.download'') = Some f" "file_data f = []"
    and frame: "\<forall>q. q \<noteq> ?p @ ''.download'' \<longrightarrow> q \<noteq> ?p @ ''.digest'' \<longrightarrow>
        fs_files fs1 q = fs_files (modify_time fs w) q"
    by auto
  have "overwrite_at [] 0 d = d" for d by (simp add: overwrite_at_def)
  then show ?thesis
    using w b(1) prep f frame os(3)
    by (auto simp: stream_writable_def job_write_def receiver_ok_def decoded_def stream_write_def put_file_def Let_def)
qed

lemma job_write_more:
  assumes w: "receiver_ok rp i files w" and n: "n < length files"
    and mark: "\<not> is_dir_marker (entry_name (files ! n))"
    and cur: "file_num w = int n" "data_stream w = Some (FileStream q (length c))"
    and f: "fs_files fs q = Some f" "file_data f = c"
    and b: "blk_id b = i" "blk_file_num b = int n" and os: "can_write env q"
  shows "\<exists>fs' w' f'. job_write env decompress json fs w b = (Inr (), fs', w') \<and> receiver_ok rp i files w' \<and>
    file_num w' = int n \<and> data_stream w' = Some (FileStream q (length (c @ decoded decompress b))) \<and>
    fs_files fs' q = Some f' \<and> file_data f' = c @ decoded decompress b \<and>
    (\<forall>p. p \<noteq> q \<longrightarrow> fs_files fs' p = fs_files fs p)"
proof -
  have "prepare_stream env json fs w b = (Inr True, fs, w)"
    using w n mark cur b by (simp add: prepare_stream_def receiver_ok_def)
  then show ?thesis
    using w b(1) cur f os
    by (auto simp: stream_writable_def job_write_def receiver_ok_def decoded_def stream_write_def put_file_def Let_def)
qed

lemma write_rest:
  assumes "n < length files" and "\<not> is_dir_marker (entry_name (files ! n))"
    and "\<forall>b \<in> set bs. blk_id b = i \<and> blk_file_num b = int n" and "can_write env q"
  shows "receiver_ok rp i files w \<Longrightarrow> file_num w = int n \<Longrightarrow>
    data_stream w = Some (FileStream q (length c)) \<Longrightarrow> fs_files fs q = Some f \<Longrightarrow> file_data f = c \<Longrightarrow>
    \<exists>fs' w' f'. write_blocks env decompress json fs w bs = Inr (fs', w') \<and> receiver_ok rp i files w' \<and>
      file_num w' = int n \<and>
      data_stream w' = Some (FileStream q (length (c @ concat (map (decoded decompress) bs)))) \<and>
      fs_files fs' q = Some f' \<and> file_data f' = c @ concat (map (decoded decompress) bs) \<and>
      (\<forall>p. p \<noteq> q \<longrightarrow> fs_files fs' p = fs_files fs p)"
  using assms(3)
proof (induction bs arbitrary: fs w c f)
  case Nil
  then show ?case by simp
next
  case (Cons b bs)
  from Cons.prems(6) have b: "blk_id b = i" "blk_file_num b = int n"
    and bs: "\<forall>b \<in> set bs. blk_id b = i \<and> blk_file_num b = int n" by simp_all
  from job_write_more [OF Cons.prems(1) assms(1,2) Cons.prems(2-5) b assms(4),
      where json = json and decompress = decompress]
  obtain fs1 w1 f1 where wr: "job_write env decompress json fs w b = (Inr (), fs1, w1)"
    "receiver_ok rp i files w1" "file_num w1 = int n"
    "data_stream w1 = Some (FileStream q (length (c @ decoded decompress b)))"
    "fs_files fs1 q = Some f1" "file_data f1 = c @ decoded decompress b"
    "\<forall>p. p \<noteq> q \<longrightarrow> fs_files fs1 p = fs_files fs p" by blast
  from Cons.IH [OF wr(2-6) bs] obtain fs2 w2 f2
    where "write_blocks env decompress json fs1 w1 bs = Inr (fs2, w2)" "receiver_ok rp i files w2"
      "file_num w2 = int n"
      "data_stream w2 = Some (FileStream q
        (length ((c @ decoded decompress b) @ concat (map (decoded decompress) bs))))"
      "fs_files fs2 q = Some f2"
      "file_data f2 = (c @ decoded decompress b) @ concat (map (decoded decompress) bs)"
      "\<forall>p. p \<noteq> q \<longrightarrow> fs_files fs2 p = fs_files fs1 p" by blast
  with wr show ?case by (intro exI [of _ fs2] exI [of _ w2] exI [of _ f2]) simp
qed


text \<open>What the operating system grants the receiver, and a file that is complete in place.\<close>

definition grants :: "os \<Rightarrow> bool" where
  "grants env \<longleftrightarrow> (\<forall>p. can_create env p \<and> can_remove env p \<and> can_write env p)"

definition in_place :: "string \<Rightarrow> file_entry list \<Rightarrow> (nat \<Rightarrow> bytes) \<Rightarrow> fsys \<Rightarrow> nat \<Rightarrow> bool" where
  "in_place rp files D fs n \<longleftrightarrow>
     (\<exists>f. fs_files fs (target rp files n) = Some f \<and> file_data f = D n \<and>
        file_mtime f = entry_modified (files ! n))"

lemma write_group:
  assumes w: "receiver_ok rp i files w" and n: "n < length files"
    and mark: "\<not> is_dir_marker (entry_name (files ! n))" and ind: "independent rp files"
    and new: "file_num w = int m" "m \<noteq> n \<or> data_stream w = None"
    and fb: "fb \<noteq> []" "\<forall>b \<in> set fb. blk_id b = i \<and> blk_file_num b = int n"
      "concat (map (decoded decompress) fb) = D n"
    and os: "grants env"
    and before: "\<forall>k < n. in_place rp files D (modify_time fs w) k"
  shows "\<exists>fs' w'. write_blocks env decompress json fs w fb = Inr (fs', w') \<and> receiver_ok rp i files w' \<and>
    file_num w' = int n \<and> (\<forall>k < Suc n. in_place rp files D (modify_time fs' w') k)"
proof -
  let ?p = "target rp files n"
  obtain b bs where fb_eq: "fb = b # bs" using fb(1) by (cases fb) auto
  have b: "blk_id b = i" "blk_file_num b = int n"
    and bs: "\<forall>b \<in> set bs. blk_id b = i \<and> blk_file_num b = int n"
    using fb(2) by (simp_all add: fb_eq)
  have can: "can_create env p" "can_remove env p" "can_write env p" for p using os by (simp_all add: grants_def)
  from job_write_first [OF w n mark new b can, where decompress = decompress and json = json]
  obtain fs1 w1 f1 where one: "job_write env decompress json fs w b = (Inr (), fs1, w1)"
    and w1: "receiver_ok rp i files w1" "file_num w1 = int n"
      "data_stream w1 = Some (FileStream (?p @ ''.download'') (length (decoded decompress b)))"
      "fs_files fs1 (?p @ ''.download'') = Some f1" "file_data f1 = decoded decompress b"
    and frame1: "\<forall>q. q \<noteq> ?p @ ''.download'' \<longrightarrow> q \<noteq> ?p @ ''.digest'' \<longrightarrow>
      fs_files fs1 q = fs_files (modify_time fs w) q" by blast
  from write_rest [OF n mark bs can(3) w1, where json = json]
  obtain fs2 w2 f2 where rest: "write_blocks env decompress json fs1 w1 bs = Inr (fs2, w2)"
    and w2: "receiver_ok rp i files w2" "file_num w2 = int n"
    and f2: "fs_files fs2 (?p @ ''.download'') = Some f2"
      "file_data f2 = decoded decompress b @ concat (map (decoded decompress) bs)"
    and frame2: "\<forall>q. q \<noteq> ?p @ ''.download'' \<longrightarrow> fs_files fs2 q = fs_files fs1 q" by blast
  have "in_place rp files D (modify_time fs2 w2) k" if "k < Suc n" for k
  proof (cases "k = n")
    case True
    have "fs_files (modify_time fs2 w2) ?p = Some (f2\<lparr>file_mtime := entry_modified (files ! n), file_nanos := 0\<rparr>)"
      by (rule modify_time_target [OF w2 n f2(1)])
    with True f2(2) fb(3) show ?thesis by (simp add: in_place_def fb_eq)
  next
    case False
    with that n have k: "k < n" "k < length files" by simp_all
    from ind n k have apart: "target rp files k \<noteq> ?p" "target rp files k \<noteq> ?p @ ''.download''"
      "target rp files k \<noteq> ?p @ ''.digest''" unfolding independent_def by (metis less_irrefl)+
    have "fs_files (modify_time fs2 w2) (target rp files k) = fs_files (modify_time fs w) (target rp files k)"
      using modify_time_other [OF w2 apart, of fs2] frame2 frame1 apart by simp
    with before k(1) show ?thesis by (simp add: in_place_def)
  qed
  with one rest w2 show ?thesis
    by (intro exI [of _ fs2] exI [of _ w2]) (simp add: fb_eq)
qed

lemma write_groups:
  assumes ind: "independent rp files" and os: "grants env"
    and mark: "\<forall>e \<in> set files. \<not> is_dir_marker (entry_name e)"
  shows "receiver_ok rp i files w \<Longrightarrow> n + length gs = length files \<Longrightarrow>
    groups_from decompress i D n gs \<Longrightarrow> file_num w = int m \<Longrightarrow>
    m \<noteq> n \<and> m < n \<or> data_stream w = None \<and> n = 0 \<Longrightarrow>
    \<forall>k < n. in_place rp files D (modify_time fs w) k \<Longrightarrow>
    \<exists>fs' w'. write_blocks env decompress json fs w (concat gs) = Inr (fs', w') \<and>
      (\<forall>k < length files. in_place rp files D (modify_time fs' w') k)"
proof (induction gs arbitrary: fs w n m)
  case Nil
  then show ?case by simp
next
  case (Cons fb gs)
  then have n: "n < length files" by simp
  with mark have "\<not> is_dir_marker (entry_name (files ! n))" by simp
  moreover have "m \<noteq> n \<or> data_stream w = None" using Cons.prems(5) by blast
  ultimately obtain fs1 w1 where one: "write_blocks env decompress json fs w fb = Inr (fs1, w1)"
    and w1: "receiver_ok rp i files w1" "file_num w1 = int n"
      "\<forall>k < Suc n. in_place rp files D (modify_time fs1 w1) k"
    using write_group [OF Cons.prems(1) n _ ind Cons.prems(4) _ _ _ _ os Cons.prems(6),
        of fb decompress json] Cons.prems(3) by auto
  from Cons.IH [OF w1(1) _ _ w1(2) _ w1(3)] Cons.prems(2,3)
  obtain fs2 w2 where "write_blocks env decompress json fs1 w1 (concat gs) = Inr (fs2, w2)"
    "\<forall>k < length files. in_place rp files D (modify_time fs2 w2) k" by auto
  with one show ?case by (simp add: write_blocks_append)
qed

text \<open>
  C4. A transfer is complete.  When the sender can read all the files of a job that does no overwrite
  detection and the receiver may create files, the read job runs to its end, the write job takes every
  block it yields, and once the receiver has renamed the last file every file of the transfer is in
  place with the content and the modification time of its source.
\<close>

theorem transfer_roundtrip:
  assumes "\<And>b. decompress (compress b) = b"
    and "sender_ok env fs sp D j" and "file_num j = 0" and "data_stream j = None"
    and "receiver_ok rp (job_id j) (job_files j) w" and "file_num w = 0" and "data_stream w = None"
    and "independent rp (job_files j)" and "grants renv"
  shows "\<exists>bs j' rfs' w'. reads env compress fs j bs j' \<and>
    write_blocks renv decompress json rfs w bs = Inr (rfs', w') \<and>
    (\<forall>n < length (job_files j). in_place rp (job_files j) D (modify_time rfs' w') n)"
proof -
  have z: "file_num j = int 0" "file_num w = int 0" using assms(3,6) by simp_all
  from reads_files [where decompress = decompress and compress = compress,
      OF assms(1,2) refl refl z(1) _ assms(4)]
  obtain gs j' where gs: "reads env compress fs j (concat gs) j'" "0 + length gs = length (job_files j)"
    "groups_from decompress (job_id j) D 0 gs" by auto
  have "\<forall>e \<in> set (job_files j). \<not> is_dir_marker (entry_name e)"
    using assms(2) by (auto simp: sender_ok_def Let_def in_set_conv_nth)
  from write_groups [OF assms(8,9) this assms(5) gs(2,3) z(2), of rfs json] assms(7)
  obtain rfs' w' where "write_blocks renv decompress json rfs w (concat gs) = Inr (rfs', w')"
    "\<forall>k < length (job_files j). in_place rp (job_files j) D (modify_time rfs' w') k" by auto
  with gs(1) show ?thesis by blast
qed


text \<open>A small world: two files under \<^verbatim>\<open>/s\<close>, one of them empty, and a system that grants everything.\<close>

definition open_os :: os where
  "open_os = \<lparr>can_create = (\<lambda>_. True), can_open = (\<lambda>_. True), can_read = (\<lambda>_. True),
     can_remove = (\<lambda>_. True), can_write = (\<lambda>_. True), read_len = (\<lambda>_. 2), os_error = ''denied'',
     os_now = 9, os_now_nanos = 5\<rparr>"

definition two_files :: "file_entry list" where
  "two_files = [\<lparr>entry_name = ''a'', entry_size = 3, entry_modified = 7\<rparr>,
     \<lparr>entry_name = ''b'', entry_size = 0, entry_modified = 8\<rparr>]"

definition small_job :: "string \<Rightarrow> transfer_job" where
  "small_job p = new_write 1 Generic ''r'' (FilePath p) 0 False False two_files False"

definition small_fs :: fsys where
  "small_fs = \<lparr>fs_files = [''/s/a'' \<mapsto> \<lparr>file_data = [1, 2, 3], file_mtime = 7, file_nanos = 0\<rparr>,
     ''/s/b'' \<mapsto> \<lparr>file_data = [], file_mtime = 8, file_nanos = 0\<rparr>], fs_dirs = {}\<rparr>"

lemma small_world [simp]:
  "job_id (small_job p) = 1" "job_files (small_job p) = two_files" "file_num (small_job p) = 0"
  "data_stream (small_job p) = None" "data_source (small_job p) = FilePath p"
  "job_type (small_job p) = Generic"
  "receiver_ok p 1 two_files (small_job p)" "grants open_os" "length two_files = 2"
  by (simp_all add: small_job_def new_write_def receiver_ok_def grants_def open_os_def two_files_def)

lemma small_independent [simp]: "independent ''/r'' two_files"
  by (auto simp: independent_def two_files_def job_join_def path_join_def less_Suc_eq)

lemma small_sender: "sender_ok open_os small_fs ''/s'' (\<lambda>n. if n = 0 then [1, 2, 3] else []) (small_job ''/s'')"
  by (auto simp: sender_ok_def small_job_def new_write_def two_files_def small_fs_def open_os_def
      job_join_def path_join_def is_dir_marker_def Let_def less_Suc_eq)

lemma transfer_roundtrip_witness:
  "\<exists>bs j' rfs' w'. reads open_os (\<lambda>b. b) small_fs (small_job ''/s'') bs j' \<and>
    write_blocks open_os (\<lambda>b. b) (\<lambda>_. []) small_fs (small_job ''/r'') bs = Inr (rfs', w') \<and>
    (\<forall>n < length (job_files (small_job ''/s'')).
      in_place ''/r'' (job_files (small_job ''/s'')) (\<lambda>n. if n = 0 then [1, 2, 3] else [])
        (modify_time rfs' w') n)"
  by (rule transfer_roundtrip [where sp = "''/s''"]) (simp_all add: small_sender)

end
