(* ===== verification/Transfer_Control.thy ===== *)
theory Transfer_Control
  imports Transfer_Roundtrip
begin

text \<open>
  The control of transfer jobs (\<^verbatim>\<open>libs/hbb_common/src/fs.rs\<close>): confirmation, resuming, directory
  markers among the files, and the per-tick loop of \<^verbatim>\<open>handle_read_jobs\<close>.  The definitions are in
  \<open>Transfer_Job\<close>.
\<close>

subsection \<open>Resuming\<close>

lemma unat_ucast_u64: "unat (ucast (v :: u32) :: u64) = unat v"
proof -
  have "unat v < 2 ^ 64" by (rule less_trans [OF unsigned_less]) simp
  then show ?thesis by (simp add: unsigned_ucast_eq take_bit_nat_eq_self)
qed

text \<open>
  C5. Resuming completes a file.  A write job that stands at the file whose first bytes are in its
  partial file, is confirmed with their number as the offset, and then takes the blocks of the rest of
  the file, ends with the file in place.
\<close>

theorem resume_completes:
  assumes "receiver_ok rp i files w" and "file_num w = int n" and "n < length files"
    and "\<not> is_dir_marker (entry_name (files ! n))" and "grants env"
    and "fs_files fs (target rp files n @ ''.download'') = Some f" and "file_data f = take (unat off) (D n)"
    and "0 < off" and "unat off \<le> length (D n)"
    and "fs_files fs (target rp files n @ ''.digest'') \<noteq> None"
    and "\<forall>b \<in> set bs. blk_id b = i \<and> blk_file_num b = int n"
    and "concat (map (decoded decompress) bs) = drop (unat off) (D n)"
  shows "\<exists>w1 fs' w'. job_confirm env fs w
      \<lparr>confirm_id = i, confirm_file_num = int n, confirm_union = Some (OffsetBlk off)\<rparr> = Some w1 \<and>
    write_blocks env decompress json fs w1 bs = Inr (fs', w') \<and>
    in_place rp files D (modify_time fs' w') n"
proof -
  let ?q = "target rp files n @ ''.download''"
  have off: "unat (ucast off :: u64) = unat off" by (rule unat_ucast_u64)
  obtain w1 where w1: "job_confirm env fs w
      \<lparr>confirm_id = i, confirm_file_num = int n, confirm_union = Some (OffsetBlk off)\<rparr> = Some w1"
    "receiver_ok rp i files w1" "file_num w1 = int n"
    "data_stream w1 = Some (FileStream ?q (length (take (unat off) (D n))))"
    using assms
    by (auto simp: job_confirm_def receiver_ok_def set_stream_offset_def set_file_confirmed_def
        path_exists_def grants_def Let_def off)
  have cw: "can_write env ?q" using assms(5) by (simp add: grants_def)
  from write_rest [OF assms(3,4,11) cw w1(2-4) assms(6,7), of decompress json]
  obtain fs' w' f' where w': "write_blocks env decompress json fs w1 bs = Inr (fs', w')"
    "receiver_ok rp i files w'" "file_num w' = int n"
    "fs_files fs' ?q = Some f'" "file_data f' = take (unat off) (D n) @ concat (map (decoded decompress) bs)"
    by blast
  with modify_time_target [OF w'(2,3) assms(3) w'(4)] assms(12) w1 show ?thesis
    by (auto simp: in_place_def)
qed

text \<open>
  Resuming a later file truncates it.  The receiver ignores a confirmation for a file other than
  the one it writes, but the sender skips the offset all the same: the blocks of the rest of the file
  start a new partial file, which is put in place with the source's modification time although its first
  bytes are missing.
\<close>

theorem late_resume_truncates:
  assumes "receiver_ok rp i files w" and "file_num w = int m" and "m \<noteq> n" and "n < length files"
    and "\<not> is_dir_marker (entry_name (files ! n))" and "independent rp files" and "grants env"
    and "bs \<noteq> []" and "\<forall>b \<in> set bs. blk_id b = i \<and> blk_file_num b = int n"
    and "concat (map (decoded decompress) bs) = drop (unat off) (D n)"
  shows "\<exists>w1 fs' w'. job_confirm env fs w
      \<lparr>confirm_id = i, confirm_file_num = int n, confirm_union = Some (OffsetBlk off)\<rparr> = Some w1 \<and>
    write_blocks env decompress json fs w1 bs = Inr (fs', w') \<and>
    in_place rp files (\<lambda>k. drop (unat off) (D k)) (modify_time fs' w') n"
proof -
  have "\<exists>fs' w'. write_blocks env decompress json fs w bs = Inr (fs', w') \<and>
      receiver_ok rp i files w' \<and> file_num w' = int n \<and>
      (\<exists>f. fs_files fs' (target rp files n @ ''.download'') = Some f \<and> file_data f = drop (unat off) (D n))"
  proof -
    obtain b bs' where bs: "bs = b # bs'" using assms(8) by (cases bs) auto
    have b: "blk_id b = i" "blk_file_num b = int n"
      and bs': "\<forall>b \<in> set bs'. blk_id b = i \<and> blk_file_num b = int n" using assms(9) by (simp_all add: bs)
    have can: "can_create env p" "can_remove env p" "can_write env p" for p
      using assms(7) by (simp_all add: grants_def)
    have new: "m \<noteq> n \<or> data_stream w = None" using assms(3) by simp
    from job_write_first [OF assms(1,4,5,2) new b can, of decompress json fs]
    obtain fs1 w1 f1 where one: "job_write env decompress json fs w b = (Inr (), fs1, w1)"
      and w1: "receiver_ok rp i files w1" "file_num w1 = int n"
        "data_stream w1 = Some (FileStream (target rp files n @ ''.download'') (length (decoded decompress b)))"
        "fs_files fs1 (target rp files n @ ''.download'') = Some f1" "file_data f1 = decoded decompress b"
      by blast
    from write_rest [OF assms(4,5) bs' can(3) w1, of decompress json] one assms(10)
    show ?thesis by (auto simp: bs)
  qed
  then obtain fs' w' f where w': "write_blocks env decompress json fs w bs = Inr (fs', w')"
    "receiver_ok rp i files w'" "file_num w' = int n"
    "fs_files fs' (target rp files n @ ''.download'') = Some f" "file_data f = drop (unat off) (D n)" by blast
  have "job_confirm env fs w
      \<lparr>confirm_id = i, confirm_file_num = int n, confirm_union = Some (OffsetBlk off)\<rparr> = Some w"
    using assms(2,3) by (simp add: job_confirm_def)
  with w' modify_time_target [OF w'(2,3) assms(4) w'(4)] show ?thesis
    by (auto simp: in_place_def)
qed

subsection \<open>Directory markers\<close>

lemma last_job_join:
  "name \<noteq> [] \<Longrightarrow> last (job_join p name) = last name"
  by (auto simp: job_join_def path_join_def)

text \<open>
  An empty-directory marker strands the file before it.  After the marker's block the job stands at
  the marker, so neither the block of a later file nor the end of the transfer renames the partial file
  of the file that was being written: it keeps the name with \<^verbatim>\<open>.download\<close>, and nothing appears
  under its own name.
\<close>

theorem marker_strands_file:
  assumes "receiver_ok rp i files w" and "n < length files" and "m < length files"
    and "is_dir_marker (entry_name (files ! n))" and "\<not> is_dir_marker (entry_name (files ! m))"
    and "entry_name (files ! m) \<noteq> []" and "independent rp files"
    and "blk_id b = i" and "blk_file_num b = int n"
  shows "\<exists>fs' w'. job_write env decompress json fs w b = (Inr (), fs', w') \<and> file_num w' = int n \<and>
    fs_files (modify_time fs' w') (target rp files m) = fs_files fs (target rp files m) \<and>
    fs_files (modify_time fs' w') (target rp files m @ ''.download'') =
      fs_files fs (target rp files m @ ''.download'')"
proof -
  let ?p = "target rp files n"
  let ?w' = "w\<lparr>file_num := int n\<rparr>"
  have jw: "job_write env decompress json fs w b = (Inr (), create_dir_all fs ?p, ?w')"
    using assms by (simp add: job_write_def prepare_stream_def receiver_ok_def)
  have ok: "receiver_ok rp i files ?w'" "file_num ?w' = int n"
    using assms(1) by (simp_all add: receiver_ok_def)
  have nm: "n \<noteq> m" using assms(4,5) by auto
  have lp: "last ?p = CHR ''/''" and lm: "last (target rp files m) \<noteq> CHR ''/''"
    using assms(4-6) by (auto simp: is_dir_marker_def last_job_join)
  have slash: "?p \<noteq> q @ ''.download''" for q
  proof
    assume "?p = q @ ''.download''"
    then have "last ?p = CHR ''d''" by simp
    with lp show False by simp
  qed
  have apart: "target rp files m \<noteq> ?p" "target rp files m \<noteq> ?p @ ''.download''"
    "target rp files m \<noteq> ?p @ ''.digest''"
    using assms(2,3,7) nm unfolding independent_def by metis+
  from apart(1) have "target rp files m @ ''.download'' \<noteq> ?p @ ''.download''" by simp
  with jw ok modify_time_other [OF ok apart, of "create_dir_all fs ?p"]
    modify_time_other [OF ok, of "target rp files m @ ''.download''" "create_dir_all fs ?p"]
    slash [THEN not_sym, of "target rp files m"]
  show ?thesis by (auto simp: create_dir_all_def)
qed


subsection \<open>Instances\<close>

definition resume_fs :: fsys where
  "resume_fs = small_fs\<lparr>fs_files := [''/r/a.download'' \<mapsto> \<lparr>file_data = [1], file_mtime = 3, file_nanos = 0\<rparr>,
     ''/r/a.digest'' \<mapsto> \<lparr>file_data = [], file_mtime = 3, file_nanos = 0\<rparr>]\<rparr>"

definition rest_block :: file_block where
  "rest_block = \<lparr>blk_id = 1, blk_file_num = 0, blk_data = [2, 3], blk_compressed = False\<rparr>"

lemma two_names [simp]:
  "entry_name (two_files ! 0) = ''a''" "entry_name (two_files ! Suc 0) = ''b''"
  "\<not> is_dir_marker ''a''" "\<not> is_dir_marker ''b''"
  by (simp_all add: two_files_def is_dir_marker_def)

lemma resume_completes_witness:
  "\<exists>w1 fs' w'. job_confirm open_os resume_fs (small_job ''/r'')
      \<lparr>confirm_id = 1, confirm_file_num = int 0, confirm_union = Some (OffsetBlk 1)\<rparr> = Some w1 \<and>
    write_blocks open_os (\<lambda>b. b) (\<lambda>_. []) resume_fs w1 [rest_block] = Inr (fs', w') \<and>
    in_place ''/r'' two_files (\<lambda>_. [1, 2, 3]) (modify_time fs' w') 0"
  by (rule resume_completes [where f = "\<lparr>file_data = [1], file_mtime = 3, file_nanos = 0\<rparr>"])
    (simp_all add: resume_fs_def rest_block_def decoded_def job_join_def path_join_def)

lemma late_resume_truncates_witness:
  "\<exists>w1 fs' w'. job_confirm open_os resume_fs ((small_job ''/r'')\<lparr>file_num := 1\<rparr>)
      \<lparr>confirm_id = 1, confirm_file_num = int 0, confirm_union = Some (OffsetBlk 1)\<rparr> = Some w1 \<and>
    write_blocks open_os (\<lambda>b. b) (\<lambda>_. []) resume_fs w1 [rest_block] = Inr (fs', w') \<and>
    in_place ''/r'' two_files (\<lambda>k. drop (unat (1 :: u32)) ((\<lambda>_. [1, 2, 3]) k)) (modify_time fs' w') 0"
proof (rule late_resume_truncates [where m = 1])
  show "receiver_ok ''/r'' 1 two_files ((small_job ''/r'')\<lparr>file_num := 1\<rparr>)"
    using small_world(7) [of "''/r''"] by (simp add: receiver_ok_def)
qed (simp_all add: rest_block_def decoded_def)

definition marker_files :: "file_entry list" where
  "marker_files = [\<lparr>entry_name = ''a'', entry_size = 3, entry_modified = 7\<rparr>,
     \<lparr>entry_name = ''d/'', entry_size = 0, entry_modified = 8\<rparr>]"

lemma marker_strands_file_witness:
  "\<exists>fs' w'. job_write open_os (\<lambda>b. b) (\<lambda>_. []) resume_fs ((small_job ''/r'')\<lparr>job_files := marker_files\<rparr>)
      \<lparr>blk_id = 1, blk_file_num = int 1, blk_data = [], blk_compressed = False\<rparr> = (Inr (), fs', w') \<and>
    file_num w' = int 1 \<and>
    fs_files (modify_time fs' w') (job_join ''/r'' (entry_name (marker_files ! 0))) =
      fs_files resume_fs (job_join ''/r'' (entry_name (marker_files ! 0))) \<and>
    fs_files (modify_time fs' w') (job_join ''/r'' (entry_name (marker_files ! 0)) @ ''.download'') =
      fs_files resume_fs (job_join ''/r'' (entry_name (marker_files ! 0)) @ ''.download'')"
proof (rule marker_strands_file)
  show "receiver_ok ''/r'' 1 marker_files ((small_job ''/r'')\<lparr>job_files := marker_files\<rparr>)"
    using small_world(7) [of "''/r''"] by (simp add: receiver_ok_def)
  show "independent ''/r'' marker_files"
    by (auto simp: independent_def marker_files_def job_join_def path_join_def less_Suc_eq)
qed (simp_all add: marker_files_def is_dir_marker_def)

end
