(* ===== verification/Transfer_Ticks.thy ===== *)
theory Transfer_Ticks
  imports Transfer_Roundtrip
begin

text \<open>
  The sending loop of \<^verbatim>\<open>handle_read_jobs\<close> in \<^verbatim>\<open>libs/hbb_common/src/fs.rs\<close>: what one tick may send,
  which job it touches, that the ticks deliver a job to its end, and the gate that the overwrite
  confirmation puts before a file.  The definitions are in \<open>Transfer_Job\<close>.
\<close>

subsection \<open>One tick\<close>

definition msg_bytes :: "transfer_msg \<Rightarrow> nat" where
  "msg_bytes m = (case m of MsgBlock b \<Rightarrow> length (blk_data b) | _ \<Rightarrow> 0)"

definition is_block :: "transfer_msg \<Rightarrow> bool" where
  "is_block m = (case m of MsgBlock _ \<Rightarrow> True | _ \<Rightarrow> False)"

lemma msg_simps [simp]:
  "msg_bytes (MsgBlock b) = length (blk_data b)" "msg_bytes (MsgDone a c) = 0"
  "msg_bytes (MsgError a e c) = 0" "msg_bytes (MsgDigest a c t s r) = 0"
  "is_block (MsgBlock b)" "\<not> is_block (MsgDone a c)"
  "\<not> is_block (MsgError a e c)" "\<not> is_block (MsgDigest a c t s r)"
  by (simp_all add: msg_bytes_def is_block_def)

text \<open>A block is never longer than the read buffer, compressed or not.\<close>

lemma read_block_size:
  "read_block env compress fs j name = (Inr (Some b), j') \<Longrightarrow> length (blk_data b) \<le> 512 * 1024"
  by (auto simp: read_block_def Let_def read_fill_take split: option.splits if_splits)

lemma open_source_block:
  "open_source env fs j = Inl (Inr (Some b), j') \<Longrightarrow> blk_data b = []"
  by (auto simp: open_source_def Let_def split: data_source.splits if_splits)

lemma job_read_size:
  assumes "job_read env compress fs j = (Inr (Some b), j', ms)"
  shows "length (blk_data b) \<le> 512 * 1024"
  using assms
  by (auto simp: job_read_def dest!: open_source_block dest: read_block_size
      split: sum.splits prod.splits if_splits)

lemma job_read_msgs:
  "job_read env compress fs j = (res, j', ms) \<Longrightarrow> filter is_block ms = [] \<and> sum_list (map msg_bytes ms) = 0"
  by (auto simp: job_read_def send_current_digest_def
      split: sum.splits prod.splits if_splits option.splits data_stream.splits)

lemma sum_list_zero: "\<forall>x \<in> set xs. f x = (0 :: nat) \<Longrightarrow> sum_list (map f xs) = 0"
  by (induction xs) auto

lemma burst_blocks:
  "read_burst env compress fs mx k sent j = (ms, j', fin) \<Longrightarrow> length (filter is_block ms) \<le> k"
proof (induction env compress fs mx k sent j arbitrary: ms j' fin rule: read_burst.induct)
  case (2 env compress fs mx k sent j)
  obtain res j1 ms1 where rd: "job_read env compress fs j = (res, j1, ms1)" by (cases "job_read env compress fs j")
  note m = job_read_msgs [OF rd, THEN conjunct1]
  show ?case
  proof (cases res)
    case (Inl e)
    with "2.prems" rd m show ?thesis by auto
  next
    case (Inr r)
    show ?thesis
    proof (cases r)
      case None
      with Inr "2.prems" rd m show ?thesis by (auto split: if_splits option.splits)
    next
      case (Some b)
      show ?thesis
      proof (cases "k = 0 \<or> mx \<le> sent + length (blk_data b)")
        case True
        with Some Inr "2.prems" rd m show ?thesis by (auto simp: Let_def)
      next
        case False
        obtain ms2 j2 f2 where "read_burst env compress fs mx k (sent + length (blk_data b)) j1 = (ms2, j2, f2)"
          by (cases "read_burst env compress fs mx k (sent + length (blk_data b)) j1")
        with False Some Inr "2.prems" rd m "2.IH" [OF rd [symmetric] Inr Some refl refl False] show ?thesis
          by (auto simp: sum_list_zero Let_def)
      qed
    qed
  qed
qed simp

lemma burst_bytes:
  "read_burst env compress fs mx k sent j = (ms, j', fin) \<Longrightarrow> sent < mx \<Longrightarrow>
    sent + sum_list (map msg_bytes ms) < mx + 512 * 1024"
proof (induction env compress fs mx k sent j arbitrary: ms j' fin rule: read_burst.induct)
  case (2 env compress fs mx k sent j)
  obtain res j1 ms1 where rd: "job_read env compress fs j = (res, j1, ms1)" by (cases "job_read env compress fs j")
  note m = job_read_msgs [OF rd, THEN conjunct2]
  show ?case
  proof (cases res)
    case (Inl e)
    with "2.prems" rd m show ?thesis by (auto simp: sum_list_zero)
  next
    case (Inr r)
    show ?thesis
    proof (cases r)
      case None
      with Inr "2.prems" rd m show ?thesis by (auto simp: sum_list_zero split: if_splits option.splits)
    next
      case (Some b)
      from Inr Some rd job_read_size have sz: "length (blk_data b) \<le> 512 * 1024" by blast
      show ?thesis
      proof (cases "k = 0 \<or> mx \<le> sent + length (blk_data b)")
        case True
        with Some Inr "2.prems" rd m sz show ?thesis by (auto simp: sum_list_zero Let_def)
      next
        case False
        obtain ms2 j2 f2 where "read_burst env compress fs mx k (sent + length (blk_data b)) j1 = (ms2, j2, f2)"
          by (cases "read_burst env compress fs mx k (sent + length (blk_data b)) j1")
        with False Some Inr "2.prems" rd m "2.IH" [OF rd [symmetric] Inr Some refl refl False] show ?thesis
          by (auto simp: sum_list_zero Let_def)
      qed
    qed
  qed
qed simp

lemma serve_first_cases:
  "serve_first serve jobs = (ms, jobs', fin) \<Longrightarrow>
    (\<forall>j \<in> set jobs. is_last_job j) \<and> ms = [] \<and> jobs' = jobs \<and> fin = None \<or>
    (\<exists>pre j post j' f. jobs = pre @ j # post \<and> (\<forall>i \<in> set pre. is_last_job i) \<and> \<not> is_last_job j \<and>
       serve j = (ms, j', f) \<and> jobs' = pre @ j' # post \<and> fin = (if f then Some (job_id j') else None))"
proof (induction jobs arbitrary: jobs')
  case (Cons j js)
  show ?case
  proof (cases "is_last_job j")
    case True
    obtain ms1 js1 f1 where r: "serve_first serve js = (ms1, js1, f1)" by (cases "serve_first serve js")
    with True Cons.prems have eq: "ms1 = ms" "f1 = fin" "jobs' = j # js1" by simp_all
    from Cons.IH [of js1] r eq have
      "(\<forall>j \<in> set js. is_last_job j) \<and> ms = [] \<and> js1 = js \<and> fin = None \<or>
       (\<exists>pre j post j' f. js = pre @ j # post \<and> (\<forall>i \<in> set pre. is_last_job i) \<and> \<not> is_last_job j \<and>
         serve j = (ms, j', f) \<and> js1 = pre @ j' # post \<and> fin = (if f then Some (job_id j') else None))" by simp
    then show ?thesis
    proof
      assume "(\<forall>j \<in> set js. is_last_job j) \<and> ms = [] \<and> js1 = js \<and> fin = None"
      with True eq show ?thesis by simp
    next
      assume "\<exists>pre j post j' f. js = pre @ j # post \<and> (\<forall>i \<in> set pre. is_last_job i) \<and> \<not> is_last_job j \<and>
         serve j = (ms, j', f) \<and> js1 = pre @ j' # post \<and> fin = (if f then Some (job_id j') else None)"
      then obtain pre k post j' f where "js = pre @ k # post" "\<forall>i \<in> set pre. is_last_job i" "\<not> is_last_job k"
        "serve k = (ms, j', f)" "js1 = pre @ j' # post" "fin = (if f then Some (job_id j') else None)" by blast
      with True eq show ?thesis
        by (intro disjI2 exI [of _ "j # pre"] exI [of _ k] exI [of _ post] exI [of _ j'] exI [of _ f]) simp
    qed
  next
    case False
    obtain ms1 j1 f1 where r: "serve j = (ms1, j1, f1)" by (cases "serve j")
    with False Cons.prems show ?thesis
      by (intro disjI2 exI [of _ "[]"] exI [of _ j] exI [of _ js] exI [of _ j1] exI [of _ f1]) simp
  qed
qed simp

text \<open>
  A tick is bounded.  One call of \<open>handle_read_jobs\<close> sends at most 128 blocks on a direct
  connection and 32 otherwise, and less than 16 MiB (2 MiB) plus one read buffer of block data.
\<close>

theorem tick_bounded:
  "let ms = fst (handle_read_jobs env compress fs dir jobs) in
     length (filter is_block ms) \<le> (if dir then 128 else 32) \<and>
     sum_list (map msg_bytes ms) < (if dir then 16 * 1024 * 1024 else 2 * 1024 * 1024) + 512 * 1024"
proof -
  let ?mb = "if dir then 128 else 32 :: nat" and ?my = "if dir then 16 * 1024 * 1024 else 2 * 1024 * 1024 :: nat"
  obtain ms jobs' fin where s: "serve_first (read_burst env compress fs ?my ?mb 0) jobs = (ms, jobs', fin)"
    by (cases "serve_first (read_burst env compress fs ?my ?mb 0) jobs")
  have "fst (handle_read_jobs env compress fs dir jobs) = ms"
    using s by (simp add: handle_read_jobs_def split: option.splits)
  moreover have "length (filter is_block ms) \<le> ?mb \<and> sum_list (map msg_bytes ms) < ?my + 512 * 1024"
    using serve_first_cases [OF s]
  proof
    assume "\<exists>pre j post j' f. jobs = pre @ j # post \<and> (\<forall>i \<in> set pre. is_last_job i) \<and> \<not> is_last_job j \<and>
      read_burst env compress fs ?my ?mb 0 j = (ms, j', f) \<and> jobs' = pre @ j' # post \<and>
      fin = (if f then Some (job_id j') else None)"
    then obtain j j' f where b: "read_burst env compress fs ?my ?mb 0 j = (ms, j', f)" by blast
    have "0 < ?my" by simp
    with burst_blocks [OF b] burst_bytes [OF b] show ?thesis by auto
  qed simp
  ultimately show ?thesis by (simp add: Let_def)
qed


lemma remove_job_append:
  "i \<notin> job_id ` set pre \<Longrightarrow> job_id j = i \<Longrightarrow> snd (remove_job i (pre @ j # post)) = pre @ post"
  by (induction pre) (auto split: prod.splits)

text \<open>Reading leaves the identity and the settings of the job alone.\<close>

definition same_settings :: "transfer_job \<Rightarrow> transfer_job \<Rightarrow> bool" where
  "same_settings j j' \<longleftrightarrow> job_id j' = job_id j \<and> is_last_job j' = is_last_job j \<and>
     enable_overwrite_detection j' = enable_overwrite_detection j"

lemma open_source_settings:
  "open_source env fs j = Inl (r, j') \<Longrightarrow> same_settings j j'"
  "open_source env fs j = Inr (j', name) \<Longrightarrow> same_settings j j'"
  by (auto simp: open_source_def same_settings_def advance_file_def Let_def
      split: data_source.splits if_splits)

lemma read_block_settings:
  assumes "read_block env compress fs j name = (r, j')"
  shows "same_settings j j'"
proof (cases "data_stream j")
  case None
  with assms show ?thesis by (simp add: read_block_def same_settings_def)
next
  case (Some st)
  with assms show ?thesis
    unfolding read_block_def Let_def by (auto simp: same_settings_def advance_file_def split: if_split_asm)
qed

lemma job_read_settings:
  assumes "job_read env compress fs j = (res, j', ms)"
  shows "same_settings j j'"
proof (cases "open_source env fs j")
  case (Inl r)
  with assms open_source_settings(1) [of env fs j "fst r" "snd r"] show ?thesis
    by (auto simp: job_read_def split: prod.splits)
next
  case (Inr r)
  obtain j1 name where r: "r = (j1, name)" by (cases r)
  with Inr open_source_settings(2) have s1: "same_settings j j1" by blast
  obtain q j2 where rb: "read_block env compress fs j1 name = (q, j2)"
    by (cases "read_block env compress fs j1 name")
  from read_block_settings [OF rb] s1 have s2: "same_settings j j2" by (simp add: same_settings_def)
  have "j' = j1 \<or> j' = j1\<lparr>file_is_waiting := True\<rparr> \<or> j' = j2"
    using assms by (auto simp: job_read_def Inr r rb split: if_split_asm sum.splits)
  with s1 s2 show ?thesis by (auto simp: same_settings_def)
qed

lemma burst_id: "read_burst env compress fs mx k sent j = (ms, j', fin) \<Longrightarrow> job_id j' = job_id j"
proof (induction env compress fs mx k sent j arbitrary: ms j' fin rule: read_burst.induct)
  case (2 env compress fs mx k sent j)
  obtain res j1 ms1 where rd: "job_read env compress fs j = (res, j1, ms1)" by (cases "job_read env compress fs j")
  from job_read_settings [OF rd] have id: "job_id j1 = job_id j" by (simp add: same_settings_def)
  show ?case
  proof (cases "\<exists>b. res = Inr (Some b) \<and> \<not> (k = 0 \<or> mx \<le> sent + length (blk_data b))")
    case False
    with "2.prems" rd id show ?thesis by (auto simp: Let_def split: sum.splits option.splits if_splits)
  next
    case True
    then obtain b where b: "res = Inr (Some b)" "\<not> (k = 0 \<or> mx \<le> sent + length (blk_data b))" by blast
    obtain ms2 j2 f2 where r: "read_burst env compress fs mx k (sent + length (blk_data b)) j1 = (ms2, j2, f2)"
      by (cases "read_burst env compress fs mx k (sent + length (blk_data b)) j1")
    have "j' = j2" using "2.prems" rd b r by (simp add: Let_def)
    with "2.IH" [OF rd [symmetric] b(1) refl refl refl b(2) r] id show ?thesis by simp
  qed
qed simp

text \<open>
  A tick serves one job.  \<open>handle_read_jobs\<close> leaves every job alone except the first that is no
  left-over of the last session; when that job is finished it is taken off the list.
\<close>

theorem tick_serves_one:
  assumes "distinct (map job_id jobs)" and "jobs = pre @ j # post"
    and "\<forall>i \<in> set pre. is_last_job i" and "\<not> is_last_job j"
  shows "\<exists>j' fin ms.
    read_burst env compress fs (if dir then 16 * 1024 * 1024 else 2 * 1024 * 1024) (if dir then 128 else 32) 0 j
      = (ms, j', fin) \<and>
    handle_read_jobs env compress fs dir jobs = (ms, if fin then pre @ post else pre @ j' # post)"
proof -
  let ?serve = "read_burst env compress fs (if dir then 16 * 1024 * 1024 else 2 * 1024 * 1024)
    (if dir then 128 else 32) 0"
  obtain ms j' fin where b: "?serve j = (ms, j', fin)" by (cases "?serve j")
  have s: "serve_first ?serve (pre @ j # post) = (ms, pre @ j' # post, if fin then Some (job_id j') else None)"
    using assms(3,4) b by (induction pre) auto
  have "job_id j' \<notin> job_id ` set pre" using burst_id [OF b] assms(1,2) by auto
  then have "snd (remove_job (job_id j') (pre @ j' # post)) = pre @ post" by (simp add: remove_job_append)
  then show ?thesis
    using b s assms(2) by (auto simp: handle_read_jobs_def Let_def)
qed

subsection \<open>Ticks to the end\<close>

fun ticks ::
  "os \<Rightarrow> (bytes \<Rightarrow> bytes) \<Rightarrow> fsys \<Rightarrow> bool \<Rightarrow> nat \<Rightarrow> transfer_job list \<Rightarrow> transfer_msg list \<times> transfer_job list" where
  "ticks env compress fs dir 0 jobs = ([], jobs)"
| "ticks env compress fs dir (Suc n) jobs =
     (case handle_read_jobs env compress fs dir jobs of
        (ms, jobs1) \<Rightarrow> (case ticks env compress fs dir n jobs1 of (ms', jobs2) \<Rightarrow> (ms @ ms', jobs2)))"

lemma job_read_keeps:
  assumes "job_read env compress fs j = (res, j', ms)" and "\<not> enable_overwrite_detection j"
  shows "\<not> enable_overwrite_detection j' \<and> is_last_job j' = is_last_job j \<and> ms = []"
proof -
  have "ms = []"
  proof (cases "open_source env fs j")
    case (Inl r)
    with assms show ?thesis by (auto simp: job_read_def split: prod.splits)
  next
    case (Inr r)
    with open_source_settings(2) [of env fs j "fst r" "snd r"] assms show ?thesis
      by (auto simp: job_read_def same_settings_def split: prod.splits)
  qed
  with job_read_settings [OF assms(1)] assms(2) show ?thesis by (simp add: same_settings_def)
qed

definition final_msg :: "transfer_job \<Rightarrow> transfer_msg" where
  "final_msg j = (case job_error j of
     Some err \<Rightarrow> MsgError (job_id j) err (file_num j) | None \<Rightarrow> MsgDone (job_id j) (file_num j))"

lemma burst_prefix:
  "reads env compress fs j bs j' \<Longrightarrow> \<not> enable_overwrite_detection j \<Longrightarrow> 0 < k \<Longrightarrow>
    read_burst env compress fs mx k sent j = (map MsgBlock bs @ [final_msg j'], j', True) \<or>
    (\<exists>bs1 bs2 j1. bs = bs1 @ bs2 \<and> bs1 \<noteq> [] \<and> reads env compress fs j1 bs2 j' \<and>
      \<not> enable_overwrite_detection j1 \<and> is_last_job j1 = is_last_job j \<and>
      read_burst env compress fs mx k sent j = (map MsgBlock bs1, j1, False))"
proof (induction arbitrary: k sent rule: reads.induct)
  case (reads_end j j' ms)
  from job_read_keeps [OF reads_end(1,2)] reads_end show ?case
    by (cases k) (auto simp: job_completed_def final_msg_def)
next
  case (reads_block j b j1 ms bs j')
  from job_read_keeps [OF reads_block(1,4)] have k1: "\<not> enable_overwrite_detection j1"
    "is_last_job j1 = is_last_job j" "ms = []" by simp_all
  obtain l where k: "k = Suc l" using reads_block.prems(2) by (cases k) auto
  show ?case
  proof (cases "l = 0 \<or> mx \<le> sent + length (blk_data b)")
    case True
    with reads_block(1,2) k k1 show ?thesis
      by (intro disjI2 exI [of _ "[b]"] exI [of _ bs] exI [of _ j1]) (simp add: Let_def)
  next
    case False
    then have l: "0 < l" by simp
    let ?sent = "sent + length (blk_data b)"
    from reads_block.IH [OF k1(1) l, of ?sent] show ?thesis
    proof
      assume "read_burst env compress fs mx l ?sent j1 = (map MsgBlock bs @ [final_msg j'], j', True)"
      with reads_block(1) k k1 False show ?thesis by (simp add: Let_def)
    next
      assume "\<exists>bs1 bs2 j2. bs = bs1 @ bs2 \<and> bs1 \<noteq> [] \<and> reads env compress fs j2 bs2 j' \<and>
        \<not> enable_overwrite_detection j2 \<and> is_last_job j2 = is_last_job j1 \<and>
        read_burst env compress fs mx l ?sent j1 = (map MsgBlock bs1, j2, False)"
      then obtain bs1 bs2 j2 where "bs = bs1 @ bs2" "reads env compress fs j2 bs2 j'"
        "\<not> enable_overwrite_detection j2" "is_last_job j2 = is_last_job j1"
        "read_burst env compress fs mx l ?sent j1 = (map MsgBlock bs1, j2, False)" by blast
      with reads_block(1) k k1 False show ?thesis
        by (intro disjI2 exI [of _ "b # bs1"] exI [of _ bs2] exI [of _ j2]) (simp add: Let_def)
    qed
  qed
qed

text \<open>
  The ticks deliver a job.  A job without overwrite detection whose reads come to an end has all
  its blocks sent, in order and followed by one closing message, after finitely many ticks, and is then
  off the list.
\<close>

theorem ticks_deliver:
  assumes "reads env compress fs j bs j'" and "\<not> enable_overwrite_detection j" and "\<not> is_last_job j"
  shows "\<exists>n. ticks env compress fs dir n [j] = (map MsgBlock bs @ [final_msg j'], [])"
  using assms
proof (induction "length bs" arbitrary: j bs rule: less_induct)
  case less
  let ?mx = "if dir then 16 * 1024 * 1024 else 2 * 1024 * 1024 :: nat" and ?k = "if dir then 128 else 32 :: nat"
  have "0 < ?k" by simp
  from burst_prefix [OF less.prems(1,2) this, of ?mx 0] show ?case
  proof
    assume "read_burst env compress fs ?mx ?k 0 j = (map MsgBlock bs @ [final_msg j'], j', True)"
    with less.prems(3) have "handle_read_jobs env compress fs dir [j] = (map MsgBlock bs @ [final_msg j'], [])"
      by (simp add: handle_read_jobs_def Let_def)
    then show ?thesis by (intro exI [of _ "Suc 0"]) simp
  next
    assume "\<exists>bs1 bs2 j1. bs = bs1 @ bs2 \<and> bs1 \<noteq> [] \<and> reads env compress fs j1 bs2 j' \<and>
      \<not> enable_overwrite_detection j1 \<and> is_last_job j1 = is_last_job j \<and>
      read_burst env compress fs ?mx ?k 0 j = (map MsgBlock bs1, j1, False)"
    then obtain bs1 bs2 j1 where p: "bs = bs1 @ bs2" "bs1 \<noteq> []" "reads env compress fs j1 bs2 j'"
      "\<not> enable_overwrite_detection j1" "is_last_job j1 = is_last_job j"
      "read_burst env compress fs ?mx ?k 0 j = (map MsgBlock bs1, j1, False)" by blast
    have "length bs2 < length bs" using p(1,2) by simp
    from less.hyps [OF this p(3,4)] p(5) less.prems(3)
    obtain n where "ticks env compress fs dir n [j1] = (map MsgBlock bs2 @ [final_msg j'], [])" by auto
    moreover have "handle_read_jobs env compress fs dir [j] = (map MsgBlock bs1, [j1])"
      using p(6) less.prems(3) by (simp add: handle_read_jobs_def Let_def)
    ultimately show ?thesis using p(1) by (intro exI [of _ "Suc n"]) simp
  qed
qed

subsection \<open>The gate of the overwrite confirmation\<close>

text \<open>
  With overwrite detection no content leaves before it is confirmed.  A read of a generic job with
  detection yields a block only of a directory marker, or of the open file that has been confirmed.
\<close>

theorem no_block_unconfirmed:
  assumes "job_type j = Generic" and "enable_overwrite_detection j"
    and "job_read env compress fs j = (Inr (Some b), j', ms)"
  shows "blk_data b = [] \<and> is_dir_marker (entry_name (job_files j ! as_usize (file_num j))) \<or>
    file_confirmed j"
  using assms
  by (auto simp: job_read_def open_source_def Let_def
      split: sum.splits prod.splits if_splits option.splits data_source.splits)

text \<open>
  The digest check reports identity only on evidence.  When a confirmation is asked for with the
  claim that the file is identical, then either the file in place has the size and the modification time
  of the digest, or, when resuming, a non-empty partial file has a stored digest that agrees with it and
  the offset is its length.
\<close>

theorem identical_sound:
  assumes "is_write_need_confirmation of_json fs resume path d = NeedConfirm d'" and "td_is_identical d'"
  shows "(\<exists>f. fs_files fs path = Some f \<and> file_mtime f = td_last_modified d \<and>
        word_of_nat (length (file_data f)) = td_file_size d) \<or>
    resume \<and> (\<exists>df dl loc. fs_files fs (path @ ''.digest'') = Some df \<and> of_json (file_data df) = Some loc \<and>
      digest_modified loc = td_last_modified d \<and> digest_size loc = td_file_size d \<and>
      fs_files fs (path @ ''.download'') = Some dl \<and> file_data dl \<noteq> [] \<and>
      td_transferred_size d' = word_of_nat (length (file_data dl)))"
  using assms
  by (auto simp: is_write_need_confirmation_def Let_def split: if_splits option.splits)

text \<open>
  Exactly which confirmations crash.  \<open>confirm\<close> panics on the unchecked index of
  \<^verbatim>\<open>set_stream_offset\<close> just when the job reads or writes files, the request carries a positive
  offset, and it names the job's current file number when that is past the end of the list.
\<close>

theorem confirm_panics:
  "job_confirm env fs j r = None \<longleftrightarrow>
     file_num j = confirm_file_num r \<and> length (job_files j) \<le> as_usize (file_num j) \<and>
     (\<exists>off p. confirm_union r = Some (OffsetBlk off) \<and> 0 < off \<and> data_source j = FilePath p)"
  by (auto simp: job_confirm_def set_stream_offset_def set_file_confirmed_def Let_def
      split: option.splits confirm_union.splits data_source.splits)


subsection \<open>Instances\<close>

definition last_job :: transfer_job where
  "last_job = (small_job ''/s'')\<lparr>job_id := 5, is_last_job := True\<rparr>"

lemma tick_serves_one_witness:
  "\<exists>j' fin ms.
    read_burst open_os (\<lambda>b. b) small_fs (if True then 16 * 1024 * 1024 else 2 * 1024 * 1024) (if True then 128 else 32) 0
      (small_job ''/s'') = (ms, j', fin) \<and>
    handle_read_jobs open_os (\<lambda>b. b) small_fs True [last_job, small_job ''/s'', (small_job ''/s'')\<lparr>job_id := 6\<rparr>] =
      (ms, if fin then [last_job] @ [(small_job ''/s'')\<lparr>job_id := 6\<rparr>]
           else [last_job] @ j' # [(small_job ''/s'')\<lparr>job_id := 6\<rparr>])"
  by (rule tick_serves_one) (simp_all add: last_job_def, simp add: small_job_def new_write_def)

definition memory_job :: transfer_job where
  "memory_job = new_write 1 Printer ''r'' (MemoryCursor []) 0 False False [] False"

lemma memory_reads:
  "reads open_os (\<lambda>b. b) small_fs memory_job []
     (memory_job\<lparr>data_source := MemoryCursor [], data_stream := None\<rparr>)"
  by (rule reads_end)
    (simp add: job_read_def open_source_def read_block_def memory_job_def new_write_def stream_readable_def
      stream_bytes_def stream_pos_def read_fill_take Let_def)

lemma ticks_deliver_witness:
  "\<exists>n. ticks open_os (\<lambda>b. b) small_fs False n [memory_job] =
    (map MsgBlock [] @ [final_msg (memory_job\<lparr>data_source := MemoryCursor [], data_stream := None\<rparr>)], [])"
  by (rule ticks_deliver [OF memory_reads]) (simp_all add: memory_job_def new_write_def)

definition gated_job :: transfer_job where
  "gated_job = (small_job ''/s'')\<lparr>enable_overwrite_detection := True, file_confirmed := True,
     file_num := 1, data_stream := Some (FileStream ''/s/b'' 0)\<rparr>"

lemma gated_read:
  "job_read open_os (\<lambda>b. b) small_fs gated_job =
    (Inr (Some \<lparr>blk_id = 1, blk_file_num = 1, blk_data = [], blk_compressed = False\<rparr>),
     (advance_file gated_job)\<lparr>data_stream := None\<rparr>, [])"
  by (simp add: job_read_def open_source_def read_block_def gated_job_def stream_readable_def open_os_def
      stream_bytes_def stream_pos_def read_fill_take as_usize_def two_files_def is_dir_marker_def small_fs_def
      job_join_def path_join_def Let_def)

lemma no_block_unconfirmed_witness:
  "blk_data \<lparr>blk_id = 1, blk_file_num = 1, blk_data = [], blk_compressed = False\<rparr> = [] \<and>
      is_dir_marker (entry_name (job_files gated_job ! as_usize (file_num gated_job))) \<or>
    file_confirmed gated_job"
  by (rule no_block_unconfirmed [OF _ _ gated_read]) (simp_all add: gated_job_def)

definition same_digest :: transfer_digest where
  "same_digest = \<lparr>td_id = 1, td_file_num = 0, td_last_modified = 7, td_file_size = 3, td_is_identical = False,
     td_transferred_size = 0\<rparr>"

lemma identical_sound_witness:
  "(\<exists>f. fs_files small_fs ''/s/a'' = Some f \<and> file_mtime f = td_last_modified same_digest \<and>
        word_of_nat (length (file_data f)) = td_file_size same_digest) \<or>
    False \<and> (\<exists>df dl loc. fs_files small_fs (''/s/a'' @ ''.digest'') = Some df \<and> Some loc = None \<and>
      digest_modified loc = td_last_modified same_digest \<and> digest_size loc = td_file_size same_digest \<and>
      fs_files small_fs (''/s/a'' @ ''.download'') = Some dl \<and> file_data dl \<noteq> [] \<and>
      td_transferred_size (same_digest\<lparr>td_is_identical := True\<rparr>) = word_of_nat (length (file_data dl)))"
  using identical_sound [of "\<lambda>_. None" small_fs False "''/s/a''" same_digest "same_digest\<lparr>td_is_identical := True\<rparr>"]
  by (simp add: is_write_need_confirmation_def small_fs_def same_digest_def)

end
