(* ===== verification/Directory.thy ===== *)
theory Directory
  imports Transfer_Job
begin

text \<open>
  Listing a directory tree, \<^verbatim>\<open>libs/hbb_common/src/fs.rs\<close>: \<^verbatim>\<open>read_dir\<close>, the recursive listing that makes
  the entries of a transfer job, the list of the empty directories, and the removal of empty directories.

  A tree has files with size and time, directories that can be read or not with their time and children,
  and links with their own time and their target, none for a broken one.  This is the Unix side: a name that begins with a dot is hidden, and there are no
  drives.  A name that is no UTF-8 is the empty name.
\<close>

subsection \<open>The tree\<close>

datatype node =
    FileNode u64 u64
  | DirNode bool u64 "(string \<times> node) list"
  | Link u64 "node option"

datatype file_type = FileT | DirT | DirLinkT | FileLinkT

record dir_entry =
  de_name :: string
  de_type :: file_type
  de_hidden :: bool
  de_size :: u64
  de_modified :: u64

fun is_dir :: "node \<Rightarrow> bool" where
  "is_dir (FileNode s m) = False"
| "is_dir (DirNode r mt es) = True"
| "is_dir (Link lt None) = False"
| "is_dir (Link lt (Some n)) = is_dir n"

definition hidden_name :: "string \<Rightarrow> bool" where
  "hidden_name name = (name \<noteq> [] \<and> hd name = CHR ''.'')"

fun entry_type_size :: "node \<Rightarrow> file_type \<times> u64 \<times> u64" where
  "entry_type_size (FileNode s m) = (FileT, s, m)"
| "entry_type_size (DirNode r mt es) = (DirT, 0, mt)"
| "entry_type_size (Link lt t) = (if is_dir (Link lt t) then DirLinkT else FileLinkT, 0, lt)"

definition dir_entry_of :: "string \<times> node \<Rightarrow> dir_entry" where
  "dir_entry_of p =
     (case entry_type_size (snd p) of (t, s, m) \<Rightarrow>
        \<lparr>de_name = fst p, de_type = t, de_hidden = hidden_name (fst p), de_size = s, de_modified = m\<rparr>)"

text \<open>The children that a listing shows.\<close>

definition shown :: "bool \<Rightarrow> string \<times> node \<Rightarrow> bool" where
  "shown include_hidden p = (fst p \<noteq> [] \<and> (include_hidden \<or> \<not> hidden_name (fst p)))"

definition read_dir :: "bool \<Rightarrow> (string \<times> node) list \<Rightarrow> bool \<Rightarrow> string + dir_entry list" where
  "read_dir readable es include_hidden =
     (if readable then Inr (map dir_entry_of (filter (shown include_hidden) es)) else Inl ''Permission denied'')"

definition file_named :: "string \<Rightarrow> u64 \<Rightarrow> u64 \<Rightarrow> file_entry" where
  "file_named name s m = \<lparr>entry_name = name, entry_size = s, entry_modified = m\<rparr>"

subsection \<open>The recursive listing\<close>

fun read_dir_recursive :: "string \<Rightarrow> bool \<Rightarrow> node \<Rightarrow> string + file_entry list" where
  "read_dir_recursive prefix h (FileNode s m) = Inr [file_named [] s m]"
| "read_dir_recursive prefix h (DirNode readable mt es) =
     (if \<not> readable then Inl ''Permission denied''
      else Inr (concat (map (\<lambda>(name, n).
        if \<not> shown h (name, n) then []
        else
          (let path = path_join prefix name
           in case n of
                FileNode s m \<Rightarrow> [file_named path s m]
              | DirNode _ _ _ \<Rightarrow>
                  (case read_dir_recursive path h n of
                     Inl _ \<Rightarrow> []
                   | Inr tmp \<Rightarrow> if tmp = [] then [file_named (path @ ''/'') 0 0] else tmp)
              | Link _ _ \<Rightarrow> [])) es)))"
| "read_dir_recursive prefix h (Link lt None) = Inl ''Not exists''"
| "read_dir_recursive prefix h (Link lt (Some n)) = read_dir_recursive prefix h n"

definition get_recursive_files :: "bool \<Rightarrow> node \<Rightarrow> string + file_entry list" where
  "get_recursive_files h n = read_dir_recursive [] h n"

text \<open>The paths of the empty directories, with their (empty) listings left out.\<close>

fun read_empty_dirs_recursive :: "string \<Rightarrow> bool \<Rightarrow> node \<Rightarrow> string + string list" where
  "read_empty_dirs_recursive path h (FileNode s m) = Inr []"
| "read_empty_dirs_recursive path h (DirNode readable mt es) =
     (if \<not> readable then Inl ''Permission denied''
      else if filter (shown h) es = [] then Inr [path]
      else Inr (concat (map (\<lambda>(name, n).
        if \<not> shown h (name, n) then []
        else (case n of
                DirNode _ _ _ \<Rightarrow>
                  (case read_empty_dirs_recursive (path_join path name) h n of Inl _ \<Rightarrow> [] | Inr tmp \<Rightarrow> tmp)
              | _ \<Rightarrow> [])) es)))"
| "read_empty_dirs_recursive path h (Link lt None) = Inl ''Not exists''"
| "read_empty_dirs_recursive path h (Link lt (Some n)) = read_empty_dirs_recursive path h n"

text \<open>
  What \<^verbatim>\<open>remove_all_empty_dir\<close> leaves of a directory: \<open>None\<close> when it is removed itself.  A directory that
  cannot be read, and whose call therefore fails, stays.  The time of a directory that loses an entry is left as
  it was; nothing here reads it again.
\<close>

fun remove_all_empty_dir :: "node \<Rightarrow> node option" where
  "remove_all_empty_dir (DirNode readable mt es) =
     (if \<not> readable then Some (DirNode readable mt es)
      else
        (let rest = concat (map (\<lambda>(name, n).
           if name = [] then [(name, n)]
           else (case n of
                   FileNode _ _ \<Rightarrow> [(name, n)]
                 | DirNode _ _ _ \<Rightarrow> (case remove_all_empty_dir n of None \<Rightarrow> [] | Some n' \<Rightarrow> [(name, n')])
                 | Link _ _ \<Rightarrow> [])) es)
         in if rest = [] then None else Some (DirNode readable mt rest)))"
| "remove_all_empty_dir n = Some n"

definition transform_windows_path :: "file_entry list \<Rightarrow> file_entry list" where
  "transform_windows_path es =
     map (\<lambda>e. e\<lparr>entry_name := map (\<lambda>c. if c = CHR 0x5C then CHR ''/'' else c) (entry_name e)\<rparr>) es"

subsection \<open>What is in a tree\<close>

text \<open>The regular files that are reached through shown, readable directories, by their path from the root.\<close>

inductive file_at :: "bool \<Rightarrow> node \<Rightarrow> string list \<Rightarrow> u64 \<Rightarrow> u64 \<Rightarrow> bool" for h where
  file_here: "(name, FileNode s m) \<in> set es \<Longrightarrow> shown h (name, FileNode s m) \<Longrightarrow>
    file_at h (DirNode True mt es) [name] s m"
| file_below: "(name, DirNode r dt ds) \<in> set es \<Longrightarrow> shown h (name, DirNode r dt ds) \<Longrightarrow>
    file_at h (DirNode r dt ds) path s m \<Longrightarrow> file_at h (DirNode True mt es) (name # path) s m"

inductive_cases file_atE: "file_at h (DirNode r mt es) path s m"
inductive_simps file_at_simps: "file_at h (DirNode r mt es) path s m"

fun slashes :: "string list \<Rightarrow> string" where
  "slashes [] = []"
| "slashes [x] = x"
| "slashes (x # xs) = x @ CHR ''/'' # slashes xs"

fun tree_ok :: "node \<Rightarrow> bool" where
  "tree_ok (FileNode s m) = True"
| "tree_ok (DirNode r mt es) = (\<forall>(name, n) \<in> set es. CHR ''/'' \<notin> set name \<and> tree_ok n)"
| "tree_ok (Link lt t) = True"


definition under :: "string \<Rightarrow> string list \<Rightarrow> string" where
  "under prefix path = (if prefix = [] then slashes path else prefix @ CHR ''/'' # slashes path)"

definition prefix_ok :: "string \<Rightarrow> bool" where
  "prefix_ok prefix \<longleftrightarrow> (prefix \<noteq> [] \<longrightarrow> last prefix \<noteq> CHR ''/'')"

lemma path_join_plain:
  assumes "name \<noteq> []" and "CHR ''/'' \<notin> set name" and "prefix_ok prefix"
  shows "path_join prefix name = under prefix [name]" and "prefix_ok (path_join prefix name)"
    and "path_join prefix name \<noteq> []" and "\<not> is_dir_marker (path_join prefix name)"
proof -
  have "hd name \<noteq> CHR ''/''" "last name \<noteq> CHR ''/''" using assms(1,2) by (metis hd_in_set, metis last_in_set)
  with assms show "path_join prefix name = under prefix [name]" "prefix_ok (path_join prefix name)"
    "path_join prefix name \<noteq> []" "\<not> is_dir_marker (path_join prefix name)"
    by (auto simp: path_join_def under_def prefix_ok_def is_dir_marker_def)
qed

lemma under_cons:
  "path \<noteq> [] \<Longrightarrow> name \<noteq> [] \<Longrightarrow> CHR ''/'' \<notin> set name \<Longrightarrow> prefix_ok prefix \<Longrightarrow>
    under (path_join prefix name) path = under prefix (name # path)"
  by (cases path) (auto simp: path_join_plain under_def)

lemma file_at_nonempty: "file_at h n path s m \<Longrightarrow> path \<noteq> []"
  by (induction rule: file_at.induct) auto

lemma marker_slash [simp]: "is_dir_marker (p @ ''/'')"
  by (simp add: is_dir_marker_def)

lemma listing_files:
  "tree_ok n \<Longrightarrow> prefix_ok prefix \<Longrightarrow> is_dir n \<Longrightarrow> (\<forall>lt t. n \<noteq> Link lt t) \<Longrightarrow> read_dir_recursive prefix h n = Inr fs \<Longrightarrow>
    e \<in> set fs \<and> \<not> is_dir_marker (entry_name e) \<longleftrightarrow>
    (\<exists>path s m. file_at h n path s m \<and> e = file_named (under prefix path) s m)"
proof (induction prefix h n arbitrary: fs e rule: read_dir_recursive.induct)
  case (2 prefix h readable mt es)
  let ?part = "\<lambda>(name, n). if \<not> shown h (name, n) then []
    else (let path = path_join prefix name
          in case n of
               FileNode s m \<Rightarrow> [file_named path s m]
             | DirNode _ _ _ \<Rightarrow>
                 (case read_dir_recursive path h n of
                    Inl _ \<Rightarrow> []
                  | Inr tmp \<Rightarrow> if tmp = [] then [file_named (path @ ''/'') 0 0] else tmp)
             | Link _ _ \<Rightarrow> [])"
  from "2.prems"(5) have r: readable and fs: "fs = concat (map ?part es)" by (simp_all split: if_splits)
  have part: "e \<in> set (?part (name, n)) \<and> \<not> is_dir_marker (entry_name e) \<longleftrightarrow>
      shown h (name, n) \<and>
      ((\<exists>s m. n = FileNode s m \<and> e = file_named (under prefix [name]) s m) \<or>
       (\<exists>d dt ds path s m. n = DirNode d dt ds \<and> file_at h n path s m \<and> e = file_named (under prefix (name # path)) s m))"
    if mem: "(name, n) \<in> set es" for name n
  proof (cases "shown h (name, n)")
    case sh: True
    have nm: "name \<noteq> []" "CHR ''/'' \<notin> set name" "tree_ok n"
      using sh mem "2.prems"(1) by (auto simp: shown_def)
    note pj = path_join_plain [OF nm(1,2) "2.prems"(2)]
    show ?thesis
    proof (cases n)
      case (FileNode s m)
      with sh pj show ?thesis by (auto simp: file_named_def Let_def elim: file_at.cases)
    next
      case n: (DirNode d dt ds)
      let ?path = "path_join prefix name"
      show ?thesis
      proof (cases "read_dir_recursive ?path h n")
        case (Inl err)
        then have "\<not> d" using n by (auto split: if_splits)
        then have "\<not> file_at h n path s m" for path s m using n by (auto elim: file_atE)
        with sh Inl n show ?thesis by (auto simp: Let_def)
      next
        case (Inr tmp)
        have dir: "is_dir n" "\<forall>lt t. n \<noteq> Link lt t" using n by simp_all
        have IH: "e \<in> set tmp \<and> \<not> is_dir_marker (entry_name e) \<longleftrightarrow>
            (\<exists>path s m. file_at h n path s m \<and> e = file_named (under ?path path) s m)"
          using "2.IH" [of "(name, n)" name n ?path d dt ds tmp e] r mem sh n nm(3) pj(2) dir Inr by auto
        have un: "file_at h n path s m \<Longrightarrow> under ?path path = under prefix (name # path)" for path s m
          using under_cons [OF file_at_nonempty nm(1,2) "2.prems"(2)] .
        have "e \<in> set (?part (name, n)) \<and> \<not> is_dir_marker (entry_name e) \<longleftrightarrow>
            e \<in> set tmp \<and> \<not> is_dir_marker (entry_name e)"
          using sh Inr n by (auto simp: Let_def file_named_def)
        also have "\<dots> \<longleftrightarrow> (\<exists>path s m. file_at h n path s m \<and> e = file_named (under prefix (name # path)) s m)"
          unfolding IH using un by (metis (no_types))
        finally show ?thesis using sh n by auto
      qed
    next
      case (Link lt t)
      with sh show ?thesis by (auto simp: Let_def elim: file_at.cases)
    qed
  qed auto
  let ?R = "\<lambda>name n. shown h (name, n) \<and>
      ((\<exists>s m. n = FileNode s m \<and> e = file_named (under prefix [name]) s m) \<or>
       (\<exists>d dt ds path s m. n = DirNode d dt ds \<and> file_at h n path s m \<and> e = file_named (under prefix (name # path)) s m))"
  have "e \<in> set fs \<and> \<not> is_dir_marker (entry_name e) \<longleftrightarrow>
      (\<exists>p \<in> set es. e \<in> set (?part p) \<and> \<not> is_dir_marker (entry_name e))"
    unfolding fs by auto
  also have "\<dots> \<longleftrightarrow> (\<exists>p \<in> set es. ?R (fst p) (snd p))"
  proof (rule bex_cong [OF refl])
    fix p assume "p \<in> set es"
    then show "(e \<in> set (?part p) \<and> \<not> is_dir_marker (entry_name e)) = ?R (fst p) (snd p)"
      using part [of "fst p" "snd p"] by (simp only: prod.collapse)
  qed
  also have "\<dots> \<longleftrightarrow> (\<exists>path s m. file_at h (DirNode readable mt es) path s m \<and> e = file_named (under prefix path) s m)"
  proof
    assume "\<exists>p \<in> set es. ?R (fst p) (snd p)"
    then obtain p where "p \<in> set es" and R: "?R (fst p) (snd p)" by blast
    moreover obtain name n where p: "p = (name, n)" by (cases p)
    ultimately have mem: "(name, n) \<in> set es" and sh: "shown h (name, n)"
      and alt: "(\<exists>s m. n = FileNode s m \<and> e = file_named (under prefix [name]) s m) \<or>
       (\<exists>d dt ds path s m. n = DirNode d dt ds \<and> file_at h n path s m \<and> e = file_named (under prefix (name # path)) s m)"
      by (simp_all only: p fst_conv snd_conv)
    from alt show "\<exists>path s m. file_at h (DirNode readable mt es) path s m \<and> e = file_named (under prefix path) s m"
    proof
      assume "\<exists>s m. n = FileNode s m \<and> e = file_named (under prefix [name]) s m"
      then obtain s m where "n = FileNode s m" and e: "e = file_named (under prefix [name]) s m" by blast
      with mem sh have "file_at h (DirNode True mt es) [name] s m" by (intro file_here) simp_all
      with e r show ?thesis by auto
    next
      assume "\<exists>d dt ds path s m. n = DirNode d dt ds \<and> file_at h n path s m \<and> e = file_named (under prefix (name # path)) s m"
      then obtain d dt ds path s m where n: "n = DirNode d dt ds" "file_at h n path s m"
        and e: "e = file_named (under prefix (name # path)) s m" by blast
      with mem sh have "file_at h (DirNode True mt es) (name # path) s m" by (intro file_below [of name d dt ds]) simp_all
      with e r show ?thesis by auto
    qed
  next
    assume "\<exists>path s m. file_at h (DirNode readable mt es) path s m \<and> e = file_named (under prefix path) s m"
    then obtain path s m where at: "file_at h (DirNode readable mt es) path s m" and e: "e = file_named (under prefix path) s m"
      by blast
    from at consider
        (here) name where "(name, FileNode s m) \<in> set es" "shown h (name, FileNode s m)" "path = [name]"
      | (below) name d dt ds path' where "(name, DirNode d dt ds) \<in> set es" "shown h (name, DirNode d dt ds)"
          "file_at h (DirNode d dt ds) path' s m" "path = name # path'"
      by (rule file_atE) blast+
    then show "\<exists>p \<in> set es. ?R (fst p) (snd p)"
    proof cases
      case here
      then have "?R (fst (name, FileNode s m)) (snd (name, FileNode s m))" using e by simp
      with here show ?thesis by blast
    next
      case below
      then have "?R (fst (name, DirNode d dt ds)) (snd (name, DirNode d dt ds))" using e by auto
      with below show ?thesis by blast
    qed
  qed
  finally show ?case .
qed auto

text \<open>
  C14. The listing of a directory is complete and sound.  Of a directory that can be read, the entries that
  are no directory markers are exactly the regular files below it that can be reached through shown and
  readable directories (links are not followed), each under its path relative to the directory, with its
  size and time.
\<close>

theorem listing_complete:
  assumes "tree_ok (DirNode True mt es)" and "get_recursive_files h (DirNode True mt es) = Inr fs"
  shows "e \<in> set fs \<and> \<not> is_dir_marker (entry_name e) \<longleftrightarrow>
    (\<exists>path s m. file_at h (DirNode True mt es) path s m \<and> e = file_named (slashes path) s m)"
  using listing_files [of "DirNode True mt es" "[]" h fs e] assms
  by (simp add: get_recursive_files_def prefix_ok_def under_def)


subsection \<open>Removing empty directories\<close>

text \<open>The children that are left, one by one.\<close>

definition left_of :: "string \<times> node \<Rightarrow> (string \<times> node) list" where
  "left_of = (\<lambda>(name, n). if name = [] then [(name, n)]
     else (case n of
             FileNode _ _ \<Rightarrow> [(name, n)]
           | DirNode _ _ _ \<Rightarrow> (case remove_all_empty_dir n of None \<Rightarrow> [] | Some n' \<Rightarrow> [(name, n')])
           | Link _ _ \<Rightarrow> []))"

lemma remove_all_empty_dir_DirNode:
  "remove_all_empty_dir (DirNode True mt es) =
     (let rest = concat (map left_of es) in if rest = [] then None else Some (DirNode True mt rest))"
  by (simp add: left_of_def)

declare remove_all_empty_dir.simps(1) [simp del]

lemma remove_unreadable [simp]: "remove_all_empty_dir (DirNode False mt es) = Some (DirNode False mt es)"
  by (simp add: remove_all_empty_dir.simps)

lemma removed_is_dir: "remove_all_empty_dir (DirNode r mt es) = Some n' \<Longrightarrow> \<exists>r' mt es'. n' = DirNode r' mt es'"
  by (cases r) (auto simp: remove_all_empty_dir_DirNode Let_def split: if_splits)

lemma left_file: "name \<noteq> [] \<Longrightarrow> (name, FileNode s m) \<in> set (left_of (name', n)) \<Longrightarrow> name' = name \<and> n = FileNode s m"
  by (auto simp: left_of_def dest!: sym [of "Some _"] removed_is_dir split: if_splits node.splits option.splits)

lemma left_dir:
  "name \<noteq> [] \<Longrightarrow> (name, DirNode r dt ds) \<in> set (left_of (name', n)) \<Longrightarrow>
    name' = name \<and> (\<exists>r' dt ds'. n = DirNode r' dt ds') \<and> remove_all_empty_dir n = Some (DirNode r dt ds)"
  by (auto simp: left_of_def split: if_splits node.splits option.splits)

lemma files_stay:
  "file_at h n path s m \<Longrightarrow> \<exists>n'. remove_all_empty_dir n = Some n' \<and> file_at h n' path s m"
proof (induction rule: file_at.induct)
  case (file_here name s m es mt)
  then have "(name, FileNode s m) \<in> set (left_of (name, FileNode s m))" by (simp add: left_of_def shown_def)
  with file_here(1) have mem: "(name, FileNode s m) \<in> set (concat (map left_of es))" by auto
  then have "concat (map left_of es) \<noteq> []" by (metis empty_iff empty_set)
  with file_at.file_here [OF mem] file_here(2) show ?case
    by (simp add: remove_all_empty_dir_DirNode Let_def shown_def)
next
  case (file_below name r dt ds es path s m mt)
  then obtain n' where n': "remove_all_empty_dir (DirNode r dt ds) = Some n'" "file_at h n' path s m" by blast
  from removed_is_dir [OF n'(1)] obtain r' dt' ds' where d: "n' = DirNode r' dt' ds'" by blast
  have "name \<noteq> []" using file_below(2) by (simp add: shown_def)
  with n' d have "(name, DirNode r' dt' ds') \<in> set (left_of (name, DirNode r dt ds))" by (simp add: left_of_def)
  with file_below(1) have mem: "(name, DirNode r' dt' ds') \<in> set (concat (map left_of es))" by auto
  then have "concat (map left_of es) \<noteq> []" by (metis empty_iff empty_set)
  with file_at.file_below [OF mem, of h path s m mt] file_below(2) n'(2) d show ?case
    by (simp add: remove_all_empty_dir_DirNode Let_def shown_def)
qed

lemma files_were_there:
  "file_at h n' path s m \<Longrightarrow> remove_all_empty_dir n = Some n' \<Longrightarrow> file_at h n path s m"
proof (induction arbitrary: n rule: file_at.induct)
  case (file_here name s m es' mt)
  have nm: "name \<noteq> []" using file_here(2) by (simp add: shown_def)
  from file_here(3) obtain es mt where n: "n = DirNode True mt es" "es' = concat (map left_of es)"
  proof (cases n)
    case (DirNode r mt es)
    with file_here(3) that show thesis
      by (cases r) (auto simp: remove_all_empty_dir_DirNode Let_def split: if_splits)
  qed auto
  with file_here(1) obtain p where p: "p \<in> set es" "(name, FileNode s m) \<in> set (left_of p)" by auto
  then have "(name, FileNode s m) \<in> set es" using left_file [OF nm, of s m "fst p" "snd p"] by (metis prod.collapse)
  with file_at.file_here [of name s m es h mt] file_here(2) n show ?case by simp
next
  case (file_below name r dt ds es' path s m mt)
  have nm: "name \<noteq> []" using file_below(2) by (simp add: shown_def)
  from file_below(5) obtain es mt where n: "n = DirNode True mt es" "es' = concat (map left_of es)"
  proof (cases n)
    case (DirNode r mt es)
    with file_below(5) that show thesis
      by (cases r) (auto simp: remove_all_empty_dir_DirNode Let_def split: if_splits)
  qed auto
  with file_below(1) obtain p where p: "p \<in> set es" "(name, DirNode r dt ds) \<in> set (left_of p)" by auto
  from left_dir [OF nm, of r dt ds "fst p" "snd p"] p obtain r' dt' ds' where
    q: "p = (name, DirNode r' dt' ds')" "remove_all_empty_dir (DirNode r' dt' ds') = Some (DirNode r dt ds)"
    by (metis prod.collapse)
  with p have mem: "(name, DirNode r' dt' ds') \<in> set es" by simp
  have "shown h (name, DirNode r' dt' ds')" using file_below(2) by (simp add: shown_def)
  from file_at.file_below [OF mem this file_below(4) [OF q(2)]] n show ?case by simp
qed

text \<open>
  Removing the empty directories removes no regular file.  A regular file that is reached through
  readable directories is still at its place, and one that is there afterwards was there before; in
  particular a directory that is removed held none.
\<close>

theorem removal_keeps_files:
  "file_at h n path s m \<longleftrightarrow> (\<exists>n'. remove_all_empty_dir n = Some n' \<and> file_at h n' path s m)"
  using files_stay files_were_there by blast

subsection \<open>An instance\<close>

definition small_tree :: "(string \<times> node) list" where
  "small_tree = [(''a'', FileNode 3 7), (''d'', DirNode True 5 [(''b'', FileNode 1 8), (''e'', DirNode True 5 [])]),
     (''.h'', FileNode 1 1), (''l'', Link 6 None)]"

lemma small_listing:
  "get_recursive_files False (DirNode True 4 small_tree) =
     Inr [file_named ''a'' 3 7, file_named ''d/b'' 1 8, file_named ''d/e/'' 0 0]"
  by (simp add: get_recursive_files_def small_tree_def shown_def hidden_name_def path_join_def)

lemma listing_complete_witness:
  "file_named ''d/b'' 1 8 \<in> set [file_named ''a'' 3 7, file_named ''d/b'' 1 8, file_named ''d/e/'' 0 0] \<and>
      \<not> is_dir_marker (entry_name (file_named ''d/b'' 1 8)) \<longleftrightarrow>
    (\<exists>path s m. file_at False (DirNode True 4 small_tree) path s m \<and> file_named ''d/b'' 1 8 = file_named (slashes path) s m)"
  by (rule listing_complete [OF _ small_listing]) (simp add: small_tree_def)

end
