(* ===== verification/Float32.thy ===== *)
theory Float32
  imports Complex_Main Prelude
begin

text \<open>
  Rust's \<^verbatim>\<open>f32\<close> as far as the video quality control needs it: a value is the rational number it
  denotes, and an operation is the exact one followed by rounding to a 24-bit significand, ties to
  even.  Infinities, NaN, subnormal numbers and the overflow of the exponent are left out: the
  quantities of \<^verbatim>\<open>video_qos.rs\<close> lie between \<open>2 ^ -20\<close> and \<open>2 ^ 40\<close>.
\<close>

type_synonym f32 = rat

fun nlog :: "nat \<Rightarrow> nat" where
  "nlog n = (if n \<le> 1 then 0 else Suc (nlog (n div 2)))"

declare nlog.simps [simp del]

definition ilog2 :: "rat \<Rightarrow> int" where
  "ilog2 x = (if 1 \<le> x then int (nlog (nat \<lfloor>x\<rfloor>)) else - int (nlog (nat (\<lceil>1 / x\<rceil> - 1))) - 1)"

definition round_even :: "rat \<Rightarrow> int" where
  "round_even x =
     (let f = \<lfloor>x\<rfloor>; d = x - of_int f
      in if d < 1 / 2 then f else if 1 / 2 < d then f + 1 else if even f then f else f + 1)"

definition round_pos :: "rat \<Rightarrow> rat" where
  "round_pos x = (let k = ilog2 x in of_int (round_even (x * 2 powi (23 - k))) * 2 powi (k - 23))"

definition f32 :: "rat \<Rightarrow> f32" where
  "f32 x = (if x = 0 then 0 else if 0 < x then round_pos x else - round_pos (- x))"

definition f_mul :: "f32 \<Rightarrow> f32 \<Rightarrow> f32" where "f_mul a b = f32 (a * b)"
definition f_div :: "f32 \<Rightarrow> f32 \<Rightarrow> f32" where "f_div a b = f32 (a / b)"
definition f_add :: "f32 \<Rightarrow> f32 \<Rightarrow> f32" where "f_add a b = f32 (a + b)"
definition f_sub :: "f32 \<Rightarrow> f32 \<Rightarrow> f32" where "f_sub a b = f32 (a - b)"

definition f_of_u32 :: "u32 \<Rightarrow> f32" where
  "f_of_u32 v = f32 (of_nat (unat v))"

text \<open>The cast \<^verbatim>\<open>as u32\<close> truncates and saturates.\<close>

definition u32_of_f :: "f32 \<Rightarrow> u32" where
  "u32_of_f x = (if x \<le> 0 then 0 else if 2 ^ 32 - 1 \<le> x then - 1 else word_of_int \<lfloor>x\<rfloor>)"

subsection \<open>Rounding\<close>

lemma nlog_bounds: "0 < n \<Longrightarrow> 2 ^ nlog n \<le> n \<and> n < 2 ^ Suc (nlog n)"
proof (induction n rule: nlog.induct)
  case (1 n)
  show ?case
  proof (cases "n \<le> 1")
    case True
    with "1.prems" show ?thesis by (simp add: nlog.simps)
  next
    case False
    with "1.IH" have "2 ^ nlog (n div 2) \<le> n div 2" "n div 2 < 2 ^ Suc (nlog (n div 2))" by auto
    then have "2 * 2 ^ nlog (n div 2) \<le> n" "n < 4 * 2 ^ nlog (n div 2)" by simp_all
    with False show ?thesis by (simp add: nlog.simps [of n])
  qed
qed

lemma ilog2_bounds:
  assumes "0 < x"
  shows "2 powi ilog2 x \<le> x" and "x < 2 powi (ilog2 x + 1)"
proof -
  have "2 powi ilog2 x \<le> x \<and> x < 2 powi (ilog2 x + 1)"
  proof (cases "1 \<le> x")
    case True
    let ?n = "nat \<lfloor>x\<rfloor>"
    have n: "1 \<le> \<lfloor>x\<rfloor>" using True by (simp add: le_floor_iff)
    then have "2 ^ nlog ?n \<le> ?n" "?n < 2 ^ Suc (nlog ?n)" using nlog_bounds [of ?n] by auto
    then have "int (2 ^ nlog ?n) \<le> \<lfloor>x\<rfloor>" "\<lfloor>x\<rfloor> < int (2 ^ Suc (nlog ?n))"
      using n by (simp_all add: le_nat_iff nat_less_iff)
    then have "of_int (int (2 ^ nlog ?n)) \<le> x" "x < of_int (int (2 ^ Suc (nlog ?n)))"
      by (simp_all only: le_floor_iff floor_less_iff)
    then show ?thesis using True
      by (simp add: ilog2_def power_int_def nat_add_distrib)
  next
    case False
    let ?c = "\<lceil>1 / x\<rceil>" and ?n = "nat (\<lceil>1 / x\<rceil> - 1)"
    have "1 < 1 / x" using assms False by (simp add: field_simps)
    then have c: "2 \<le> ?c" by (simp add: le_ceiling_iff)
    then have "2 ^ nlog ?n \<le> ?n" "?n < 2 ^ Suc (nlog ?n)" using nlog_bounds [of ?n] by auto
    then have b: "int (2 ^ nlog ?n) + 1 \<le> ?c" "?c \<le> int (2 ^ Suc (nlog ?n))"
      using c by linarith+
    have "1 / x \<le> of_int (int (2 ^ Suc (nlog ?n)))" using b(2) by (simp only: ceiling_le_iff)
    moreover have "of_int (int (2 ^ nlog ?n)) < 1 / x"
      using b(1) by (simp add: le_ceiling_iff)
    ultimately have b': "1 \<le> x * 2 ^ Suc (nlog ?n)" "x * 2 ^ nlog ?n < 1"
      using assms by (simp_all add: field_simps)
    have k: "ilog2 x = - int (Suc (nlog ?n))" using False by (simp add: ilog2_def)
    have p: "(2 :: rat) powi ilog2 x = 1 / 2 ^ Suc (nlog ?n)" "(2 :: rat) powi (ilog2 x + 1) = 1 / 2 ^ nlog ?n"
      unfolding k by (simp_all only: power_int_minus power_int_of_nat inverse_eq_divide)
        (simp add: power_int_minus inverse_eq_divide)
    show ?thesis unfolding p using b'
      by (simp add: divide_le_eq less_divide_eq del: power_Suc)
  qed
  then show "2 powi ilog2 x \<le> x" "x < 2 powi (ilog2 x + 1)" by simp_all
qed

lemma round_even_int [simp]: "round_even (of_int n) = n"
  by (simp add: round_even_def)

lemma round_even_near: "\<lfloor>x\<rfloor> \<le> round_even x" "round_even x \<le> \<lfloor>x\<rfloor> + 1"
  by (simp_all add: round_even_def Let_def)

lemma round_even_mono: "x \<le> y \<Longrightarrow> round_even x \<le> round_even y"
proof -
  assume le: "x \<le> y"
  then have "\<lfloor>x\<rfloor> \<le> \<lfloor>y\<rfloor>" by (rule floor_mono)
  then consider "\<lfloor>x\<rfloor> = \<lfloor>y\<rfloor>" | "\<lfloor>x\<rfloor> + 1 \<le> \<lfloor>y\<rfloor>" by linarith
  then show ?thesis
  proof cases
    case 1
    with le show ?thesis by (simp add: round_even_def Let_def)
  next
    case 2
    with round_even_near(2) [of x] round_even_near(1) [of y] show ?thesis by linarith
  qed
qed

lemma powi_add: "(2 :: rat) powi (a + b) = 2 powi a * 2 powi b"
  by (simp add: power_int_add)

lemma round_pos_between:
  assumes "0 < x"
  shows "2 powi ilog2 x \<le> round_pos x" and "round_pos x \<le> 2 powi (ilog2 x + 1)"
proof -
  let ?k = "ilog2 x" and ?s = "2 powi (23 - ilog2 x) :: rat"
  have s: "0 < ?s" by simp
  have one: "2 powi ?k * ?s = of_int (2 ^ 23)" "2 powi (?k + 1) * ?s = of_int (2 ^ 24)"
    by (simp_all add: powi_add [symmetric])
  have "of_int (2 ^ 23) \<le> x * ?s" "x * ?s \<le> of_int (2 ^ 24)"
    using ilog2_bounds [OF assms] s one by (metis less_imp_le mult_right_mono)+
  from this [THEN round_even_mono] have "2 ^ 23 \<le> round_even (x * ?s)" "round_even (x * ?s) \<le> 2 ^ 24"
    by (simp_all only: round_even_int)
  then have "of_int (2 ^ 23) \<le> (of_int (round_even (x * ?s)) :: rat)"
    "(of_int (round_even (x * ?s)) :: rat) \<le> of_int (2 ^ 24)" by (simp_all only: of_int_le_iff)
  moreover have "0 \<le> (2 powi (?k - 23) :: rat)" by simp
  moreover have "of_int (2 ^ 23) * 2 powi (?k - 23) = (2 powi ?k :: rat)"
    "of_int (2 ^ 24) * 2 powi (?k - 23) = (2 powi (?k + 1) :: rat)"
    by (simp_all add: power_int_diff power_int_add)
  ultimately show "2 powi ?k \<le> round_pos x" "round_pos x \<le> 2 powi (?k + 1)"
    unfolding round_pos_def Let_def by (metis mult_right_mono)+
qed

lemma round_pos_mono:
  assumes "0 < x" and "x \<le> y"
  shows "round_pos x \<le> round_pos y"
proof -
  have y: "0 < y" using assms by simp
  consider "ilog2 x = ilog2 y" | "ilog2 x + 1 \<le> ilog2 y" | "ilog2 y + 1 \<le> ilog2 x" by linarith
  then show ?thesis
  proof cases
    case 1
    have "x * 2 powi (23 - ilog2 y) \<le> y * 2 powi (23 - ilog2 y)" using assms(2) by (simp add: mult_right_mono)
    then show ?thesis unfolding round_pos_def Let_def 1
      by (intro mult_right_mono) (simp_all add: round_even_mono)
  next
    case 2
    then have "(2 :: rat) powi (ilog2 x + 1) \<le> 2 powi ilog2 y" by (intro power_int_increasing) simp_all
    with round_pos_between(2) [OF assms(1)] round_pos_between(1) [OF y] show ?thesis by linarith
  next
    case 3
    then have "(2 :: rat) powi (ilog2 y + 1) \<le> 2 powi ilog2 x" by (intro power_int_increasing) simp_all
    with ilog2_bounds(1) [OF assms(1)] ilog2_bounds(2) [OF y] assms(2) show ?thesis by linarith
  qed
qed

lemma f32_nonneg: "0 \<le> x \<Longrightarrow> 0 \<le> f32 x"
  using order_trans [OF zero_le_power_int [of "2 :: rat" "ilog2 x"] round_pos_between(1) [of x]]
  by (cases "x = 0") (simp_all add: f32_def)

lemma f32_mono: "0 \<le> x \<Longrightarrow> x \<le> y \<Longrightarrow> f32 x \<le> f32 y"
  using f32_nonneg [of y] round_pos_mono [of x y] by (auto simp: f32_def)

text \<open>A number of at most 24 significant bits is represented exactly.\<close>

lemma f32_fix:
  assumes "m < 2 ^ 24"
  shows "f32 (of_nat m * 2 powi e) = of_nat m * 2 powi e"
proof (cases "m = 0")
  case False
  let ?x = "of_nat m * 2 powi e :: rat"
  have x: "0 < ?x" using False by simp
  let ?k = "ilog2 ?x"
  have "(of_nat m :: rat) < of_nat (2 ^ 24)" using assms by (simp only: of_nat_less_iff)
  then have "?x < 2 powi (24 + e)" by (simp add: power_int_add)
  with ilog2_bounds(1) [OF x] have "(2 :: rat) powi ?k < 2 powi (24 + e)" by linarith
  then have k: "?k < 24 + e" using power_int_increasing [of "24 + e" ?k "2 :: rat"] by force
  let ?d = "nat (23 - ?k + e)"
  have "?x * 2 powi (23 - ?k) = of_nat m * 2 powi (23 - ?k + e)" by (simp add: powi_add mult.assoc)
  also have "\<dots> = of_int (int m * 2 ^ ?d)" using k by (simp add: power_int_def)
  finally have i: "?x * 2 powi (23 - ?k) = of_int (int m * 2 ^ ?d)" .
  have "round_pos ?x = of_int (int m * 2 ^ ?d) * 2 powi (?k - 23)"
    unfolding round_pos_def Let_def i round_even_int ..
  also have "\<dots> = ?x * 2 powi (23 - ?k) * 2 powi (?k - 23)" by (simp only: i)
  also have "\<dots> = ?x" by (simp add: mult.assoc powi_add [symmetric])
  finally show ?thesis using x by (simp add: f32_def)
qed (simp add: f32_def)

lemma f32_nat: "m < 2 ^ 24 \<Longrightarrow> f32 (of_nat m) = of_nat m"
  using f32_fix [of m 0] by simp

lemma f32_half: "m < 2 ^ 24 \<Longrightarrow> f32 (of_nat m / 2) = of_nat m / 2"
  using f32_fix [of m "- 1"] by (simp add: power_int_def)

lemma f32_numeral [simp]: "(numeral n :: nat) < 2 ^ 24 \<Longrightarrow> f32 (numeral n) = numeral n"
  using f32_nat [of "numeral n"] by simp

lemma f32_0 [simp]: "f32 0 = 0" and f32_1 [simp]: "f32 1 = 1"
  using f32_nat [of 0] f32_nat [of 1] by simp_all

end
