(* ===== verification/Video_Qos.thy ===== *)
theory Video_Qos
  imports Float32 "HOL-Library.AList" "HOL-Library.Multiset"
begin

text \<open>
  The quality control of the video services, \<^verbatim>\<open>src/server/video_qos.rs\<close>: the round-trip estimate,
  the per-user delay, the adjustment of the frame rate and of the bitrate ratio.

  Instants and times are milliseconds and an argument of the operations that read the clock.  The
  hash maps are association lists in the order the iteration happens to have.  Arithmetic on \<^verbatim>\<open>u32\<close>
  wraps, as in a release build; \<open>None\<close> is the panic of a clamp whose bounds are crossed.
\<close>

subsection \<open>Quality (libs/scrap/src/common/codec.rs)\<close>

datatype quality = Best | Balanced | Low | Custom f32

definition BR_BEST :: f32 where "BR_BEST = f32 (3 / 2)"
definition BR_BALANCED :: f32 where "BR_BALANCED = f32 (67 / 100)"
definition BR_SPEED :: f32 where "BR_SPEED = f32 (1 / 2)"

fun quality_ratio :: "quality \<Rightarrow> f32" where
  "quality_ratio Best = BR_BEST"
| "quality_ratio Balanced = BR_BALANCED"
| "quality_ratio Low = BR_SPEED"
| "quality_ratio (Custom v) = v"

subsection \<open>Constants\<close>

definition FPS :: u32 where "FPS = 30"
definition MIN_FPS :: u32 where "MIN_FPS = 1"
definition MAX_FPS :: u32 where "MAX_FPS = 120"
definition INIT_FPS :: u32 where "INIT_FPS = 15"
definition BR_MAX :: f32 where "BR_MAX = f32 40"
definition BR_MIN :: f32 where "BR_MIN = f32 (1 / 5)"
definition BR_MIN_HIGH_RESOLUTION :: f32 where "BR_MIN_HIGH_RESOLUTION = f32 (1 / 10)"
definition MAX_BR_MULTIPLE :: f32 where "MAX_BR_MULTIPLE = f32 1"
definition HISTORY_DELAY_LEN :: nat where "HISTORY_DELAY_LEN = 2"
definition ADJUST_RATIO_INTERVAL :: nat where "ADJUST_RATIO_INTERVAL = 3"
definition DYNAMIC_SCREEN_THRESHOLD :: nat where "DYNAMIC_SCREEN_THRESHOLD = 2"
definition DELAY_THRESHOLD_150MS :: u32 where "DELAY_THRESHOLD_150MS = 150"

definition clamp :: "'a::linorder \<Rightarrow> 'a \<Rightarrow> 'a \<Rightarrow> 'a option" where
  "clamp x lo hi = (if lo \<le> hi then Some (if x < lo then lo else if hi < x then hi else x) else None)"

text \<open>\<^verbatim>\<open>Iterator::min\<close>, \<open>None\<close> of nothing.\<close>

fun min_of :: "'a::linorder list \<Rightarrow> 'a option" where
  "min_of [] = None"
| "min_of (x # xs) = (case min_of xs of None \<Rightarrow> Some x | Some m \<Rightarrow> Some (min x m))"

fun max_of :: "'a::linorder list \<Rightarrow> 'a option" where
  "max_of [] = None"
| "max_of (x # xs) = (case max_of xs of None \<Rightarrow> Some x | Some m \<Rightarrow> Some (max x m))"

subsection \<open>The round-trip estimate\<close>

record rtt_calculator =
  min_rtt :: "u32 option"
  window_min_rtt :: "u32 option"
  smoothed_rtt :: "u32 option"
  samples :: "u32 list"

definition rtt_new :: rtt_calculator where
  "rtt_new = \<lparr>min_rtt = None, window_min_rtt = None, smoothed_rtt = None, samples = []\<rparr>"

definition WINDOW_SAMPLES :: nat where "WINDOW_SAMPLES = 60"
definition MIN_SAMPLES :: nat where "MIN_SAMPLES = 10"
definition ALPHA :: f32 where "ALPHA = f32 (1 / 2)"

definition smooth :: "u32 \<Rightarrow> u32 \<Rightarrow> u32" where
  "smooth m w = u32_of_f (f_add (f_mul (f_sub 1 ALPHA) (f_of_u32 m)) (f_mul ALPHA (f_of_u32 w)))"

definition rtt_update :: "rtt_calculator \<Rightarrow> u32 \<Rightarrow> rtt_calculator" where
  "rtt_update c delay =
     (let m = (case min_rtt c of Some m \<Rightarrow> if delay < m then Some delay else Some m | None \<Rightarrow> Some delay);
          ss = (if WINDOW_SAMPLES \<le> length (samples c) then tl (samples c) else samples c) @ [delay];
          wm = min_of ss
      in \<lparr>min_rtt = m, window_min_rtt = wm,
          smoothed_rtt =
            (if WINDOW_SAMPLES \<le> length ss then
               (case (m, wm) of (Some m', Some w) \<Rightarrow> Some (smooth m' w) | _ \<Rightarrow> smoothed_rtt c)
             else smoothed_rtt c),
          samples = ss\<rparr>)"

definition get_rtt :: "rtt_calculator \<Rightarrow> u32 option" where
  "get_rtt c =
     (case smoothed_rtt c of
        Some r \<Rightarrow> Some r
      | None \<Rightarrow> if MIN_SAMPLES \<le> length (samples c) then min_rtt c else None)"

subsection \<open>The delay of a user\<close>

record user_delay =
  response_delayed :: bool
  delay_history :: "u32 list"
  delay_fps :: "u32 option"
  rtt_calc :: rtt_calculator
  quick_increase_fps_count :: nat
  increase_fps_count :: nat

definition user_delay_new :: user_delay where
  "user_delay_new = \<lparr>response_delayed = False, delay_history = [], delay_fps = None, rtt_calc = rtt_new,
     quick_increase_fps_count = 0, increase_fps_count = 0\<rparr>"

definition add_delay :: "user_delay \<Rightarrow> u32 \<Rightarrow> user_delay" where
  "add_delay u delay =
     u\<lparr>rtt_calc := rtt_update (rtt_calc u) delay,
       delay_history :=
         (if HISTORY_DELAY_LEN < length (delay_history u) then tl (delay_history u) else delay_history u)
           @ [delay]\<rparr>"

definition avg_delay :: "user_delay \<Rightarrow> u32" where
  "avg_delay u =
     (let len = length (delay_history u)
      in if 0 < len then
           (let avg = sum_list (delay_history u) div word_of_nat len
            in case get_rtt (rtt_calc u) of
                 Some rtt \<Rightarrow> if rtt < avg then avg - rtt else avg
               | None \<Rightarrow> avg)
         else DELAY_THRESHOLD_150MS)"

record user_data =
  auto_adjust_fps :: "u32 option"
  custom_fps :: "u32 option"
  user_quality :: "(int \<times> quality) option"
  delay :: user_delay
  recording :: bool

definition user_data_new :: user_data where
  "user_data_new = \<lparr>auto_adjust_fps = None, custom_fps = None, user_quality = None,
     delay = user_delay_new, recording = False\<rparr>"

record display_data =
  send_counter :: usize
  support_changing_quality :: bool

definition display_data_new :: display_data where
  "display_data_new = \<lparr>send_counter = 0, support_changing_quality = False\<rparr>"

subsection \<open>The controller\<close>

record video_qos =
  qos_fps :: u32
  qos_ratio :: f32
  users :: "(int \<times> user_data) list"
  displays :: "(string \<times> display_data) list"
  bitrate_store :: u32
  adjust_ratio_instant :: nat
  abr_config :: bool
  new_user_instant :: nat

definition qos_default :: "nat \<Rightarrow> video_qos" where
  "qos_default now = \<lparr>qos_fps = FPS, qos_ratio = BR_BALANCED, users = [], displays = [], bitrate_store = 0,
     adjust_ratio_instant = now, abr_config = True, new_user_instant = now\<rparr>"

definition fps :: "video_qos \<Rightarrow> u32" where
  "fps q = (if MIN_FPS \<le> qos_fps q \<and> qos_fps q \<le> MAX_FPS then qos_fps q else FPS)"

definition spf :: "video_qos \<Rightarrow> f32" where
  "spf q = f_div 1 (f_of_u32 (fps q))"

definition store_bitrate :: "video_qos \<Rightarrow> u32 \<Rightarrow> video_qos" where
  "store_bitrate q b = q\<lparr>bitrate_store := b\<rparr>"

definition ratio :: "video_qos \<Rightarrow> f32 \<times> video_qos" where
  "ratio q =
     (let q1 = (if qos_ratio q < BR_MIN_HIGH_RESOLUTION \<or> BR_MAX < qos_ratio q
                then q\<lparr>qos_ratio := BR_BALANCED\<rparr> else q)
      in (qos_ratio q1, q1))"

definition any_record :: "video_qos \<Rightarrow> bool" where
  "any_record q = (\<exists>(i, u) \<in> set (users q). recording u)"

definition set_support_changing_quality :: "video_qos \<Rightarrow> string \<Rightarrow> bool \<Rightarrow> video_qos" where
  "set_support_changing_quality q name support =
     q\<lparr>displays := AList.map_entry name (\<lambda>d. d\<lparr>support_changing_quality := support\<rparr>) (displays q)\<rparr>"

definition in_vbr_state :: "video_qos \<Rightarrow> bool" where
  "in_vbr_state q = (abr_config q \<and> (\<forall>(n, d) \<in> set (displays q). support_changing_quality d))"

definition user_fps :: "user_data \<Rightarrow> u32" where
  "user_fps u =
     (let f = (case custom_fps u of Some f \<Rightarrow> f | None \<Rightarrow> FPS)
      in case auto_adjust_fps u of
           Some a \<Rightarrow> if f = 0 \<or> a < f then a else f
         | None \<Rightarrow> f)"

definition highest_fps :: "video_qos \<Rightarrow> u32" where
  "highest_fps q =
     (let f = (case min_of (filter (\<lambda>f. MIN_FPS \<le> f) (map (user_fps \<circ> snd) (users q))) of
                 Some f \<Rightarrow> f | None \<Rightarrow> FPS)
      in max MIN_FPS (min MAX_FPS f))"

text \<open>\<^verbatim>\<open>max_by\<close> keeps the last of several greatest elements.\<close>

fun latest :: "(int \<times> quality) list \<Rightarrow> (int \<times> quality) option" where
  "latest [] = None"
| "latest (p # ps) =
     (case latest ps of None \<Rightarrow> Some p | Some r \<Rightarrow> Some (if fst r < fst p then p else r))"

definition latest_quality :: "video_qos \<Rightarrow> quality" where
  "latest_quality q =
     (case latest (List.map_filter (user_quality \<circ> snd) (users q)) of
        Some r \<Rightarrow> snd r | None \<Rightarrow> Balanced)"

definition adjust_fps :: "nat \<Rightarrow> video_qos \<Rightarrow> video_qos option" where
  "adjust_fps now q =
     (let f0 = (case min_of (map (\<lambda>(i, u). case delay_fps (delay u) of Some f \<Rightarrow> f | None \<Rightarrow> INIT_FPS) (users q)) of
                  Some f \<Rightarrow> f | None \<Rightarrow> INIT_FPS);
          f1 = (if (\<exists>(i, u) \<in> set (users q). response_delayed (delay u)) \<and> MIN_FPS + 1 < f0
                then MIN_FPS + 1 else f0);
          f2 = (if (now - new_user_instant q) div 1000 < 1 \<and> INIT_FPS < f1 then INIT_FPS else f1)
      in map_option (\<lambda>f. q\<lparr>qos_fps := f\<rparr>) (clamp f2 MIN_FPS (highest_fps q)))"

definition min_ratio :: "quality \<Rightarrow> f32 option \<Rightarrow> f32" where
  "min_ratio target ratio_1mbps =
     (let limit = (\<lambda>m. case ratio_1mbps of Some r \<Rightarrow> if r < m then r else m | None \<Rightarrow> m)
      in case target of
           Best \<Rightarrow> max (limit (f_div BR_BEST (f32 (5 / 2)))) BR_MIN
         | Balanced \<Rightarrow> max (limit (min (f_div BR_BALANCED (f32 2)) (f32 (2 / 5)))) BR_MIN_HIGH_RESOLUTION
         | Low \<Rightarrow> BR_MIN_HIGH_RESOLUTION
         | Custom _ \<Rightarrow> BR_MIN_HIGH_RESOLUTION)"

definition scaled_ratio :: "u32 \<Rightarrow> bool \<Rightarrow> f32 \<Rightarrow> f32" where
  "scaled_ratio max_delay dynamic_screen r =
     (if max_delay < 50 then if dynamic_screen then f_mul r (f32 (115 / 100)) else r
      else if max_delay < 100 then if dynamic_screen then f_mul r (f32 (11 / 10)) else r
      else if max_delay < DELAY_THRESHOLD_150MS then if dynamic_screen then f_mul r (f32 (105 / 100)) else r
      else if max_delay < 200 then f_mul r (f32 (95 / 100))
      else if max_delay < 300 then f_mul r (f32 (9 / 10))
      else if max_delay < 500 then f_mul r (f32 (85 / 100))
      else f_mul r (f32 (8 / 10)))"

definition adjust_ratio :: "nat \<Rightarrow> bool \<Rightarrow> video_qos \<Rightarrow> video_qos option" where
  "adjust_ratio now dynamic_screen q =
     (if \<not> in_vbr_state q then Some q
      else case max_of (map (\<lambda>(i, u). avg_delay (delay u)) (users q)) of
          None \<Rightarrow> Some q
        | Some max_delay \<Rightarrow>
            (let target = latest_quality q;
                 cur = qos_ratio q; br = bitrate_store q;
                 r1 = (if 0 < br then Some (max (f_div (f_mul cur (f32 1000)) (f_of_u32 br)) BR_MIN_HIGH_RESOLUTION)
                       else None);
                 r150 = (if 0 < br then Some (f_div (f_mul (f_of_u32 (br + 150)) cur) (f_of_u32 br)) else None);
                 mn = min_ratio target r1;
                 mx = f_mul (quality_ratio target) MAX_BR_MULTIPLE;
                 v = scaled_ratio max_delay dynamic_screen cur;
                 v' = (case r150 of
                         Some r \<Rightarrow> if r < v \<and> cur < r \<and> BR_SPEED \<le> cur then r else v
                       | None \<Rightarrow> v)
             in map_option (\<lambda>r. q\<lparr>qos_ratio := r, adjust_ratio_instant := now\<rparr>) (clamp v' mn mx)))"

subsection \<open>Events\<close>

definition on_connection_open :: "nat \<Rightarrow> string \<Rightarrow> int \<Rightarrow> video_qos \<Rightarrow> video_qos" where
  "on_connection_open now enable_abr i q =
     q\<lparr>users := AList.update i user_data_new (users q), abr_config := (enable_abr \<noteq> ''N''),
       new_user_instant := now\<rparr>"

definition on_connection_close :: "nat \<Rightarrow> int \<Rightarrow> video_qos \<Rightarrow> video_qos" where
  "on_connection_close now i q =
     (let q1 = q\<lparr>users := AList.delete i (users q)\<rparr> in if users q1 = [] then qos_default now else q1)"

definition with_user :: "int \<Rightarrow> (user_data \<Rightarrow> user_data) \<Rightarrow> video_qos \<Rightarrow> video_qos" where
  "with_user i f q = q\<lparr>users := AList.map_entry i f (users q)\<rparr>"

definition user_custom_fps :: "int \<Rightarrow> u32 \<Rightarrow> video_qos \<Rightarrow> video_qos" where
  "user_custom_fps i f q =
     (if f < MIN_FPS \<or> MAX_FPS < f then q else with_user i (\<lambda>u. u\<lparr>custom_fps := Some f\<rparr>) q)"

definition user_auto_adjust_fps :: "int \<Rightarrow> u32 \<Rightarrow> video_qos \<Rightarrow> video_qos" where
  "user_auto_adjust_fps i f q =
     (if f < MIN_FPS \<or> MAX_FPS < f then q else with_user i (\<lambda>u. u\<lparr>auto_adjust_fps := Some f\<rparr>) q)"

text \<open>The protocol's \<^verbatim>\<open>ImageQuality\<close>: Low is 2, Balanced 3 and Best 4.\<close>

definition convert_quality :: "int \<Rightarrow> quality" where
  "convert_quality v =
     (if v = 3 then Balanced else if v = 2 then Low else if v = 4 then Best
      else
        (let b = f_div (f32 (of_int (v div 256 mod 4096 * 2))) (f32 100)
         in Custom (if b < BR_MIN then BR_MIN else if BR_MAX < b then BR_MAX else b)))"

definition user_image_quality :: "int \<Rightarrow> int \<Rightarrow> int \<Rightarrow> video_qos \<Rightarrow> video_qos" where
  "user_image_quality time i v q =
     (if map_of (users q) i = None then q
      else
        (let q1 = with_user i (\<lambda>u. u\<lparr>user_quality := Some (time, convert_quality v)\<rparr>) q
         in q1\<lparr>qos_ratio := quality_ratio (latest_quality q1)\<rparr>))"

definition user_record :: "int \<Rightarrow> bool \<Rightarrow> video_qos \<Rightarrow> video_qos" where
  "user_record i v q = with_user i (\<lambda>u. u\<lparr>recording := v\<rparr>) q"

text \<open>The minimum and the normal frame rate for a target ratio.\<close>

definition fps_range :: "f32 \<Rightarrow> u32 \<times> u32" where
  "fps_range target = (if BR_BEST \<le> target then (8, 16) else if BR_BALANCED \<le> target then (10, 20) else (12, 24))"

definition devide_fps :: "u32 \<Rightarrow> u32 \<Rightarrow> u32" where
  "devide_fps f avg =
     u32_of_f (of_int \<lceil>f_div (f_of_u32 f) (f_div (f_of_u32 avg) (f_of_u32 DELAY_THRESHOLD_150MS))\<rceil>)"

text \<open>The frame rate and the quick-increase count after a delay, before the stable-sample rule.\<close>

definition delay_step :: "u32 \<Rightarrow> u32 \<Rightarrow> u32 \<Rightarrow> u32 \<Rightarrow> u32 \<Rightarrow> nat \<Rightarrow> u32 \<times> nat" where
  "delay_step min_fps normal_fps old_avg avg f quick =
     (let dividend_ms = DELAY_THRESHOLD_150MS * min_fps
      in if avg < 50 then
           (let quick1 = quick + 1;
                (step, quick2) = (if 3 \<le> quick1 then (5, 0) else (if f < normal_fps then 1 else 0, quick1))
            in (max min_fps (f + step), quick2))
         else if avg < 100 then
           (max min_fps (f + (if avg < old_avg \<and> f < normal_fps then 1 else 0)), quick)
         else if avg < DELAY_THRESHOLD_150MS then (max min_fps f, quick)
         else if avg < 200 then (max min_fps (devide_fps f avg), quick)
         else if avg < 300 then (min min_fps (devide_fps f avg), quick)
         else if avg < 600 then (dividend_ms div avg, quick)
         else (min (dividend_ms div avg) (devide_fps f avg), quick))"

definition delay_user :: "u32 \<Rightarrow> f32 \<Rightarrow> u32 \<Rightarrow> u32 \<Rightarrow> user_data \<Rightarrow> user_data option" where
  "delay_user highest target f d u =
     (let (min_fps, normal_fps) = fps_range target;
          d' = max d 10;
          old_avg = avg_delay (delay u);
          ud = add_delay (delay u) d';
          avg = max (avg_delay ud) 10;
          (f1, quick) = delay_step min_fps normal_fps old_avg avg f (quick_increase_fps_count ud);
          inc = (if avg < DELAY_THRESHOLD_150MS then increase_fps_count ud + 1 else 0);
          (f2, inc1) = (if 3 \<le> inc then (f1 + 1, 0) else (f1, inc));
          quick1 = (if 50 < avg then 0 else quick)
      in map_option
           (\<lambda>f3. u\<lparr>delay := ud\<lparr>delay_fps := Some f3, quick_increase_fps_count := quick1,
                                increase_fps_count := inc1\<rparr>\<rparr>)
           (clamp f2 MIN_FPS highest))"

definition user_network_delay :: "bool \<Rightarrow> nat \<Rightarrow> int \<Rightarrow> u32 \<Rightarrow> video_qos \<Rightarrow> video_qos option" where
  "user_network_delay linux now i d q =
     (case map_of (users q) i of
        None \<Rightarrow> adjust_fps now q
      | Some u \<Rightarrow>
          Option.bind (delay_user (highest_fps q) (quality_ratio (latest_quality q)) (qos_fps q) d u)
            (\<lambda>u'. Option.bind (adjust_fps now (with_user i (\<lambda>_. u') q))
              (\<lambda>q'. if delay_fps (delay u) = None \<and> \<not> linux then adjust_ratio now False q' else Some q')))"

definition user_delay_response_elapsed :: "nat \<Rightarrow> int \<Rightarrow> nat \<Rightarrow> video_qos \<Rightarrow> video_qos option" where
  "user_delay_response_elapsed now i elapsed q =
     (case map_of (users q) i of
        None \<Rightarrow> Some q
      | Some _ \<Rightarrow>
          (let late = 2000 < elapsed;
               q1 = with_user i (\<lambda>u. u\<lparr>delay := (let ud = (delay u)\<lparr>response_delayed := late\<rparr>
                 in if late then add_delay ud (word_of_nat elapsed) else ud)\<rparr>) q
           in if late then adjust_fps now q1 else Some q1))"

definition new_display :: "string \<Rightarrow> video_qos \<Rightarrow> video_qos" where
  "new_display name q = q\<lparr>displays := AList.update name display_data_new (displays q)\<rparr>"

definition remove_display :: "string \<Rightarrow> video_qos \<Rightarrow> video_qos" where
  "remove_display name q = q\<lparr>displays := AList.delete name (displays q)\<rparr>"

definition update_display_data :: "nat \<Rightarrow> string \<Rightarrow> usize \<Rightarrow> video_qos \<Rightarrow> video_qos option" where
  "update_display_data now name counter q =
     Option.bind
       (adjust_fps now
         (q\<lparr>displays := AList.map_entry name (\<lambda>d. d\<lparr>send_counter := send_counter d + counter\<rparr>) (displays q)\<rparr>))
       (\<lambda>q1.
          if in_vbr_state q1 then
            (if ADJUST_RATIO_INTERVAL \<le> (now - adjust_ratio_instant q1) div 1000 then
               (let dyn = (\<exists>(n, d) \<in> set (displays q1).
                      word_of_nat (ADJUST_RATIO_INTERVAL * DYNAMIC_SCREEN_THRESHOLD) \<le> send_counter d)
                in adjust_ratio now dyn
                     (q1\<lparr>displays := map (\<lambda>(n, d). (n, d\<lparr>send_counter := 0\<rparr>)) (displays q1)\<rparr>))
             else Some q1)
          else Some (q1\<lparr>qos_ratio := quality_ratio (latest_quality q1)\<rparr>))"

end
