(* ===== verification/Qos_Properties.thy ===== *)
theory Qos_Properties
  imports Video_Qos
begin

text \<open>
  What the quality control of \<open>Video_Qos\<close> guarantees: no sequence of events panics and all values stay
  in their ranges, the round-trip estimate is the stated function of the samples, and how the frame rate
  reacts to delays.
\<close>

subsection \<open>The constants\<close>

lemma f32_eighth [simp]: "f32 (1 / 8) = 1 / 8"
  using f32_fix [of 1 "- 3"] by (simp add: power_int_def power_divide)

lemma f32_three_halves [simp]: "f32 (3 / 2) = 3 / 2"
  using f32_half [of 3] by simp

lemma f32_one_half [simp]: "f32 (1 / 2) = 1 / 2"
  using f32_half [of 1] by simp

lemma ratio_constants [simp]: "BR_BEST = 3 / 2" "BR_SPEED = 1 / 2" "BR_MAX = 40" "MAX_BR_MULTIPLE = 1"
  by (simp_all add: BR_BEST_def BR_SPEED_def BR_MAX_def MAX_BR_MULTIPLE_def)

lemma ratio_bounds:
  "1 / 2 \<le> BR_BALANCED" "BR_BALANCED \<le> 1" "1 / 8 \<le> BR_MIN" "BR_MIN \<le> 1 / 2" "0 \<le> BR_MIN_HIGH_RESOLUTION"
  "BR_MIN_HIGH_RESOLUTION \<le> 1 / 8"
  using f32_mono [of "1 / 2" "67 / 100"] f32_mono [of "67 / 100" 1] f32_mono [of "1 / 8" "1 / 5"]
    f32_mono [of "1 / 5" "1 / 2"] f32_mono [of "1 / 10" "1 / 8"] f32_nonneg [of "1 / 10"]
  by (simp_all add: BR_BALANCED_def BR_MIN_def BR_MIN_HIGH_RESOLUTION_def)

definition quality_ok :: "quality \<Rightarrow> bool" where
  "quality_ok t = (case t of Custom v \<Rightarrow> BR_MIN \<le> v \<and> v \<le> BR_MAX | _ \<Rightarrow> True)"

lemma convert_quality_ok [simp]: "quality_ok (convert_quality v)"
  using ratio_bounds by (auto simp: convert_quality_def quality_ok_def Let_def)

lemma quality_ratio_bounds:
  assumes "quality_ok t"
  shows "BR_MIN_HIGH_RESOLUTION \<le> quality_ratio t" "quality_ratio t \<le> BR_MAX" "1 / 8 \<le> quality_ratio t"
  using assms ratio_bounds by (cases t; simp add: quality_ok_def)+

text \<open>The lower bound of the ratio never crosses the upper one, so that clamp does not panic.\<close>

lemma min_ratio_le:
  assumes "quality_ok t"
  shows "min_ratio t r \<le> f_mul (quality_ratio t) MAX_BR_MULTIPLE"
    and "BR_MIN_HIGH_RESOLUTION \<le> min_ratio t r"
    and "f_mul (quality_ratio t) MAX_BR_MULTIPLE \<le> BR_MAX"
proof -
  have five: "f32 (5 / 2) = 5 / 2" using f32_half [of 5] by simp
  have c: "f32 (f32 (67 / 100)) \<ge> 1 / 2" "f_div BR_BEST (f32 (5 / 2)) \<le> 3 / 2" "f32 (2 / 5) \<le> 1 / 2"
    using f32_mono [of "1 / 2" BR_BALANCED] ratio_bounds f32_mono [of "2 / 5" "1 / 2"]
      f32_mono [of "(3 / 2) / (5 / 2)" "3 / 2"]
    by (simp_all add: five f_div_def BR_BALANCED_def)
  have cu: "BR_MIN_HIGH_RESOLUTION \<le> f32 v" "f32 v \<le> 40" if "BR_MIN \<le> v" "v \<le> 40" for v
    using f32_mono [of "1 / 8" v] f32_mono [of v 40] that ratio_bounds by simp_all
  have b: "f32 BR_BALANCED \<le> 40"
    using f32_mono [of BR_BALANCED 1] ratio_bounds by simp
  have low: "BR_MIN_HIGH_RESOLUTION \<le> f32 (1 / 2)" "BR_MIN_HIGH_RESOLUTION \<le> 1 / 2" using ratio_bounds by simp_all
  show "min_ratio t r \<le> f_mul (quality_ratio t) MAX_BR_MULTIPLE"
    using assms c cu ratio_bounds low
    by (cases t) (auto simp: min_ratio_def f_mul_def quality_ok_def BR_BALANCED_def Let_def
        min_def max_def split: option.splits intro: order_trans)
  show "BR_MIN_HIGH_RESOLUTION \<le> min_ratio t r"
    using ratio_bounds by (cases t) (auto simp: min_ratio_def Let_def max_def)
  show "f_mul (quality_ratio t) MAX_BR_MULTIPLE \<le> BR_MAX"
    using assms cu b by (cases t) (auto simp: f_mul_def quality_ok_def)
qed

lemma clamp_some: "clamp x lo hi = Some y \<Longrightarrow> lo \<le> y \<and> y \<le> hi"
  by (auto simp: clamp_def split: if_splits)

lemma clamp_total: "lo \<le> hi \<Longrightarrow> \<exists>y. clamp x lo hi = Some y"
  by (simp add: clamp_def)

subsection \<open>The invariant\<close>

abbreviation in_fps :: "u32 \<Rightarrow> bool" where
  "in_fps f \<equiv> MIN_FPS \<le> f \<and> f \<le> MAX_FPS"

definition user_ok :: "user_data \<Rightarrow> bool" where
  "user_ok u \<longleftrightarrow>
     pred_option in_fps (custom_fps u) \<and> pred_option in_fps (auto_adjust_fps u) \<and>
     pred_option (quality_ok \<circ> snd) (user_quality u) \<and> pred_option in_fps (delay_fps (delay u)) \<and>
     length (delay_history (delay u)) \<le> 3 \<and> length (samples (rtt_calc (delay u))) \<le> 60 \<and>
     quick_increase_fps_count (delay u) < 3 \<and> increase_fps_count (delay u) < 3"

definition qos_ok :: "video_qos \<Rightarrow> bool" where
  "qos_ok q \<longleftrightarrow> in_fps (qos_fps q) \<and> BR_MIN_HIGH_RESOLUTION \<le> qos_ratio q \<and> qos_ratio q \<le> BR_MAX \<and>
     (\<forall>(i, u) \<in> set (users q). user_ok u)"

lemma highest_fps_range: "in_fps (highest_fps q)"
  by (simp add: highest_fps_def MIN_FPS_def MAX_FPS_def Let_def)

lemma latest_in: "latest ps = Some r \<Longrightarrow> r \<in> set ps"
  by (induction ps arbitrary: r) (auto split: option.splits if_splits)

lemma latest_quality_ok:
  assumes "\<forall>(i, u) \<in> set (users q). user_ok u"
  shows "quality_ok (latest_quality q)"
proof (cases "latest (List.map_filter (user_quality \<circ> snd) (users q))")
  case None
  then show ?thesis by (simp add: latest_quality_def quality_ok_def)
next
  case (Some r)
  then have "r \<in> set (List.map_filter (user_quality \<circ> snd) (users q))" by (rule latest_in)
  then obtain i u where "(i, u) \<in> set (users q)" "user_quality u = Some r"
    by (auto simp: map_filter_def)
  with assms Some show ?thesis by (fastforce simp: latest_quality_def user_ok_def)
qed

lemma adjust_fps_ok:
  assumes "qos_ok q"
  shows "\<exists>q'. adjust_fps now q = Some q' \<and> qos_ok q' \<and> users q' = users q \<and> displays q' = displays q \<and>
    qos_ratio q' = qos_ratio q \<and> qos_fps q' \<le> highest_fps q"
proof -
  have "\<exists>f. map_option (\<lambda>f. q\<lparr>qos_fps := f\<rparr>) (clamp v MIN_FPS (highest_fps q)) = Some (q\<lparr>qos_fps := f\<rparr>) \<and>
      MIN_FPS \<le> f \<and> f \<le> highest_fps q" for v
    using highest_fps_range [of q] clamp_total [of MIN_FPS "highest_fps q" v]
    by (auto dest: clamp_some)
  then obtain f where f: "adjust_fps now q = Some (q\<lparr>qos_fps := f\<rparr>)" "MIN_FPS \<le> f" "f \<le> highest_fps q"
    unfolding adjust_fps_def Let_def by blast
  with assms highest_fps_range [of q] show ?thesis
    by (auto simp: qos_ok_def intro: order_trans)
qed

lemma adjust_ratio_ok:
  assumes "qos_ok q"
  shows "\<exists>q'. adjust_ratio now dyn q = Some q' \<and> qos_ok q'"
proof -
  have t: "quality_ok (latest_quality q)" using assms by (intro latest_quality_ok) (simp add: qos_ok_def)
  have "\<exists>q'. map_option (\<lambda>r. q\<lparr>qos_ratio := r, adjust_ratio_instant := now\<rparr>)
      (clamp v (min_ratio (latest_quality q) r1) (f_mul (quality_ratio (latest_quality q)) MAX_BR_MULTIPLE)) = Some q' \<and>
      qos_ok q'" for v r1
  proof -
    obtain r where r: "clamp v (min_ratio (latest_quality q) r1)
        (f_mul (quality_ratio (latest_quality q)) MAX_BR_MULTIPLE) = Some r"
      using clamp_total [OF min_ratio_le(1) [OF t]] by blast
    from clamp_some [OF this] min_ratio_le(2,3) [OF t] have "BR_MIN_HIGH_RESOLUTION \<le> r" "r \<le> BR_MAX"
      by (meson order_trans)+
    with r assms show ?thesis by (simp add: qos_ok_def)
  qed
  with assms show ?thesis
    unfolding adjust_ratio_def Let_def by (auto split: option.split)
qed


lemma rtt_update_samples: "length (samples c) \<le> 60 \<Longrightarrow> length (samples (rtt_update c d)) \<le> 60"
  by (auto simp: rtt_update_def WINDOW_SAMPLES_def Let_def)

lemma add_delay_sizes:
  assumes "length (delay_history u) \<le> 3" and "length (samples (rtt_calc u)) \<le> 60"
  shows "length (delay_history (add_delay u d)) \<le> 3" and "length (samples (rtt_calc (add_delay u d))) \<le> 60"
  using assms rtt_update_samples by (auto simp: add_delay_def HISTORY_DELAY_LEN_def)

lemma add_delay_fields [simp]:
  "quick_increase_fps_count (add_delay u d) = quick_increase_fps_count u"
  "increase_fps_count (add_delay u d) = increase_fps_count u"
  "delay_fps (add_delay u d) = delay_fps u" "response_delayed (add_delay u d) = response_delayed u"
  by (simp_all add: add_delay_def)

lemma delay_step_quick:
  "quick < 3 \<Longrightarrow> snd (delay_step mn nm old avg f quick) < 3"
  by (simp add: delay_step_def Let_def)

lemma delay_user_ok:
  assumes "user_ok u" and h: "in_fps highest"
  shows "\<exists>u'. delay_user highest target f d u = Some u' \<and> user_ok u' \<and>
    (\<exists>f'. delay_fps (delay u') = Some f' \<and> f' \<le> highest)"
proof -
  obtain mn nm where r: "fps_range target = (mn, nm)" by (cases "fps_range target")
  let ?ud = "add_delay (delay u) (max d 10)" and ?avg = "max (avg_delay (add_delay (delay u) (max d 10))) 10"
  obtain f1 quick where st: "delay_step mn nm (avg_delay (delay u)) ?avg f (quick_increase_fps_count ?ud) = (f1, quick)"
    by (cases "delay_step mn nm (avg_delay (delay u)) ?avg f (quick_increase_fps_count ?ud)")
  have "quick < 3"
    using delay_step_quick [of "quick_increase_fps_count ?ud" mn nm "avg_delay (delay u)" ?avg f] st assms(1)
    by (simp add: user_ok_def)
  moreover obtain inc f2 where i: "(if 3 \<le> (if ?avg < DELAY_THRESHOLD_150MS then increase_fps_count ?ud + 1 else 0)
      then (f1 + 1, 0) else (f1, if ?avg < DELAY_THRESHOLD_150MS then increase_fps_count ?ud + 1 else 0)) = (f2, inc)"
    by (metis surj_pair)
  then have "inc < 3" by (auto split: if_splits)
  moreover obtain f3 where "clamp f2 MIN_FPS highest = Some f3" using clamp_total h by blast
  moreover from clamp_some [OF this] h have "in_fps f3" "f3 \<le> highest" by auto
  moreover have "delay_user highest target f d u =
      map_option (\<lambda>f3. u\<lparr>delay := ?ud\<lparr>delay_fps := Some f3, quick_increase_fps_count := if 50 < ?avg then 0 else quick,
        increase_fps_count := inc\<rparr>\<rparr>) (clamp f2 MIN_FPS highest)"
    by (simp only: delay_user_def Let_def r prod.case st i)
  ultimately show ?thesis
    using assms(1) add_delay_sizes [of "delay u" "max d 10"] by (simp add: user_ok_def)
qed

lemma map_entry_ok:
  "\<forall>(i, u) \<in> set us. P u \<Longrightarrow> (\<And>u. P u \<Longrightarrow> P (f u)) \<Longrightarrow> \<forall>(i, u) \<in> set (AList.map_entry k f us). P u"
  by (induction us) auto

lemma map_entry_const_ok:
  "\<forall>(i, u) \<in> set us. P u \<Longrightarrow> P u' \<Longrightarrow> \<forall>(i, u) \<in> set (AList.map_entry k (\<lambda>_. u') us). P u"
  by (induction us) auto

lemma with_user_ok:
  "qos_ok q \<Longrightarrow> (\<And>u. user_ok u \<Longrightarrow> user_ok (f u)) \<Longrightarrow> qos_ok (with_user i f q)"
  using map_entry_ok [of "users q" user_ok f i] by (simp add: qos_ok_def with_user_def)

lemma update_ok:
  "\<forall>(i, u) \<in> set us. P u \<Longrightarrow> P u' \<Longrightarrow> \<forall>(i, u) \<in> set (AList.update k u' us). P u"
  by (induction us) auto

lemma delete_ok: "\<forall>(i, u) \<in> set us. P u \<Longrightarrow> \<forall>(i, u) \<in> set (AList.delete k us). P u"
  by (induction us) auto

lemma qos_default_ok [simp]: "qos_ok (qos_default now)"
  using ratio_bounds by (simp add: qos_ok_def qos_default_def FPS_def MIN_FPS_def MAX_FPS_def)

lemma user_data_new_ok [simp]: "user_ok user_data_new"
  by (simp add: user_ok_def user_data_new_def user_delay_new_def rtt_new_def)

lemma qos_okE: "qos_ok q \<Longrightarrow> map_of (users q) i = Some u \<Longrightarrow> user_ok u"
  by (auto simp: qos_ok_def dest: map_of_SomeD)

lemma user_network_delay_ok:
  assumes "qos_ok q"
  shows "\<exists>q'. user_network_delay linux now i d q = Some q' \<and> qos_ok q'"
proof (cases "map_of (users q) i")
  case None
  with adjust_fps_ok [OF assms] show ?thesis by (auto simp: user_network_delay_def)
next
  case (Some u)
  from delay_user_ok [OF qos_okE [OF assms Some] highest_fps_range]
  obtain u' where u': "delay_user (highest_fps q) (quality_ratio (latest_quality q)) (qos_fps q) d u = Some u'"
    "user_ok u'" by blast
  then have "qos_ok (with_user i (\<lambda>_. u') q)" using assms with_user_ok by simp
  from adjust_fps_ok [OF this] obtain q1 where q1: "adjust_fps now (with_user i (\<lambda>_. u') q) = Some q1" "qos_ok q1"
    by blast
  with adjust_ratio_ok [OF q1(2)] Some u' show ?thesis by (simp add: user_network_delay_def)
qed

lemma user_delay_response_elapsed_ok:
  assumes "qos_ok q"
  shows "\<exists>q'. user_delay_response_elapsed now i elapsed q = Some q' \<and> qos_ok q'"
proof (cases "map_of (users q) i")
  case None
  with assms show ?thesis by (simp add: user_delay_response_elapsed_def)
next
  case (Some u)
  let ?q = "with_user i (\<lambda>u. u\<lparr>delay := (let ud = (delay u)\<lparr>response_delayed := 2000 < elapsed\<rparr>
    in if 2000 < elapsed then add_delay ud (word_of_nat elapsed) else ud)\<rparr>) q"
  have "qos_ok ?q"
    using assms
  proof (rule with_user_ok)
    fix u :: user_data assume "user_ok u"
    then show "user_ok (u\<lparr>delay := (let ud = (delay u)\<lparr>response_delayed := 2000 < elapsed\<rparr>
      in if 2000 < elapsed then add_delay ud (word_of_nat elapsed) else ud)\<rparr>)"
      using add_delay_sizes [of "(delay u)\<lparr>response_delayed := True\<rparr>" "word_of_nat elapsed"]
      by (simp add: user_ok_def Let_def)
  qed
  with adjust_fps_ok [OF this, of now] Some show ?thesis
    by (auto simp: user_delay_response_elapsed_def Let_def)
qed

lemma update_display_data_ok:
  assumes "qos_ok q"
  shows "\<exists>q'. update_display_data now name counter q = Some q' \<and> qos_ok q'"
proof -
  let ?q = "q\<lparr>displays := AList.map_entry name (\<lambda>d. d\<lparr>send_counter := send_counter d + counter\<rparr>) (displays q)\<rparr>"
  have "qos_ok ?q" using assms by (simp add: qos_ok_def)
  from adjust_fps_ok [OF this] obtain q1 where q1: "adjust_fps now ?q = Some q1" "qos_ok q1" by blast
  then have "qos_ok (q1\<lparr>displays := ds\<rparr>)" for ds by (simp add: qos_ok_def)
  moreover have "qos_ok (q1\<lparr>qos_ratio := quality_ratio (latest_quality q1)\<rparr>)"
    using q1(2) quality_ratio_bounds [OF latest_quality_ok [of q1]] by (simp add: qos_ok_def)
  ultimately show ?thesis
    using q1 adjust_ratio_ok by (simp add: update_display_data_def Let_def)
qed


subsection \<open>Every sequence of events\<close>

datatype qos_event =
    Open string int
  | Close int
  | CustomFps int u32
  | AutoFps int u32
  | ImageQuality int int
  | Record int bool
  | NetworkDelay int u32
  | ResponseElapsed int nat
  | NewDisplay string
  | RemoveDisplay string
  | UpdateDisplay string usize
  | SupportQuality string bool
  | StoreBitrate u32
  | AskRatio

fun qos_step :: "bool \<Rightarrow> nat \<Rightarrow> qos_event \<Rightarrow> video_qos \<Rightarrow> video_qos option" where
  "qos_step linux now (Open abr i) q = Some (on_connection_open now abr i q)"
| "qos_step linux now (Close i) q = Some (on_connection_close now i q)"
| "qos_step linux now (CustomFps i f) q = Some (user_custom_fps i f q)"
| "qos_step linux now (AutoFps i f) q = Some (user_auto_adjust_fps i f q)"
| "qos_step linux now (ImageQuality i v) q = Some (user_image_quality (int now) i v q)"
| "qos_step linux now (Record i v) q = Some (user_record i v q)"
| "qos_step linux now (NetworkDelay i d) q = user_network_delay linux now i d q"
| "qos_step linux now (ResponseElapsed i e) q = user_delay_response_elapsed now i e q"
| "qos_step linux now (NewDisplay n) q = Some (new_display n q)"
| "qos_step linux now (RemoveDisplay n) q = Some (remove_display n q)"
| "qos_step linux now (UpdateDisplay n c) q = update_display_data now n c q"
| "qos_step linux now (SupportQuality n b) q = Some (set_support_changing_quality q n b)"
| "qos_step linux now (StoreBitrate b) q = Some (store_bitrate q b)"
| "qos_step linux now AskRatio q = Some (snd (ratio q))"

fun qos_run :: "bool \<Rightarrow> (nat \<times> qos_event) list \<Rightarrow> video_qos \<Rightarrow> video_qos option" where
  "qos_run linux [] q = Some q"
| "qos_run linux ((now, e) # es) q = Option.bind (qos_step linux now e q) (qos_run linux es)"

lemma user_image_quality_ok:
  assumes "qos_ok q"
  shows "qos_ok (user_image_quality time i v q)"
proof -
  let ?q = "with_user i (\<lambda>u. u\<lparr>user_quality := Some (time, convert_quality v)\<rparr>) q"
  have ok: "qos_ok ?q" using assms by (rule with_user_ok) (simp add: user_ok_def)
  then have "quality_ok (latest_quality ?q)" by (intro latest_quality_ok) (simp add: qos_ok_def)
  with ok quality_ratio_bounds [OF this] assms show ?thesis
    by (simp add: user_image_quality_def Let_def qos_ok_def)
qed

lemma qos_step_ok:
  assumes "qos_ok q"
  shows "\<exists>q'. qos_step linux now e q = Some q' \<and> qos_ok q'"
proof (cases e)
  case (Open a i)
  with assms update_ok [of "users q" user_ok user_data_new i] show ?thesis
    by (simp add: qos_ok_def on_connection_open_def)
next
  case (Close i)
  with assms delete_ok [of "users q" user_ok i] show ?thesis
    by (simp add: on_connection_close_def Let_def) (simp add: qos_ok_def)
next
  case (CustomFps i f)
  have "in_fps f \<Longrightarrow> qos_ok (with_user i (\<lambda>u. u\<lparr>custom_fps := Some f\<rparr>) q)"
    using assms by (intro with_user_ok) (simp_all add: user_ok_def)
  with assms CustomFps show ?thesis by (simp add: user_custom_fps_def not_less)
next
  case (AutoFps i f)
  have "in_fps f \<Longrightarrow> qos_ok (with_user i (\<lambda>u. u\<lparr>auto_adjust_fps := Some f\<rparr>) q)"
    using assms by (intro with_user_ok) (simp_all add: user_ok_def)
  with assms AutoFps show ?thesis by (simp add: user_auto_adjust_fps_def not_less)
next
  case (Record i v)
  with assms show ?thesis
    using with_user_ok [of q "\<lambda>u. u\<lparr>recording := v\<rparr>" i] by (auto simp: user_record_def user_ok_def)
next
  case AskRatio
  with assms show ?thesis using ratio_bounds by (simp add: ratio_def Let_def qos_ok_def)
qed (use assms user_image_quality_ok user_network_delay_ok user_delay_response_elapsed_ok update_display_data_ok in
    \<open>simp_all add: qos_ok_def new_display_def remove_display_def set_support_changing_quality_def store_bitrate_def\<close>)

text \<open>
  C8. No sequence of events panics, and the values stay in their ranges: from the start, whatever
  connections, settings, delays and display events follow at whatever times, every step returns, the
  frame rate lies between 1 and 120, and the bitrate ratio between the lower limit for high resolutions
  and the maximum, so that the fallbacks of \<open>fps\<close> and \<open>ratio\<close> are never taken.
\<close>

theorem qos_never_panics:
  "\<exists>q. qos_run linux es (qos_default start) = Some q \<and> in_fps (qos_fps q) \<and> fps q = qos_fps q \<and>
    BR_MIN_HIGH_RESOLUTION \<le> qos_ratio q \<and> qos_ratio q \<le> BR_MAX \<and> ratio q = (qos_ratio q, q)"
proof -
  have "\<exists>q'. qos_run linux es q = Some q' \<and> qos_ok q'" if "qos_ok q" for q
    using that
  proof (induction es arbitrary: q)
    case (Cons e es)
    obtain now ev where e: "e = (now, ev)" by (cases e)
    from qos_step_ok [OF Cons.prems] obtain q1 where "qos_step linux now ev q = Some q1" "qos_ok q1" by blast
    with Cons.IH e show ?case by simp
  qed simp
  from this [OF qos_default_ok]
  obtain q where "qos_run linux es (qos_default start) = Some q" "qos_ok q" by blast
  then show ?thesis by (auto simp: qos_ok_def fps_def ratio_def Let_def)
qed


subsection \<open>The round-trip estimate\<close>

lemma f_of_u32_exact: "unat v < 2 ^ 24 \<Longrightarrow> f_of_u32 v = of_nat (unat v)"
  unfolding f_of_u32_def by (rule f32_nat)

lemma smooth_exact:
  assumes "unat m < 2 ^ 23" and "unat w < 2 ^ 23"
  shows "unat (smooth m w) = (unat m + unat w) div 2"
proof -
  have h: "f_mul (1 / 2) (f_of_u32 v) = of_nat (unat v) / 2" if "unat v < 2 ^ 23" for v
    using that f32_half [of "unat v"] by (simp add: f_of_u32_exact f_mul_def)
  have a: "ALPHA = 1 / 2" by (simp add: ALPHA_def)
  have s: "f_sub 1 (1 / 2) = 1 / 2" by (simp add: f_sub_def)
  have sum: "f_add (of_nat (unat m) / 2) (of_nat (unat w) / 2) = of_nat (unat m + unat w) / 2"
    using f32_half [of "unat m + unat w"] assms by (simp add: f_add_def add_divide_distrib)
  have sm: "smooth m w = u32_of_f (of_nat (unat m + unat w) / 2)"
    by (simp only: smooth_def a s h [OF assms(1)] h [OF assms(2)] sum)
  let ?k = "unat m + unat w"
  have fl: "\<lfloor>of_nat ?k / 2 :: rat\<rfloor> = int (?k div 2)"
    using floor_divide_of_nat_eq [of ?k 2] by simp
  have "(of_nat ?k :: rat) < of_nat (2 ^ 24)" using assms by (simp only: of_nat_less_iff) simp
  then have lt: "\<not> 2 ^ 32 - 1 \<le> (of_nat ?k / 2 :: rat)" by simp
  have "u32_of_f (of_nat ?k / 2) = word_of_nat (?k div 2)"
  proof (cases "?k = 0")
    case False
    then have "0 < (of_nat ?k :: rat)" by (simp only: of_nat_0_less_iff neq0_conv)
    then have pos: "\<not> (of_nat ?k / 2 :: rat) \<le> 0" by (simp only: not_le half_gt_zero)
    have "u32_of_f (of_nat ?k / 2) = word_of_int \<lfloor>of_nat ?k / 2 :: rat\<rfloor>"
      unfolding u32_of_f_def using pos lt by (simp only: if_False)
    then show ?thesis by (simp only: fl) simp
  qed (simp add: u32_of_f_def)
  moreover have "?k div 2 < 2 ^ 32" using assms by simp
  ultimately show ?thesis by (simp add: sm unat_of_nat)
qed

lemma min_of_Min: "min_of xs = (if xs = [] then None else Some (Min (set xs)))"
  by (induction xs) auto

lemma min_of_snoc:
  "min_of (xs @ [d]) = (case min_of xs of None \<Rightarrow> Some d | Some m \<Rightarrow> Some (min m d))"
  by (induction xs) (auto simp: min_def split: option.split)

lemma max_of_Max: "max_of xs = (if xs = [] then None else Some (Max (set xs)))"
  by (induction xs) auto

lemma rtt_state:
  "samples (foldl rtt_update rtt_new ds) = drop (length ds - 60) ds \<and>
   min_rtt (foldl rtt_update rtt_new ds) = min_of ds \<and>
   smoothed_rtt (foldl rtt_update rtt_new ds) =
     (if length ds < 60 then None else Some (smooth (Min (set ds)) (Min (set (drop (length ds - 60) ds)))))"
proof (induction ds rule: rev_induct)
  case (snoc d ds)
  let ?c = "foldl rtt_update rtt_new ds"
  have ss: "(if WINDOW_SAMPLES \<le> length (samples ?c) then tl (samples ?c) else samples ?c) @ [d]
      = drop (length (ds @ [d]) - 60) (ds @ [d])"
  proof (cases "60 \<le> length ds")
    case True
    then have "tl (drop (length ds - 60) ds) = drop (Suc (length ds - 60)) ds"
      by (simp add: drop_Suc tl_drop)
    moreover have "Suc (length ds - 60) = length (ds @ [d]) - 60" using True by simp
    ultimately show ?thesis using snoc True by (simp add: WINDOW_SAMPLES_def)
  qed (use snoc in \<open>simp add: WINDOW_SAMPLES_def\<close>)
  have m: "(case min_rtt ?c of Some m \<Rightarrow> if d < m then Some d else Some m | None \<Rightarrow> Some d) = min_of (ds @ [d])"
    using snoc by (auto simp: min_of_snoc min_def split: option.split)
  have len: "WINDOW_SAMPLES \<le> length (drop (length (ds @ [d]) - 60) (ds @ [d])) \<longleftrightarrow> 60 \<le> length (ds @ [d])"
    by (auto simp: WINDOW_SAMPLES_def)
  have ne: "drop (length (ds @ [d]) - 60) (ds @ [d]) \<noteq> []" by simp
  have "foldl rtt_update rtt_new (ds @ [d]) = rtt_update ?c d" by simp
  then show ?case
    unfolding rtt_update_def [of ?c d] Let_def ss m len
    using snoc ne by (simp add: min_of_Min del: drop_append)
qed (simp add: rtt_new_def)

text \<open>
  The round-trip estimate is what it says: with fewer than 10 samples there is none, with fewer than
  60 it is the least sample ever seen, and from then on the mean of that and the least of the last 60,
  rounded down; the floating-point arithmetic is exact for delays below \<open>2 ^ 23\<close> milliseconds.
\<close>

theorem rtt_estimate:
  assumes "\<forall>d \<in> set ds. unat d < 2 ^ 23"
  shows "map_option unat (get_rtt (foldl rtt_update rtt_new ds)) =
    (if length ds < 10 then None
     else if length ds < 60 then Some (unat (Min (set ds)))
     else Some ((unat (Min (set ds)) + unat (Min (set (drop (length ds - 60) ds)))) div 2))"
proof -
  have "unat (Min (set xs)) < 2 ^ 23" if "set xs \<subseteq> set ds" "xs \<noteq> []" for xs
    using assms that Min_in [of "set xs"] by (meson List.finite_set set_empty subsetD)
  then show ?thesis
    using rtt_state [of ds] set_drop_subset [of "length ds - 60" ds]
    by (auto simp: get_rtt_def min_of_Min MIN_SAMPLES_def smooth_exact)
qed

lemma rtt_estimate_witness:
  "map_option unat (get_rtt (foldl rtt_update rtt_new (7 # replicate 59 9 @ [9]))) = Some 8"
  by (subst rtt_estimate) simp_all


subsection \<open>How the frame rate reacts\<close>

lemma u32_of_f_le:
  assumes "x \<le> of_nat (unat f)"
  shows "u32_of_f x \<le> f"
proof (cases "x \<le> 0")
  case False
  have "unat f \<le> 2 ^ 32 - 1" using unsigned_less [of f, where ?'a = nat] by simp
  then have le: "(of_nat (unat f) :: rat) \<le> of_nat (2 ^ 32 - 1)" by (simp only: of_nat_le_iff)
  show ?thesis
  proof (cases "2 ^ 32 - 1 \<le> x")
    case True
    with assms le have "(of_nat (unat f) :: rat) = of_nat (2 ^ 32 - 1)" by simp
    then have "unat f = 2 ^ 32 - 1" by (simp only: of_nat_eq_iff)
    then have "unat f = unat (- 1 :: u32)" by (simp add: unsigned_minus_1_eq_mask mask_eq_exp_minus_1)
    then have "f = - 1" by (rule unsigned_word_eqI)
    then show ?thesis by simp
  next
    case nt: False
    have fl: "0 \<le> \<lfloor>x\<rfloor>" "\<lfloor>x\<rfloor> \<le> int (unat f)"
      using False assms by (simp_all add: floor_le_iff le_floor_iff)
    then have "nat \<lfloor>x\<rfloor> \<le> nat (int (unat f))" by (intro nat_mono)
    then have "nat \<lfloor>x\<rfloor> \<le> unat f" by (simp only: nat_int)
    moreover have "(word_of_int \<lfloor>x\<rfloor> :: u32) = word_of_nat (nat \<lfloor>x\<rfloor>)" using fl(1) by simp
    ultimately have "unat (word_of_int \<lfloor>x\<rfloor> :: u32) \<le> unat f"
      using unsigned_less [of f, where ?'a = nat] by (simp add: unat_of_nat)
    with False nt show ?thesis by (simp add: u32_of_f_def word_le_nat_alt)
  qed
qed (simp add: u32_of_f_def)

text \<open>A division by a delay of at least the threshold does not raise the frame rate.\<close>

lemma devide_fps_le:
  assumes "unat f < 2 ^ 24" and "DELAY_THRESHOLD_150MS \<le> avg"
  shows "devide_fps f avg \<le> f"
proof -
  have f: "f_of_u32 f = of_nat (unat f)" using assms(1) by (rule f_of_u32_exact)
  have th: "f_of_u32 DELAY_THRESHOLD_150MS = 150"
    by (simp add: DELAY_THRESHOLD_150MS_def f_of_u32_def)
  have "150 \<le> unat avg" using assms(2) by (simp add: DELAY_THRESHOLD_150MS_def word_le_nat_alt)
  then have "(of_nat 150 :: rat) \<le> of_nat (unat avg)" by (simp only: of_nat_le_iff)
  then have "150 \<le> f_of_u32 avg"
    using f32_mono [of 150 "of_nat (unat avg)"] by (simp add: f_of_u32_def)
  then have "1 \<le> f_of_u32 avg / 150" by simp
  then have g: "1 \<le> f_div (f_of_u32 avg) 150" using f32_mono [of 1 "f_of_u32 avg / 150"] by (simp add: f_div_def)
  let ?g = "f_div (f_of_u32 avg) 150"
  have n: "0 \<le> (of_nat (unat f) :: rat)" by (rule of_nat_0_le_iff)
  then have "of_nat (unat f) / ?g \<le> of_nat (unat f)"
    using g mult_left_mono [of 1 ?g "of_nat (unat f)"] by (simp add: divide_le_eq)
  moreover have "0 \<le> of_nat (unat f) / ?g" using g n by simp
  ultimately have "f_div (of_nat (unat f)) ?g \<le> of_nat (unat f)"
    using f32_mono [of "of_nat (unat f) / ?g" "of_nat (unat f)"] f32_nat [OF assms(1)]
    by (simp add: f_div_def)
  then have "\<lceil>f_div (of_nat (unat f)) ?g\<rceil> \<le> int (unat f)" by (simp add: ceiling_le_iff)
  then have "of_int \<lceil>f_div (of_nat (unat f)) ?g\<rceil> \<le> (of_nat (unat f) :: rat)"
    by (metis of_int_le_iff of_int_of_nat_eq)
  then show ?thesis unfolding devide_fps_def f th by (rule u32_of_f_le)
qed


lemma fps_range_cases: "fst (fps_range target) = 8 \<or> fst (fps_range target) = 10 \<or> fst (fps_range target) = 12"
  by (simp add: fps_range_def)

lemma fps_plus: "f \<le> MAX_FPS \<Longrightarrow> k \<le> 5 \<Longrightarrow> f + k \<le> 125" for f k :: u32
  by (simp add: MAX_FPS_def) unat_arith

lemma delay_step_low:
  assumes "avg < 200" and f: "in_fps f" and mn: "mn \<le> 12"
  shows "mn \<le> fst (delay_step mn nm old avg f quick)" and "fst (delay_step mn nm old avg f quick) \<le> 125"
proof -
  have f24: "unat f < 2 ^ 24" using f by (simp add: MAX_FPS_def word_le_nat_alt)
  have "devide_fps f avg \<le> 125" if "DELAY_THRESHOLD_150MS \<le> avg"
    using devide_fps_le [OF f24 that] fps_plus [of f 0] f by simp
  moreover have "f + 5 \<le> 125" "f + 1 \<le> 125" "f \<le> 125" using f fps_plus [of f 5] fps_plus [of f 1] fps_plus [of f 0]
    by simp_all
  moreover have "mn \<le> 125" using mn by (rule order_trans) simp
  ultimately show "mn \<le> fst (delay_step mn nm old avg f quick)" "fst (delay_step mn nm old avg f quick) \<le> 125"
    using assms(1) by (auto simp: delay_step_def Let_def)
qed

lemma delay_step_high:
  assumes "200 \<le> avg" and mn: "mn \<le> 12"
  shows "fst (delay_step mn nm old avg f quick) \<le> mn"
proof -
  have n: "unat mn \<le> 12" "200 \<le> unat avg" using assms by (simp_all add: word_le_nat_alt)
  have "unat (DELAY_THRESHOLD_150MS * mn) = 150 * unat mn"
    using n by (simp add: DELAY_THRESHOLD_150MS_def unat_word_ariths)
  then have "unat (DELAY_THRESHOLD_150MS * mn div avg) = 150 * unat mn div unat avg"
    by (simp add: unat_div_distrib)
  also have "\<dots> \<le> 150 * unat mn div 200" using n(2) by (intro div_le_mono2) simp_all
  also have "\<dots> \<le> unat mn" by simp
  finally have d: "DELAY_THRESHOLD_150MS * mn div avg \<le> mn" by (simp add: word_le_nat_alt)
  have lt: "\<not> avg < 50" "\<not> avg < 100" "\<not> avg < DELAY_THRESHOLD_150MS" "\<not> avg < 200"
    using n(2) by (simp_all add: word_less_nat_alt DELAY_THRESHOLD_150MS_def)
  show ?thesis using lt d by (auto simp: delay_step_def Let_def min_le_iff_disj)
qed

text \<open>
  C9. The reaction to a delay turns at 200 milliseconds, not at the 150 that the notes at the head of
  \<^verbatim>\<open>video_qos.rs\<close> and the name of the threshold give.  With an average delay below 200 the user's
  frame rate is at least the minimum for the image quality (or the highest allowed, when that is less),
  with 200 and more it is at most the minimum; it never exceeds the highest allowed.
\<close>

theorem delay_reaction:
  assumes "delay_user highest target f d u = Some u'" and "in_fps f"
    and "avg = max (avg_delay (add_delay (delay u) (max d 10))) 10"
  shows "\<exists>f'. delay_fps (delay u') = Some f' \<and> f' \<le> highest \<and>
    (avg < 200 \<longrightarrow> min (fst (fps_range target)) highest \<le> f') \<and>
    (200 \<le> avg \<longrightarrow> f' \<le> fst (fps_range target))"
proof -
  obtain mn nm where r: "fps_range target = (mn, nm)" by (cases "fps_range target")
  have mn: "mn \<le> 12" "1 \<le> mn" using fps_range_cases [of target] by (auto simp: r)
  let ?ud = "add_delay (delay u) (max d 10)"
  obtain f1 quick where st: "delay_step mn nm (avg_delay (delay u)) avg f (quick_increase_fps_count ?ud) = (f1, quick)"
    by (cases "delay_step mn nm (avg_delay (delay u)) avg f (quick_increase_fps_count ?ud)")
  define inc where "inc = (if avg < DELAY_THRESHOLD_150MS then increase_fps_count ?ud + 1 else 0)"
  obtain f2 inc1 where i: "(if 3 \<le> inc then (f1 + 1, 0) else (f1, inc)) = (f2, inc1)" by (metis surj_pair)
  have du: "delay_user highest target f d u =
      map_option (\<lambda>f3. u\<lparr>delay := ?ud\<lparr>delay_fps := Some f3, quick_increase_fps_count := if 50 < avg then 0 else quick,
        increase_fps_count := inc1\<rparr>\<rparr>) (clamp f2 MIN_FPS highest)"
    by (simp only: delay_user_def Let_def r prod.case st i assms(3) [symmetric] inc_def [symmetric])
  with assms(1) obtain f3 where f3: "clamp f2 MIN_FPS highest = Some f3" "delay_fps (delay u') = Some f3"
    by auto
  have "min mn highest \<le> f3" if "avg < 200"
  proof -
    note low = delay_step_low [OF that assms(2) mn(1), of nm "avg_delay (delay u)" "quick_increase_fps_count ?ud"]
    have "mn \<le> f1" "f1 \<le> 125" using low unfolding st by (simp_all only: fst_conv)
    then have "f1 \<le> f1 + 1" by (simp add: word_le_nat_alt unat_word_ariths)
    with \<open>mn \<le> f1\<close> i have "mn \<le> f2" by (auto split: if_splits)
    with f3(1) show ?thesis by (auto simp: clamp_def min_le_iff_disj split: if_splits)
  qed
  moreover have "f3 \<le> mn" if "200 \<le> avg"
  proof -
    have "DELAY_THRESHOLD_150MS \<le> avg" using that by (simp add: DELAY_THRESHOLD_150MS_def) unat_arith
    then have "inc = 0" by (simp add: inc_def not_less)
    then have "f2 = f1" using i by simp
    moreover have "f1 \<le> mn"
      using delay_step_high [OF that mn(1), of nm "avg_delay (delay u)" f "quick_increase_fps_count ?ud"]
      unfolding st by (simp only: fst_conv)
    ultimately have "f2 \<le> mn" by simp
    with f3(1) mn(2) show ?thesis by (auto simp: clamp_def MIN_FPS_def split: if_splits)
  qed
  ultimately show ?thesis using f3 clamp_some [OF f3(1)] by (simp add: r)
qed

lemma word_one_le_two: "(1 :: u32) \<le> 2"
  by simp

lemma min_of_le: "x \<in> set xs \<Longrightarrow> \<exists>m. min_of xs = Some m \<and> m \<le> x"
  by (auto simp: min_of_Min)

text \<open>
  The frame rate respects every limit.  After an adjustment it is at most what each user asked for,
  at most the rate of each user's connection, at most 2 when the answer of some user is overdue, and at
  most 15 within a second of a new connection.
\<close>

theorem adjust_fps_limits:
  assumes "qos_ok q" and "adjust_fps now q = Some q'" and "(i, u) \<in> set (users q)"
  shows "(\<forall>c. custom_fps u = Some c \<longrightarrow> qos_fps q' \<le> c) \<and>
    (\<forall>f. delay_fps (delay u) = Some f \<longrightarrow> qos_fps q' \<le> f) \<and>
    (response_delayed (delay u) \<longrightarrow> qos_fps q' \<le> 2) \<and>
    (now < new_user_instant q + 1000 \<longrightarrow> qos_fps q' \<le> 15)"
proof -
  have ok: "user_ok u" using assms(1,3) by (auto simp: qos_ok_def)
  let ?g = "\<lambda>(i :: int, u). case delay_fps (delay u) of Some f \<Rightarrow> f | None \<Rightarrow> INIT_FPS"
  have "?g (i, u) \<in> set (map ?g (users q))" using assms(3) by force
  from min_of_le [OF this] obtain f0 where f0: "min_of (map ?g (users q)) = Some f0" "f0 \<le> ?g (i, u)" by blast
  define f1 where "f1 = (if (\<exists>(i, u) \<in> set (users q). response_delayed (delay u)) \<and> MIN_FPS + 1 < f0
    then MIN_FPS + 1 else f0)"
  define f2 where "f2 = (if (now - new_user_instant q) div 1000 < 1 \<and> INIT_FPS < f1 then INIT_FPS else f1)"
  from assms(2) obtain f where f: "clamp f2 MIN_FPS (highest_fps q) = Some f" "qos_fps q' = f"
    unfolding adjust_fps_def Let_def f0(1) option.case f1_def [symmetric] f2_def [symmetric] by auto
  have f12: "f1 \<le> f0" "f2 \<le> f1" by (auto simp: f1_def f2_def)
  have fle: "f \<le> max 1 f2" using f(1) by (auto simp: clamp_def MIN_FPS_def max_def split: if_splits)
  have "f \<le> c" if "custom_fps u = Some c" for c
  proof -
    have c: "in_fps c" "\<forall>a. auto_adjust_fps u = Some a \<longrightarrow> in_fps a" using ok that by (auto simp: user_ok_def)
    have cz: "c \<noteq> 0" using c(1) by (auto simp: MIN_FPS_def)
    have uf: "MIN_FPS \<le> user_fps u" "user_fps u \<le> c"
      using c that cz by (auto simp: user_fps_def Let_def split: option.split)
    have "user_fps u \<in> set (filter (\<lambda>f. MIN_FPS \<le> f) (map (user_fps \<circ> snd) (users q)))"
      using assms(3) uf(1) by force
    from min_of_le [OF this] uf obtain m where
      "min_of (filter (\<lambda>f. MIN_FPS \<le> f) (map (user_fps \<circ> snd) (users q))) = Some m" "m \<le> c" by (meson order_trans)
    then have "highest_fps q \<le> c" using c(1) by (auto simp: highest_fps_def Let_def min_le_iff_disj)
    with clamp_some [OF f(1)] show ?thesis by auto
  qed
  moreover have "f \<le> g" if "delay_fps (delay u) = Some g" for g
  proof -
    have "1 \<le> g" "f0 \<le> g" using ok that f0(2) by (auto simp: user_ok_def MIN_FPS_def)
    with fle f12 show ?thesis by (meson max.bounded_iff order_trans)
  qed
  moreover have "f \<le> 2" if "response_delayed (delay u)"
  proof -
    have "f1 \<le> 2" using that assms(3) by (auto simp: f1_def MIN_FPS_def)
    with f12(2) have "max 1 f2 \<le> 2" by (meson max.boundedI order_trans word_one_le_two)
    with fle show ?thesis by (rule order_trans)
  qed
  moreover have "f \<le> 15" if "now < new_user_instant q + 1000"
  proof -
    have "f2 \<le> 15" using that by (auto simp: f2_def INIT_FPS_def)
    then have "max 1 f2 \<le> 15" by (intro max.boundedI) simp_all
    with fle show ?thesis by (rule order_trans)
  qed
  ultimately show ?thesis by (simp add: f(2))
qed


subsection \<open>The order of the hash maps\<close>

lemma latest_greatest:
  assumes "distinct (map fst ps)"
  shows "latest ps = Some r \<longleftrightarrow> r \<in> set ps \<and> (\<forall>p \<in> set ps. fst p \<le> fst r)"
  using assms
proof (induction ps arbitrary: r)
  case (Cons p ps)
  then have IH: "\<And>r. latest ps = Some r \<longleftrightarrow> r \<in> set ps \<and> (\<forall>p \<in> set ps. fst p \<le> fst r)"
    and new: "\<And>x. x \<in> set ps \<Longrightarrow> fst x \<noteq> fst p" by (auto simp: image_iff)
  show ?case
  proof (cases "latest ps")
    case None
    then have "ps = []" by (cases ps) (auto split: option.splits)
    then show ?thesis by auto
  next
    case (Some m)
    with IH [of m] have m: "m \<in> set ps" "\<forall>p \<in> set ps. fst p \<le> fst m" by simp_all
    from new [OF m(1)] consider "fst m < fst p" | "fst p < fst m" by linarith
    then show ?thesis
    proof cases
      case 1
      then have "fst x < fst p" if "x \<in> set ps" for x using m(2) that by fastforce
      with 1 Some show ?thesis by fastforce
    next
      case 2
      with Some IH [of r] m show ?thesis by auto
    qed
  qed
qed simp

lemma latest_order:
  assumes "mset ps = mset rs" and "distinct (map fst ps)"
  shows "latest ps = latest rs"
proof -
  have "distinct (map fst rs)" using assms by (metis mset_map mset_eq_imp_distinct_iff)
  moreover have "set ps = set rs" using assms(1) by (rule mset_eq_setD)
  ultimately have "latest ps = Some r \<longleftrightarrow> latest rs = Some r" for r
    using latest_greatest [OF assms(2)] latest_greatest [of rs] by simp
  then show ?thesis by (metis not_Some_eq)
qed

text \<open>
  The unspecified order of the user map does not matter.  When no two users set their image quality
  at the same time, the frame rate and the bitrate ratio that the adjustments compute are the same for
  every order of the users.
\<close>

theorem hash_order_irrelevant:
  assumes "mset us = mset (users q)" and "distinct (map fst (List.map_filter (user_quality \<circ> snd) (users q)))"
  shows "map_option qos_fps (adjust_fps now (q\<lparr>users := us\<rparr>)) = map_option qos_fps (adjust_fps now q) \<and>
    map_option qos_ratio (adjust_ratio now dyn (q\<lparr>users := us\<rparr>)) = map_option qos_ratio (adjust_ratio now dyn q)"
proof -
  let ?q = "q\<lparr>users := us\<rparr>"
  have s: "set us = set (users q)" using assms(1) by (rule mset_eq_setD)
  then have mins: "min_of (map f us) = min_of (map f (users q))" "max_of (map f us) = max_of (map f (users q))"
    for f :: "int \<times> user_data \<Rightarrow> u32"
    using assms(1) by (auto simp: min_of_Min max_of_Max)
  have "set (filter P (map f us)) = set (filter P (map f (users q)))" for P and f :: "int \<times> user_data \<Rightarrow> u32"
    using s by simp
  then have high: "highest_fps ?q = highest_fps q"
    by (simp only: highest_fps_def min_of_Min set_empty [symmetric]) simp
  have "mset (List.map_filter g us) = mset (List.map_filter g (users q))" for g :: "int \<times> user_data \<Rightarrow> (int \<times> quality) option"
    using assms(1) by (simp add: map_filter_def mset_map mset_filter)
  from latest_order [OF this [symmetric] assms(2)] have lat: "latest_quality ?q = latest_quality q"
    by (simp add: latest_quality_def)
  have "map_option qos_fps (adjust_fps now ?q) = map_option qos_fps (adjust_fps now q)"
    by (simp add: adjust_fps_def mins high s Let_def option.map_comp comp_def)
  moreover have "map_option qos_ratio (adjust_ratio now dyn ?q) = map_option qos_ratio (adjust_ratio now dyn q)"
    by (simp add: adjust_ratio_def in_vbr_state_def mins lat Let_def option.map_comp comp_def split: option.split)
  ultimately show ?thesis ..
qed

subsection \<open>Instances\<close>

lemma delay_reaction_witness:
  "\<exists>u'. delay_user 30 (3 / 2) 30 300 user_data_new = Some u' \<and>
    (\<exists>f'. delay_fps (delay u') = Some f' \<and> f' \<le> 30 \<and>
      ((300 :: u32) < 200 \<longrightarrow> min (fst (fps_range (3 / 2))) 30 \<le> f') \<and>
      ((200 :: u32) \<le> 300 \<longrightarrow> f' \<le> fst (fps_range (3 / 2))))"
proof -
  have "in_fps 30" by (simp add: MIN_FPS_def MAX_FPS_def)
  moreover from delay_user_ok [OF user_data_new_ok this] obtain u'
    where u': "delay_user 30 (3 / 2) 30 300 user_data_new = Some u'" by blast
  moreover have "300 = max (avg_delay (add_delay (delay user_data_new) (max 300 10))) 10"
    by (simp add: user_data_new_def user_delay_new_def add_delay_def avg_delay_def get_rtt_def rtt_update_def
        rtt_new_def MIN_SAMPLES_def WINDOW_SAMPLES_def HISTORY_DELAY_LEN_def Let_def)
  ultimately show ?thesis using delay_reaction [of 30 "3 / 2" 30 300 user_data_new u' 300] by blast
qed

definition slow_user :: user_data where
  "slow_user = user_data_new\<lparr>custom_fps := Some 20, delay := user_delay_new\<lparr>delay_fps := Some 25, response_delayed := True\<rparr>\<rparr>"

definition slow_qos :: video_qos where
  "slow_qos = (qos_default 0)\<lparr>users := [(1, slow_user)]\<rparr>"

lemma slow_adjusted: "adjust_fps 500 slow_qos = Some (slow_qos\<lparr>qos_fps := 2\<rparr>)"
  by (simp add: adjust_fps_def slow_qos_def slow_user_def user_data_new_def user_delay_new_def qos_default_def
      highest_fps_def user_fps_def clamp_def MIN_FPS_def MAX_FPS_def INIT_FPS_def Let_def)

lemma slow_qos_ok: "qos_ok slow_qos"
proof -
  have "qos_ok (qos_default 0)" by simp
  then show ?thesis
    by (simp add: qos_ok_def slow_qos_def slow_user_def user_ok_def user_data_new_def user_delay_new_def rtt_new_def
        MIN_FPS_def MAX_FPS_def)
qed

lemma adjust_fps_limits_witness:
  "qos_fps (slow_qos\<lparr>qos_fps := 2\<rparr>) \<le> 20 \<and> qos_fps (slow_qos\<lparr>qos_fps := 2\<rparr>) \<le> 25 \<and>
    qos_fps (slow_qos\<lparr>qos_fps := 2\<rparr>) \<le> 2 \<and> qos_fps (slow_qos\<lparr>qos_fps := 2\<rparr>) \<le> 15"
proof -
  have mem: "(1, slow_user) \<in> set (users slow_qos)" by (simp add: slow_qos_def)
  show ?thesis
    using adjust_fps_limits [OF slow_qos_ok slow_adjusted mem]
    by (simp add: slow_user_def slow_qos_def qos_default_def user_data_new_def user_delay_new_def)
qed

definition other_user :: user_data where
  "other_user = user_data_new\<lparr>user_quality := Some (5, Best)\<rparr>"

lemma hash_order_irrelevant_witness:
  "map_option qos_fps (adjust_fps 9 (slow_qos\<lparr>users := [(2, other_user), (1, slow_user)]\<rparr>)) =
     map_option qos_fps (adjust_fps 9 (slow_qos\<lparr>users := [(1, slow_user), (2, other_user)]\<rparr>)) \<and>
   map_option qos_ratio (adjust_ratio 9 True (slow_qos\<lparr>users := [(2, other_user), (1, slow_user)]\<rparr>)) =
     map_option qos_ratio (adjust_ratio 9 True (slow_qos\<lparr>users := [(1, slow_user), (2, other_user)]\<rparr>))"
  using hash_order_irrelevant [of "[(2, other_user), (1, slow_user)]" "slow_qos\<lparr>users := [(1, slow_user), (2, other_user)]\<rparr>"]
  by (simp add: map_filter_def add_mset_commute slow_user_def user_data_new_def)

end
