(* ===== verification/Service_Hub.thy ===== *)
theory Service_Hub
  imports Prelude
begin

text \<open>
  The hub of a service, \<^verbatim>\<open>src/server/service.rs\<close>: its subscribers, the snapshot for new ones, the
  sending of messages, its options, and the two loops \<^verbatim>\<open>repeat\<close> and \<^verbatim>\<open>run\<close> of its thread.

  The two hash maps from connection ids to subscribers are lists of ids in the order of their iteration;
  sending is the list of deliveries \<open>(id, message)\<close>.  Each operation holds the lock of the hub for its
  whole duration, except the snapshot, which is two operations: sends to the new subscribers, and the
  drop of the \<^verbatim>\<open>ServiceSwap\<close>.
\<close>

subsection \<open>The state\<close>

record service =
  svc_name :: string
  subscribes :: "int list"
  new_subscribes :: "int list"
  svc_active :: bool
  need_snapshot :: bool
  svc_options :: "string \<Rightarrow> string option"

type_synonym 'm deliveries = "(int \<times> 'm) list"

definition HIBERNATE_TIMEOUT :: nat where "HIBERNATE_TIMEOUT = 30"
definition MAX_ERROR_TIMEOUT :: nat where "MAX_ERROR_TIMEOUT = 1000"

definition service_new :: "string \<Rightarrow> bool \<Rightarrow> service" where
  "service_new name snap =
     \<lparr>svc_name = name, subscribes = [], new_subscribes = [], svc_active = True, need_snapshot = snap,
      svc_options = Map.empty\<rparr>"

definition add_id :: "int \<Rightarrow> int list \<Rightarrow> int list" where
  "add_id i ids = (if i \<in> set ids then ids else ids @ [i])"

definition send_new_subscribes :: "service \<Rightarrow> 'm \<Rightarrow> 'm deliveries" where
  "send_new_subscribes s m = map (\<lambda>i. (i, m)) (new_subscribes s)"

definition swap_new_subscribes :: "service \<Rightarrow> service" where
  "swap_new_subscribes s = s\<lparr>subscribes := fold add_id (new_subscribes s) (subscribes s), new_subscribes := []\<rparr>"

definition has_subscribes :: "service \<Rightarrow> bool" where
  "has_subscribes s = (subscribes s \<noteq> [] \<or> new_subscribes s \<noteq> [])"

definition is_subed :: "service \<Rightarrow> int \<Rightarrow> bool" where
  "is_subed s i = (i \<in> set (subscribes s) \<or> i \<in> set (new_subscribes s))"

definition on_subscribe :: "service \<Rightarrow> int \<Rightarrow> service" where
  "on_subscribe s i =
     (if i \<in> set (subscribes s) then s
      else if need_snapshot s then s\<lparr>new_subscribes := add_id i (new_subscribes s)\<rparr>
      else s\<lparr>subscribes := add_id i (subscribes s)\<rparr>)"

definition on_unsubscribe :: "service \<Rightarrow> int \<Rightarrow> service" where
  "on_unsubscribe s i =
     (if i \<in> set (subscribes s) then s\<lparr>subscribes := removeAll i (subscribes s)\<rparr>
      else s\<lparr>new_subscribes := removeAll i (new_subscribes s)\<rparr>)"

definition svc_join :: "service \<Rightarrow> service" where
  "svc_join s = s\<lparr>svc_active := False\<rparr>"

definition get_option :: "service \<Rightarrow> string \<Rightarrow> string option" where
  "get_option s opt = svc_options s opt"

definition set_option :: "service \<Rightarrow> string \<Rightarrow> string \<Rightarrow> string option \<times> service" where
  "set_option s opt v = (svc_options s opt, s\<lparr>svc_options := (svc_options s)(opt \<mapsto> v)\<rparr>)"

definition is_option_true :: "service \<Rightarrow> string \<Rightarrow> bool" where
  "is_option_true s opt = (case get_option s opt of Some v \<Rightarrow> v = ''1'' | None \<Rightarrow> False)"

definition set_option_bool :: "service \<Rightarrow> string \<Rightarrow> bool \<Rightarrow> service" where
  "set_option_bool s opt v = snd (set_option s opt (if v then ''1'' else ''0''))"

definition svc_ok :: "service \<Rightarrow> bool" where
  "svc_ok s = (svc_active s \<and> has_subscribes s)"

text \<open>The callback of a snapshot yields its messages to the new subscribers and a result.\<close>

definition snapshot :: "(service \<Rightarrow> 'm list \<times> (string + unit)) \<Rightarrow> service
    \<Rightarrow> 'm deliveries \<times> (string + unit) \<times> service" where
  "snapshot callback s =
     (if new_subscribes s \<noteq> [] then
        (case callback s of
           (ms, res) \<Rightarrow> (concat (map (send_new_subscribes s) ms), res, swap_new_subscribes s))
      else ([], Inr (), s))"

definition send_shared :: "service \<Rightarrow> 'm \<Rightarrow> 'm deliveries" where
  "send_shared s m = map (\<lambda>i. (i, m)) (subscribes s)"

definition send_to :: "service \<Rightarrow> 'm \<Rightarrow> int \<Rightarrow> 'm deliveries" where
  "send_to s m i = (if i \<in> set (subscribes s) then [(i, m)] else [])"

definition send_to_others :: "service \<Rightarrow> 'm \<Rightarrow> int \<Rightarrow> 'm deliveries" where
  "send_to_others s m i = map (\<lambda>j. (j, m)) (filter (\<lambda>j. j \<noteq> i) (subscribes s))"

definition send_video_frame_shared :: "service \<Rightarrow> 'm \<Rightarrow> 'm deliveries \<times> int set" where
  "send_video_frame_shared s m = (map (\<lambda>i. (i, m)) (subscribes s), set (subscribes s))"

definition send_without :: "service \<Rightarrow> 'm \<Rightarrow> int \<Rightarrow> 'm deliveries" where
  "send_without s m i = map (\<lambda>j. (j, m)) (filter (\<lambda>j. i \<noteq> j) (subscribes s))"

subsection \<open>The operations as steps\<close>

datatype 'm hub_op =
    Subscribe int
  | Unsubscribe int
  | Send 'm
  | SendTo 'm int
  | SendOthers 'm int
  | SendWithout 'm int
  | SnapSend 'm
  | SnapDrop

fun hub_step :: "service \<Rightarrow> 'm hub_op \<Rightarrow> 'm deliveries \<times> service" where
  "hub_step s (Subscribe i) = ([], on_subscribe s i)"
| "hub_step s (Unsubscribe i) = ([], on_unsubscribe s i)"
| "hub_step s (Send m) = (send_shared s m, s)"
| "hub_step s (SendTo m i) = (send_to s m i, s)"
| "hub_step s (SendOthers m i) = (send_to_others s m i, s)"
| "hub_step s (SendWithout m i) = (send_without s m i, s)"
| "hub_step s (SnapSend m) = (send_new_subscribes s m, s)"
| "hub_step s SnapDrop = ([], swap_new_subscribes s)"

fun hub_run :: "service \<Rightarrow> 'm hub_op list \<Rightarrow> 'm deliveries \<times> service" where
  "hub_run s [] = ([], s)"
| "hub_run s (x # xs) = (case hub_step s x of (ds, s1) \<Rightarrow> (case hub_run s1 xs of (es, s2) \<Rightarrow> (ds @ es, s2)))"

subsection \<open>The service threads\<close>

text \<open>
  One turn of \<^verbatim>\<open>repeat\<close>: whether there are subscribers, and whether the callback fails, come from outside;
  the result is the calls made on the state, with the flag \<^verbatim>\<open>may_reset\<close>, and the sleep before the next turn.
\<close>

datatype svc_call = InitCall | Callback | ResetCall | Sleep nat

definition repeat_turn :: "nat \<Rightarrow> bool \<Rightarrow> bool \<Rightarrow> nat \<Rightarrow> bool \<Rightarrow> svc_call list \<times> bool" where
  "repeat_turn interval subs failed elapsed may_reset =
     (let (calls, flag) =
        (if subs then
           ((if may_reset then [] else [InitCall]) @ [Callback] @ (if failed then [Sleep MAX_ERROR_TIMEOUT] else []), True)
         else if may_reset then ([ResetCall], False)
         else ([], may_reset))
      in (calls @ (if elapsed < interval then [Sleep (interval - elapsed)] else []), flag))"

fun repeat_turns :: "nat \<Rightarrow> (bool \<times> bool \<times> nat) list \<Rightarrow> bool \<Rightarrow> svc_call list" where
  "repeat_turns interval [] flag = []"
| "repeat_turns interval ((subs, failed, elapsed) # ts) flag =
     (case repeat_turn interval subs failed elapsed flag of
        (calls, flag') \<Rightarrow> calls @ repeat_turns interval ts flag')"

text \<open>
  One turn of \<^verbatim>\<open>run\<close> with subscribers: \<open>None\<close> is a callback that succeeds, \<open>Some t\<close> one that fails after
  \<open>t\<close> milliseconds.  The result is the sleep of the error and the timeout kept.
\<close>

definition run_turn :: "nat option \<Rightarrow> nat \<Rightarrow> nat option \<times> nat" where
  "run_turn failed error_timeout =
     (case failed of
        None \<Rightarrow> (None, error_timeout)
      | Some t \<Rightarrow>
          (let e1 = (if MAX_ERROR_TIMEOUT < t then HIBERNATE_TIMEOUT else error_timeout * 2);
               e2 = (if MAX_ERROR_TIMEOUT < e1 then MAX_ERROR_TIMEOUT else e1)
           in (Some e2, e2)))"

fun run_turns :: "nat option list \<Rightarrow> nat \<Rightarrow> nat option list" where
  "run_turns [] e = []"
| "run_turns (f # fs) e = (case run_turn f e of (w, e') \<Rightarrow> w # run_turns fs e')"

subsection \<open>The invariant of the two maps\<close>

definition hub_ok :: "service \<Rightarrow> bool" where
  "hub_ok s \<longleftrightarrow> distinct (subscribes s) \<and> distinct (new_subscribes s) \<and>
     set (subscribes s) \<inter> set (new_subscribes s) = {} \<and> (need_snapshot s \<or> new_subscribes s = [])"

lemma add_id_simps [simp]: "set (add_id i ids) = insert i (set ids)" "distinct ids \<Longrightarrow> distinct (add_id i ids)"
  by (auto simp: add_id_def)

lemma fold_add_id [simp]:
  "set (fold add_id xs ids) = set xs \<union> set ids" "distinct ids \<Longrightarrow> distinct (fold add_id xs ids)"
  by (induction xs arbitrary: ids) auto

lemma service_new_ok [simp]: "hub_ok (service_new name snap)"
  by (simp add: hub_ok_def service_new_def)

lemma hub_step_ok: "hub_ok s \<Longrightarrow> hub_ok (snd (hub_step s x))"
  by (cases x)
    (auto simp: hub_ok_def on_subscribe_def on_unsubscribe_def swap_new_subscribes_def distinct_removeAll)

lemma hub_run_ok: "hub_ok s \<Longrightarrow> hub_ok (snd (hub_run s xs))"
proof (induction xs arbitrary: s)
  case (Cons x xs)
  from Cons.IH [OF hub_step_ok [OF Cons.prems, of x]] show ?case by (auto split: prod.splits)
qed simp

text \<open>
  Unsubscribing is complete.  After any operations on a new hub a connection that unsubscribes is in
  neither map, although the code looks into the map of new subscribers only when the other one does not
  know the connection, and a connection that subscribes is in exactly one of them.
\<close>

theorem unsubscribe_complete:
  assumes "s = snd (hub_run (service_new name snap) xs)"
  shows "\<not> is_subed (on_unsubscribe s i) i \<and>
    (i \<in> set (subscribes (on_subscribe s i))) \<noteq> (i \<in> set (new_subscribes (on_subscribe s i)))"
proof -
  have "hub_ok s" by (simp add: assms hub_run_ok)
  then show ?thesis by (auto simp: hub_ok_def is_subed_def on_unsubscribe_def on_subscribe_def)
qed

lemma unsubscribe_complete_witness:
  "\<not> is_subed (on_unsubscribe (snd (hub_run (service_new ''x'' True) [Subscribe 1, Send (), SnapDrop])) 1) 1 \<and>
    (1 \<in> set (subscribes (on_subscribe (snd (hub_run (service_new ''x'' True) [Subscribe 1, Send (), SnapDrop])) 1))) \<noteq>
    (1 \<in> set (new_subscribes (on_subscribe (snd (hub_run (service_new ''x'' True) [Subscribe 1, Send (), SnapDrop])) 1)))"
  by (rule unsubscribe_complete [OF refl])

subsection \<open>What one connection sees\<close>

text \<open>
  The contract of the hub towards one connection: it is absent, waits for its snapshot, or has joined;
  waiting it gets the snapshot's messages, joined the messages sent to it.
\<close>

datatype client = Absent | Waiting | Joined

fun client_step :: "bool \<Rightarrow> int \<Rightarrow> client \<Rightarrow> 'm hub_op \<Rightarrow> 'm list \<times> client" where
  "client_step snap i c (Subscribe j) =
     ([], if j = i \<and> c = Absent then if snap then Waiting else Joined else c)"
| "client_step snap i c (Unsubscribe j) = ([], if j = i then Absent else c)"
| "client_step snap i c (Send m) = (if c = Joined then [m] else [], c)"
| "client_step snap i c (SendTo m j) = (if c = Joined \<and> j = i then [m] else [], c)"
| "client_step snap i c (SendOthers m j) = (if c = Joined \<and> j \<noteq> i then [m] else [], c)"
| "client_step snap i c (SendWithout m j) = (if c = Joined \<and> j \<noteq> i then [m] else [], c)"
| "client_step snap i c (SnapSend m) = (if c = Waiting then [m] else [], c)"
| "client_step snap i c SnapDrop = ([], if c = Waiting then Joined else c)"

fun client_run :: "bool \<Rightarrow> int \<Rightarrow> client \<Rightarrow> 'm hub_op list \<Rightarrow> 'm list \<times> client" where
  "client_run snap i c [] = ([], c)"
| "client_run snap i c (x # xs) =
     (case client_step snap i c x of (ms, c1) \<Rightarrow> (case client_run snap i c1 xs of (ns, c2) \<Rightarrow> (ms @ ns, c2)))"

definition mailbox :: "int \<Rightarrow> 'm deliveries \<Rightarrow> 'm list" where
  "mailbox i ds = map snd (filter (\<lambda>(j, m). j = i) ds)"

definition view :: "service \<Rightarrow> int \<Rightarrow> client" where
  "view s i = (if i \<in> set (subscribes s) then Joined else if i \<in> set (new_subscribes s) then Waiting else Absent)"

lemma mailbox_append [simp]: "mailbox i (ds @ es) = mailbox i ds @ mailbox i es"
  by (simp add: mailbox_def)

lemma mailbox_map:
  "distinct ids \<Longrightarrow> mailbox i (map (\<lambda>j. (j, m)) ids) = (if i \<in> set ids then [m] else [])"
  by (induction ids) (auto simp: mailbox_def)

lemma mailbox_filter:
  "distinct ids \<Longrightarrow> mailbox i (map (\<lambda>j. (j, m)) (filter P ids)) = (if i \<in> set ids \<and> P i then [m] else [])"
  using mailbox_map [of "filter P ids" i m] by simp

lemma hub_step_view:
  assumes "hub_ok s"
  shows "client_step (need_snapshot s) i (view s i) x = (mailbox i (fst (hub_step s x)), view (snd (hub_step s x)) i)"
  using assms
  by (cases x)
    (auto simp: hub_ok_def view_def on_subscribe_def on_unsubscribe_def swap_new_subscribes_def send_shared_def
      send_to_def send_to_others_def send_without_def send_new_subscribes_def mailbox_map mailbox_filter
      mailbox_def [of _ "[]"] mailbox_def [of _ "[_]"])

lemma need_snapshot_step [simp]: "need_snapshot (snd (hub_step s x)) = need_snapshot s"
  by (cases x) (simp_all add: on_subscribe_def on_unsubscribe_def swap_new_subscribes_def)

lemma hub_run_view:
  "hub_ok s \<Longrightarrow> client_run (need_snapshot s) i (view s i) xs = (mailbox i (fst (hub_run s xs)), view (snd (hub_run s xs)) i)"
proof (induction xs arbitrary: s)
  case Nil
  then show ?case by (simp add: mailbox_def)
next
  case (Cons x xs)
  obtain ds s1 where st: "hub_step s x = (ds, s1)" by (cases "hub_step s x")
  with hub_step_ok [OF Cons.prems, of x] hub_step_view [OF Cons.prems, of i x] need_snapshot_step [of s x]
  have "hub_ok s1" "client_step (need_snapshot s) i (view s i) x = (mailbox i ds, view s1 i)"
    "need_snapshot s1 = need_snapshot s" by simp_all
  with Cons.IH [of s1] st show ?case by (simp split: prod.split)
qed

lemma absent_client:
  "Subscribe i \<notin> set xs \<Longrightarrow> client_run snap i Absent xs = ([], Absent)"
proof (induction xs)
  case (Cons x xs)
  then show ?case by (cases x) auto
qed simp

text \<open>A connection that is not subscribed and does not subscribe is sent nothing.\<close>

lemma absent_silent:
  "hub_ok s \<Longrightarrow> \<not> is_subed s i \<Longrightarrow> Subscribe i \<notin> set xs \<Longrightarrow> mailbox i (fst (hub_run s xs)) = []"
  using hub_run_view [of s i xs] absent_client [of i xs "need_snapshot s"] by (simp add: view_def is_subed_def)

text \<open>
  C10. The hub refines the contract of a connection.  Whatever the other connections do, and in whatever
  order the operations interleave, the messages a connection is sent are those of the little automaton
  of \<open>client_step\<close>: nothing before it subscribes, the snapshot while it waits, every message addressed
  to it once it has joined, in order and without duplicates.
\<close>

theorem hub_refines_client:
  "client_run snap i Absent xs =
     (mailbox i (fst (hub_run (service_new name snap) xs)), view (snd (hub_run (service_new name snap) xs)) i)"
  using hub_run_view [OF service_new_ok [of name snap], of i xs]
  by (simp add: view_def service_new_def)

text \<open>
  A connection can miss its snapshot.  One that subscribes after the snapshot's callback has sent its
  messages and before the swap is dropped is moved among the joined subscribers without having been sent
  anything.
\<close>

theorem snapshot_missed:
  assumes "\<not> is_subed s j" and "need_snapshot s"
  shows "mailbox j (fst (hub_run s [SnapSend m, Subscribe j, SnapDrop])) = [] \<and>
    view (snd (hub_run s [SnapSend m, Subscribe j, SnapDrop])) j = Joined"
  using assms
  by (auto simp: is_subed_def on_subscribe_def swap_new_subscribes_def view_def send_new_subscribes_def mailbox_def
      filter_empty_conv)

lemma snapshot_missed_witness:
  "mailbox 2 (fst (hub_run (on_subscribe (service_new ''x'' True) 1) [SnapSend (), Subscribe 2, SnapDrop])) = [] \<and>
    view (snd (hub_run (on_subscribe (service_new ''x'' True) 1) [SnapSend (), Subscribe 2, SnapDrop])) 2 = Joined"
  by (rule snapshot_missed) (simp_all add: service_new_def on_subscribe_def is_subed_def add_id_def)

subsection \<open>The loops\<close>

text \<open>The calls on the state alternate: initialise, callbacks, reset.\<close>

fun well_bracketed :: "bool \<Rightarrow> svc_call list \<Rightarrow> bool" where
  "well_bracketed flag [] = True"
| "well_bracketed flag (InitCall # cs) = (\<not> flag \<and> well_bracketed True cs)"
| "well_bracketed flag (Callback # cs) = (flag \<and> well_bracketed flag cs)"
| "well_bracketed flag (ResetCall # cs) = (flag \<and> well_bracketed False cs)"
| "well_bracketed flag (Sleep n # cs) = well_bracketed flag cs"

text \<open>
  The state of a repeated service is initialised before it is used.  However subscribers come and go
  and callbacks fail, every callback happens between an initialisation and the next reset, and the two
  alternate.
\<close>

theorem repeat_bracketed: "well_bracketed flag (repeat_turns interval ts flag)"
proof (induction ts arbitrary: flag)
  case (Cons t ts)
  obtain subs failed elapsed where t: "t = (subs, failed, elapsed)" by (cases t)
  from Cons.IH [of True] Cons.IH [of False] show ?case
    by (simp add: t repeat_turn_def)
qed simp

text \<open>
  Failing callbacks back off exponentially, up to a second.  After \<open>n\<close> quick failures in a row the
  wait is \<open>30 * 2 ^ n\<close> milliseconds or one second, whichever is less, and a success in between does not
  shorten it; only a failure after more than a second starts over.
\<close>

theorem run_backoff:
  assumes "\<forall>f \<in> set fs. f = None \<or> (\<exists>t. f = Some t \<and> t \<le> MAX_ERROR_TIMEOUT)" and "k < length fs"
    and "fs ! k \<noteq> None"
  shows "run_turns fs HIBERNATE_TIMEOUT ! k =
    Some (min 1000 (30 * 2 ^ length (filter (\<lambda>f. f \<noteq> None) (take (Suc k) fs))))"
proof -
  have "run_turns fs (min 1000 (30 * 2 ^ n)) ! k =
    Some (min 1000 (30 * 2 ^ (n + length (filter (\<lambda>f. f \<noteq> None) (take (Suc k) fs)))))" for n
    using assms
  proof (induction fs arbitrary: n k)
    case (Cons f fs)
    show ?case
    proof (cases f)
      case None
      with Cons.prems obtain l where "k = Suc l" by (cases k) auto
      with None Cons show ?thesis by (simp add: run_turn_def)
    next
      case (Some t)
      with Cons.prems have t: "\<not> MAX_ERROR_TIMEOUT < t" by auto
      have "min 1000 (min 1000 (30 * 2 ^ n) * 2) = min 1000 (30 * 2 ^ Suc n :: nat)" by (auto simp: min_def)
      with t have tn: "run_turn f (min 1000 (30 * 2 ^ n)) =
          (Some (min 1000 (30 * 2 ^ Suc n)), min 1000 (30 * 2 ^ Suc n))"
        by (auto simp: run_turn_def Some MAX_ERROR_TIMEOUT_def Let_def min_def)
      show ?thesis
      proof (cases k)
        case 0
        with tn Some show ?thesis by simp
      next
        case (Suc l)
        with Cons.IH [of l "Suc n"] Cons.prems tn Some show ?thesis by (simp del: power_Suc)
      qed
    qed
  qed simp
  from this [of 0] show ?thesis by (simp add: HIBERNATE_TIMEOUT_def)
qed

lemma run_backoff_witness: "run_turns [Some 5, None, Some 7] HIBERNATE_TIMEOUT ! 2 = Some 120"
  using run_backoff [of "[Some 5, None, Some 7]" 2] by (simp add: MAX_ERROR_TIMEOUT_def eval_nat_numeral)

end
