(* ===== verification/Login.thy ===== *)
theory Login
  imports Prelude
begin

text \<open>
  Authorisation of a connection: the login part of \<^verbatim>\<open>src/server/connection.rs\<close> (\<^verbatim>\<open>on_message\<close> up to the
  authorised events, password checks, recent sessions, failure counts, \<^verbatim>\<open>send_logon_response\<close> up to the
  authorisation, the session table) with the password options of \<^verbatim>\<open>libs/hbb_common/src/password_security.rs\<close>.

  Byte strings are character lists, times are milliseconds.  SHA-256 is an argument of the environment;
  so are the answers of the outside world: the TOTP check, the single sign-on helper, the token server,
  whether a port can be reached, the state of the desktop.  The cipher, audit posts, the password
  remembered for file transfers and the contents of the peer information are left out.  \<^verbatim>\<open>None\<close> of \<open>require_2fa\<close> is \<open>False\<close>.
\<close>

subsection \<open>Configuration\<close>

datatype verification_method = OnlyUseTemporaryPassword | OnlyUsePermanentPassword | UseBothPasswords
datatype approve_mode = Both | Password | Click

record env =
  now :: nat
  option_of :: "string \<Rightarrow> string"
  builtin_option :: "string \<Rightarrow> string"
  own_id :: string
  temporary_password :: string
  permanent_password :: string
  sha256 :: "string \<Rightarrow> string"
  totp_check :: "string \<Rightarrow> bool"
  sso_check :: "string \<Rightarrow> bool"
  token_check :: "string \<Rightarrow> bool"
  team_file :: bool
  is_address :: "string \<Rightarrow> bool"
  connects :: "string \<Rightarrow> bool"
  terminal_error :: "string \<Rightarrow> string option"
  fresh_service_id :: string
  privacy_mode :: bool
  desktop_error :: string
  is_logon :: bool

definition option2bool :: "string \<Rightarrow> string \<Rightarrow> bool" where
  "option2bool opt v =
     (if take 7 opt = ''enable-'' then v \<noteq> ''N''
      else if take 6 opt = ''allow-'' \<or> opt = ''stop-service'' \<or> opt = ''direct-server'' \<or> opt = ''force-always-relay''
      then v = ''Y''
      else v \<noteq> ''N'')"

definition verification_method :: "env \<Rightarrow> verification_method" where
  "verification_method e =
     (let m = option_of e ''verification-method''
      in if m = ''use-temporary-password'' then OnlyUseTemporaryPassword
         else if m = ''use-permanent-password'' then OnlyUsePermanentPassword
         else UseBothPasswords)"

definition temporary_password_length :: "env \<Rightarrow> nat" where
  "temporary_password_length e =
     (let l = option_of e ''temporary-password-length'' in if l = ''8'' then 8 else if l = ''10'' then 10 else 6)"

definition temporary_enabled :: "env \<Rightarrow> bool" where
  "temporary_enabled e = (verification_method e \<noteq> OnlyUsePermanentPassword)"

definition permanent_enabled :: "env \<Rightarrow> bool" where
  "permanent_enabled e = (verification_method e \<noteq> OnlyUseTemporaryPassword)"

definition has_valid_password :: "env \<Rightarrow> bool" where
  "has_valid_password e =
     (temporary_enabled e \<and> temporary_password e \<noteq> [] \<or> permanent_enabled e \<and> permanent_password e \<noteq> [])"

definition approve_mode :: "env \<Rightarrow> approve_mode" where
  "approve_mode e =
     (let m = option_of e ''approve-mode''
      in if m = ''password'' then Password else if m = ''click'' then Click else Both)"

definition hide_cm :: "env \<Rightarrow> bool" where
  "hide_cm e = (approve_mode e = Password \<and> verification_method e = OnlyUsePermanentPassword \<and>
     option_of e ''allow-hide-cm'' \<noteq> [])"

definition permission :: "env \<Rightarrow> string \<Rightarrow> bool" where
  "permission e opt = option2bool opt (option_of e opt)"

definition enable_trusted_devices :: "env \<Rightarrow> bool" where
  "enable_trusted_devices e = permission e ''enable-trusted-devices''"

subsection \<open>The state\<close>

record session_key =
  key_peer :: string
  key_name :: string
  key_session :: u64

record session =
  last_recv_time :: nat
  random_password :: string
  tfa :: bool

datatype auth_conn_type = Remote | FileTransfer | PortForward | ViewCamera | Terminal

datatype login_union =
    LoginFileTransfer string bool
  | LoginViewCamera
  | LoginPortForward string int
  | LoginTerminal string
  | LoginDefault

record login_request =
  my_id :: string
  my_name :: string
  my_platform :: string
  username :: string
  lr_password :: string
  session_id :: u64
  lr_hwid :: string
  tokenex :: string
  lr_version :: nat
  lr_union :: login_union

record trusted_device =
  dev_hwid :: string
  dev_time :: nat
  dev_id :: string
  dev_name :: string
  dev_platform :: string

type_synonym failure = "int \<times> int \<times> int"

text \<open>What the connections of the process share.\<close>

record world =
  sessions :: "session_key \<Rightarrow> session option"
  login_failures :: "nat \<Rightarrow> string \<Rightarrow> failure option"
  switch_sides :: "string \<Rightarrow> (nat \<times> string) option"
  trusted_devices :: "trusted_device list"
  authed_conns :: "(int \<times> auth_conn_type \<times> session_key) list"

record connection =
  conn_id :: int
  ip :: string
  lr :: login_request
  authorized :: bool
  require_2fa :: bool
  from_switch :: bool
  file_transfer :: "(string \<times> bool) option"
  view_camera :: bool
  port_forward_address :: string
  port_forward_socket :: bool
  terminal :: bool
  terminal_service_id :: string
  hash_salt :: string
  hash_challenge :: string
  pending_invite :: "string option"

datatype reply =
    LoginError string
  | LogonResponse
  | StartCm string string bool

definition SESSION_TIMEOUT :: nat where "SESSION_TIMEOUT = 30000"

definition conn_session_key :: "connection \<Rightarrow> session_key" where
  "conn_session_key c = \<lparr>key_peer = my_id (lr c), key_name = my_name (lr c), key_session = session_id (lr c)\<rparr>"

definition outdate :: "env \<Rightarrow> trusted_device \<Rightarrow> bool" where
  "outdate e d = (dev_time d + 90 * 24 * 60 * 60 * 1000 < now e)"

definition add_trusted_device :: "trusted_device \<Rightarrow> world \<Rightarrow> world" where
  "add_trusted_device d w = w\<lparr>trusted_devices := filter (\<lambda>x. dev_hwid x \<noteq> dev_hwid d) (trusted_devices w) @ [d]\<rparr>"

subsection \<open>The session table\<close>

definition update_or_insert_session ::
  "env \<Rightarrow> session_key \<Rightarrow> string option \<Rightarrow> bool option \<Rightarrow> world \<Rightarrow> world" where
  "update_or_insert_session e k password t w =
     w\<lparr>sessions := (sessions w)(k \<mapsto>
       (case sessions w k of
          Some s \<Rightarrow> s\<lparr>random_password := (case password of Some p \<Rightarrow> p | None \<Rightarrow> random_password s),
                       tfa := (case t of Some b \<Rightarrow> b | None \<Rightarrow> tfa s)\<rparr>
        | None \<Rightarrow> \<lparr>last_recv_time = now e, random_password = (case password of Some p \<Rightarrow> p | None \<Rightarrow> []),
                    tfa = (case t of Some b \<Rightarrow> b | None \<Rightarrow> False)\<rparr>))\<rparr>"

definition set_session_2fa :: "env \<Rightarrow> session_key \<Rightarrow> world \<Rightarrow> world" where
  "set_session_2fa e k w =
     w\<lparr>sessions := (sessions w)(k \<mapsto>
       (case sessions w k of
          Some s \<Rightarrow> s\<lparr>tfa := True\<rparr>
        | None \<Rightarrow> \<lparr>last_recv_time = now e, random_password = [], tfa = True\<rparr>))\<rparr>"

definition check_remove_session :: "int \<Rightarrow> session_key \<Rightarrow> world \<Rightarrow> world" where
  "check_remove_session i k w =
     (if sessions w k = None then w
      else
        (let is_remote = (\<exists>(j, t, _) \<in> set (authed_conns w). j = i \<and> t = Remote);
             another_remote = (\<exists>(j, t, k') \<in> set (authed_conns w). j \<noteq> i \<and> k' = k \<and> t = Remote)
         in if is_remote \<or> \<not> another_remote then w\<lparr>sessions := (sessions w)(k := None)\<rparr> else w))"

text \<open>The table without the sessions that have expired.\<close>

definition live_sessions :: "env \<Rightarrow> world \<Rightarrow> world" where
  "live_sessions e w =
     w\<lparr>sessions := (\<lambda>k. case sessions w k of
        Some s \<Rightarrow> if now e - last_recv_time s < SESSION_TIMEOUT then Some s else None | None \<Rightarrow> None)\<rparr>"

subsection \<open>Passwords\<close>

definition digest :: "env \<Rightarrow> connection \<Rightarrow> string \<Rightarrow> string" where
  "digest e c password = sha256 e (sha256 e (password @ hash_salt c) @ hash_challenge c)"

definition validate_one_password :: "env \<Rightarrow> connection \<Rightarrow> string \<Rightarrow> bool" where
  "validate_one_password e c password = (password \<noteq> [] \<and> digest e c password = lr_password (lr c))"

definition validate_sso_password :: "env \<Rightarrow> string \<Rightarrow> bool" where
  "validate_sso_password e password = (length password = 32 \<and> sso_check e password)"

definition validate_password :: "env \<Rightarrow> connection \<Rightarrow> world \<Rightarrow> bool \<times> world" where
  "validate_password e c w =
     (let token = tokenex (lr c); sso = option_of e ''sso-login''
      in if sso = ''true'' then (token \<noteq> [] \<and> length token = 32 \<and> validate_sso_password e token, w)
         else if token \<noteq> [] \<and> team_file e then (token_check e token, w)
         else if temporary_enabled e \<and> validate_one_password e c (temporary_password e) then
           (True, update_or_insert_session e (conn_session_key c) (Some (temporary_password e)) (Some False) w)
         else (permanent_enabled e \<and> validate_one_password e c (permanent_password e), w))"

definition is_recent_session :: "env \<Rightarrow> bool \<Rightarrow> connection \<Rightarrow> world \<Rightarrow> bool \<times> world" where
  "is_recent_session e two_fa c w =
     (let w1 = live_sessions e w
      in (case sessions w1 (conn_session_key c) of
            Some s \<Rightarrow> lr_password (lr c) \<noteq> [] \<and>
              (two_fa \<and> tfa s \<or> \<not> two_fa \<and> validate_one_password e c (random_password s))
          | None \<Rightarrow> False, w1))"

subsection \<open>Failure counts\<close>

definition update_failure :: "failure \<times> int \<Rightarrow> bool \<Rightarrow> nat \<Rightarrow> string \<Rightarrow> world \<Rightarrow> world" where
  "update_failure ft remove i addr w =
     (case ft of ((t, m, n), time) \<Rightarrow>
        if remove then
          (if t \<noteq> 0 then w\<lparr>login_failures := (login_failures w)(i := (login_failures w i)(addr := None))\<rparr> else w)
        else
          (let f = (if t = time then (t, m + 1, n + 1) else (time, 1, n + 1))
           in w\<lparr>login_failures := (login_failures w)(i := (login_failures w i)(addr \<mapsto> f))\<rparr>))"

definition check_failure :: "env \<Rightarrow> nat \<Rightarrow> string \<Rightarrow> world \<Rightarrow> (failure \<times> int) \<times> bool \<times> reply list" where
  "check_failure e i addr w =
     (let f = (case login_failures w i addr of Some f \<Rightarrow> f | None \<Rightarrow> (0, 0, 0));
          time = int (now e div 60000)
      in case f of (t, m, n) \<Rightarrow>
           if 30 < n then ((f, time), False, [LoginError ''Too many wrong attempts''])
           else if time = t \<and> 6 < m then ((f, time), False, [LoginError ''Please try 1 minute later''])
           else ((f, time), True, []))"

subsection \<open>Logging in\<close>

definition handle_login_request_without_validation ::
  "env \<Rightarrow> world \<Rightarrow> login_request \<Rightarrow> connection \<Rightarrow> connection" where
  "handle_login_request_without_validation e w r c =
     (let c1 = c\<lparr>lr := r\<rparr>
      in if require_2fa c1 \<and> lr_hwid r \<noteq> [] \<and> enable_trusted_devices e then
           (case find (\<lambda>d. dev_hwid d = lr_hwid r) (trusted_devices w) of
              Some d \<Rightarrow>
                if \<not> outdate e d \<and> dev_id d = my_id r \<and> dev_name d = my_name r \<and> dev_platform d = my_platform r
                then c1\<lparr>require_2fa := False\<rparr> else c1
            | None \<Rightarrow> c1)
         else c1)"

definition auth_type :: "connection \<Rightarrow> auth_conn_type" where
  "auth_type c =
     (if file_transfer c \<noteq> None then FileTransfer
      else if port_forward_socket c then PortForward
      else if view_camera c then ViewCamera
      else if terminal c then Terminal
      else Remote)"

definition send_logon_response :: "env \<Rightarrow> connection \<Rightarrow> world \<Rightarrow> reply list \<times> connection \<times> world" where
  "send_logon_response e c w =
     (if authorized c then ([], c, w)
      else
        (let (recent, w1) = (if require_2fa c then is_recent_session e True c w else (False, w))
         in if require_2fa c \<and> \<not> recent \<and> \<not> from_switch c then ([LoginError ''2FA Required''], c, w1)
            else ([LogonResponse], c\<lparr>authorized := True\<rparr>,
                  w1\<lparr>authed_conns := authed_conns w1 @ [(conn_id c, auth_type c, conn_session_key c)]\<rparr>)))"

text \<open>The kind of connection asked for: \<open>Inl\<close> the replies with which the connection ends.\<close>

definition prepare_login :: "env \<Rightarrow> connection \<Rightarrow> login_union \<Rightarrow> reply list + connection" where
  "prepare_login e c u =
     (case u of
        LoginFileTransfer dir hidden \<Rightarrow>
          if \<not> permission e ''enable-file-transfer'' then Inl [LoginError ''No permission of file transfer'']
          else Inr (c\<lparr>file_transfer := Some (dir, hidden)\<rparr>)
      | LoginViewCamera \<Rightarrow>
          if \<not> permission e ''enable-camera'' then Inl [LoginError ''No permission of viewing camera'']
          else Inr (c\<lparr>view_camera := True\<rparr>)
      | LoginPortForward host port \<Rightarrow>
          if \<not> permission e ''enable-tunnel'' then
            Inl [LoginError ''TCP Tunneling is not enabled on the remote machine'']
          else
            (let rdp = (host = ''RDP'' \<and> port = 0);
                 h = (if rdp \<or> host = [] then ''localhost'' else host);
                 p = (if rdp then 3389 else port);
                 addr = h @ '':'' @ int_decimal p
             in if connects e addr then Inr (c\<lparr>port_forward_address := addr, port_forward_socket := True\<rparr>)
                else Inl [LoginError (''Could not connect to '' @ (if rdp then ''RDP'' else addr) @
                  ''. Make sure the service is running on that port.'')])
      | LoginTerminal service \<Rightarrow>
          if \<not> permission e ''enable-tunnel'' then Inl [LoginError ''Terminal is not enabled on the remote machine'']
          else
            (let sid = (if service = [] then fresh_service_id e else service)
             in case terminal_error e sid of
                  Some err \<Rightarrow> Inl [LoginError (''Failed to create terminal service: '' @ err)]
                | None \<Rightarrow> Inr (c\<lparr>terminal := True, terminal_service_id := sid\<rparr>))
      | LoginDefault \<Rightarrow>
          if privacy_mode e then Inl [LoginError ''Someone turned on privacy mode, exiting.''] else Inr c)"

text \<open>The step result: whether the connection goes on, the replies, and the new state.\<close>

type_synonym outcome = "bool \<times> reply list \<times> connection \<times> world"

definition accept_login :: "env \<Rightarrow> string \<Rightarrow> connection \<Rightarrow> world \<Rightarrow> outcome" where
  "accept_login e err c w =
     (if err = [] then
        (case send_logon_response e c w of
           (rs, c1, w1) \<Rightarrow> (True, rs @ [StartCm (my_id (lr c)) (my_name (lr c)) (authorized c1)], c1, w1))
      else (True, [LoginError err], c, w))"

definition check_login :: "env \<Rightarrow> string \<Rightarrow> connection \<Rightarrow> world \<Rightarrow> outcome" where
  "check_login e err c w =
     (let r = lr c; cm = StartCm (my_id r) (my_name r) False
      in if \<not> is_address e (username r) \<and> username r \<noteq> own_id e then (False, [LoginError ''Offline''], c, w)
         else if approve_mode e = Click \<and>
                   \<not> (builtin_option e ''allow-logon-screen-password'' = ''Y'' \<and> is_logon e)
                 \<or> approve_mode e = Both \<and> \<not> has_valid_password e then
           (True, cm # (if 1002000 \<le> lr_version r then [LoginError ''No Password Access''] else []), c, w)
         else
           (case is_recent_session e False c w of
              (True, w1) \<Rightarrow> accept_login e err c w1
            | (False, w1) \<Rightarrow>
                if lr_password r = [] then
                  (True, if err = [] then [cm] else [LoginError ''Desktop session not ready, password empty''], c, w1)
                else
                  (case check_failure e 0 (ip c) w1 of
                     (ft, False, rs) \<Rightarrow> (True, rs, c, w1)
                   | (ft, True, rs) \<Rightarrow>
                       (case validate_password e c w1 of
                          (False, w2) \<Rightarrow>
                            (True,
                             (if err = [] then [LoginError ''Wrong Password'', cm]
                              else [LoginError ''Desktop session not ready, password wrong'']),
                             c, update_failure ft False 0 (ip c) w2)
                        | (True, w2) \<Rightarrow> accept_login e err c (update_failure ft True 0 (ip c) w2)))))"

definition on_login_request :: "env \<Rightarrow> login_request \<Rightarrow> connection \<Rightarrow> world \<Rightarrow> outcome" where
  "on_login_request e r c w =
     (let c1 = handle_login_request_without_validation e w r c
      in if authorized c1 then (True, [], c1, w)
         else case prepare_login e c1 (lr_union r) of
             Inl rs \<Rightarrow> (False, rs, c1, w)
           | Inr c2 \<Rightarrow>
               if desktop_error e \<noteq> [] \<and> desktop_error e \<noteq> ''Desktop session not ready'' then
                 (True, [LoginError (desktop_error e)], c2, w)
               else check_login e (desktop_error e) c2 w)"

definition on_auth_2fa :: "env \<Rightarrow> string \<Rightarrow> string \<Rightarrow> connection \<Rightarrow> world \<Rightarrow> outcome" where
  "on_auth_2fa e code hwid c w =
     (case check_failure e 1 (ip c) w of
        (ft, False, rs) \<Rightarrow> (True, rs, c, w)
      | (ft, True, rs) \<Rightarrow>
          if \<not> require_2fa c then (True, [], c, w)
          else if totp_check e code then
            (let w1 = set_session_2fa e (conn_session_key c) (update_failure ft True 1 (ip c) w)
             in case send_logon_response e (c\<lparr>require_2fa := False\<rparr>) w1 of
                  (rs, c1, w2) \<Rightarrow>
                    (True, rs @ [StartCm (my_id (lr c)) (my_name (lr c)) (authorized c1)], c1,
                     if hwid \<noteq> [] \<and> enable_trusted_devices e then
                       add_trusted_device \<lparr>dev_hwid = hwid, dev_time = now e, dev_id = my_id (lr c),
                         dev_name = my_name (lr c), dev_platform = my_platform (lr c)\<rparr> w2
                     else w2))
          else (True, [LoginError ''Wrong 2FA Code''], c, update_failure ft False 1 (ip c) w))"

definition on_invite_request :: "string \<Rightarrow> string \<Rightarrow> string \<Rightarrow> connection \<Rightarrow> world \<Rightarrow> outcome" where
  "on_invite_request from_id from_name pw c w =
     (True, [StartCm from_id from_name False], c\<lparr>pending_invite := Some pw\<rparr>, w)"

text \<open>A uuid of another length than 16 bytes is no uuid.\<close>

definition on_switch_sides_response :: "env \<Rightarrow> string \<Rightarrow> login_request option \<Rightarrow> connection \<Rightarrow> world \<Rightarrow> outcome" where
  "on_switch_sides_response e uuid ro c w =
     (case ro of
        None \<Rightarrow> (True, [], c, w)
      | Some r \<Rightarrow>
          (let c1 = handle_login_request_without_validation e w r c;
               alive = (\<lambda>k. case switch_sides w k of
                 Some (t, u) \<Rightarrow> if now e - t < 10000 then Some (t, u) else None | None \<Rightarrow> None);
               w1 = w\<lparr>switch_sides := alive(my_id r := None)\<rparr>
           in if length uuid = 16 then
                (case alive (my_id r) of
                   Some (t, u) \<Rightarrow>
                     if uuid = u then
                       (case send_logon_response e (c1\<lparr>from_switch := True\<rparr>) w1 of
                          (rs, c2, w2) \<Rightarrow> (True, rs @ [StartCm (my_id r) (my_name r) True], c2, w2))
                     else (True, [], c1, w1)
                 | None \<Rightarrow> (True, [], c1, w1))
              else (True, [], c1, w1)))"

definition insert_switch_sides_uuid :: "env \<Rightarrow> string \<Rightarrow> string \<Rightarrow> world \<Rightarrow> world" where
  "insert_switch_sides_uuid e i uuid w = w\<lparr>switch_sides := (switch_sides w)(i \<mapsto> (now e, uuid))\<rparr>"

text \<open>The click of the local user in the connection manager.\<close>

definition on_cm_authorize :: "env \<Rightarrow> connection \<Rightarrow> world \<Rightarrow> outcome" where
  "on_cm_authorize e c w =
     (case send_logon_response e (c\<lparr>require_2fa := False\<rparr>) w of
        (rs, c1, w1) \<Rightarrow> (\<not> port_forward_socket c1, rs, c1, w1))"

datatype auth_event =
    LoginRequest login_request
  | Auth2fa string string
  | InviteRequest string string string
  | SwitchSidesResponse string "login_request option"
  | CmAuthorize

fun auth_step :: "env \<Rightarrow> auth_event \<Rightarrow> connection \<Rightarrow> world \<Rightarrow> outcome" where
  "auth_step e (LoginRequest r) c w = on_login_request e r c w"
| "auth_step e (Auth2fa code hwid) c w = on_auth_2fa e code hwid c w"
| "auth_step e (InviteRequest i n p) c w = on_invite_request i n p c w"
| "auth_step e (SwitchSidesResponse u r) c w = on_switch_sides_response e u r c w"
| "auth_step e CmAuthorize c w = on_cm_authorize e c w"

end
