(* ===== verification/Login_Properties.thy ===== *)
theory Login_Properties
  imports Login
begin

text \<open>
  Who gets authorised, and how guesses are limited: the properties of \<open>Login\<close>.
\<close>

subsection \<open>The proofs of identity\<close>

text \<open>A password in the login request, or what stands for it.\<close>

definition knows_password :: "env \<Rightarrow> connection \<Rightarrow> string \<Rightarrow> bool" where
  "knows_password e c p \<longleftrightarrow> p \<noteq> [] \<and> lr_password (lr c) = sha256 e (sha256 e (p @ hash_salt c) @ hash_challenge c)"

lemma validate_one_knows: "validate_one_password e c p = knows_password e c p"
  by (auto simp: validate_one_password_def digest_def knows_password_def)

definition proves_password :: "env \<Rightarrow> connection \<Rightarrow> world \<Rightarrow> bool" where
  "proves_password e c w \<longleftrightarrow> lr_password (lr c) \<noteq> [] \<and>
     ((\<exists>s. sessions w (conn_session_key c) = Some s \<and> now e - last_recv_time s < SESSION_TIMEOUT \<and>
         knows_password e c (random_password s)) \<or>
      option_of e ''sso-login'' = ''true'' \<and> validate_sso_password e (tokenex (lr c)) \<or>
      option_of e ''sso-login'' \<noteq> ''true'' \<and>
        (tokenex (lr c) \<noteq> [] \<and> team_file e \<and> token_check e (tokenex (lr c)) \<or>
         temporary_enabled e \<and> knows_password e c (temporary_password e) \<or>
         permanent_enabled e \<and> knows_password e c (permanent_password e)))"

text \<open>What excuses a connection with two-factor authentication from its code.\<close>

definition excused :: "env \<Rightarrow> login_request \<Rightarrow> connection \<Rightarrow> world \<Rightarrow> bool" where
  "excused e r c w \<longleftrightarrow>
     (\<exists>d \<in> set (trusted_devices w). lr_hwid r \<noteq> [] \<and> enable_trusted_devices e \<and> dev_hwid d = lr_hwid r \<and>
        \<not> outdate e d \<and> dev_id d = my_id r \<and> dev_name d = my_name r) \<or>
     (\<exists>k s. sessions w k = Some s \<and> now e - last_recv_time s < SESSION_TIMEOUT \<and> tfa s \<and>
        key_peer k = my_id r \<and> key_session k = session_id r) \<or>
     from_switch c"

lemma conn_key_simps [simp]:
  "conn_session_key (c\<lparr>require_2fa := b\<rparr>) = conn_session_key c"
  "conn_session_key (c\<lparr>file_transfer := x\<rparr>) = conn_session_key c"
  "conn_session_key (c\<lparr>view_camera := b\<rparr>) = conn_session_key c"
  "conn_session_key (c\<lparr>port_forward_address := a, port_forward_socket := b\<rparr>) = conn_session_key c"
  "conn_session_key (c\<lparr>terminal := b, terminal_service_id := t\<rparr>) = conn_session_key c"
  by (simp_all add: conn_session_key_def)

lemma prepare_login_keeps:
  assumes "prepare_login e c u = Inr c'"
  shows "lr c' = lr c \<and> authorized c' = authorized c \<and> require_2fa c' = require_2fa c \<and> from_switch c' = from_switch c \<and>
    conn_session_key c' = conn_session_key c \<and> hash_salt c' = hash_salt c \<and> hash_challenge c' = hash_challenge c \<and> ip c' = ip c"
  using assms by (auto simp: prepare_login_def Let_def split: login_union.splits if_splits option.splits)

lemma live_sessions_Some:
  "sessions (live_sessions e w) k = Some s \<longleftrightarrow> sessions w k = Some s \<and> now e - last_recv_time s < SESSION_TIMEOUT"
  by (auto simp: live_sessions_def split: option.splits if_splits)

lemma send_logon_authorizes:
  assumes "send_logon_response e c w = (rs, c', w')" and "\<not> authorized c" and "authorized c'" and "require_2fa c"
  shows "from_switch c \<or> (\<exists>s. sessions w (conn_session_key c) = Some s \<and> now e - last_recv_time s < SESSION_TIMEOUT \<and> tfa s)"
  using assms
  by (auto simp: send_logon_response_def is_recent_session_def Let_def live_sessions_Some
      split: if_splits option.splits prod.splits)

lemma recent_session_proves:
  assumes "is_recent_session e False c w = (True, w1)"
  shows "proves_password e c w"
  using assms
  by (auto simp: is_recent_session_def proves_password_def validate_one_knows Let_def live_sessions_Some split: option.splits)

lemma recent_session_world:
  assumes "is_recent_session e b c w = (r, w1)"
  shows "w1 = live_sessions e w"
  using assms by (auto simp: is_recent_session_def Let_def)

lemma validate_password_proves:
  assumes "validate_password e c w1 = (True, w2)" and "lr_password (lr c) \<noteq> []"
  shows "proves_password e c w"
  using assms
  by (auto simp: validate_password_def proves_password_def validate_one_knows Let_def split: if_splits)

text \<open>Validating a password never sets the two-factor mark of a session.\<close>

lemma validate_password_tfa:
  assumes "validate_password e c w = (True, w2)" and "sessions w2 k = Some s" and "tfa s"
  shows "\<exists>s'. sessions w k = Some s' \<and> tfa s' \<and> last_recv_time s' = last_recv_time s"
  using assms
  by (auto simp: validate_password_def update_or_insert_session_def Let_def split: if_splits option.splits)

lemma update_failure_sessions [simp]:
  "sessions (update_failure ft r i a w) = sessions w"
  by (auto simp: update_failure_def split: prod.splits)

lemma accept_login_authorizes:
  assumes "accept_login e err c w = (go, rs, c', w')" and "\<not> authorized c" and "authorized c'"
  shows "\<exists>rs'. send_logon_response e c w = (rs', c', w')"
  using assms by (auto simp: accept_login_def split: if_splits prod.splits)

lemma check_login_authorizes:
  assumes "check_login e err c w = (go, rs, c', w')" and "\<not> authorized c" and "authorized c'"
  shows "proves_password e c w \<and>
    (require_2fa c \<longrightarrow> from_switch c \<or>
       (\<exists>s. sessions w (conn_session_key c) = Some s \<and> now e - last_recv_time s < SESSION_TIMEOUT \<and> tfa s))"
proof -
  obtain recent w1 where rec: "is_recent_session e False c w = (recent, w1)" by (cases "is_recent_session e False c w")
  have w1: "w1 = live_sessions e w" by (rule recent_session_world [OF rec])
  obtain ft ok rs1 where cf: "check_failure e 0 (ip c) w1 = (ft, ok, rs1)" by (cases "check_failure e 0 (ip c) w1")
  obtain v w2 where vp: "validate_password e c w1 = (v, w2)" by (cases "validate_password e c w1")
  have "recent \<and> accept_login e err c w1 = (go, rs, c', w') \<or>
      \<not> recent \<and> v \<and> lr_password (lr c) \<noteq> [] \<and>
        accept_login e err c (update_failure ft True 0 (ip c) w2) = (go, rs, c', w')"
    using assms rec cf vp by (auto simp: check_login_def Let_def split: if_splits bool.splits)
  then show ?thesis
  proof
    assume r: "recent \<and> accept_login e err c w1 = (go, rs, c', w')"
    with accept_login_authorizes [of e err c w1] assms(2,3)
    obtain rs' where "send_logon_response e c w1 = (rs', c', w')" by blast
    from send_logon_authorizes [OF this assms(2,3)] recent_session_proves [of e c w w1] rec r w1
    show ?thesis by (auto simp: live_sessions_Some)
  next
    assume r: "\<not> recent \<and> v \<and> lr_password (lr c) \<noteq> [] \<and>
      accept_login e err c (update_failure ft True 0 (ip c) w2) = (go, rs, c', w')"
    with accept_login_authorizes [of e err c "update_failure ft True 0 (ip c) w2"] assms(2,3)
    obtain rs' where s: "send_logon_response e c (update_failure ft True 0 (ip c) w2) = (rs', c', w')" by blast
    from r vp have vt: "validate_password e c w1 = (True, w2)" by simp
    from send_logon_authorizes [OF s assms(2,3)] validate_password_tfa [OF vt]
    have "require_2fa c \<longrightarrow> from_switch c \<or>
       (\<exists>s. sessions w (conn_session_key c) = Some s \<and> now e - last_recv_time s < SESSION_TIMEOUT \<and> tfa s)"
      by (fastforce simp: w1 live_sessions_Some)
    with validate_password_proves [OF vt] r show ?thesis by blast
  qed
qed

text \<open>
  C11. Nobody is authorised without a proof.  When a step turns an unauthorised connection into an
  authorised one, then the peer has sent a login request with a valid password (or an accepted token, or
  the password of its recent session) and, where two-factor authentication is on, is excused from the code
  by a trusted device or a recent session that had passed it; or has sent a valid code; or has answered a
  switch of sides with the uuid given out for it less than 10 seconds ago; or the local user has clicked.
\<close>

theorem authorized_only_by:
  assumes "auth_step e ev c w = (go, rs, c', w')" and "\<not> authorized c" and "authorized c'"
  shows "(\<exists>r c2. ev = LoginRequest r \<and> lr c2 = r \<and> hash_salt c2 = hash_salt c \<and> hash_challenge c2 = hash_challenge c \<and>
      proves_password e c2 w \<and> (require_2fa c \<longrightarrow> excused e r c w)) \<or>
    (\<exists>code hwid. ev = Auth2fa code hwid \<and> require_2fa c \<and> totp_check e code) \<or>
    (\<exists>r u t. ev = SwitchSidesResponse u (Some r) \<and> length u = 16 \<and> switch_sides w (my_id r) = Some (t, u) \<and>
      now e - t < 10000) \<or>
    ev = CmAuthorize"
proof (cases ev)
  case (LoginRequest r)
  let ?c1 = "handle_login_request_without_validation e w r c"
  have h: "lr ?c1 = r" "authorized ?c1 = authorized c" "from_switch ?c1 = from_switch c" "hash_salt ?c1 = hash_salt c"
    "hash_challenge ?c1 = hash_challenge c"
    by (auto simp: handle_login_request_without_validation_def Let_def split: option.splits)
  have tr: "excused e r c w" if "require_2fa c" "\<not> require_2fa ?c1"
    using that
    by (auto simp: handle_login_request_without_validation_def Let_def excused_def split: option.splits if_splits
        dest!: find_Some_iff [THEN iffD1] intro: nth_mem)
  from assms LoginRequest h(2) obtain c2 where c2: "prepare_login e ?c1 (lr_union r) = Inr c2"
    "check_login e (desktop_error e) c2 w = (go, rs, c', w')"
    using prepare_login_keeps [of e ?c1 "lr_union r"]
    by (auto simp: on_login_request_def Let_def split: if_splits sum.splits)
  note keep = prepare_login_keeps [OF c2(1)]
  from check_login_authorizes [OF c2(2) _ assms(3)] keep h assms(2)
  have p: "proves_password e c2 w" and t: "require_2fa ?c1 \<longrightarrow> from_switch c \<or>
      (\<exists>s. sessions w (conn_session_key c2) = Some s \<and> now e - last_recv_time s < SESSION_TIMEOUT \<and> tfa s)"
    by auto
  have "key_peer (conn_session_key c2) = my_id r" "key_session (conn_session_key c2) = session_id r"
    using keep h by (simp_all add: conn_session_key_def)
  with t have "require_2fa ?c1 \<longrightarrow> excused e r c w" by (auto simp: excused_def)
  with tr p keep h LoginRequest show ?thesis by metis
next
  case (Auth2fa code hwid)
  with assms show ?thesis
    by (auto simp: on_auth_2fa_def split: prod.splits bool.splits if_splits)
next
  case (InviteRequest i n p)
  with assms show ?thesis by (auto simp: on_invite_request_def)
next
  case (SwitchSidesResponse u ro)
  have h: "authorized (handle_login_request_without_validation e w r c) = authorized c" for r
    by (auto simp: handle_login_request_without_validation_def Let_def split: option.splits)
  from assms SwitchSidesResponse h show ?thesis
    by (auto simp: on_switch_sides_response_def Let_def split: option.splits if_splits)
next
  case CmAuthorize
  then show ?thesis by simp
qed


subsection \<open>The code alone\<close>

text \<open>
  C12. A two-factor code alone is enough.  A connection that has never sent a login request, on a host with
  two-factor authentication, is authorised by a valid code, whatever the passwords of the host are and even
  when it approves by click only: the second factor replaces the first.
\<close>

theorem totp_alone_authorizes:
  assumes "require_2fa c" and "\<not> authorized c" and "totp_check e code"
    and "login_failures w 1 (ip c) = None"
  shows "\<exists>rs c' w'. auth_step e (Auth2fa code hwid) c w = (True, rs, c', w') \<and> authorized c' \<and> lr c' = lr c \<and>
    LogonResponse \<in> set rs"
  using assms
  by (auto simp: on_auth_2fa_def check_failure_def send_logon_response_def Let_def)

subsection \<open>Guessing\<close>

text \<open>Wrong guesses from one address, one after the other: the times at which the password was really tried.\<close>

fun guesses :: "env \<Rightarrow> nat \<Rightarrow> string \<Rightarrow> nat list \<Rightarrow> world \<Rightarrow> nat list" where
  "guesses e i a [] w = []"
| "guesses e i a (t # ts) w =
     (case check_failure (e\<lparr>now := t\<rparr>) i a w of
        (ft, False, _) \<Rightarrow> guesses e i a ts w
      | (ft, True, _) \<Rightarrow> t # guesses e i a ts (update_failure ft False i a w))"

lemma guesses_subset: "set (guesses e i a ts w) \<subseteq> set ts"
  by (induction ts arbitrary: w) (auto split: prod.splits bool.splits)

lemma guesses_bound:
  assumes "login_failures w i a = f" and "(case f of None \<Rightarrow> (0, 0, 0) | Some x \<Rightarrow> x) = (t, m, n)"
    and "sorted ts" and "\<forall>x \<in> set ts. t \<le> int (x div 60000)" and "0 \<le> m" and "0 \<le> n" and "m \<le> 7" and "n \<le> 31"
  shows "int (length (guesses e i a ts w)) \<le> 31 - n \<and>
    int (length (filter (\<lambda>x. x div 60000 = k) (guesses e i a ts w))) \<le> (if int k = t then 7 - m else 7)"
  using assms
proof (induction ts arbitrary: w f t m n)
  case Nil
  then show ?case by simp
next
  case (Cons x ts)
  let ?time = "int (x div 60000)"
  have later: "sorted ts" "\<forall>y \<in> set ts. ?time \<le> int (y div 60000)" "\<forall>y \<in> set ts. t \<le> int (y div 60000)"
    using Cons.prems(3,4) by (auto simp: div_le_mono)
  have cf: "check_failure (e\<lparr>now := x\<rparr>) i a w =
      (if 30 < n then (((t, m, n), ?time), False, [LoginError ''Too many wrong attempts''])
       else if ?time = t \<and> 6 < m then (((t, m, n), ?time), False, [LoginError ''Please try 1 minute later''])
       else (((t, m, n), ?time), True, []))"
    using Cons.prems(1,2) by (simp add: check_failure_def Let_def split: option.splits)
  show ?case
  proof (cases "30 < n \<or> ?time = t \<and> 6 < m")
    case True
    then have "guesses e i a (x # ts) w = guesses e i a ts w" by (auto simp: cf)
    with Cons.IH [OF Cons.prems(1,2) later(1,3) Cons.prems(5-8)] show ?thesis by simp
  next
    case False
    define m' where "m' = (if t = ?time then m + 1 else 1)"
    let ?w = "update_failure ((t, m, n), ?time) False i a w"
    have g: "guesses e i a (x # ts) w = x # guesses e i a ts ?w"
    proof -
      have "check_failure (e\<lparr>now := x\<rparr>) i a w = (((t, m, n), ?time), True, [])" using cf False by auto
      then show ?thesis by simp
    qed
    have f': "login_failures ?w i a = Some (?time, m', n + 1)"
      by (simp add: update_failure_def m'_def Let_def)
    have b: "0 \<le> m'" "m' \<le> 7" "0 \<le> n + 1" "n + 1 \<le> 31" using False Cons.prems(5-8) by (auto simp: m'_def)
    have IH: "int (length (guesses e i a ts ?w)) \<le> 31 - (n + 1)"
      "int (length (filter (\<lambda>x. x div 60000 = k) (guesses e i a ts ?w))) \<le> (if int k = ?time then 7 - m' else 7)"
      using Cons.IH [OF f' _ later(1,2) b(1,3,2,4)] by simp_all
    have "t \<le> ?time" using Cons.prems(4) by simp
    moreover have "filter (\<lambda>y. y div 60000 = k) (guesses e i a ts ?w) = []" if "int k < ?time"
      using later(2) guesses_subset [of e i a ts ?w] that by (fastforce simp: filter_empty_conv)
    ultimately show ?thesis using IH Cons.prems(5,7) unfolding g by (auto simp: m'_def split: if_splits)
  qed
qed

text \<open>
  C13. Sequential guessing is bounded.  From one address without failures so far, however the wrong attempts
  are spread over time, the password is tried at most 31 times in all and at most 7 times within one minute
  of the clock.
\<close>

theorem guessing_bounded:
  assumes "login_failures w i a = None" and "sorted ts"
  shows "length (guesses e i a ts w) \<le> 31 \<and>
    length (filter (\<lambda>x. x div 60000 = k) (guesses e i a ts w)) \<le> 7"
  using guesses_bound [OF assms(1) _ assms(2), of 0 0 0 e k] by (auto split: if_splits)

text \<open>
  Parallel guesses count once.  When any number of connections from an address check the failure count
  before the first of them records its failure, the recorded failures are those of a single guess: the count
  that was read is written back increased by one, each time.
\<close>

theorem parallel_guesses_count_once:
  assumes "check_failure e i a w = (ft, True, rs)" and "0 < k"
  shows "login_failures ((update_failure ft False i a ^^ k) w) = login_failures (update_failure ft False i a w)"
  using assms(2)
proof (induction k)
  case (Suc k)
  have idem: "login_failures (update_failure ft False i a v) = (login_failures v)(i := (login_failures v i)(a \<mapsto>
      (case ft of ((t, m, n), time) \<Rightarrow> if t = time then (t, m + 1, n + 1) else (time, 1, n + 1))))" for v
    by (simp add: update_failure_def Let_def split: prod.splits)
  show ?case
  proof (cases "k = 0")
    case False
    with Suc have "login_failures ((update_failure ft False i a ^^ k) w) = login_failures (update_failure ft False i a w)"
      by simp
    then show ?thesis by (simp add: idem)
  qed simp
qed simp

text \<open>
  The count of an address is never forgiven without a success: once 31 attempts have failed, every later
  attempt from the address is refused before the password is looked at, and leaves the count as it is.
\<close>

theorem lockout_is_final:
  assumes "login_failures w 0 (ip c) = Some (t, m, n)" and "30 < n" and "\<not> authorized c"
    and "auth_step e (LoginRequest r) c w = (go, rs, c', w')"
    and "\<not> (\<exists>k s. sessions w k = Some s \<and> now e - last_recv_time s < SESSION_TIMEOUT)"
  shows "\<not> authorized c' \<and> login_failures w' = login_failures w"
proof -
  have hand: "authorized (handle_login_request_without_validation e w r c) = authorized c"
    "ip (handle_login_request_without_validation e w r c) = ip c"
    by (auto simp: handle_login_request_without_validation_def Let_def split: option.splits)
  have no: "\<not> authorized c'' \<and> login_failures w'' = login_failures w"
    if "check_login e err c2 w = (go2, rs2, c'', w'')" "ip c2 = ip c" "\<not> authorized c2" for err c2 go2 rs2 c'' w''
  proof -
    have live: "sessions (live_sessions e w) k = None" for k
      using assms(5) live_sessions_Some [of e w k] by (cases "sessions (live_sessions e w) k") auto
    have rec: "is_recent_session e False c2 w = (False, live_sessions e w)"
      by (simp add: is_recent_session_def Let_def live)
    have fl: "login_failures (live_sessions e w) = login_failures w" by (simp add: live_sessions_def)
    have "check_failure e 0 (ip c2) (live_sessions e w) =
        (((t, m, n), int (now e div 60000)), False, [LoginError ''Too many wrong attempts''])"
      using assms(1,2) that(2) by (simp add: check_failure_def fl Let_def)
    with that rec fl show ?thesis by (auto simp: check_login_def Let_def split: if_splits)
  qed
  show ?thesis
    using assms(3,4) hand no prepare_login_keeps [of e "handle_login_request_without_validation e w r c" "lr_union r"]
    by (auto simp: on_login_request_def Let_def split: if_splits sum.splits)
qed

subsection \<open>Instances\<close>

definition plain_env :: env where
  "plain_env = \<lparr>now = 120000, option_of = (\<lambda>_. []), builtin_option = (\<lambda>_. []), own_id = ''42'',
     temporary_password = ''pw'', permanent_password = [], sha256 = (\<lambda>s. s), totp_check = (\<lambda>c. c = ''123456''),
     sso_check = (\<lambda>_. False), token_check = (\<lambda>_. False), team_file = False, is_address = (\<lambda>_. False),
     connects = (\<lambda>_. False), terminal_error = (\<lambda>_. None), fresh_service_id = ''s'', privacy_mode = False,
     desktop_error = [], is_logon = False\<rparr>"

definition empty_world :: world where
  "empty_world = \<lparr>sessions = (\<lambda>_. None), login_failures = (\<lambda>_ _. None), switch_sides = (\<lambda>_. None),
     trusted_devices = [], authed_conns = []\<rparr>"

definition no_request :: login_request where
  "no_request = \<lparr>my_id = [], my_name = [], my_platform = [], username = [], lr_password = [], session_id = 0,
     lr_hwid = [], tokenex = [], lr_version = 0, lr_union = LoginDefault\<rparr>"

definition new_connection :: connection where
  "new_connection = \<lparr>conn_id = 1, ip = ''10.0.0.1'', lr = no_request, authorized = False, require_2fa = True,
     from_switch = False, file_transfer = None, view_camera = False, port_forward_address = [],
     port_forward_socket = False, terminal = False, terminal_service_id = [], hash_salt = ''s'',
     hash_challenge = ''c'', pending_invite = None\<rparr>"

definition good_request :: login_request where
  "good_request = no_request\<lparr>my_id := ''7'', username := ''42'', lr_password := ''pwsc''\<rparr>"

lemma good_login:
  "\<exists>rs c' w'. auth_step plain_env (LoginRequest good_request) (new_connection\<lparr>require_2fa := False\<rparr>) empty_world =
    (True, rs, c', w') \<and> authorized c'"
  by (simp add: on_login_request_def handle_login_request_without_validation_def prepare_login_def check_login_def
      accept_login_def send_logon_response_def is_recent_session_def live_sessions_def check_failure_def
      validate_password_def validate_one_password_def digest_def temporary_enabled_def verification_method_def
      approve_mode_def has_valid_password_def update_failure_def plain_env_def empty_world_def no_request_def
      new_connection_def good_request_def conn_session_key_def Let_def)

lemma authorized_only_by_witness:
  "\<exists>c2. lr c2 = good_request \<and> proves_password plain_env c2 empty_world"
proof -
  obtain rs c' w' where "auth_step plain_env (LoginRequest good_request) (new_connection\<lparr>require_2fa := False\<rparr>)
      empty_world = (True, rs, c', w')" "authorized c'"
    using good_login by blast
  from authorized_only_by [OF this(1) _ this(2)] show ?thesis by (auto simp: new_connection_def)
qed

lemma totp_alone_authorizes_witness:
  "\<exists>rs c' w'. auth_step plain_env (Auth2fa ''123456'' []) new_connection empty_world = (True, rs, c', w') \<and>
    authorized c' \<and> lr c' = lr new_connection \<and> LogonResponse \<in> set rs"
  by (rule totp_alone_authorizes) (simp_all add: new_connection_def plain_env_def empty_world_def)

lemma guessing_bounded_witness:
  "length (guesses plain_env 0 ''a'' [5, 70000, 70001] empty_world) \<le> 31 \<and>
    length (filter (\<lambda>x. x div 60000 = 1) (guesses plain_env 0 ''a'' [5, 70000, 70001] empty_world)) \<le> 7"
  by (rule guessing_bounded) (simp_all add: empty_world_def)

lemma parallel_guesses_count_once_witness:
  "login_failures ((update_failure ((0, 0, 0), 2) False 0 ''a'' ^^ 1000) empty_world) =
    login_failures (update_failure ((0, 0, 0), 2) False 0 ''a'' empty_world)"
  by (rule parallel_guesses_count_once [of plain_env _ _ _ _ "[]"])
    (simp_all add: check_failure_def plain_env_def empty_world_def)

lemma lockout_is_final_witness:
  "\<not> authorized (fst (snd (snd (auth_step plain_env (LoginRequest good_request) new_connection
    (empty_world\<lparr>login_failures := (\<lambda>_ _. Some (2, 1, 31))\<rparr>)))))"
proof -
  let ?w = "empty_world\<lparr>login_failures := (\<lambda>_ _. Some (2, 1, 31))\<rparr>"
  obtain go rs c' w' where st: "auth_step plain_env (LoginRequest good_request) new_connection ?w = (go, rs, c', w')"
    by (metis surj_pair)
  from lockout_is_final [OF _ _ _ st, of 2 1 31] have "\<not> authorized c'"
    by (simp add: empty_world_def new_connection_def)
  then show ?thesis unfolding st by simp
qed

end
