(* ===== verification/Stored_Secrets.thy ===== *)
theory Stored_Secrets
  imports Prelude
begin

text \<open>
  The encryption of stored secrets, \<^verbatim>\<open>libs/hbb_common/src/password_security.rs\<close>: a secret is stored as the
  version and the base64 form of its secret box under the machine's uuid with a constant nonce; a value that
  is not of that form is taken as it is.

  Strings are their UTF-8 bytes.  The secret box and base64 are the \<^verbatim>\<open>sodiumoxide\<close> crate, arguments here.
\<close>

record crypto =
  box_seal :: "bytes \<Rightarrow> bytes \<Rightarrow> bytes"
  box_open :: "bytes \<Rightarrow> bytes \<Rightarrow> bytes option"
  b64_encode :: "bytes \<Rightarrow> bytes"
  b64_decode :: "bytes \<Rightarrow> bytes option"
  machine_uuid :: bytes
  lossy :: "bytes \<Rightarrow> bytes"

definition VERSION_LEN :: nat where "VERSION_LEN = 2"

definition V00 :: bytes where "V00 = [48, 48]"

definition keybuf :: "crypto \<Rightarrow> bytes" where
  "keybuf k = take 32 (machine_uuid k) @ replicate (32 - length (machine_uuid k)) 0"

definition symmetric_crypt :: "crypto \<Rightarrow> bytes \<Rightarrow> bool \<Rightarrow> bytes option" where
  "symmetric_crypt k dat enc = (if enc then Some (box_seal k dat (keybuf k)) else box_open k dat (keybuf k))"

definition encrypt :: "crypto \<Rightarrow> bytes \<Rightarrow> nat \<Rightarrow> bytes option" where
  "encrypt k v max_len =
     (if v \<noteq> [] \<and> length v \<le> max_len then map_option (b64_encode k) (symmetric_crypt k v True) else None)"

definition decrypt :: "crypto \<Rightarrow> bytes \<Rightarrow> bytes option" where
  "decrypt k v = (if v \<noteq> [] then Option.bind (b64_decode k v) (\<lambda>v. symmetric_crypt k v False) else None)"

definition decrypt_vec_or_original :: "crypto \<Rightarrow> bytes \<Rightarrow> bytes \<Rightarrow> bytes \<times> bool \<times> bool" where
  "decrypt_vec_or_original k v current_version =
     (let plain = (v, False, v \<noteq> [])
      in if VERSION_LEN < length v \<and> take VERSION_LEN v = V00 then
           (case decrypt k (drop VERSION_LEN v) of
              Some d \<Rightarrow> (d, True, V00 \<noteq> current_version)
            | None \<Rightarrow> plain)
         else plain)"

definition encrypt_vec_or_original :: "crypto \<Rightarrow> bytes \<Rightarrow> bytes \<Rightarrow> nat \<Rightarrow> bytes" where
  "encrypt_vec_or_original k v version max_len =
     (if fst (snd (decrypt_vec_or_original k v version)) then v
      else if max_len < length v then []
      else if version = V00 then
        (case encrypt k v max_len of Some s \<Rightarrow> version @ s | None \<Rightarrow> v)
      else v)"

definition decrypt_str_or_original :: "crypto \<Rightarrow> bytes \<Rightarrow> bytes \<Rightarrow> bytes \<times> bool \<times> bool" where
  "decrypt_str_or_original k s current_version =
     (let plain = (s, False, s \<noteq> [])
      in if VERSION_LEN < length s \<and> take VERSION_LEN s = V00 then
           (case decrypt k (drop VERSION_LEN s) of
              Some d \<Rightarrow> (lossy k d, True, V00 \<noteq> current_version)
            | None \<Rightarrow> plain)
         else plain)"

definition encrypt_str_or_original :: "crypto \<Rightarrow> bytes \<Rightarrow> bytes \<Rightarrow> nat \<Rightarrow> bytes" where
  "encrypt_str_or_original k s version max_len =
     (if fst (snd (decrypt_str_or_original k s version)) then s
      else if max_len < length s then []
      else if version = V00 then
        (case encrypt k s max_len of Some e \<Rightarrow> version @ e | None \<Rightarrow> s)
      else s)"

text \<open>The documented behaviour of the crate, on a machine with its uuid.\<close>

definition crypto_ok :: "crypto \<Rightarrow> bool" where
  "crypto_ok k \<longleftrightarrow> (\<forall>m key. box_open k (box_seal k m key) key = Some m) \<and>
     (\<forall>m key. box_seal k m key \<noteq> []) \<and>
     (\<forall>b. b64_decode k (b64_encode k b) = Some b) \<and> (\<forall>b. b \<noteq> [] \<longrightarrow> b64_encode k b \<noteq> [])"

lemma stored_form:
  assumes "crypto_ok k" and "v \<noteq> []"
  shows "decrypt k (b64_encode k (box_seal k v (keybuf k))) = Some v"
    and "b64_encode k (box_seal k v (keybuf k)) \<noteq> []"
  using assms by (simp_all add: crypto_ok_def decrypt_def symmetric_crypt_def)

text \<open>
  C15. A stored secret comes back, and is not encrypted twice.  A non-empty secret within the limit that does
  not itself look like a stored one is read back as it was, marked as decrypted, to be stored again just when
  the version has changed; storing the stored form again leaves it as it is.
\<close>

theorem secret_roundtrip:
  assumes "crypto_ok k" and "v \<noteq> []" and "length v \<le> max_len"
    and "\<not> fst (snd (decrypt_vec_or_original k v V00))"
  shows "decrypt_vec_or_original k (encrypt_vec_or_original k v V00 max_len) cur = (v, True, V00 \<noteq> cur) \<and>
    decrypt_str_or_original k (encrypt_str_or_original k v V00 max_len) cur = (lossy k v, True, V00 \<noteq> cur) \<and>
    encrypt_vec_or_original k (encrypt_vec_or_original k v V00 max_len) V00 n =
      encrypt_vec_or_original k v V00 max_len"
proof -
  let ?s = "V00 @ b64_encode k (box_seal k v (keybuf k))"
  have same: "fst (snd (decrypt_str_or_original k v V00)) = fst (snd (decrypt_vec_or_original k v V00))"
    by (simp add: decrypt_str_or_original_def decrypt_vec_or_original_def Let_def split: option.split)
  have enc: "encrypt_vec_or_original k v V00 max_len = ?s" "encrypt_str_or_original k v V00 max_len = ?s"
    using assms(2-4) same
    by (simp_all add: encrypt_vec_or_original_def encrypt_str_or_original_def encrypt_def symmetric_crypt_def)
  have dec: "decrypt_vec_or_original k ?s cur = (v, True, V00 \<noteq> cur)"
    "decrypt_str_or_original k ?s cur = (lossy k v, True, V00 \<noteq> cur)" for cur
    using stored_form [OF assms(1,2)]
    by (simp_all add: decrypt_vec_or_original_def decrypt_str_or_original_def VERSION_LEN_def V00_def Let_def)
  show ?thesis by (simp add: enc dec) (simp add: encrypt_vec_or_original_def dec)
qed

definition toy_crypto :: crypto where
  "toy_crypto = \<lparr>box_seal = (\<lambda>m key. 0 # m), box_open = (\<lambda>c key. if c = [] then None else Some (tl c)),
     b64_encode = (\<lambda>b. b), b64_decode = Some, machine_uuid = [7], lossy = (\<lambda>b. b)\<rparr>"

lemma secret_roundtrip_witness:
  "decrypt_vec_or_original toy_crypto (encrypt_vec_or_original toy_crypto [1, 2, 3] V00 9) V00 = ([1, 2, 3], True, V00 \<noteq> V00) \<and>
    decrypt_str_or_original toy_crypto (encrypt_str_or_original toy_crypto [1, 2, 3] V00 9) V00 =
      (lossy toy_crypto [1, 2, 3], True, V00 \<noteq> V00) \<and>
    encrypt_vec_or_original toy_crypto (encrypt_vec_or_original toy_crypto [1, 2, 3] V00 9) V00 5 =
      encrypt_vec_or_original toy_crypto [1, 2, 3] V00 9"
  by (rule secret_roundtrip)
    (simp_all add: crypto_ok_def toy_crypto_def decrypt_vec_or_original_def VERSION_LEN_def V00_def)

end
