(* ===== verification/Server.thy ===== *)
theory Server
  imports Service_Hub "HOL-Library.AList"
begin

text \<open>
  The server that holds the services and the connections, \<^verbatim>\<open>src/server.rs\<close>: which connection is subscribed
  to which service.  The two hash maps are association lists with distinct keys; a service is the hub of
  \<open>Service_Hub\<close>, and the threads behind it are left out.  The number of the primary display, whether there is
  a camera, and the build are arguments; the retina flag of macOS is left out.
\<close>

subsection \<open>The contract of a set of subscribers\<close>

locale subscriber_set =
  fixes sub :: "'s \<Rightarrow> int \<Rightarrow> 's"
    and unsub :: "'s \<Rightarrow> int \<Rightarrow> 's"
    and subed :: "'s \<Rightarrow> int \<Rightarrow> bool"
    and ok :: "'s \<Rightarrow> bool"
  assumes subed_sub: "subed (sub s i) j \<longleftrightarrow> j = i \<or> subed s j"
    and subed_unsub: "ok s \<Longrightarrow> subed (unsub s i) j \<longleftrightarrow> j \<noteq> i \<and> subed s j"
    and ok_sub: "ok s \<Longrightarrow> ok (sub s i)"
    and ok_unsub: "ok s \<Longrightarrow> ok (unsub s i)"
begin

text \<open>Bringing the subscription of one connection to a wished value, with the early return when it has it.\<close>

lemma subed_wish:
  "ok s \<Longrightarrow> subed (if subed s i = b then s else if b then sub s i else unsub s i) j \<longleftrightarrow>
    (if j = i then b else subed s j)"
  by (auto simp: subed_sub subed_unsub)

lemma ok_wish: "ok s \<Longrightarrow> ok (if subed s i = b then s else if b then sub s i else unsub s i)"
  by (simp add: ok_sub ok_unsub)

end

interpretation hub: subscriber_set on_subscribe on_unsubscribe is_subed hub_ok
proof unfold_locales
  show "hub_ok s \<Longrightarrow> hub_ok (on_subscribe s i)" for s i
    using hub_step_ok [of s "Subscribe i"] by simp
  show "hub_ok s \<Longrightarrow> hub_ok (on_unsubscribe s i)" for s i
    using hub_step_ok [of s "Unsubscribe i"] by simp
qed (auto simp: is_subed_def on_subscribe_def on_unsubscribe_def hub_ok_def)

subsection \<open>The state\<close>

datatype video_source = Monitor | Camera

fun service_name_prefix :: "video_source \<Rightarrow> string" where
  "service_name_prefix Monitor = ''monitor''"
| "service_name_prefix Camera = ''camera''"

definition get_service_name :: "video_source \<Rightarrow> nat \<Rightarrow> string" where
  "get_service_name source idx = service_name_prefix source @ decimal idx"

definition is_video_service_name :: "string \<Rightarrow> bool" where
  "is_video_service_name name = (take 7 name = service_name_prefix Monitor \<or> take 6 name = service_name_prefix Camera)"

definition PRIMARY_CAMERA_IDX :: nat where "PRIMARY_CAMERA_IDX = 0"

record server =
  connections :: "int list"
  services :: "(string \<times> service) list"
  id_count :: u32
  conn_count :: nat

record server_env =
  primary_display :: nat
  camera_exists :: bool
  file_clipboard_built :: bool
  cursor_embedded :: bool
  window_focus_supported :: bool

definition add_service :: "service \<Rightarrow> server \<Rightarrow> server" where
  "add_service s srv = srv\<lparr>services := AList.update (svc_name s) s (services srv)\<rparr>"

definition server_new :: "server_env \<Rightarrow> u32 \<Rightarrow> server" where
  "server_new e n =
     fold add_service
       ([service_new ''audio'' True, service_new ''display'' True, service_new ''clipboard'' False] @
        (if file_clipboard_built e then [service_new ''file-clipboard'' False] else []) @
        (if cursor_embedded e then []
         else [service_new ''mouse_cursor'' True, service_new ''mouse_pos'' False] @
           (if window_focus_supported e then [service_new ''window_focus'' False] else [])))
       \<lparr>connections = [], services = [], id_count = n, conn_count = 0\<rparr>"

definition contains :: "string \<Rightarrow> server \<Rightarrow> bool" where
  "contains name srv = (map_of (services srv) name \<noteq> None)"

definition video_service_new :: "video_source \<Rightarrow> nat \<Rightarrow> service" where
  "video_service_new source idx = service_new (get_service_name source idx) True"

definition ensure_video_service :: "video_source \<Rightarrow> nat \<Rightarrow> server \<Rightarrow> server" where
  "ensure_video_service source idx srv =
     (if contains (get_service_name source idx) srv then srv else add_service (video_service_new source idx) srv)"

definition try_add_primary_camera_service :: "server_env \<Rightarrow> server \<Rightarrow> server" where
  "try_add_primary_camera_service e srv =
     (if camera_exists e then ensure_video_service Camera PRIMARY_CAMERA_IDX srv else srv)"

definition try_add_primary_video_service :: "server_env \<Rightarrow> server \<Rightarrow> server" where
  "try_add_primary_video_service e srv = ensure_video_service Monitor (primary_display e) srv"

subsection \<open>The operations\<close>

definition on_service :: "string \<Rightarrow> (service \<Rightarrow> service) \<Rightarrow> server \<Rightarrow> server" where
  "on_service name f srv =
     (case map_of (services srv) name of
        Some s \<Rightarrow> srv\<lparr>services := AList.update name (f s) (services srv)\<rparr>
      | None \<Rightarrow> srv)"

definition add_camera_connection :: "server_env \<Rightarrow> int \<Rightarrow> server \<Rightarrow> server" where
  "add_camera_connection e i srv =
     (let srv1 = (if camera_exists e
        then on_service (get_service_name Camera PRIMARY_CAMERA_IDX) (\<lambda>s. on_subscribe s i) srv else srv)
      in srv1\<lparr>connections := add_id i (connections srv1)\<rparr>)"

definition add_connection :: "server_env \<Rightarrow> int \<Rightarrow> string list \<Rightarrow> server \<Rightarrow> server" where
  "add_connection e i noperms srv =
     (let primary = get_service_name Monitor (primary_display e);
          ss = map (\<lambda>(k, s).
            if is_video_service_name (svc_name s) \<and> svc_name s \<noteq> primary then (k, s)
            else if svc_name s \<notin> set noperms then (k, on_subscribe s i) else (k, s)) (services srv);
          cs = add_id i (connections srv)
      in srv\<lparr>services := ss, connections := cs, conn_count := length cs\<rparr>)"

definition remove_connection :: "int \<Rightarrow> server \<Rightarrow> server" where
  "remove_connection i srv =
     (let cs = removeAll i (connections srv)
      in srv\<lparr>services := map (\<lambda>(k, s). (k, on_unsubscribe s i)) (services srv), connections := cs,
          conn_count := length cs\<rparr>)"

text \<open>To whom the stop message goes.\<close>

definition close_connections :: "server \<Rightarrow> int list" where
  "close_connections srv = connections srv"

definition subscribe :: "string \<Rightarrow> int \<Rightarrow> bool \<Rightarrow> server \<Rightarrow> server" where
  "subscribe name i b srv =
     on_service name (\<lambda>s. if is_subed s i = b then s else if b then on_subscribe s i else on_unsubscribe s i) srv"

definition get_new_id :: "server \<Rightarrow> u32 \<times> server" where
  "get_new_id srv = (let n = id_count srv + 1 in (n, srv\<lparr>id_count := n\<rparr>))"

definition set_video_service_opt :: "(video_source \<times> nat) option \<Rightarrow> string \<Rightarrow> string \<Rightarrow> server \<Rightarrow> server" where
  "set_video_service_opt display opt v srv =
     srv\<lparr>services := map (\<lambda>(k, s).
       if (case display of Some (source, d) \<Rightarrow> k \<noteq> get_service_name source d | None \<Rightarrow> False) then (k, s)
       else if is_video_service_name k then (k, snd (set_option s opt v)) else (k, s)) (services srv)\<rparr>"

definition get_subbed_displays_count :: "int \<Rightarrow> server \<Rightarrow> nat" where
  "get_subbed_displays_count i srv =
     length (filter (\<lambda>k. is_video_service_name k \<and>
       (case map_of (services srv) k of Some s \<Rightarrow> is_subed s i | None \<Rightarrow> False)) (map fst (services srv)))"

definition capture_displays :: "int \<Rightarrow> video_source \<Rightarrow> nat list \<Rightarrow> bool \<Rightarrow> bool \<Rightarrow> server \<Rightarrow> server" where
  "capture_displays i source ds incl excl srv =
     (let displays = map (get_service_name source) ds
      in fold (\<lambda>name srv.
           if is_video_service_name name then
             (if name \<in> set displays then (if incl then subscribe name i True srv else srv)
              else (if excl then subscribe name i False srv else srv))
           else srv) (map fst (services srv)) srv)"

subsection \<open>Who is subscribed\<close>

definition server_ok :: "server \<Rightarrow> bool" where
  "server_ok srv \<longleftrightarrow> distinct (map fst (services srv)) \<and>
     (\<forall>(k, s) \<in> set (services srv). svc_name s = k \<and> hub_ok s)"

definition subbed :: "server \<Rightarrow> string \<Rightarrow> int \<Rightarrow> bool" where
  "subbed srv name i = (case map_of (services srv) name of Some s \<Rightarrow> is_subed s i | None \<Rightarrow> False)"

named_theorems server_simps \<open>subscriptions and names after an operation\<close>

lemma svc_name_simps [simp]:
  "svc_name (on_subscribe s i) = svc_name s" "svc_name (on_unsubscribe s i) = svc_name s"
  "svc_name (snd (set_option s opt v)) = svc_name s" "is_subed (snd (set_option s opt v)) i = is_subed s i"
  "hub_ok (snd (set_option s opt v)) = hub_ok s"
  by (simp_all add: on_subscribe_def on_unsubscribe_def set_option_def is_subed_def hub_ok_def)

lemma server_ok_hub: "server_ok srv \<Longrightarrow> map_of (services srv) name = Some s \<Longrightarrow> hub_ok s \<and> svc_name s = name"
  by (auto simp: server_ok_def dest: map_of_SomeD)

lemma contains_iff: "contains name srv \<longleftrightarrow> name \<in> set (map fst (services srv))"
  by (simp add: contains_def map_of_eq_None_iff)

lemma keys_update: "name \<in> set (map fst xs) \<Longrightarrow> map fst (AList.update name v xs) = map fst xs"
  by (induction xs) auto

lemma set_updated: "set (AList.update name v xs) \<subseteq> insert (name, v) (set xs)"
  by (induction xs) auto

lemma map_of_mapped: "map_of (map (\<lambda>(k, s). (k, f k s)) xs) n = map_option (f n) (map_of xs n)"
  by (induction xs) auto

lemma on_service_ok:
  assumes "server_ok srv" and "\<And>s. hub_ok s \<Longrightarrow> svc_name s = name \<Longrightarrow> hub_ok (f s) \<and> svc_name (f s) = name"
  shows "server_ok (on_service name f srv)" and "map fst (services (on_service name f srv)) = map fst (services srv)"
proof -
  have "server_ok (on_service name f srv) \<and> map fst (services (on_service name f srv)) = map fst (services srv)"
  proof (cases "map_of (services srv) name")
    case (Some s)
    then have k: "name \<in> set (map fst (services srv))" by (force dest: map_of_SomeD)
    have "set (AList.update name (f s) (services srv)) \<subseteq> insert (name, f s) (set (services srv))"
      by (rule set_updated)
    with assms server_ok_hub [OF assms(1) Some] k Some show ?thesis
      by (auto simp: on_service_def server_ok_def keys_update split_beta dest!: subsetD)
  qed (simp add: on_service_def assms)
  then show "server_ok (on_service name f srv)" "map fst (services (on_service name f srv)) = map fst (services srv)"
    by simp_all
qed

lemma subbed_on_service:
  "subbed (on_service name f srv) n i =
     (if n = name then (case map_of (services srv) name of Some s \<Rightarrow> is_subed (f s) i | None \<Rightarrow> False)
      else subbed srv n i)"
  by (simp add: subbed_def on_service_def update_conv split: option.split)

lemma subscribe_ok [intro]: "server_ok srv \<Longrightarrow> server_ok (subscribe name i b srv)"
  unfolding subscribe_def by (rule on_service_ok) (auto simp: hub.ok_wish)

lemma subscribe_contains [server_simps]:
  "server_ok srv \<Longrightarrow> contains n (subscribe name i b srv) = contains n srv"
  unfolding subscribe_def contains_iff by (subst on_service_ok) (auto simp: hub.ok_wish)

lemma subbed_subscribe [server_simps]:
  assumes "server_ok srv"
  shows "subbed (subscribe name i b srv) n j = (if n = name \<and> j = i \<and> contains name srv then b else subbed srv n j)"
proof (cases "map_of (services srv) name")
  case (Some s)
  with server_ok_hub [OF assms Some] show ?thesis
    by (auto simp: subscribe_def subbed_on_service contains_def hub.subed_wish) (auto simp: subbed_def)
qed (auto simp: subscribe_def subbed_on_service contains_def on_service_def)

text \<open>The contract of a table of subscriptions, on which the connections rely.\<close>

locale subscription_table =
  fixes subscr :: "'n \<Rightarrow> int \<Rightarrow> bool \<Rightarrow> 't \<Rightarrow> 't"
    and subs :: "'t \<Rightarrow> 'n \<Rightarrow> int \<Rightarrow> bool"
    and has :: "'n \<Rightarrow> 't \<Rightarrow> bool"
    and valid :: "'t \<Rightarrow> bool"
  assumes subs_subscr: "valid t \<Longrightarrow> subs (subscr m i b t) n j = (if n = m \<and> j = i \<and> has m t then b else subs t n j)"
    and has_subscr: "valid t \<Longrightarrow> has n (subscr m i b t) = has n t"
    and valid_subscr: "valid t \<Longrightarrow> valid (subscr m i b t)"
begin

lemma valid_all: "valid t \<Longrightarrow> valid (fold (\<lambda>(n, b). subscr n i b) ps t)"
  by (induction ps arbitrary: t) (auto simp: valid_subscr)

lemma has_all: "valid t \<Longrightarrow> has n (fold (\<lambda>(n, b). subscr n i b) ps t) = has n t"
  by (induction ps arbitrary: t) (auto simp: valid_subscr has_subscr)

text \<open>Of a row of wishes the last one for a name counts; the other connections are not touched.\<close>

lemma subs_all:
  "valid t \<Longrightarrow> subs (fold (\<lambda>(n, b). subscr n i b) ps t) n j =
    (if j = i \<and> has n t then (case map_of (rev ps) n of Some b \<Rightarrow> b | None \<Rightarrow> subs t n j) else subs t n j)"
proof (induction ps arbitrary: t)
  case (Cons p ps)
  obtain m b where p: "p = (m, b)" by (cases p)
  have "valid (subscr m i b t)" using Cons.prems by (rule valid_subscr)
  from Cons.IH [OF this] show ?case
    using Cons.prems by (auto simp: p has_subscr subs_subscr map_add_def split: option.split)
qed simp

end

interpretation table: subscription_table subscribe subbed contains server_ok
  by unfold_locales (auto simp: server_simps)

subsection \<open>The invariant\<close>

lemma add_service_ok:
  assumes "server_ok srv" and "hub_ok s" shows "server_ok (add_service s srv)"
  using assms set_updated [of "svc_name s" s "services srv"]
  by (auto simp: add_service_def server_ok_def distinct_update dest!: subsetD)

lemma fold_add_service_ok:
  "server_ok srv \<Longrightarrow> \<forall>s \<in> set ss. hub_ok s \<Longrightarrow> server_ok (fold add_service ss srv)"
  by (induction ss arbitrary: srv) (auto intro: add_service_ok)

lemma server_new_ok [simp]: "server_ok (server_new e n)"
  unfolding server_new_def by (rule fold_add_service_ok) (auto simp: server_ok_def)

lemma ensure_video_service_ok: "server_ok srv \<Longrightarrow> server_ok (ensure_video_service source idx srv)"
  by (simp add: ensure_video_service_def add_service_ok video_service_new_def)

lemma mapped_services_ok:
  assumes "server_ok srv" and "\<And>k s. hub_ok s \<Longrightarrow> hub_ok (f k s) \<and> svc_name (f k s) = svc_name s"
  shows "server_ok (srv\<lparr>services := map (\<lambda>(k, s). (k, f k s)) (services srv)\<rparr>)"
proof -
  have "fst \<circ> (\<lambda>(k, s). (k, f k s)) = fst" by auto
  with assms show ?thesis by (auto simp: server_ok_def)
qed

lemma add_connection_alt:
  "services (add_connection e i noperms srv) =
     map (\<lambda>(k, s). (k, if is_video_service_name (svc_name s) \<and> svc_name s \<noteq> get_service_name Monitor (primary_display e)
         \<or> svc_name s \<in> set noperms then s else on_subscribe s i)) (services srv)"
  by (auto simp: add_connection_def Let_def)

lemma add_connection_ok: "server_ok srv \<Longrightarrow> server_ok (add_connection e i noperms srv)"
  using mapped_services_ok [of srv "\<lambda>k s. if is_video_service_name (svc_name s) \<and>
      svc_name s \<noteq> get_service_name Monitor (primary_display e) \<or> svc_name s \<in> set noperms then s else on_subscribe s i"]
  by (simp add: server_ok_def add_connection_alt hub.ok_sub)

lemma remove_connection_ok: "server_ok srv \<Longrightarrow> server_ok (remove_connection i srv)"
  using mapped_services_ok [of srv "\<lambda>k s. on_unsubscribe s i"]
  by (simp add: server_ok_def remove_connection_def Let_def hub.ok_unsub)

lemma add_camera_connection_ok: "server_ok srv \<Longrightarrow> server_ok (add_camera_connection e i srv)"
  using on_service_ok(1) [of srv "get_service_name Camera PRIMARY_CAMERA_IDX" "\<lambda>s. on_subscribe s i"]
  by (simp add: add_camera_connection_def Let_def server_ok_def hub.ok_sub)

lemma set_video_service_opt_ok: "server_ok srv \<Longrightarrow> server_ok (set_video_service_opt d opt v srv)"
  using mapped_services_ok [of srv "\<lambda>k s. if (case d of Some (source, d) \<Rightarrow> k \<noteq> get_service_name source d | None \<Rightarrow> False)
      then s else if is_video_service_name k then snd (set_option s opt v) else s"]
  by (simp add: set_video_service_opt_def if_distrib [of "Pair _"] cong: if_cong)

lemma capture_step:
  assumes "server_ok srv"
  shows "server_ok (capture_displays i source ds incl excl srv)"
    and "contains n (capture_displays i source ds incl excl srv) = contains n srv"
    and "subbed (capture_displays i source ds incl excl srv) n j =
      (if j = i \<and> contains n srv \<and> is_video_service_name n then
         (if n \<in> set (map (get_service_name source) ds) then incl \<or> subbed srv n i else \<not> excl \<and> subbed srv n i)
       else subbed srv n j)"
proof -
  let ?d = "set (map (get_service_name source) ds)"
  let ?f = "\<lambda>name srv. if is_video_service_name name then
             (if name \<in> ?d then (if incl then subscribe name i True srv else srv)
              else (if excl then subscribe name i False srv else srv)) else srv"
  have "server_ok (fold ?f ks t) \<and> (contains n (fold ?f ks t) = contains n t) \<and>
      subbed (fold ?f ks t) n j =
        (if j = i \<and> contains n t \<and> is_video_service_name n \<and> n \<in> set ks then
           (if n \<in> ?d then incl \<or> subbed t n i else \<not> excl \<and> subbed t n i)
         else subbed t n j)" if "server_ok t" for ks t
    using that
  proof (induction ks arbitrary: t)
    case (Cons k ks)
    have ok: "server_ok (?f k t)" using Cons.prems by (auto intro: subscribe_ok)
    have cont: "contains n (?f k t) = contains n t" using Cons.prems by (auto simp: server_simps)
    have sub: "subbed (?f k t) n j = (if n = k \<and> j = i \<and> contains n t \<and> is_video_service_name n then
        (if n \<in> ?d then incl \<or> subbed t n i else \<not> excl \<and> subbed t n i) else subbed t n j)" for j
      using Cons.prems by (auto simp: server_simps)
    show ?case
      using Cons.IH [OF ok] unfolding cont sub by (simp del: fold_simps add: fold_simps(2)) blast
  qed simp
  note all = this [OF assms(1), of "map fst (services srv)"]
  have eq: "capture_displays i source ds incl excl srv = fold ?f (map fst (services srv)) srv"
    by (simp only: capture_displays_def Let_def)
  from all show "server_ok (capture_displays i source ds incl excl srv)"
    "contains n (capture_displays i source ds incl excl srv) = contains n srv" unfolding eq by blast+
  from all show "subbed (capture_displays i source ds incl excl srv) n j = (if j = i \<and> contains n srv \<and> is_video_service_name n then
         (if n \<in> ?d then incl \<or> subbed srv n i else \<not> excl \<and> subbed srv n i) else subbed srv n j)"
    unfolding eq contains_iff by simp
qed

lemma subbed_add_connection [server_simps]:
  assumes "server_ok srv"
  shows "subbed (add_connection e i noperms srv) n j =
    (if j = i \<and> contains n srv \<and> n \<notin> set noperms \<and>
        (is_video_service_name n \<longrightarrow> n = get_service_name Monitor (primary_display e)) then True else subbed srv n j)"
proof (cases "map_of (services srv) n")
  case (Some s)
  with server_ok_hub [OF assms Some] show ?thesis
    by (auto simp: subbed_def add_connection_alt map_of_mapped contains_def hub.subed_sub)
qed (auto simp: subbed_def add_connection_alt map_of_mapped contains_def)

lemma subbed_remove_connection [server_simps]:
  assumes "server_ok srv"
  shows "subbed (remove_connection i srv) n j \<longleftrightarrow> j \<noteq> i \<and> subbed srv n j"
proof (cases "map_of (services srv) n")
  case (Some s)
  with server_ok_hub [OF assms Some] show ?thesis
    by (auto simp: subbed_def remove_connection_def Let_def map_of_mapped hub.subed_unsub)
qed (auto simp: subbed_def remove_connection_def Let_def map_of_mapped)

subsection \<open>Runs\<close>

datatype server_op =
    TryPrimaryVideo
  | TryPrimaryCamera
  | EnsureVideo video_source nat
  | AddConnection int "string list"
  | AddCameraConnection int
  | RemoveConnection int
  | SubscribeTo string int bool
  | SetVideoOpt "(video_source \<times> nat) option" string string
  | CaptureDisplays int video_source "nat list" bool bool

fun server_step :: "server_env \<Rightarrow> server_op \<Rightarrow> server \<Rightarrow> server" where
  "server_step e TryPrimaryVideo srv = try_add_primary_video_service e srv"
| "server_step e TryPrimaryCamera srv = try_add_primary_camera_service e srv"
| "server_step e (EnsureVideo source d) srv = ensure_video_service source d srv"
| "server_step e (AddConnection i noperms) srv = add_connection e i noperms srv"
| "server_step e (AddCameraConnection i) srv = add_camera_connection e i srv"
| "server_step e (RemoveConnection i) srv = remove_connection i srv"
| "server_step e (SubscribeTo name i b) srv = subscribe name i b srv"
| "server_step e (SetVideoOpt d opt v) srv = set_video_service_opt d opt v srv"
| "server_step e (CaptureDisplays i source ds incl excl) srv = capture_displays i source ds incl excl srv"

fun mentions :: "int \<Rightarrow> server_op \<Rightarrow> bool" where
  "mentions i (AddConnection j noperms) = (j = i)"
| "mentions i (AddCameraConnection j) = (j = i)"
| "mentions i (SubscribeTo name j b) = (j = i)"
| "mentions i (CaptureDisplays j source ds incl excl) = (j = i)"
| "mentions i op = False"

lemma server_step_ok: "server_ok srv \<Longrightarrow> server_ok (server_step e op srv)"
  by (cases op)
    (auto simp: try_add_primary_video_service_def try_add_primary_camera_service_def capture_step
      intro: ensure_video_service_ok add_connection_ok add_camera_connection_ok remove_connection_ok
        set_video_service_opt_ok)

lemma server_run_ok: "server_ok srv \<Longrightarrow> server_ok (fold (server_step e) ops srv)"
  by (induction ops arbitrary: srv) (auto intro: server_step_ok)

lemma subbed_ensure: "subbed (ensure_video_service source d srv) n i \<longleftrightarrow> subbed srv n i"
  by (auto simp: ensure_video_service_def subbed_def add_service_def update_conv contains_def video_service_new_def
      service_new_def is_subed_def split: option.split)

lemma subbed_set_opt: "subbed (set_video_service_opt d opt v srv) n i \<longleftrightarrow> subbed srv n i"
proof -
  let ?f = "\<lambda>k s. if (case d of Some (source, d) \<Rightarrow> k \<noteq> get_service_name source d | None \<Rightarrow> False) then s
      else if is_video_service_name k then snd (set_option s opt v) else s"
  have "services (set_video_service_opt d opt v srv) = map (\<lambda>(k, s). (k, ?f k s)) (services srv)"
    by (auto simp: set_video_service_opt_def)
  then show ?thesis by (auto simp: subbed_def map_of_mapped split: option.split)
qed

lemma subbed_add_camera_connection [server_simps]:
  "subbed (add_camera_connection e i srv) n j \<longleftrightarrow>
    (if j = i \<and> camera_exists e \<and> n = get_service_name Camera PRIMARY_CAMERA_IDX \<and> contains n srv then True
     else subbed srv n j)"
proof -
  have "subbed (srv\<lparr>connections := cs\<rparr>) n j = subbed srv n j" for srv cs by (simp add: subbed_def)
  then show ?thesis
    by (auto simp: add_camera_connection_def Let_def subbed_on_service contains_def hub.subed_sub)
      (auto simp: subbed_def hub.subed_sub split: option.splits)
qed

text \<open>A connection that no operation mentions is subscribed to no more than before.\<close>

lemma unmentioned_step:
  assumes "server_ok srv" and "\<not> mentions i op" and "subbed (server_step e op srv) n i"
  shows "subbed srv n i"
  using assms
  by (cases op)
    (auto simp: server_simps subbed_ensure subbed_set_opt try_add_primary_video_service_def
      try_add_primary_camera_service_def capture_step split: if_splits)

lemma unmentioned_run:
  "server_ok srv \<Longrightarrow> \<forall>op \<in> set ops. \<not> mentions i op \<Longrightarrow> subbed (fold (server_step e) ops srv) n i \<Longrightarrow> subbed srv n i"
  by (induction ops arbitrary: srv) (auto dest: unmentioned_step intro: server_step_ok)

text \<open>
  C18. A connection that has left hears nothing.  Whatever the server did before, once a connection is removed
  and no operation names it again, it is subscribed to no service, and no message any service sends reaches
  it, however the operations of the service interleave.
\<close>

theorem left_connection_silent:
  assumes "\<forall>op \<in> set ops2. \<not> mentions i op"
    and "(name, s) \<in> set (services (fold (server_step e) (ops1 @ RemoveConnection i # ops2) (server_new e n)))"
    and "Subscribe i \<notin> set xs"
  shows "\<not> is_subed s i \<and> mailbox i (fst (hub_run s xs)) = []"
proof -
  let ?s1 = "fold (server_step e) ops1 (server_new e n)"
  let ?srv = "fold (server_step e) ops2 (remove_connection i ?s1)"
  have ok1: "server_ok ?s1" by (simp add: server_run_ok)
  from server_run_ok [OF remove_connection_ok [OF this]] have ok: "server_ok ?srv" .
  have mem: "(name, s) \<in> set (services ?srv)" using assms(2) by simp
  with ok have "map_of (services ?srv) name = Some s" and "hub_ok s"
    by (auto simp: server_ok_def)
  moreover have "\<not> subbed ?srv name i"
    using unmentioned_run [OF remove_connection_ok [OF ok1] assms(1)] ok1 by (auto simp: server_simps)
  ultimately show ?thesis
    using absent_silent [of s i xs] assms(3) by (auto simp: subbed_def)
qed

text \<open>
  Which displays a connection watches.  After a request to capture exactly a set of displays the
  connection is subscribed to just the video services of these displays among those that exist, and the
  other services and connections are as they were.
\<close>

theorem capture_exact:
  assumes "srv = fold (server_step e) ops (server_new e k)"
  shows "subbed (capture_displays i source ds True True srv) n j \<longleftrightarrow>
    (if j = i \<and> is_video_service_name n then contains n srv \<and> (\<exists>d \<in> set ds. n = get_service_name source d)
     else subbed srv n j)"
proof -
  have "server_ok srv" by (simp add: assms server_run_ok)
  from capture_step(3) [OF this, of i source ds True True n j] show ?thesis
    by (auto simp: contains_def subbed_def split: option.splits)
qed

definition small_env :: server_env where
  "small_env = \<lparr>primary_display = 0, camera_exists = False, file_clipboard_built = True, cursor_embedded = False,
     window_focus_supported = True\<rparr>"

lemma left_connection_silent_witness:
  "\<not> is_subed (service_new ''audio'' True) 7 \<and> mailbox 7 (fst (hub_run (service_new ''audio'' True) [Subscribe 8, SnapDrop, Send ()])) = []"
proof (rule left_connection_silent [where e = small_env and n = 0 and name = "''audio''" and
      ?ops1.0 = "[AddConnection 7 []]" and ?ops2.0 = "[TryPrimaryVideo]"])
  show "(''audio'', service_new ''audio'' True) \<in> set (services
      (fold (server_step small_env) ([AddConnection 7 []] @ RemoveConnection 7 # [TryPrimaryVideo]) (server_new small_env 0)))"
    by (simp add: server_new_def small_env_def add_service_def service_new_def add_connection_def Let_def
        is_video_service_name_def on_subscribe_def add_id_def remove_connection_def on_unsubscribe_def
        try_add_primary_video_service_def ensure_video_service_def contains_def video_service_new_def)
qed simp_all

lemma capture_exact_witness:
  "subbed (capture_displays 7 Monitor [0] True True (fold (server_step small_env) [TryPrimaryVideo] (server_new small_env 0)))
     (get_service_name Monitor 0) 7"
proof -
  have "is_video_service_name (get_service_name Monitor 0)" by (simp add: is_video_service_name_def get_service_name_def)
  moreover have "contains (get_service_name Monitor 0) (fold (server_step small_env) [TryPrimaryVideo] (server_new small_env 0))"
    by (simp add: try_add_primary_video_service_def ensure_video_service_def contains_def add_service_def
        video_service_new_def service_new_def update_conv small_env_def)
  ultimately show ?thesis
    using capture_exact [OF refl, of 7 Monitor "[0]" small_env "[TryPrimaryVideo]" 0 "get_service_name Monitor 0" 7] by simp
qed

end
