(* ===== verification/Privacy_Mode.thy ===== *)
theory Privacy_Mode
  imports Prelude
begin

text \<open>
  Privacy mode, \<^verbatim>\<open>src/privacy_mode.rs\<close>, its macOS implementation \<^verbatim>\<open>src/privacy_mode/macos.rs\<close>, and the
  requests of connections in \<^verbatim>\<open>src/server/connection.rs\<close>.

  The trait object is its key and the connection that turned it on, 0 for none; the two methods of an
  implementation that reach the system are in the record \<open>platform\<close>, with the set-up of the build.  An error
  is its text.
\<close>

subsection \<open>The trait\<close>

definition INVALID_PRIVACY_MODE_CONN_ID :: int where "INVALID_PRIVACY_MODE_CONN_ID = 0"

definition OCCUPIED :: string where "OCCUPIED = ''Privacy occupied by another one.''"

definition TURN_OFF_OTHER_ID :: string where
  "TURN_OFF_OTHER_ID = ''Failed to turn off privacy mode that belongs to someone else.''"

record privacy_impl =
  impl_key :: string
  pre_conn_id :: int

record platform =
  supported_impls :: "string list"
  creators :: "string list"
  default_impl :: string
  impl_option :: string
  is_async :: "string \<Rightarrow> bool"
  impl_turn_on :: "int \<Rightarrow> privacy_impl \<Rightarrow> (string + bool) \<times> privacy_impl"
  impl_turn_off :: "int \<Rightarrow> privacy_impl \<Rightarrow> (string + unit) \<times> privacy_impl"
  privacy_err :: "string \<Rightarrow> string"

definition check_on_conn_id :: "int \<Rightarrow> privacy_impl \<Rightarrow> string + bool" where
  "check_on_conn_id i p =
     (if pre_conn_id p = i then Inr True
      else if pre_conn_id p \<noteq> INVALID_PRIVACY_MODE_CONN_ID then Inl OCCUPIED
      else Inr False)"

definition check_off_conn_id :: "int \<Rightarrow> privacy_impl \<Rightarrow> string + unit" where
  "check_off_conn_id i p =
     (if pre_conn_id p \<noteq> INVALID_PRIVACY_MODE_CONN_ID \<and> i \<noteq> INVALID_PRIVACY_MODE_CONN_ID \<and> pre_conn_id p \<noteq> i
      then Inl TURN_OFF_OTHER_ID else Inr ())"

subsection \<open>The implementation of macOS\<close>

text \<open>The answers of \<^verbatim>\<open>MacSetPrivacyMode\<close> are an argument.\<close>

definition mac_turn_on :: "(bool \<Rightarrow> bool) \<Rightarrow> int \<Rightarrow> privacy_impl \<Rightarrow> (string + bool) \<times> privacy_impl" where
  "mac_turn_on set_mode i p =
     (case check_on_conn_id i p of
        Inl e \<Rightarrow> (Inl e, p)
      | Inr True \<Rightarrow> (Inr True, p)
      | Inr False \<Rightarrow>
          if \<not> set_mode True then (Inl ''Failed to turn on privacy mode'', p)
          else (Inr True, p\<lparr>pre_conn_id := i\<rparr>))"

definition mac_turn_off :: "(bool \<Rightarrow> bool) \<Rightarrow> int \<Rightarrow> privacy_impl \<Rightarrow> (string + unit) \<times> privacy_impl" where
  "mac_turn_off set_mode i p =
     (case check_off_conn_id i p of
        Inl e \<Rightarrow> (Inl e, p)
      | Inr _ \<Rightarrow>
          if \<not> set_mode False then (Inl ''Failed to turn off privacy mode'', p)
          else (Inr (), p\<lparr>pre_conn_id := INVALID_PRIVACY_MODE_CONN_ID\<rparr>))"

subsection \<open>The module\<close>

type_synonym privacy = "privacy_impl option"

definition get_supported_impl :: "platform \<Rightarrow> string \<Rightarrow> string" where
  "get_supported_impl pf key =
     (if key \<in> set (supported_impls pf) then key
      else if impl_option pf \<in> set (supported_impls pf) then impl_option pf
      else default_impl pf)"

definition create :: "string \<Rightarrow> privacy_impl" where
  "create key = \<lparr>impl_key = key, pre_conn_id = INVALID_PRIVACY_MODE_CONN_ID\<rparr>"

definition privacy_init :: "platform \<Rightarrow> privacy" where
  "privacy_init pf =
     (let key = (if impl_option pf \<in> set (supported_impls pf) then impl_option pf else default_impl pf)
      in if key \<in> set (creators pf) then Some (create key) else None)"

definition switch :: "platform \<Rightarrow> string \<Rightarrow> privacy \<Rightarrow> privacy" where
  "switch pf key p =
     (if (case p of Some q \<Rightarrow> impl_key q = key | None \<Rightarrow> False) then p
      else if key \<in> set (creators pf) then Some (create key) else p)"

definition turn_on_impl :: "platform \<Rightarrow> int \<Rightarrow> privacy \<Rightarrow> (string + bool) option \<times> privacy" where
  "turn_on_impl pf i p =
     (case p of
        None \<Rightarrow> (None, None)
      | Some q \<Rightarrow> (case impl_turn_on pf i q of (r, q') \<Rightarrow> (Some r, Some q')))"

definition switch_and_turn_on ::
  "platform \<Rightarrow> string \<Rightarrow> string \<Rightarrow> int \<Rightarrow> privacy \<Rightarrow> (string + bool) option \<times> privacy" where
  "switch_and_turn_on pf cur key i p =
     (if cur \<noteq> key then
        (if key \<in> set (creators pf) then turn_on_impl pf i (Some (create key))
         else (Some (Inl (''Unsupported privacy mode: '' @ key)), p))
      else turn_on_impl pf i p)"

definition turn_on_privacy_sync :: "platform \<Rightarrow> string \<Rightarrow> int \<Rightarrow> privacy \<Rightarrow> (string + bool) option \<times> privacy" where
  "turn_on_privacy_sync pf key i p =
     (let key' = get_supported_impl pf key;
          go = (\<lambda>cur. switch_and_turn_on pf cur key' i p)
      in case p of
           None \<Rightarrow> go []
         | Some q \<Rightarrow>
             (case check_on_conn_id i q of
                Inr True \<Rightarrow> if impl_key q = key' then (Some (Inr True), p) else go (impl_key q)
              | Inl e \<Rightarrow> (Some (Inl e), p)
              | Inr False \<Rightarrow> go (impl_key q)))"

text \<open>An asynchronous implementation may take more than 7.5 seconds; the work goes on.\<close>

definition turn_on_privacy_mode ::
  "platform \<Rightarrow> string \<Rightarrow> int \<Rightarrow> bool \<Rightarrow> privacy \<Rightarrow> (string + bool) option \<times> privacy" where
  "turn_on_privacy_mode pf key i late p =
     (case turn_on_privacy_sync pf key i p of
        (r, p') \<Rightarrow>
          (if (case p of Some q \<Rightarrow> is_async pf (impl_key q) | None \<Rightarrow> False) \<and> late
           then (Some (Inl ''deadline has elapsed''), p') else (r, p')))"

definition turn_off_privacy_mode :: "platform \<Rightarrow> int \<Rightarrow> privacy \<Rightarrow> (string + unit) option \<times> privacy" where
  "turn_off_privacy_mode pf i p =
     (case p of
        None \<Rightarrow> (None, None)
      | Some q \<Rightarrow> (case impl_turn_off pf i q of (r, q') \<Rightarrow> (Some r, Some q')))"

definition is_privacy_mode_supported :: "platform \<Rightarrow> bool" where
  "is_privacy_mode_supported pf = (default_impl pf \<noteq> [])"

definition get_privacy_mode_conn_id :: "privacy \<Rightarrow> int option" where
  "get_privacy_mode_conn_id p = map_option pre_conn_id p"

definition is_in_privacy_mode :: "privacy \<Rightarrow> bool" where
  "is_in_privacy_mode p = (case p of Some q \<Rightarrow> pre_conn_id q \<noteq> INVALID_PRIVACY_MODE_CONN_ID | None \<Rightarrow> False)"

definition is_current_privacy_mode_impl :: "string \<Rightarrow> privacy \<Rightarrow> bool" where
  "is_current_privacy_mode_impl key p = (case p of Some q \<Rightarrow> impl_key q = key | None \<Rightarrow> False)"

subsection \<open>The requests of a connection\<close>

datatype privacy_state =
    PrvNotSupported | PrvOnSucceeded | PrvOnFailed | PrvOnFailedPlugin | PrvOffSucceeded | PrvOffFailed

text \<open>A message to the peer: the state, the details and the key.\<close>

type_synonym privacy_msg = "privacy_state \<times> string \<times> string"

definition UNSUPPORTED :: string where
  "UNSUPPORTED = ''Unsupported. 1 Multi-screen is not supported. 2 Please confirm the license is activated.''"

definition turn_off_privacy_to_msg :: "platform \<Rightarrow> int \<Rightarrow> privacy \<Rightarrow> privacy_msg \<times> privacy" where
  "turn_off_privacy_to_msg pf i p =
     (case turn_off_privacy_mode pf i p of
        (Some (Inr _), p') \<Rightarrow> ((PrvOffSucceeded, [], []), p')
      | (Some (Inl e), p') \<Rightarrow> ((PrvOffFailed, e, []), p')
      | (None, p') \<Rightarrow> ((PrvOffFailed, ''Not supported'', []), p'))"

definition turn_off_privacy :: "platform \<Rightarrow> int \<Rightarrow> string \<Rightarrow> privacy \<Rightarrow> privacy_msg list \<times> privacy" where
  "turn_off_privacy pf i key p =
     (if \<not> is_privacy_mode_supported pf then ([(PrvNotSupported, UNSUPPORTED, key)], p)
      else (case turn_off_privacy_to_msg pf i p of (m, p') \<Rightarrow> ([m], p')))"

definition turn_on_privacy :: "platform \<Rightarrow> int \<Rightarrow> string \<Rightarrow> bool \<Rightarrow> privacy \<Rightarrow> privacy_msg list \<times> privacy" where
  "turn_on_privacy pf i key late p =
     (if \<not> is_privacy_mode_supported pf then ([(PrvNotSupported, UNSUPPORTED, key)], p)
      else
        (let off = (case p of
               Some q \<Rightarrow> if is_in_privacy_mode p \<and> \<not> is_current_privacy_mode_impl (impl_key q) p
                 then [(PrvOffSucceeded, [], impl_key q)] else []
             | None \<Rightarrow> [])
         in case turn_on_privacy_mode pf key i late p of
              (Some (Inr True), p1) \<Rightarrow>
                (let err = (case p1 of Some q \<Rightarrow> privacy_err pf (impl_key q) | None \<Rightarrow> [])
                 in if err = [] then (off @ [(PrvOnSucceeded, [], key)], p1)
                    else (off @ [(PrvOnFailed, err, key)], snd (turn_off_privacy_to_msg pf i p1)))
            | (Some (Inr False), p1) \<Rightarrow> (off @ [(PrvOnFailedPlugin, [], key)], p1)
            | (Some (Inl e), p1) \<Rightarrow>
                (off @ [(PrvOnFailed, e, key)],
                 if is_in_privacy_mode p1 then snd (turn_off_privacy_to_msg pf INVALID_PRIVACY_MODE_CONN_ID p1) else p1)
            | (None, p1) \<Rightarrow> (off @ [(PrvOffFailed, ''Not supported'', key)], p1)))"

definition toggle_privacy_mode :: "platform \<Rightarrow> int \<Rightarrow> bool \<Rightarrow> string \<Rightarrow> bool \<Rightarrow> privacy \<Rightarrow> privacy_msg list \<times> privacy" where
  "toggle_privacy_mode pf i on key late p =
     (if on then turn_on_privacy pf i key late p else turn_off_privacy pf i key p)"

text \<open>The end of a connection.\<close>

definition privacy_on_close :: "platform \<Rightarrow> int \<Rightarrow> privacy \<Rightarrow> privacy" where
  "privacy_on_close pf i p =
     (if get_privacy_mode_conn_id p = Some i then snd (turn_off_privacy_to_msg pf i p) else p)"

subsection \<open>The contract of an implementation\<close>

definition owner :: "privacy \<Rightarrow> int" where
  "owner p = (case p of Some q \<Rightarrow> pre_conn_id q | None \<Rightarrow> INVALID_PRIVACY_MODE_CONN_ID)"

locale privacy_provider =
  fixes on :: "int \<Rightarrow> privacy_impl \<Rightarrow> (string + bool) \<times> privacy_impl"
    and off :: "int \<Rightarrow> privacy_impl \<Rightarrow> (string + unit) \<times> privacy_impl"
  assumes on_key: "on i q = (r, q') \<Longrightarrow> impl_key q' = impl_key q"
    and off_key: "off i q = (u, q') \<Longrightarrow> impl_key q' = impl_key q"
    and on_owner: "on i q = (r, q') \<Longrightarrow> pre_conn_id q' = pre_conn_id q \<or> pre_conn_id q = 0 \<and> pre_conn_id q' = i"
    and on_true: "on i q = (Inr True, q') \<Longrightarrow> pre_conn_id q' = i"
    and on_occupied: "pre_conn_id q \<noteq> 0 \<Longrightarrow> pre_conn_id q \<noteq> i \<Longrightarrow> on i q = (Inl OCCUPIED, q)"
    and off_other: "pre_conn_id q \<noteq> 0 \<Longrightarrow> i \<noteq> 0 \<Longrightarrow> pre_conn_id q \<noteq> i \<Longrightarrow> off i q = (Inl TURN_OFF_OTHER_ID, q)"
    and off_owner: "off i q = (u, q') \<Longrightarrow> pre_conn_id q' = pre_conn_id q \<or> pre_conn_id q' = 0"
    and off_ok: "off i q = (Inr (), q') \<Longrightarrow> pre_conn_id q' = 0"
begin

lemma turn_on_impl_owner:
  assumes "impl_turn_on pf = on" and "turn_on_impl pf i (Some q) = (r, p')"
  shows "owner p' = pre_conn_id q \<or> pre_conn_id q = 0 \<and> owner p' = i" and "r = Some (Inr True) \<Longrightarrow> owner p' = i"
proof -
  obtain r1 q1 where on: "on i q = (r1, q1)" by (cases "on i q")
  with assms have "r = Some r1" "p' = Some q1" by (simp_all add: turn_on_impl_def)
  with on_owner [OF on] on_true [of i q q1] on
  show "owner p' = pre_conn_id q \<or> pre_conn_id q = 0 \<and> owner p' = i" "r = Some (Inr True) \<Longrightarrow> owner p' = i"
    by (auto simp: owner_def)
qed

lemma switched_owner:
  assumes on: "impl_turn_on pf = on" and ow: "owner p \<in> {0, i}"
    and "switch_and_turn_on pf cur key i p = (r, p')"
  shows "owner p' \<in> {0, i}" and "r = Some (Inr True) \<Longrightarrow> owner p' = i"
proof -
  note go = assms(3) [unfolded switch_and_turn_on_def]
  have "owner p' \<in> {0, i} \<and> (r = Some (Inr True) \<longrightarrow> owner p' = i)"
  proof (cases "cur = key")
    case True
    show ?thesis
    proof (cases p)
      case None
      with go True show ?thesis by (auto simp: turn_on_impl_def owner_def INVALID_PRIVACY_MODE_CONN_ID_def)
    next
      case (Some q)
      with go True have "turn_on_impl pf i (Some q) = (r, p')" by simp
      from turn_on_impl_owner [OF on this] ow Some show ?thesis by (auto simp: owner_def)
    qed
  next
    case False
    show ?thesis
    proof (cases "key \<in> set (creators pf)")
      case True
      with go False have "turn_on_impl pf i (Some (create key)) = (r, p')" by simp
      from turn_on_impl_owner [OF on this] show ?thesis by (auto simp: create_def INVALID_PRIVACY_MODE_CONN_ID_def)
    qed (use go False ow in auto)
  qed
  then show "owner p' \<in> {0, i}" "r = Some (Inr True) \<Longrightarrow> owner p' = i" by simp_all
qed

lemma sync_owner:
  assumes on: "impl_turn_on pf = on" and sync: "turn_on_privacy_sync pf key i p = (r, p')"
  shows "owner p' = owner p \<or> owner p' \<in> {0, i} \<and> owner p \<in> {0, i}"
    and "r = Some (Inr True) \<Longrightarrow> owner p' = i"
proof -
  note go = switched_owner [OF on]
  have "(owner p' = owner p \<or> owner p' \<in> {0, i} \<and> owner p \<in> {0, i}) \<and> (r = Some (Inr True) \<longrightarrow> owner p' = i)"
  proof (cases p)
    case None
    then have "owner p \<in> {0, i}" by (simp add: owner_def INVALID_PRIVACY_MODE_CONN_ID_def)
    with go [OF this, of "[]" "get_supported_impl pf key" r p'] sync None show ?thesis
      by (auto simp: turn_on_privacy_sync_def)
  next
    case (Some q)
    consider (same) "pre_conn_id q = i" | (occupied) "pre_conn_id q \<noteq> i" "pre_conn_id q \<noteq> 0"
      | (free) "pre_conn_id q \<noteq> i" "pre_conn_id q = 0" by blast
    then show ?thesis
    proof cases
      case same
      then have c: "check_on_conn_id i q = Inr True" and ow: "owner p \<in> {0, i}"
        by (simp_all add: check_on_conn_id_def owner_def Some)
      show ?thesis
      proof (cases "impl_key q = get_supported_impl pf key")
        case True
        with sync Some c same show ?thesis by (auto simp: turn_on_privacy_sync_def owner_def)
      next
        case False
        with go [OF ow, of "impl_key q" "get_supported_impl pf key" r p'] sync Some c ow show ?thesis
          by (auto simp: turn_on_privacy_sync_def)
      qed
    next
      case occupied
      with sync Some show ?thesis
        by (auto simp: turn_on_privacy_sync_def check_on_conn_id_def INVALID_PRIVACY_MODE_CONN_ID_def)
    next
      case free
      then have c: "check_on_conn_id i q = Inr False" and ow: "owner p \<in> {0, i}"
        by (simp_all add: check_on_conn_id_def owner_def Some INVALID_PRIVACY_MODE_CONN_ID_def)
      from sync Some c have "switch_and_turn_on pf (impl_key q) (get_supported_impl pf key) i p = (r, p')"
        by (simp add: turn_on_privacy_sync_def)
      from go [OF ow this] ow show ?thesis by blast
    qed
  qed
  then show "owner p' = owner p \<or> owner p' \<in> {0, i} \<and> owner p \<in> {0, i}"
    "r = Some (Inr True) \<Longrightarrow> owner p' = i" by simp_all
qed

lemma to_msg_owner:
  assumes "impl_turn_off pf = off"
  shows "owner (snd (turn_off_privacy_to_msg pf i p)) \<in> {owner p, 0}"
    and "owner p \<noteq> 0 \<Longrightarrow> i \<noteq> 0 \<Longrightarrow> owner p \<noteq> i \<Longrightarrow> owner (snd (turn_off_privacy_to_msg pf i p)) = owner p"
  using assms off_owner [of i "the p"] off_other [of "the p" i]
  by (auto simp: turn_off_privacy_to_msg_def turn_off_privacy_mode_def owner_def INVALID_PRIVACY_MODE_CONN_ID_def
      split: option.split prod.split sum.split)

lemma on_owner_step:
  assumes pf: "impl_turn_on pf = on" "impl_turn_off pf = off" and res: "turn_on_privacy pf i key late p = (ms, p')"
  shows "owner p' = owner p \<or> owner p' = 0 \<or> owner p = 0 \<and> owner p' = i"
    and "(PrvOnSucceeded, [], key) \<in> set ms \<Longrightarrow> owner p' = i"
proof -
  obtain r p1 where sync: "turn_on_privacy_sync pf key i p = (r, p1)" by (cases "turn_on_privacy_sync pf key i p")
  then obtain r' where mode: "turn_on_privacy_mode pf key i late p = (r', p1)" and r': "r' = r \<or> r' = Some (Inl ''deadline has elapsed'')"
    by (cases "(case p of Some q \<Rightarrow> is_async pf (impl_key q) | None \<Rightarrow> False) \<and> late")
      (simp_all add: turn_on_privacy_mode_def)
  have p1: "owner p1 = owner p \<or> owner p1 = 0 \<or> owner p = 0 \<and> owner p1 = i"
    using sync_owner(1) [OF pf(1) sync] by auto
  have succ: "owner p1 = i" if "r' = Some (Inr True)" using sync_owner(2) [OF pf(1) sync] r' that by auto
  have "owner p' \<in> {owner p, owner p1, 0} \<and> ((PrvOnSucceeded, [], key) \<in> set ms \<longrightarrow> r' = Some (Inr True) \<and> p' = p1)"
    using res to_msg_owner(1) [OF pf(2), where p = p1 and i = i] to_msg_owner(1) [OF pf(2), where p = p1 and i = INVALID_PRIVACY_MODE_CONN_ID]
    unfolding turn_on_privacy_def mode Let_def
    by (auto split: if_splits option.splits sum.splits bool.splits)
  with p1 succ show "owner p' = owner p \<or> owner p' = 0 \<or> owner p = 0 \<and> owner p' = i"
    "(PrvOnSucceeded, [], key) \<in> set ms \<Longrightarrow> owner p' = i" by auto
qed

lemma off_owner_step:
  assumes "impl_turn_off pf = off" and "turn_off_privacy pf i key p = (ms, p')"
  shows "owner p' = owner p \<or> owner p' = 0" and "owner p \<noteq> 0 \<Longrightarrow> i \<noteq> 0 \<Longrightarrow> owner p \<noteq> i \<Longrightarrow> owner p' = owner p"
  using assms(2) to_msg_owner [OF assms(1), where p = p and i = i]
  by (auto simp: turn_off_privacy_def split: if_splits prod.splits)

lemma close_owner_step:
  "impl_turn_off pf = off \<Longrightarrow> owner (privacy_on_close pf i p) \<in> {owner p, 0}"
  using to_msg_owner(1) [where pf = pf and i = i and p = p] by (simp add: privacy_on_close_def)

end

interpretation mac: privacy_provider "mac_turn_on set_mode" "mac_turn_off set_mode" for set_mode
  by unfold_locales
    (auto simp: mac_turn_on_def mac_turn_off_def check_on_conn_id_def check_off_conn_id_def
      INVALID_PRIVACY_MODE_CONN_ID_def split: if_splits)


subsection \<open>Runs\<close>

datatype privacy_event =
    Toggle int bool string bool
  | ConnClosed int

fun privacy_step :: "platform \<Rightarrow> privacy_event \<Rightarrow> privacy \<Rightarrow> privacy" where
  "privacy_step pf (Toggle i on key late) p = snd (toggle_privacy_mode pf i on key late p)"
| "privacy_step pf (ConnClosed i) p = privacy_on_close pf i p"

definition mac_platform :: "(bool \<Rightarrow> bool) \<Rightarrow> platform" where
  "mac_platform set_mode =
     \<lparr>supported_impls = [''privacy_mode_impl_macos''], creators = [''privacy_mode_impl_macos''],
      default_impl = ''privacy_mode_impl_macos'', impl_option = [], is_async = (\<lambda>_. False),
      impl_turn_on = mac_turn_on set_mode, impl_turn_off = mac_turn_off set_mode, privacy_err = (\<lambda>_. [])\<rparr>"

lemma mac_platform_simps [simp]:
  "impl_turn_on (mac_platform m) = mac_turn_on m" "impl_turn_off (mac_platform m) = mac_turn_off m"
  "is_privacy_mode_supported (mac_platform m)" "privacy_err (mac_platform m) key = []"
  by (simp_all add: mac_platform_def is_privacy_mode_supported_def)

lemma mac_off_releases:
  "set_mode False \<Longrightarrow> i = owner p \<or> i = 0 \<Longrightarrow> owner (snd (turn_off_privacy_to_msg (mac_platform set_mode) i p)) = 0"
  by (auto simp: turn_off_privacy_to_msg_def turn_off_privacy_mode_def mac_turn_off_def check_off_conn_id_def owner_def
      INVALID_PRIVACY_MODE_CONN_ID_def split: option.split)

lemma mac_release:
  assumes "set_mode False"
  shows "owner p = i \<Longrightarrow> owner (snd (turn_off_privacy (mac_platform set_mode) i key p)) = 0"
    and "owner p = i \<Longrightarrow> owner (privacy_on_close (mac_platform set_mode) i p) = 0"
  using mac_off_releases [where set_mode = set_mode and i = i and p = p] assms
  by (auto simp: turn_off_privacy_def privacy_on_close_def get_privacy_mode_conn_id_def split: prod.split option.splits)
    (auto simp: owner_def INVALID_PRIVACY_MODE_CONN_ID_def split: option.splits)

text \<open>
  Privacy mode is on only for a connection that asked for it and is still there.  Where turning off works,
  whatever requests the connections make and whenever they close, the owner of the privacy mode has asked for
  it, and has since neither asked for the opposite nor closed.
\<close>

theorem privacy_owner_asked:
  assumes "set_mode False" and "i \<noteq> 0"
    and "owner (fold (privacy_step (mac_platform set_mode)) es (privacy_init (mac_platform set_mode))) = i"
  shows "\<exists>xs key late ys. es = xs @ Toggle i True key late # ys \<and>
    (\<forall>y \<in> set ys. y \<noteq> ConnClosed i \<and> (\<forall>key late. y \<noteq> Toggle i False key late))"
  using assms(3)
proof (induction es rule: rev_induct)
  case Nil
  with assms(2) show ?case
    by (simp add: privacy_init_def mac_platform_def Let_def owner_def create_def INVALID_PRIVACY_MODE_CONN_ID_def)
next
  case (snoc e es)
  let ?pf = "mac_platform set_mode"
  let ?p = "fold (privacy_step ?pf) es (privacy_init ?pf)"
  from snoc.prems have now: "owner (privacy_step ?pf e ?p) = i" by simp
  show ?case
  proof (cases "owner ?p = i")
    case True
    from snoc.IH [OF True] obtain xs key late ys where es: "es = xs @ Toggle i True key late # ys"
      and ys: "\<forall>y \<in> set ys. y \<noteq> ConnClosed i \<and> (\<forall>key late. y \<noteq> Toggle i False key late)" by blast
    have "e \<noteq> ConnClosed i"
    proof
      assume "e = ConnClosed i"
      with now mac_release(2) [where set_mode = set_mode and i = i and p = ?p] True assms(1,2) show False by simp
    qed
    moreover have "e \<noteq> Toggle i False key late" for key late
    proof
      assume "e = Toggle i False key late"
      with now mac_release(1) [where set_mode = set_mode and i = i and p = ?p and key = key] True assms(1,2)
      show False by (simp add: toggle_privacy_mode_def)
    qed
    ultimately have "e \<noteq> ConnClosed i" "\<forall>key late. e \<noteq> Toggle i False key late" by blast+
    with ys have "\<forall>y \<in> set (ys @ [e]). y \<noteq> ConnClosed i \<and> (\<forall>key late. y \<noteq> Toggle i False key late)" by auto
    moreover have "es @ [e] = xs @ Toggle i True key late # ys @ [e]" by (simp add: es)
    ultimately show ?thesis by blast
  next
    case False
    obtain key late where "e = Toggle i True key late"
    proof (cases e)
      case (Toggle j on key late)
      obtain ms p' where res: "toggle_privacy_mode ?pf j on key late ?p = (ms, p')"
        by (cases "toggle_privacy_mode ?pf j on key late ?p")
      with now Toggle have p': "owner p' = i" by simp
      show ?thesis
      proof (cases on)
        case True
        with res have "turn_on_privacy ?pf j key late ?p = (ms, p')" by (simp add: toggle_privacy_mode_def)
        from mac.on_owner_step(1) [OF _ _ this] p' False assms(2) have "j = i" by auto
        with Toggle True that show ?thesis by simp
      next
        case off: False
        with res have "turn_off_privacy ?pf j key ?p = (ms, p')" by (simp add: toggle_privacy_mode_def)
        from mac.off_owner_step(1) [OF _ this] p' False assms(2) show ?thesis by auto
      qed
    next
      case (ConnClosed j)
      with now mac.close_owner_step [of ?pf set_mode j ?p] False assms(2) show ?thesis by auto
    qed
    then have "es @ [e] = es @ Toggle i True key late # []" by simp
    then show ?thesis by fastforce
  qed
qed

text \<open>
  C19. A refused request ends the privacy of another.  When a connection asks for privacy mode that belongs to
  another one, it is told that privacy mode is occupied, and the privacy mode of the other is turned off: the
  error path turns off without naming a connection.
\<close>

theorem refused_request_exposes:
  assumes "set_mode False" and "owner p \<noteq> 0" and "owner p \<noteq> i" and "i \<noteq> 0"
  shows "toggle_privacy_mode (mac_platform set_mode) i True key late p =
      ([(PrvOnFailed, OCCUPIED, key)], map_option (\<lambda>q. q\<lparr>pre_conn_id := 0\<rparr>) p)"
proof -
  let ?pf = "mac_platform set_mode"
  from assms(2) obtain q where p: "p = Some q" by (cases p) (auto simp: owner_def INVALID_PRIVACY_MODE_CONN_ID_def)
  with assms(2,3) have q: "pre_conn_id q \<noteq> 0" "pre_conn_id q \<noteq> i" by (simp_all add: owner_def)
  have sync: "turn_on_privacy_sync ?pf key i p = (Some (Inl OCCUPIED), p)"
    using q p by (simp add: turn_on_privacy_sync_def check_on_conn_id_def INVALID_PRIVACY_MODE_CONN_ID_def)
  then have mode: "turn_on_privacy_mode ?pf key i late p = (Some (Inl OCCUPIED), p)"
    by (simp add: turn_on_privacy_mode_def mac_platform_def p)
  show ?thesis
    unfolding toggle_privacy_mode_def turn_on_privacy_def mode
    using q assms(1)
    by (simp add: p is_in_privacy_mode_def is_current_privacy_mode_impl_def turn_off_privacy_to_msg_def
        turn_off_privacy_mode_def mac_turn_off_def check_off_conn_id_def INVALID_PRIVACY_MODE_CONN_ID_def)
qed

subsection \<open>Instances\<close>

lemma mac_init: "privacy_init (mac_platform m) = Some (create ''privacy_mode_impl_macos'')"
  by (simp add: privacy_init_def mac_platform_def Let_def)

lemma mac_asked:
  "snd (toggle_privacy_mode (mac_platform (\<lambda>_. True)) 1001 True [] False (privacy_init (mac_platform (\<lambda>_. True)))) =
    Some \<lparr>impl_key = ''privacy_mode_impl_macos'', pre_conn_id = 1001\<rparr>"
proof -
  have "turn_on_privacy_mode (mac_platform (\<lambda>_. True)) [] 1001 False (Some (create ''privacy_mode_impl_macos'')) =
      (Some (Inr True), Some \<lparr>impl_key = ''privacy_mode_impl_macos'', pre_conn_id = 1001\<rparr>)"
    by (simp add: turn_on_privacy_mode_def turn_on_privacy_sync_def get_supported_impl_def switch_and_turn_on_def
        turn_on_impl_def create_def check_on_conn_id_def mac_turn_on_def INVALID_PRIVACY_MODE_CONN_ID_def
        mac_platform_def)
  then show ?thesis by (simp add: mac_init toggle_privacy_mode_def turn_on_privacy_def Let_def)
qed

lemma privacy_owner_asked_witness:
  "\<exists>xs key late ys. [Toggle 1001 True [] False, ConnClosed 1002] = xs @ Toggle 1001 True key late # ys \<and>
    (\<forall>y \<in> set ys. y \<noteq> ConnClosed 1001 \<and> (\<forall>key late. y \<noteq> Toggle 1001 False key late))"
  by (rule privacy_owner_asked [where set_mode = "\<lambda>_. True"])
    (simp_all add: mac_asked privacy_on_close_def get_privacy_mode_conn_id_def owner_def)

lemma refused_request_exposes_witness:
  "toggle_privacy_mode (mac_platform (\<lambda>_. True)) 1002 True [] False
     (Some \<lparr>impl_key = ''privacy_mode_impl_macos'', pre_conn_id = 1001\<rparr>) =
   ([(PrvOnFailed, OCCUPIED, [])],
     map_option (\<lambda>q. q\<lparr>pre_conn_id := 0\<rparr>) (Some \<lparr>impl_key = ''privacy_mode_impl_macos'', pre_conn_id = 1001\<rparr>))"
  by (rule refused_request_exposes) (simp_all add: owner_def)

end
