(* ===== verification/Session_Control.thy ===== *)
theory Session_Control
  imports Login Server Privacy_Mode
begin

text \<open>
  The permissions and options of an authorised connection, \<^verbatim>\<open>src/server/connection.rs\<close>: what the local user
  grants (\<^verbatim>\<open>SwitchPermission\<close>), what the peer asks for (\<^verbatim>\<open>update_options\<close>), and the services the connection is
  subscribed to on their account.

  The state of a handler is the connection with the server it belongs to; the server outlives its connections.
  A handler yields its effects in order: messages to the peer and to the connection manager, input for the
  input thread, settings of other components.  The operating system and the features are in \<open>build\<close>; a field of
  an option message with an unknown value is not set, except for the image quality.
\<close>

subsection \<open>The state\<close>

datatype os_kind = Windows | Linux | MacOS

record build =
  os_kind :: os_kind
  unix_file_copy_paste :: bool
  is_win10 :: bool
  whiteboard_supported :: bool

datatype bool_option = NotSet | No | Yes

datatype image_quality = QualityUnknown | QualityNotSet | QualityLow | QualityBalanced | QualityBest

record option_message =
  opt_image_quality :: image_quality
  opt_custom_image_quality :: int
  opt_custom_fps :: int
  opt_supported_decoding :: "nat option"
  opt_lock_after_session_end :: bool_option
  opt_show_remote_cursor :: bool_option
  opt_follow_remote_cursor :: bool_option
  opt_follow_remote_window :: bool_option
  opt_disable_audio :: bool_option
  opt_enable_file_transfer :: bool_option
  opt_disable_clipboard :: bool_option
  opt_disable_keyboard :: bool_option
  opt_privacy_mode :: bool_option
  opt_block_input :: bool_option
  opt_show_my_cursor :: bool_option

record control =
  base :: connection
  authed :: "auth_conn_type option"
  keyboard :: bool
  clipboard :: bool
  audio :: bool
  perm_file :: bool
  restart :: bool
  recording :: bool
  block_input :: bool
  disable_keyboard :: bool
  disable_clipboard :: bool
  disable_audio :: bool
  enable_file_transfer :: bool
  show_my_cursor :: bool
  show_remote_cursor :: bool
  follow_remote_cursor :: bool
  follow_remote_window :: bool
  lock_after_session_end :: bool
  services_subed :: bool
  multi_ui_session :: bool
  voice_calling :: bool
  voice_call_request :: "int option"
  display_idx :: nat
  options_in_login :: "option_message option"
  auto_disconnect :: "(nat \<times> nat) option"
  delayed_read_dir :: "(string \<times> bool) option"

datatype permission_kind =
    PermKeyboard | PermClipboard | PermAudio | PermFile | PermRestart | PermRecording | PermBlockInput | PermCamera

datatype effect =
    SendPermission permission_kind bool
  | BlockInputError bool
  | BlockInput bool
  | MessageBox string
  | QosQuality int
  | QosFps int
  | EncoderUpdate nat
  | TogglePrivacy bool string
  | RegisterCursor bool
  | ClipboardFileEnabled bool
  | EmptyFileClipboard
  | ReadDir string bool
  | VoiceCallResponse int bool
  | CmVoiceCall bool
  | CmVoiceCallIncoming
  | VoiceCallInput bool
  | DisplayChanged nat
  | ChangeResolution "nat option" int int

type_synonym ctl = "control \<times> server"
type_synonym step = "ctl \<Rightarrow> effect list \<times> ctl"

fun run_steps :: "step list \<Rightarrow> step" where
  "run_steps [] st = ([], st)"
| "run_steps (f # fs) st = (case f st of (es, st1) \<Rightarrow> (case run_steps fs st1 of (es', st2) \<Rightarrow> (es @ es', st2)))"

definition cid :: "control \<Rightarrow> int" where "cid c = conn_id (base c)"

subsection \<open>What the permissions and options amount to\<close>

definition peer_keyboard_enabled :: "control \<Rightarrow> bool" where
  "peer_keyboard_enabled c = (keyboard c \<and> \<not> disable_keyboard c)"

definition clipboard_enabled :: "control \<Rightarrow> bool" where
  "clipboard_enabled c = (clipboard c \<and> \<not> disable_clipboard c)"

definition audio_enabled :: "control \<Rightarrow> bool" where
  "audio_enabled c = (audio c \<and> \<not> disable_audio c)"

definition file_transfer_enabled :: "control \<Rightarrow> bool" where
  "file_transfer_enabled c = (perm_file c \<and> enable_file_transfer c)"

definition can_sub_clipboard_service :: "env \<Rightarrow> control \<Rightarrow> bool" where
  "can_sub_clipboard_service e c =
     (clipboard_enabled c \<and> peer_keyboard_enabled c \<and> builtin_option e ''one-way-clipboard-redirection'' \<noteq> ''Y'')"

definition can_sub_file_clipboard_service :: "env \<Rightarrow> control \<Rightarrow> bool" where
  "can_sub_file_clipboard_service e c =
     (clipboard_enabled c \<and> file_transfer_enabled c \<and> builtin_option e ''one-way-file-transfer'' \<noteq> ''Y'')"

definition is_remote :: "control \<Rightarrow> bool" where
  "is_remote c = (file_transfer (base c) = None \<and> \<not> port_forward_socket (base c) \<and> \<not> view_camera (base c) \<and>
     \<not> terminal (base c))"

definition is_authed_remote_conn :: "control \<Rightarrow> bool" where
  "is_authed_remote_conn c = (authed c = Some Remote)"

definition is_authed_view_camera_conn :: "control \<Rightarrow> bool" where
  "is_authed_view_camera_conn c = (authed c = Some ViewCamera)"

definition control_new :: "env \<Rightarrow> connection \<Rightarrow> nat \<Rightarrow> control" where
  "control_new e c primary =
     \<lparr>base = c, authed = None, keyboard = permission e ''enable-keyboard'', clipboard = permission e ''enable-clipboard'',
      audio = permission e ''enable-audio'', perm_file = permission e ''enable-file-transfer'',
      restart = permission e ''enable-remote-restart'', recording = permission e ''enable-record-session'',
      block_input = permission e ''enable-block-input'', disable_keyboard = False, disable_clipboard = False,
      disable_audio = False, enable_file_transfer = False, show_my_cursor = False, show_remote_cursor = False,
      follow_remote_cursor = False, follow_remote_window = False, lock_after_session_end = False,
      services_subed = False, multi_ui_session = False, voice_calling = False, voice_call_request = None,
      display_idx = primary, options_in_login = None, auto_disconnect = None, delayed_read_dir = None\<rparr>"

text \<open>The permissions that the peer is told of when the connection starts.\<close>

definition initial_permissions :: "control \<Rightarrow> effect list" where
  "initial_permissions c =
     (if keyboard c then [] else [SendPermission PermKeyboard False]) @
     (if clipboard c then [] else [SendPermission PermClipboard False]) @
     (if audio c then [] else [SendPermission PermAudio False]) @
     (if perm_file c then [] else [SendPermission PermFile False]) @
     (if restart c then [] else [SendPermission PermRestart False]) @
     (if recording c then [] else [SendPermission PermRecording False]) @
     (if block_input c then [] else [SendPermission PermBlockInput False])"

subsection \<open>What the local user grants\<close>

definition sub_clipboard :: "env \<Rightarrow> step" where
  "sub_clipboard e st =
     (case st of (c, srv) \<Rightarrow> ([], c, subscribe ''clipboard'' (cid c) (can_sub_clipboard_service e c) srv))"

definition sub_file_clipboard :: "build \<Rightarrow> env \<Rightarrow> step" where
  "sub_file_clipboard b e st =
     (case st of (c, srv) \<Rightarrow>
        ([], c, if unix_file_copy_paste b
                then subscribe ''file-clipboard'' (cid c) (can_sub_file_clipboard_service e c) srv else srv))"

definition sub_audio :: step where
  "sub_audio st = (case st of (c, srv) \<Rightarrow> ([], c, subscribe ''audio'' (cid c) (audio_enabled c) srv))"

definition switch_permission :: "build \<Rightarrow> env \<Rightarrow> permission_kind \<Rightarrow> bool \<Rightarrow> step" where
  "switch_permission b e k en st =
     (case st of (c, srv) \<Rightarrow>
        (case k of
           PermKeyboard \<Rightarrow>
             (let c1 = c\<lparr>keyboard := en\<rparr>
              in run_steps
                   [\<lambda>st. ([SendPermission PermKeyboard en], st), sub_clipboard e, sub_file_clipboard b e,
                    \<lambda>(c, srv). ([], c, subscribe ''mouse_cursor'' (cid c) (en \<or> show_remote_cursor c) srv)] (c1, srv))
         | PermClipboard \<Rightarrow>
             run_steps [\<lambda>st. ([SendPermission PermClipboard en], st), sub_clipboard e] (c\<lparr>clipboard := en\<rparr>, srv)
         | PermAudio \<Rightarrow>
             (let c1 = c\<lparr>audio := en\<rparr>
              in run_steps
                   [\<lambda>st. ([SendPermission PermAudio en], st),
                    if authorized (base c1) then
                      (if is_authed_view_camera_conn c1
                       then (if voice_calling c1 \<or> \<not> audio_enabled c1 then sub_audio else Pair [])
                       else sub_audio)
                    else Pair []] (c1, srv))
         | PermFile \<Rightarrow>
             run_steps
               [\<lambda>st. ([SendPermission PermFile en] @
                      (if unix_file_copy_paste b \<and> \<not> en then [EmptyFileClipboard] else []), st),
                sub_file_clipboard b e] (c\<lparr>perm_file := en\<rparr>, srv)
         | PermRestart \<Rightarrow> ([SendPermission PermRestart en], c\<lparr>restart := en\<rparr>, srv)
         | PermRecording \<Rightarrow> ([SendPermission PermRecording en], c\<lparr>recording := en\<rparr>, srv)
         | PermBlockInput \<Rightarrow> ([SendPermission PermBlockInput en], c\<lparr>block_input := en\<rparr>, srv)
         | PermCamera \<Rightarrow>
             ([SendPermission PermCamera en], c,
              if view_camera (base c) then subscribe (get_service_name Camera PRIMARY_CAMERA_IDX) (cid c) en srv
              else srv)))"

subsection \<open>What the peer asks for\<close>

definition set_to :: "bool_option \<Rightarrow> (bool \<Rightarrow> step) \<Rightarrow> step" where
  "set_to q f = (if q = NotSet then Pair [] else f (q = Yes))"

definition sub_cursor :: step where
  "sub_cursor st =
     (case st of (c, srv) \<Rightarrow>
        ([], c, subscribe ''mouse_cursor'' (cid c) (peer_keyboard_enabled c \<or> show_remote_cursor c) srv))"

definition opt_quality :: "option_message \<Rightarrow> step" where
  "opt_quality o' st =
     (let q = (case opt_image_quality o' of
          QualityUnknown \<Rightarrow> -1
        | QualityNotSet \<Rightarrow> if 0 < opt_custom_image_quality o' then opt_custom_image_quality o' else -1
        | QualityLow \<Rightarrow> 2 | QualityBalanced \<Rightarrow> 3 | QualityBest \<Rightarrow> 4)
      in (if 0 < q then [QosQuality q] else [], st))"

definition opt_fps :: "option_message \<Rightarrow> step" where
  "opt_fps o' st = (if 0 < opt_custom_fps o' then [QosFps (opt_custom_fps o')] else [], st)"

definition opt_decoding :: "option_message \<Rightarrow> step" where
  "opt_decoding o' st = (case opt_supported_decoding o' of Some d \<Rightarrow> [EncoderUpdate d] | None \<Rightarrow> [], st)"

definition opt_lock :: "option_message \<Rightarrow> step" where
  "opt_lock o' = set_to (opt_lock_after_session_end o')
     (\<lambda>v (c, srv). ([], c\<lparr>lock_after_session_end := v\<rparr>, srv))"

definition opt_cursor :: "option_message \<Rightarrow> step" where
  "opt_cursor o' = set_to (opt_show_remote_cursor o')
     (\<lambda>v (c, srv). run_steps
        [sub_cursor, \<lambda>(c, srv). ([], c, subscribe ''mouse_pos'' (cid c) (show_remote_cursor c) srv)]
        (c\<lparr>show_remote_cursor := v\<rparr>, srv))"

definition opt_follow_cursor :: "option_message \<Rightarrow> step" where
  "opt_follow_cursor o' = set_to (opt_follow_remote_cursor o')
     (\<lambda>v (c, srv). ([], c\<lparr>follow_remote_cursor := v\<rparr>, srv))"

definition opt_follow_window :: "option_message \<Rightarrow> step" where
  "opt_follow_window o' = set_to (opt_follow_remote_window o')
     (\<lambda>v (c, srv). ([], c\<lparr>follow_remote_window := v\<rparr>, subscribe ''window_focus'' (cid c) v srv))"

definition opt_audio :: "option_message \<Rightarrow> step" where
  "opt_audio o' = set_to (opt_disable_audio o')
     (\<lambda>v (c, srv).
        let c1 = c\<lparr>disable_audio := v\<rparr>
        in if is_authed_view_camera_conn c1 then
             (if voice_calling c1 \<or> \<not> audio_enabled c1 then sub_audio (c1, srv) else ([], c1, srv))
           else sub_audio (c1, srv))"

definition opt_file :: "build \<Rightarrow> env \<Rightarrow> option_message \<Rightarrow> step" where
  "opt_file b e o' =
     (if os_kind b = Windows \<or> unix_file_copy_paste b then
        set_to (opt_enable_file_transfer o')
          (\<lambda>v (c, srv).
             let c1 = c\<lparr>enable_file_transfer := v\<rparr>
             in run_steps
                  [\<lambda>st. ((if os_kind b = Windows then [ClipboardFileEnabled (file_transfer_enabled c1)] else []) @
                         (if unix_file_copy_paste b \<and> \<not> v then [EmptyFileClipboard] else []), st),
                   sub_file_clipboard b e] (c1, srv))
      else Pair [])"

definition opt_clipboard :: "env \<Rightarrow> option_message \<Rightarrow> step" where
  "opt_clipboard e o' = set_to (opt_disable_clipboard o')
     (\<lambda>v (c, srv). sub_clipboard e (c\<lparr>disable_clipboard := v\<rparr>, srv))"

definition opt_keyboard :: "build \<Rightarrow> env \<Rightarrow> option_message \<Rightarrow> step" where
  "opt_keyboard b e o' = set_to (opt_disable_keyboard o')
     (\<lambda>v (c, srv). run_steps [sub_clipboard e, sub_file_clipboard b e, sub_cursor] (c\<lparr>disable_keyboard := v\<rparr>, srv))"

definition opt_privacy :: "option_message \<Rightarrow> step" where
  "opt_privacy o' st =
     (case st of (c, srv) \<Rightarrow>
        (if lr_version (lr (base c)) < 1040008 \<and> keyboard c \<and> opt_privacy_mode o' \<noteq> NotSet
         then [TogglePrivacy (opt_privacy_mode o' = Yes) []] else [], st))"

definition opt_block :: "option_message \<Rightarrow> step" where
  "opt_block o' = set_to (opt_block_input o')
     (\<lambda>v (c, srv). (if keyboard c \<and> block_input c then [BlockInput v] else [BlockInputError v], c, srv))"

definition cursor_problem :: "build \<Rightarrow> string" where
  "cursor_problem b =
     (if os_kind b = Windows \<and> \<not> is_win10 b then ''Windows 10 or greater is required.''
      else if os_kind b = Linux \<and> \<not> whiteboard_supported b then
        ''This feature is not supported on native Wayland, please install XWayland or switch to X11.''
      else [])"

definition opt_my_cursor :: "build \<Rightarrow> option_message \<Rightarrow> step" where
  "opt_my_cursor b o' = set_to (opt_show_my_cursor o')
     (\<lambda>v (c, srv).
        (if v then (if cursor_problem b = [] then [RegisterCursor True] else [MessageBox (cursor_problem b)])
         else (if cursor_problem b = [] then [RegisterCursor False] else []),
         c\<lparr>show_my_cursor := v\<rparr>, srv))"

definition update_options :: "build \<Rightarrow> env \<Rightarrow> option_message \<Rightarrow> step" where
  "update_options b e o' =
     run_steps
       [opt_quality o', opt_fps o', opt_decoding o', opt_lock o', opt_cursor o', opt_follow_cursor o',
        opt_follow_window o', opt_audio o', opt_file b e o', opt_clipboard e o', opt_keyboard b e o',
        opt_privacy o', opt_block o', opt_my_cursor b o']"

subsection \<open>Subscribing after the login\<close>

definition get_auto_disconnect_timer :: "env \<Rightarrow> nat \<Rightarrow> (nat \<times> nat) option" where
  "get_auto_disconnect_timer e minutes =
     (if option_of e ''allow-auto-disconnect'' = ''Y'' then Some (now e, if minutes = 0 then 10 else minutes) else None)"

definition try_sub_monitor_services :: "build \<Rightarrow> env \<Rightarrow> server_env \<Rightarrow> nat \<Rightarrow> step" where
  "try_sub_monitor_services b e se minutes st =
     (case st of (c, srv) \<Rightarrow>
        if is_remote c \<and> \<not> services_subed c then
          (let noperms =
             (if \<not> peer_keyboard_enabled c \<and> \<not> show_remote_cursor c then [''mouse_cursor''] else []) @
             (if \<not> show_remote_cursor c then [''mouse_pos''] else []) @
             (if \<not> follow_remote_window c then [''window_focus''] else []) @
             (if \<not> can_sub_clipboard_service e c then [''clipboard''] else []) @
             (if unix_file_copy_paste b \<and> \<not> can_sub_file_clipboard_service e c then [''file-clipboard''] else []) @
             (if \<not> audio_enabled c then [''audio''] else [])
           in ([], c\<lparr>services_subed := True, auto_disconnect := get_auto_disconnect_timer e minutes\<rparr>,
               add_connection se (cid c) noperms (try_add_primary_video_service se srv)))
        else ([], c, srv))"

definition try_sub_camera_displays :: "server_env \<Rightarrow> step" where
  "try_sub_camera_displays se st =
     (case st of (c, srv) \<Rightarrow> ([], c, add_camera_connection se (cid c) (try_add_primary_camera_service se srv)))"

text \<open>
  The end of \<^verbatim>\<open>send_logon_response\<close>, once the login response is sent: the options of the login request, then the
  services.  Whether the displays could be found, whether the peer has to choose a session first, and whether
  a path is a directory, come from the system.
\<close>

definition after_logon :: "build \<Rightarrow> env \<Rightarrow> server_env \<Rightarrow> nat \<Rightarrow> (string \<Rightarrow> bool) \<Rightarrow> bool \<Rightarrow> bool \<Rightarrow> step" where
  "after_logon b e se minutes is_directory displays_found wait_session st =
     run_steps
       [\<lambda>(c, srv). (case options_in_login c of
            Some o' \<Rightarrow> update_options b e o' (c\<lparr>options_in_login := None\<rparr>, srv) | None \<Rightarrow> ([], c, srv)),
        \<lambda>(c, srv).
          (case file_transfer (base c) of
             Some (dir, hidden) \<Rightarrow>
               (let d = (if dir \<noteq> [] \<and> is_directory dir then dir else [])
                in if \<not> wait_session then ([ReadDir d hidden], c, srv)
                   else ([], c\<lparr>delayed_read_dir := Some (d, hidden)\<rparr>, srv))
           | None \<Rightarrow>
               if view_camera (base c) then
                 run_steps
                   [if \<not> wait_session then try_sub_camera_displays se else Pair [],
                    \<lambda>(c, srv). ([SendPermission PermKeyboard False], c\<lparr>keyboard := False\<rparr>, srv)] (c, srv)
               else if \<not> terminal (base c) \<and> displays_found \<and> pending_invite (base c) = None \<and> \<not> wait_session then
                 try_sub_monitor_services b e se minutes (c, srv)
               else ([], c, srv))] st"

subsection \<open>Displays\<close>

definition video_source_of :: "control \<Rightarrow> video_source" where
  "video_source_of c = (if view_camera (base c) then Camera else Monitor)"

definition switch_display_to :: "server_env \<Rightarrow> nat \<Rightarrow> step" where
  "switch_display_to se d st =
     (case st of (c, srv) \<Rightarrow>
        (let src = video_source_of c;
             srv1 = (if d \<noteq> primary_display se then ensure_video_service src d srv else srv);
             srv2 = (if lr_version (lr (base c)) < 1041005
               then subscribe (get_service_name src (display_idx c)) (cid c) False srv1 else srv1)
         in ([], c\<lparr>display_idx := d\<rparr>, subscribe (get_service_name src d) (cid c) True srv2)))"

definition change_resolution :: "nat option \<Rightarrow> int \<Rightarrow> int \<Rightarrow> step" where
  "change_resolution d w h st =
     (case st of (c, srv) \<Rightarrow> (if keyboard c then [ChangeResolution (Some (case d of Some i \<Rightarrow> i | None \<Rightarrow> display_idx c)) w h] else [], c, srv))"

definition handle_switch_display :: "server_env \<Rightarrow> nat \<Rightarrow> int \<Rightarrow> int \<Rightarrow> step" where
  "handle_switch_display se d w h st =
     (case st of (c, srv) \<Rightarrow>
        if display_idx c \<noteq> d then
          run_steps
            [switch_display_to se d, if w \<noteq> 0 \<and> h \<noteq> 0 then change_resolution None w h else Pair [],
             \<lambda>(c, srv). ([DisplayChanged (display_idx c)], c, srv)] (c, srv)
        else ([], c, srv))"

definition handle_capture_displays :: "nat list \<Rightarrow> nat list \<Rightarrow> nat list \<Rightarrow> step" where
  "handle_capture_displays add sub set' st =
     (case st of (c, srv) \<Rightarrow>
        (let src = video_source_of c;
             srv1 = fold (ensure_video_service src) (add @ set') srv;
             srv2 = (if add \<noteq> [] then capture_displays (cid c) src add True False srv1
                     else if sub \<noteq> [] then capture_displays (cid c) src sub False True srv1
                     else capture_displays (cid c) src set' True True srv1);
             c1 = c\<lparr>multi_ui_session := 1 < get_subbed_displays_count (cid c) srv2\<rparr>
         in ([], c1,
             if follow_remote_window c1 then subscribe ''window_focus'' (cid c1) (\<not> multi_ui_session c1) srv2 else srv2)))"

subsection \<open>Voice calls\<close>

definition sub_audio_as :: "(control \<Rightarrow> bool) \<Rightarrow> step" where
  "sub_audio_as v st = (case st of (c, srv) \<Rightarrow> ([], c, subscribe ''audio'' (cid c) (v c) srv))"

definition handle_voice_call :: "bool \<Rightarrow> step" where
  "handle_voice_call accepted st =
     (case st of (c, srv) \<Rightarrow>
        (case voice_call_request c of
           Some ts \<Rightarrow>
             run_steps
               [\<lambda>st. ((if accepted then [VoiceCallInput True] else []) @ [CmVoiceCall accepted, VoiceCallResponse ts accepted], st),
                if is_authed_view_camera_conn c then sub_audio_as (\<lambda>c. audio_enabled c \<and> accepted) else Pair []]
               (c\<lparr>voice_call_request := None, voice_calling := accepted\<rparr>, srv)
         | None \<Rightarrow> ([], c, srv)))"

definition close_voice_call :: step where
  "close_voice_call st =
     (case st of (c, srv) \<Rightarrow>
        run_steps
          [\<lambda>st. ([VoiceCallInput False, CmVoiceCall False], st),
           if is_authed_view_camera_conn c then sub_audio_as (\<lambda>_. False) else Pair []] (c\<lparr>voice_calling := False\<rparr>, srv))"

definition on_voice_call_request :: "bool \<Rightarrow> int \<Rightarrow> int \<Rightarrow> step" where
  "on_voice_call_request is_connect ts time st =
     (case st of (c, srv) \<Rightarrow>
        if is_connect then ([CmVoiceCallIncoming], c\<lparr>voice_call_request := Some (if ts = 0 then time else ts)\<rparr>, srv)
        else close_voice_call (c, srv))"

subsection \<open>The session of Windows\<close>

text \<open>
  The choice of a session: whether the connection is handed over to the process of that session, which ends
  it here, comes from the system.
\<close>

definition on_selected_sid :: "build \<Rightarrow> env \<Rightarrow> server_env \<Rightarrow> nat \<Rightarrow> bool \<Rightarrow> ctl \<Rightarrow> bool \<times> effect list \<times> ctl" where
  "on_selected_sid b e se minutes handed_over st =
     (case st of (c, srv) \<Rightarrow>
        if handed_over then (False, [], c, srv)
        else (True,
          if file_transfer (base c) \<noteq> None then
            (case delayed_read_dir c of
               Some (dir, hidden) \<Rightarrow> ([ReadDir dir hidden], c\<lparr>delayed_read_dir := None\<rparr>, srv)
             | None \<Rightarrow> ([], c, srv))
          else if view_camera (base c) then try_sub_camera_displays se (c, srv)
          else try_sub_monitor_services b e se minutes (c, srv)))"

end
