(* ===== verification/Session_Files.thy ===== *)
theory Session_Files
  imports Session_Control Login_Properties Transfer_Roundtrip
begin

text \<open>
  The file messages of an authorised connection, \<^verbatim>\<open>FileAction\<close> and \<^verbatim>\<open>FileResponse\<close> in
  \<^verbatim>\<open>src/server/connection.rs\<close>, and what the connection manager does with the requests that are handed to it,
  \<^verbatim>\<open>handle_fs\<close> in \<^verbatim>\<open>src/ui_cm_interface.rs\<close>.  Files to the peer are read jobs of the connection, files from
  the peer are write jobs of the connection manager.

  A confirmation that panics (see \<open>job_confirm\<close>) is \<open>None\<close>.  The listings of directories and the calls of
  \<^verbatim>\<open>fs\<close> that only reach the system are fields of the record \<open>fs_calls\<close>.
\<close>

subsection \<open>Messages\<close>

record send_request =
  snd_id :: int
  snd_path :: string
  snd_hidden :: bool
  snd_file_num :: int
  snd_type :: int

record receive_request =
  rcv_id :: int
  rcv_path :: string
  rcv_files :: "file_entry list"
  rcv_file_num :: int
  rcv_total_size :: u64

datatype file_action =
    FaReadDir string bool
  | FaReadEmptyDirs string bool
  | FaAllFiles int string bool
  | FaSend send_request
  | FaReceive receive_request
  | FaRemoveDir int string bool
  | FaRemoveFile int string int
  | FaCreate int string
  | FaCancel int
  | FaSendConfirm send_confirm
  | FaRename int string string
  | FaNone

datatype file_response =
    FrBlock file_block
  | FrDone int int
  | FrDigest int int u64 u64 bool
  | FrError int string int
  | FrOther

datatype fs_msg =
    FsReadEmptyDirs string bool
  | FsReadDir string bool
  | FsRemoveDir string int bool
  | FsRemoveFile string int int
  | FsCreateDir string int
  | FsNewWrite string int int "(string \<times> u64) list" bool u64 int
  | FsCancelWrite int
  | FsWriteBlock file_block
  | FsWriteDone int int
  | FsWriteError int int string
  | FsCheckDigest int int u64 u64 bool bool
  | FsSendConfirm send_confirm
  | FsRename int string string

text \<open>What a handler does: requests to the connection manager, messages to the peer, entries of the log.\<close>

datatype file_effect =
    ToCm fs_msg
  | PeerError int string int
  | PeerDir int string "file_entry list"
  | LogCreate int string
  | LogRename string string
  | LogCancel int
  | FileTimer

subsection \<open>The log of removals\<close>

text \<open>The components of a path of Unix: separators and the dots in its middle do not count.\<close>

definition components :: "string \<Rightarrow> string list" where
  "components p =
     (let parts = split_char CHR ''/'' p; rooted = (p \<noteq> [] \<and> hd p = CHR ''/'')
      in (if rooted then [''/''] else []) @
         (if \<not> rooted \<and> hd parts = ''.'' then [''.''] else []) @ filter (\<lambda>s. s \<noteq> [] \<and> s \<noteq> ''.'') parts)"

definition parent_components :: "string \<Rightarrow> string list option" where
  "parent_components p =
     (if components p = [] \<or> components p = [''/''] then None else Some (butlast (components p)))"

definition direct_child :: "string \<Rightarrow> string \<Rightarrow> bool" where
  "direct_child parent child = (parent_components child = Some (components parent))"

record remove_log =
  rl_instant :: nat
  removed_files :: "(int \<times> string) list"
  removed_dirs :: "(int \<times> string) list"

datatype removal = Removed int string bool

definition remove_log_new :: "nat \<Rightarrow> remove_log" where
  "remove_log_new t = \<lparr>rl_instant = t, removed_files = [], removed_dirs = []\<rparr>"

definition on_remove_file :: "nat \<Rightarrow> int \<Rightarrow> string \<Rightarrow> remove_log \<Rightarrow> removal \<times> remove_log" where
  "on_remove_file t i p l =
     (Removed i p False, l\<lparr>rl_instant := t, removed_files := removed_files l @ [(i, p)]\<rparr>)"

definition on_remove_dir :: "nat \<Rightarrow> int \<Rightarrow> string \<Rightarrow> remove_log \<Rightarrow> removal \<times> remove_log" where
  "on_remove_dir t i p l =
     (let fs = filter (\<lambda>(j, f). \<not> direct_child f p) (removed_files l);
          ds = filter (\<lambda>(j, d). \<not> direct_child p d) (removed_dirs l)
      in (Removed i p True,
          l\<lparr>rl_instant := t, removed_files := fs,
            removed_dirs := (if \<exists>(j, d) \<in> set ds. direct_child d p then ds else ds @ [(i, p)])\<rparr>))"

definition on_timer :: "nat \<Rightarrow> remove_log \<Rightarrow> removal list \<times> remove_log" where
  "on_timer t l =
     (if (t - rl_instant l) div 1000 < 1 then ([], l)
      else (map (\<lambda>(i, p). Removed i p False) (removed_files l) @ map (\<lambda>(i, p). Removed i p True) (removed_dirs l),
            l\<lparr>removed_files := [], removed_dirs := []\<rparr>))"

subsection \<open>The handlers of the connection\<close>

record file_state =
  read_jobs :: "transfer_job list"
  printer_data :: "(string \<times> bytes) list"
  remove_log :: remove_log
  file_transferred :: bool

record fs_calls =
  list_files :: "string \<Rightarrow> bool \<Rightarrow> string + file_entry list"
  call_result :: "fs_msg \<Rightarrow> string + unit"

definition can_enable_overwrite_detection :: "nat \<Rightarrow> bool" where
  "can_enable_overwrite_detection v = (1040004 \<le> v)"

fun take_printer :: "string \<Rightarrow> (string \<times> bytes) list \<Rightarrow> (bytes \<times> (string \<times> bytes) list) option" where
  "take_printer p [] = None"
| "take_printer p ((q, d) # ds) =
     (if q = p then Some (d, ds) else map_option (\<lambda>(d', ds'). (d', (q, d) # ds')) (take_printer p ds))"

fun update_job :: "int \<Rightarrow> transfer_job \<Rightarrow> transfer_job list \<Rightarrow> transfer_job list" where
  "update_job i j' [] = []"
| "update_job i j' (j # js) = (if job_id j = i then j' # js else j # update_job i j' js)"

text \<open>The requests that one-way transfer refuses, by their job.\<close>

fun one_way_refuses :: "file_action \<Rightarrow> int option" where
  "one_way_refuses (FaSend s) = Some (snd_id s)"
| "one_way_refuses (FaRemoveFile i p n) = Some i"
| "one_way_refuses (FaRename i p q) = Some i"
| "one_way_refuses (FaCreate i p) = Some i"
| "one_way_refuses (FaRemoveDir i p r) = Some i"
| "one_way_refuses a = None"

definition on_send :: "fs_calls \<Rightarrow> bool \<Rightarrow> send_request \<Rightarrow> file_state \<Rightarrow> file_effect list \<times> file_state" where
  "on_send calls od s f =
     (let start = (\<lambda>src f.
        (case new_read (list_files calls) (snd_id s) (job_type_of_int (snd_type s)) [] src (snd_file_num s)
                (snd_hidden s) False od of
           Inl err \<Rightarrow> ([PeerError (snd_id s) err 0], f\<lparr>file_transferred := True\<rparr>)
         | Inr job \<Rightarrow>
             ([PeerDir (snd_id s) (snd_path s) (job_files job), FileTimer],
              f\<lparr>read_jobs := read_jobs f @ [job\<lparr>transfer_job.is_remote := True\<rparr>], file_transferred := True\<rparr>)))
      in case job_type_of_int (snd_type s) of
           Generic \<Rightarrow> start (FilePath (snd_path s)) f
         | Printer \<Rightarrow>
             (case take_printer (snd_path s) (printer_data f) of
                None \<Rightarrow> ([], f)
              | Some (d, ds) \<Rightarrow> start (MemoryCursor d) (f\<lparr>printer_data := ds\<rparr>)))"

definition on_file_request ::
  "fs_calls \<Rightarrow> os \<Rightarrow> fsys \<Rightarrow> nat \<Rightarrow> bool \<Rightarrow> int \<Rightarrow> file_action \<Rightarrow> file_state
     \<Rightarrow> (file_effect list \<times> file_state) option" where
  "on_file_request calls env fs t od me a f =
     (case a of
        FaReadEmptyDirs p h \<Rightarrow> Some ([ToCm (FsReadEmptyDirs p h)], f)
      | FaReadDir p h \<Rightarrow> Some ([ToCm (FsReadDir p h)], f)
      | FaAllFiles i p h \<Rightarrow>
          Some ([case list_files calls p h of Inl err \<Rightarrow> PeerError i err (-1) | Inr files \<Rightarrow> PeerDir i p files], f)
      | FaSend s \<Rightarrow> Some (on_send calls od s f)
      | FaReceive r \<Rightarrow>
          Some ([ToCm (FsNewWrite (rcv_path r) (rcv_id r) (rcv_file_num r)
                   (map (\<lambda>e. (entry_name e, entry_modified e)) (rcv_files r)) od (rcv_total_size r) me)],
                f\<lparr>file_transferred := True\<rparr>)
      | FaRemoveDir i p r \<Rightarrow> Some ([ToCm (FsRemoveDir p i r)], f\<lparr>remove_log := snd (on_remove_dir t i p (remove_log f))\<rparr>)
      | FaRemoveFile i p n \<Rightarrow> Some ([ToCm (FsRemoveFile p i n)], f\<lparr>remove_log := snd (on_remove_file t i p (remove_log f))\<rparr>)
      | FaCreate i p \<Rightarrow> Some ([ToCm (FsCreateDir p i), LogCreate i p], f)
      | FaCancel i \<Rightarrow>
          Some ([ToCm (FsCancelWrite i)] @ (if get_job i (read_jobs f) \<noteq> None then [LogCancel i] else []),
                f\<lparr>read_jobs := snd (remove_job i (read_jobs f))\<rparr>)
      | FaSendConfirm r \<Rightarrow>
          (case get_job (confirm_id r) (read_jobs f) of
             Some j \<Rightarrow>
               map_option (\<lambda>j'. ([], f\<lparr>read_jobs := update_job (confirm_id r) j' (read_jobs f)\<rparr>)) (job_confirm env fs j r)
           | None \<Rightarrow> Some ([ToCm (FsSendConfirm r)], f))
      | FaRename i p q \<Rightarrow> Some ([ToCm (FsRename i p q), LogRename p q], f)
      | FaNone \<Rightarrow> Some ([], f))"

text \<open>The whole handler: only a file transfer session, and the two early returns.\<close>

definition on_file_action ::
  "fs_calls \<Rightarrow> os \<Rightarrow> fsys \<Rightarrow> env \<Rightarrow> file_action \<Rightarrow> control \<Rightarrow> file_state
     \<Rightarrow> (file_effect list \<times> control \<times> file_state) option" where
  "on_file_action calls os fs e a c f =
     (if file_transfer (base c) = None then Some ([], c, f)
      else if delayed_read_dir c \<noteq> None then
        Some ([], case a of FaReadDir p h \<Rightarrow> c\<lparr>delayed_read_dir := Some (p, h)\<rparr> | _ \<Rightarrow> c, f)
      else case (if builtin_option e ''one-way-file-transfer'' = ''Y'' then one_way_refuses a else None) of
             Some i \<Rightarrow> Some ([PeerError i ''one-way-file-transfer-tip'' 0], c, f)
           | None \<Rightarrow>
               map_option (\<lambda>(es, f'). (es, c, f'))
                 (on_file_request calls os fs (now e)
                    (can_enable_overwrite_detection (lr_version (lr (base c)))) (cid c) a f))"

definition on_file_response :: "file_response \<Rightarrow> fs_msg list" where
  "on_file_response r =
     (case r of
        FrBlock b \<Rightarrow> [FsWriteBlock b]
      | FrDone i n \<Rightarrow> [FsWriteDone i n]
      | FrDigest i n sz modified resume \<Rightarrow> [FsCheckDigest i n sz modified True resume]
      | FrError i err n \<Rightarrow> [FsWriteError i n err]
      | FrOther \<Rightarrow> [])"

subsection \<open>The connection manager\<close>

datatype cm_reply =
    CmError int string int
  | CmDone int int
  | CmDir string bool
  | CmEmptyDirs string bool
  | CmConfirm send_confirm
  | CmDigest transfer_digest bool
  | CmLog int bool bool string

record cm_state =
  cm_fs :: fsys
  write_jobs :: "transfer_job list"

record cm_env =
  cm_os :: os
  cm_decompress :: "bytes \<Rightarrow> bytes"
  cm_json :: "file_digest \<Rightarrow> bytes"
  cm_of_json :: "bytes \<Rightarrow> file_digest option"
  cm_calls :: fs_calls

definition handle_result :: "string + unit \<Rightarrow> int \<Rightarrow> int \<Rightarrow> cm_reply list" where
  "handle_result r i n = (case r of Inl err \<Rightarrow> [CmError i err n] | Inr _ \<Rightarrow> [CmDone i n])"

definition cm_new_write ::
  "string \<Rightarrow> int \<Rightarrow> int \<Rightarrow> (string \<times> u64) list \<Rightarrow> bool \<Rightarrow> u64 \<Rightarrow> cm_state \<Rightarrow> cm_state" where
  "cm_new_write path i n files od tot st =
     (let fs = fold (\<lambda>(name, m) fs. if is_dir_marker name then create_dir_all fs (path_join path name) else fs)
            files (cm_fs st);
          job = new_write i Generic [] (FilePath path) n False False
            (map (\<lambda>(name, m). \<lparr>entry_name = name, entry_size = 0, entry_modified = m\<rparr>) files) od
      in st\<lparr>cm_fs := fs, write_jobs := write_jobs st @ [job\<lparr>job_total_size := tot\<rparr>]\<rparr>)"

definition cm_write_block :: "cm_env \<Rightarrow> file_block \<Rightarrow> cm_state \<Rightarrow> cm_reply list \<times> cm_state" where
  "cm_write_block e b st =
     (case get_job (blk_id b) (write_jobs st) of
        None \<Rightarrow> ([], st)
      | Some j \<Rightarrow>
          (case job_write (cm_os e) (cm_decompress e) (cm_json e) (cm_fs st) j b of
             (r, fs, j') \<Rightarrow>
               ((case r of Inl err \<Rightarrow> [CmError (blk_id b) err (blk_file_num b)] | Inr _ \<Rightarrow> []),
                st\<lparr>cm_fs := fs, write_jobs := update_job (blk_id b) j' (write_jobs st)\<rparr>)))"

definition cm_check_digest ::
  "cm_env \<Rightarrow> int \<Rightarrow> int \<Rightarrow> u64 \<Rightarrow> u64 \<Rightarrow> bool \<Rightarrow> bool \<Rightarrow> cm_state \<Rightarrow> cm_reply list \<times> cm_state" where
  "cm_check_digest e i n sz modified is_upload resume st =
     (case get_job i (write_jobs st) of
        None \<Rightarrow> ([], st)
      | Some j \<Rightarrow>
          (let k = as_usize n;
               req = \<lparr>confirm_id = i, confirm_file_num = n, confirm_union = Some (OffsetBlk 0)\<rparr>;
               digest = \<lparr>td_id = i, td_file_num = n, td_last_modified = modified, td_file_size = sz,
                 td_is_identical = False, td_transferred_size = 0\<rparr>
           in if length (job_files j) \<le> k then ([], st)
              else case data_source j of
                  MemoryCursor _ \<Rightarrow> ([], st)
                | FilePath p \<Rightarrow>
                    ((case is_write_need_confirmation (cm_of_json e) (cm_fs st) resume
                             (job_join p (entry_name (job_files j ! k))) digest of
                        IsSame \<Rightarrow> [CmConfirm (req\<lparr>confirm_union := Some (Skip True)\<rparr>)]
                      | NeedConfirm d \<Rightarrow> [CmDigest d is_upload]
                      | NoSuchFile \<Rightarrow> [CmConfirm req]),
                     st\<lparr>write_jobs := update_job i (set_digest j sz modified) (write_jobs st)\<rparr>)))"

definition handle_fs :: "cm_env \<Rightarrow> fs_msg \<Rightarrow> cm_state \<Rightarrow> (cm_reply list \<times> cm_state) option" where
  "handle_fs e m st =
     (case m of
        FsReadEmptyDirs p h \<Rightarrow> Some (case call_result (cm_calls e) m of Inr _ \<Rightarrow> [CmEmptyDirs p h] | Inl _ \<Rightarrow> [], st)
      | FsReadDir p h \<Rightarrow> Some (case call_result (cm_calls e) m of Inr _ \<Rightarrow> [CmDir p h] | Inl _ \<Rightarrow> [], st)
      | FsRemoveDir p i r \<Rightarrow> Some (handle_result (call_result (cm_calls e) m) i 0, st)
      | FsRemoveFile p i n \<Rightarrow> Some (handle_result (call_result (cm_calls e) m) i n, st)
      | FsCreateDir p i \<Rightarrow> Some (handle_result (call_result (cm_calls e) m) i 0, st)
      | FsRename i p q \<Rightarrow> Some (handle_result (call_result (cm_calls e) m) i 0, st)
      | FsNewWrite p i n files od tot me \<Rightarrow> Some ([], cm_new_write p i n files od tot st)
      | FsCancelWrite i \<Rightarrow>
          Some (case remove_job i (write_jobs st) of
             (Some j, js) \<Rightarrow> ([CmLog i False True []], st\<lparr>cm_fs := remove_download_file (cm_fs st) j, write_jobs := js\<rparr>)
           | (None, js) \<Rightarrow> ([], st))
      | FsWriteDone i n \<Rightarrow>
          Some (case remove_job i (write_jobs st) of
             (Some j, js) \<Rightarrow>
               ([CmDone i n, CmLog i True False []], st\<lparr>cm_fs := modify_time (cm_fs st) j, write_jobs := js\<rparr>)
           | (None, js) \<Rightarrow> ([], st))
      | FsWriteError i n err \<Rightarrow>
          Some (case remove_job i (write_jobs st) of
             (Some j, js) \<Rightarrow> ([CmLog i False False err, CmError i err n], st\<lparr>write_jobs := js\<rparr>)
           | (None, js) \<Rightarrow> ([], st))
      | FsWriteBlock b \<Rightarrow> Some (cm_write_block e b st)
      | FsCheckDigest i n sz modified up resume \<Rightarrow> Some (cm_check_digest e i n sz modified up resume st)
      | FsSendConfirm r \<Rightarrow>
          (case get_job (confirm_id r) (write_jobs st) of
             Some j \<Rightarrow>
               map_option (\<lambda>j'. ([], st\<lparr>write_jobs := update_job (confirm_id r) j' (write_jobs st)\<rparr>))
                 (job_confirm (cm_os e) (cm_fs st) j r)
           | None \<Rightarrow> Some ([], st)))"

fun handle_fs_all :: "cm_env \<Rightarrow> fs_msg list \<Rightarrow> cm_state \<Rightarrow> (cm_reply list \<times> cm_state) option" where
  "handle_fs_all e [] st = Some ([], st)"
| "handle_fs_all e (m # ms) st =
     (case handle_fs e m st of
        None \<Rightarrow> None
      | Some (rs, st1) \<Rightarrow> map_option (\<lambda>(rs', st2). (rs @ rs', st2)) (handle_fs_all e ms st1))"

subsection \<open>A transfer from end to end\<close>

text \<open>
  The requests to the connection manager that come of what the peer sends: the request to receive, and the
  responses with the blocks.
\<close>

datatype peer_file_msg = Action file_action | Response file_response

definition cm_requests :: "file_effect list \<Rightarrow> fs_msg list" where
  "cm_requests es = concat (map (\<lambda>e. case e of ToCm m \<Rightarrow> [m] | _ \<Rightarrow> []) es)"

fun relay :: "fs_calls \<Rightarrow> os \<Rightarrow> fsys \<Rightarrow> env \<Rightarrow> peer_file_msg list \<Rightarrow> control \<Rightarrow> file_state \<Rightarrow> fs_msg list option" where
  "relay calls os fs e [] c f = Some []"
| "relay calls os fs e (Action a # ms) c f =
     (case on_file_action calls os fs e a c f of
        None \<Rightarrow> None
      | Some (es, c', f') \<Rightarrow> map_option (\<lambda>ms'. cm_requests es @ ms') (relay calls os fs e ms c' f'))"
| "relay calls os fs e (Response r # ms) c f =
     map_option (\<lambda>ms'. on_file_response r @ ms') (relay calls os fs e ms c f)"

lemma relay_blocks:
  "relay calls os fs e (map (\<lambda>b. Response (FrBlock b)) bs @ ms) c f =
     map_option (\<lambda>ms'. map FsWriteBlock bs @ ms') (relay calls os fs e ms c f)"
  by (induction bs) (auto simp: on_file_response_def option.map_comp comp_def option.map_id0 id_def
      map_option_case split: option.split)

lemma handle_fs_all_append:
  "handle_fs_all e (ms @ ns) st =
     (case handle_fs_all e ms st of
        None \<Rightarrow> None
      | Some (rs, st1) \<Rightarrow> map_option (\<lambda>(rs', st2). (rs @ rs', st2)) (handle_fs_all e ns st1))"
proof (induction ms arbitrary: st)
  case Nil
  show ?case by (cases "handle_fs_all e ns st") auto
next
  case (Cons m ms)
  show ?case
    by (cases "handle_fs e m st")
      (auto simp: Cons.IH option.map_comp comp_def split_beta map_option_case split: option.split)
qed

lemma job_write_keeps_id:
  assumes "job_write env decompress json fs w b = (r, fs', w')"
  shows "job_id w' = job_id w"
proof -
  have prep: "job_id w1 = job_id w" if "prepare_stream env json fs w b = (r1, fs1, w1)" for r1 fs1 w1
    using that by (auto simp: prepare_stream_def Let_def split: data_source.splits if_splits sum.splits)
  show ?thesis
    using assms by (auto simp: job_write_def Let_def split: if_splits prod.splits sum.splits bool.splits option.splits
        dest!: prep)
qed

lemma get_job_last: "get_job i js = None \<Longrightarrow> get_job i (js @ [w]) = (if job_id w = i then Some w else None)"
  by (induction js) (auto split: if_splits)

lemma update_job_last: "get_job i js = None \<Longrightarrow> job_id w = i \<Longrightarrow> update_job i w' (js @ [w]) = js @ [w']"
  by (induction js) (auto split: if_splits)

lemma remove_job_last: "get_job i js = None \<Longrightarrow> job_id w = i \<Longrightarrow> remove_job i (js @ [w]) = (Some w, js)"
  by (induction js) (auto split: if_splits)

lemma handle_fs_blocks:
  assumes "get_job i js = None"
  shows "job_id w = i \<Longrightarrow> \<forall>b \<in> set bs. blk_id b = i \<Longrightarrow>
    write_blocks (cm_os e) (cm_decompress e) (cm_json e) (cm_fs st) w bs = Inr (fs', w') \<Longrightarrow>
    write_jobs st = js @ [w] \<Longrightarrow>
    handle_fs_all e (map FsWriteBlock bs) st = Some ([], st\<lparr>cm_fs := fs', write_jobs := js @ [w']\<rparr>) \<and> job_id w' = i"
proof (induction bs arbitrary: st w)
  case Nil
  then show ?case by (cases st) simp
next
  case (Cons b bs)
  from Cons.prems(3) obtain fs1 w1
    where one: "job_write (cm_os e) (cm_decompress e) (cm_json e) (cm_fs st) w b = (Inr (), fs1, w1)"
      and rest: "write_blocks (cm_os e) (cm_decompress e) (cm_json e) fs1 w1 bs = Inr (fs', w')"
    by (auto split: prod.splits sum.splits)
  let ?st = "st\<lparr>cm_fs := fs1, write_jobs := js @ [w1]\<rparr>"
  have id: "job_id w1 = i" using job_write_keeps_id [OF one] Cons.prems(1) by simp
  have "handle_fs e (FsWriteBlock b) st = Some ([], ?st)"
    using assms one Cons.prems(1,2,4)
    by (simp add: handle_fs_def cm_write_block_def get_job_last update_job_last)
  moreover have "handle_fs_all e (map FsWriteBlock bs) ?st = Some ([], st\<lparr>cm_fs := fs', write_jobs := js @ [w']\<rparr>) \<and>
      job_id w' = i"
    using Cons.IH [of w1 ?st] id Cons.prems(2) rest by simp
  ultimately show ?case by simp
qed

lemma groups_from_id: "groups_from decompress i D n gs \<Longrightarrow> \<forall>b \<in> set (concat gs). blk_id b = i"
  by (induction gs arbitrary: n) auto

text \<open>The connection manager knows the names and the times of the files, not their sizes.\<close>

definition cm_files :: "file_entry list \<Rightarrow> file_entry list" where
  "cm_files files = map (\<lambda>f. f\<lparr>entry_size := 0\<rparr>) files"

lemma cm_files_simps [simp]:
  "length (cm_files files) = length files"
  "n < length files \<Longrightarrow> entry_name (cm_files files ! n) = entry_name (files ! n)"
  "n < length files \<Longrightarrow> entry_modified (cm_files files ! n) = entry_modified (files ! n)"
  "independent rp (cm_files files) = independent rp files"
  by (auto simp: cm_files_def independent_def)

lemma in_place_cm_files:
  "n < length files \<Longrightarrow> in_place rp (cm_files files) D fs n = in_place rp files D fs n"
  by (simp add: in_place_def)

lemma new_write_without_markers:
  assumes "\<forall>f \<in> set files. \<not> is_dir_marker (entry_name f)"
  shows "cm_new_write rp i 0 (map (\<lambda>f. (entry_name f, entry_modified f)) files) od tot st =
    st\<lparr>write_jobs := write_jobs st @
      [(new_write i Generic [] (FilePath rp) 0 False False (cm_files files) od)\<lparr>job_total_size := tot\<rparr>]\<rparr>"
proof -
  have "fold (\<lambda>(name, m) fs. if is_dir_marker name then create_dir_all fs (path_join rp name) else fs)
      (map (\<lambda>f. (entry_name f, entry_modified f)) files) fs = fs" for fs
    using assms by (induction files) auto
  moreover have "map (\<lambda>(name, m). \<lparr>entry_name = name, entry_size = 0, entry_modified = m\<rparr>)
      (map (\<lambda>f. (entry_name f, entry_modified f)) files) = cm_files files"
    by (auto simp: cm_files_def)
  ultimately show ?thesis by (simp add: cm_new_write_def Let_def)
qed

lemma relay_upload:
  assumes "file_transfer (base c) \<noteq> None" and "delayed_read_dir c = None"
  shows "relay calls os fs e (Action (FaReceive r) # map (\<lambda>b. Response (FrBlock b)) bs @ [Response (FrDone i n)]) c f =
    Some (FsNewWrite (rcv_path r) (rcv_id r) (rcv_file_num r)
        (map (\<lambda>f. (entry_name f, entry_modified f)) (rcv_files r))
        (can_enable_overwrite_detection (lr_version (lr (base c)))) (rcv_total_size r) (cid c) #
      map FsWriteBlock bs @ [FsWriteDone i n])"
  using assms by (simp add: relay_blocks on_file_action_def on_file_request_def cm_requests_def on_file_response_def)

text \<open>
  The blocks of a whole job.  The peer asks the connection to receive the files of a job without overwrite detection and
  without markers of directories, sends the blocks that its read job yields and says that it is done; the connection hands
  all of it to the connection manager.  Then the connection manager has put every file of the job in place, with the content
  and the time of its source; it answers that the job is done, and forgets it.  (\<open>Client_Upload\<close> has both sides in turns,
  with detection.)
\<close>

theorem upload_end_to_end:
  assumes "\<And>b. cm_decompress ce (compress b) = b"
    and job: "sender_ok env fs sp D j" "file_num j = 0" "data_stream j = None"
    and req: "rcv_id r = job_id j" "rcv_files r = job_files j" "rcv_file_num r = 0"
      "independent (rcv_path r) (job_files j)"
    and conn: "file_transfer (base c) \<noteq> None" "delayed_read_dir c = None"
    and cm: "get_job (job_id j) (write_jobs st) = None" "grants (cm_os ce)"
  shows "\<exists>bs j' ms st'. reads env compress fs j bs j' \<and>
    relay calls os sfs e (Action (FaReceive r) # map (\<lambda>b. Response (FrBlock b)) bs @ [Response (FrDone (job_id j) n)])
      c f = Some ms \<and>
    handle_fs_all ce ms st = Some ([CmDone (job_id j) n, CmLog (job_id j) True False []], st') \<and>
    (\<forall>k < length (job_files j). in_place (rcv_path r) (job_files j) D (cm_fs st') k) \<and>
    write_jobs st' = write_jobs st"
proof -
  have z: "file_num j = int 0" using job(2) by simp
  from reads_files [where decompress = "cm_decompress ce" and compress = compress, OF assms(1) job(1) refl refl z _ job(3)]
  obtain gs j' where gs: "reads env compress fs j (concat gs) j'" "0 + length gs = length (cm_files (job_files j))"
    "groups_from (cm_decompress ce) (job_id j) D 0 gs" by auto
  have mark: "\<forall>f \<in> set (job_files j). \<not> is_dir_marker (entry_name f)"
    using job(1) by (auto simp: sender_ok_def Let_def in_set_conv_nth)
  then have mark': "\<forall>f \<in> set (cm_files (job_files j)). \<not> is_dir_marker (entry_name f)"
    by (auto simp: cm_files_def)
  define w where "w = (new_write (job_id j) Generic [] (FilePath (rcv_path r)) 0 False False (cm_files (job_files j))
    (can_enable_overwrite_detection (lr_version (lr (base c)))))\<lparr>job_total_size := rcv_total_size r\<rparr>"
  have w: "receiver_ok (rcv_path r) (job_id j) (cm_files (job_files j)) w" "file_num w = int 0" "data_stream w = None"
    "job_id w = job_id j"
    by (simp_all add: w_def receiver_ok_def new_write_def)
  have ind: "independent (rcv_path r) (cm_files (job_files j))" using req(4) by simp
  from write_groups [OF ind cm(2) mark' w(1) gs(2,3) w(2), of "cm_fs st" "cm_json ce"] w(3)
  obtain fs' w' where wr: "write_blocks (cm_os ce) (cm_decompress ce) (cm_json ce) (cm_fs st) w (concat gs) = Inr (fs', w')"
    and place: "\<forall>k < length (job_files j). in_place (rcv_path r) (job_files j) D (modify_time fs' w') k"
    by (auto simp: in_place_cm_files)
  let ?st1 = "st\<lparr>write_jobs := write_jobs st @ [w]\<rparr>"
  have blocks: "handle_fs_all ce (map FsWriteBlock (concat gs)) ?st1 =
      Some ([], st\<lparr>cm_fs := fs', write_jobs := write_jobs st @ [w']\<rparr>)" "job_id w' = job_id j"
    using handle_fs_blocks [OF cm(1) w(4) groups_from_id [OF gs(3)], of ce ?st1 fs' w'] wr by simp_all
  have start: "cm_new_write (rcv_path r) (job_id j) 0 (map (\<lambda>f. (entry_name f, entry_modified f)) (job_files j))
      (can_enable_overwrite_detection (lr_version (lr (base c)))) (rcv_total_size r) st = ?st1"
    by (simp add: new_write_without_markers [OF mark] w_def)
  note relayed = relay_upload [OF conn, of calls os sfs e r "concat gs" "job_id j" n f]
  have "handle_fs_all ce (FsNewWrite (rcv_path r) (rcv_id r) (rcv_file_num r)
        (map (\<lambda>f. (entry_name f, entry_modified f)) (rcv_files r))
        (can_enable_overwrite_detection (lr_version (lr (base c)))) (rcv_total_size r) (cid c) #
      map FsWriteBlock (concat gs) @ [FsWriteDone (job_id j) n]) st =
    Some ([CmDone (job_id j) n, CmLog (job_id j) True False []],
      st\<lparr>cm_fs := modify_time fs' w', write_jobs := write_jobs st\<rparr>)"
    using start blocks cm(1)
    by (simp add: req handle_fs_def [of ce "FsNewWrite _ _ _ _ _ _ _"] handle_fs_all_append)
      (simp add: handle_fs_def remove_job_last)
  note finished = this
  show ?thesis
    by (rule exI [of _ "concat gs"], rule exI [of _ j'], rule exI, rule exI,
        rule conjI [OF gs(1) conjI [OF relayed conjI [OF finished]]]) (simp add: place)
qed

text \<open>A file transfer session, and a connection manager with an empty file system.\<close>

definition upload_control :: control where
  "upload_control = control_new plain_env (new_connection\<lparr>file_transfer := Some (''/s'', False)\<rparr>) 0"

definition upload_state :: file_state where
  "upload_state = \<lparr>read_jobs = [], printer_data = [], remove_log = remove_log_new 0, file_transferred = False\<rparr>"

definition upload_calls :: fs_calls where
  "upload_calls = \<lparr>list_files = (\<lambda>_ _. Inl []), call_result = (\<lambda>_. Inr ())\<rparr>"

definition upload_cm :: cm_env where
  "upload_cm = \<lparr>cm_os = open_os, cm_decompress = (\<lambda>b. b), cm_json = (\<lambda>_. []), cm_of_json = (\<lambda>_. None),
     cm_calls = upload_calls\<rparr>"

definition upload_request :: receive_request where
  "upload_request = \<lparr>rcv_id = 1, rcv_path = ''/r'', rcv_files = two_files, rcv_file_num = 0, rcv_total_size = 3\<rparr>"

lemma upload_end_to_end_witness:
  "\<exists>bs j' ms st'. reads open_os (\<lambda>b. b) small_fs (small_job ''/s'') bs j' \<and>
    relay upload_calls open_os small_fs plain_env
      (Action (FaReceive upload_request) # map (\<lambda>b. Response (FrBlock b)) bs @
        [Response (FrDone (job_id (small_job ''/s'')) 1)]) upload_control upload_state = Some ms \<and>
    handle_fs_all upload_cm ms \<lparr>cm_fs = small_fs, write_jobs = []\<rparr> =
      Some ([CmDone (job_id (small_job ''/s'')) 1, CmLog (job_id (small_job ''/s'')) True False []], st') \<and>
    (\<forall>k < length (job_files (small_job ''/s'')).
      in_place (rcv_path upload_request) (job_files (small_job ''/s'')) (\<lambda>n. if n = 0 then [1, 2, 3] else [])
        (cm_fs st') k) \<and>
    write_jobs st' = write_jobs \<lparr>cm_fs = small_fs, write_jobs = []\<rparr>"
  by (rule upload_end_to_end [where sp = "''/s''"])
    (simp_all add: small_sender upload_cm_def upload_request_def upload_control_def control_new_def)

subsection \<open>One-way transfer\<close>

text \<open>What changes the files of this machine, or sends them out.\<close>

definition outward :: "file_effect \<Rightarrow> bool" where
  "outward x = (case x of
      ToCm (FsRemoveDir _ _ _) \<Rightarrow> True | ToCm (FsRemoveFile _ _ _) \<Rightarrow> True | ToCm (FsCreateDir _ _) \<Rightarrow> True
    | ToCm (FsRename _ _ _) \<Rightarrow> True | FileTimer \<Rightarrow> True | _ \<Rightarrow> False)"

text \<open>
  One-way transfer is one way.  When the machine is set to one-way file transfer, no file message of a
  connection starts a read job, and none asks the connection manager to remove, rename or create anything; a job
  that was refused is answered with the error.
\<close>

theorem one_way_blocks:
  assumes "builtin_option e ''one-way-file-transfer'' = ''Y''"
    and "on_file_action calls os fs e a c f = Some (es, c', f')"
  shows "length (read_jobs f') \<le> length (read_jobs f) \<and> (\<forall>x \<in> set es. \<not> outward x) \<and>
    (\<forall>i. one_way_refuses a = Some i \<longrightarrow> file_transfer (base c) \<noteq> None \<longrightarrow> delayed_read_dir c = None \<longrightarrow>
      es = [PeerError i ''one-way-file-transfer-tip'' 0] \<and> c' = c \<and> f' = f)"
proof -
  have rm: "length (snd (remove_job i js)) \<le> length js" for i js
    by (induction js) (auto split: prod.splits)
  have up: "length (update_job i j js) = length js" for i j js
    by (induction js) auto
  show ?thesis
    using assms rm up
    by (cases a) (auto simp: on_file_action_def on_file_request_def outward_def split: if_splits option.splits sum.splits)
qed

lemma one_way_blocks_witness:
  "fst (the (on_file_action upload_calls open_os small_fs (plain_env\<lparr>builtin_option := (\<lambda>_. ''Y'')\<rparr>)
      (FaRemoveFile 7 ''/s/a'' 0) upload_control upload_state)) = [PeerError 7 ''one-way-file-transfer-tip'' 0]"
proof -
  obtain es c' f' where st: "on_file_action upload_calls open_os small_fs
      (plain_env\<lparr>builtin_option := (\<lambda>_. ''Y'')\<rparr>) (FaRemoveFile 7 ''/s/a'' 0) upload_control upload_state = Some (es, c', f')"
    by (simp add: on_file_action_def upload_control_def control_new_def)
  have "file_transfer (base upload_control) \<noteq> None" "delayed_read_dir upload_control = None"
    by (simp_all add: upload_control_def control_new_def)
  with one_way_blocks [OF _ st] show ?thesis by (simp add: st)
qed

subsection \<open>The log of a directory that is removed\<close>

text \<open>
  The files of a removed directory stay in the log.  When a file is removed and then the directory that it was
  in, the entry of the file is not dropped, whereas an entry of a directory is dropped for the one it was in: the
  arguments of the test are the wrong way round for files.
\<close>

theorem removed_files_stay_logged:
  assumes "direct_child d p"
  shows "removed_files (snd (on_remove_dir t j d (snd (on_remove_file t i p (remove_log_new t))))) = [(i, p)] \<and>
    removed_dirs (snd (on_remove_dir t j d (snd (on_remove_dir t i p (remove_log_new t))))) = [(j, d)]"
proof -
  have len: "length (components d) < length (components p)"
    using assms by (cases "components p" rule: rev_cases)
      (auto simp: direct_child_def parent_components_def split: if_splits)
  have "\<not> direct_child p d"
  proof
    assume "direct_child p d"
    then have "length (components p) < length (components d)"
      by (cases "components d" rule: rev_cases) (auto simp: direct_child_def parent_components_def split: if_splits)
    with len show False by simp
  qed
  with assms show ?thesis
    by (auto simp: on_remove_dir_def on_remove_file_def remove_log_new_def Let_def)
qed

lemma removed_files_stay_logged_witness:
  "removed_files (snd (on_remove_dir 0 8 ''/s'' (snd (on_remove_file 0 7 ''/s/a'' (remove_log_new 0))))) =
    [(7, ''/s/a'')]"
  using removed_files_stay_logged [of "''/s''" "''/s/a''" 0 8 7]
  by (simp add: direct_child_def parent_components_def components_def Let_def)

end
