(* ===== verification/Session_Properties.thy ===== *)
theory Session_Properties
  imports Session_Control Login_Properties
begin

text \<open>
  What a remote control session is subscribed to while the local user changes its permissions, the peer its
  options and its displays, and other connections come and go on the same server.
\<close>

subsection \<open>Events of a session\<close>

datatype session_event =
    LocalPermission permission_kind bool
  | PeerOptions option_message
  | PeerSwitchDisplay nat int int
  | PeerCaptureDisplays "nat list" "nat list" "nat list"
  | PeerVoiceCall bool int int
  | LocalVoiceCall bool
  | LocalCloseVoiceCall
  | PeerSelectedSid nat
  | OtherConnections server_op

fun session_step :: "build \<Rightarrow> env \<Rightarrow> server_env \<Rightarrow> session_event \<Rightarrow> step" where
  "session_step b e se (LocalPermission k en) st = switch_permission b e k en st"
| "session_step b e se (PeerOptions o') st = update_options b e o' st"
| "session_step b e se (PeerSwitchDisplay d w h) st = handle_switch_display se d w h st"
| "session_step b e se (PeerCaptureDisplays add sub set') st = handle_capture_displays add sub set' st"
| "session_step b e se (PeerVoiceCall connect ts t) st = on_voice_call_request connect ts t st"
| "session_step b e se (LocalVoiceCall accepted) st = handle_voice_call accepted st"
| "session_step b e se LocalCloseVoiceCall st = close_voice_call st"
| "session_step b e se (PeerSelectedSid minutes) st = snd (on_selected_sid b e se minutes False st)"
| "session_step b e se (OtherConnections op) (c, srv) =
     ([], c, if mentions (cid c) op \<or> op = RemoveConnection (cid c) then srv else server_step se op srv)"

subsection \<open>The invariant\<close>

definition allowed :: "build \<Rightarrow> env \<Rightarrow> control \<Rightarrow> string \<Rightarrow> bool" where
  "allowed b e c n \<longleftrightarrow>
     (n = ''clipboard'' \<longrightarrow> can_sub_clipboard_service e c) \<and>
     (n = ''audio'' \<longrightarrow> audio_enabled c) \<and>
     (n = ''mouse_pos'' \<longrightarrow> show_remote_cursor c) \<and>
     (n = ''window_focus'' \<longrightarrow> follow_remote_window c) \<and>
     (n = ''mouse_cursor'' \<longrightarrow> keyboard c \<or> show_remote_cursor c) \<and>
     (n = ''file-clipboard'' \<and> unix_file_copy_paste b \<longrightarrow> file_transfer_enabled c)"

abbreviation exact_services :: "string list" where
  "exact_services \<equiv> [''clipboard'', ''audio'', ''mouse_pos'']"

definition session_inv :: "build \<Rightarrow> env \<Rightarrow> ctl \<Rightarrow> bool" where
  "session_inv b e st =
     (case st of (c, srv) \<Rightarrow>
        server_ok srv \<and> is_remote c \<and> is_authed_remote_conn c \<and> authorized (base c) \<and>
        (\<forall>n. subbed srv n (cid c) \<longrightarrow> allowed b e c n) \<and>
        (services_subed c \<longrightarrow> (\<forall>n \<in> set exact_services. allowed b e c n \<longrightarrow> contains n srv \<longrightarrow> subbed srv n (cid c))))"

named_theorems control_simps \<open>what the flags of a connection amount to\<close>

lemmas [control_simps] = cid_def peer_keyboard_enabled_def clipboard_enabled_def audio_enabled_def
  file_transfer_enabled_def can_sub_clipboard_service_def can_sub_file_clipboard_service_def is_remote_def
  is_authed_remote_conn_def is_authed_view_camera_conn_def

lemma service_names [simp]:
  "get_service_name src d \<notin> set exact_services" "get_service_name src d \<noteq> ''window_focus''"
  "get_service_name src d \<noteq> ''mouse_cursor''" "get_service_name src d \<noteq> ''file-clipboard''"
  "get_service_name src d \<noteq> ''clipboard''" "get_service_name src d \<noteq> ''audio''"
  "get_service_name src d \<noteq> ''mouse_pos''"
  "\<not> is_video_service_name ''clipboard''" "\<not> is_video_service_name ''audio''" "\<not> is_video_service_name ''mouse_pos''"
  "\<not> is_video_service_name ''window_focus''" "\<not> is_video_service_name ''mouse_cursor''"
  "\<not> is_video_service_name ''file-clipboard''"
  by (cases src; simp add: get_service_name_def is_video_service_name_def)+

lemma run_steps_inv:
  "(\<And>f st. f \<in> set fs \<Longrightarrow> P st \<Longrightarrow> P (snd (f st))) \<Longrightarrow> P st \<Longrightarrow> P (snd (run_steps fs st))"
proof (induction fs arbitrary: st)
  case (Cons f fs)
  then show ?case by (auto simp: split_beta)
qed simp

lemma run_steps_control [simp]:
  "run_steps [] st = ([], st)"
  "snd (run_steps (f # fs) st) = snd (run_steps fs (snd (f st)))"
  by (simp_all add: split_beta)

lemma allowed_video [simp]: "allowed b e c (get_service_name src d)"
  by (simp add: allowed_def)


text \<open>
  A step that changes the flags and then brings some subscriptions in line: the wishes agree with the new flags,
  and the new flags do not matter for the services that are left alone.
\<close>

lemma wishes_inv:
  assumes inv: "session_inv b e (c, srv)"
    and same: "base c' = base c" "authed c' = authed c" "services_subed c' = services_subed c"
    and wish: "\<And>n v. (n, v) \<in> set ps \<Longrightarrow> (v \<longrightarrow> allowed b e c' n) \<and> (n \<in> set exact_services \<longrightarrow> allowed b e c' n \<longrightarrow> v)"
    and rest: "\<And>n. n \<notin> fst ` set ps \<Longrightarrow>
      (allowed b e c n \<longrightarrow> allowed b e c' n) \<and> (n \<in> set exact_services \<longrightarrow> allowed b e c' n \<longrightarrow> allowed b e c n)"
  shows "session_inv b e (c', fold (\<lambda>(n, v). subscribe n (cid c) v) ps srv)"
proof -
  let ?srv = "fold (\<lambda>(n, v). subscribe n (cid c) v) ps srv"
  have ok: "server_ok srv" and rem: "is_remote c'" "is_authed_remote_conn c'" "authorized (base c')" "cid c' = cid c"
    using inv same by (auto simp: session_inv_def is_remote_def is_authed_remote_conn_def cid_def)
  note subs = table.subs_all [OF ok, where i = "cid c" and ps = ps and j = "cid c"]
  have both: "(subbed ?srv n (cid c) \<longrightarrow> allowed b e c' n) \<and>
      (services_subed c' \<longrightarrow> n \<in> set exact_services \<longrightarrow> allowed b e c' n \<longrightarrow> contains n ?srv \<longrightarrow> subbed ?srv n (cid c))" for n
  proof (cases "map_of (rev ps) n")
    case None
    then have n: "n \<notin> fst ` set ps" by (simp add: map_of_eq_None_iff)
    have "subbed ?srv n (cid c) = subbed srv n (cid c)" by (simp add: subs None)
    with rest [OF n] inv same(3) show ?thesis by (auto simp: session_inv_def table.has_all [OF ok])
  next
    case (Some v)
    then have "(n, v) \<in> set ps" by (auto dest: map_of_SomeD)
    from wish [OF this] have w: "v \<longrightarrow> allowed b e c' n" "n \<in> set exact_services \<longrightarrow> allowed b e c' n \<longrightarrow> v" by blast+
    have "subbed ?srv n (cid c) = (if contains n srv then v else subbed srv n (cid c))" by (simp add: subs Some)
    moreover have "subbed srv n (cid c) \<longrightarrow> contains n srv" by (auto simp: subbed_def contains_def split: option.splits)
    ultimately show ?thesis using w by (auto simp: table.has_all [OF ok])
  qed
  then show ?thesis using rem table.valid_all [OF ok, of "cid c" ps] by (auto simp: session_inv_def)
qed

lemma flags_inv:
  assumes "session_inv b e (c, srv)" "base c' = base c" "authed c' = authed c" "services_subed c' = services_subed c"
    "allowed b e c' = allowed b e c"
  shows "session_inv b e (c', srv)"
  using wishes_inv [OF assms(1-4), where ps = "[]"] assms(5) by simp

lemmas opt_defs = opt_quality_def opt_fps_def opt_decoding_def opt_lock_def opt_cursor_def opt_follow_cursor_def
  opt_follow_window_def opt_audio_def opt_file_def opt_clipboard_def opt_keyboard_def opt_privacy_def opt_block_def
  opt_my_cursor_def sub_clipboard_def sub_file_clipboard_def sub_audio_def sub_cursor_def set_to_def

lemma switch_keyboard_inv:
  assumes "session_inv b e (c, srv)" shows "session_inv b e (snd (switch_permission b e PermKeyboard en (c, srv)))"
proof -
  let ?c = "c\<lparr>keyboard := en\<rparr>"
  have "session_inv b e (?c, fold (\<lambda>(n, v). subscribe n (cid c) v)
      ([(''clipboard'', can_sub_clipboard_service e ?c)] @
       (if unix_file_copy_paste b then [(''file-clipboard'', can_sub_file_clipboard_service e ?c)] else []) @
       [(''mouse_cursor'', en \<or> show_remote_cursor ?c)]) srv)"
    by (rule wishes_inv [OF assms]) (auto simp: allowed_def control_simps split: if_splits)
  then show ?thesis
    by (simp add: switch_permission_def opt_defs Let_def cid_def split: if_splits)
qed


lemma allowed_flags [simp]:
  "allowed b e (c\<lparr>restart := v\<rparr>) = allowed b e c" "allowed b e (c\<lparr>recording := v\<rparr>) = allowed b e c"
  "allowed b e (c\<lparr>block_input := v\<rparr>) = allowed b e c" "allowed b e (c\<lparr>lock_after_session_end := v\<rparr>) = allowed b e c"
  "allowed b e (c\<lparr>follow_remote_cursor := v\<rparr>) = allowed b e c" "allowed b e (c\<lparr>show_my_cursor := v\<rparr>) = allowed b e c"
  "allowed b e (c\<lparr>display_idx := d\<rparr>) = allowed b e c" "allowed b e (c\<lparr>multi_ui_session := v\<rparr>) = allowed b e c"
  "allowed b e (c\<lparr>voice_calling := v\<rparr>) = allowed b e c" "allowed b e (c\<lparr>voice_call_request := r\<rparr>) = allowed b e c"
  "allowed b e (c\<lparr>services_subed := v\<rparr>) = allowed b e c" "allowed b e (c\<lparr>auto_disconnect := t\<rparr>) = allowed b e c"
  "allowed b e (c\<lparr>options_in_login := o'\<rparr>) = allowed b e c"
  by (intro ext; simp add: allowed_def control_simps)+

lemma file_wish_inv:
  assumes "session_inv b e (c, srv)" and "c' = c\<lparr>perm_file := perm_file c', enable_file_transfer := enable_file_transfer c'\<rparr>"
  shows "session_inv b e (c', if unix_file_copy_paste b
    then subscribe ''file-clipboard'' (cid c) (can_sub_file_clipboard_service e c') srv else srv)"
proof -
  have same: "base c' = base c" "authed c' = authed c" "services_subed c' = services_subed c"
    by (subst assms(2), simp)+
  have other: "n \<noteq> ''file-clipboard'' \<or> \<not> unix_file_copy_paste b \<Longrightarrow> allowed b e c' n = allowed b e c n" for n
    by (subst assms(2), cases "n = ''file-clipboard''") (simp_all add: allowed_def control_simps)
  show ?thesis
  proof (cases "unix_file_copy_paste b")
    case True
    have "can_sub_file_clipboard_service e c' \<Longrightarrow> allowed b e c' ''file-clipboard''"
      by (simp add: allowed_def control_simps)
    with True show ?thesis
      using wishes_inv [OF assms(1) same, where ps = "[(''file-clipboard'', can_sub_file_clipboard_service e c')]"] other
      by simp
  next
    case False
    with other have "allowed b e c' = allowed b e c" by blast
    with False flags_inv [OF assms(1) same] show ?thesis by simp
  qed
qed

lemma switch_permission_inv:
  assumes "session_inv b e (c, srv)" shows "session_inv b e (snd (switch_permission b e k en (c, srv)))"
proof -
  note one = wishes_inv [OF assms, where ps = "[(n, v)]" for n v, simplified]
  have auth: "authorized (base c)" "\<not> is_authed_view_camera_conn (c\<lparr>audio := en\<rparr>)" "\<not> view_camera (base c)"
    using assms by (auto simp: session_inv_def is_authed_remote_conn_def is_authed_view_camera_conn_def is_remote_def)
  show ?thesis
  proof (cases k)
    case PermKeyboard
    then show ?thesis using switch_keyboard_inv [OF assms] by simp
  next
    case PermClipboard
    have "session_inv b e (c\<lparr>clipboard := en\<rparr>, subscribe ''clipboard'' (cid c)
        (can_sub_clipboard_service e (c\<lparr>clipboard := en\<rparr>)) srv)"
      by (rule one) (auto simp: allowed_def control_simps)
    then show ?thesis by (simp add: PermClipboard switch_permission_def opt_defs Let_def cid_def)
  next
    case PermAudio
    have "session_inv b e (c\<lparr>audio := en\<rparr>, subscribe ''audio'' (cid c) (audio_enabled (c\<lparr>audio := en\<rparr>)) srv)"
      by (rule one) (auto simp: allowed_def control_simps)
    then show ?thesis using auth by (simp add: PermAudio switch_permission_def opt_defs Let_def cid_def)
  next
    case PermFile
    have "session_inv b e (c\<lparr>perm_file := en\<rparr>, if unix_file_copy_paste b
        then subscribe ''file-clipboard'' (cid c) (can_sub_file_clipboard_service e (c\<lparr>perm_file := en\<rparr>)) srv else srv)"
      by (rule file_wish_inv [OF assms]) simp_all
    then show ?thesis
      by (cases "unix_file_copy_paste b") (simp_all add: PermFile switch_permission_def opt_defs Let_def cid_def)
  next
    case PermCamera
    then show ?thesis using auth assms by (simp add: switch_permission_def)
  qed (simp_all add: switch_permission_def allowed_flags flags_inv [OF assms])
qed

lemma sub_cursor_inv:
  assumes "session_inv b e (c, srv)"
  shows "session_inv b e (snd (opt_cursor o' (c, srv)))"
proof -
  let ?c = "\<lambda>v. c\<lparr>show_remote_cursor := v\<rparr>"
  have "session_inv b e (?c v, fold (\<lambda>(n, v). subscribe n (cid c) v)
      [(''mouse_cursor'', peer_keyboard_enabled (?c v) \<or> v), (''mouse_pos'', v)] srv)" for v
    by (rule wishes_inv [OF assms]) (auto simp: allowed_def control_simps)
  with assms show ?thesis by (simp add: opt_defs cid_def)
qed

lemma opt_keyboard_inv:
  assumes "session_inv b e (c, srv)"
  shows "session_inv b e (snd (opt_keyboard b e o' (c, srv)))"
proof -
  let ?c = "\<lambda>v. c\<lparr>disable_keyboard := v\<rparr>"
  have "session_inv b e (?c v, fold (\<lambda>(n, v). subscribe n (cid c) v)
      ([(''clipboard'', can_sub_clipboard_service e (?c v))] @
       (if unix_file_copy_paste b then [(''file-clipboard'', can_sub_file_clipboard_service e (?c v))] else []) @
       [(''mouse_cursor'', peer_keyboard_enabled (?c v) \<or> show_remote_cursor (?c v))]) srv)" for v
    by (rule wishes_inv [OF assms]) (auto simp: allowed_def control_simps split: if_splits)
  with assms show ?thesis by (cases "unix_file_copy_paste b") (simp_all add: opt_defs cid_def)
qed

lemma opt_file_inv:
  assumes "session_inv b e (c, srv)"
  shows "session_inv b e (snd (opt_file b e o' (c, srv)))"
proof -
  have "session_inv b e (c\<lparr>enable_file_transfer := v\<rparr>, if unix_file_copy_paste b
      then subscribe ''file-clipboard'' (cid c) (can_sub_file_clipboard_service e (c\<lparr>enable_file_transfer := v\<rparr>)) srv
      else srv)" for v
    by (rule file_wish_inv [OF assms]) simp_all
  with assms show ?thesis by (cases "unix_file_copy_paste b") (simp_all add: opt_defs cid_def Let_def)
qed

lemma opt_single_inv:
  assumes "session_inv b e (c, srv)"
  shows "session_inv b e (snd (opt_follow_window o' (c, srv)))" (is ?window)
    and "session_inv b e (snd (opt_audio o' (c, srv)))" (is ?audio)
    and "session_inv b e (snd (opt_clipboard e o' (c, srv)))" (is ?clip)
proof -
  note one = wishes_inv [OF assms, where ps = "[(n, v)]" for n v, simplified]
  have "session_inv b e (c\<lparr>follow_remote_window := v\<rparr>, subscribe ''window_focus'' (cid c) v srv)" for v
    by (rule one) (auto simp: allowed_def control_simps)
  with assms show ?window by (simp add: opt_defs cid_def)
  have "session_inv b e (c\<lparr>disable_audio := v\<rparr>, subscribe ''audio'' (cid c) (audio_enabled (c\<lparr>disable_audio := v\<rparr>)) srv)" for v
    by (rule one) (auto simp: allowed_def control_simps)
  moreover have "\<not> is_authed_view_camera_conn (c\<lparr>disable_audio := v\<rparr>)" for v
    using assms by (auto simp: session_inv_def is_authed_remote_conn_def is_authed_view_camera_conn_def)
  ultimately show ?audio using assms by (simp add: opt_defs cid_def Let_def)
  have "session_inv b e (c\<lparr>disable_clipboard := v\<rparr>, subscribe ''clipboard'' (cid c)
      (can_sub_clipboard_service e (c\<lparr>disable_clipboard := v\<rparr>)) srv)" for v
    by (rule one) (auto simp: allowed_def control_simps)
  with assms show ?clip by (simp add: opt_defs cid_def)
qed

lemma opt_flags_inv:
  assumes "session_inv b e (c, srv)"
  shows "session_inv b e (snd (opt_lock o' (c, srv)))" "session_inv b e (snd (opt_follow_cursor o' (c, srv)))"
    "session_inv b e (snd (opt_my_cursor b o' (c, srv)))"
  using assms by (simp_all add: opt_defs flags_inv [OF assms])

lemma update_options_inv:
  assumes "session_inv b e st" shows "session_inv b e (snd (update_options b e o' st))"
proof -
  have "session_inv b e (snd (f st))" if "session_inv b e st" and
    "f \<in> set [opt_quality o', opt_fps o', opt_decoding o', opt_lock o', opt_cursor o', opt_follow_cursor o',
        opt_follow_window o', opt_audio o', opt_file b e o', opt_clipboard e o', opt_keyboard b e o',
        opt_privacy o', opt_block o', opt_my_cursor b o']" for f st
    using that
    by (cases st) (auto simp: opt_quality_def opt_fps_def opt_decoding_def opt_privacy_def opt_block_def set_to_def Let_def
        sub_cursor_inv opt_keyboard_inv opt_file_inv opt_single_inv opt_flags_inv)
  then show ?thesis unfolding update_options_def by (intro run_steps_inv [where P = "session_inv b e"] assms)
qed


subsection \<open>The other events\<close>

lemma server_inv:
  assumes "session_inv b e (c, srv)" and "server_ok srv'"
    and "\<And>n. \<not> is_video_service_name n \<Longrightarrow> subbed srv' n (cid c) = subbed srv n (cid c) \<and> contains n srv' = contains n srv"
  shows "session_inv b e (c, srv')"
proof -
  have video: "allowed b e c n" if "is_video_service_name n" for n
    using that by (auto simp: allowed_def)
  have "subbed srv' n (cid c) \<longrightarrow> allowed b e c n" for n
    using assms(1) assms(3) [of n] video [of n] unfolding session_inv_def by (cases "is_video_service_name n") auto
  moreover have "\<not> is_video_service_name n" if "n \<in> set exact_services" for n using that by auto
  then have "services_subed c \<longrightarrow> (\<forall>n \<in> set exact_services. allowed b e c n \<longrightarrow> contains n srv' \<longrightarrow> subbed srv' n (cid c))"
    using assms(1,3) unfolding session_inv_def split_conv by blast
  ultimately show ?thesis using assms(1,2) unfolding session_inv_def split_conv by blast
qed

lemma contains_ensure: "contains n (ensure_video_service src d srv) \<longleftrightarrow> n = get_service_name src d \<or> contains n srv"
  by (auto simp: ensure_video_service_def contains_def add_service_def video_service_new_def service_new_def update_conv)

lemma is_video_get [simp]: "is_video_service_name (get_service_name src d)"
  by (cases src) (simp_all add: is_video_service_name_def get_service_name_def)

lemma contains_mapped [simp]:
  "contains n (add_connection se i noperms srv) = contains n srv" "contains n (remove_connection i srv) = contains n srv"
  by (simp_all add: contains_def add_connection_alt map_of_mapped remove_connection_def Let_def)

lemma contains_on_service [simp]: "contains n (on_service m f srv) = contains n srv"
  by (auto simp: contains_def on_service_def update_conv split: option.split)

lemma contains_camera [simp]: "contains n (add_camera_connection se i srv) = contains n srv"
proof -
  have "contains n (srv\<lparr>connections := cs\<rparr>) = contains n srv" for srv cs by (simp add: contains_def)
  then show ?thesis by (simp add: add_camera_connection_def Let_def)
qed

lemma contains_set_opt [simp]: "contains n (set_video_service_opt d opt v srv) = contains n srv"
proof -
  let ?f = "\<lambda>k s. if (case d of Some (source, d) \<Rightarrow> k \<noteq> get_service_name source d | None \<Rightarrow> False) then s
      else if is_video_service_name k then snd (set_option s opt v) else s"
  have "services (set_video_service_opt d opt v srv) = map (\<lambda>(k, s). (k, ?f k s)) (services srv)"
    by (auto simp: set_video_service_opt_def)
  then show ?thesis by (simp add: contains_def map_of_mapped)
qed

lemma other_step:
  assumes "server_ok srv" "\<not> mentions i op" "op \<noteq> RemoveConnection i"
  shows "subbed (server_step se op srv) n i = subbed srv n i"
    and "\<not> is_video_service_name n \<Longrightarrow> contains n (server_step se op srv) = contains n srv"
proof -
  show "subbed (server_step se op srv) n i = subbed srv n i"
    using assms
    by (cases op;
        force simp: server_simps subbed_ensure subbed_set_opt try_add_primary_video_service_def
          try_add_primary_camera_service_def capture_step)
  show "contains n (server_step se op srv) = contains n srv" if "\<not> is_video_service_name n"
    using assms that
    by (cases op) (auto simp: server_simps contains_ensure try_add_primary_video_service_def
        try_add_primary_camera_service_def capture_step)
qed


lemma session_inv_ok: "session_inv b e (c, srv) \<Longrightarrow> server_ok srv"
  by (simp add: session_inv_def)

lemma session_inv_kind:
  "session_inv b e (c, srv) \<Longrightarrow> is_remote c \<and> authed c = Some Remote \<and> file_transfer (base c) = None \<and>
    \<not> view_camera (base c) \<and> \<not> terminal (base c) \<and> \<not> is_authed_view_camera_conn c"
  by (simp add: session_inv_def is_remote_def is_authed_remote_conn_def is_authed_view_camera_conn_def)

lemma ensure_inv: "session_inv b e (c, srv) \<Longrightarrow> session_inv b e (c, ensure_video_service src d srv)"
  by (rule server_inv) (auto simp: subbed_ensure contains_ensure intro: ensure_video_service_ok dest: session_inv_ok)

lemma subscribe_video_inv:
  "session_inv b e (c, srv) \<Longrightarrow> session_inv b e (c, subscribe (get_service_name src d) (cid c) v srv)"
  by (frule session_inv_ok, erule server_inv) (auto simp: server_simps)

lemma capture_inv:
  "session_inv b e (c, srv) \<Longrightarrow> session_inv b e (c, capture_displays (cid c) src ds incl excl srv)"
  by (frule session_inv_ok, erule server_inv) (auto simp: capture_step)

lemma fold_ensure_inv:
  "session_inv b e (c, srv) \<Longrightarrow> session_inv b e (c, fold (ensure_video_service src) ds srv)"
  by (induction ds arbitrary: srv) (auto intro: ensure_inv)

lemma switch_display_inv:
  assumes "session_inv b e (c, srv)"
  shows "session_inv b e (snd (handle_switch_display se d w h (c, srv)))"
proof -
  have "session_inv b e (c, srv) \<Longrightarrow> session_inv b e (c\<lparr>display_idx := d\<rparr>, srv)" for srv
    by (rule flags_inv) simp_all
  with assms show ?thesis
    by (auto simp: handle_switch_display_def switch_display_to_def change_resolution_def Let_def
        intro!: subscribe_video_inv ensure_inv)
qed

lemma capture_displays_inv:
  assumes "session_inv b e (c, srv)"
  shows "session_inv b e (snd (handle_capture_displays add sub set' (c, srv)))"
proof -
  let ?src = "video_source_of c"
  define srv2 where "srv2 = (let srv1 = fold (ensure_video_service ?src) (add @ set') srv in
    if add \<noteq> [] then capture_displays (cid c) ?src add True False srv1
    else if sub \<noteq> [] then capture_displays (cid c) ?src sub False True srv1
    else capture_displays (cid c) ?src set' True True srv1)"
  define c1 where "c1 = c\<lparr>multi_ui_session := 1 < get_subbed_displays_count (cid c) srv2\<rparr>"
  have "session_inv b e (c, srv2)"
    unfolding srv2_def Let_def using assms by (auto intro!: capture_inv fold_ensure_inv)
  then have inv: "session_inv b e (c1, srv2)" unfolding c1_def by (rule flags_inv) simp_all
  have "session_inv b e (c1, subscribe ''window_focus'' (cid c1) v srv2)" if "follow_remote_window c1" for v
    using wishes_inv [OF inv, where c' = c1 and ps = "[(''window_focus'', v)]"] that by (auto simp: allowed_def)
  moreover have "snd (handle_capture_displays add sub set' (c, srv)) = (c1,
      if follow_remote_window c1 then subscribe ''window_focus'' (cid c1) (\<not> multi_ui_session c1) srv2 else srv2)"
    by (simp add: handle_capture_displays_def c1_def srv2_def Let_def)
  ultimately show ?thesis using inv by simp
qed

lemma voice_inv:
  assumes "session_inv b e (c, srv)"
  shows "session_inv b e (snd (handle_voice_call accepted (c, srv)))" (is ?handle)
    and "session_inv b e (snd (close_voice_call (c, srv)))" (is ?close)
    and "session_inv b e (snd (on_voice_call_request connect ts t (c, srv)))" (is ?request)
proof -
  have flags: "session_inv b e (c\<lparr>voice_call_request := None, voice_calling := v\<rparr>, srv)"
    "session_inv b e (c\<lparr>voice_calling := v\<rparr>, srv)" "session_inv b e (c\<lparr>voice_call_request := r\<rparr>, srv)" for v r
    by (rule flags_inv [OF assms]; simp)+
  have no: "\<not> is_authed_view_camera_conn c" using session_inv_kind [OF assms] by simp
  show ?handle ?close using assms flags no
    by (auto simp: handle_voice_call_def close_voice_call_def split: option.split)
  then show ?request using flags by (simp add: on_voice_call_request_def)
qed

lemma sub_monitor_inv:
  assumes "session_inv b e (c, srv)"
  shows "session_inv b e (snd (try_sub_monitor_services b e se minutes (c, srv)))"
proof -
  define noperms where "noperms =
    (if \<not> peer_keyboard_enabled c \<and> \<not> show_remote_cursor c then [''mouse_cursor''] else []) @
    (if \<not> show_remote_cursor c then [''mouse_pos''] else []) @
    (if \<not> follow_remote_window c then [''window_focus''] else []) @
    (if \<not> can_sub_clipboard_service e c then [''clipboard''] else []) @
    (if unix_file_copy_paste b \<and> \<not> can_sub_file_clipboard_service e c then [''file-clipboard''] else []) @
    (if \<not> audio_enabled c then [''audio''] else [])"
  define srv1 where "srv1 = try_add_primary_video_service se srv"
  let ?c = "c\<lparr>services_subed := True, auto_disconnect := get_auto_disconnect_timer e minutes\<rparr>"
  have inv: "session_inv b e (c, srv1)" unfolding srv1_def try_add_primary_video_service_def by (rule ensure_inv [OF assms])
  have sub: "subbed (add_connection se (cid c) noperms srv1) n (cid c) =
    (if contains n srv1 \<and> n \<notin> set noperms \<and> (is_video_service_name n \<longrightarrow> n = get_service_name Monitor (primary_display se))
     then True else subbed srv1 n (cid c))" for n
    using session_inv_ok [OF inv] by (simp add: server_simps)
  have new: "allowed b e c n" if "n \<notin> set noperms" for n
    using that unfolding noperms_def allowed_def by (auto simp: control_simps split: if_splits)
  have old: "n \<notin> set noperms" if "allowed b e c n" "n \<in> set exact_services" for n
    using that unfolding noperms_def allowed_def by (auto split: if_splits)
  have video: "\<not> is_video_service_name n" if "n \<in> set exact_services" for n using that by auto
  let ?srv = "add_connection se (cid c) noperms srv1"
  have same: "cid ?c = cid c" "is_remote ?c = is_remote c" "is_authed_remote_conn ?c = is_authed_remote_conn c"
    by (simp_all add: control_simps)
  have flags: "allowed b e ?c = allowed b e c" "base ?c = base c" by simp_all
  have parts: "is_remote c" "is_authed_remote_conn c" "authorized (base c)"
    using inv unfolding session_inv_def split_conv by blast+
  have only: "\<forall>n. subbed ?srv n (cid c) \<longrightarrow> allowed b e c n"
    using inv new unfolding sub session_inv_def split_conv by (metis (full_types))
  have all: "\<forall>n \<in> set exact_services. allowed b e c n \<longrightarrow> contains n ?srv \<longrightarrow> subbed ?srv n (cid c)"
    using old video unfolding sub contains_mapped by metis
  have "session_inv b e (?c, ?srv)"
    unfolding session_inv_def split_conv same flags
    by (intro conjI impI only all parts add_connection_ok [OF session_inv_ok [OF inv]])
  moreover have "snd (try_sub_monitor_services b e se minutes (c, srv)) =
    (if is_remote c \<and> \<not> services_subed c then (?c, add_connection se (cid c) noperms srv1) else (c, srv))"
    by (simp add: try_sub_monitor_services_def noperms_def srv1_def Let_def)
  ultimately show ?thesis using assms by simp
qed

lemma session_step_inv: "session_inv b e st \<Longrightarrow> session_inv b e (snd (session_step b e se ev st))"
proof (induction b e se ev st rule: session_step.induct)
  case (9 b e se op c srv)
  then have "session_inv b e (c, server_step se op srv)" if "\<not> mentions (cid c) op" "op \<noteq> RemoveConnection (cid c)"
    using other_step [OF session_inv_ok [OF 9] that] server_step_ok [OF session_inv_ok [OF 9]]
    by (intro server_inv [OF 9]) auto
  with 9 show ?case by simp
qed (auto simp: switch_permission_inv update_options_inv switch_display_inv capture_displays_inv voice_inv
    sub_monitor_inv on_selected_sid_def dest: session_inv_kind split: prod.splits)


lemma after_logon_inv:
  assumes "session_inv b e (c, srv)"
  shows "session_inv b e (snd (after_logon b e se minutes is_directory found wait (c, srv)))"
proof -
  have "session_inv b e (c\<lparr>options_in_login := None\<rparr>, srv)" by (rule flags_inv [OF assms]) simp_all
  then have opts: "session_inv b e (snd (case options_in_login c of
      Some o' \<Rightarrow> update_options b e o' (c\<lparr>options_in_login := None\<rparr>, srv) | None \<Rightarrow> ([], c, srv)))" (is "session_inv b e (snd ?st)")
    using assms by (auto simp: update_options_inv split: option.split)
  obtain es c1 srv1 where st: "?st = (es, c1, srv1)" by (cases ?st)
  with opts have inv: "session_inv b e (c1, srv1)" by simp
  show ?thesis
    using inv session_inv_kind [OF inv] sub_monitor_inv [OF inv]
    by (simp add: after_logon_def st del: run_steps.simps(2))
qed

lemma fresh_inv:
  assumes "server_ok srv" and "is_remote c" "authed c = Some Remote" "authorized (base c)" "\<not> services_subed c"
    and "\<And>n. \<not> subbed srv n (cid c)"
  shows "session_inv b e (c, srv)"
  using assms by (simp add: session_inv_def is_authed_remote_conn_def)

lemma session_run_inv:
  "session_inv b e st \<Longrightarrow> session_inv b e (snd (run_steps (map (session_step b e se) evs) st))"
  by (rule run_steps_inv) (auto intro: session_step_inv)

lemma subbed_server_new [simp]: "\<not> subbed (server_new se k) n i"
proof -
  have "\<not> subbed (fold add_service ss srv) n i" if "\<not> subbed srv n i" "\<forall>s \<in> set ss. subscribes s = [] \<and> new_subscribes s = []"
    for ss srv
    using that
    by (induction ss arbitrary: srv)
      (auto simp: subbed_def add_service_def update_conv is_subed_def split: if_splits option.splits)
  note none = this
  show ?thesis unfolding server_new_def by (rule none) (auto simp: subbed_def service_new_def)
qed

text \<open>
  C17. The services follow the permissions.  A connection logs in to remote control on a server with any history
  of other connections.  After the login, and after any sequence of changed permissions, options, displays, voice
  calls and operations of other connections, it is subscribed to the clipboard only while the local user grants
  the keyboard and the clipboard and the peer has not disabled them, to the sound only while it is granted and not
  disabled, to the position of the pointer and the focus only while it asks for them, and to the shape of the
  pointer only while it may use the keyboard or asks for it.  Once its services are subscribed, the
  clipboard, the sound and the pointer position are delivered whenever they may be.
\<close>

theorem services_match_permissions:
  assumes "srv = fold (server_step se) ops (server_new se k)" and "\<forall>op \<in> set ops. \<not> mentions (cid c) op"
    and "is_remote c" "authed c = Some Remote" "authorized (base c)" "\<not> services_subed c"
    and "snd (run_steps (after_logon b e se minutes is_directory found wait # map (session_step b e se) evs) (c, srv)) =
      (c', srv')"
  shows "(subbed srv' ''clipboard'' (cid c') \<longrightarrow> keyboard c' \<and> \<not> disable_keyboard c' \<and> clipboard c' \<and>
        \<not> disable_clipboard c' \<and> builtin_option e ''one-way-clipboard-redirection'' \<noteq> ''Y'') \<and>
    (subbed srv' ''audio'' (cid c') \<longrightarrow> audio c' \<and> \<not> disable_audio c') \<and>
    (subbed srv' ''mouse_pos'' (cid c') \<longrightarrow> show_remote_cursor c') \<and>
    (subbed srv' ''window_focus'' (cid c') \<longrightarrow> follow_remote_window c') \<and>
    (subbed srv' ''mouse_cursor'' (cid c') \<longrightarrow> keyboard c' \<or> show_remote_cursor c') \<and>
    (unix_file_copy_paste b \<longrightarrow> subbed srv' ''file-clipboard'' (cid c') \<longrightarrow> perm_file c' \<and> enable_file_transfer c') \<and>
    (services_subed c' \<longrightarrow> (\<forall>n \<in> {''clipboard'', ''audio'', ''mouse_pos''}. allowed b e c' n \<longrightarrow> contains n srv' \<longrightarrow>
      subbed srv' n (cid c')))"
proof -
  have "\<not> subbed srv n (cid c)" for n
    using unmentioned_run [OF server_new_ok assms(2)] assms(1) by auto
  moreover have "server_ok srv" by (simp add: assms(1) server_run_ok)
  ultimately have "session_inv b e (c, srv)" using assms(3-6) by (intro fresh_inv)
  then have "session_inv b e (snd (run_steps (map (session_step b e se) evs)
      (snd (after_logon b e se minutes is_directory found wait (c, srv)))))"
    by (intro session_run_inv after_logon_inv)
  with assms(7) have inv: "session_inv b e (c', srv')" by (simp del: run_steps.simps(2))
  then have "\<forall>n. subbed srv' n (cid c') \<longrightarrow> allowed b e c' n"
    and conv: "services_subed c' \<longrightarrow> (\<forall>n \<in> {''clipboard'', ''audio'', ''mouse_pos''}. allowed b e c' n \<longrightarrow>
      contains n srv' \<longrightarrow> subbed srv' n (cid c'))"
    unfolding session_inv_def by auto
  from this(1) [rule_format, of "''clipboard''"] this(1) [rule_format, of "''audio''"]
    this(1) [rule_format, of "''mouse_pos''"] this(1) [rule_format, of "''window_focus''"]
    this(1) [rule_format, of "''mouse_cursor''"] this(1) [rule_format, of "''file-clipboard''"]
  show ?thesis by (intro conjI conv; simp add: allowed_def control_simps)
qed


definition plain_build :: build where
  "plain_build = \<lparr>os_kind = Linux, unix_file_copy_paste = True, is_win10 = False, whiteboard_supported = True\<rparr>"

definition logged_in :: control where
  "logged_in = (control_new plain_env (new_connection\<lparr>authorized := True\<rparr>) 0)\<lparr>authed := Some Remote\<rparr>"

definition after_revocation :: ctl where
  "after_revocation = snd (run_steps (after_logon plain_build plain_env small_env 0 (\<lambda>_. False) True False #
     map (session_step plain_build plain_env small_env) [LocalPermission PermClipboard False])
     (logged_in, server_new small_env 0))"

lemma services_match_permissions_witness:
  "\<not> subbed (snd after_revocation) ''clipboard'' (cid (fst after_revocation))"
proof -
  obtain c' srv' where st: "after_revocation = (c', srv')" by (cases after_revocation)
  have "clipboard (fst after_revocation) = False"
    by (simp add: after_revocation_def switch_permission_def sub_clipboard_def split_beta del: run_steps.simps(2))
  then show ?thesis
    using services_match_permissions [where c = logged_in and ops = "[]" and k = 0, OF _ _ _ _ _ _
        st [unfolded after_revocation_def]]
    by (simp add: st logged_in_def control_new_def new_connection_def is_remote_def del: run_steps.simps(2))
qed

subsection \<open>Where the permissions are not followed\<close>

definition no_options :: option_message where
  "no_options = \<lparr>opt_image_quality = QualityNotSet, opt_custom_image_quality = 0, opt_custom_fps = 0,
     opt_supported_decoding = None, opt_lock_after_session_end = NotSet, opt_show_remote_cursor = NotSet,
     opt_follow_remote_cursor = NotSet, opt_follow_remote_window = NotSet, opt_disable_audio = NotSet,
     opt_enable_file_transfer = NotSet, opt_disable_clipboard = NotSet, opt_disable_keyboard = NotSet,
     opt_privacy_mode = NotSet, opt_block_input = NotSet, opt_show_my_cursor = NotSet\<rparr>"

text \<open>
  A session that only views the camera gets the clipboard when its login says that the clipboard is not disabled:
  the keyboard is taken from it only after its options were applied.
\<close>

lemma camera_session_gets_clipboard:
  assumes "server_ok srv" "contains ''clipboard'' srv" "view_camera (base c)" "file_transfer (base c) = None"
    and "options_in_login c = Some (no_options\<lparr>opt_disable_clipboard := No\<rparr>)"
    and "keyboard c" "clipboard c" "\<not> disable_keyboard c" "builtin_option e ''one-way-clipboard-redirection'' \<noteq> ''Y''"
  shows "case snd (after_logon b e se minutes is_directory found True (c, srv)) of (c', srv') \<Rightarrow>
    subbed srv' ''clipboard'' (cid c') \<and> \<not> can_sub_clipboard_service e c'"
  using assms
  by (simp add: after_logon_def update_options_def opt_defs no_options_def Let_def split_beta server_simps
      control_simps opt_decoding_def)

text \<open>
  A connection that has not logged in is subscribed to the clipboard when the local user grants it the clipboard:
  unlike for the sound, the login is not asked for.
\<close>

lemma clipboard_before_login:
  assumes "server_ok srv" "contains ''clipboard'' srv" "\<not> authorized (base c)"
    and "keyboard c" "\<not> disable_keyboard c" "\<not> disable_clipboard c"
    and "builtin_option e ''one-way-clipboard-redirection'' \<noteq> ''Y''"
  shows "subbed (snd (snd (switch_permission b e PermClipboard True (c, srv)))) ''clipboard'' (cid c)"
  using assms by (simp add: switch_permission_def opt_defs server_simps control_simps)

text \<open>Taking the clipboard away leaves the connection subscribed to the clipboard of files.\<close>

lemma file_clipboard_stays:
  assumes "server_ok srv" "subbed srv ''file-clipboard'' (cid c)"
  shows "case snd (switch_permission b e PermClipboard False (c, srv)) of (c', srv') \<Rightarrow>
    subbed srv' ''file-clipboard'' (cid c') \<and> \<not> can_sub_file_clipboard_service e c'"
  using assms by (simp add: switch_permission_def opt_defs server_simps control_simps)

text \<open>Granting the keyboard subscribes a peer that has disabled it to the shape of the pointer.\<close>

lemma cursor_of_disabled_keyboard:
  assumes "server_ok srv" "contains ''mouse_cursor'' srv" "disable_keyboard c" "\<not> show_remote_cursor c"
  shows "case snd (switch_permission b e PermKeyboard True (c, srv)) of (c', srv') \<Rightarrow>
    subbed srv' ''mouse_cursor'' (cid c') \<and> \<not> peer_keyboard_enabled c' \<and> \<not> show_remote_cursor c'"
  using assms by (cases "unix_file_copy_paste b") (simp_all add: switch_permission_def opt_defs server_simps control_simps subscribe_ok)

end
