(* ===== verification/Handshake.thy ===== *)
theory Handshake
  imports Framed_Stream
begin

text \<open>
  The key exchange before a session: the controlled side in \<^verbatim>\<open>src/server.rs\<close> (\<^verbatim>\<open>create_tcp_connection\<close>), the
  controlling side in \<^verbatim>\<open>src/client.rs\<close> (\<^verbatim>\<open>secure_connection\<close>), the request for the public key in
  \<^verbatim>\<open>libs/hbb_common/src/lib.rs\<close>, and the numbers that the two users compare in \<^verbatim>\<open>password_security.rs\<close>.

  A function that awaits messages is a \<open>proc\<close>: it sends, receives, and ends with a result.  The signature, the
  public-key box and the Diffie-Hellman secret of libsodium, and the encoding of the signed identity, are the
  record \<open>crypto\<close>.  Messages are sent before there is a key, so they are plain; sending is taken to succeed.
  Key pairs and keys that the code draws at random are arguments.
\<close>

subsection \<open>Processes\<close>

datatype handshake_msg =
    SignedIdMsg bytes
  | PublicKeyMsg bytes bytes
  | ChatMsg string
  | KeyResponse bytes
  | EmptyMsg
  | OtherMsg

text \<open>What one \<^verbatim>\<open>timeout(CONNECT_TIMEOUT, stream.next())\<close> can return; \<open>BadBytes\<close> are bytes that are no message.\<close>

datatype received = Msg handshake_msg | BadBytes | StreamError string | Closed | TimedOut

datatype 'r proc = Done 'r | Send handshake_msg "'r proc" | Recv "received \<Rightarrow> 'r proc"

datatype handshake_result =
    Established "bytes option" string "received option"
  | Failed string
  | Panicked

type_synonym handshake = "handshake_result proc"

text \<open>A process on a given list of what it receives: what it sends, and its result if it gets to one.\<close>

primrec run_script :: "'r proc \<Rightarrow> received list \<Rightarrow> handshake_msg list \<times> 'r option" where
  "run_script (Done r) = (\<lambda>ins. ([], Some r))"
| "run_script (Send m p) = (\<lambda>ins. case run_script p ins of (outs, r) \<Rightarrow> (m # outs, r))"
| "run_script (Recv k) = (\<lambda>ins. case ins of [] \<Rightarrow> ([], None) | x # xs \<Rightarrow> run_script (k x) xs)"

subsection \<open>Keys\<close>

record crypto =
  sign :: "bytes \<Rightarrow> bytes \<Rightarrow> bytes"
  verify :: "bytes \<Rightarrow> bytes \<Rightarrow> bytes option"
  sign_pk_of :: "bytes \<Rightarrow> bytes"
  box_pk_of :: "bytes \<Rightarrow> bytes"
  box_seal :: "bytes \<Rightarrow> bytes \<Rightarrow> bytes \<Rightarrow> bytes \<Rightarrow> bytes"
  box_open :: "bytes \<Rightarrow> bytes \<Rightarrow> bytes \<Rightarrow> bytes \<Rightarrow> bytes option"
  diffie_hellman :: "bytes \<Rightarrow> bytes \<Rightarrow> bytes"
  write_id_pk :: "string \<Rightarrow> bytes \<Rightarrow> bytes"
  parse_id_pk :: "bytes \<Rightarrow> (string \<times> bytes) option"

definition zero_nonce :: bytes where "zero_nonce = replicate 24 0"

definition get_pk :: "bytes \<Rightarrow> bytes option" where
  "get_pk pk = (if length pk = 32 then Some pk else None)"

definition decode_id_pk :: "crypto \<Rightarrow> bytes \<Rightarrow> bytes \<Rightarrow> (string \<times> bytes) option" where
  "decode_id_pk cr sid key =
     (case verify cr sid key of
        None \<Rightarrow> None
      | Some b \<Rightarrow>
          (case parse_id_pk cr b of
             None \<Rightarrow> None
           | Some (i, pk) \<Rightarrow> map_option (Pair i) (get_pk pk)))"

text \<open>Sixteen numbers of five digits, each of two bytes of the shared secret.\<close>

definition pad5 :: "nat \<Rightarrow> string" where
  "pad5 n = replicate (5 - length (decimal n)) (CHR ''0'') @ decimal n"

definition compute_security_code :: "crypto \<Rightarrow> bytes \<Rightarrow> bytes \<Rightarrow> string" where
  "compute_security_code cr sk pk =
     (let s = diffie_hellman cr sk pk
      in concat (map (\<lambda>i. pad5 (unat ((push_bit 8 (ucast (s ! (i * 2))) OR ucast (s ! (i * 2 + 1))) :: u16)) @ '' '')
           [0..<16]))"

subsection \<open>The request for the public key\<close>

definition DIRECT_INITIAL_PUBLIC_KEY_REQUEST_TAG :: string where
  "DIRECT_INITIAL_PUBLIC_KEY_REQUEST_TAG = ''E''"

definition set_direct_initial_public_key_request :: handshake_msg where
  "set_direct_initial_public_key_request = ChatMsg DIRECT_INITIAL_PUBLIC_KEY_REQUEST_TAG"

definition is_direct_initial_public_key_request :: "handshake_msg \<Rightarrow> bool" where
  "is_direct_initial_public_key_request m =
     (case m of ChatMsg s \<Rightarrow> s = DIRECT_INITIAL_PUBLIC_KEY_REQUEST_TAG | _ \<Rightarrow> False)"

subsection \<open>The controlled side\<close>

record server_keys =
  sign_sk :: bytes
  sign_pk :: bytes
  server_box_sk :: bytes
  announced_id :: string

definition process_client_public_key_message ::
  "crypto \<Rightarrow> bytes \<Rightarrow> bytes \<Rightarrow> bytes \<Rightarrow> string \<Rightarrow> string + (bytes option \<times> string)" where
  "process_client_public_key_message cr apk sealed our_sk numbers =
     (if length apk = 32 then
        (case box_open cr sealed zero_nonce apk our_sk of
           None \<Rightarrow> Inl ''Handshake failed: box decryption failure''
         | Some k \<Rightarrow>
             if length k \<noteq> 32 then Inl ''Handshake failed: invalid secret key length from peer''
             else Inr (Some k, compute_security_code cr our_sk apk))
      else if apk = [] then Inr (None, numbers)
      else Inl ''Handshake failed: invalid public sign key length from peer'')"

definition next_message_for_handshake :: "(handshake_msg \<Rightarrow> handshake) \<Rightarrow> handshake" where
  "next_message_for_handshake k =
     Recv (\<lambda>r. case r of
       Msg m \<Rightarrow> k m
     | TimedOut \<Rightarrow> Done (Failed ''deadline has elapsed'')
     | _ \<Rightarrow> Done (Failed ''Handshake failed: invalid message format''))"

definition server_finish :: "crypto \<Rightarrow> server_keys \<Rightarrow> handshake_msg \<Rightarrow> handshake" where
  "server_finish cr sk m =
     (case m of
        PublicKeyMsg apk sealed \<Rightarrow>
          (case process_client_public_key_message cr apk sealed (server_box_sk sk) [] of
             Inl err \<Rightarrow> Done (Failed err)
           | Inr (key, numbers) \<Rightarrow> Done (Established key numbers None))
      | _ \<Rightarrow> Done (Established None [] None))"

definition create_tcp_connection :: "crypto \<Rightarrow> server_keys \<Rightarrow> bool \<Rightarrow> handshake" where
  "create_tcp_connection cr sk secure =
     (if secure \<and> length (sign_pk sk) = 32 \<and> length (sign_sk sk) = 64 then
        Send (SignedIdMsg (sign cr (write_id_pk cr (announced_id sk) (box_pk_of cr (server_box_sk sk))) (sign_sk sk)))
          (next_message_for_handshake (\<lambda>m.
            if is_direct_initial_public_key_request m then
              Send (KeyResponse (sign_pk sk)) (next_message_for_handshake (server_finish cr sk))
            else server_finish cr sk m))
      else Done (Established None [] None))"

subsection \<open>The controlling side\<close>

record client_keys =
  client_box_sk :: bytes
  session_key :: bytes
  rendezvous_pk :: bytes
  peer_config_pk :: bytes
  expected_id :: string

text \<open>
  The next message, where a peeked one comes first.  Peeking keeps what was read only when it was read
  without an error.
\<close>

definition client_next :: "received option \<Rightarrow> (received \<Rightarrow> received option \<Rightarrow> handshake) \<Rightarrow> handshake" where
  "client_next peeked k = (case peeked of Some r \<Rightarrow> k r None | None \<Rightarrow> Recv (\<lambda>r. k r None))"

definition client_peek :: "(received \<Rightarrow> received option \<Rightarrow> handshake) \<Rightarrow> handshake" where
  "client_peek k = Recv (\<lambda>r. k r (case r of Msg m \<Rightarrow> Some r | BadBytes \<Rightarrow> Some r | _ \<Rightarrow> None))"

definition get_initial_public_key_for_handshake ::
  "client_keys \<Rightarrow> (bytes option \<Rightarrow> received option \<Rightarrow> handshake) \<Rightarrow> handshake" where
  "get_initial_public_key_for_handshake ck k =
     (case get_pk (rendezvous_pk ck) of
        Some pk \<Rightarrow> k (Some pk) None
      | None \<Rightarrow>
          (case get_pk (peer_config_pk ck) of
             Some pk \<Rightarrow> k (Some pk) None
           | None \<Rightarrow>
               Send set_direct_initial_public_key_request
                 (client_peek (\<lambda>r peeked.
                   case r of
                     TimedOut \<Rightarrow> Done (Failed ''deadline has elapsed'')
                   | StreamError e \<Rightarrow> Done (Failed e)
                   | Closed \<Rightarrow> k None peeked
                   | BadBytes \<Rightarrow> k None peeked
                   | Msg (KeyResponse pk) \<Rightarrow> if length pk = 32 then k (Some pk) peeked else Done Panicked
                   | Msg _ \<Rightarrow> k None peeked))))"

definition client_finish :: "crypto \<Rightarrow> client_keys \<Rightarrow> (string \<times> bytes) option \<Rightarrow> received option \<Rightarrow> handshake" where
  "client_finish cr ck decoded peeked =
     (case decoded of
        Some (i, their_pk) \<Rightarrow>
          if i = expected_id ck then
            Send (PublicKeyMsg (box_pk_of cr (client_box_sk ck))
                   (box_seal cr (session_key ck) zero_nonce their_pk (client_box_sk ck)))
              (Done (Established (Some (session_key ck)) (compute_security_code cr (client_box_sk ck) their_pk) peeked))
          else Send EmptyMsg (Done (Established None [] peeked))
      | None \<Rightarrow>
          Send (PublicKeyMsg [] []) (Done (Failed ''encrypted handshake failed: peer identity could not be verified'')))"

text \<open>When the signature does not verify, the peer itself is asked for the key to verify it with.\<close>

definition client_verify :: "crypto \<Rightarrow> client_keys \<Rightarrow> bytes \<Rightarrow> bytes \<Rightarrow> received option \<Rightarrow> handshake" where
  "client_verify cr ck sid pk peeked =
     (case decode_id_pk cr sid pk of
        Some d \<Rightarrow> client_finish cr ck (Some d) peeked
      | None \<Rightarrow>
          Send set_direct_initial_public_key_request
            (client_next peeked (\<lambda>r peeked'.
              client_finish cr ck
                (case r of
                   Msg (KeyResponse fresh) \<Rightarrow> if length fresh = 32 then decode_id_pk cr sid fresh else None
                 | _ \<Rightarrow> None) peeked')))"

definition secure_connection :: "crypto \<Rightarrow> client_keys \<Rightarrow> handshake" where
  "secure_connection cr ck =
     Recv (\<lambda>r. case r of
       TimedOut \<Rightarrow> Done (Failed ''deadline has elapsed'')
     | StreamError e \<Rightarrow> Done (Failed e)
     | Closed \<Rightarrow> Done (Failed ''Connection lost'')
     | BadBytes \<Rightarrow> Send EmptyMsg (Done (Established None [] None))
     | Msg (SignedIdMsg sid) \<Rightarrow>
         get_initial_public_key_for_handshake ck (\<lambda>pk peeked.
           case pk of
             None \<Rightarrow> Send EmptyMsg (Done (Established None [] peeked))
           | Some pk \<Rightarrow> client_verify cr ck sid pk peeked)
     | Msg _ \<Rightarrow> Send EmptyMsg (Done (Established None [] None)))"


subsection \<open>The two sides over a network\<close>

type_synonym net = "handshake \<times> handshake \<times> handshake_msg list \<times> handshake_msg list"

text \<open>The controlled side, the controlling side, and the messages on their way to the one and to the other.\<close>

inductive net_step :: "net \<Rightarrow> net \<Rightarrow> bool" where
  server_sends: "net_step (Send m p, q, to_s, to_c) (p, q, to_s, to_c @ [m])"
| client_sends: "net_step (p, Send m q, to_s, to_c) (p, q, to_s @ [m], to_c)"
| server_receives: "net_step (Recv k, q, m # to_s, to_c) (k (Msg m), q, to_s, to_c)"
| client_receives: "net_step (p, Recv k, to_s, m # to_c) (p, k (Msg m), to_s, to_c)"

inductive_cases net_stepE [elim!]: "net_step (p, q, to_s, to_c) c"

inductive_simps net_step_simps:
  "net_step (Done r, Done r', to_s, to_c) c"

lemma net_diamond:
  assumes "net_step a b" and "net_step a c"
  shows "b = c \<or> (\<exists>d. net_step b d \<and> net_step c d)"
  using assms
proof (induction rule: net_step.induct)
  case (server_sends m p q to_s to_c)
  then show ?case by (elim net_stepE) (simp_all, (blast intro: net_step.intros)+)
next
  case (client_sends p m q to_s to_c)
  then show ?case by (elim net_stepE) (simp_all, (blast intro: net_step.intros)+)
next
  case (server_receives k q m to_s to_c)
  then show ?case by (elim net_stepE) (simp_all, (blast intro: net_step.intros)+)
next
  case (client_receives p k to_s m to_c)
  then show ?case by (elim net_stepE) (simp_all, (blast intro: net_step.intros)+)
qed

text \<open>The order of the steps does not matter: whoever may go first, the exchange ends the same way.\<close>

lemma net_strip:
  assumes "net_step\<^sup>*\<^sup>* a f" and "\<And>f'. \<not> net_step f f'" and "net_step a c"
  shows "net_step\<^sup>*\<^sup>* c f"
  using assms(1,3)
proof (induction arbitrary: c rule: converse_rtranclp_induct)
  case base
  with assms(2) show ?case by blast
next
  case (step a b)
  from net_diamond [OF step.hyps(1) step.prems] show ?case
    using step.hyps(2) step.IH by (auto intro: converse_rtranclp_into_rtranclp)
qed

lemma net_confluent:
  assumes "net_step\<^sup>*\<^sup>* a c" and "net_step\<^sup>*\<^sup>* a f" and "\<And>f'. \<not> net_step f f'"
  shows "net_step\<^sup>*\<^sup>* c f"
  using assms(1,2)
proof (induction rule: converse_rtranclp_induct)
  case (step a b)
  from step.IH net_strip [OF step.prems assms(3) step.hyps(1)] show ?case by blast
qed

lemma net_done [simp]: "\<not> net_step (Done r, Done r', to_s, to_c) f"
  by auto

text \<open>What the exchange relies on.\<close>

definition crypto_ok :: "crypto \<Rightarrow> bool" where
  "crypto_ok cr \<longleftrightarrow>
     (\<forall>m sk pk. verify cr (sign cr m sk) pk = (if pk = sign_pk_of cr sk then Some m else None)) \<and>
     (\<forall>m n a b. box_open cr (box_seal cr m n (box_pk_of cr b) a) n (box_pk_of cr a) b = Some m) \<and>
     (\<forall>a b. diffie_hellman cr a (box_pk_of cr b) = diffie_hellman cr b (box_pk_of cr a)) \<and>
     (\<forall>i pk. parse_id_pk cr (write_id_pk cr i pk) = Some (i, pk)) \<and>
     (\<forall>sk. length (box_pk_of cr sk) = 32)"

lemma request_simps [simp]:
  "is_direct_initial_public_key_request set_direct_initial_public_key_request"
  "\<not> is_direct_initial_public_key_request (PublicKeyMsg a b)"
  by (simp_all add: is_direct_initial_public_key_request_def set_direct_initial_public_key_request_def)

text \<open>One schedule: the controlled side goes first.\<close>

fun net_turn :: "net \<Rightarrow> net" where
  "net_turn (Send m p, q, to_s, to_c) = (p, q, to_s, to_c @ [m])"
| "net_turn (Recv k, q, m # to_s, to_c) = (k (Msg m), q, to_s, to_c)"
| "net_turn (p, Send m q, to_s, to_c) = (p, q, to_s @ [m], to_c)"
| "net_turn (p, Recv k, to_s, m # to_c) = (p, k (Msg m), to_s, to_c)"
| "net_turn c = c"

fun net_run :: "nat \<Rightarrow> net \<Rightarrow> net" where
  "net_run 0 c = c"
| "net_run (Suc n) c = net_run n (net_turn c)"

lemma net_turn_step: "net_turn c = c \<or> net_step c (net_turn c)"
  using net_step.client_sends [where to_s = "[]"]
  by (induction c rule: net_turn.induct) (auto intro: net_step.intros)

lemma net_run_steps: "net_step\<^sup>*\<^sup>* c (net_run n c)"
proof (induction n arbitrary: c)
  case (Suc n)
  from net_turn_step [of c] Suc.IH [of "net_turn c"] Suc.IH [of c]
  show ?case by (metis converse_rtranclp_into_rtranclp net_run.simps(2))
qed simp

lemma security_code_sym:
  assumes "crypto_ok cr"
  shows "compute_security_code cr a (box_pk_of cr b) = compute_security_code cr b (box_pk_of cr a)"
  using assms by (simp add: compute_security_code_def crypto_ok_def)

text \<open>
  C20. The two sides agree.  Whatever public key the controlling side holds for the peer, right, outdated or none at
  all, the exchange with a peer that announces the expected identity ends, in every order of the steps, with both
  sides holding the session key of the controlling side and showing the same numbers to their users.
\<close>

theorem handshake_agrees:
  assumes cr: "crypto_ok cr" and sk: "sign_pk sk = sign_pk_of cr (sign_sk sk)" "length (sign_pk sk) = 32"
      "length (sign_sk sk) = 64"
    and ids: "announced_id sk = expected_id ck" and key: "length (session_key ck) = 32"
    and run: "net_step\<^sup>*\<^sup>* (create_tcp_connection cr sk True, secure_connection cr ck, [], []) c"
  shows "\<exists>numbers peeked. net_step\<^sup>*\<^sup>* c
    (Done (Established (Some (session_key ck)) numbers None),
     Done (Established (Some (session_key ck)) numbers peeked), [], [])"
proof -
  let ?init = "(create_tcp_connection cr sk True, secure_connection cr ck, [], [])"
  let ?n = "compute_security_code cr (client_box_sk ck) (box_pk_of cr (server_box_sk sk))"
  have "\<exists>n peeked. net_run n ?init =
    (Done (Established (Some (session_key ck)) ?n None), Done (Established (Some (session_key ck)) ?n peeked), [], [])"
  proof (intro exI)
    have "net_run 12 ?init =
      (Done (Established (Some (session_key ck)) ?n None), Done (Established (Some (session_key ck)) ?n
        (if get_pk (rendezvous_pk ck) = None \<and> get_pk (peer_config_pk ck) = None
         then Some (Msg (KeyResponse (sign_pk sk))) else None)), [], [])"
      using cr sk ids key security_code_sym [OF cr, of "server_box_sk sk" "client_box_sk ck"]
      by (auto simp: create_tcp_connection_def secure_connection_def next_message_for_handshake_def
          numeral_eq_Suc get_initial_public_key_for_handshake_def client_verify_def client_peek_def client_next_def
          client_finish_def decode_id_pk_def server_finish_def process_client_public_key_message_def crypto_ok_def
          get_pk_def split: option.splits)
    then show "net_run 12 ?init =
      (Done (Established (Some (session_key ck)) ?n None), Done (Established (Some (session_key ck)) ?n
        (if get_pk (rendezvous_pk ck) = None \<and> get_pk (peer_config_pk ck) = None
         then Some (Msg (KeyResponse (sign_pk sk))) else None)), [], [])" .
  qed
  then obtain n peeked where fin: "net_run n ?init =
    (Done (Established (Some (session_key ck)) ?n None), Done (Established (Some (session_key ck)) ?n peeked), [], [])"
    by blast
  have "net_step\<^sup>*\<^sup>* ?init (net_run n ?init)" by (rule net_run_steps)
  from net_confluent [OF run this] show ?thesis unfolding fin by auto
qed


subsection \<open>What an attacker gets\<close>

text \<open>
  The key that proves the peer may come from the attacker.  An attacker with a signing key and a box key of its
  own, neither known to the controlling side, announces the expected identity.  The signature does not verify with
  the trusted key, so the controlling side asks the attacker for a key, verifies with the answer, and ends with a
  secured session whose key the attacker can open.
\<close>

theorem handshake_impersonated:
  assumes cr: "crypto_ok cr" and trusted: "get_pk (rendezvous_pk ck) = Some pk" "pk \<noteq> sign_pk_of cr sk"
    and own: "length (sign_pk_of cr sk) = 32"
  shows "\<exists>sealed numbers.
    run_script (secure_connection cr ck)
      [Msg (SignedIdMsg (sign cr (write_id_pk cr (expected_id ck) (box_pk_of cr b)) sk)),
       Msg (KeyResponse (sign_pk_of cr sk))] =
      ([set_direct_initial_public_key_request, PublicKeyMsg (box_pk_of cr (client_box_sk ck)) sealed],
       Some (Established (Some (session_key ck)) numbers None)) \<and>
    box_open cr sealed zero_nonce (box_pk_of cr (client_box_sk ck)) b = Some (session_key ck)"
  using assms
  by (auto simp: secure_connection_def get_initial_public_key_for_handshake_def client_verify_def client_next_def
      client_finish_def decode_id_pk_def crypto_ok_def get_pk_def split: if_splits)

text \<open>
  When the controlled side speaks in the clear.  After its signed identity the controlled side goes on without
  a key exactly when the deciding message, the one after a request for the public key or else the first, is a
  message of any other kind than a public key, or an empty public key; and only a public key of the right length
  whose sealed key opens secures the stream.
\<close>

definition deciding :: "received list \<Rightarrow> received option" where
  "deciding ins = (case ins of
      [] \<Rightarrow> None
    | Msg m # rest \<Rightarrow>
        if is_direct_initial_public_key_request m then (case rest of [] \<Rightarrow> None | r # _ \<Rightarrow> Some r) else Some (Msg m)
    | r # _ \<Rightarrow> Some r)"

lemma server_run:
  assumes "length (sign_pk sk) = 32" "length (sign_sk sk) = 64"
  shows "snd (run_script (create_tcp_connection cr sk True) ins) =
    (case deciding ins of
       None \<Rightarrow> None
     | Some (Msg m) \<Rightarrow> snd (run_script (server_finish cr sk m) [])
     | Some TimedOut \<Rightarrow> Some (Failed ''deadline has elapsed'')
     | Some _ \<Rightarrow> Some (Failed ''Handshake failed: invalid message format''))"
proof -
  have fin: "snd (run_script (server_finish cr sk m) xs) = snd (run_script (server_finish cr sk m) [])" for m xs
    by (auto simp: server_finish_def split: handshake_msg.split sum.split)
  show ?thesis
  proof (cases ins)
    case Nil
    with assms show ?thesis by (simp add: create_tcp_connection_def next_message_for_handshake_def deciding_def)
  next
    case (Cons r rest)
    show ?thesis
    proof (cases r)
      case (Msg m)
      show ?thesis
      proof (cases "is_direct_initial_public_key_request m")
        case True
        with assms Cons Msg show ?thesis
          by (cases rest) (auto simp: create_tcp_connection_def next_message_for_handshake_def deciding_def split_beta
              split: received.split intro: fin)
      next
        case False
        with assms Cons Msg show ?thesis
          by (auto simp: create_tcp_connection_def next_message_for_handshake_def deciding_def split_beta intro: fin)
      qed
    qed (use assms Cons in \<open>simp_all add: create_tcp_connection_def next_message_for_handshake_def deciding_def\<close>)
  qed
qed

theorem server_outcome:
  assumes "length (sign_pk sk) = 32" "length (sign_sk sk) = 64"
  shows "((\<exists>numbers. snd (run_script (create_tcp_connection cr sk True) ins) = Some (Established None numbers None)) \<longleftrightarrow>
      (\<exists>m. deciding ins = Some (Msg m) \<and> (\<forall>pk sealed. m \<noteq> PublicKeyMsg pk sealed \<or> pk = []))) \<and>
    ((\<exists>numbers. snd (run_script (create_tcp_connection cr sk True) ins) = Some (Established (Some k) numbers None)) \<longleftrightarrow>
      (\<exists>pk sealed. deciding ins = Some (Msg (PublicKeyMsg pk sealed)) \<and> length pk = 32 \<and> length k = 32 \<and>
        box_open cr sealed zero_nonce pk (server_box_sk sk) = Some k))"
proof (cases "deciding ins")
  case None
  with assms show ?thesis by (simp add: server_run)
next
  case (Some r)
  show ?thesis
  proof (cases r)
    case (Msg m)
    with Some assms show ?thesis
      by (cases m) (auto simp: server_run server_finish_def process_client_public_key_message_def split: option.split)
  qed (use Some assms in \<open>simp_all add: server_run\<close>)
qed

text \<open>
  Both sides count their frames from one under the same key: the frames that the two sides send first, second and so
  on are sealed with one nonce, although they differ.
\<close>

lemma directions_share_nonces:
  assumes "run_script (secure_connection cr ck) ins = (outs, Some (Established (Some k) numbers peeked))"
    and "i < length ms" "i < length ns"
  shows "\<exists>nonce. sealed_frames seal k (send_seq (encrypt_new k)) ms ! i = seal (ms ! i) nonce k \<and>
    sealed_frames seal k (send_seq (encrypt_new k)) ns ! i = seal (ns ! i) nonce k"
proof -
  have "sealed_frames seal k q ms ! i = seal (ms ! i) (get_nonce (q + 1 + word_of_nat i)) k"
    if "i < length ms" for q ms
    using that by (induction ms arbitrary: q i) (auto simp: nth_Cons ac_simps split: nat.split)
  with assms(2,3) show ?thesis by blast
qed

text \<open>A toy cryptography with the laws, for which the exchange runs.\<close>

definition framed :: "bytes \<Rightarrow> bytes \<Rightarrow> bytes" where
  "framed a b = replicate (length a) 1 @ [0] @ a @ b"

definition unframed :: "bytes \<Rightarrow> bytes \<times> bytes" where
  "unframed s = (let n = length (takeWhile (\<lambda>x. x = 1) s); r = drop (n + 1) s in (take n r, drop n r))"

lemma unframed_framed [simp]: "unframed (framed a b) = (a, b)"
proof -
  have "takeWhile (\<lambda>x. x = 1) (replicate n 1 @ 0 # r) = replicate n (1 :: 8 word)" for n r
    by (induction n) auto
  then show ?thesis by (simp add: unframed_def framed_def Let_def)
qed

definition toy_crypto :: crypto where
  "toy_crypto = \<lparr>sign = (\<lambda>m sk. framed (take 32 sk) m),
     verify = (\<lambda>s pk. if fst (unframed s) = pk then Some (snd (unframed s)) else None),
     sign_pk_of = take 32, box_pk_of = (\<lambda>sk. replicate 32 0), box_seal = (\<lambda>m n pk sk. m),
     box_open = (\<lambda>c n pk sk. Some c), diffie_hellman = (\<lambda>a b. replicate 32 0),
     write_id_pk = (\<lambda>i pk. framed (map (\<lambda>c. word_of_nat (of_char c)) i) pk),
     parse_id_pk = (\<lambda>b. Some (map (\<lambda>w. char_of (unat w)) (fst (unframed b)), snd (unframed b)))\<rparr>"

lemma toy_crypto_ok [simp]: "crypto_ok toy_crypto"
  by (auto simp: crypto_ok_def toy_crypto_def comp_def unat_of_nat intro: map_idI)

definition toy_server :: server_keys where
  "toy_server = \<lparr>sign_sk = replicate 64 7, sign_pk = replicate 32 7, server_box_sk = [], announced_id = ''42''\<rparr>"

definition toy_client :: client_keys where
  "toy_client = \<lparr>client_box_sk = [], session_key = replicate 32 9, rendezvous_pk = replicate 32 5, peer_config_pk = [],
     expected_id = ''42''\<rparr>"

lemma handshake_agrees_witness:
  "\<exists>numbers peeked. net_step\<^sup>*\<^sup>* (create_tcp_connection toy_crypto toy_server True, secure_connection toy_crypto toy_client, [], [])
    (Done (Established (Some (replicate 32 9)) numbers None), Done (Established (Some (replicate 32 9)) numbers peeked), [], [])"
  using handshake_agrees [of toy_crypto toy_server toy_client]
  by (simp add: toy_server_def toy_client_def) (simp add: toy_crypto_def)

lemma handshake_impersonated_witness:
  "\<exists>sealed numbers.
    run_script (secure_connection toy_crypto toy_client)
      [Msg (SignedIdMsg (sign toy_crypto (write_id_pk toy_crypto ''42'' (box_pk_of toy_crypto [])) (replicate 64 3))),
       Msg (KeyResponse (sign_pk_of toy_crypto (replicate 64 3)))] =
      ([set_direct_initial_public_key_request, PublicKeyMsg (box_pk_of toy_crypto []) sealed],
       Some (Established (Some (replicate 32 9)) numbers None)) \<and>
    box_open toy_crypto sealed zero_nonce (box_pk_of toy_crypto []) [] = Some (replicate 32 9)"
  using handshake_impersonated [of toy_crypto toy_client "replicate 32 5" "replicate 64 3" "[]"]
  by (simp add: toy_client_def get_pk_def) (simp add: toy_crypto_def)

lemma server_outcome_witness:
  "\<exists>numbers. snd (run_script (create_tcp_connection toy_crypto toy_server True) [Msg OtherMsg]) =
    Some (Established None numbers None)"
proof -
  have "\<exists>m. deciding [Msg OtherMsg] = Some (Msg m) \<and> (\<forall>pk sealed. m \<noteq> PublicKeyMsg pk sealed \<or> pk = [])"
    by (simp add: deciding_def is_direct_initial_public_key_request_def)
  with server_outcome [of toy_server toy_crypto "[Msg OtherMsg]"] show ?thesis by (simp add: toy_server_def)
qed

end
