(* ===== verification/Input_Service.thy ===== *)
theory Input_Service
  imports Prelude "HOL-Library.AList"
begin

text \<open>
  The simulation of keys and of the mouse on the controlled side, \<^verbatim>\<open>src/server/input_service.rs\<close>, as it is built for
  Linux, in a session of X11.

  The keyboard of the system is the record \<open>keyboard\<close>: what is held, the two lock modes, which toggle when their
  key goes down, and all that was sent to it.  Its key states are those of \<^verbatim>\<open>get_key_state\<close> in \<^verbatim>\<open>libs/enigo/src/linux/xdo.rs\<close>, which reads the modifier
  mask of the X server: both keys of a pair set one bit.  A key that the system refuses to press is not held;
  releasing always succeeds.  The table \<^verbatim>\<open>KEYS_DOWN\<close> is an association list.  What a key code stands for, which the
  \<^verbatim>\<open>rdev\<close> crate knows, is an argument.  Times are milliseconds.
\<close>

subsection \<open>Keys\<close>

text \<open>
  The keys of enigo: those the code treats on their own have a constructor, the others go by their name in the
  source.
\<close>

datatype key =
    KAlt | KControl | KShift | KMeta | KRightAlt | KRightControl | KRightShift | KRWin | KCapsLock | KNumLock
  | KNamed string | KLayout nat | KRaw nat

text \<open>A control key of a message is its number in the protocol, known or not.\<close>

abbreviation (input) "ck_Alt \<equiv> 1 :: int"
abbreviation (input) "ck_CapsLock \<equiv> 3 :: int"
abbreviation (input) "ck_Control \<equiv> 4 :: int"
abbreviation (input) "ck_Meta \<equiv> 23 :: int"
abbreviation (input) "ck_Return \<equiv> 27 :: int"
abbreviation (input) "ck_Shift \<equiv> 29 :: int"
abbreviation (input) "ck_Tab \<equiv> 31 :: int"
abbreviation (input) "ck_NumLock \<equiv> 63 :: int"
abbreviation (input) "ck_RWin \<equiv> 64 :: int"
abbreviation (input) "ck_NumpadEnter \<equiv> 72 :: int"
abbreviation (input) "ck_RShift \<equiv> 73 :: int"
abbreviation (input) "ck_RControl \<equiv> 74 :: int"
abbreviation (input) "ck_RAlt \<equiv> 75 :: int"
abbreviation (input) "ck_CtrlAltDel \<equiv> 100 :: int"
abbreviation (input) "ck_LockScreen \<equiv> 101 :: int"

definition KEY_MAP :: "int \<Rightarrow> key option" where
  "KEY_MAP = map_of
    [(1, KAlt), (2, KNamed ''Backspace''), (3, KCapsLock), (4, KControl), (5, KNamed ''Delete''),
     (6, KNamed ''DownArrow''), (7, KNamed ''End''), (8, KNamed ''Escape''), (9, KNamed ''F1''),
     (10, KNamed ''F10''), (11, KNamed ''F11''), (12, KNamed ''F12''), (13, KNamed ''F2''),
     (14, KNamed ''F3''), (15, KNamed ''F4''), (16, KNamed ''F5''), (17, KNamed ''F6''),
     (18, KNamed ''F7''), (19, KNamed ''F8''), (20, KNamed ''F9''), (21, KNamed ''Home''),
     (22, KNamed ''LeftArrow''), (23, KMeta), (24, KNamed ''Option''), (25, KNamed ''PageDown''),
     (26, KNamed ''PageUp''), (27, KNamed ''Return''), (28, KNamed ''RightArrow''), (29, KShift),
     (30, KNamed ''Space''), (31, KNamed ''Tab''), (32, KNamed ''UpArrow''), (33, KNamed ''Numpad0''),
     (34, KNamed ''Numpad1''), (35, KNamed ''Numpad2''), (36, KNamed ''Numpad3''), (37, KNamed ''Numpad4''),
     (38, KNamed ''Numpad5''), (39, KNamed ''Numpad6''), (40, KNamed ''Numpad7''), (41, KNamed ''Numpad8''),
     (42, KNamed ''Numpad9''), (43, KNamed ''Cancel''), (44, KNamed ''Clear''), (45, KAlt),
     (46, KNamed ''Pause''), (47, KNamed ''Kana''), (48, KNamed ''Hangul''), (49, KNamed ''Junja''),
     (50, KNamed ''Final''), (51, KNamed ''Hanja''), (52, KNamed ''Kanji''), (53, KNamed ''Convert''),
     (54, KNamed ''Select''), (55, KNamed ''Print''), (56, KNamed ''Execute''), (57, KNamed ''Snapshot''),
     (58, KNamed ''Insert''), (59, KNamed ''Help''), (60, KNamed ''Sleep''), (61, KNamed ''Separator''),
     (62, KNamed ''Scroll''), (63, KNumLock), (64, KRWin), (65, KNamed ''Apps''), (66, KNamed ''Multiply''),
     (67, KNamed ''Add''), (68, KNamed ''Subtract''), (69, KNamed ''Decimal''), (70, KNamed ''Divide''),
     (71, KNamed ''Equals''), (72, KNamed ''NumpadEnter''), (75, KRightAlt), (74, KRightControl),
     (73, KRightShift)]"

definition KEY_CHAR_START :: nat where "KEY_CHAR_START = 9999"

definition control_key_value_to_key :: "int \<Rightarrow> key option" where
  "control_key_value_to_key v = KEY_MAP v"

text \<open>\<^verbatim>\<open>char::from_u32\<close> refuses surrogates and what is beyond Unicode.\<close>

definition char_from_u32 :: "nat \<Rightarrow> nat option" where
  "char_from_u32 v = (if v < 0xD800 \<or> 0xE000 \<le> v \<and> v \<le> 0x10FFFF then Some v else None)"

definition char_value_to_key :: "nat \<Rightarrow> key" where
  "char_value_to_key v = KLayout (case char_from_u32 v of Some c \<Rightarrow> c | None \<Rightarrow> 0)"

definition record_key_to_key :: "nat \<Rightarrow> key option" where
  "record_key_to_key r =
     (if r < KEY_CHAR_START then control_key_value_to_key (int r)
      else Some (char_value_to_key ((r - KEY_CHAR_START) mod 2 ^ 32)))"

subsection \<open>The keyboard of the system\<close>

datatype sent = Down key | Up key | Text "nat list"

record keyboard =
  held :: "key set"
  caps_lock :: bool
  num_lock :: bool
  sent :: "sent list"

record input_env =
  can_press :: "key \<Rightarrow> bool"
  code_key :: "nat \<Rightarrow> key"
  skip_led_code :: "nat \<Rightarrow> bool"
  numpad_code :: "nat \<Rightarrow> bool"
  to_uppercase :: "nat \<Rightarrow> nat list"

definition get_key_state :: "key \<Rightarrow> keyboard \<Rightarrow> bool" where
  "get_key_state k kb =
     (case k of
        KShift \<Rightarrow> KShift \<in> held kb \<or> KRightShift \<in> held kb
      | KCapsLock \<Rightarrow> caps_lock kb
      | KControl \<Rightarrow> KControl \<in> held kb \<or> KRightControl \<in> held kb
      | KAlt \<Rightarrow> KAlt \<in> held kb \<or> KRightAlt \<in> held kb
      | KNumLock \<Rightarrow> num_lock kb
      | KMeta \<Rightarrow> KMeta \<in> held kb \<or> KRWin \<in> held kb
      | _ \<Rightarrow> False)"

definition press_key :: "key \<Rightarrow> keyboard \<Rightarrow> keyboard" where
  "press_key k kb =
     (let kb1 = kb\<lparr>sent := sent kb @ [Down k]\<rparr>
      in if k \<in> held kb then kb1
         else kb1\<lparr>held := insert k (held kb), caps_lock := (caps_lock kb \<noteq> (k = KCapsLock)),
                num_lock := (num_lock kb \<noteq> (k = KNumLock))\<rparr>)"

definition key_down :: "input_env \<Rightarrow> key \<Rightarrow> keyboard \<Rightarrow> bool \<times> keyboard" where
  "key_down e k kb = (if can_press e k then (True, press_key k kb) else (False, kb))"

definition key_up :: "key \<Rightarrow> keyboard \<Rightarrow> keyboard" where
  "key_up k kb = kb\<lparr>held := held kb - {k}, sent := sent kb @ [Up k]\<rparr>"

definition key_click :: "input_env \<Rightarrow> key \<Rightarrow> keyboard \<Rightarrow> keyboard" where
  "key_click e k kb = key_up k (snd (key_down e k kb))"

definition key_sequence :: "nat list \<Rightarrow> keyboard \<Rightarrow> keyboard" where
  "key_sequence s kb = (if 0 \<in> set s then kb else kb\<lparr>sent := sent kb @ [Text s]\<rparr>)"

text \<open>\<^verbatim>\<open>simulate_\<close> of the press or the release of a key code.\<close>

definition simulate_code :: "input_env \<Rightarrow> nat \<Rightarrow> bool \<Rightarrow> keyboard \<Rightarrow> keyboard" where
  "simulate_code e c down kb = (if down then press_key (code_key e c) kb else key_up (code_key e c) kb)"

subsection \<open>Modifiers\<close>

definition get_modifier_state :: "key \<Rightarrow> keyboard \<Rightarrow> bool" where
  "get_modifier_state k kb =
     (get_key_state k kb \<or>
      (case k of
         KShift \<Rightarrow> get_key_state KRightShift kb
       | KControl \<Rightarrow> get_key_state KRightControl kb
       | KAlt \<Rightarrow> get_key_state KRightAlt kb
       | KMeta \<Rightarrow> get_key_state KRWin kb
       | KRightShift \<Rightarrow> get_key_state KShift kb
       | KRightControl \<Rightarrow> get_key_state KControl kb
       | KRightAlt \<Rightarrow> get_key_state KAlt kb
       | KRWin \<Rightarrow> get_key_state KMeta kb
       | _ \<Rightarrow> False))"

definition fix_modifier :: "int list \<Rightarrow> int \<Rightarrow> key \<Rightarrow> keyboard \<Rightarrow> keyboard" where
  "fix_modifier mods key0 key1 kb =
     (if get_modifier_state key1 kb \<and> key0 \<notin> set mods then key_up key1 kb else kb)"

definition fix_modifiers :: "int list \<Rightarrow> int \<Rightarrow> keyboard \<Rightarrow> keyboard" where
  "fix_modifiers mods ck kb =
     fold (\<lambda>(own, key0, key1) kb. if ck \<noteq> own then fix_modifier mods key0 key1 kb else kb)
       [(ck_Shift, ck_Shift, KShift), (ck_RShift, ck_Shift, KRightShift), (ck_Alt, ck_Alt, KAlt),
        (ck_RAlt, ck_Alt, KRightAlt), (ck_Control, ck_Control, KControl), (ck_RControl, ck_Control, KRightControl),
        (ck_Meta, ck_Meta, KMeta), (ck_RWin, ck_Meta, KRWin)] kb"

definition release_device_modifiers :: "keyboard \<Rightarrow> keyboard" where
  "release_device_modifiers kb =
     fold (\<lambda>k kb. if get_modifier_state k kb then key_up k kb else kb)
       [KShift, KControl, KAlt, KMeta, KRightShift, KRightControl, KRightAlt, KRWin] kb"


subsection \<open>Events\<close>

datatype key_union = ControlKey int | Chr nat | Unicode nat | Seq "nat list" | Win2WinHotkey nat | NoKey

record key_event =
  ev_down :: bool
  ev_press :: bool
  ev_union :: key_union
  ev_modifiers :: "int list"
  ev_mode :: int

definition ev_chr :: "key_event \<Rightarrow> nat" where
  "ev_chr evt = (case ev_union evt of Chr c \<Rightarrow> c | _ \<Rightarrow> 0)"

text \<open>The modes of the protocol are 0 to 3; a number beyond them counts as legacy here, and as legacy below.\<close>

definition is_legacy_mode :: "key_event \<Rightarrow> bool" where
  "is_legacy_mode evt = (ev_mode evt \<notin> {1, 2, 3})"

definition is_enter :: "key_event \<Rightarrow> bool" where
  "is_enter evt = (case ev_union evt of ControlKey ck \<Rightarrow> ck = ck_Return \<or> ck = ck_NumpadEnter | _ \<Rightarrow> False)"

datatype recorded = RdevKey nat | EnigoKey nat

record input_state =
  kbd :: keyboard
  keys_down :: "(recorded \<times> nat) list"
  exiting :: bool

definition record_pressed_key :: "nat \<Rightarrow> recorded \<Rightarrow> bool \<Rightarrow> input_state \<Rightarrow> input_state" where
  "record_pressed_key t r down st =
     st\<lparr>keys_down := (if down then AList.update r t (keys_down st) else AList.delete r (keys_down st))\<rparr>"

definition on_kbd :: "(keyboard \<Rightarrow> keyboard) \<Rightarrow> input_state \<Rightarrow> input_state" where
  "on_kbd f st = st\<lparr>kbd := f (kbd st)\<rparr>"

definition release_record_key :: "input_env \<Rightarrow> recorded \<Rightarrow> keyboard \<Rightarrow> keyboard" where
  "release_record_key e r kb =
     (case r of
        RdevKey c \<Rightarrow> simulate_code e c False kb
      | EnigoKey v \<Rightarrow> (case record_key_to_key v of Some k \<Rightarrow> key_up k kb | None \<Rightarrow> kb))"

definition fix_key_down :: "input_env \<Rightarrow> nat \<Rightarrow> bool \<Rightarrow> recorded \<times> nat \<Rightarrow> input_state \<Rightarrow> input_state" where
  "fix_key_down e t force = (\<lambda>(r, since) st.
     if force \<or> 360000 \<le> t - since
     then on_kbd (release_record_key e r) (record_pressed_key t r False st) else st)"

definition fix_key_down_timeout :: "input_env \<Rightarrow> nat \<Rightarrow> bool \<Rightarrow> input_state \<Rightarrow> input_state" where
  "fix_key_down_timeout e t force st = fold (fix_key_down e t force) (keys_down st) st"

definition fix_key_down_timeout_at_exit :: "input_env \<Rightarrow> nat \<Rightarrow> input_state \<Rightarrow> input_state" where
  "fix_key_down_timeout_at_exit e t st =
     (if exiting st then st else fix_key_down_timeout e t True (st\<lparr>exiting := True\<rparr>))"

subsection \<open>The lock modes\<close>

text \<open>The handler of the lock modes is what it has changed, to be changed back when it is dropped.\<close>

definition is_modifier_enabled :: "key_event \<Rightarrow> int \<Rightarrow> bool" where
  "is_modifier_enabled evt m = (m \<in> set (ev_modifiers evt))"

definition lock_modes_new :: "input_env \<Rightarrow> key_event \<Rightarrow> bool \<Rightarrow> keyboard \<Rightarrow> (bool \<times> bool) \<times> keyboard" where
  "lock_modes_new e evt is_numpad kb =
     (let caps = (is_modifier_enabled evt ck_CapsLock \<noteq> get_key_state KCapsLock kb);
          kb1 = (if caps then key_click e KCapsLock kb else kb);
          num = (is_numpad \<and> is_modifier_enabled evt ck_NumLock \<noteq> get_key_state KNumLock kb1)
      in ((caps, num), if num then key_click e KNumLock kb1 else kb1))"

definition lock_modes_drop :: "input_env \<Rightarrow> bool \<times> bool \<Rightarrow> keyboard \<Rightarrow> keyboard" where
  "lock_modes_drop e h kb =
     (let kb1 = (if fst h then key_click e KCapsLock kb else kb)
      in if snd h then key_click e KNumLock kb1 else kb1)"

definition skip_led_sync_control_key :: "int \<Rightarrow> bool" where
  "skip_led_sync_control_key ck =
     (ck \<in> {ck_Control, ck_RControl, ck_Meta, ck_Shift, ck_RShift, ck_Alt, ck_RAlt, ck_Tab, ck_Return})"

definition is_numpad_control_key :: "int \<Rightarrow> bool" where
  "is_numpad_control_key ck = (33 \<le> ck \<and> ck \<le> 42 \<or> ck = ck_NumpadEnter)"

subsection \<open>Legacy mode\<close>

definition get_control_key_value :: "key_event \<Rightarrow> int" where
  "get_control_key_value evt = (case ev_union evt of ControlKey ck \<Rightarrow> ck | _ \<Rightarrow> -1)"

definition release_unpressed_modifiers :: "key_event \<Rightarrow> keyboard \<Rightarrow> keyboard" where
  "release_unpressed_modifiers evt kb = fix_modifiers (ev_modifiers evt) (get_control_key_value evt) kb"

definition is_altgr_pressed :: "input_state \<Rightarrow> bool" where
  "is_altgr_pressed st = (map_of (keys_down st) (RdevKey (nat ck_RAlt)) \<noteq> None)"

fun press_modifiers :: "input_env \<Rightarrow> bool \<Rightarrow> int list \<Rightarrow> keyboard \<Rightarrow> key list \<times> keyboard" where
  "press_modifiers e altgr [] kb = ([], kb)"
| "press_modifiers e altgr (ck # cks) kb =
     (case control_key_value_to_key ck of
        None \<Rightarrow> press_modifiers e altgr cks kb
      | Some k \<Rightarrow>
          if get_modifier_state k kb \<or> k = KAlt \<and> altgr then press_modifiers e altgr cks kb
          else (case press_modifiers e altgr cks (snd (key_down e k kb)) of (ks, kb') \<Rightarrow> (k # ks, kb')))"

definition sync_modifiers :: "input_env \<Rightarrow> key_event \<Rightarrow> input_state \<Rightarrow> key list \<times> keyboard" where
  "sync_modifiers e evt st =
     (if ev_down evt then
        press_modifiers e (is_altgr_pressed st) (ev_modifiers evt) (release_unpressed_modifiers evt (kbd st))
      else ([], kbd st))"

definition process_control_key :: "input_env \<Rightarrow> int \<Rightarrow> bool \<Rightarrow> keyboard \<Rightarrow> keyboard" where
  "process_control_key e ck down kb =
     (case control_key_value_to_key ck of
        Some k \<Rightarrow> if down then snd (key_down e k kb) else key_up k kb
      | None \<Rightarrow> kb)"

definition need_to_uppercase :: "keyboard \<Rightarrow> bool" where
  "need_to_uppercase kb = (get_modifier_state KShift kb \<or> get_modifier_state KCapsLock kb)"

definition has_hotkey_modifiers :: "keyboard \<Rightarrow> bool" where
  "has_hotkey_modifiers kb =
     (get_modifier_state KControl kb \<or> get_modifier_state KAlt kb \<or> get_modifier_state KMeta kb)"

definition type_chr :: "input_env \<Rightarrow> nat \<Rightarrow> keyboard \<Rightarrow> keyboard" where
  "type_chr e c kb =
     (case char_from_u32 c of
        None \<Rightarrow> kb
      | Some c \<Rightarrow> key_sequence (if need_to_uppercase kb then to_uppercase e c else [c]) kb)"

definition process_chr :: "input_env \<Rightarrow> nat \<Rightarrow> bool \<Rightarrow> keyboard \<Rightarrow> keyboard" where
  "process_chr e c down kb =
     (if down then
        (if has_hotkey_modifiers kb then
           (case key_down e (char_value_to_key c) kb of (True, kb') \<Rightarrow> kb' | (False, kb') \<Rightarrow> type_chr e c kb')
         else type_chr e c kb)
      else key_up (char_value_to_key c) kb)"

definition process_unicode :: "nat \<Rightarrow> keyboard \<Rightarrow> keyboard" where
  "process_unicode c kb = (case char_from_u32 c of Some c \<Rightarrow> key_sequence [c] kb | None \<Rightarrow> kb)"

definition release_keys :: "key list \<Rightarrow> keyboard \<Rightarrow> keyboard" where
  "release_keys ks kb = fold key_up ks kb"

text \<open>Keys that stand for a function of the system; the function itself runs in a thread of its own.\<close>

definition is_function_key :: "int \<Rightarrow> bool" where
  "is_function_key ck = (ck = ck_CtrlAltDel \<or> ck = ck_LockScreen)"

definition as_u64 :: "int \<Rightarrow> nat" where "as_u64 v = nat (v mod 2 ^ 64)"

definition legacy_keyboard_mode :: "input_env \<Rightarrow> nat \<Rightarrow> key_event \<Rightarrow> input_state \<Rightarrow> input_state" where
  "legacy_keyboard_mode e t evt st =
     (case sync_modifiers e evt st of
        (to_release, kb) \<Rightarrow>
          (let st1 = st\<lparr>kbd := kb\<rparr>; down = ev_down evt; finish = on_kbd (release_keys to_release)
           in case ev_union evt of
                ControlKey ck \<Rightarrow>
                  if is_function_key ck then st1
                  else finish (on_kbd (process_control_key e ck down)
                         (record_pressed_key t (EnigoKey (as_u64 ck)) down st1))
              | Chr c \<Rightarrow>
                  finish (on_kbd (process_chr e c down) (record_pressed_key t (EnigoKey (c + KEY_CHAR_START)) down st1))
              | Unicode c \<Rightarrow> finish (on_kbd (process_unicode c) st1)
              | Seq s \<Rightarrow> finish (on_kbd (key_sequence s) st1)
              | _ \<Rightarrow> finish st1))"

subsection \<open>Map and translate mode\<close>

definition sim_rdev_rawkey_position :: "input_env \<Rightarrow> nat \<Rightarrow> nat \<Rightarrow> bool \<Rightarrow> input_state \<Rightarrow> input_state" where
  "sim_rdev_rawkey_position e t code down st =
     on_kbd (simulate_code e code down) (record_pressed_key t (RdevKey code) down st)"

definition map_keyboard_mode :: "input_env \<Rightarrow> nat \<Rightarrow> key_event \<Rightarrow> input_state \<Rightarrow> input_state" where
  "map_keyboard_mode e t evt st = sim_rdev_rawkey_position e t (ev_chr evt) (ev_down evt) st"

definition translate_keyboard_mode :: "input_env \<Rightarrow> nat \<Rightarrow> key_event \<Rightarrow> input_state \<Rightarrow> input_state" where
  "translate_keyboard_mode e t evt st =
     (case ev_union evt of
        Seq s \<Rightarrow>
          on_kbd (\<lambda>kb.
            let kb1 = (if get_modifier_state KShift kb then key_up KShift kb else kb);
                kb2 = (if get_modifier_state KRightShift kb1 then key_up KRightShift kb1 else kb1)
            in fold (\<lambda>c. key_click e (KLayout c)) s kb2) st
      | Chr c \<Rightarrow> sim_rdev_rawkey_position e t c (ev_down evt) st
      | _ \<Rightarrow> st)"

definition lock_sync :: "input_env \<Rightarrow> key_event \<Rightarrow> bool option" where
  "lock_sync e evt =
     (case ev_union evt of
        Unicode _ \<Rightarrow> Some False
      | Seq _ \<Rightarrow> Some False
      | ControlKey ck \<Rightarrow> if skip_led_sync_control_key ck then None else Some (is_numpad_control_key ck)
      | Chr c \<Rightarrow>
          if is_legacy_mode evt then Some False
          else if skip_led_code e c then None else Some (numpad_code e c)
      | _ \<Rightarrow> None)"

definition handle_mode :: "input_env \<Rightarrow> nat \<Rightarrow> key_event \<Rightarrow> input_state \<Rightarrow> input_state" where
  "handle_mode e t evt st =
     (if ev_mode evt = 1 then map_keyboard_mode e t evt st
      else if ev_mode evt = 2 then translate_keyboard_mode e t evt st
      else legacy_keyboard_mode e t evt st)"

definition handle_key :: "input_env \<Rightarrow> nat \<Rightarrow> key_event \<Rightarrow> input_state \<Rightarrow> input_state" where
  "handle_key e t evt st =
     (if exiting st then st
      else case lock_sync e evt of
          None \<Rightarrow> handle_mode e t evt st
        | Some is_numpad \<Rightarrow>
            (case lock_modes_new e evt is_numpad (kbd st) of
               (h, kb) \<Rightarrow> on_kbd (lock_modes_drop e h) (handle_mode e t evt (st\<lparr>kbd := kb\<rparr>))))"


subsection \<open>The mouse\<close>

record mouse_event =
  me_mask :: int
  me_x :: int
  me_y :: int
  me_modifiers :: "int list"

datatype mouse_button = LeftButton | RightButton | MiddleButton | BackButton | ForwardButton

datatype mouse_out = MoveTo int int | ButtonDown mouse_button | ButtonUp mouse_button | ScrollX int | ScrollY int

record latest_input =
  in_conn :: int
  in_time :: int
  in_x :: int
  in_y :: int

definition mouse_buttons :: "mouse_event \<Rightarrow> int" where "mouse_buttons evt = me_mask evt div 8"
definition mouse_type :: "mouse_event \<Rightarrow> int" where "mouse_type evt = me_mask evt mod 8"

abbreviation (input) "MOUSE_TYPE_MOVE \<equiv> 0 :: int"
abbreviation (input) "MOUSE_TYPE_DOWN \<equiv> 1 :: int"
abbreviation (input) "MOUSE_TYPE_UP \<equiv> 2 :: int"
abbreviation (input) "MOUSE_TYPE_WHEEL \<equiv> 3 :: int"
abbreviation (input) "MOUSE_TYPE_TRACKPAD \<equiv> 4 :: int"

definition button_of :: "int \<Rightarrow> mouse_button option" where
  "button_of b = map_of [(1, LeftButton), (2, RightButton), (4, MiddleButton), (8, BackButton), (16, ForwardButton)] b"

definition is_left_up :: "mouse_event \<Rightarrow> bool" where
  "is_left_up evt = (mouse_buttons evt = 1 \<and> mouse_type evt = 2)"

text \<open>Negation of an \<open>i32\<close>, which wraps at the least one.\<close>

definition neg_i32 :: "int \<Rightarrow> int" where "neg_i32 v = (if v = - (2 ^ 31) then v else - v)"

definition mouse_action :: "int \<Rightarrow> int \<Rightarrow> mouse_event \<Rightarrow> latest_input \<Rightarrow> mouse_out list \<times> latest_input" where
  "mouse_action conn time evt latest =
     (if mouse_type evt = MOUSE_TYPE_MOVE then
        ([MoveTo (me_x evt) (me_y evt)], \<lparr>in_conn = conn, in_time = time, in_x = me_x evt, in_y = me_y evt\<rparr>)
      else if mouse_type evt = MOUSE_TYPE_DOWN then
        (case button_of (mouse_buttons evt) of Some b \<Rightarrow> [ButtonDown b] | None \<Rightarrow> [], latest)
      else if mouse_type evt = MOUSE_TYPE_UP then
        (case button_of (mouse_buttons evt) of Some b \<Rightarrow> [ButtonUp b] | None \<Rightarrow> [], latest)
      else if mouse_type evt = MOUSE_TYPE_WHEEL \<or> mouse_type evt = MOUSE_TYPE_TRACKPAD then
        (let x = neg_i32 (me_x evt); y = neg_i32 (me_y evt)
         in (if y \<noteq> 0 then [ScrollY y] else []) @ (if x \<noteq> 0 then [ScrollX x] else []), latest)
      else ([], latest))"

definition handle_mouse_simulation ::
  "input_env \<Rightarrow> int \<Rightarrow> int \<Rightarrow> mouse_event \<Rightarrow> input_state \<times> latest_input
     \<Rightarrow> mouse_out list \<times> input_state \<times> latest_input" where
  "handle_mouse_simulation e conn time evt = (\<lambda>(st, latest).
     if exiting st then ([], st, latest)
     else
       (let (to_release, kb) =
              (if mouse_type evt = MOUSE_TYPE_DOWN
               then press_modifiers e False
                      (filter (\<lambda>ck. KEY_MAP ck \<noteq> Some KCapsLock \<and> KEY_MAP ck \<noteq> Some KNumLock) (me_modifiers evt))
                      (fix_modifiers (me_modifiers evt) 0 (kbd st))
               else ([], kbd st));
            (outs, latest') = mouse_action conn time evt latest
        in (outs, on_kbd (release_keys to_release) (st\<lparr>kbd := kb\<rparr>), latest')))"

definition handle_mouse ::
  "input_env \<Rightarrow> int \<Rightarrow> int \<Rightarrow> mouse_event \<Rightarrow> bool \<Rightarrow> input_state \<times> latest_input
     \<Rightarrow> mouse_out list \<times> input_state \<times> latest_input" where
  "handle_mouse e conn time evt simulate s =
     (if simulate then handle_mouse_simulation e conn time evt s else ([], s))"

subsection \<open>What is held\<close>

text \<open>The key that a record stands for.\<close>

definition recorded_key :: "input_env \<Rightarrow> recorded \<Rightarrow> key option" where
  "recorded_key e r = (case r of RdevKey c \<Rightarrow> Some (code_key e c) | EnigoKey v \<Rightarrow> record_key_to_key v)"

definition recorded_keys :: "input_env \<Rightarrow> input_state \<Rightarrow> key set" where
  "recorded_keys e st = {k. \<exists>r \<in> fst ` set (keys_down st). recorded_key e r = Some k}"

named_theorems held_simps \<open>what is held after an operation\<close>

lemma held_basic [held_simps]:
  "held (key_up k kb) = held kb - {k}"
  "held (press_key k kb) = insert k (held kb)"
  "held (snd (key_down e k kb)) = (if can_press e k then insert k (held kb) else held kb)"
  "held (key_sequence s kb) = held kb"
  "held (key_click e k kb) = held kb - {k}"
  "held (simulate_code e c down kb) = (if down then insert (code_key e c) (held kb) else held kb - {code_key e c})"
  by (auto simp: key_up_def press_key_def key_down_def key_sequence_def key_click_def simulate_code_def Let_def)

lemma held_release_keys [held_simps]: "held (release_keys ks kb) = held kb - set ks"
  unfolding release_keys_def by (induction ks arbitrary: kb) (auto simp: held_simps)

lemma held_fold_shrinks:
  assumes "\<And>x kb. held (f x kb) \<subseteq> held kb" shows "held (fold f xs kb) \<subseteq> held kb"
  using assms by (induction xs arbitrary: kb) (simp, fastforce)

lemma held_fix_modifiers: "held (fix_modifiers mods ck kb) \<subseteq> held kb"
  unfolding fix_modifiers_def by (rule held_fold_shrinks) (auto simp: fix_modifier_def held_simps split: prod.split)

lemma held_release_device: "held (release_device_modifiers kb) \<subseteq> held kb"
  unfolding release_device_modifiers_def by (rule held_fold_shrinks) (auto simp: held_simps)

lemma held_press_modifiers:
  "press_modifiers e altgr mods kb = (ks, kb') \<Longrightarrow> held kb' \<subseteq> held kb \<union> set ks"
proof (induction e altgr mods kb arbitrary: ks kb' rule: press_modifiers.induct)
  case (2 e altgr ck cks kb)
  show ?case
  proof (cases "control_key_value_to_key ck")
    case None
    with 2 show ?thesis by simp
  next
    case (Some k)
    show ?thesis
    proof (cases "get_modifier_state k kb \<or> k = KAlt \<and> altgr")
      case True
      with 2 Some show ?thesis by simp
    next
      case False
      obtain ks1 kb1 where rest: "press_modifiers e altgr cks (snd (key_down e k kb)) = (ks1, kb1)"
        by (cases "press_modifiers e altgr cks (snd (key_down e k kb))")
      from 2(3) [OF Some False rest] have "held kb1 \<subseteq> held (snd (key_down e k kb)) \<union> set ks1" .
      with 2(4) Some False rest show ?thesis by (auto simp: held_simps split: if_splits)
    qed
  qed
qed simp

definition held_ok :: "input_env \<Rightarrow> key set \<Rightarrow> input_state \<Rightarrow> bool" where
  "held_ok e own st \<longleftrightarrow> held (kbd st) \<subseteq> own \<union> recorded_keys e st"

lemma held_ok_shrink:
  assumes "held_ok e own st" and "held kb \<subseteq> held (kbd st)"
  shows "held_ok e own (st\<lparr>kbd := kb\<rparr>)"
  using assms by (auto simp: held_ok_def recorded_keys_def)

lemma held_ok_on_kbd: "held_ok e own st \<Longrightarrow> held (f (kbd st)) \<subseteq> held (kbd st) \<Longrightarrow> held_ok e own (on_kbd f st)"
  unfolding on_kbd_def by (rule held_ok_shrink)

lemma recorded_keys_pressed: "recorded_keys e (record_pressed_key t r True st) =
    recorded_keys e st \<union> (case recorded_key e r of Some k \<Rightarrow> {k} | None \<Rightarrow> {})"
  by (auto simp: recorded_keys_def record_pressed_key_def dom_update image_iff split: option.splits)

lemma keys_deleted: "fst ` set (AList.delete r xs) = fst ` set xs - {r}"
  by (metis delete_keys list.set_map set_removeAll)

lemma recorded_keys_released: "recorded_keys e st \<subseteq>
    recorded_keys e (record_pressed_key t r False st) \<union> (case recorded_key e r of Some k \<Rightarrow> {k} | None \<Rightarrow> {})"
  by (auto simp: recorded_keys_def record_pressed_key_def keys_deleted split: option.splits)

lemma recorded_keys_on_kbd [simp]:
  "recorded_keys e (on_kbd f st) = recorded_keys e st" "recorded_keys e (st\<lparr>kbd := kb\<rparr>) = recorded_keys e st"
  "kbd (on_kbd f st) = f (kbd st)" "kbd (record_pressed_key t r down st) = kbd st"
  "keys_down (on_kbd f st) = keys_down st"
  by (simp_all add: recorded_keys_def on_kbd_def record_pressed_key_def)

text \<open>A key is pressed or released together with its record.\<close>

lemma held_ok_record:
  assumes "held (kbd st) \<subseteq> own \<union> recorded_keys e st \<union> T"
    and "\<And>kb. held (f kb) \<subseteq> (if down then held kb \<union> K else held kb - K)"
    and "K = (case recorded_key e r of Some k \<Rightarrow> {k} | None \<Rightarrow> {})"
  shows "held (kbd (on_kbd f (record_pressed_key t r down st))) \<subseteq>
    own \<union> recorded_keys e (on_kbd f (record_pressed_key t r down st)) \<union> T"
proof (cases down)
  case True
  with assms show ?thesis by (fastforce simp: recorded_keys_pressed)
next
  case False
  with assms(1,3) assms(2) [of "kbd st"] recorded_keys_released [of e st t r] show ?thesis by fastforce
qed

lemma held_ok_release: "held_ok e own st \<Longrightarrow>
    held_ok e own (on_kbd (release_record_key e r) (record_pressed_key t r False st))"
  using held_ok_record [where T = "{}" and st = st and own = own and e = e and r = r and t = t and down = False
      and f = "release_record_key e r"]
  by (auto simp: held_ok_def release_record_key_def recorded_key_def held_simps split: recorded.splits option.splits)

lemma KEY_MAP_range: "KEY_MAP v = Some k \<Longrightarrow> 0 < v \<and> v < 76"
  unfolding KEY_MAP_def by (drule map_of_SomeD) auto

lemma recorded_chr: "c < 2 ^ 32 \<Longrightarrow> recorded_key e (EnigoKey (c + KEY_CHAR_START)) = Some (char_value_to_key c)"
  by (simp add: recorded_key_def record_key_to_key_def)

lemma sync_modifiers_held:
  assumes "sync_modifiers e evt st = (ks, kb)"
  shows "held kb \<subseteq> held (kbd st) \<union> set ks"
  using assms held_press_modifiers [of e "is_altgr_pressed st" "ev_modifiers evt"
      "release_unpressed_modifiers evt (kbd st)" ks kb]
    held_fix_modifiers [of "ev_modifiers evt" "get_control_key_value evt" "kbd st"]
  by (auto simp: sync_modifiers_def release_unpressed_modifiers_def split: if_splits)


lemma char_value_held: "held (type_chr e c kb) = held kb"
  by (simp add: type_chr_def held_simps split: option.split)

lemma process_chr_held:
  "held (process_chr e c down kb) \<subseteq>
    (if down then held kb \<union> {char_value_to_key c} else held kb - {char_value_to_key c})"
  by (auto simp: process_chr_def key_down_def char_value_held held_simps)

lemma process_control_key_held:
  "held (process_control_key e ck down kb) \<subseteq>
    (if down then held kb \<union> set_option (KEY_MAP ck) else held kb - set_option (KEY_MAP ck))"
  by (auto simp: process_control_key_def control_key_value_to_key_def held_simps split: option.split)

lemma recorded_control_key_eq:
  assumes "0 \<le> ck" and "ck < 9999"
  shows "recorded_key e (EnigoKey (as_u64 ck)) = KEY_MAP ck"
proof -
  have "nat ck < 9999" using assms by linarith
  with assms show ?thesis
    by (simp add: recorded_key_def record_key_to_key_def as_u64_def KEY_CHAR_START_def control_key_value_to_key_def)
qed

lemma process_unicode_held: "held (process_unicode c kb) = held kb"
  by (simp add: process_unicode_def held_simps split: option.split)

text \<open>
  Numbers that fit their fields: a control key is not one of the numbers that the table of the held keys gives to
  characters.
\<close>

definition event_fits :: "key_event \<Rightarrow> bool" where
  "event_fits evt = (case ev_union evt of
      ControlKey ck \<Rightarrow> 0 \<le> ck \<and> ck < int KEY_CHAR_START
    | Chr c \<Rightarrow> c < 2 ^ 32
    | _ \<Rightarrow> True)"

definition presses_function_key :: "key_event \<Rightarrow> bool" where
  "presses_function_key evt =
     (ev_mode evt \<notin> {1, 2} \<and> ev_down evt \<and> (case ev_union evt of ControlKey ck \<Rightarrow> is_function_key ck | _ \<Rightarrow> False))"

lemma legacy_held_ok:
  assumes ok: "held_ok e own st" and fits: "event_fits evt" and legacy: "ev_mode evt \<notin> {1, 2}"
    and plain: "\<not> presses_function_key evt"
  shows "held_ok e own (legacy_keyboard_mode e t evt st)"
proof -
  obtain ks kb where s: "sync_modifiers e evt st = (ks, kb)" by (cases "sync_modifiers e evt st")
  define st1 where "st1 = st\<lparr>kbd := kb\<rparr>"
  have st1: "held (kbd st1) \<subseteq> own \<union> recorded_keys e st1 \<union> set ks"
    using ok sync_modifiers_held [OF s] by (auto simp: st1_def held_ok_def)
  have finish: "held_ok e own (on_kbd (release_keys ks) st2)"
    if "held (kbd st2) \<subseteq> own \<union> recorded_keys e st2 \<union> set ks" for st2
    using that by (auto simp: held_ok_def held_simps)
  show ?thesis
  proof (cases "ev_union evt")
    case (ControlKey ck)
    have k: "set_option (KEY_MAP ck) = (case recorded_key e (EnigoKey (as_u64 ck)) of Some k \<Rightarrow> {k} | None \<Rightarrow> {})"
      using fits ControlKey by (auto simp: event_fits_def KEY_CHAR_START_def recorded_control_key_eq split: option.split)
    show ?thesis
    proof (cases "is_function_key ck")
      case True
      with plain legacy ControlKey have "\<not> ev_down evt" by (simp add: presses_function_key_def)
      with s True ControlKey ok show ?thesis by (auto simp: legacy_keyboard_mode_def sync_modifiers_def)
    next
      case False
      with s ControlKey finish [OF held_ok_record [OF st1 process_control_key_held [of e] k]]
      show ?thesis by (simp add: legacy_keyboard_mode_def st1_def Let_def)
    qed
  next
    case (Chr c)
    have k: "{char_value_to_key c} =
        (case recorded_key e (EnigoKey (c + KEY_CHAR_START)) of Some k \<Rightarrow> {k} | None \<Rightarrow> {})"
      using fits Chr by (simp add: event_fits_def recorded_chr)
    from s Chr finish [OF held_ok_record [OF st1 process_chr_held [of e] k]]
    show ?thesis by (simp add: legacy_keyboard_mode_def st1_def Let_def)
  next
    case (Unicode c)
    with s st1 finish [of "on_kbd (process_unicode c) st1"]
    show ?thesis by (simp add: legacy_keyboard_mode_def st1_def process_unicode_held)
  next
    case (Seq q)
    with s st1 finish [of "on_kbd (key_sequence q) st1"]
    show ?thesis by (simp add: legacy_keyboard_mode_def st1_def held_simps)
  next
    case (Win2WinHotkey n)
    with s st1 finish [of st1] show ?thesis by (simp add: legacy_keyboard_mode_def st1_def)
  next
    case NoKey
    with s st1 finish [of st1] show ?thesis by (simp add: legacy_keyboard_mode_def st1_def)
  qed
qed

lemma position_held_ok:
  assumes "held_ok e own st" shows "held_ok e own (sim_rdev_rawkey_position e t code down st)"
proof -
  have "held (kbd st) \<subseteq> own \<union> recorded_keys e st \<union> {}" using assms by (simp add: held_ok_def)
  moreover have "held (simulate_code e code down kb) \<subseteq>
      (if down then held kb \<union> {code_key e code} else held kb - {code_key e code})" for kb
    by (auto simp: held_simps)
  moreover have "{code_key e code} = (case recorded_key e (RdevKey code) of Some k \<Rightarrow> {k} | None \<Rightarrow> {})"
    by (simp add: recorded_key_def)
  ultimately show ?thesis
    using held_ok_record [where T = "{}" and st = st and own = own and e = e and r = "RdevKey code" and t = t
        and down = down and f = "simulate_code e code down" and K = "{code_key e code}"]
    by (simp add: held_ok_def sim_rdev_rawkey_position_def)
qed

lemma translate_held_ok:
  assumes ok: "held_ok e own st" shows "held_ok e own (translate_keyboard_mode e t evt st)"
proof -
  have clicks: "held (fold (\<lambda>c. key_click e (KLayout c)) s kb) \<subseteq> held kb" for s kb
    by (rule held_fold_shrinks) (auto simp: held_simps)
  show ?thesis
    by (cases "ev_union evt")
      (use ok in \<open>auto simp: translate_keyboard_mode_def Let_def position_held_ok held_simps
        intro!: held_ok_on_kbd dest!: subsetD [OF clicks] split: if_splits\<close>)
qed

lemma lock_modes_held:
  "lock_modes_new e evt n kb = (h, kb') \<Longrightarrow> held kb' \<subseteq> held kb"
  "held (lock_modes_drop e h kb) \<subseteq> held kb"
  by (auto simp: lock_modes_new_def lock_modes_drop_def Let_def held_simps split: if_splits)

lemma handle_key_held_ok:
  assumes ok: "held_ok e own st" and fits: "event_fits evt" and plain: "\<not> presses_function_key evt"
  shows "held_ok e own (handle_key e t evt st)"
proof -
  have mode: "held_ok e own (handle_mode e t evt st')" if "held_ok e own st'" for st'
    using that fits plain
    by (auto simp: handle_mode_def map_keyboard_mode_def position_held_ok translate_held_ok
        intro: legacy_held_ok)
  show ?thesis
  proof (cases "exiting st \<or> lock_sync e evt = None")
    case True
    with ok mode show ?thesis by (auto simp: handle_key_def)
  next
    case False
    then obtain n where n: "lock_sync e evt = Some n" "\<not> exiting st" by auto
    obtain h kb where h: "lock_modes_new e evt n (kbd st) = (h, kb)" by (cases "lock_modes_new e evt n (kbd st)")
    from ok have "held_ok e own (st\<lparr>kbd := kb\<rparr>)" by (rule held_ok_shrink) (rule lock_modes_held(1) [OF h])
    with n h mode show ?thesis by (simp add: handle_key_def held_ok_on_kbd lock_modes_held)
  qed
qed

lemma release_modifiers_held_ok:
  assumes "held_ok e own st" "held kb \<subseteq> held (kbd st) \<union> set ks"
  shows "held_ok e own (on_kbd (release_keys ks) (st\<lparr>kbd := kb\<rparr>))"
  using assms by (auto simp: held_ok_def held_simps)

lemma handle_mouse_held_ok:
  assumes "held_ok e own st" and "handle_mouse e conn time evt sim (st, l) = (outs, st', l')"
  shows "held_ok e own st'"
proof (cases "sim \<and> \<not> exiting st")
  case False
  with assms show ?thesis by (cases sim) (auto simp: handle_mouse_def handle_mouse_simulation_def)
next
  case True
  define mods where "mods = filter (\<lambda>ck. KEY_MAP ck \<noteq> Some KCapsLock \<and> KEY_MAP ck \<noteq> Some KNumLock) (me_modifiers evt)"
  define kb0 where "kb0 = fix_modifiers (me_modifiers evt) 0 (kbd st)"
  obtain ks kb where p: "press_modifiers e False mods kb0 = (ks, kb)" by (cases "press_modifiers e False mods kb0")
  obtain o1 l1 where a: "mouse_action conn time evt l = (o1, l1)" by (cases "mouse_action conn time evt l")
  have "held kb \<subseteq> held (kbd st) \<union> set ks"
    using held_press_modifiers [OF p] held_fix_modifiers [of "me_modifiers evt" 0 "kbd st"] by (auto simp: kb0_def)
  with assms(1) have "held_ok e own (on_kbd (release_keys ks) (st\<lparr>kbd := kb\<rparr>))" by (rule release_modifiers_held_ok)
  moreover have "held_ok e own (on_kbd (release_keys []) (st\<lparr>kbd := kbd st\<rparr>))"
    using assms(1) by (simp add: held_ok_def held_simps)
  ultimately show ?thesis
    using assms(2) True p a by (auto simp: handle_mouse_def handle_mouse_simulation_def mods_def kb0_def split: if_splits)
qed

text \<open>What the session sends, and the timer.\<close>

datatype input_action = KeyStep nat key_event | MouseStep int int mouse_event bool | TimeStep nat

fun input_step :: "input_env \<Rightarrow> input_action \<Rightarrow> input_state \<times> latest_input \<Rightarrow> input_state \<times> latest_input" where
  "input_step e (KeyStep t evt) (st, l) = (handle_key e t evt st, l)"
| "input_step e (MouseStep conn time evt sim) s = snd (handle_mouse e conn time evt sim s)"
| "input_step e (TimeStep t) (st, l) = (fix_key_down_timeout e t False st, l)"

definition input_run :: "input_env \<Rightarrow> input_action list \<Rightarrow> input_state \<times> latest_input \<Rightarrow> input_state \<times> latest_input" where
  "input_run e steps s = fold (input_step e) steps s"

definition step_fits :: "input_action \<Rightarrow> bool" where
  "step_fits s = (case s of KeyStep _ evt \<Rightarrow> event_fits evt \<and> \<not> presses_function_key evt | _ \<Rightarrow> True)"

lemma timeout_held_ok: "held_ok e own st \<Longrightarrow> held_ok e own (fix_key_down_timeout e t force st)"
proof -
  have "held_ok e own st \<Longrightarrow> held_ok e own (fold (fix_key_down e t force) rs st)" for rs
    by (induction rs arbitrary: st) (auto simp: fix_key_down_def held_ok_release split: prod.split)
  then show "held_ok e own st \<Longrightarrow> held_ok e own (fix_key_down_timeout e t force st)"
    by (simp add: fix_key_down_timeout_def)
qed

lemma input_step_held_ok:
  assumes "held_ok e own st" "step_fits s" "input_step e s (st, l) = (st', l')"
  shows "held_ok e own st'"
proof (cases s)
  case (KeyStep t evt)
  with assms show ?thesis by (auto simp: step_fits_def handle_key_held_ok)
next
  case (MouseStep conn time evt sim)
  obtain outs st1 l1 where m: "handle_mouse e conn time evt sim (st, l) = (outs, st1, l1)"
    by (cases "handle_mouse e conn time evt sim (st, l)")
  with assms MouseStep handle_mouse_held_ok [OF assms(1) m] show ?thesis by simp
next
  case (TimeStep t)
  with assms show ?thesis by (auto simp: timeout_held_ok)
qed

lemma input_run_held_ok:
  assumes "held_ok e own st" "\<forall>s \<in> set steps. step_fits s" "input_run e steps (st, l) = (st', l')"
  shows "held_ok e own st'"
  using assms
proof (induction steps arbitrary: st l)
  case Nil
  then show ?case by (simp add: input_run_def)
next
  case (Cons s steps)
  obtain st1 l1 where s: "input_step e s (st, l) = (st1, l1)" by (cases "input_step e s (st, l)")
  from Cons.prems s have "input_run e steps (st1, l1) = (st', l')" by (simp add: input_run_def)
  with Cons.IH [OF input_step_held_ok [OF Cons.prems(1) _ s]] Cons.prems show ?case by simp
qed


subsection \<open>The end of the service\<close>

lemma fix_key_down_forced:
  "fst ` set (keys_down (fix_key_down e t True x st)) = fst ` set (keys_down st) - {fst x}"
  by (cases x) (simp add: fix_key_down_def record_pressed_key_def keys_deleted)

lemma forced_timeout_clears: "keys_down (fix_key_down_timeout e t True st) = []"
proof -
  have "fst ` set (keys_down (fold (fix_key_down e t True) rs st)) = fst ` set (keys_down st) - fst ` set rs" for rs
    by (induction rs arbitrary: st) (auto simp: fix_key_down_forced)
  from this [of "keys_down st"] show ?thesis by (simp add: fix_key_down_timeout_def)
qed

lemma timeout_exiting [simp]: "exiting (fix_key_down_timeout e t force st) = exiting st"
proof -
  have "exiting (fold (fix_key_down e t force) rs st) = exiting st" for rs
    by (induction rs arbitrary: st) (auto simp: fix_key_down_def on_kbd_def record_pressed_key_def split: prod.split)
  then show ?thesis by (simp add: fix_key_down_timeout_def)
qed

lemma exit_unless: "\<not> exiting st \<Longrightarrow>
    fix_key_down_timeout_at_exit e t st = fix_key_down_timeout e t True (st\<lparr>exiting := True\<rparr>)"
  by (simp add: fix_key_down_timeout_at_exit_def)

text \<open>
  C21. Nothing stays pressed.  A service that begins with no key of its own on record, whatever keys \<open>own\<close> somebody
  holds at the machine itself, takes any events of the keyboard and of the mouse, in any mode, with any
  modifiers, and any run of its timer; when it leaves, what is held is held by the machine itself, nothing is on record, and
  no later key has an effect.  The one exception is a press of a key that stands for a function of the system.
\<close>

theorem exit_releases_all:
  fixes t :: nat
  assumes "held (kbd st) \<subseteq> own" and "keys_down st = []"
    and "\<forall>s \<in> set steps. step_fits s" and "input_run e steps (st, l) = (st', l')" and "\<not> exiting st'"
  defines "out \<equiv> fix_key_down_timeout_at_exit e t st'"
  shows "held (kbd out) \<subseteq> own \<and> keys_down out = [] \<and> handle_key e t' evt out = out"
proof -
  have "held_ok e own st" using assms(1) by (auto simp: held_ok_def)
  from input_run_held_ok [OF this assms(3,4)] have "held_ok e own (st'\<lparr>exiting := True\<rparr>)"
    by (simp add: held_ok_def recorded_keys_def)
  then have ok: "held_ok e own out" using assms(5) by (simp add: out_def exit_unless timeout_held_ok)
  have down: "keys_down out = []" using assms(5) by (simp add: out_def exit_unless forced_timeout_clears)
  have "exiting out" using assms(5) by (simp add: out_def exit_unless)
  with ok down show ?thesis by (simp add: held_ok_def recorded_keys_def handle_key_def)
qed

text \<open>A keyboard with nothing held, an environment that knows the key codes by their numbers.\<close>

definition plain_input_env :: input_env where
  "plain_input_env = \<lparr>can_press = (\<lambda>k. True), code_key = KRaw, skip_led_code = (\<lambda>c. False), numpad_code = (\<lambda>c. False),
     to_uppercase = (\<lambda>c. [c])\<rparr>"

definition idle_input :: input_state where
  "idle_input = \<lparr>kbd = \<lparr>held = {}, caps_lock = False, num_lock = False, sent = []\<rparr>, keys_down = [], exiting = False\<rparr>"

definition idle_latest :: latest_input where
  "idle_latest = \<lparr>in_conn = 0, in_time = 0, in_x = 0, in_y = 0\<rparr>"

definition key_press :: "key_union \<Rightarrow> int list \<Rightarrow> int \<Rightarrow> key_event" where
  "key_press u mods mode = \<lparr>ev_down = True, ev_press = False, ev_union = u, ev_modifiers = mods, ev_mode = mode\<rparr>"

lemmas input_eval = input_run_def handle_key_def handle_mode_def map_keyboard_mode_def legacy_keyboard_mode_def
  sim_rdev_rawkey_position_def simulate_code_def sync_modifiers_def release_unpressed_modifiers_def fix_modifiers_def
  fix_modifier_def get_modifier_state_def get_key_state_def key_press_def plain_input_env_def idle_input_def lock_sync_def
  skip_led_sync_control_key_def is_legacy_mode_def ev_chr_def lock_modes_new_def lock_modes_drop_def
  is_modifier_enabled_def on_kbd_def record_pressed_key_def press_key_def key_down_def key_up_def key_click_def
  step_fits_def event_fits_def presses_function_key_def control_key_value_to_key_def is_altgr_pressed_def
  is_function_key_def get_control_key_value_def is_numpad_control_key_def

lemma KEY_MAP_modifiers [simp]:
  "KEY_MAP 4 = Some KControl" "KEY_MAP 29 = Some KShift" "KEY_MAP 1 = Some KAlt" "KEY_MAP 63 = Some KNumLock"
  "KEY_MAP 101 = None" "KEY_MAP 100 = None"
  by (simp_all add: KEY_MAP_def)

definition map_press :: "input_action list" where
  "map_press = [KeyStep 1 (key_press (Chr 38) [] 1), TimeStep 2]"

lemma map_press_run: "input_run plain_input_env map_press (idle_input, idle_latest) =
    (idle_input\<lparr>kbd := \<lparr>held = {KRaw 38}, caps_lock = False, num_lock = False, sent = [Down (KRaw 38)]\<rparr>,
       keys_down := [(RdevKey 38, 1)]\<rparr>, idle_latest)"
  by (simp add: input_eval map_press_def fix_key_down_timeout_def fix_key_down_def)

theorem exit_releases_all_witness:
  "held (kbd (fix_key_down_timeout_at_exit plain_input_env 3 (fst (input_run plain_input_env map_press (idle_input, idle_latest))))) = {}"
proof -
  have fits: "\<forall>s \<in> set map_press. step_fits s" by (simp add: map_press_def input_eval)
  show ?thesis
    using exit_releases_all [OF _ _ fits map_press_run, where own = "{}" and t = 3]
    by (simp add: map_press_run) (simp add: idle_input_def)
qed

text \<open>
  The function keys leave their modifiers pressed.  A press of a key for a function of the system, in legacy
  mode with Control among its modifiers, presses Control and returns before the release: Control is held
  afterwards, is not on record, and the end of the service does not release it.
\<close>

theorem function_key_sticks:
  fixes t :: nat
  assumes "is_function_key ck" and "can_press e KControl" and "\<not> get_modifier_state KControl (kbd st)"
    and "ev_union evt = ControlKey ck" and "ev_down evt" and "ev_mode evt = 0" and "ev_modifiers evt = [ck_Control]"
    and "keys_down st = []"
  defines "st' \<equiv> legacy_keyboard_mode e t evt st"
  shows "KControl \<in> held (kbd st') \<and> keys_down st' = [] \<and> KControl \<in> held (kbd (fix_key_down_timeout e t' True st'))"
proof -
  have "\<not> get_modifier_state KControl (release_unpressed_modifiers evt (kbd st))"
    using assms(3) held_fix_modifiers [of "ev_modifiers evt" "get_control_key_value evt" "kbd st"]
    by (auto simp: get_modifier_state_def get_key_state_def release_unpressed_modifiers_def)
  then have "KControl \<in> held (kbd st') \<and> keys_down st' = []"
    using assms(1,2,4-8)
    by (simp add: st'_def legacy_keyboard_mode_def sync_modifiers_def control_key_value_to_key_def held_simps
        key_down_def)
  then show ?thesis by (simp add: fix_key_down_timeout_def)
qed

theorem function_key_sticks_witness:
  "KControl \<in> held (kbd (fix_key_down_timeout plain_input_env 9 True
     (legacy_keyboard_mode plain_input_env 1 (key_press (ControlKey 101) [4] 0) idle_input)))"
  using function_key_sticks [where e = plain_input_env and ck = 101 and st = idle_input and t = 1 and t' = 9
      and evt = "key_press (ControlKey 101) [4] 0"]
  by (simp add: input_eval)

subsection \<open>The lock modes of the event\<close>

lemma key_click_locks:
  assumes "can_press e k" "k \<notin> held kb"
  shows "caps_lock (key_click e k kb) = (caps_lock kb \<noteq> (k = KCapsLock))"
    "num_lock (key_click e k kb) = (num_lock kb \<noteq> (k = KNumLock))"
  using assms by (auto simp: key_click_def key_down_def press_key_def key_up_def)

lemma simulate_code_locks:
  assumes "code_key e c \<noteq> KCapsLock" "code_key e c \<noteq> KNumLock"
  shows "caps_lock (simulate_code e c down kb) = caps_lock kb" "num_lock (simulate_code e c down kb) = num_lock kb"
  using assms by (auto simp: simulate_code_def press_key_def key_up_def Let_def)

text \<open>
  A key is pressed under the lock modes of the controlling side, which are put back.  For a key in map mode that is not a
  lock key itself: while it is simulated, Caps Lock is as the event says, and so is Num Lock for a
  key of the numeric pad; afterwards both are as they were before.
\<close>

theorem lock_modes_put_back:
  assumes "can_press e KCapsLock" "can_press e KNumLock" and "KCapsLock \<notin> held (kbd st)" "KNumLock \<notin> held (kbd st)"
    and "ev_mode evt = 1" and "code_key e (ev_chr evt) \<noteq> KCapsLock" "code_key e (ev_chr evt) \<noteq> KNumLock"
    and "lock_sync e evt = Some numpad" and "lock_modes_new e evt numpad (kbd st) = (h, during)"
  shows "(caps_lock during \<longleftrightarrow> ck_CapsLock \<in> set (ev_modifiers evt)) \<and>
    (num_lock during \<longleftrightarrow> (if numpad then ck_NumLock \<in> set (ev_modifiers evt) else num_lock (kbd st))) \<and>
    caps_lock (kbd (handle_key e t evt st)) = caps_lock (kbd st) \<and>
    num_lock (kbd (handle_key e t evt st)) = num_lock (kbd st)"
proof -
  define caps where "caps \<longleftrightarrow> is_modifier_enabled evt ck_CapsLock \<noteq> caps_lock (kbd st)"
  define num where "num \<longleftrightarrow> numpad \<and> is_modifier_enabled evt ck_NumLock \<noteq> num_lock (kbd st)"
  define kb1 where "kb1 = (if caps then key_click e KCapsLock (kbd st) else kbd st)"
  have kb1: "caps_lock kb1 = (caps_lock (kbd st) \<noteq> caps)" "num_lock kb1 = num_lock (kbd st)"
      "KNumLock \<notin> held kb1" "KCapsLock \<notin> held kb1"
    using assms(1,3,4) by (auto simp: kb1_def key_click_locks held_simps)
  have h: "h = (caps, num)" "during = (if num then key_click e KNumLock kb1 else kb1)"
    using assms(9) kb1(2)
    by (auto simp: lock_modes_new_def Let_def caps_def num_def kb1_def get_key_state_def split: if_splits)
  then have during: "caps_lock during = caps_lock kb1" "num_lock during = (num_lock kb1 \<noteq> num)"
      "KNumLock \<notin> held during" "KCapsLock \<notin> held during"
    using assms(2) kb1 by (auto simp: key_click_locks held_simps)
  define after where "after = simulate_code e (ev_chr evt) (ev_down evt) during"
  have after: "caps_lock after = caps_lock during" "num_lock after = num_lock during"
      "KNumLock \<notin> held after" "KCapsLock \<notin> held after"
    using assms(6,7) during by (auto simp: after_def simulate_code_locks held_simps)
  define undone where "undone = (if caps then key_click e KCapsLock after else after)"
  have undone: "caps_lock undone = (caps_lock after \<noteq> caps)" "num_lock undone = num_lock after" "KNumLock \<notin> held undone"
    using assms(1) after by (auto simp: undone_def key_click_locks held_simps)
  have drop: "lock_modes_drop e h after = (if num then key_click e KNumLock undone else undone)"
    by (simp add: lock_modes_drop_def h(1) undone_def)
  have dropped: "caps_lock (lock_modes_drop e h after) = caps_lock (kbd st)"
      "num_lock (lock_modes_drop e h after) = num_lock (kbd st)"
    using assms(2) undone after during kb1 by (auto simp: drop key_click_locks)
  have "kbd (handle_key e t evt st) = (if exiting st then kbd st else lock_modes_drop e h after)"
    using assms(5,8,9)
    by (simp add: handle_key_def handle_mode_def map_keyboard_mode_def sim_rdev_rawkey_position_def after_def)
  with dropped during kb1 show ?thesis by (auto simp: caps_def num_def is_modifier_enabled_def)
qed

theorem lock_modes_put_back_witness:
  "let st = handle_key plain_input_env 1 (key_press (Chr 38) [3] 1) idle_input
   in \<not> caps_lock (kbd st) \<and> \<not> num_lock (kbd st) \<and> Down KCapsLock \<in> set (sent (kbd st))"
  using lock_modes_put_back [where e = plain_input_env and st = idle_input and evt = "key_press (Chr 38) [3] 1"
      and numpad = False and t = 1, OF _ _ _ _ _ _ _ _ prod.collapse [symmetric]]
  by (simp add: input_eval)

end
