(* ===== verification/Session_Input.thy ===== *)
theory Session_Input
  imports Session_Properties Input_Service
begin

text \<open>
  The way of an input message from an authorised connection to the keyboard and the mouse: the message handler of
  \<^verbatim>\<open>src/server/connection.rs\<close>, which hands it to the input thread, and \<open>handle_input\<close>, the loop of that thread, which
  calls \<^verbatim>\<open>Input_Service\<close>.  It is built for Linux.  The record \<open>input_session\<close> is the connection with the modifier keys that it
  believes to be pressed; \<open>drop\<close> is what happens when it ends.
\<close>

datatype peer_input = MouseMsg mouse_event | PointerMsg | KeyMsg key_event

datatype input_msg = InMouse int mouse_event bool | InPointer int | InKey key_event bool | InBlock bool

record input_session =
  ctl :: control
  pressed_modifiers :: "key set"

text \<open>\<open>is_modifier\<close> of \<^verbatim>\<open>common.rs\<close>, on a control key, and of \<^verbatim>\<open>keyboard.rs\<close>, on a key.\<close>

definition evt_is_modifier :: "key_event \<Rightarrow> bool" where
  "evt_is_modifier evt =
     (case ev_union evt of
        ControlKey v \<Rightarrow> v \<in> {ck_Alt, ck_Shift, ck_Control, ck_Meta, ck_RAlt, ck_RShift, ck_RControl, ck_RWin}
      | _ \<Rightarrow> False)"

definition key_is_modifier :: "key \<Rightarrow> bool" where
  "key_is_modifier k = (k \<in> {KShift, KRightShift, KControl, KRightControl, KMeta, KRWin, KAlt, KRightAlt})"

definition modifier_of :: "input_env \<Rightarrow> key_event \<Rightarrow> key option" where
  "modifier_of e evt =
     (case (if ev_mode evt = 1 then Some (code_key e (ev_chr evt))
            else if ev_mode evt = 2 then
              (case ev_union evt of Chr code \<Rightarrow> Some (code_key e (code mod 2 ^ 16)) | _ \<Rightarrow> None)
            else None) of
        Some k \<Rightarrow> if key_is_modifier k then Some k else None
      | None \<Rightarrow> None)"

definition is_press :: "input_env \<Rightarrow> key_event \<Rightarrow> bool" where
  "is_press e evt = ((ev_press evt \<or> ev_down evt) \<and> \<not> (evt_is_modifier evt \<or> modifier_of e evt \<noteq> None))"

definition on_key_event :: "input_env \<Rightarrow> key_event \<Rightarrow> input_session \<Rightarrow> input_msg list \<times> input_session" where
  "on_key_event e evt s =
     (let pressed = pressed_modifiers s;
          pressed' = (case modifier_of e evt of
              Some k \<Rightarrow> if is_press e evt then insert k pressed else pressed - {k}
            | None \<Rightarrow> pressed);
          msg = (if is_press e evt then
                   (case ev_union evt of Unicode _ \<Rightarrow> InKey evt False | Seq _ \<Rightarrow> InKey evt False | _ \<Rightarrow> InKey evt True)
                 else InKey evt False)
      in ([msg], s\<lparr>pressed_modifiers := pressed'\<rparr>))"

definition on_input :: "input_env \<Rightarrow> peer_input \<Rightarrow> input_session \<Rightarrow> input_msg list \<times> input_session" where
  "on_input e m s =
     (let c = ctl s
      in if \<not> authorized (base c) \<or> port_forward_socket (base c) \<or> is_authed_view_camera_conn c then ([], s)
         else (case m of
             MouseMsg me \<Rightarrow>
               (if peer_keyboard_enabled c then [InMouse (cid c) me True]
                else if show_my_cursor c then [InMouse (cid c) me False] else [], s)
           | PointerMsg \<Rightarrow> (if peer_keyboard_enabled c then [InPointer (cid c)] else [], s)
           | KeyMsg evt \<Rightarrow> if peer_keyboard_enabled c then on_key_event e evt s else ([], s)))"

text \<open>\<open>release_pressed_modifiers\<close>, which the drop of a connection calls; a key is released by \<^verbatim>\<open>rdev\<close>, not through the record.\<close>

definition release_pressed_modifiers :: "key list \<Rightarrow> input_session \<Rightarrow> keyboard \<Rightarrow> keyboard" where
  "release_pressed_modifiers order s kb = fold key_up (filter (\<lambda>k. k \<in> pressed_modifiers s) order) kb"

subsection \<open>The input thread\<close>

record input_thread =
  inp :: "input_state \<times> latest_input"
  block_input_mode :: bool

datatype input_out = MouseOut mouse_out | BlockCall bool | BlockError bool

definition press_and_release :: "input_env \<Rightarrow> nat \<Rightarrow> key_event \<Rightarrow> bool \<Rightarrow> input_state \<Rightarrow> input_state" where
  "press_and_release e t evt press st =
     (let msg = evt\<lparr>ev_press := False\<rparr>
      in if press then handle_key e t (msg\<lparr>ev_down := False\<rparr>) (handle_key e t (msg\<lparr>ev_down := True\<rparr>) st)
         else handle_key e t msg st)"

text \<open>One message; \<open>ok\<close> says whether the system lets its input be blocked.\<close>

definition handle_input ::
  "input_env \<Rightarrow> nat \<Rightarrow> bool \<Rightarrow> input_msg \<Rightarrow> input_thread \<Rightarrow> input_out list \<times> input_thread" where
  "handle_input e t ok m th =
     (case m of
        InMouse conn me simulate \<Rightarrow>
          (case handle_mouse e conn (int t) me simulate (inp th) of
             (outs, st) \<Rightarrow> (map MouseOut outs, th\<lparr>inp := st\<rparr>))
      | InPointer conn \<Rightarrow> ([], th)
      | InKey evt press \<Rightarrow>
          ([], th\<lparr>inp := (press_and_release e t evt press (fst (inp th)), snd (inp th))\<rparr>)
      | InBlock on \<Rightarrow>
          if ok then ([BlockCall on], th\<lparr>block_input_mode := on\<rparr>) else ([BlockCall on, BlockError on], th))"

text \<open>A wait without a message.\<close>

definition input_timeout :: "input_thread \<Rightarrow> input_out list" where
  "input_timeout th = (if block_input_mode th then [BlockCall True] else [])"

fun handle_inputs ::
  "input_env \<Rightarrow> nat \<Rightarrow> bool \<Rightarrow> input_msg list \<Rightarrow> input_thread \<Rightarrow> input_out list \<times> input_thread" where
  "handle_inputs e t ok [] th = ([], th)"
| "handle_inputs e t ok (m # ms) th =
     (case handle_input e t ok m th of
        (o1, th1) \<Rightarrow> (case handle_inputs e t ok ms th1 of (o2, th2) \<Rightarrow> (o1 @ o2, th2)))"

text \<open>A message of the peer, all the way.\<close>

definition peer_step ::
  "input_env \<Rightarrow> nat \<Rightarrow> peer_input \<Rightarrow> input_session \<times> input_thread \<Rightarrow> input_out list \<times> input_session \<times> input_thread" where
  "peer_step e t m = (\<lambda>(s, th).
     case on_input e m s of (ms, s') \<Rightarrow> (case handle_inputs e t True ms th of (outs, th') \<Rightarrow> (outs, s', th')))"

fun peer_run ::
  "input_env \<Rightarrow> (nat \<times> peer_input) list \<Rightarrow> input_session \<times> input_thread \<Rightarrow> input_session \<times> input_thread" where
  "peer_run e [] st = st"
| "peer_run e ((t, m) # ms) st = peer_run e ms (snd (peer_step e t m st))"

subsection \<open>Who may give input\<close>

definition may_control :: "control \<Rightarrow> bool" where
  "may_control c = (authorized (base c) \<and> \<not> port_forward_socket (base c) \<and> \<not> is_authed_view_camera_conn c \<and>
     keyboard c \<and> \<not> disable_keyboard c)"

lemma on_input_ctl [simp]: "ctl (snd (on_input e m s)) = ctl s"
  by (auto simp: on_input_def on_key_event_def Let_def split: peer_input.split)

lemma no_input_without_permission:
  assumes "\<not> may_control (ctl s)"
  shows "handle_inputs e t ok (fst (on_input e m s)) th = ([], th) \<and> snd (on_input e m s) = s"
proof -
  have "fst (on_input e m s) = [] \<or> (\<exists>me. fst (on_input e m s) = [InMouse (cid (ctl s)) me False])"
    using assms by (cases m) (auto simp: on_input_def may_control_def peer_keyboard_enabled_def Let_def)
  moreover have "snd (on_input e m s) = s"
    using assms by (cases m) (auto simp: on_input_def may_control_def peer_keyboard_enabled_def Let_def)
  ultimately show ?thesis by (auto simp: handle_input_def handle_mouse_def)
qed

text \<open>
  Input needs permission.  A connection that is not authorised, that forwards a port, that was authorised for the
  camera only, from which the keyboard permission was taken, or whose peer has turned its own input off, moves no mouse and
  presses no key, whatever messages it sends: the state of keyboard and mouse stays as it is.
\<close>

theorem input_needs_permission:
  assumes "\<not> may_control (ctl s)" shows "peer_run e ms (s, th) = (s, th)"
proof (induction ms)
  case (Cons tm ms)
  obtain t m where tm: "tm = (t, m)" by (cases tm)
  have "peer_step e t m (s, th) = ([], s, th)"
    using no_input_without_permission [OF assms, of e t True m th]
    by (cases "on_input e m s") (simp add: peer_step_def)
  with Cons tm show ?case by simp
qed simp

subsection \<open>Keys that are not modifiers\<close>

lemma key_up_released: "k \<notin> held (key_up k kb)" by (simp add: held_simps)

lemma handle_key_up_map:
  assumes "\<not> exiting st" "ev_mode evt = 1" "ev_union evt = Chr c" "\<not> ev_down evt"
  shows "code_key e c \<notin> held (kbd (handle_key e t evt st)) \<and>
    RdevKey c \<notin> fst ` set (keys_down (handle_key e t evt st)) \<and> \<not> exiting (handle_key e t evt st)"
proof -
  have mode: "handle_mode e t evt st' = on_kbd (simulate_code e c False) (record_pressed_key t (RdevKey c) False st')" for st'
    using assms(2-4) by (simp add: handle_mode_def map_keyboard_mode_def sim_rdev_rawkey_position_def ev_chr_def)
  have up: "code_key e c \<notin> held (simulate_code e c False kb)" for kb by (simp add: held_simps)
  show ?thesis
  proof (cases "lock_sync e evt")
    case None
    with assms(1) up show ?thesis
      by (simp add: handle_key_def mode keys_deleted on_kbd_def record_pressed_key_def)
  next
    case (Some n)
    obtain h kb where h: "lock_modes_new e evt n (kbd st) = (h, kb)" by (cases "lock_modes_new e evt n (kbd st)")
    have "code_key e c \<notin> held (lock_modes_drop e h (simulate_code e c False kb))"
      using up [of kb] lock_modes_held(2) [of e h "simulate_code e c False kb"] by blast
    with Some assms(1) h show ?thesis
      by (simp add: handle_key_def mode keys_deleted on_kbd_def record_pressed_key_def)
  qed
qed

lemma handle_key_exiting [simp]: "exiting (handle_key e t evt st) = exiting st"
  by (simp add: handle_key_def handle_mode_def map_keyboard_mode_def translate_keyboard_mode_def
      legacy_keyboard_mode_def sim_rdev_rawkey_position_def on_kbd_def record_pressed_key_def Let_def
      split: option.split prod.split key_union.split)

text \<open>
  A key that is no modifier does not stick.  For a key in map mode that is no modifier, a message that it went
  down presses it and releases it at once: afterwards it is neither held nor on record, even if the message that it went up is
  lost.
\<close>

theorem plain_key_released:
  assumes "may_control (ctl s)" and "ev_mode evt = 1" "ev_union evt = Chr c" "ev_down evt"
    and "\<not> key_is_modifier (code_key e c)" and "\<not> exiting (fst (inp th))"
    and "peer_step e t (KeyMsg evt) (s, th) = (outs, s', th')"
  shows "code_key e c \<notin> held (kbd (fst (inp th'))) \<and> RdevKey c \<notin> fst ` set (keys_down (fst (inp th')))"
proof -
  have none: "modifier_of e evt = None" using assms(2,3,5) by (simp add: modifier_of_def ev_chr_def)
  then have "is_press e evt" using assms(3,4) by (simp add: is_press_def evt_is_modifier_def)
  with assms(1,3) none have "fst (on_input e (KeyMsg evt) s) = [InKey evt True]"
    by (simp add: on_input_def may_control_def peer_keyboard_enabled_def on_key_event_def Let_def)
  with assms(7) have "fst (inp th') = press_and_release e t evt True (fst (inp th))"
    by (auto simp: peer_step_def handle_input_def split: prod.splits)
  then show ?thesis
    using handle_key_up_map [of "handle_key e t (evt\<lparr>ev_press := False, ev_down := True\<rparr>) (fst (inp th))"
        "evt\<lparr>ev_press := False, ev_down := False\<rparr>" c e t] assms(2,3,6)
    by (simp add: press_and_release_def Let_def)
qed

lemma pressed_modifiers_shrink: "pressed_modifiers (snd (on_input e m s)) \<subseteq> pressed_modifiers s"
proof -
  have "modifier_of e evt = Some k \<Longrightarrow> \<not> is_press e evt" for evt k by (simp add: is_press_def)
  then show ?thesis
    by (cases m) (auto simp: on_input_def on_key_event_def Let_def split: option.splits if_splits)
qed

lemma peer_run_modifiers:
  "pressed_modifiers s = {} \<Longrightarrow> peer_run e ms (s, th) = (s', th') \<Longrightarrow> pressed_modifiers s' = {}"
proof (induction ms arbitrary: s th)
  case (Cons tm ms)
  obtain t m outs s1 th1 where step: "tm = (t, m)" "peer_step e t m (s, th) = (outs, s1, th1)"
    by (cases tm, cases "peer_step e (fst tm) (snd tm) (s, th)") auto
  then have "s1 = snd (on_input e m s)" by (auto simp: peer_step_def split: prod.splits)
  with Cons.prems(1) pressed_modifiers_shrink [of e m s] have "pressed_modifiers s1 = {}" by auto
  from Cons.IH [OF this] Cons.prems(2) step show ?case by simp
qed simp

lemma release_none: "pressed_modifiers s = {} \<Longrightarrow> release_pressed_modifiers order s kb = kb"
  by (simp add: release_pressed_modifiers_def)

text \<open>
  A modifier outlives its session.  On Linux a modifier is never counted as pressed, so a connection never puts one
  into the set that it releases when it ends: after any messages, the end of the connection releases nothing, and a
  modifier whose last message was that it went down stays held.
\<close>

theorem modifiers_outlive_session:
  assumes "pressed_modifiers s = {}" and "peer_run e ms (s, th) = (s1, th1)"
    and "may_control (ctl s1)" and "\<not> exiting (fst (inp th1))"
    and "ev_mode evt = 1" "ev_union evt = Chr c" "ev_down evt" "key_is_modifier (code_key e c)" "skip_led_code e c"
    and "peer_step e t (KeyMsg evt) (s1, th1) = (outs, s2, th2)"
  shows "release_pressed_modifiers order s2 (kbd (fst (inp th2))) = kbd (fst (inp th2)) \<and>
    code_key e c \<in> held (kbd (fst (inp th2)))"
proof -
  have "pressed_modifiers s1 = {}" by (rule peer_run_modifiers [OF assms(1,2)])
  moreover have "s2 = snd (on_input e (KeyMsg evt) s1)" using assms(10) by (auto simp: peer_step_def split: prod.splits)
  ultimately have "pressed_modifiers s2 = {}" using pressed_modifiers_shrink [of e "KeyMsg evt" s1] by auto
  moreover have "code_key e c \<in> held (kbd (fst (inp th2)))"
  proof -
    have "modifier_of e evt = Some (code_key e c)" using assms(5,6,8) by (simp add: modifier_of_def ev_chr_def)
    then have "\<not> is_press e evt" by (simp add: is_press_def)
    with assms(3) have "fst (on_input e (KeyMsg evt) s1) = [InKey evt False]"
      by (simp add: on_input_def may_control_def peer_keyboard_enabled_def on_key_event_def Let_def)
    with assms(10) have "fst (inp th2) = handle_key e t (evt\<lparr>ev_press := False\<rparr>) (fst (inp th1))"
      by (auto simp: peer_step_def handle_input_def press_and_release_def split: prod.splits)
    with assms(4-9) show ?thesis
      by (simp add: handle_key_def lock_sync_def is_legacy_mode_def handle_mode_def map_keyboard_mode_def ev_chr_def
          sim_rdev_rawkey_position_def held_simps)
  qed
  ultimately show ?thesis by (simp add: release_none)
qed

subsection \<open>Samples\<close>

definition input_control :: "bool \<Rightarrow> input_session" where
  "input_control kb = \<lparr>ctl = logged_in\<lparr>keyboard := kb, disable_keyboard := False\<rparr>, pressed_modifiers = {}\<rparr>"

definition idle_thread :: input_thread where
  "idle_thread = \<lparr>inp = (idle_input, idle_latest), block_input_mode = False\<rparr>"

definition shift_env :: input_env where
  "shift_env = plain_input_env\<lparr>code_key := (\<lambda>c. if c = 50 then KShift else KRaw c), skip_led_code := (\<lambda>c. c = 50)\<rparr>"

lemma input_control_may: "may_control (ctl (input_control kb)) = kb"
  by (simp add: input_control_def may_control_def logged_in_def control_new_def new_connection_def
      is_authed_view_camera_conn_def)

theorem input_needs_permission_witness:
  "peer_run shift_env [(1, KeyMsg (key_press (Chr 50) [] 1))] (input_control False, idle_thread) =
     (input_control False, idle_thread)"
  by (rule input_needs_permission) (simp add: input_control_may)

theorem plain_key_released_witness:
  "case peer_step shift_env 1 (KeyMsg (key_press (Chr 38) [] 1)) (input_control True, idle_thread) of
     (outs, s', th') \<Rightarrow> KRaw 38 \<notin> held (kbd (fst (inp th')))"
proof -
  obtain outs s' th' where
    step: "peer_step shift_env 1 (KeyMsg (key_press (Chr 38) [] 1)) (input_control True, idle_thread) = (outs, s', th')"
    by (cases "peer_step shift_env 1 (KeyMsg (key_press (Chr 38) [] 1)) (input_control True, idle_thread)") auto
  have "code_key shift_env 38 \<notin> held (kbd (fst (inp th'))) \<and>
      RdevKey 38 \<notin> fst ` set (keys_down (fst (inp th')))"
    by (rule plain_key_released [OF _ _ _ _ _ _ step])
      (simp_all add: input_control_may key_press_def shift_env_def key_is_modifier_def idle_thread_def idle_input_def)
  moreover have "code_key shift_env 38 = KRaw 38" by (simp add: shift_env_def)
  ultimately show ?thesis unfolding step by simp
qed

theorem modifiers_outlive_session_witness:
  "case peer_step shift_env 1 (KeyMsg (key_press (Chr 50) [] 1)) (input_control True, idle_thread) of
     (outs, s', th') \<Rightarrow> KShift \<in> held (release_pressed_modifiers [KShift] s' (kbd (fst (inp th'))))"
proof -
  obtain outs s' th' where
    step: "peer_step shift_env 1 (KeyMsg (key_press (Chr 50) [] 1)) (input_control True, idle_thread) = (outs, s', th')"
    by (cases "peer_step shift_env 1 (KeyMsg (key_press (Chr 50) [] 1)) (input_control True, idle_thread)") auto
  have "release_pressed_modifiers [KShift] s' (kbd (fst (inp th'))) = kbd (fst (inp th')) \<and>
      code_key shift_env 50 \<in> held (kbd (fst (inp th')))"
    by (rule modifiers_outlive_session [where ms = "[]" and s = "input_control True" and th = idle_thread, OF _ _ _ _ _ _ _ _ _ step])
      (simp_all add: input_control_may key_press_def shift_env_def key_is_modifier_def idle_thread_def idle_input_def,
       simp_all add: input_control_def)
  moreover have "code_key shift_env 50 = KShift" by (simp add: shift_env_def)
  ultimately show ?thesis unfolding step by simp
qed

end
