(* ===== verification/Addresses.thy ===== *)
theory Addresses
  imports Prelude "HOL-Library.Char_ord"
begin

text \<open>
  Two helpers of \<^verbatim>\<open>libs/hbb_common/src/lib.rs\<close>: the mangled form in which a socket address passes routers that rewrite
  addresses (\<open>AddrMangle\<close>), and version numbers, with the features that \<^verbatim>\<open>src/common.rs\<close>, \<^verbatim>\<open>src/clipboard.rs\<close> and
  \<^verbatim>\<open>fs.rs\<close> grant to a version.  Numbers are kept at the width of the code: \<open>u128\<close>, \<open>u32\<close>, \<open>u16\<close>, and \<open>i64\<close> for
  versions.  Subtraction and multiplication wrap, as they do in a release build.
\<close>

subsection \<open>Mangled addresses\<close>

text \<open>The octets of the address and the port; the scope of an IPv6 address is not kept.\<close>

datatype socket_addr = V4 bytes u16 | V6 bytes u16

fun addr_ok :: "socket_addr \<Rightarrow> bool" where
  "addr_ok (V4 ip p) = (length ip = 4)"
| "addr_ok (V6 ip p) = (length ip = 16)"

definition is_loopback_v6 :: "bytes \<Rightarrow> bool" where
  "is_loopback_v6 ip = (ip = replicate 15 0 @ [1])"

definition to_ipv4 :: "bytes \<Rightarrow> bytes option" where
  "to_ipv4 ip =
     (if take 10 ip = replicate 10 0 \<and> (take 2 (drop 10 ip) = [0, 0] \<or> take 2 (drop 10 ip) = [255, 255])
      then Some (drop 12 ip) else None)"

fun try_into_v4 :: "socket_addr \<Rightarrow> socket_addr" where
  "try_into_v4 (V4 ip p) = V4 ip p"
| "try_into_v4 (V6 ip p) =
     (if is_loopback_v6 ip then V6 ip p
      else (case to_ipv4 ip of Some v4 \<Rightarrow> V4 v4 p | None \<Rightarrow> V6 ip p))"

fun of_le_bytes :: "bytes \<Rightarrow> 'a::len word" where
  "of_le_bytes [] = 0"
| "of_le_bytes (b # bs) = ucast b OR push_bit 8 (of_le_bytes bs)"

type_synonym u128 = "128 word"

definition mangle :: "u32 \<Rightarrow> u32 \<Rightarrow> u16 \<Rightarrow> u128" where
  "mangle now ip port =
     (let tm = ucast now
      in push_bit 49 (ucast ip + tm) OR push_bit 17 tm OR (ucast port + (tm AND 0xFFFF)))"

definition addr_encode :: "u32 \<Rightarrow> socket_addr \<Rightarrow> bytes" where
  "addr_encode now addr =
     (case try_into_v4 addr of
        V4 ip port \<Rightarrow>
          (let bs = le_bytes 16 (mangle now (of_le_bytes ip) port);
               n_padding = length (takeWhile (\<lambda>i. i = 0) (rev bs))
           in take (16 - n_padding) bs)
      | V6 ip port \<Rightarrow> ip @ le_bytes 2 port)"

definition unmangle :: "u128 \<Rightarrow> u32 \<times> u16" where
  "unmangle number =
     (let tm = drop_bit 17 number AND 0xFFFFFFFF
      in (ucast (drop_bit 49 number - tm), ucast ((number AND 0xFFFFFF) - (tm AND 0xFFFF))))"

definition addr_decode :: "bytes \<Rightarrow> socket_addr" where
  "addr_decode bs =
     (if 16 < length bs then
        (if length bs \<noteq> 18 then V6 (replicate 16 0) 0
         else V6 (take 16 bs) (of_le_bytes (drop 16 bs)))
      else
        (let padded = bs @ replicate (16 - length bs) 0; (ip, port) = unmangle (of_le_bytes padded)
         in V4 (le_bytes 4 ip) port))"

lemma bit_of_le_bytes:
  "bit (of_le_bytes bs :: 'a::len word) i \<longleftrightarrow>
     i < LENGTH('a) \<and> i div 8 < length bs \<and> bit (bs ! (i div 8)) (i mod 8)"
proof (induction bs arbitrary: i)
  case (Cons b bs)
  show ?case
  proof (cases "i < 8")
    case True
    then show ?thesis by (auto simp: bits)
  next
    case False
    then have "i div 8 = Suc ((i - 8) div 8)" "i mod 8 = (i - 8) mod 8"
      by (simp_all add: le_div_geq le_mod_geq)
    moreover have "\<not> bit b i" using False bit_imp_le_length [of b i] by auto
    ultimately show ?thesis using False Cons.IH [of "i - 8"] by (auto simp: bits)
  qed
qed simp

lemma of_le_bytes_le_bytes:
  fixes v :: "'a::len word"
  assumes "LENGTH('a) \<le> 8 * n" shows "of_le_bytes (le_bytes n v) = v"
proof (rule bit_word_eqI)
  fix i assume "i < LENGTH('a)"
  moreover from this assms have "i div 8 < n" by auto
  ultimately show "bit (of_le_bytes (le_bytes n v) :: 'a word) i = bit v i"
    by (simp add: bit_of_le_bytes bits)
qed

lemma le_bytes_of_le_bytes:
  assumes "length bs = n" and "8 * n \<le> LENGTH('a::len)"
  shows "le_bytes n (of_le_bytes bs :: 'a word) = bs"
proof (rule nth_equalityI)
  fix q assume "q < length (le_bytes n (of_le_bytes bs :: 'a word))"
  then have q: "q < n" by simp
  show "le_bytes n (of_le_bytes bs :: 'a word) ! q = bs ! q"
  proof (rule bit_word_eqI)
    fix r :: nat assume "r < LENGTH(8)"
    moreover from this q assms have "8 * q + r < LENGTH('a)" by auto
    ultimately show "bit (le_bytes n (of_le_bytes bs :: 'a word) ! q) r = bit (bs ! q) r"
      using q assms(1) by (simp add: bits bit_of_le_bytes)
  qed
qed (use assms in simp)

lemma ffff_mask: "(0xFFFF :: u128) = mask 16" "(0xFFFFFFFF :: u128) = mask 32" "(0xFFFFFF :: u128) = mask 24"
  by (simp_all add: mask_eq_exp_minus_1)

lemma unat_ucast_up: "unat (ucast (w :: 'a::len word) :: u128) < 2 ^ LENGTH('a)"
proof -
  have "unat (ucast w :: u128) \<le> unat w"
    by (simp add: unsigned_ucast_eq)
  then show ?thesis using unsigned_less [of w, where 'a = nat] by linarith
qed

lemma ucast_back: "(ucast (ucast (p :: u16) :: u128) :: u16) = p" "(ucast (ucast (ip :: u32) :: u128) :: u32) = ip"
  by (rule bit_word_eqI; simp add: bits)+

lemma ucast_push_17: "(ucast (x + push_bit 17 y :: u128) :: u16) = ucast x"
proof (transfer, goal_cases)
  case (1 x y)
  have "(x + y * 2 ^ 17) mod 2 ^ 16 = x mod (2 ^ 16 :: int)"
    using mod_mult_self1 [of x "2 * y" "2 ^ 16"] by (simp add: algebra_simps)
  then have "take_bit 16 (x + push_bit 17 y) = take_bit 16 x"
    by (simp add: take_bit_eq_mod push_bit_eq_mult)
  moreover have "take_bit 16 (x + take_bit 128 (push_bit 17 y)) = take_bit 16 (x + push_bit 17 y)"
    by (metis (no_types) take_bit_add take_bit_take_bit min.absorb1 numeral_le_iff semiring_norm(68,71,72,76,77))
  ultimately show ?case
    by (simp only: take_bit_take_bit len_num1 len_bit0 len_bit1) (simp add: min_def)
qed

text \<open>The three parts of a mangled number do not overlap.\<close>

lemma unmangle_mangle: "unmangle (mangle now ip port) = (ip, port)"
proof -
  define tm :: u128 where "tm = ucast now"
  define low :: u128 where "low = ucast port + (tm AND 0xFFFF)"
  define high :: u128 where "high = ucast ip + tm"
  have tm32: "i < 32" if "bit tm i" for i
    using that bit_imp_le_length [of now i] by (simp add: tm_def bits)
  have tm_less: "unat tm < 2 ^ 32" using unat_ucast_up [of now] by (simp add: tm_def)
  have "unat low < 2 ^ 17"
  proof -
    have "unat (ucast port :: u128) < 2 ^ 16" using unat_ucast_up [of port] by simp
    moreover have "unat (tm AND 0xFFFF) < 2 ^ 16"
      using and_mask_less' [of 16 tm] by (simp add: ffff_mask word_less_nat_alt)
    ultimately show ?thesis by (simp add: low_def unat_word_ariths)
  qed
  then have low17: "i < 17" if "bit low i" for i
    using that word_less_bitD [of low 17 i] by (simp add: word_less_nat_alt)
  have "unat high < 2 ^ 33"
  proof -
    have "unat (ucast ip :: u128) < 2 ^ 32" using unat_ucast_up [of ip] by simp
    with tm_less show ?thesis by (simp add: high_def unat_word_ariths)
  qed
  then have high33: "i < 33" if "bit high i" for i
    using that word_less_bitD [of high 33 i] by (simp add: word_less_nat_alt)
  define v where "v = push_bit 49 high OR push_bit 17 tm OR low"
  have v: "mangle now ip port = v" by (simp add: mangle_def v_def high_def low_def tm_def Let_def)
  have tm: "drop_bit 17 v AND 0xFFFFFFFF = tm"
    by (rule bit_word_eqI) (auto simp: ffff_mask v_def bits bit_mask_iff dest: tm32 low17)
  have high: "drop_bit 49 v = high"
    by (rule bit_word_eqI) (auto simp: v_def bits dest: tm32 low17 high33)
  have "v AND 0xFFFFFF = low OR push_bit 17 (take_bit 7 tm)"
    by (rule bit_word_eqI) (auto simp: ffff_mask v_def bits bit_mask_iff dest: low17)
  also have "\<dots> = low + push_bit 17 (take_bit 7 tm)"
    by (rule disjunctive_add [symmetric]) (auto simp: bits dest: low17)
  finally have "(v AND 0xFFFFFF) - (tm AND 0xFFFF) = ucast port + push_bit 17 (take_bit 7 tm)"
    by (simp add: low_def)
  then have "ucast ((v AND 0xFFFFFF) - (tm AND 0xFFFF)) = port"
    by (simp only: ucast_push_17 ucast_back)
  moreover have "ucast (high - tm) = ip" by (simp add: high_def ucast_back)
  ultimately show ?thesis by (simp add: unmangle_def v tm high Let_def)
qed

lemma pad_trimmed:
  assumes "length bs = 16"
  defines "k \<equiv> length (takeWhile (\<lambda>i. i = 0) (rev bs))"
  shows "take (16 - k) bs @ replicate (16 - length (take (16 - k) bs)) (0 :: u8) = bs"
proof -
  have k: "k \<le> 16" using length_takeWhile_le [of "\<lambda>i. i = 0" "rev bs"] assms by (simp add: k_def)
  have zeros: "takeWhile (\<lambda>i. i = 0) (rev bs) = replicate k 0"
    unfolding k_def by (metis (mono_tags, lifting) replicate_length_same set_takeWhileD)
  have "rev bs = takeWhile (\<lambda>i. i = 0) (rev bs) @ drop k (rev bs)"
    unfolding k_def by (metis dropWhile_eq_drop takeWhile_dropWhile_id)
  then have "rev bs = replicate k 0 @ drop k (rev bs)" using zeros by simp
  then have "bs = rev (replicate k 0 @ drop k (rev bs))" by (metis rev_rev_ident)
  then have "bs = take (16 - k) bs @ replicate k 0" using assms(1) by (simp add: rev_drop)
  moreover have "length (take (16 - k) bs) = 16 - k" using assms(1) by simp
  ultimately show ?thesis using k by simp
qed

lemma addr_decode_short:
  assumes "length x \<le> 16" and "x @ replicate (16 - length x) 0 = bs"
  shows "addr_decode x = (let (ip, port) = unmangle (of_le_bytes bs) in V4 (le_bytes 4 ip) port)"
  using assms by (simp add: addr_decode_def)

lemma try_into_v4_ok: "addr_ok a \<Longrightarrow> addr_ok (try_into_v4 a)"
  by (cases a) (auto simp: to_ipv4_def split: option.splits)

lemma encode_v4_length: "length (addr_encode now (V4 ip p)) \<le> 16"
  by (simp add: addr_encode_def Let_def)

text \<open>
  Mangling loses no address.  At whatever instant an address of IPv4 or IPv6 is encoded, decoding gives the
  address back, an IPv4 address in the clothes of IPv6 as its IPv4 address; encoding and decoding once more changes nothing.  No
  part of the instant, which is added to the address and to the port, gets into another part.
\<close>

theorem mangle_roundtrip:
  assumes "addr_ok a"
  shows "addr_decode (addr_encode now a) = try_into_v4 a \<and>
    addr_decode (addr_encode now' (try_into_v4 a)) = try_into_v4 a"
proof -
  have direct: "addr_decode (addr_encode now b) = b" if b: "addr_ok b" "try_into_v4 b = b" for now b
  proof (cases b)
    case (V4 ip p)
    define bs where "bs = le_bytes 16 (mangle now (of_le_bytes ip) p)"
    define k where "k = length (takeWhile (\<lambda>i. i = 0) (rev bs))"
    have enc: "addr_encode now b = take (16 - k) bs"
      by (simp add: addr_encode_def V4 bs_def k_def Let_def)
    have "length (take (16 - k) bs) \<le> 16" by simp
    then have "addr_decode (take (16 - k) bs) =
        (let (ip', p') = unmangle (of_le_bytes bs) in V4 (le_bytes 4 ip') p')"
      using addr_decode_short pad_trimmed [of bs] unfolding k_def bs_def by simp
    also have "of_le_bytes bs = mangle now (of_le_bytes ip) p"
      unfolding bs_def by (rule of_le_bytes_le_bytes) simp
    finally show ?thesis using b(1) V4
      by (simp add: enc [unfolded V4] unmangle_mangle le_bytes_of_le_bytes)
  next
    case (V6 ip p)
    with b show ?thesis by (simp add: addr_encode_def addr_decode_def of_le_bytes_le_bytes)
  qed
  have idem: "try_into_v4 (try_into_v4 a) = try_into_v4 a"
    by (cases a) (auto split: option.splits)
  have "addr_encode now a = addr_encode now (try_into_v4 a)" by (simp add: addr_encode_def idem)
  with direct [OF try_into_v4_ok [OF assms] idem] show ?thesis by simp
qed

lemma mapped_example:
  "try_into_v4 (V6 [0, 0, 0, 0, 0, 0, 0, 0, 0, 0, 255, 255, 192, 168, 16, 32] 21116) = V4 [192, 168, 16, 32] 21116"
  by code_simp

theorem mangle_roundtrip_witness:
  "addr_decode (addr_encode 4294967295 (V6 [0, 0, 0, 0, 0, 0, 0, 0, 0, 0, 255, 255, 192, 168, 16, 32] 21116)) =
     V4 [192, 168, 16, 32] 21116"
  using mangle_roundtrip [of "V6 [0, 0, 0, 0, 0, 0, 0, 0, 0, 0, 255, 255, 192, 168, 16, 32] 21116" 4294967295 0]
  unfolding mapped_example by simp

subsection \<open>Version numbers\<close>

text \<open>Arithmetic of an \<open>i64\<close>.\<close>

definition i64 :: "int \<Rightarrow> int" where "i64 x = (x + 2 ^ 63) mod 2 ^ 64 - 2 ^ 63"

definition digit :: "char \<Rightarrow> nat option" where
  "digit c = (if CHR ''0'' \<le> c \<and> c \<le> CHR ''9'' then Some (of_char c - of_char (CHR ''0'')) else None)"

fun digits_value :: "nat \<Rightarrow> string \<Rightarrow> nat option" where
  "digits_value n [] = Some n"
| "digits_value n (c # cs) = (case digit c of Some d \<Rightarrow> digits_value (10 * n + d) cs | None \<Rightarrow> None)"

text \<open>\<^verbatim>\<open>parse::<i64>\<close>: a sign or none, then at least one digit; a number that does not fit is an error.\<close>

definition parse_i64 :: "string \<Rightarrow> int option" where
  "parse_i64 s =
     (let (neg, ds) = (case s of
          c # cs \<Rightarrow> if c = CHR ''-'' then (True, cs) else if c = CHR ''+'' then (False, cs) else (False, s)
        | [] \<Rightarrow> (False, s))
      in if ds = [] then None
         else (case digits_value 0 ds of
             None \<Rightarrow> None
           | Some n \<Rightarrow>
               if neg then (if int n \<le> 2 ^ 63 then Some (- int n) else None)
               else (if int n < 2 ^ 63 then Some (int n) else None)))"

definition get_version_number :: "string \<Rightarrow> int" where
  "get_version_number v =
     fold (\<lambda>x n. i64 (i64 (n * 1000) + (case parse_i64 x of Some k \<Rightarrow> k | None \<Rightarrow> 0))) (split_char CHR ''.'' v) 0"

lemma version_examples:
  "get_version_number ''1.2.0'' = 1002000" "get_version_number ''1.1.10'' = 1001010"
  "get_version_number ''1.1.10-1'' = 1001000" "get_version_number ''1.41.5'' = 1041005"
  by code_simp+

fun version_string :: "nat list \<Rightarrow> string" where
  "version_string [] = []"
| "version_string [c] = decimal c"
| "version_string (c # cs) = decimal c @ CHR ''.'' # version_string cs"

lemma digit_nth: "d < 10 \<Longrightarrow> digit (''0123456789'' ! d) = Some d"
proof -
  have "\<forall>d < 10. digit (''0123456789'' ! d) = Some d" by code_simp
  then show "d < 10 \<Longrightarrow> digit (''0123456789'' ! d) = Some d" by simp
qed

lemma digits_value_append:
  "digits_value n (a @ b) = (case digits_value n a of Some m \<Rightarrow> digits_value m b | None \<Rightarrow> None)"
  by (induction a arbitrary: n) (auto split: option.split)

lemma digits_value_decimal: "digits_value 0 (decimal n) = Some n"
proof (induction n rule: decimal.induct)
  case (1 n)
  then show ?case
    by (subst decimal.simps) (auto simp: digits_value_append digit_nth)
qed

lemma decimal_digits: "c \<in> set (decimal n) \<Longrightarrow> digit c \<noteq> None"
proof (induction n rule: decimal.induct)
  case (1 n)
  then show ?case by (subst (asm) (2) decimal.simps) (auto simp: digit_nth split: if_splits)
qed

lemma decimal_nonempty: "decimal n \<noteq> []"
  by (subst decimal.simps) simp

lemma no_digit: "digit (CHR ''.'') = None" "digit (CHR ''-'') = None" "digit (CHR ''+'') = None"
  by code_simp+

lemma parse_decimal: "int n < 2 ^ 63 \<Longrightarrow> parse_i64 (decimal n) = Some (int n)"
  using decimal_digits [of "hd (decimal n)" n] decimal_nonempty [of n] digits_value_decimal [of n]
  by (cases "decimal n") (auto simp: parse_i64_def no_digit)

lemma no_dot: "CHR ''.'' \<notin> set (decimal c)"
  using decimal_digits [of "CHR ''.''" c] no_digit(1) by blast

lemma split_version: "cs \<noteq> [] \<Longrightarrow> split_char CHR ''.'' (version_string cs) = map decimal cs"
proof (induction cs rule: version_string.induct)
  case (2 c)
  then show ?case by (simp add: split_char_plain no_dot)
next
  case (3 c d ds)
  then show ?case by (simp add: split_char_at no_dot)
qed simp

definition version_value :: "nat list \<Rightarrow> nat" where "version_value cs = foldl (\<lambda>n c. n * 1000 + c) 0 cs"

lemma version_value_snoc: "version_value (cs @ [c]) = version_value cs * 1000 + c"
  by (simp add: version_value_def)

lemma version_value_less:
  assumes "\<forall>c \<in> set cs. c < 1000" shows "version_value cs < 1000 ^ length cs"
  using assms
proof (induction cs rule: rev_induct)
  case (snoc c cs)
  then have "version_value cs + 1 \<le> 1000 ^ length cs" "c < 1000" by auto
  then have "version_value cs * 1000 + c < (version_value cs + 1) * 1000" by simp
  also have "\<dots> \<le> 1000 ^ length cs * 1000" using \<open>version_value cs + 1 \<le> _\<close> by (intro mult_right_mono) auto
  finally show ?case by (simp add: version_value_snoc)
qed (simp add: version_value_def)

lemma i64_small: "- (2 ^ 63) \<le> x \<Longrightarrow> x < 2 ^ 63 \<Longrightarrow> i64 x = x"
  by (simp add: i64_def)

lemma version_value_i64:
  assumes "\<forall>c \<in> set cs. c < 1000" "length cs \<le> 6"
  shows "fold (\<lambda>x n. i64 (i64 (n * 1000) + (case parse_i64 x of Some k \<Rightarrow> k | None \<Rightarrow> 0))) (map decimal cs) 0
    = int (version_value cs)"
  using assms
proof (induction cs rule: rev_induct)
  case (snoc c cs)
  then have c: "c < 1000" and bound: "version_value cs * 1000 + c < 1000 ^ Suc (length cs)"
    using version_value_less [of "cs @ [c]"] by (auto simp: version_value_snoc)
  have "(1000 :: nat) ^ Suc (length cs) \<le> 1000 ^ 6" using snoc.prems by (intro power_increasing) auto
  with bound have "version_value cs * 1000 + c < 2 ^ 63" by simp
  with snoc c show ?case by (simp add: parse_decimal i64_small version_value_snoc)
qed (simp add: version_value_def)

lemma get_version_number_value:
  assumes "cs \<noteq> []" "\<forall>c \<in> set cs. c < 1000" "length cs \<le> 6"
  shows "get_version_number (version_string cs) = int (version_value cs)"
  unfolding get_version_number_def split_version [OF assms(1)] using assms(2,3) by (rule version_value_i64)

lemma version_value_Cons: "version_value (c # cs) = c * 1000 ^ length cs + version_value cs"
proof -
  have "foldl (\<lambda>n c. n * 1000 + c) k cs = k * 1000 ^ length cs + foldl (\<lambda>n c. n * 1000 + c) 0 cs" for k :: nat
  proof (induction cs arbitrary: k)
    case (Cons d ds)
    have "foldl (\<lambda>n c. n * 1000 + c) k (d # ds) =
        (k * 1000 + d) * 1000 ^ length ds + foldl (\<lambda>n c. n * 1000 + c) 0 ds"
      by (simp only: foldl_Cons) (rule Cons)
    also have "\<dots> = k * 1000 ^ length (d # ds) + (d * 1000 ^ length ds + foldl (\<lambda>n c. n * 1000 + c) 0 ds)"
      by (simp only: add_mult_distrib mult.assoc power_Suc list.size add.assoc add_0_right add_Suc_right)
    also have "d * 1000 ^ length ds + foldl (\<lambda>n c. n * 1000 + c) 0 ds = foldl (\<lambda>n c. n * 1000 + c) 0 (d # ds)"
      by (simp only: foldl_Cons mult_zero_left add_0_left) (rule Cons [symmetric])
    finally show ?case .
  qed simp
  from this [of c] show ?thesis by (simp only: version_value_def foldl_Cons mult_zero_left add_0_left)
qed

lemma version_value_lex:
  assumes "length xs = length ys" "\<forall>c \<in> set xs \<union> set ys. c < 1000"
  shows "version_value xs < version_value ys \<longleftrightarrow> (xs, ys) \<in> lexord {(a, b). a < b}"
  using assms
proof (induction xs ys rule: list_induct2)
  case (Cons x xs y ys)
  define p where "p = (1000 :: nat) ^ length xs"
  have less: "version_value xs < p" "version_value ys < p"
    using Cons version_value_less [of xs] version_value_less [of ys] by (simp_all add: p_def)
  have step: "a * p + v < b * p + w" if "a < b" "v < p" for a b v w :: nat
  proof -
    have "a * p + v < (a + 1) * p" using that by simp
    also have "\<dots> \<le> b * p" using that by (intro mult_right_mono) auto
    finally show ?thesis by simp
  qed
  have ih: "version_value xs < version_value ys \<longleftrightarrow> (xs, ys) \<in> lexord {(a, b). a < b}" using Cons by simp
  have eq: "version_value (x # xs) = x * p + version_value xs" "version_value (y # ys) = y * p + version_value ys"
    using Cons.hyps by (simp_all add: version_value_Cons p_def)
  show ?case
  proof (cases x y rule: linorder_cases)
    case less
    with step [OF this \<open>version_value xs < p\<close>, of "version_value ys"] show ?thesis by (simp add: eq)
  next
    case equal
    with ih show ?thesis unfolding eq by simp
  next
    case greater
    with step [OF this \<open>version_value ys < p\<close>, of "version_value xs"] show ?thesis by (simp add: eq)
  qed
qed simp

text \<open>
  Versions compare component by component: of two versions with the same number of components, at most six of
  at most three digits each, the number of one is below the number of the other exactly when the first component in which
  they differ is.
\<close>

theorem version_order:
  assumes "length xs = length ys" and "xs \<noteq> []" "length xs \<le> 6" and "\<forall>c \<in> set xs \<union> set ys. c < 1000"
  shows "get_version_number (version_string xs) < get_version_number (version_string ys) \<longleftrightarrow>
    (xs, ys) \<in> lexord {(a, b). a < b}"
proof -
  from assms(1,2) have "ys \<noteq> []" by auto
  with assms show ?thesis by (simp add: get_version_number_value version_value_lex)
qed

theorem version_order_witness:
  "get_version_number (version_string [1, 9, 3]) < get_version_number (version_string [1, 40, 0])"
  using version_order [of "[1, 9, 3]" "[1, 40, 0]"] by simp

lemma split_version_suffix:
  assumes "CHR ''.'' \<notin> set suffix"
  shows "split_char CHR ''.'' (version_string (cs @ [c]) @ suffix) = map decimal cs @ [decimal c @ suffix]"
proof (induction cs)
  case Nil
  show ?case using assms by (simp add: split_char_plain no_dot)
next
  case (Cons d cs)
  then show ?case by (cases cs) (simp_all add: split_char_at no_dot)
qed

lemma parse_suffix: "parse_i64 (decimal c @ CHR ''-'' # s) = None"
  using decimal_digits [of "hd (decimal c)" c] decimal_nonempty [of c]
  by (cases "decimal c") (auto simp: parse_i64_def no_digit digits_value_append split: option.split)

text \<open>
  What follows a hyphen takes the last component with it.  A version with a suffix, as \<^verbatim>\<open>1.1.10-1\<close>, has the
  number of the version whose last component is zero; the test \<^verbatim>\<open>test_get_version_number\<close> expects it above \<^verbatim>\<open>1.1.10\<close>.
\<close>

theorem version_suffix_dropped:
  "get_version_number (version_string (cs @ [c]) @ ''-'' @ decimal d) = get_version_number (version_string (cs @ [0]))"
proof -
  have "split_char CHR ''.'' (version_string (cs @ [c]) @ ''-'' @ decimal d) = map decimal cs @ [decimal c @ CHR ''-'' # decimal d]"
    using no_dot [of d] by (subst split_version_suffix) auto
  moreover have "parse_i64 (decimal 0) = Some 0" by (simp add: parse_decimal)
  ultimately show ?thesis
    by (simp add: get_version_number_def parse_suffix split_version)
qed

subsection \<open>Features of a version\<close>

definition is_support_multi_ui_session_num :: "int \<Rightarrow> bool" where
  "is_support_multi_ui_session_num ver = (get_version_number ''1.41.5'' \<le> ver)"

definition is_support_multi_ui_session :: "string \<Rightarrow> bool" where
  "is_support_multi_ui_session ver = is_support_multi_ui_session_num (get_version_number ver)"

definition is_support_file_copy_paste_num :: "int \<Rightarrow> bool" where
  "is_support_file_copy_paste_num ver = (get_version_number ''1.3.8'' \<le> ver)"

definition is_support_file_copy_paste :: "string \<Rightarrow> bool" where
  "is_support_file_copy_paste ver = is_support_file_copy_paste_num (get_version_number ver)"

definition is_support_file_paste_if_macos :: "string \<Rightarrow> bool" where
  "is_support_file_paste_if_macos ver = (get_version_number ''1.3.9'' \<le> get_version_number ver)"

definition is_support_screenshot :: "string \<Rightarrow> bool" where
  "is_support_screenshot ver = is_support_multi_ui_session_num (get_version_number ver)"

definition is_support_screenshot_num :: "int \<Rightarrow> bool" where
  "is_support_screenshot_num ver = (get_version_number ''1.44.2'' \<le> ver)"

definition is_support_file_transfer_resume_num :: "int \<Rightarrow> bool" where
  "is_support_file_transfer_resume_num ver = (get_version_number ''1.4.2'' \<le> ver)"

definition is_support_file_transfer_resume :: "string \<Rightarrow> bool" where
  "is_support_file_transfer_resume ver = is_support_file_transfer_resume_num (get_version_number ver)"

definition is_support_switchsides_num :: "int \<Rightarrow> bool" where
  "is_support_switchsides_num ver = (get_version_number ''1.44.2'' \<le> ver)"

definition can_enable_overwrite_detection :: "int \<Rightarrow> bool" where
  "can_enable_overwrite_detection version = (get_version_number ''1.40.4'' \<le> version)"

text \<open>The names of the platforms that the \<^verbatim>\<open>whoami\<close> crate gives are an argument.\<close>

definition is_support_multi_clipboard :: "string \<Rightarrow> string \<Rightarrow> string \<Rightarrow> bool" where
  "is_support_multi_clipboard ios peer_version peer_platform =
     (if get_version_number peer_version < get_version_number ''1.3.0'' then False
      else if peer_platform = [] \<or> peer_platform = ios then False
      else \<not> (peer_platform = ''Android'' \<and> get_version_number peer_version < get_version_number ''1.3.3''))"

datatype keyboard_mode = Legacy | Map | Translate | Auto

definition is_keyboard_mode_supported :: "(string \<Rightarrow> string) \<Rightarrow> keyboard_mode \<Rightarrow> int \<Rightarrow> string \<Rightarrow> bool" where
  "is_keyboard_mode_supported to_lowercase mode version platform =
     (case mode of
        Legacy \<Rightarrow> True
      | Map \<Rightarrow> to_lowercase platform \<noteq> to_lowercase ''Android'' \<and> get_version_number ''1.2.0'' \<le> version
      | _ \<Rightarrow> get_version_number ''1.2.0'' \<le> version)"

definition get_supported_keyboard_modes :: "(string \<Rightarrow> string) \<Rightarrow> int \<Rightarrow> string \<Rightarrow> keyboard_mode list" where
  "get_supported_keyboard_modes to_lowercase version platform =
     filter (\<lambda>mode. is_keyboard_mode_supported to_lowercase mode version platform) [Legacy, Map, Translate, Auto]"

text \<open>Two predicates of one name disagree: a peer of version 1.43.0 can take screenshots for the one only.\<close>

lemma screenshot_gates_disagree:
  "is_support_screenshot ''1.43.0'' \<and> \<not> is_support_screenshot_num (get_version_number ''1.43.0'')"
  by code_simp

end
