(* ===== verification/Rendezvous.thy ===== *)
theory Rendezvous
  imports Prelude
begin

text \<open>
  The controlled side's session with the signal server, \<^verbatim>\<open>src/rendezvous_mediator.rs\<close>, with the choice of the server
  in \<^verbatim>\<open>libs/hbb_common/src/config.rs\<close> and \<^verbatim>\<open>src/rendezvous_ws.rs\<close>.

  A session is a state machine over the ticks of its timer and the packets of the web socket: \<open>tick\<close> and
  \<open>packet\<close> are the two branches of its \<^verbatim>\<open>select!\<close>.  After a relay was offered the loop waits for the
  next packet alone, so that wait is a mode of the state, in which a tick does nothing.  Instants of both clocks, the
  monotonic one and the wall clock, are in milliseconds.  What the session starts (accepting a connection,
  joining a relay, closing sessions) is a list of outputs.  JSON and socket addresses are read by libraries: a text
  goes to its fields, if it is an object, by the function \<open>json_fields\<close>, and an address is read by
  \<open>read_addr\<close>.
\<close>

subsection \<open>Messages\<close>

text \<open>A value of a field: a string that needs no unescaping, so that it can be borrowed, or anything else.\<close>

datatype json = JString string | JOther

type_synonym json_reader = "string \<Rightarrow> (string \<rightharpoonup> json) option"

definition str_field :: "(string \<rightharpoonup> json) \<Rightarrow> string \<Rightarrow> string option" where
  "str_field m k = (case m k of Some (JString s) \<Rightarrow> Some s | _ \<Rightarrow> None)"

definition str_fields :: "json_reader \<Rightarrow> string list \<Rightarrow> string \<Rightarrow> string list option" where
  "str_fields read_json ks msg =
     (case read_json msg of
        None \<Rightarrow> None
      | Some m \<Rightarrow>
          if \<forall>k \<in> set ks. str_field m k \<noteq> None then Some (map (\<lambda>k. the (str_field m k)) ks) else None)"

definition read_close_sessions :: "json_reader \<Rightarrow> string \<Rightarrow> string option" where
  "read_close_sessions read_json msg =
     map_option (\<lambda>vs. vs ! 2) (str_fields read_json [''protocol'', ''endpoint'', ''data'', ''sender_id''] msg)"

definition read_connect_request :: "json_reader \<Rightarrow> string \<Rightarrow> string option" where
  "read_connect_request read_json msg =
     map_option (\<lambda>vs. vs ! 2) (str_fields read_json [''protocol'', ''endpoint'', ''sender_id''] msg)"

definition read_relay_connection :: "json_reader \<Rightarrow> (string \<Rightarrow> 'a option) \<Rightarrow> string \<Rightarrow> 'a option" where
  "read_relay_connection read_json read_addr msg =
     Option.bind (str_fields read_json [''protocol'', ''endpoint'', ''addr''] msg) (\<lambda>vs. read_addr (vs ! 2))"

definition is_relay_ready :: "json_reader \<Rightarrow> string \<Rightarrow> bool" where
  "is_relay_ready read_json msg = (str_fields read_json [''protocol'', ''endpoint''] msg \<noteq> None)"

definition HEALTHCHECK :: string where
  "HEALTHCHECK = ''{\"protocol\":\"one-to-self\",\"data\":\"healthcheck\"}''"

definition HEALTHCHECK_ERROR :: string where "HEALTHCHECK_ERROR = ''You are removed''"

subsection \<open>The session\<close>

datatype 'a session_mode = Selecting | AwaitRelay 'a

record 'a signal =
  mode :: "'a session_mode"
  last_timer :: int
  last_log :: int
  last_healthcheck_sent :: "int option"
  last_data_received :: int
  connected_lan_ip :: "string option"

datatype 'a action =
    SendHealthcheck | SendListening string 'a | Accept 'a | CloseRemote string | CloseIncoming string
  | JoinRelay 'a | TeamCheck

datatype 'a result = Running "'a signal" | Stopped string | Failed string

text \<open>What a tick finds: both clocks, the request to exit, the address in the LAN, and whether sending works.\<close>

record tick_env =
  now :: int
  now_utc :: int
  should_exit :: bool
  lan_ip :: "string option"
  send_ok :: bool

definition is_unspecified :: "string \<Rightarrow> bool" where "is_unspecified ip = (ip = ''0.0.0.0'')"

definition tick :: "tick_env \<Rightarrow> 'a signal \<Rightarrow> 'a result \<times> 'a action list" where
  "tick e s =
     (if should_exit e then (Stopped ''should exit'', [])
      else
        (let elapsed = now e - last_timer s
         in if elapsed < 1000 then (Running s, [])
            else
              (let s1 = s\<lparr>last_timer := now e\<rparr>
               in if 30000 < elapsed then (Stopped ''sleep'', [])
                  else if (case (connected_lan_ip s, lan_ip e) of
                             (Some prev, Some cur) \<Rightarrow> cur \<noteq> prev \<and> \<not> is_unspecified cur | _ \<Rightarrow> False)
                  then (Stopped ''local IP changed'', [])
                  else if (case last_healthcheck_sent s of Some t \<Rightarrow> 30000 < now_utc e - t | None \<Rightarrow> False)
                  then (Stopped ''server is unresponding'', [])
                  else
                    (let check = (last_healthcheck_sent s = None \<and> 90000 < now_utc e - last_data_received s)
                     in if check \<and> \<not> send_ok e then (Stopped ''send error'', [])
                        else
                          (let s2 = (if check then s1\<lparr>last_healthcheck_sent := Some (now_utc e)\<rparr> else s1);
                               log = (90000 \<le> now e - last_log s)
                           in (Running (if log then s2\<lparr>last_log := now e\<rparr> else s2),
                               (if check then [SendHealthcheck] else []) @ (if log then [TeamCheck] else [])))))))"

text \<open>A packet of the web socket: a text, another message, or an error.\<close>

datatype packet = PText string | PBinary | PError

text \<open>
  What a packet meets: the wall clock, the listener that can be opened for a request and the second one
  in IPv4 that an address of IPv6 asks for, whether sending works and whether the relay can be reached.
\<close>

record 'a packet_env =
  at_utc :: int
  json_fields :: json_reader
  read_addr :: "string \<Rightarrow> 'a option"
  new_listener :: "'a option"
  lan_ipv4 :: "'a option"
  addr_is_ipv6 :: "'a \<Rightarrow> bool"
  ipv4_listener_ok :: bool
  ws_send_ok :: bool
  relay_ok :: "'a \<Rightarrow> bool"

definition close_sessions :: "string \<Rightarrow> 'a action list" where
  "close_sessions d =
     (let parts = split_char CHR '':'' d
      in if length parts = 2 then
           (if parts ! 0 = ''closeoutgoing'' then [CloseRemote (parts ! 1)]
            else if parts ! 0 = ''closeincoming'' then [CloseIncoming (parts ! 1)] else [])
         else [])"

definition require_listen_ipv4 :: "'a packet_env \<Rightarrow> 'a \<Rightarrow> bool" where
  "require_listen_ipv4 e addr = (addr_is_ipv6 e addr \<and> lan_ipv4 e \<noteq> None)"

definition connect_request :: "'a packet_env \<Rightarrow> string \<Rightarrow> 'a signal \<Rightarrow> 'a result \<times> 'a action list" where
  "connect_request e sender s =
     (let s1 = s\<lparr>last_data_received := at_utc e\<rparr>
      in case new_listener e of
           None \<Rightarrow> (Failed ''listen'', [])
         | Some addr \<Rightarrow>
             if ws_send_ok e then
               (if require_listen_ipv4 e addr then
                  (if ipv4_listener_ok e
                   then (Running s1, [SendListening sender addr, Accept addr, Accept (the (lan_ipv4 e))])
                   else (Failed ''listen'', [SendListening sender addr, Accept addr]))
                else (Running s1, [SendListening sender addr, Accept addr]))
             else (Running s1, []))"

definition packet :: "'a packet_env \<Rightarrow> packet \<Rightarrow> 'a signal \<Rightarrow> 'a result \<times> 'a action list" where
  "packet e p s =
     (case p of
        PError \<Rightarrow> (Failed ''receive'', [])
      | PBinary \<Rightarrow> (Failed ''binary message'', [])
      | PText msg \<Rightarrow>
          (case read_close_sessions (json_fields e) msg of
             Some d \<Rightarrow> (Running s, close_sessions d)
           | None \<Rightarrow>
             (case read_connect_request (json_fields e) msg of
                Some sender \<Rightarrow> connect_request e sender s
              | None \<Rightarrow>
                (case read_relay_connection (json_fields e) (read_addr e) msg of
                   Some addr \<Rightarrow>
                     (let s1 = s\<lparr>last_data_received := at_utc e\<rparr>
                      in (Running (if relay_ok e addr then s1\<lparr>mode := AwaitRelay addr\<rparr> else s1), []))
                 | None \<Rightarrow>
                     if msg = HEALTHCHECK
                     then (Running (s\<lparr>last_healthcheck_sent := None, last_data_received := at_utc e\<rparr>), [])
                     else if msg = HEALTHCHECK_ERROR then (Stopped ''connection removed'', [])
                     else (Running s, [])))))"

text \<open>The packet after a relay was offered, whatever it is, and the end of the wait for it.\<close>

definition relay_packet :: "'a packet_env \<Rightarrow> packet \<Rightarrow> 'a \<Rightarrow> 'a signal \<Rightarrow> 'a result \<times> 'a action list" where
  "relay_packet e p addr s =
     (Running (s\<lparr>mode := Selecting\<rparr>),
      case p of PText msg \<Rightarrow> if is_relay_ready (json_fields e) msg then [JoinRelay addr] else [] | _ \<Rightarrow> [])"

datatype 'a event = Tick tick_env | Packet "'a packet_env" packet | RelayTimeout

definition handle :: "'a event \<Rightarrow> 'a signal \<Rightarrow> 'a result \<times> 'a action list" where
  "handle ev s =
     (case mode s of
        Selecting \<Rightarrow>
          (case ev of Tick e \<Rightarrow> tick e s | Packet e p \<Rightarrow> packet e p s | RelayTimeout \<Rightarrow> (Running s, []))
      | AwaitRelay addr \<Rightarrow>
          (case ev of
             Tick _ \<Rightarrow> (Running s, [])
           | Packet e p \<Rightarrow> relay_packet e p addr s
           | RelayTimeout \<Rightarrow> (Running (s\<lparr>mode := Selecting\<rparr>), [])))"

fun run :: "'a event list \<Rightarrow> 'a result \<Rightarrow> 'a result \<times> 'a action list" where
  "run [] r = (r, [])"
| "run (ev # evs) (Running s) =
     (case handle ev s of (r, outs) \<Rightarrow> (case run evs r of (r', outs') \<Rightarrow> (r', outs @ outs')))"
| "run (ev # evs) r = (r, [])"

definition new_session :: "int \<Rightarrow> int \<Rightarrow> string option \<Rightarrow> 'a signal" where
  "new_session t utc lan = \<lparr>mode = Selecting, last_timer = t, last_log = t, last_healthcheck_sent = None,
     last_data_received = utc, connected_lan_ip = lan\<rparr>"

subsection \<open>Which server\<close>

text \<open>The answer of the service that names the servers: for either scheme host and port, if they are there.\<close>

record server_answer =
  rendezvousssl :: "(string option \<times> string option) option"
  rendezvous :: "(string option \<times> string option) option"

definition server_url :: "string \<times> (string option \<times> string option) option \<Rightarrow> string list" where
  "server_url = (\<lambda>(scheme, obj).
     case obj of Some (Some host, Some port) \<Rightarrow> [scheme @ ''://'' @ host @ '':'' @ port] | _ \<Rightarrow> [])"

fun join_strings :: "string \<Rightarrow> string list \<Rightarrow> string" where
  "join_strings d [] = []"
| "join_strings d [x] = x"
| "join_strings d (x # xs) = x @ d @ join_strings d xs"

definition trim :: "(char \<Rightarrow> bool) \<Rightarrow> string \<Rightarrow> string" where
  "trim is_ws s = rev (dropWhile is_ws (rev (dropWhile is_ws s)))"

definition get_rendezvous_servers ::
  "(char \<Rightarrow> bool) \<Rightarrow> string \<Rightarrow> bool \<Rightarrow> string \<Rightarrow> server_answer option \<Rightarrow> string list option" where
  "get_rendezvous_servers is_ws custom serial_obsolute servers answer =
     (let ss = map (trim is_ws) (filter (\<lambda>x. trim is_ws x \<noteq> []) (split_char CHR '','' servers))
      in if custom \<noteq> [] then Some [custom]
         else if serial_obsolute \<and> ss \<noteq> [] then Some ss
         else (case answer of
             None \<Rightarrow> None
           | Some a \<Rightarrow>
               Some [join_strings '';''
                 (concat (map server_url [(''wss'', rendezvousssl a), (''ws'', rendezvous a)]))]))"

text \<open>\<^verbatim>\<open>host.split("://")\<close>; a host without a scheme is reached by \<^verbatim>\<open>ws\<close>.\<close>

fun split_scheme :: "string \<Rightarrow> string list" where
  "split_scheme (a # b # c # cs) =
     (if a = CHR '':'' \<and> b = CHR ''/'' \<and> c = CHR ''/'' then [] # split_scheme cs
      else (case split_scheme (b # c # cs) of x # xs \<Rightarrow> (a # x) # xs | [] \<Rightarrow> [[a]]))"
| "split_scheme s = [s]"

definition scheme_host :: "string \<Rightarrow> string \<times> string" where
  "scheme_host host =
     (let split = split_scheme host in if length split = 1 then (''ws'', split ! 0) else (split ! 0, split ! 1))"

fun first_connected :: "(string \<times> string \<Rightarrow> 'c option) \<Rightarrow> string list \<Rightarrow> 'c option" where
  "first_connected connect [] = None"
| "first_connected connect (h # hs) =
     (case connect (scheme_host h) of Some c \<Rightarrow> Some c | None \<Rightarrow> first_connected connect hs)"

definition ws_rank :: "string \<Rightarrow> nat" where
  "ws_rank host = (if take 3 host = ''ws:'' then 0 else 1)"

definition create_websocket :: "(string \<times> string \<Rightarrow> 'c option) \<Rightarrow> string \<Rightarrow> 'c option" where
  "create_websocket connect host_list =
     first_connected connect (sort_key ws_rank (split_char CHR '';'' host_list))"

definition create_websocket_with_peer_id :: "(string \<times> string \<Rightarrow> 'c option) \<Rightarrow> string \<Rightarrow> 'c option" where
  "create_websocket_with_peer_id connect host_list = first_connected connect (split_char CHR '';'' host_list)"

subsection \<open>The loop over sessions, and direct access\<close>

definition CONNECT_TIMEOUT :: int where "CONNECT_TIMEOUT = 18000"
definition RENDEZVOUS_PORT :: int where "RENDEZVOUS_PORT = 21116"

text \<open>How long \<^verbatim>\<open>start_all\<close> sleeps after its sessions have ended; a part of a second is dropped.\<close>

definition restart_pause :: "bool \<Rightarrow> int \<Rightarrow> int" where
  "restart_pause manual elapsed =
     (if \<not> manual then (if elapsed < CONNECT_TIMEOUT then (CONNECT_TIMEOUT - elapsed) div 1000 * 1000 else 0)
      else 33) + 1000"

definition get_direct_port :: "(string \<Rightarrow> int option) \<Rightarrow> string \<Rightarrow> int" where
  "get_direct_port parse_i32 opt =
     (let port = (case parse_i32 opt of Some p \<Rightarrow> p | None \<Rightarrow> 0)
      in if port \<le> 0 then RENDEZVOUS_PORT + 2 else port)"

text \<open>The state of \<^verbatim>\<open>direct_server\<close>; \<open>waiting\<close> is its inner loop after a listener could not be opened.\<close>

record direct =
  listener :: "int option"
  port :: int
  waiting :: bool

record 'c turn =
  disabled :: bool
  direct_port :: int
  bind_ok :: bool
  incoming :: "'c option"

definition direct_open :: "'c turn \<Rightarrow> direct \<Rightarrow> direct" where
  "direct_open e d =
     (if \<not> disabled e \<and> listener d = None then
        (if bind_ok e then d\<lparr>port := direct_port e, listener := Some (direct_port e)\<rparr>
         else d\<lparr>port := direct_port e, waiting := True\<rparr>)
      else d)"

definition direct_serve :: "'c turn \<Rightarrow> direct \<Rightarrow> direct \<times> 'c list" where
  "direct_serve e d =
     (if listener d = None then (d, [])
      else if disabled e \<or> port d \<noteq> direct_port e then (d\<lparr>listener := None\<rparr>, [])
      else (d, case incoming e of Some c \<Rightarrow> [c] | None \<Rightarrow> []))"

definition direct_turn :: "'c turn \<Rightarrow> direct \<Rightarrow> direct \<times> 'c list" where
  "direct_turn e d =
     (if waiting d then ((if port d \<noteq> direct_port e then d\<lparr>waiting := False\<rparr> else d), [])
      else direct_serve e (direct_open e d))"

fun direct_run :: "'c turn list \<Rightarrow> direct \<Rightarrow> direct \<times> (int \<times> 'c) list" where
  "direct_run [] d = (d, [])"
| "direct_run (e # es) d =
     (case direct_turn e d of (d', cs) \<Rightarrow>
       (case direct_run es d' of (d'', cs') \<Rightarrow> (d'', map (Pair (port d')) cs @ cs')))"

definition direct_start :: direct where
  "direct_start = \<lparr>listener = None, port = 0, waiting = False\<rparr>"

subsection \<open>A silent server\<close>

text \<open>Ticks a second or more and at most \<open>g\<close> apart, after an instant \<open>t\<close>.\<close>

fun spaced :: "int \<Rightarrow> int \<Rightarrow> tick_env list \<Rightarrow> bool" where
  "spaced g t [] = True"
| "spaced g t (e # es) = (t + 1000 \<le> now e \<and> now e \<le> t + g \<and> spaced g (now e) es)"

text \<open>What is known of a session that has heard nothing since \<open>d\<close>, the clocks being \<open>off\<close> apart.\<close>

definition quiet :: "int \<Rightarrow> int \<Rightarrow> int \<Rightarrow> 'a signal \<Rightarrow> bool" where
  "quiet g off d s =
     (mode s = Selecting \<and> last_data_received s = d \<and>
      (case last_healthcheck_sent s of
         None \<Rightarrow> last_timer s + off \<le> d + 90000
       | Some h \<Rightarrow> h \<le> d + 90000 + g \<and> last_timer s + off \<le> h + 30000))"

lemma tick_quiet:
  assumes "quiet g off d s" and "last_timer s + 1000 \<le> now e" "now e \<le> last_timer s + g" and "now_utc e = now e + off"
    and "tick e s = (Running s', outs)"
  shows "quiet g off d s' \<and> last_timer s' = now e"
  using assms
  by (cases "last_healthcheck_sent s")
    (simp_all add: tick_def quiet_def Let_def split: if_splits, auto)

lemma run_stopped: "run evs (Stopped r) = (Stopped r, [])" "run evs (Failed r) = (Failed r, [])"
  by (cases evs; simp)+

lemma handle_selecting:
  assumes "mode s = Selecting"
  shows "handle (Tick e) s = tick e s" "handle (Packet pe p) s = packet pe p s"
  using assms by (simp_all add: handle_def)

lemma ticks_quiet:
  assumes "quiet g off d s" and "spaced g (last_timer s) es" and "\<forall>e \<in> set es. now_utc e = now e + off"
    and "run (map Tick es) (Running s) = (Running s', outs)"
  shows "quiet g off d s' \<and> last_timer s' = (if es = [] then last_timer s else now (last es))"
  using assms
proof (induction es arbitrary: s outs)
  case (Cons e es)
  obtain r o1 where t: "tick e s = (r, o1)" by (cases "tick e s")
  have sel: "mode s = Selecting" using Cons.prems(1) by (simp add: quiet_def)
  obtain s1 where r: "r = Running s1"
    using Cons.prems(4) by (cases r) (auto simp: handle_selecting [OF sel] t run_stopped)
  have q: "quiet g off d s1 \<and> last_timer s1 = now e"
    using Cons.prems tick_quiet [OF Cons.prems(1), of e s1 o1] by (simp add: t r)
  obtain o2 where "run (map Tick es) (Running s1) = (Running s', o2)"
    using Cons.prems(4) by (auto simp: handle_selecting [OF sel] t r split: prod.splits)
  with Cons.IH [of s1] Cons.prems q show ?case by (auto split: if_splits)
qed simp

text \<open>
  C22. A silent server is left.  When the server sends nothing while the timer ticks, at most \<open>g\<close> milliseconds apart,
  the session asks for a sign of life after ninety seconds and ends thirty seconds later: no session is still running
  at a tick more than 120 seconds and \<open>g\<close> after the last message.
\<close>

theorem silent_server_left:
  assumes "mode s = Selecting" "last_healthcheck_sent s = None" "last_timer s + off \<le> last_data_received s + 90000"
    and "es \<noteq> []" "spaced g (last_timer s) es" "\<forall>e \<in> set es. now_utc e = now e + off"
    and "last_data_received s + 120000 + g < now_utc (last es)"
  shows "\<exists>reason. fst (run (map Tick es) (Running s)) = Stopped reason \<or>
    fst (run (map Tick es) (Running s)) = Failed reason"
proof (rule ccontr)
  assume alive: "\<not> ?thesis"
  obtain r outs where r: "run (map Tick es) (Running s) = (r, outs)" by (cases "run (map Tick es) (Running s)")
  with alive obtain s' where s': "r = Running s'" by (cases r) auto
  define d where "d = last_data_received s"
  have "quiet g off d s" using assms(1-3) by (simp add: quiet_def d_def)
  from ticks_quiet [OF this assms(5,6) r [unfolded s']] assms(4)
  have "quiet g off d s'" "last_timer s' = now (last es)" by auto
  moreover have "now_utc (last es) = now (last es) + off" using assms(4,6) last_in_set by blast
  moreover have "0 \<le> g" using assms(4,5) by (cases es) auto
  ultimately show False using assms(7) by (auto simp: quiet_def d_def split: option.splits)
qed

definition steady :: "int \<Rightarrow> tick_env" where
  "steady t = \<lparr>now = t, now_utc = t, should_exit = False, lan_ip = None, send_ok = True\<rparr>"

lemma steady_spaced: "spaced 25000 0 (map steady [20000, 40000, 60000, 80000, 100000, 120000, 140000, 160000])"
  by (simp add: steady_def)

theorem silent_server_left_witness:
  "fst (run (map Tick (map steady [20000, 40000, 60000, 80000, 100000, 120000, 140000, 160000]))
     (Running (new_session 0 0 None :: int signal))) \<notin> range Running"
proof -
  have "\<exists>reason. fst (run (map Tick (map steady [20000, 40000, 60000, 80000, 100000, 120000, 140000, 160000]))
      (Running (new_session 0 0 None :: int signal))) = Stopped reason \<or>
    fst (run (map Tick (map steady [20000, 40000, 60000, 80000, 100000, 120000, 140000, 160000]))
      (Running (new_session 0 0 None :: int signal))) = Failed reason"
    by (rule silent_server_left [where off = 0 and g = 25000]) (simp_all add: new_session_def steady_def)
  then show ?thesis by auto
qed

subsection \<open>An answering server\<close>

lemma str_fields_some: "str_fields read_json ks msg \<noteq> None \<longleftrightarrow>
    (\<exists>m. read_json msg = Some m \<and> (\<forall>k \<in> set ks. str_field m k \<noteq> None))"
  by (simp add: str_fields_def split: option.split)

text \<open>How JSON reads the sign of life: an object without the field \<open>endpoint\<close>, so no message of another kind.\<close>

definition knows_healthcheck :: "json_reader \<Rightarrow> bool" where
  "knows_healthcheck read_json = (\<exists>m. read_json HEALTHCHECK = Some m \<and> m ''endpoint'' = None)"

lemma healthcheck_no_fields:
  assumes "knows_healthcheck read_json" and "''endpoint'' \<in> set ks" shows "str_fields read_json ks HEALTHCHECK = None"
proof -
  obtain m where m: "read_json HEALTHCHECK = Some m" "str_field m ''endpoint'' = None"
    using assms(1) by (auto simp: knows_healthcheck_def str_field_def)
  with assms(2) have "\<not> (\<forall>k \<in> set ks. str_field m k \<noteq> None)" by blast
  with m show ?thesis by (simp only: str_fields_def option.case if_False)
qed

lemma healthcheck_packet:
  assumes "knows_healthcheck (json_fields e)"
  shows "packet e (PText HEALTHCHECK) s =
    (Running (s\<lparr>last_healthcheck_sent := None, last_data_received := at_utc e\<rparr>), [])"
  using healthcheck_no_fields [OF assms]
  by (simp add: packet_def read_close_sessions_def read_connect_request_def read_relay_connection_def)

text \<open>A server that answers: after each tick that leaves a question open comes the answer.\<close>

fun with_answers :: "'a packet_env \<Rightarrow> tick_env list \<Rightarrow> 'a signal \<Rightarrow> 'a event list" where
  "with_answers pe [] s = []"
| "with_answers pe (e # es) s =
     (case fst (tick e s) of
        Running s1 \<Rightarrow>
          if last_healthcheck_sent s1 = None then Tick e # with_answers pe es s1
          else Tick e # Packet pe (PText HEALTHCHECK) #
            with_answers pe es (s1\<lparr>last_healthcheck_sent := None, last_data_received := at_utc pe\<rparr>)
      | _ \<Rightarrow> [Tick e])"

definition undisturbed :: "string option \<Rightarrow> tick_env \<Rightarrow> bool" where
  "undisturbed lan e = (\<not> should_exit e \<and> lan_ip e = lan \<and> send_ok e)"

lemma tick_undisturbed:
  assumes "undisturbed (connected_lan_ip s) e" "mode s = Selecting" "last_healthcheck_sent s = None"
    and "now e - last_timer s \<le> 30000"
  shows "\<exists>s1 outs. tick e s = (Running s1, outs) \<and> mode s1 = Selecting \<and> connected_lan_ip s1 = connected_lan_ip s \<and>
    last_timer s1 = (if now e - last_timer s < 1000 then last_timer s else now e)"
  using assms by (auto simp: tick_def undisturbed_def Let_def split: option.split)

fun gaps_ok :: "int \<Rightarrow> tick_env list \<Rightarrow> bool" where
  "gaps_ok t [] = True"
| "gaps_ok t (e # es) = (now e - t \<le> 30000 \<and> gaps_ok (if now e - t < 1000 then t else now e) es)"

text \<open>
  A server that answers is kept.  As long as nobody asks the session to end, the machine does not sleep, its address
  in the LAN stays, and sending works, a session whose server answers each sign of life that it is asked for goes on,
  however long and however rarely there is anything else to say.
\<close>

theorem answering_server_kept:
  assumes "mode s = Selecting" "last_healthcheck_sent s = None" and "knows_healthcheck (json_fields pe)"
    and "\<forall>e \<in> set es. undisturbed (connected_lan_ip s) e" and "gaps_ok (last_timer s) es"
  shows "\<exists>s'. fst (run (with_answers pe es s) (Running s)) = Running s' \<and> last_healthcheck_sent s' = None"
  using assms
proof (induction es arbitrary: s)
  case (Cons e es)
  obtain s1 outs where t: "tick e s = (Running s1, outs)" "mode s1 = Selecting"
      "connected_lan_ip s1 = connected_lan_ip s"
      "last_timer s1 = (if now e - last_timer s < 1000 then last_timer s else now e)"
    using tick_undisturbed [of s e] Cons.prems by auto
  show ?case
  proof (cases "last_healthcheck_sent s1")
    case None
    then obtain s' where "fst (run (with_answers pe es s1) (Running s1)) = Running s'" "last_healthcheck_sent s' = None"
      using Cons.IH [of s1] Cons.prems t by auto
    with None t Cons.prems(1) show ?thesis by (auto simp: handle_selecting split: prod.split)
  next
    case (Some h)
    define s2 where "s2 = s1\<lparr>last_healthcheck_sent := None, last_data_received := at_utc pe\<rparr>"
    obtain s' where s': "fst (run (with_answers pe es s2) (Running s2)) = Running s'" "last_healthcheck_sent s' = None"
      using Cons.IH [of s2] Cons.prems t by (auto simp: s2_def)
    have "handle (Packet pe (PText HEALTHCHECK)) s1 = (Running s2, [])"
      using t(2) Cons.prems(3) by (simp add: handle_selecting healthcheck_packet s2_def)
    with Some t s' Cons.prems(1) show ?thesis
      by (simp add: handle_selecting s2_def [symmetric] split: prod.splits) (metis fst_conv)
  qed
qed simp

definition sample_packet_env :: "int packet_env" where
  "sample_packet_env = \<lparr>at_utc = 0,
     json_fields = (\<lambda>msg. if msg = HEALTHCHECK then Some [''protocol'' \<mapsto> JString ''one-to-self''] else None),
     read_addr = (\<lambda>s. None), new_listener = None, lan_ipv4 = None, addr_is_ipv6 = (\<lambda>a. False),
     ipv4_listener_ok = True, ws_send_ok = True, relay_ok = (\<lambda>a. True)\<rparr>"

lemma sample_knows: "knows_healthcheck (json_fields sample_packet_env)"
  by (simp add: knows_healthcheck_def sample_packet_env_def)

theorem answering_server_kept_witness:
  "\<exists>s'. fst (run (with_answers sample_packet_env
       (map steady [20000, 40000, 60000, 80000, 100000, 120000, 140000, 160000]) (new_session 0 0 None))
     (Running (new_session 0 0 None))) = Running s'"
  using answering_server_kept [OF _ _ sample_knows, where s = "new_session 0 0 None"
      and es = "map steady [20000, 40000, 60000, 80000, 100000, 120000, 140000, 160000]"]
  by (simp add: new_session_def undisturbed_def steady_def del: with_answers.simps run.simps) blast

text \<open>
  The message after the offer of a relay is taken, whatever it is.  A request of another peer that comes then
  opens the relay in place of its answer and is itself not answered; the server's sign of life is lost, so that the
  session ends at a tick thirty seconds after the question, as if the server had been silent.
\<close>

theorem relay_takes_any_message:
  assumes "mode s = AwaitRelay addr"
  shows "(\<forall>msg sender. read_connect_request (json_fields e) msg = Some sender \<longrightarrow>
      handle (Packet e (PText msg)) s = (Running (s\<lparr>mode := Selecting\<rparr>), [JoinRelay addr])) \<and>
    (\<forall>h t. knows_healthcheck (json_fields e) \<and> last_healthcheck_sent s = Some h \<and>
      undisturbed (connected_lan_ip s) t \<and> 1000 \<le> now t - last_timer s \<and> now t - last_timer s \<le> 30000 \<and>
      30000 < now_utc t - h \<longrightarrow>
      run [Packet e (PText HEALTHCHECK), Tick t] (Running s) = (Stopped ''server is unresponding'', []))"
proof (intro conjI allI impI)
  fix msg sender assume "read_connect_request (json_fields e) msg = Some sender"
  then have "str_fields (json_fields e) [''protocol'', ''endpoint'', ''sender_id''] msg \<noteq> None"
    by (auto simp: read_connect_request_def)
  then have "is_relay_ready (json_fields e) msg"
    unfolding is_relay_ready_def str_fields_some by auto
  with assms show "handle (Packet e (PText msg)) s = (Running (s\<lparr>mode := Selecting\<rparr>), [JoinRelay addr])"
    by (simp add: handle_def relay_packet_def)
next
  fix h t assume a: "knows_healthcheck (json_fields e) \<and> last_healthcheck_sent s = Some h \<and>
      undisturbed (connected_lan_ip s) t \<and> 1000 \<le> now t - last_timer s \<and> now t - last_timer s \<le> 30000 \<and>
      30000 < now_utc t - h"
  then have "\<not> is_relay_ready (json_fields e) HEALTHCHECK"
    by (simp add: is_relay_ready_def healthcheck_no_fields)
  with assms have p: "handle (Packet e (PText HEALTHCHECK)) s = (Running (s\<lparr>mode := Selecting\<rparr>), [])"
    by (simp add: handle_def relay_packet_def)
  have "tick t (s\<lparr>mode := Selecting\<rparr>) = (Stopped ''server is unresponding'', [])"
    using a by (auto simp: tick_def undisturbed_def Let_def split: option.split)
  then show "run [Packet e (PText HEALTHCHECK), Tick t] (Running s) = (Stopped ''server is unresponding'', [])"
    by (simp add: p handle_selecting)
qed

theorem relay_takes_any_message_witness:
  "run [Packet sample_packet_env (PText HEALTHCHECK), Tick (steady 60000)]
     (Running ((new_session 40000 0 None)\<lparr>mode := AwaitRelay 7, last_healthcheck_sent := Some 20000\<rparr>)) =
   (Stopped ''server is unresponding'', [])"
  using relay_takes_any_message [where addr = 7 and e = sample_packet_env
      and s = "(new_session 40000 0 None)\<lparr>mode := AwaitRelay 7, last_healthcheck_sent := Some 20000\<rparr>"] sample_knows
  by (simp add: new_session_def undisturbed_def steady_def del: run.simps)

subsection \<open>Direct access\<close>

lemma direct_turn_accepts:
  assumes "direct_turn e d = (d', cs)" "c \<in> set cs"
  shows "incoming e = Some c \<and> \<not> disabled e \<and> port d' = direct_port e"
  using assms by (auto simp: direct_turn_def direct_serve_def split: if_splits option.splits)

text \<open>
  Direct access is served only while it is on.  In any run of turns of the direct server, whatever the user changes
  between them, a connection is taken up only in a turn in which direct access is on, and on the port that is
  set in that turn.
\<close>

theorem direct_only_enabled:
  assumes "(p, c) \<in> set (snd (direct_run es d))"
  shows "\<exists>e \<in> set es. incoming e = Some c \<and> \<not> disabled e \<and> direct_port e = p"
  using assms
proof (induction es arbitrary: d)
  case (Cons e es)
  obtain d1 cs where t: "direct_turn e d = (d1, cs)" by (cases "direct_turn e d")
  obtain d2 cs2 where r: "direct_run es d1 = (d2, cs2)" by (cases "direct_run es d1")
  from Cons.prems t r consider "c \<in> set cs" "p = port d1" | "(p, c) \<in> set cs2" by auto
  then show ?case
  proof cases
    case 1
    with direct_turn_accepts [OF t] show ?thesis by auto
  next
    case 2
    with Cons.IH [of d1] r show ?thesis by auto
  qed
qed simp

definition open_turn :: "int turn" where
  "open_turn = \<lparr>disabled = False, direct_port = 21118, bind_ok = True, incoming = Some 5\<rparr>"

theorem direct_only_enabled_witness:
  "\<exists>e \<in> set [open_turn]. incoming e = Some 5 \<and> \<not> disabled e \<and> direct_port e = 21118"
  by (rule direct_only_enabled [where d = direct_start])
    (simp add: open_turn_def direct_start_def direct_turn_def direct_open_def direct_serve_def)

text \<open>
  After a listener could not be opened, nothing is tried again before another port is set, even when the port has
  become free.
\<close>

lemma direct_gives_up:
  assumes "waiting d" and "\<forall>e \<in> set es. direct_port e = port d" shows "direct_run es d = (d, [])"
  using assms by (induction es) (simp_all add: direct_turn_def)

text \<open>Sessions start at least \<open>CONNECT_TIMEOUT\<close> apart, unless the user asked for a restart.\<close>

lemma restart_pace: "0 \<le> elapsed \<Longrightarrow> CONNECT_TIMEOUT < elapsed + restart_pause False elapsed"
  using pos_mod_bound [of 1000 "CONNECT_TIMEOUT - elapsed"] div_mult_mod_eq [of "CONNECT_TIMEOUT - elapsed" 1000]
  by (auto simp: restart_pause_def CONNECT_TIMEOUT_def)

subsection \<open>The order of the servers\<close>

lemma first_connected_Some:
  "connect (scheme_host h) = Some c \<Longrightarrow> first_connected connect (h # hs) = Some c"
  by simp

lemma split_scheme_plain: "CHR ''/'' \<notin> set s \<Longrightarrow> split_scheme s = [s]"
  by (induction s rule: split_scheme.induct) auto

lemma scheme_host_ws: "CHR ''/'' \<notin> set r \<Longrightarrow> scheme_host (''ws://'' @ r) = (''ws'', r)"
  by (simp add: scheme_host_def split_scheme_plain)

text \<open>
  A server is reached without encryption where that works.  When the service that names the servers gives both
  addresses of one, with and without TLS, the session is opened on the plain address, and the encrypted
  one is used only when the plain one cannot be reached.
\<close>

theorem plain_server_first:
  assumes "get_rendezvous_servers is_ws [] False servers
      (Some \<lparr>rendezvousssl = Some (Some h1, Some p1), rendezvous = Some (Some h2, Some p2)\<rparr>) = Some [l]"
    and "CHR '';'' \<notin> set (h1 @ p1 @ h2 @ p2)" "CHR ''/'' \<notin> set (h1 @ p1 @ h2 @ p2)"
  shows "create_websocket connect l =
    (case connect (''ws'', h2 @ '':'' @ p2) of Some c \<Rightarrow> Some c | None \<Rightarrow> connect (''wss'', h1 @ '':'' @ p1))"
proof -
  define a b where "a = ''wss://'' @ h1 @ '':'' @ p1" and "b = ''ws://'' @ h2 @ '':'' @ p2"
  have l: "l = a @ CHR '';'' # b"
    using assms(1) by (simp add: get_rendezvous_servers_def server_url_def a_def b_def)
  have "CHR '';'' \<notin> set a" "CHR '';'' \<notin> set b" using assms(2) by (auto simp: a_def b_def)
  then have "split_char CHR '';'' l = [a, b]" by (simp add: l split_char_at split_char_plain)
  moreover have "ws_rank a = 1" "ws_rank b = 0" by (simp_all add: ws_rank_def a_def b_def)
  ultimately have "create_websocket connect l = first_connected connect [b, a]"
    by (simp add: create_websocket_def)
  moreover have "scheme_host b = (''ws'', h2 @ '':'' @ p2)"
    using assms(3) scheme_host_ws [of "h2 @ '':'' @ p2"] by (simp add: b_def)
  moreover have "scheme_host a = (''wss'', h1 @ '':'' @ p1)"
    using assms(3) by (simp add: a_def scheme_host_def split_scheme_plain)
  ultimately show ?thesis by (simp split: option.split)
qed

theorem plain_server_first_witness:
  "create_websocket (\<lambda>x. if fst x = ''wss'' then Some (1 :: int) else None)
     ''wss://a.org:443;ws://b.org:80'' = Some 1"
proof -
  have "get_rendezvous_servers (\<lambda>c. c = CHR '' '') [] False []
      (Some \<lparr>rendezvousssl = Some (Some ''a.org'', Some ''443''), rendezvous = Some (Some ''b.org'', Some ''80'')\<rparr>)
      = Some [''wss://a.org:443;ws://b.org:80'']"
    by code_simp
  from plain_server_first [OF this, where connect = "\<lambda>x. if fst x = ''wss'' then Some 1 else None"] show ?thesis by simp
qed

end
