(* ===== verification/Api_Cache.thy ===== *)
theory Api_Cache
  imports Prelude
begin

text \<open>
  The cached answer of the service that names the servers, \<^verbatim>\<open>libs/hbb_common/src/api.rs\<close>.  The record \<open>once_api\<close> is
  \<^verbatim>\<open>OnceAPI\<close> with the option \<open>api-cache\<close> of the configuration, in which the last answer is kept across runs.  An
  operation gets what it meets: the clock in milliseconds, a local \<^verbatim>\<open>api.json\<close>, and what a request would bring.  It returns
  its result and the requests that it sends.  JSON and base64 are libraries: a stored text is read by
  \<open>decode\<close> and written by \<open>encode\<close>.  The tasks that write the option and that start the refreshing are taken to run at
  once, and operations do not overlap.
\<close>

record 'j once_api =
  response :: "'j option"
  last_calls :: "string \<rightharpoonup> int"
  refresh_started :: bool
  force_refresh :: bool
  from_local :: bool
  last_forced_refresh :: "int option"
  api_cache :: string

record 'j api_env =
  clock :: int
  api_uri :: string
  local_json :: "'j option"
  http :: "'j option"

record 'j api_lib =
  is_object :: "'j \<Rightarrow> bool"
  encode :: "'j \<Rightarrow> string"
  decode :: "string \<Rightarrow> 'j option"

datatype request = Ordinary string int | Forced string int

definition new_api :: "string \<Rightarrow> 'j once_api" where
  "new_api cache = \<lparr>response = None, last_calls = Map.empty, refresh_started = False, force_refresh = False,
     from_local = False, last_forced_refresh = None, api_cache = cache\<rparr>"

definition load_from_persistent_cache :: "'j api_lib \<Rightarrow> 'j once_api \<Rightarrow> 'j option \<times> 'j once_api" where
  "load_from_persistent_cache l a =
     (if api_cache a = [] then (None, a)
      else (case decode l (api_cache a) of
          Some j \<Rightarrow> (Some j, a\<lparr>response := Some j\<rparr>)
        | None \<Rightarrow> (None, a)))"

definition store_cache :: "'j api_lib \<Rightarrow> 'j \<Rightarrow> 'j once_api \<Rightarrow> 'j once_api" where
  "store_cache l j a = (if encode l j \<noteq> [] \<and> is_object l j then a\<lparr>api_cache := encode l j\<rparr> else a)"

definition try_api_call :: "'j api_env \<Rightarrow> 'j once_api \<Rightarrow> 'j option \<times> 'j once_api \<times> request list" where
  "try_api_call e a =
     (if (case last_calls a (api_uri e) of Some t \<Rightarrow> clock e - t < 39600000 | None \<Rightarrow> False) then (None, a, [])
      else (http e, a\<lparr>last_calls := (last_calls a)(api_uri e \<mapsto> clock e)\<rparr>, [Ordinary (api_uri e) (clock e)]))"

definition start_background_refresh :: "'j once_api \<Rightarrow> 'j once_api" where
  "start_background_refresh a = a\<lparr>refresh_started := True\<rparr>"

text \<open>The part of \<open>call\<close> that goes to the service.\<close>

definition call_service :: "'j api_lib \<Rightarrow> 'j api_env \<Rightarrow> 'j once_api \<Rightarrow> 'j option \<times> 'j once_api \<times> request list" where
  "call_service l e a =
     (case try_api_call e a of
        (Some j, a1, rs) \<Rightarrow>
          (Some j, start_background_refresh (store_cache l j (a1\<lparr>response := Some j\<rparr>)), rs)
      | (None, a1, rs) \<Rightarrow> (case load_from_persistent_cache l a1 of (r, a2) \<Rightarrow> (r, a2, rs)))"

definition api_call :: "'j api_lib \<Rightarrow> 'j api_env \<Rightarrow> 'j once_api \<Rightarrow> 'j option \<times> 'j once_api \<times> request list" where
  "api_call l e a =
     (let force = force_refresh a; a0 = a\<lparr>force_refresh := False\<rparr>
      in if (from_local a \<or> \<not> force) \<and> response a \<noteq> None then (response a, a0, [])
         else (case local_json e of
             Some j \<Rightarrow> (Some j, a0\<lparr>response := Some j, from_local := True\<rparr>, [])
           | None \<Rightarrow>
               if force then call_service l e a0
               else (case load_from_persistent_cache l a0 of
                   (Some j, a1) \<Rightarrow> (Some j, start_background_refresh a1, [])
                 | (None, _) \<Rightarrow> call_service l e a0)))"

definition api_erase :: "'j once_api \<Rightarrow> 'j once_api" where
  "api_erase a = a\<lparr>response := None, force_refresh := True\<rparr>"

definition force_refresh_on_connect_failure ::
  "'j api_lib \<Rightarrow> 'j api_env \<Rightarrow> 'j once_api \<Rightarrow> bool \<times> 'j once_api \<times> request list" where
  "force_refresh_on_connect_failure l e a =
     (if from_local a then (False, a, [])
      else if (case last_forced_refresh a of Some t \<Rightarrow> clock e - t < 3600000 | None \<Rightarrow> False) then (False, a, [])
      else
        (let a1 = a\<lparr>last_forced_refresh := Some (clock e)\<rparr>; rs = [Forced (api_uri e) (clock e)]
         in case http e of
              None \<Rightarrow> (False, a1, rs)
            | Some j \<Rightarrow>
                (True, store_cache l j
                   (a1\<lparr>response := Some j, last_calls := (last_calls a1)(api_uri e \<mapsto> clock e)\<rparr>), rs)))"

text \<open>The operations in any order; a turn of the background task is an erasure and a call.\<close>

datatype 'j api_op = Call "'j api_env" | Erase | ForceRefresh "'j api_env"

fun api_step :: "'j api_lib \<Rightarrow> 'j api_op \<Rightarrow> 'j once_api \<Rightarrow> 'j once_api \<times> request list" where
  "api_step l (Call e) a = snd (api_call l e a)"
| "api_step l Erase a = (api_erase a, [])"
| "api_step l (ForceRefresh e) a = snd (force_refresh_on_connect_failure l e a)"

fun api_run :: "'j api_lib \<Rightarrow> 'j api_op list \<Rightarrow> 'j once_api \<Rightarrow> 'j once_api \<times> request list" where
  "api_run l [] a = (a, [])"
| "api_run l (s # ss) a =
     (case api_step l s a of (a1, rs) \<Rightarrow> (case api_run l ss a1 of (a2, rs') \<Rightarrow> (a2, rs @ rs')))"

definition background_turn :: "'j api_env \<Rightarrow> 'j api_op list" where
  "background_turn e = [Erase, Call e]"

subsection \<open>How often the service is asked\<close>

fun step_time :: "'j api_op \<Rightarrow> int option" where
  "step_time (Call e) = Some (clock e)"
| "step_time Erase = None"
| "step_time (ForceRefresh e) = Some (clock e)"

text \<open>The clock does not go back.\<close>

definition in_order :: "'j api_op list \<Rightarrow> bool" where
  "in_order ss = sorted (List.map_filter step_time ss)"

text \<open>Two requests of one kind are at least so far apart.\<close>

fun apart :: "request \<Rightarrow> request \<Rightarrow> bool" where
  "apart (Ordinary u t) (Ordinary u' t') = (u = u' \<longrightarrow> t + 39600000 \<le> t')"
| "apart (Forced u t) (Forced u' t') = (t + 3600000 \<le> t')"
| "apart (Forced u t) (Ordinary u' t') = True"
| "apart (Ordinary u t) (Forced u' t') = True"

text \<open>What the state remembers of a request that was sent.\<close>

fun remembered :: "'j once_api \<Rightarrow> request \<Rightarrow> bool" where
  "remembered a (Ordinary u t) = (\<exists>t'. last_calls a u = Some t' \<and> t \<le> t')"
| "remembered a (Forced u t) = (\<exists>t'. last_forced_refresh a = Some t' \<and> t \<le> t')"

lemma load_same:
  "load_from_persistent_cache l a = (r, a') \<Longrightarrow> last_calls a' = last_calls a \<and> last_forced_refresh a' = last_forced_refresh a"
  by (auto simp: load_from_persistent_cache_def split: if_splits option.splits)

lemma store_same [simp]:
  "last_calls (store_cache l j a) = last_calls a" "last_forced_refresh (store_cache l j a) = last_forced_refresh a"
  "response (store_cache l j a) = response a"
  by (simp_all add: store_cache_def)

lemma start_same [simp]:
  "last_calls (start_background_refresh a) = last_calls a"
  "last_forced_refresh (start_background_refresh a) = last_forced_refresh a"
  by (simp_all add: start_background_refresh_def)

lemma call_service_memory:
  assumes "call_service l e a = (r, a', rs)"
  shows "last_forced_refresh a' = last_forced_refresh a \<and>
    (rs = [] \<and> last_calls a' = last_calls a \<or>
     rs = [Ordinary (api_uri e) (clock e)] \<and> last_calls a' = (last_calls a)(api_uri e \<mapsto> clock e) \<and>
       (case last_calls a (api_uri e) of Some t \<Rightarrow> t + 39600000 \<le> clock e | None \<Rightarrow> True))"
  using assms load_same
  by (fastforce simp: call_service_def try_api_call_def split: option.splits if_splits prod.splits)

lemma api_call_memory:
  assumes "api_call l e a = (r, a', rs)"
  shows "last_forced_refresh a' = last_forced_refresh a \<and>
    (rs = [] \<and> last_calls a' = last_calls a \<or>
     rs = [Ordinary (api_uri e) (clock e)] \<and> last_calls a' = (last_calls a)(api_uri e \<mapsto> clock e) \<and>
       (case last_calls a (api_uri e) of Some t \<Rightarrow> t + 39600000 \<le> clock e | None \<Rightarrow> True))"
proof -
  define a0 where "a0 = a\<lparr>force_refresh := False\<rparr>"
  have same: "last_calls a0 = last_calls a" "last_forced_refresh a0 = last_forced_refresh a" by (simp_all add: a0_def)
  consider "call_service l e a0 = (r, a', rs)"
    | "rs = []" "last_calls a' = last_calls a" "last_forced_refresh a' = last_forced_refresh a"
  proof -
    assume service: "call_service l e a0 = (r, a', rs) \<Longrightarrow> thesis"
      and quiet: "rs = [] \<Longrightarrow> last_calls a' = last_calls a \<Longrightarrow> last_forced_refresh a' = last_forced_refresh a \<Longrightarrow> thesis"
    obtain r1 a1 where load: "load_from_persistent_cache l a0 = (r1, a1)" by (cases "load_from_persistent_cache l a0")
    show thesis
      using assms load load_same [OF load] same service quiet
      by (cases r1) (auto simp: api_call_def a0_def Let_def split: if_splits option.splits)
  qed
  then show ?thesis
    using call_service_memory [of l e a0 r a' rs] same by cases simp_all
qed

definition fits_memory :: "request \<Rightarrow> 'j once_api \<Rightarrow> bool" where
  "fits_memory r a =
     (case r of
        Ordinary u t \<Rightarrow> (case last_calls a u of Some t' \<Rightarrow> t' + 39600000 \<le> t | None \<Rightarrow> True)
      | Forced u t \<Rightarrow> (case last_forced_refresh a of Some t' \<Rightarrow> t' + 3600000 \<le> t | None \<Rightarrow> True))"

fun request_time :: "request \<Rightarrow> int" where
  "request_time (Ordinary u t) = t"
| "request_time (Forced u t) = t"

lemma forced_memory:
  assumes "force_refresh_on_connect_failure l e a = (b, a', rs)"
  shows "rs = [] \<and> a' = a \<or>
    rs = [Forced (api_uri e) (clock e)] \<and> fits_memory (Forced (api_uri e) (clock e)) a \<and>
      last_forced_refresh a' = Some (clock e) \<and>
      (last_calls a' = last_calls a \<or> last_calls a' = (last_calls a)(api_uri e \<mapsto> clock e))"
  using assms
  by (auto simp: force_refresh_on_connect_failure_def fits_memory_def Let_def split: if_splits option.splits)

text \<open>A step sends at most one request, which fits what is remembered, and remembers it.\<close>

lemma step_memory:
  assumes "api_step l s a = (a', rs)"
  shows "rs = [] \<and> last_calls a' = last_calls a \<and> last_forced_refresh a' = last_forced_refresh a \<or>
    (\<exists>r. rs = [r] \<and> step_time s = Some (request_time r) \<and> fits_memory r a \<and> remembered a' r \<and>
      (last_forced_refresh a' = last_forced_refresh a \<or> last_forced_refresh a' = step_time s) \<and>
      (\<forall>u. last_calls a' u = last_calls a u \<or> last_calls a' u = step_time s))"
proof (cases s)
  case (Call e)
  obtain r where "api_call l e a = (r, a', rs)" using assms Call by (cases "api_call l e a") auto
  from api_call_memory [OF this] Call show ?thesis by (auto simp: fits_memory_def split: if_splits)
next
  case Erase
  with assms show ?thesis by (auto simp: api_erase_def)
next
  case (ForceRefresh e)
  obtain b where "force_refresh_on_connect_failure l e a = (b, a', rs)"
    using assms ForceRefresh by (cases "force_refresh_on_connect_failure l e a") auto
  from forced_memory [OF this] ForceRefresh show ?thesis by (auto split: if_splits)
qed

lemma remembered_step:
  assumes "api_step l s a = (a', rs)" "remembered a r" "\<forall>t. step_time s = Some t \<longrightarrow> request_time r \<le> t"
  shows "remembered a' r"
proof (cases r)
  case (Ordinary u t)
  with step_memory [OF assms(1)] assms(2,3) show ?thesis by (metis order_trans remembered.simps(1) request_time.simps(1) order_refl)
next
  case (Forced u t)
  with step_memory [OF assms(1)] assms(2,3) show ?thesis by (metis order_trans remembered.simps(2) request_time.simps(2) order_refl)
qed

lemma remembered_apart: "remembered a p \<Longrightarrow> fits_memory r a \<Longrightarrow> apart p r"
  by (cases p; cases r) (auto simp: fits_memory_def)

lemma run_apart:
  assumes "in_order ss" and "\<forall>p \<in> set past. remembered a p \<and> (\<forall>t \<in> set (List.map_filter step_time ss). request_time p \<le> t)"
    and "api_run l ss a = (a', rs)"
  shows "sorted_wrt apart rs \<and> (\<forall>p \<in> set past. \<forall>r \<in> set rs. apart p r)"
  using assms
proof (induction ss arbitrary: past a rs)
  case Nil
  then show ?case by simp
next
  case (Cons s ss)
  obtain a1 r1 where s: "api_step l s a = (a1, r1)" by (cases "api_step l s a")
  obtain r2 where r2: "api_run l ss a1 = (a', r2)" and rs: "rs = r1 @ r2"
    using Cons.prems(3) s by (auto split: prod.splits)
  have order: "in_order ss"
    using Cons.prems(1) by (auto simp: in_order_def List.map_filter_def split: option.splits if_splits)
  have later: "t \<le> t'" if "step_time s = Some t" "t' \<in> set (List.map_filter step_time ss)" for t t'
    using Cons.prems(1) that by (simp add: in_order_def List.map_filter_simps)
  have kept: "remembered a1 p \<and> (\<forall>t \<in> set (List.map_filter step_time ss). request_time p \<le> t)" if "p \<in> set past" for p
    using Cons.prems(2) that remembered_step [OF s, of p]
    by (auto simp: List.map_filter_simps split: option.splits)
  have new: "remembered a1 r \<and> (\<forall>t \<in> set (List.map_filter step_time ss). request_time r \<le> t) \<and> fits_memory r a"
    if "r \<in> set r1" for r
    using step_memory [OF s] that later by auto
  have "sorted_wrt apart r2 \<and> (\<forall>p \<in> set (past @ r1). \<forall>r \<in> set r2. apart p r)"
    by (rule Cons.IH [OF order _ r2]) (use kept new in auto)
  moreover have "sorted_wrt apart r1" using step_memory [OF s] by auto
  moreover have "\<forall>p \<in> set past. \<forall>r \<in> set r1. apart p r"
    using Cons.prems(2) new remembered_apart by blast
  ultimately show ?case by (auto simp: rs sorted_wrt_append)
qed

text \<open>
  The service is not asked too often.  In any run of calls, erasures, turns of the background task and forced
  refreshes, with a clock that does not go back: two ordinary requests of one address are eleven hours apart or more, and two
  forced ones an hour.
\<close>

theorem service_rate_limit:
  assumes "in_order ss"
  shows "sorted_wrt apart (snd (api_run l ss (new_api cache)))"
proof -
  obtain a' rs where r: "api_run l ss (new_api cache) = (a', rs)" by (cases "api_run l ss (new_api cache)")
  from run_apart [OF assms, where past = "[]", OF _ r] r show ?thesis by simp
qed

definition plain_lib :: "string api_lib" where
  "plain_lib = \<lparr>is_object = (\<lambda>j. True), encode = (\<lambda>j. j), decode = Some\<rparr>"

definition env_at :: "int \<Rightarrow> string option \<Rightarrow> string api_env" where
  "env_at t answer = \<lparr>clock = t, api_uri = ''https://api'', local_json = None, http = answer\<rparr>"

lemmas api_eval = api_call_def call_service_def try_api_call_def load_from_persistent_cache_def store_cache_def
  start_background_refresh_def api_erase_def force_refresh_on_connect_failure_def new_api_def plain_lib_def env_at_def
  in_order_def

definition sample_run :: "string api_op list" where
  "sample_run = [Call (env_at 0 None), Call (env_at 40000000 (Some ''{}'')), ForceRefresh (env_at 40000000 None),
     Erase, Call (env_at 80000000 (Some ''{}''))]"

lemma sample_requests: "snd (api_run plain_lib sample_run (new_api [])) =
    [Ordinary ''https://api'' 0, Ordinary ''https://api'' 40000000, Forced ''https://api'' 40000000,
     Ordinary ''https://api'' 80000000]"
  by (simp add: sample_run_def api_eval)

theorem service_rate_limit_witness:
  "sorted_wrt apart [Ordinary ''https://api'' 0, Ordinary ''https://api'' 40000000,
     Forced ''https://api'' 40000000, Ordinary ''https://api'' 80000000]"
  using service_rate_limit [where ss = sample_run and l = plain_lib and cache = "[]"] unfolding sample_requests
  by (simp add: sample_run_def in_order_def List.map_filter_simps env_at_def)

subsection \<open>What a call returns\<close>

text \<open>
  With an answer on record a call never fails.  When an earlier answer is in memory, or is in the configuration and
  can be read, a call returns an answer, whether it was asked to refresh or not, and whether the service
  can be reached or not.
\<close>

theorem cached_call_answers:
  assumes "response a \<noteq> None \<and> \<not> force_refresh a \<or> api_cache a \<noteq> [] \<and> decode l (api_cache a) \<noteq> None"
  shows "fst (api_call l e a) \<noteq> None"
proof -
  have service: "fst (call_service l e b) \<noteq> None" if "api_cache b \<noteq> []" "decode l (api_cache b) \<noteq> None" for b
    using that
    by (auto simp: call_service_def try_api_call_def load_from_persistent_cache_def split: option.splits if_splits prod.splits)
  show ?thesis
    using assms service [of "a\<lparr>force_refresh := False\<rparr>"]
    by (auto simp: api_call_def Let_def load_from_persistent_cache_def split: option.split)
qed

theorem cached_call_answers_witness:
  "fst (api_call plain_lib (env_at 5 None) (api_erase (new_api ''{}''))) \<noteq> None"
  using cached_call_answers [of "api_erase (new_api ''{}'')" plain_lib "env_at 5 None"] by (simp add: api_eval)

text \<open>
  One failure without a network lasts eleven hours.  The instant of a request is noted before it is sent.  When
  the first call of a machine that has no answer on record meets no network, every call in the next eleven hours
  fails without asking, with or without a network.
\<close>

theorem offline_start_blocks:
  assumes "http e1 = None" "local_json e1 = None" and "api_call l e1 (new_api []) = (r, a, rs)"
    and "\<forall>e \<in> set es. api_uri e = api_uri e1 \<and> local_json e = None \<and> clock e < clock e1 + 39600000"
  shows "r = None \<and> api_run l (map Call es) a = (a, []) \<and> (\<forall>e \<in> set es. api_call l e a = (None, a, []))"
proof -
  have first: "r = None \<and> a = (new_api [])\<lparr>last_calls := [api_uri e1 \<mapsto> clock e1]\<rparr>"
    using assms(1-3)
    by (auto simp: api_call_def call_service_def try_api_call_def load_from_persistent_cache_def new_api_def)
  have soon: "clock e - clock e1 < 39600000" "api_uri e = api_uri e1" "local_json e = None" if "e \<in> set es" for e
    using that assms(4) by force+
  have call: "api_call l e a = (None, a, [])" if "e \<in> set es" for e
    using first soon [OF that]
    by (simp add: api_call_def Let_def call_service_def try_api_call_def load_from_persistent_cache_def new_api_def)
  then have "api_run l (map Call es) a = (a, [])" by (induction es) auto
  with first call show ?thesis by blast
qed

theorem offline_start_blocks_witness:
  "fst (api_call plain_lib (env_at 36000000 (Some ''{}'')) (fst (snd (api_call plain_lib (env_at 0 None) (new_api []))))) = None"
proof -
  obtain r a rs where c: "api_call plain_lib (env_at 0 None) (new_api []) = (r, a, rs)"
    by (cases "api_call plain_lib (env_at 0 None) (new_api [])")
  from offline_start_blocks [OF _ _ c, where es = "[env_at 36000000 (Some ''{}'')]"] c
  show ?thesis by (simp add: env_at_def)
qed

end
