(* ===== verification/Relay_Candidates.thy ===== *)
theory Relay_Candidates
  imports Prelude
begin

text \<open>
  The choice of a relay on the controlling side, \<^verbatim>\<open>src/turn_client.rs\<close>: the list of TURN servers (\<open>get_server_configs\<close>,
  \<open>get_turn_servers\<close> with its cache), the attempts of \<open>connect_over_turn_servers\<close>, and the cached public address.  The
  client of the TURN protocol is a library of the repository; what an attempt meets is an argument: which
  candidate allocates first, and whether the peer then comes over it.  Instants are in milliseconds.
\<close>

subsection \<open>The servers\<close>

text \<open>An entry of the list of the service: its fields, where they are strings.\<close>

record turn_entry =
  host :: "string option"
  port :: "string option"
  protocol :: "string option"
  username :: "string option"
  password :: "string option"

record turn_config =
  addr :: string
  user :: string
  pass :: string
  tls_domain :: "string option"

text \<open>A missing field ends the whole reading; a host that is no name for TLS makes it panic.\<close>

datatype 'a reading = Read 'a | Missing | Panic

definition entry_addr :: "string \<Rightarrow> string \<Rightarrow> string" where
  "entry_addr h p = (if CHR '':'' \<in> set h then ''['' @ h @ '']:'' @ p else h @ '':'' @ p)"

text \<open>What one entry of an address not seen before adds.\<close>

definition entry_config :: "(string \<Rightarrow> bool) \<Rightarrow> string \<Rightarrow> turn_entry \<Rightarrow> turn_config list reading" where
  "entry_config valid_domain a e =
     (case protocol e of
        None \<Rightarrow> Missing
      | Some p \<Rightarrow>
          if p = ''turn'' then
            (case (username e, password e) of
               (Some u, Some w) \<Rightarrow> Read [\<lparr>addr = a, user = u, pass = w, tls_domain = None\<rparr>]
             | _ \<Rightarrow> Missing)
          else if p = ''turn-tls'' then
            (case (username e, password e, host e) of
               (Some u, Some w, Some h) \<Rightarrow>
                 if valid_domain h then Read [\<lparr>addr = a, user = u, pass = w, tls_domain = Some h\<rparr>] else Panic
             | _ \<Rightarrow> Missing)
          else Read [])"

fun read_entries :: "(string \<Rightarrow> bool) \<Rightarrow> string set \<Rightarrow> turn_entry list \<Rightarrow> turn_config list reading" where
  "read_entries valid_domain seen [] = Read []"
| "read_entries valid_domain seen (e # es) =
     (case (host e, port e) of
        (Some h, Some p) \<Rightarrow>
          (let a = entry_addr h p
           in if a \<in> seen then read_entries valid_domain seen es
              else (case entry_config valid_domain a e of
                  Read cs \<Rightarrow>
                    (case read_entries valid_domain (insert a seen) es of Read cs' \<Rightarrow> Read (cs @ cs') | r \<Rightarrow> r)
                | r \<Rightarrow> r))
      | _ \<Rightarrow> Missing)"

text \<open>The answer of the service, if there is one: its list of servers, if it has one.\<close>

definition get_server_configs :: "(string \<Rightarrow> bool) \<Rightarrow> turn_entry list option option \<Rightarrow> turn_config list reading" where
  "get_server_configs valid_domain answer =
     (case answer of
        None \<Rightarrow> Missing
      | Some None \<Rightarrow> Read [\<lparr>addr = ''127.0.0.1:3478'', user = '''', pass = '''', tls_domain = None\<rparr>]
      | Some (Some es) \<Rightarrow> read_entries valid_domain {} es)"

type_synonym turn_cache = "(turn_config list \<times> int) option"

fun fetch_turn_servers :: "turn_config list reading list \<Rightarrow> turn_config list reading" where
  "fetch_turn_servers [] = Missing"
| "fetch_turn_servers (r # rs) =
     (case r of
        Read cs \<Rightarrow> if cs \<noteq> [] then Read cs else fetch_turn_servers rs
      | Missing \<Rightarrow> fetch_turn_servers rs
      | Panic \<Rightarrow> Panic)"

definition get_turn_servers ::
  "int \<Rightarrow> turn_config list reading list \<Rightarrow> turn_cache \<Rightarrow> turn_config list reading \<times> turn_cache" where
  "get_turn_servers t answers cache =
     (case cache of
        Some (cs, cached_at) \<Rightarrow>
          if t - cached_at < 60000 then (Read cs, cache)
          else (case fetch_turn_servers (take 3 answers) of Read cs' \<Rightarrow> (Read cs', Some (cs', t)) | r \<Rightarrow> (r, cache))
      | None \<Rightarrow>
          (case fetch_turn_servers (take 3 answers) of Read cs' \<Rightarrow> (Read cs', Some (cs', t)) | r \<Rightarrow> (r, cache)))"

subsection \<open>The attempts\<close>

datatype outcome = Connected turn_config | Exhausted "string list"

text \<open>
  One attempt: the candidates allocate at the same time, and the first that succeeds is chosen; then the peer has to
  come over it.  The arguments \<open>alloc\<close> and \<open>comes\<close> say so for the attempt of a number; \<open>left\<close> is the number of attempts left.
\<close>

fun attempts ::
  "(nat \<Rightarrow> turn_config list \<Rightarrow> turn_config option) \<Rightarrow> (nat \<Rightarrow> turn_config \<Rightarrow> bool) \<Rightarrow> turn_config list \<Rightarrow> nat \<Rightarrow> nat
     \<Rightarrow> string list \<Rightarrow> outcome \<times> turn_config list" where
  "attempts alloc comes servers attempt 0 excluded = (Exhausted excluded, [])"
| "attempts alloc comes servers attempt (Suc left) excluded =
     (let candidates = filter (\<lambda>c. addr c \<notin> set excluded) servers
      in if candidates = [] then (Exhausted excluded, [])
         else (case alloc attempt candidates of
             None \<Rightarrow> (Exhausted excluded, [])
           | Some c \<Rightarrow>
               if comes attempt c then (Connected c, [c])
               else (case attempts alloc comes servers (Suc attempt) left (excluded @ [addr c]) of
                   (r, tried) \<Rightarrow> (r, c # tried))))"

definition relay_round ::
  "(nat \<Rightarrow> turn_config list \<Rightarrow> turn_config option) \<Rightarrow> (nat \<Rightarrow> turn_config \<Rightarrow> bool) \<Rightarrow> turn_config list
     \<Rightarrow> outcome \<times> turn_config list" where
  "relay_round alloc comes servers = attempts alloc comes servers 0 (min (length servers) 5) []"

text \<open>A round, after which the list is refreshed once, if that may be done and works, for a second round.\<close>

record relay_env =
  servers_now :: "nat \<Rightarrow> turn_config list reading"
  allocates :: "nat \<Rightarrow> nat \<Rightarrow> turn_config list \<Rightarrow> turn_config option"
  peer_comes :: "nat \<Rightarrow> nat \<Rightarrow> turn_config \<Rightarrow> bool"
  refreshed :: bool

datatype relay_result = RelayConnected turn_config | RelayFailed nat | NoServers | RelayPanic

definition round_of :: "relay_env \<Rightarrow> nat \<Rightarrow> (relay_result + string list) \<times> turn_config list" where
  "round_of e n =
     (case servers_now e n of
        Missing \<Rightarrow> (Inl NoServers, [])
      | Panic \<Rightarrow> (Inl RelayPanic, [])
      | Read servers \<Rightarrow>
          if servers = [] then (Inl NoServers, [])
          else (case relay_round (allocates e n) (peer_comes e n) servers of
              (Connected c, tried) \<Rightarrow> (Inl (RelayConnected c), tried)
            | (Exhausted excluded, tried) \<Rightarrow> (Inr excluded, tried)))"

definition connect_over_turn_servers :: "relay_env \<Rightarrow> relay_result \<times> turn_config list" where
  "connect_over_turn_servers e =
     (case round_of e 0 of
        (Inl r, tried) \<Rightarrow> (r, tried)
      | (Inr excluded, tried) \<Rightarrow>
          if refreshed e then
            (case round_of e 1 of
               (Inl r, tried') \<Rightarrow> (r, tried @ tried')
             | (Inr excluded', tried') \<Rightarrow> (RelayFailed (max (length excluded') 1), tried @ tried'))
          else (RelayFailed (max (length excluded) 1), tried))"

subsection \<open>The public address\<close>

type_synonym 'a public_ip = "(string \<times> 'a \<times> int) option"

text \<open>The answers of the servers in the order in which they come.\<close>

definition get_public_ip ::
  "int \<Rightarrow> string option \<Rightarrow> 'a option list option \<Rightarrow> 'a public_ip \<Rightarrow> 'a option \<times> 'a public_ip" where
  "get_public_ip t lan answers cache =
     (let ask = (case answers of
            None \<Rightarrow> (None, None)
          | Some as \<Rightarrow>
              (case List.find (\<lambda>x. x \<noteq> None) as of
                 Some (Some a) \<Rightarrow> (Some a, case lan of Some ip \<Rightarrow> Some (ip, a, t) | None \<Rightarrow> None)
               | _ \<Rightarrow> (None, None)))
      in case cache of
           Some (cached_ip, a, cached_at) \<Rightarrow>
             if t - cached_at < 600000 then
               (case lan of
                  None \<Rightarrow> (None, cache)
                | Some ip \<Rightarrow> if cached_ip = ip then (Some a, cache) else ask)
             else ask
         | None \<Rightarrow> ask)"

subsection \<open>Properties\<close>

lemma read_entries_distinct:
  "read_entries v seen es = Read cs \<Longrightarrow> distinct (map addr cs) \<and> set (map addr cs) \<inter> seen = {}"
proof (induction es arbitrary: seen cs)
  case (Cons e es)
  from Cons.prems obtain h p where hp: "host e = Some h" "port e = Some p" by (auto split: option.splits)
  define a where "a = entry_addr h p"
  show ?case
  proof (cases "a \<in> seen")
    case True
    with Cons hp show ?thesis by (simp add: a_def)
  next
    case False
    with Cons.prems hp obtain cs1 cs2 where c: "entry_config v a e = Read cs1"
        "read_entries v (insert a seen) es = Read cs2" "cs = cs1 @ cs2"
      by (auto simp: a_def Let_def split: reading.splits)
    have "cs1 = [] \<or> (\<exists>c. cs1 = [c] \<and> addr c = a)"
      using c(1) by (auto simp: entry_config_def split: option.splits if_splits)
    with Cons.IH [OF c(2)] c(3) False show ?thesis by auto
  qed
qed simp

lemma attempts_props:
  assumes "\<And>n cs c. alloc n cs = Some c \<Longrightarrow> c \<in> set cs"
    and "attempts alloc comes servers attempt left excluded = (r, tried)"
  shows "length tried \<le> left \<and> distinct (map addr tried) \<and> set (map addr tried) \<inter> set excluded = {} \<and>
    set tried \<subseteq> set servers \<and>
    (case r of
       Connected c \<Rightarrow> tried \<noteq> [] \<and> c = last tried
     | Exhausted ex \<Rightarrow> ex = excluded @ map addr tried)"
  using assms(2)
proof (induction left arbitrary: attempt excluded r tried)
  case (Suc left)
  define candidates where "candidates = filter (\<lambda>c. addr c \<notin> set excluded) servers"
  show ?case
  proof (cases "candidates = [] \<or> alloc attempt candidates = None")
    case True
    then have "attempts alloc comes servers attempt (Suc left) excluded = (Exhausted excluded, [])"
      by (auto simp: candidates_def Let_def)
    with Suc.prems show ?thesis by auto
  next
    case False
    then obtain c where c: "candidates \<noteq> []" "alloc attempt candidates = Some c" by auto
    then have member: "c \<in> set servers" "addr c \<notin> set excluded"
      using assms(1) [OF c(2)] by (auto simp: candidates_def)
    show ?thesis
    proof (cases "comes attempt c")
      case True
      with Suc.prems c member show ?thesis by (auto simp: candidates_def [symmetric] Let_def)
    next
      case no: False
      obtain r1 t1 where rest: "attempts alloc comes servers (Suc attempt) left (excluded @ [addr c]) = (r1, t1)"
        by (cases "attempts alloc comes servers (Suc attempt) left (excluded @ [addr c])")
      with Suc.prems c no have "r = r1" "tried = c # t1" by (auto simp: candidates_def [symmetric] Let_def)
      with Suc.IH [OF rest] member show ?thesis by (auto split: outcome.splits)
    qed
  qed
qed auto

lemma relay_round_props:
  assumes "\<And>n cs c. alloc n cs = Some c \<Longrightarrow> c \<in> set cs" and "relay_round alloc comes servers = (r, tried)"
  shows "length tried \<le> 5 \<and> distinct (map addr tried) \<and> set tried \<subseteq> set servers \<and>
    (\<forall>c. r = Connected c \<longrightarrow> tried \<noteq> [] \<and> c = last tried)"
  using attempts_props [OF assms(1) assms(2) [unfolded relay_round_def]] by (auto split: outcome.splits)

lemma round_of_props:
  assumes "\<And>n cs c. allocates e k n cs = Some c \<Longrightarrow> c \<in> set cs" and "round_of e k = (x, tried)"
  shows "length tried \<le> 5 \<and> distinct (map addr tried) \<and>
    (\<forall>c. x = Inl (RelayConnected c) \<longrightarrow> tried \<noteq> [] \<and> c = last tried)"
proof (cases "servers_now e k")
  case (Read servers)
  obtain r t where r: "relay_round (allocates e k) (peer_comes e k) servers = (r, t)"
    by (cases "relay_round (allocates e k) (peer_comes e k) servers")
  from relay_round_props [OF assms(1) r] r Read assms(2) show ?thesis
    by (auto simp: round_of_def split: if_splits outcome.splits)
qed (use assms(2) in \<open>auto simp: round_of_def\<close>)

text \<open>
  The search for a relay ends soon and does not repeat itself.  It tries at most five servers in a round and at
  most two rounds, the second only after the list was refreshed; within a round no address is tried twice; and when
  it succeeds, the connection goes over the server that was tried last.
\<close>

theorem relay_search_bounded:
  assumes "\<And>k n cs c. allocates e k n cs = Some c \<Longrightarrow> c \<in> set cs" and "connect_over_turn_servers e = (res, tried)"
  shows "\<exists>first second. tried = first @ second \<and> length first \<le> 5 \<and> length second \<le> 5 \<and>
    distinct (map addr first) \<and> distinct (map addr second) \<and> (second \<noteq> [] \<longrightarrow> refreshed e) \<and>
    (\<forall>c. res = RelayConnected c \<longrightarrow> tried \<noteq> [] \<and> c = last tried)"
proof -
  obtain x0 t0 where r0: "round_of e 0 = (x0, t0)" by (cases "round_of e 0")
  obtain x1 t1 where r1: "round_of e 1 = (x1, t1)" by (cases "round_of e 1")
  note p0 = round_of_props [OF assms(1) r0] and p1 = round_of_props [OF assms(1) r1]
  show ?thesis
  proof (cases "refreshed e \<and> isl x0 = False")
    case True
    then have "tried = t0 @ t1" "\<forall>c. res = RelayConnected c \<longrightarrow> x1 = Inl (RelayConnected c)"
      using assms(2) r0 r1 by (auto simp: connect_over_turn_servers_def split: sum.splits)
    with p0 p1 True show ?thesis by fastforce
  next
    case False
    then have "tried = t0" "\<forall>c. res = RelayConnected c \<longrightarrow> x0 = Inl (RelayConnected c)"
      using assms(2) r0 by (auto simp: connect_over_turn_servers_def split: sum.splits if_splits)
    with p0 show ?thesis by (intro exI [of _ t0] exI [of _ "[]"]) simp
  qed
qed

lemma distinct_addr: "distinct (map addr servers) \<Longrightarrow> c \<in> set servers \<Longrightarrow> g \<in> set servers \<Longrightarrow> addr c = addr g \<Longrightarrow> c = g"
  by (auto simp: distinct_map inj_on_def)

lemma attempts_find:
  assumes alloc: "\<And>n cs. cs \<noteq> [] \<Longrightarrow> \<exists>c \<in> set cs. alloc n cs = Some c" and good: "\<And>n. comes n g"
    and "distinct (map addr servers)" "g \<in> set servers" and "addr g \<notin> set excluded"
    and "length (filter (\<lambda>c. addr c \<notin> set excluded) servers) \<le> left"
  shows "\<exists>c. fst (attempts alloc comes servers attempt left excluded) = Connected c"
  using assms(5,6)
proof (induction left arbitrary: attempt excluded)
  case 0
  with assms(4) show ?case by (auto simp: filter_empty_conv)
next
  case (Suc left)
  define candidates where "candidates = filter (\<lambda>c. addr c \<notin> set excluded) servers"
  have "g \<in> set candidates" using Suc.prems(1) assms(4) by (simp add: candidates_def)
  then have nonempty: "candidates \<noteq> []" by auto
  then obtain c where c: "c \<in> set candidates" "alloc attempt candidates = Some c" using alloc by blast
  show ?case
  proof (cases "comes attempt c")
    case True
    with c nonempty show ?thesis by (simp add: candidates_def [symmetric] Let_def)
  next
    case False
    with good have "c \<noteq> g" by auto
    then have g: "addr g \<notin> set (excluded @ [addr c])"
      using Suc.prems(1) c(1) assms(3,4) distinct_addr [of servers c g] by (auto simp: candidates_def)
    have "filter (\<lambda>d. addr d \<notin> set (excluded @ [addr c])) servers = filter (\<lambda>d. addr d \<noteq> addr c) candidates"
      by (auto simp: candidates_def intro!: filter_cong)
    moreover have "length (filter (\<lambda>d. addr d \<noteq> addr c) candidates) < length candidates"
      using c(1) by (intro length_filter_less) auto
    ultimately have "length (filter (\<lambda>d. addr d \<notin> set (excluded @ [addr c])) servers) \<le> left"
      using Suc.prems(2) by (simp add: candidates_def)
    from Suc.IH [OF g this, of "Suc attempt"] False c nonempty show ?thesis
      by (auto simp: candidates_def [symmetric] Let_def split: prod.split)
  qed
qed

text \<open>
  C23. A relay that works is found.  When the service names five servers or fewer, some candidate allocates in every
  attempt, and there is a server over which the peer would come, a connection is made, however many
  of the other servers fail after they have allocated.
\<close>

theorem working_relay_found:
  assumes "servers_now e 0 = get_server_configs valid_domain (Some (Some es))" "servers_now e 0 = Read servers"
    and "length servers \<le> 5" "g \<in> set servers" "\<And>n. peer_comes e 0 n g"
    and "\<And>n cs. cs \<noteq> [] \<Longrightarrow> \<exists>c \<in> set cs. allocates e 0 n cs = Some c"
  shows "\<exists>c tried. connect_over_turn_servers e = (RelayConnected c, tried)"
proof -
  have "read_entries valid_domain {} es = Read servers" using assms(1,2) by (simp add: get_server_configs_def)
  from read_entries_distinct [OF this] have "distinct (map addr servers)" by simp
  from attempts_find [where alloc = "allocates e 0" and comes = "peer_comes e 0" and g = g and excluded = "[]"
      and left = "min (length servers) 5" and attempt = 0, OF assms(6,5) this assms(4)] assms(3)
  obtain c where "fst (relay_round (allocates e 0) (peer_comes e 0) servers) = Connected c"
    by (auto simp: relay_round_def)
  then obtain t where "relay_round (allocates e 0) (peer_comes e 0) servers = (Connected c, t)"
    by (metis prod.collapse)
  with assms(2,4) have "round_of e 0 = (Inl (RelayConnected c), t)" by (auto simp: round_of_def)
  then show ?thesis by (simp add: connect_over_turn_servers_def)
qed

definition turn_of :: "string \<Rightarrow> turn_entry" where
  "turn_of h = \<lparr>host = Some h, port = Some ''3478'', protocol = Some ''turn'', username = Some ''u'', password = Some ''p''\<rparr>"

definition config_of :: "string \<Rightarrow> turn_config" where
  "config_of h = \<lparr>addr = h @ '':3478'', user = ''u'', pass = ''p'', tls_domain = None\<rparr>"

definition two_relays :: relay_env where
  "two_relays = \<lparr>servers_now = (\<lambda>k. get_server_configs (\<lambda>d. True) (Some (Some [turn_of ''a'', turn_of ''b'', turn_of ''a'']))),
     allocates = (\<lambda>k n cs. case cs of c # _ \<Rightarrow> Some c | [] \<Rightarrow> None),
     peer_comes = (\<lambda>k n c. addr c = ''b:3478''), refreshed = False\<rparr>"

lemma two_relays_servers: "servers_now two_relays k = Read [config_of ''a'', config_of ''b'']"
  by (simp add: two_relays_def get_server_configs_def turn_of_def config_of_def entry_addr_def entry_config_def Let_def)

theorem relay_search_bounded_witness:
  "\<exists>first second. snd (connect_over_turn_servers two_relays) = first @ second \<and> length first \<le> 5 \<and> second = []"
proof -
  obtain res tried where c: "connect_over_turn_servers two_relays = (res, tried)"
    by (cases "connect_over_turn_servers two_relays")
  have "allocates two_relays k n cs = Some d \<Longrightarrow> d \<in> set cs" for k n cs d
    by (auto simp: two_relays_def split: list.splits)
  from relay_search_bounded [OF this c] c show ?thesis by (auto simp: two_relays_def)
qed

theorem working_relay_found_witness:
  "\<exists>c tried. connect_over_turn_servers two_relays = (RelayConnected c, tried)"
proof (rule working_relay_found [OF _ two_relays_servers])
  show "servers_now two_relays 0 = get_server_configs (\<lambda>d. True) (Some (Some [turn_of ''a'', turn_of ''b'', turn_of ''a'']))"
    by (simp add: two_relays_def)
  show "config_of ''b'' \<in> set [config_of ''a'', config_of ''b'']" by simp
  show "peer_comes two_relays 0 n (config_of ''b'')" for n by (simp add: two_relays_def config_of_def)
  show "cs \<noteq> [] \<Longrightarrow> \<exists>c \<in> set cs. allocates two_relays 0 n cs = Some c" for n cs
    by (cases cs) (auto simp: two_relays_def)
qed simp

end
