(* ===== verification/Utf8.thy ===== *)
theory Utf8
  imports Prelude
begin

text \<open>
  The conversions between bytes and text of the standard library that the components use:
  \<^verbatim>\<open>String::from_utf8_lossy\<close>, the length of a string in bytes and \<^verbatim>\<open>into_bytes\<close>.
  A text is the list of its scalar values.
\<close>

type_synonym utext = "nat list"

definition cont :: "nat \<Rightarrow> bool" where
  "cont b = (128 \<le> b \<and> b \<le> 191)"

text \<open>Which second byte may follow a first byte of three or of four bytes.\<close>

definition second3 :: "nat \<Rightarrow> nat \<Rightarrow> bool" where
  "second3 a b =
     (if a = 224 then 160 \<le> b \<and> b \<le> 191
      else if a = 237 then 128 \<le> b \<and> b \<le> 159
      else cont b)"

definition second4 :: "nat \<Rightarrow> nat \<Rightarrow> bool" where
  "second4 a b =
     (if a = 240 then 144 \<le> b \<and> b \<le> 191
      else if a = 244 then 128 \<le> b \<and> b \<le> 143
      else cont b)"

text \<open>
  Every maximal part of a sequence that cannot go on is replaced by U+FFFD; a byte past the end
  counts as 0.
\<close>

definition byte_at :: "nat list \<Rightarrow> nat \<Rightarrow> nat" where
  "byte_at bs i = (if i < length bs then bs ! i else 0)"

text \<open>The scalar value at the front, and how many bytes after the first belong to it.\<close>

definition front :: "nat \<Rightarrow> nat list \<Rightarrow> nat \<times> nat" where
  "front a r =
     (let b = byte_at r 0; c = byte_at r 1; d = byte_at r 2
      in if a < 128 then (a, 0)
         else if 194 \<le> a \<and> a \<le> 223 then
           (if cont b then ((a - 192) * 64 + (b - 128), 1) else (0xFFFD, 0))
         else if 224 \<le> a \<and> a \<le> 239 then
           (if \<not> second3 a b then (0xFFFD, 0)
            else if \<not> cont c then (0xFFFD, 1)
            else ((a - 224) * 4096 + (b - 128) * 64 + (c - 128), 2))
         else if 240 \<le> a \<and> a \<le> 244 then
           (if \<not> second4 a b then (0xFFFD, 0)
            else if \<not> cont c then (0xFFFD, 1)
            else if \<not> cont d then (0xFFFD, 2)
            else ((a - 240) * 262144 + (b - 128) * 4096 + (c - 128) * 64 + (d - 128), 3))
         else (0xFFFD, 0))"

function lossy :: "nat list \<Rightarrow> utext" where
  "lossy [] = []"
| "lossy (a # r) = (case front a r of (c, n) \<Rightarrow> c # lossy (drop n r))"
  by pat_completeness auto
termination by (relation "measure length") auto

definition from_utf8_lossy :: "bytes \<Rightarrow> utext" where
  "from_utf8_lossy bs = lossy (map unat bs)"

subsection \<open>Encoding\<close>

definition encode_nat :: "nat \<Rightarrow> nat list" where
  "encode_nat c =
     (if c < 128 then [c]
      else if c < 2048 then [192 + c div 64, 128 + c mod 64]
      else if c < 65536 then [224 + c div 4096, 128 + c div 64 mod 64, 128 + c mod 64]
      else [240 + c div 262144, 128 + c div 4096 mod 64, 128 + c div 64 mod 64, 128 + c mod 64])"

definition into_bytes :: "utext \<Rightarrow> bytes" where
  "into_bytes t = map word_of_nat (concat (map encode_nat t))"

definition utf8_len :: "utext \<Rightarrow> nat" where
  "utf8_len t = length (into_bytes t)"

definition scalar :: "nat \<Rightarrow> bool" where
  "scalar c = (c < 0xD800 \<or> 0xE000 \<le> c \<and> c \<le> 0x10FFFF)"

lemma encode_nat_byte: "scalar c \<Longrightarrow> x \<in> set (encode_nat c) \<Longrightarrow> x < 256"
  by (auto simp: encode_nat_def scalar_def split: if_splits)

lemma mod63 [simp]: "(x::nat) mod 64 \<le> 63"
  using mod_less_divisor [of 64 x] by linarith

lemma three_bytes:
  fixes c :: nat
  shows "c div 4096 * 4096 + c div 64 mod 64 * 64 + c mod 64 = c"
proof -
  have "c = c div 64 * 64 + c mod 64" "c div 64 = c div 4096 * 64 + c div 64 mod 64"
    using div_mult_mod_eq [of "c div 64" 64] by (simp_all add: div_mult2_eq [symmetric])
  then show ?thesis by linarith
qed

lemma four_bytes:
  fixes c :: nat
  shows "c div 262144 * 262144 + c div 4096 mod 64 * 4096 + c div 64 mod 64 * 64 + c mod 64 = c"
proof -
  have "c div 4096 = c div 262144 * 64 + c div 4096 mod 64"
    using div_mult_mod_eq [of "c div 4096" 64] by (simp add: div_mult2_eq [symmetric])
  with three_bytes [of c] show ?thesis by linarith
qed

lemma front_encode:
  assumes "scalar c"
  shows "\<exists>a r. encode_nat c = a # r \<and> front a (r @ s) = (c, length r)"
proof -
  consider "c < 128" | "128 \<le> c" "c < 2048" | "2048 \<le> c" "c < 65536" | "65536 \<le> c" by linarith
  then show ?thesis
  proof cases
    case 1
    then show ?thesis by (simp add: encode_nat_def front_def)
  next
    case 2
    define q r where "q = c div 64" and "r = c mod 64"
    have "c = q * 64 + r" "r \<le> 63" by (simp_all add: q_def r_def)
    moreover from this 2 have "2 \<le> q" "q \<le> 31" by linarith+
    moreover have "encode_nat c = [192 + q, 128 + r]"
      using 2 by (simp add: encode_nat_def q_def r_def)
    ultimately show ?thesis using 2
      by (simp add: front_def byte_at_def cont_def Let_def)
  next
    case 3
    then have le: "c div 4096 \<le> 15" by auto
    have s: "second3 (224 + c div 4096) (128 + c div 64 mod 64)"
    proof -
      have eq: "c div 64 = c div 4096 * 64 + c div 64 mod 64"
        using div_mult_mod_eq [of "c div 64" 64] by (simp add: div_mult2_eq [symmetric])
      have "32 \<le> c div 64" using 3 by auto
      then have "c div 4096 = 0 \<Longrightarrow> 32 \<le> c div 64 mod 64" using eq by linarith
      moreover have "c div 64 < 864 \<or> 896 \<le> c div 64"
        using assms 3 by (auto simp: scalar_def)
      then have "c div 4096 = 13 \<Longrightarrow> c div 64 mod 64 \<le> 31" using eq by linarith
      moreover have "c div 64 mod 64 < 64" by simp
      ultimately show ?thesis by (auto simp: second3_def cont_def)
    qed
    show ?thesis using 3 le s three_bytes [of c]
      by (simp add: encode_nat_def front_def byte_at_def cont_def Let_def)
  next
    case 4
    with assms have up: "c \<le> 0x10FFFF" by (auto simp: scalar_def)
    then have le: "c div 262144 \<le> 4" by auto
    have s: "second4 (240 + c div 262144) (128 + c div 4096 mod 64)"
    proof -
      have eq: "c div 4096 = c div 262144 * 64 + c div 4096 mod 64"
        using div_mult_mod_eq [of "c div 4096" 64] by (simp add: div_mult2_eq [symmetric])
      have "16 \<le> c div 4096" "c div 4096 \<le> 271" using 4 up by auto
      then have "c div 262144 = 0 \<Longrightarrow> 16 \<le> c div 4096 mod 64" "c div 262144 = 4 \<Longrightarrow> c div 4096 mod 64 \<le> 15"
        using eq by linarith+
      moreover have "c div 4096 mod 64 < 64" by simp
      ultimately show ?thesis by (auto simp: second4_def cont_def)
    qed
    show ?thesis using 4 le s four_bytes [of c]
      by (simp add: encode_nat_def front_def byte_at_def cont_def Let_def)
  qed
qed

lemma lossy_encode: "\<forall>c \<in> set t. scalar c \<Longrightarrow> lossy (concat (map encode_nat t)) = t"
proof (induction t)
  case (Cons c t)
  then obtain a r where "encode_nat c = a # r" "front a (r @ concat (map encode_nat t)) = (c, length r)"
    using front_encode [of c "concat (map encode_nat t)"] by auto
  with Cons show ?case by simp
qed simp

text \<open>A text survives its way through bytes.\<close>

lemma utf8_roundtrip:
  assumes "\<forall>c \<in> set t. scalar c"
  shows "from_utf8_lossy (into_bytes t) = t"
proof -
  have "map unat (into_bytes t) = concat (map encode_nat t)"
    unfolding into_bytes_def map_map
  proof (rule map_idI)
    fix x assume "x \<in> set (concat (map encode_nat t))"
    then have "x < 256" using assms encode_nat_byte by auto
    then show "(unat \<circ> (word_of_nat :: nat \<Rightarrow> u8)) x = x" by (simp add: unat_of_nat)
  qed
  then show ?thesis using lossy_encode [OF assms] by (simp add: from_utf8_lossy_def)
qed

end
