(* ===== verification/Terminal_Service.thy ===== *)
theory Terminal_Service
  imports Terminal_Buffer Utf8
begin

text \<open>
  The terminals that a host keeps for its controllers, \<^verbatim>\<open>src/server/terminal_service.rs\<close>:
  the registry of services with its limit and its clean-up, the sessions of a service with their
  shell, their two bounded channels and their reader and writer threads, and the handling of the
  controller's actions.  The last part is how \<^verbatim>\<open>src/server/connection.rs\<close> uses them: a
  service is made while a login request is looked at, before its password is.

  A sending thread that waits for room in a full channel is the result \<open>None\<close>.  The iteration
  order of a hash map is the order of the association list; nothing below depends on it.
\<close>

subsection \<open>Sessions\<close>

definition MAX_SERVICES :: nat where "MAX_SERVICES = 100"
definition SERVICE_IDLE_TIMEOUT :: nat where "SERVICE_IDLE_TIMEOUT = 3600000"
definition CHANNEL_BUFFER_SIZE :: nat where "CHANNEL_BUFFER_SIZE = 100"
definition COMPRESS_THRESHOLD :: nat where "COMPRESS_THRESHOLD = 512"

datatype reader_thread = NoReader | Reading | Finished

record terminal_session =
  pty :: bool
  ts_last_activity :: nat
  child :: "nat option"
  input_tx :: "bytes list option"
  output_rx :: "bytes list option"
  exiting :: bool
  reader :: reader_thread
  writer :: bool
  output_buffer :: output_buffer
  title :: string
  pid :: u32
  rows :: u16
  cols :: u16
  closed_message_sent :: bool
  is_opened :: bool
  command_buffer :: utext
  line_buffer :: utext

definition new_session :: "nat \<Rightarrow> int \<Rightarrow> u16 \<Rightarrow> u16 \<Rightarrow> terminal_session" where
  "new_session now i r c =
     \<lparr>pty = False, ts_last_activity = now, child = None, input_tx = None, output_rx = None, exiting = False,
      reader = NoReader, writer = False, output_buffer = output_buffer_new, title = ''Terminal '' @ int_decimal i, pid = 0,
      rows = r, cols = c, closed_message_sent = False, is_opened = False, command_buffer = [], line_buffer = []\<rparr>"

text \<open>The sending end of a bounded channel, blocking and not.\<close>

definition chan_send :: "bytes \<Rightarrow> bytes list \<Rightarrow> bytes list option" where
  "chan_send x q = (if length q < CHANNEL_BUFFER_SIZE then Some (q @ [x]) else None)"

definition chan_try_send :: "bytes \<Rightarrow> bytes list \<Rightarrow> bytes list" where
  "chan_try_send x q = (if length q < CHANNEL_BUFFER_SIZE then q @ [x] else q)"

definition ascii :: "string \<Rightarrow> bytes" where
  "ascii s = map (word_of_nat \<circ> of_char) s"

text \<open>A message for the writer thread; when the thread is gone the sending fails at once, which is only logged.\<close>

definition send_input :: "bytes \<Rightarrow> terminal_session \<Rightarrow> terminal_session option" where
  "send_input x s =
     (case input_tx s of
        None \<Rightarrow> Some s
      | Some q \<Rightarrow>
          if \<not> writer s then Some s
          else (case chan_send x q of None \<Rightarrow> None | Some q' \<Rightarrow> Some (s\<lparr>input_tx := Some q'\<rparr>)))"

text \<open>
  What is done to processes: a child is killed and given to the reaper, a child that ended is given
  to the reaper, an interrupt is sent to a console.
\<close>

datatype effect = Killed nat | ToReaper nat | CtrlC u32

text \<open>
  \<open>stop\<close>, also run when a session is dropped, with what it does to the child.  It joins both
  threads; that they end once the channels are gone is not modelled.
\<close>

definition session_stop :: "terminal_session \<Rightarrow> (terminal_session \<times> effect list) option" where
  "session_stop s =
     (case send_input [13, 10] s of
        None \<Rightarrow> None
      | Some _ \<Rightarrow>
          Some (s\<lparr>pty := False, is_opened := False, exiting := True, input_tx := None, output_rx := None,
                  reader := NoReader, writer := False, child := None\<rparr>,
                case child s of None \<Rightarrow> [] | Some p \<Rightarrow> [Killed p]))"

text \<open>One turn of the threads of a session: the reader got bytes, or its stream ended; the writer takes a message.\<close>

definition reader_reads :: "bytes \<Rightarrow> terminal_session \<Rightarrow> terminal_session" where
  "reader_reads x s =
     (if reader s \<noteq> Reading then s
      else if exiting s then s\<lparr>reader := Finished\<rparr>
      else (case output_rx s of
          None \<Rightarrow> s\<lparr>reader := Finished\<rparr>
        | Some q \<Rightarrow> s\<lparr>output_rx := Some (chan_try_send x q)\<rparr>))"

definition reader_ends :: "terminal_session \<Rightarrow> terminal_session" where
  "reader_ends s = (if reader s = Reading then s\<lparr>reader := Finished\<rparr> else s)"

definition writer_takes :: "terminal_session \<Rightarrow> bytes option \<times> terminal_session" where
  "writer_takes s =
     (case input_tx s of
        Some (x # q) \<Rightarrow> if writer s then (Some x, s\<lparr>input_tx := Some q\<rparr>) else (None, s)
      | _ \<Rightarrow> (None, s))"

definition writer_fails :: "terminal_session \<Rightarrow> terminal_session" where
  "writer_fails s = s\<lparr>writer := False\<rparr>"

subsection \<open>Services and their registry\<close>

record terminal_service =
  terms :: "(int \<times> terminal_session) list"
  created_at :: nat
  last_activity :: nat
  is_persistent :: bool
  needs_session_sync :: bool
  is_specified_user :: bool

text \<open>The registry, the children that wait to be reaped, and what was done to processes.\<close>

record registry =
  services :: "(string \<times> terminal_service) list"
  tasks :: "nat list"
  done_to :: "effect list"
  cleanup_task :: bool

definition del :: "'k \<Rightarrow> ('k \<times> 'v) list \<Rightarrow> ('k \<times> 'v) list" where
  "del k = filter (\<lambda>(j, _). j \<noteq> k)"

fun put :: "'k \<Rightarrow> 'v \<Rightarrow> ('k \<times> 'v) list \<Rightarrow> ('k \<times> 'v) list" where
  "put k v [] = [(k, v)]"
| "put k v ((j, u) # xs) = (if j = k then (k, v) # xs else (j, u) # put k v xs)"

definition persistent_service_new :: "nat \<Rightarrow> bool \<Rightarrow> bool \<Rightarrow> terminal_service" where
  "persistent_service_new now persistent specified_user =
     \<lparr>terms = [], created_at = now, last_activity = now, is_persistent = persistent,
      needs_session_sync = False, is_specified_user = specified_user\<rparr>"

definition reset_status :: "bool \<Rightarrow> terminal_service \<Rightarrow> terminal_service" where
  "reset_status persistent svc =
     svc\<lparr>is_persistent := persistent, needs_session_sync := True,
         terms := map (\<lambda>(i, s). (i, s\<lparr>is_opened := False\<rparr>)) (terms svc)\<rparr>"

definition get_service :: "string \<Rightarrow> registry \<Rightarrow> terminal_service option" where
  "get_service sid reg = map_of (services reg) sid"

definition is_service_specified_user :: "string \<Rightarrow> registry \<Rightarrow> bool option" where
  "is_service_specified_user sid reg = map_option is_specified_user (get_service sid reg)"

definition get_or_create_service ::
  "nat \<Rightarrow> string \<Rightarrow> bool \<Rightarrow> bool \<Rightarrow> registry \<Rightarrow> string option \<times> registry" where
  "get_or_create_service now sid persistent specified_user reg =
     (if get_service sid reg = None \<and> MAX_SERVICES \<le> length (services reg) then
        (Some (''Maximum number of terminal services (100) reached''), reg)
      else
        (let svc = (case get_service sid reg of
                      Some s \<Rightarrow> s | None \<Rightarrow> persistent_service_new now persistent specified_user)
         in (None, reg\<lparr>services := put sid (reset_status persistent svc) (services reg), cleanup_task := True\<rparr>)))"

text \<open>Stopping sessions one after the other, what they do collected.\<close>

fun stop_all :: "(int \<times> terminal_session) list \<Rightarrow> effect list option" where
  "stop_all [] = Some []"
| "stop_all ((_, s) # ss) =
     (case session_stop s of
        None \<Rightarrow> None
      | Some (_, ks) \<Rightarrow> (case stop_all ss of None \<Rightarrow> None | Some ks' \<Rightarrow> Some (ks @ ks')))"

definition to_reap :: "effect list \<Rightarrow> nat list" where
  "to_reap es = concat (map (\<lambda>x. case x of Killed p \<Rightarrow> [p] | ToReaper p \<Rightarrow> [p] | CtrlC _ \<Rightarrow> []) es)"

definition perform :: "effect list \<Rightarrow> registry \<Rightarrow> registry" where
  "perform es reg = reg\<lparr>done_to := done_to reg @ es, tasks := tasks reg @ to_reap es\<rparr>"

definition remove_service :: "string \<Rightarrow> registry \<Rightarrow> registry option" where
  "remove_service sid reg =
     (case get_service sid reg of
        None \<Rightarrow> Some reg
      | Some svc \<Rightarrow>
          (case stop_all (terms svc) of
             None \<Rightarrow> None
           | Some ks \<Rightarrow> Some (perform ks (reg\<lparr>services := del sid (services reg)\<rparr>))))"

definition list_services :: "registry \<Rightarrow> (string \<times> nat \<times> nat \<times> bool) list" where
  "list_services reg =
     map (\<lambda>(i, svc). (i, created_at svc, length (terms svc), is_persistent svc)) (services reg)"

definition idle :: "nat \<Rightarrow> terminal_service \<Rightarrow> bool" where
  "idle now svc =
     (\<not> is_persistent svc \<and> SERVICE_IDLE_TIMEOUT < now - last_activity svc
      \<or> is_persistent svc \<and> terms svc = [] \<and> 2 * SERVICE_IDLE_TIMEOUT < now - last_activity svc)"

fun remove_services :: "string list \<Rightarrow> registry \<Rightarrow> registry option" where
  "remove_services [] reg = Some reg"
| "remove_services (i # is) reg =
     (case remove_service i reg of None \<Rightarrow> None | Some reg' \<Rightarrow> remove_services is reg')"

definition cleanup_inactive_services :: "nat \<Rightarrow> registry \<Rightarrow> registry option" where
  "cleanup_inactive_services now reg =
     remove_services (map fst (filter (\<lambda>(_, svc). idle now svc) (services reg))) reg"

text \<open>What \<^verbatim>\<open>try_wait\<close> answers for a child.\<close>

datatype wait_result = Exited u32 | Running | WaitError

definition check_zombie_terminals :: "(nat \<Rightarrow> wait_result) \<Rightarrow> registry \<Rightarrow> registry" where
  "check_zombie_terminals try_wait reg = reg\<lparr>tasks := filter (\<lambda>p. try_wait p = Running) (tasks reg)\<rparr>"

text \<open>A turn of the clean-up thread, which runs every 100 ms; the state is when it last looked for idle services.\<close>

definition cleanup_turn ::
  "nat \<Rightarrow> (nat \<Rightarrow> wait_result) \<Rightarrow> nat \<Rightarrow> registry \<Rightarrow> (nat \<times> registry) option" where
  "cleanup_turn now try_wait last_cleanup reg =
     (let reg1 = check_zombie_terminals try_wait reg
      in if 300000 < now - last_cleanup then
           map_option (\<lambda>r. (now, r)) (cleanup_inactive_services now reg1)
         else Some (last_cleanup, reg1))"

definition get_terminal_session_count :: "bool \<Rightarrow> registry \<Rightarrow> nat" where
  "get_terminal_session_count include_zombies reg =
     length (services reg) + (if include_zombies then length (tasks reg) else 0)"

definition set_persistent :: "string \<Rightarrow> bool \<Rightarrow> registry \<Rightarrow> string option \<times> registry" where
  "set_persistent sid persistent reg =
     (case get_service sid reg of
        Some svc \<Rightarrow> (None, reg\<lparr>services := put sid (svc\<lparr>is_persistent := persistent\<rparr>) (services reg)\<rparr>)
      | None \<Rightarrow> (Some (''Service '' @ sid @ '' not found''), reg))"

definition list_terminals :: "terminal_service \<Rightarrow> (int \<times> string \<times> u32) list" where
  "list_terminals svc = map (\<lambda>(i, s). (i, title s, pid s)) (terms svc)"

definition get_terminal_buffer :: "int \<Rightarrow> nat \<Rightarrow> terminal_service \<Rightarrow> bytes option" where
  "get_terminal_buffer i max_bytes svc =
     map_option (\<lambda>s. get_recent (output_buffer s) max_bytes) (map_of (terms svc) i)"

definition get_terminal_info :: "int \<Rightarrow> terminal_service \<Rightarrow> (u16 \<times> u16 \<times> bytes) option" where
  "get_terminal_info i svc =
     map_option (\<lambda>s. (rows s, cols s, get_recent (output_buffer s) 4096)) (map_of (terms svc) i)"

definition has_active_terminals :: "terminal_service \<Rightarrow> bool" where
  "has_active_terminals svc = (terms svc \<noteq> [])"

subsection \<open>The shell\<close>

record open_env =
  on_windows :: bool
  env_var :: "string \<Rightarrow> string option"
  path_exists :: "string \<Rightarrow> bool"
  pty_opens :: bool
  pty_spawns :: "(nat \<times> u32 option) option"
  pty_writer :: bool
  pty_reader :: bool
  pipe_spawns :: "u32 option"

text \<open>A path written with slashes, as Windows writes it.\<close>

definition windows_path :: "string \<Rightarrow> string" where
  "windows_path p = map (\<lambda>c. if c = CHR ''/'' then CHR 0x5C else c) p"

definition get_default_shell :: "open_env \<Rightarrow> string" where
  "get_default_shell e =
     (if on_windows e then
        (case find (path_exists e)
            (map windows_path
              [''pwsh.exe'', ''C:/Program Files/PowerShell/7/pwsh.exe'',
               ''C:/Program Files/PowerShell/6/pwsh.exe'',
               ''C:/Windows/System32/WindowsPowerShell/v1.0/powershell.exe'']) of
           Some p \<Rightarrow> p
         | None \<Rightarrow> (case env_var e ''COMSPEC'' of Some c \<Rightarrow> c | None \<Rightarrow> ''cmd.exe''))
      else
        (case env_var e ''SHELL'' of
           Some (c # cs) \<Rightarrow> c # cs
         | _ \<Rightarrow> (case find (path_exists e) [''/bin/bash'', ''/bin/zsh'', ''/bin/sh''] of
                  Some p \<Rightarrow> p | None \<Rightarrow> ''/bin/sh'')))"

datatype response =
    Opened int bool string u32 string "int list"
  | TermData int bytes bool
  | Closed int int
  | TermError string

text \<open>
  The threads and the child of a new session.  On Windows the process is not kept in the session:
  only its number is.
\<close>

definition spawn_shell :: "open_env \<Rightarrow> terminal_session \<Rightarrow> string + terminal_session" where
  "spawn_shell e s =
     (if on_windows e then
        (case pipe_spawns e of
           None \<Rightarrow> Inl ''Failed to spawn shell process''
         | Some n \<Rightarrow> Inr (s\<lparr>pid := n, reader := Reading, writer := True\<rparr>))
      else if \<not> pty_opens e then Inl ''Failed to open PTY''
      else
        (case pty_spawns e of
           None \<Rightarrow> Inl ''Failed to spawn command''
         | Some (c, n) \<Rightarrow>
             if \<not> pty_writer e then Inl ''Failed to get writer''
             else if \<not> pty_reader e then Inl ''Failed to get reader''
             else Inr (s\<lparr>pid := case n of Some x \<Rightarrow> x | None \<Rightarrow> 0, pty := True, child := Some c,
                       reader := Reading, writer := True\<rparr>)))"

definition session_dead :: "terminal_session \<Rightarrow> bool" where
  "session_dead s = (child s = None \<or> closed_message_sent s)"

text \<open>The result of an action: an error that is only logged, or a reply, with what was done to processes.\<close>

type_synonym action_result = "(string + response option) \<times> terminal_service \<times> effect list"

text \<open>Dropping the dead session that an \<open>Open\<close> names.\<close>

definition drop_dead :: "int \<Rightarrow> terminal_service \<Rightarrow> (terminal_service \<times> effect list) option" where
  "drop_dead i svc =
     (case map_of (terms svc) i of
        Some s \<Rightarrow>
          if session_dead s then
            (case session_stop s of
               None \<Rightarrow> None
             | Some (_, es) \<Rightarrow> Some (svc\<lparr>terms := del i (terms svc)\<rparr>, es))
          else Some (svc, [])
      | None \<Rightarrow> Some (svc, []))"

definition reopen :: "string \<Rightarrow> int \<Rightarrow> terminal_session \<Rightarrow> terminal_service \<Rightarrow> response \<times> terminal_service" where
  "reopen sid i s svc =
     (let others = (if needs_session_sync svc \<and> 1 < length (terms svc) then
                      filter (\<lambda>j. j \<noteq> i) (map fst (terms svc)) else [])
      in (Opened i True ''Reconnected to existing terminal'' (pid s) sid others,
          svc\<lparr>needs_session_sync := False, terms := put i (s\<lparr>is_opened := True\<rparr>) (terms svc)\<rparr>))"

definition handle_open ::
  "open_env \<Rightarrow> nat \<Rightarrow> string \<Rightarrow> int \<Rightarrow> u32 \<Rightarrow> u32 \<Rightarrow> terminal_service \<Rightarrow> action_result option" where
  "handle_open e now sid i r c svc =
     (case drop_dead i svc of
        None \<Rightarrow> None
      | Some (svc1, es) \<Rightarrow>
          Some (case map_of (terms svc1) i of
              Some s \<Rightarrow> (case reopen sid i s svc1 of (m, svc2) \<Rightarrow> (Inr (Some m), svc2, es))
            | None \<Rightarrow>
                (case spawn_shell e (new_session now i (ucast r) (ucast c)) of
                   Inl err \<Rightarrow> (Inl err, svc1, es)
                 | Inr s \<Rightarrow>
                     (let s1 = s\<lparr>input_tx := Some [], output_rx := Some [], is_opened := True\<rparr>;
                          others = (if needs_session_sync svc1 then map fst (terms svc1) else [])
                      in (Inr (Some (Opened i True ''Terminal opened'' (pid s) sid others)),
                          svc1\<lparr>needs_session_sync := False, terms := put i s1 (terms svc1)\<rparr>, es)))))"

text \<open>A failing resize of the terminal is an error, after the size was noted.\<close>

definition handle_resize ::
  "(u16 \<Rightarrow> u16 \<Rightarrow> string option) \<Rightarrow> nat \<Rightarrow> int \<Rightarrow> u32 \<Rightarrow> u32 \<Rightarrow> terminal_service \<Rightarrow> action_result" where
  "handle_resize pty_resize now i r c svc =
     (case map_of (terms svc) i of
        None \<Rightarrow> (Inr None, svc, [])
      | Some s \<Rightarrow>
          (let s1 = s\<lparr>ts_last_activity := now, rows := ucast r, cols := ucast c\<rparr>
           in ((case (if \<not> pty s then None else pty_resize (ucast r) (ucast c)) of
                  Some err \<Rightarrow> Inl err | None \<Rightarrow> Inr None),
               svc\<lparr>terms := put i s1 (terms svc)\<rparr>, [])))"

subsection \<open>Input\<close>

text \<open>\<^verbatim>\<open>char::is_whitespace\<close>.\<close>

definition is_space :: "nat \<Rightarrow> bool" where
  "is_space c = (9 \<le> c \<and> c \<le> 13 \<or> c \<in> {0x20, 0x85, 0xA0, 0x1680} \<or> 0x2000 \<le> c \<and> c \<le> 0x200A \<or>
     c \<in> {0x2028, 0x2029, 0x202F, 0x205F, 0x3000})"

abbreviation utext :: "string \<Rightarrow> utext" where
  "utext s \<equiv> map of_char s"

definition trim_end :: "utext \<Rightarrow> utext" where
  "trim_end t = rev (dropWhile is_space (rev t))"

text \<open>The command of a line without its path, and the hint for the two commands that draw the whole screen.\<close>

definition command_name :: "utext \<Rightarrow> utext" where
  "command_name cmd =
     (let w = takeWhile (\<lambda>c. \<not> is_space c) (dropWhile is_space cmd)
      in rev (takeWhile (\<lambda>c. c \<noteq> of_char CHR ''/'') (rev w)))"

definition hint_of :: "string \<Rightarrow> bytes" where
  "hint_of t = [13, 10, 27] @ ascii t @ [27] @ ascii ''[0m'' @ [13, 10]"

definition get_fullscreen_command_hint :: "utext \<Rightarrow> bytes option" where
  "get_fullscreen_command_hint cmd =
     (if command_name cmd = utext ''top'' then
        Some (hint_of ''[33m[Hint: If 'top' doesn't display correctly, try 'top -b' for scrolling output or 'top -b -n 1' for a snapshot.]'')
      else if command_name cmd = utext ''htop'' then
        Some (hint_of ''[33m[Hint: If 'htop' doesn't display correctly, try 'top -b' or 'ps aux --sort=-%cpu | head -20'.]'')
      else None)"

text \<open>
  One character of the input where the terminal edits the line: only the guess of the command line
  changes, and the hint that is to be sent.
\<close>

definition last_space :: "utext \<Rightarrow> utext option" where
  "last_space t =
     (if 32 \<in> set t then Some (rev (tl (dropWhile (\<lambda>c. c \<noteq> 32) (rev t)))) else None)"

definition track_key :: "nat \<Rightarrow> utext \<times> bytes option \<Rightarrow> utext \<times> bytes option" where
  "track_key ch st =
     (case st of (cb, hint) \<Rightarrow>
        if ch = 13 \<or> ch = 10 then
          ([], case get_fullscreen_command_hint cb of Some h \<Rightarrow> Some h | None \<Rightarrow> hint)
        else if ch = 127 \<or> ch = 8 then (butlast cb, hint)
        else if ch = 21 then ([], hint)
        else if ch = 23 then
          (case last_space (trim_end cb) of Some t \<Rightarrow> (t, hint) | None \<Rightarrow> ([], hint))
        else if 32 \<le> ch then
          (let cb1 = cb @ [ch] in (if 1024 < utf8_len cb1 then [] else cb1, hint))
        else (cb, hint))"

text \<open>
  One character where there is no terminal behind the pipe: the line is kept here and sent when it
  ends.  The state is the session, the echo, the hint and what was done to the process.
\<close>

type_synonym edit_state = "terminal_session \<times> utext \<times> bytes option \<times> effect list"

definition rub_out :: utext where
  "rub_out = [8, 32, 8]"

definition edit_key :: "nat \<Rightarrow> edit_state \<Rightarrow> edit_state option" where
  "edit_key ch st =
     (case st of (s, echo, hint, es) \<Rightarrow>
        if ch = 13 \<or> ch = 10 then
          (let line = line_buffer s
           in case send_input (into_bytes line @ [13, 10]) (s\<lparr>line_buffer := []\<rparr>) of
                None \<Rightarrow> None
              | Some s1 \<Rightarrow>
                  Some (s1\<lparr>command_buffer := []\<rparr>, echo @ [13, 10],
                        (case get_fullscreen_command_hint line of Some h \<Rightarrow> Some h | None \<Rightarrow> hint), es))
        else if ch = 127 \<or> ch = 8 then
          Some (s\<lparr>line_buffer := butlast (line_buffer s)\<rparr>,
                echo @ (if line_buffer s = [] then [] else rub_out), hint, es)
        else if ch = 21 then
          Some (s\<lparr>line_buffer := []\<rparr>, echo @ concat (replicate (utf8_len (line_buffer s)) rub_out), hint, es)
        else if ch = 3 then Some (s\<lparr>line_buffer := []\<rparr>, echo, hint, es @ [CtrlC (pid s)])
        else if ch = 9 then Some (s, echo, hint, es)
        else if 32 \<le> ch then Some (s\<lparr>line_buffer := line_buffer s @ [ch]\<rparr>, echo @ [ch], hint, es)
        else Some (s, echo, hint, es))"

fun edit_keys :: "utext \<Rightarrow> edit_state \<Rightarrow> edit_state option" where
  "edit_keys [] st = Some st"
| "edit_keys (c # cs) st = (case edit_key c st of None \<Rightarrow> None | Some st' \<Rightarrow> edit_keys cs st')"

definition hint_reply :: "int \<Rightarrow> bytes option \<Rightarrow> response option" where
  "hint_reply i hint = map_option (\<lambda>h. TermData i h False) hint"

definition handle_data :: "bool \<Rightarrow> nat \<Rightarrow> int \<Rightarrow> bytes \<Rightarrow> terminal_service \<Rightarrow> action_result option" where
  "handle_data windows now i dat svc =
     (case map_of (terms svc) i of
        None \<Rightarrow> Some (Inr None, svc, [])
      | Some s \<Rightarrow>
          (let s0 = s\<lparr>ts_last_activity := now\<rparr>; keys = from_utf8_lossy dat
           in if windows then
                (case edit_keys keys (s0, [], None, []) of
                   None \<Rightarrow> None
                 | Some (s1, echo, hint, es) \<Rightarrow>
                     (let s2 = (if echo = [] then s1
                                else s1\<lparr>output_rx := map_option (chan_try_send (into_bytes echo)) (output_rx s1)\<rparr>)
                      in Some (Inr (hint_reply i hint), svc\<lparr>terms := put i s2 (terms svc)\<rparr>, es)))
              else
                (case fold track_key keys (command_buffer s0, None) of
                   (cb, hint) \<Rightarrow>
                     (case send_input dat (s0\<lparr>command_buffer := cb\<rparr>) of
                        None \<Rightarrow> None
                      | Some s1 \<Rightarrow>
                          Some (Inr (hint_reply i hint), svc\<lparr>terms := put i s1 (terms svc)\<rparr>, [])))))"

definition handle_close :: "int \<Rightarrow> terminal_service \<Rightarrow> action_result option" where
  "handle_close i svc =
     (case map_of (terms svc) i of
        None \<Rightarrow> Some (Inr None, svc, [])
      | Some s \<Rightarrow>
          (case session_stop (s\<lparr>child := None\<rparr>) of
             None \<Rightarrow> None
           | Some (_, es) \<Rightarrow>
               (let (code, ks) = (case child s of Some p \<Rightarrow> (-1, [Killed p]) | None \<Rightarrow> (0, []))
                in Some (Inr (Some (Closed i code)), svc\<lparr>terms := del i (terms svc)\<rparr>, ks @ es))))"

datatype action =
    OpenTerminal int u32 u32
  | ResizeTerminal int u32 u32
  | DataTerminal int bytes
  | CloseTerminal int
  | NoAction

definition act_on ::
  "open_env \<Rightarrow> (u16 \<Rightarrow> u16 \<Rightarrow> string option) \<Rightarrow> nat \<Rightarrow> string \<Rightarrow> action \<Rightarrow> terminal_service \<Rightarrow> action_result option" where
  "act_on e pty_resize now sid a svc =
     (case a of
        OpenTerminal i r c \<Rightarrow> handle_open e now sid i r c svc
      | ResizeTerminal i r c \<Rightarrow> Some (handle_resize pty_resize now i r c svc)
      | DataTerminal i dat \<Rightarrow> handle_data (on_windows e) now i dat svc
      | CloseTerminal i \<Rightarrow> handle_close i svc
      | NoAction \<Rightarrow> Some (Inr None, svc, []))"

definition handle_action ::
  "open_env \<Rightarrow> (u16 \<Rightarrow> u16 \<Rightarrow> string option) \<Rightarrow> nat \<Rightarrow> string \<Rightarrow> action \<Rightarrow> registry
     \<Rightarrow> ((string + response option) \<times> registry) option" where
  "handle_action e pty_resize now sid a reg =
     (case get_service sid reg of
        None \<Rightarrow> Some (Inr (Some (TermError (''Terminal service '' @ sid @ '' not found''))), reg)
      | Some svc \<Rightarrow>
          (case act_on e pty_resize now sid a (svc\<lparr>last_activity := now\<rparr>) of
             None \<Rightarrow> None
           | Some (r, svc', es) \<Rightarrow>
               Some (r, perform es (reg\<lparr>services := put sid svc' (services reg)\<rparr>))))"

subsection \<open>Output\<close>

definition encode_output :: "(bytes \<Rightarrow> bytes) \<Rightarrow> int \<Rightarrow> bytes \<Rightarrow> response" where
  "encode_output compress i x =
     (if COMPRESS_THRESHOLD < length x \<and> length (compress x) < length x then TermData i (compress x) True
      else TermData i x False)"

fun append_all :: "bytes list \<Rightarrow> output_buffer \<Rightarrow> output_buffer option" where
  "append_all [] b = Some b"
| "append_all (x # xs) b = (case append_output b x of None \<Rightarrow> None | Some b' \<Rightarrow> append_all xs b')"

text \<open>
  What \<open>read_outputs\<close> does with one session: whether the end of its shell is now to be reported,
  the replies and the session; \<open>None\<close> where the trimming of its buffer never ends.
\<close>

definition read_session ::
  "(bytes \<Rightarrow> bytes) \<Rightarrow> nat \<Rightarrow> int \<Rightarrow> terminal_session \<Rightarrow> (bool \<times> response list \<times> terminal_session) option" where
  "read_session compress now i s =
     (let closes = (\<not> closed_message_sent s \<and> reader s = Finished);
          s1 = (if closes then s\<lparr>closed_message_sent := True\<rparr> else s)
      in if \<not> is_opened s1 then Some (closes, [], s1)
         else
           (let received = (case output_rx s1 of Some q \<Rightarrow> q | None \<Rightarrow> [])
            in case append_all received (output_buffer s1) of
                 None \<Rightarrow> None
               | Some b \<Rightarrow>
                   Some (closes, map (encode_output compress i) received,
                         s1\<lparr>output_rx := map_option (\<lambda>_. []) (output_rx s1), output_buffer := b,
                            ts_last_activity := if received = [] then ts_last_activity s1 else now\<rparr>)))"

text \<open>All sessions; the lock of a session that is held elsewhere skips it.\<close>

fun read_sessions ::
  "(int \<Rightarrow> bool) \<Rightarrow> (bytes \<Rightarrow> bytes) \<Rightarrow> nat \<Rightarrow> (int \<times> terminal_session) list
     \<Rightarrow> (int list \<times> response list \<times> (int \<times> terminal_session) list) option" where
  "read_sessions locked compress now [] = Some ([], [], [])"
| "read_sessions locked compress now ((i, s) # ss) =
     (case (if locked i then Some (False, [], s) else read_session compress now i s) of
        None \<Rightarrow> None
      | Some (closes, rs, s') \<Rightarrow>
          (case read_sessions locked compress now ss of
             None \<Rightarrow> None
           | Some (closed, rs', ss') \<Rightarrow>
               Some ((if closes then [i] else []) @ closed, rs @ rs', (i, s') # ss')))"

text \<open>The end of a shell: its exit code, and what becomes of its session.\<close>

definition close_session ::
  "(nat \<Rightarrow> wait_result) \<Rightarrow> bool \<Rightarrow> int \<Rightarrow> terminal_service \<Rightarrow> (response \<times> terminal_service \<times> effect list) option" where
  "close_session try_wait persistent i svc =
     (case map_of (terms svc) i of
        None \<Rightarrow> Some (Closed i 0, svc, [])
      | Some s \<Rightarrow>
          (let code = (case child s of Some p \<Rightarrow> (case try_wait p of Exited x \<Rightarrow> sint x | _ \<Rightarrow> 0) | None \<Rightarrow> 0);
               es = (case child s of Some p \<Rightarrow> [ToReaper p] | None \<Rightarrow> []);
               s1 = s\<lparr>child := None\<rparr>
           in if persistent then Some (Closed i code, svc\<lparr>terms := put i s1 (terms svc)\<rparr>, es)
              else (case session_stop s1 of
                  None \<Rightarrow> None
                | Some (_, es') \<Rightarrow> Some (Closed i code, svc\<lparr>terms := del i (terms svc)\<rparr>, es @ es'))))"

fun close_sessions ::
  "(nat \<Rightarrow> wait_result) \<Rightarrow> bool \<Rightarrow> int list \<Rightarrow> terminal_service
     \<Rightarrow> (response list \<times> terminal_service \<times> effect list) option" where
  "close_sessions try_wait persistent [] svc = Some ([], svc, [])"
| "close_sessions try_wait persistent (i # is) svc =
     (case close_session try_wait persistent i svc of
        None \<Rightarrow> None
      | Some (r, svc1, es) \<Rightarrow>
          (case close_sessions try_wait persistent is svc1 of
             None \<Rightarrow> None
           | Some (rs, svc2, es') \<Rightarrow> Some (r # rs, svc2, es @ es')))"

record read_env =
  locked :: "int \<Rightarrow> bool"
  compress :: "bytes \<Rightarrow> bytes"
  try_wait :: "nat \<Rightarrow> wait_result"

definition read_outputs :: "read_env \<Rightarrow> nat \<Rightarrow> bool \<Rightarrow> string \<Rightarrow> registry \<Rightarrow> (response list \<times> registry) option" where
  "read_outputs e now persistent sid reg =
     (case get_service sid reg of
        None \<Rightarrow> Some ([], reg)
      | Some svc \<Rightarrow>
          (case read_sessions (locked e) (compress e) now (terms svc) of
             None \<Rightarrow> None
           | Some (closed, rs, ss) \<Rightarrow>
               (case close_sessions (try_wait e) persistent closed (svc\<lparr>terms := ss\<rparr>) of
                  None \<Rightarrow> None
                | Some (rs', svc', es) \<Rightarrow>
                    Some (rs @ rs', perform es (reg\<lparr>services := put sid svc' (services reg)\<rparr>)))))"

text \<open>Whether a proxy that is made without saying so takes its service for persistent.\<close>

definition proxy_persistent :: "string \<Rightarrow> registry \<Rightarrow> bool" where
  "proxy_persistent sid reg = (case get_service sid reg of Some svc \<Rightarrow> is_persistent svc | None \<Rightarrow> False)"

definition on_disconnect :: "bool \<Rightarrow> string \<Rightarrow> registry \<Rightarrow> registry option" where
  "on_disconnect persistent sid reg = (if persistent then Some reg else remove_service sid reg)"

subsection \<open>The connection\<close>

text \<open>
  What an authorised terminal connection does with an action of its controller, and every second.
  A failed action is only logged.
\<close>

definition on_terminal_action ::
  "open_env \<Rightarrow> (u16 \<Rightarrow> u16 \<Rightarrow> string option) \<Rightarrow> read_env \<Rightarrow> nat \<Rightarrow> string \<Rightarrow> action \<Rightarrow> registry
     \<Rightarrow> (response list \<times> registry) option" where
  "on_terminal_action e pty_resize re now sid a reg =
     (let persistent = proxy_persistent sid reg
      in case handle_action e pty_resize now sid a reg of
           None \<Rightarrow> None
         | Some (r, reg1) \<Rightarrow>
             (case read_outputs re now persistent sid reg1 of
                None \<Rightarrow> None
              | Some (rs, reg2) \<Rightarrow>
                  Some ((case r of Inr (Some m) \<Rightarrow> [m] | _ \<Rightarrow> []) @ rs, reg2)))"

definition on_second_timer :: "read_env \<Rightarrow> nat \<Rightarrow> string \<Rightarrow> registry \<Rightarrow> (response list \<times> registry) option" where
  "on_second_timer re now sid reg =
     (if sid = [] then Some ([], reg) else read_outputs re now (proxy_persistent sid reg) sid reg)"

end
