(* ===== verification/Terminal_Registry.thy ===== *)
theory Terminal_Registry
  imports Terminal_Service
begin

text \<open>
  What the terminals of a host keep and what they do not: the bounds that every operation keeps, the
  processes that are never killed on Windows, the output that one turn delivers, and the idle
  service whose terminal is being watched.
\<close>

subsection \<open>Association lists\<close>

lemma map_of_put [simp]: "map_of (put k v xs) = (map_of xs)(k \<mapsto> v)"
  by (induction xs) (auto simp: fun_eq_iff)

lemma put_new: "map_of xs k = None \<Longrightarrow> put k v xs = xs @ [(k, v)]"
  by (induction xs) (auto split: if_splits)

lemma keys_put: "map fst (put k v xs) = (if map_of xs k = None then map fst xs @ [k] else map fst xs)"
  by (induction xs) auto

lemma put_put [simp]: "put k v (put k u xs) = put k v xs"
  by (induction xs) auto

lemma distinct_put [simp]: "distinct (map fst (put k v xs)) = distinct (map fst xs)"
  by (auto simp: keys_put map_of_eq_None_iff)

lemma length_put: "length (put k v xs) = length xs + (if map_of xs k = None then 1 else 0)"
  by (induction xs) auto

lemma put_same: "map_of xs k = Some v \<Longrightarrow> put k v xs = xs"
  by (induction xs) (auto split: if_splits)

lemma set_del [simp]: "set (del k xs) = {x \<in> set xs. fst x \<noteq> k}"
  by (auto simp: del_def)

lemma del_keys: "map fst (del k xs) = filter (\<lambda>j. j \<noteq> k) (map fst xs)"
  by (induction xs) (auto simp: del_def)

lemma distinct_del [simp]: "distinct (map fst xs) \<Longrightarrow> distinct (map fst (del k xs))"
  by (simp add: del_keys)

lemma length_del: "length (del k xs) \<le> length xs"
  by (simp add: del_def)

lemma map_of_del [simp]: "map_of (del k xs) = (map_of xs)(k := None)"
  by (induction xs) (auto simp: del_def fun_eq_iff)

text \<open>A property of all values of an association list.\<close>

definition all_vals :: "('v \<Rightarrow> bool) \<Rightarrow> ('k \<times> 'v) list \<Rightarrow> bool" where
  "all_vals P xs = list_all (P \<circ> snd) xs"

lemma all_vals_put [simp]: "all_vals P xs \<Longrightarrow> P v \<Longrightarrow> all_vals P (put k v xs)"
  by (induction xs) (auto simp: all_vals_def)

lemma all_vals_del [simp]: "all_vals P xs \<Longrightarrow> all_vals P (del k xs)"
  by (auto simp: all_vals_def list_all_iff del_def)

lemma all_vals_get: "all_vals P xs \<Longrightarrow> map_of xs k = Some v \<Longrightarrow> P v"
  using map_of_SomeD [of xs k v] by (fastforce simp: all_vals_def list_all_iff)

lemma all_vals_Nil [simp]: "all_vals P []"
  and all_vals_Cons [simp]: "all_vals P ((k, v) # xs) \<longleftrightarrow> P v \<and> all_vals P xs"
  by (simp_all add: all_vals_def)

subsection \<open>What every operation keeps\<close>

text \<open>
  A session of either platform: its channels and its guess of the command line are bounded, it has
  a channel for its output, it was not stopped, and on Windows it has no child.
\<close>

definition session_ok :: "bool \<Rightarrow> terminal_session \<Rightarrow> bool" where
  "session_ok windows s =
     ((\<forall>q \<in> set_option (input_tx s). length q \<le> CHANNEL_BUFFER_SIZE) \<and>
      (\<forall>q \<in> set_option (output_rx s). length q \<le> CHANNEL_BUFFER_SIZE) \<and>
      utf8_len (command_buffer s) \<le> 1024 \<and>
      output_rx s \<noteq> None \<and> \<not> exiting s \<and>
      (windows \<longrightarrow> child s = None))"

definition service_ok :: "bool \<Rightarrow> terminal_service \<Rightarrow> bool" where
  "service_ok windows svc = (distinct (map fst (terms svc)) \<and> all_vals (session_ok windows) (terms svc))"

definition no_kill :: "effect list \<Rightarrow> bool" where
  "no_kill es = (\<forall>x \<in> set es. case x of CtrlC _ \<Rightarrow> True | _ \<Rightarrow> False)"

definition registry_ok :: "bool \<Rightarrow> registry \<Rightarrow> bool" where
  "registry_ok windows reg =
     (distinct (map fst (services reg)) \<and> length (services reg) \<le> MAX_SERVICES \<and>
      all_vals (service_ok windows) (services reg) \<and> (windows \<longrightarrow> no_kill (done_to reg)))"

text \<open>The steps of the host: its connections, its clean-up thread and the threads of its terminals.\<close>

definition at_session :: "(terminal_session \<Rightarrow> terminal_session) \<Rightarrow> string \<Rightarrow> int \<Rightarrow> registry \<Rightarrow> registry" where
  "at_session f sid i reg =
     (case get_service sid reg of
        None \<Rightarrow> reg
      | Some svc \<Rightarrow>
          (case map_of (terms svc) i of
             None \<Rightarrow> reg
           | Some s \<Rightarrow> reg\<lparr>services := put sid (svc\<lparr>terms := put i (f s) (terms svc)\<rparr>) (services reg)\<rparr>))"

definition empty_registry :: registry where
  "empty_registry = \<lparr>services = [], tasks = [], done_to = [], cleanup_task = False\<rparr>"

inductive reachable :: "bool \<Rightarrow> registry \<Rightarrow> bool" for windows where
  start: "reachable windows empty_registry"
| opens: "reachable windows reg \<Longrightarrow> reachable windows (snd (get_or_create_service now sid p u reg))"
| acts: "reachable windows reg \<Longrightarrow> on_windows e = windows \<Longrightarrow>
    handle_action e pty_resize now sid a reg = Some (r, reg') \<Longrightarrow> reachable windows reg'"
| reads: "reachable windows reg \<Longrightarrow> read_outputs re now p sid reg = Some (rs, reg') \<Longrightarrow> reachable windows reg'"
| cleans: "reachable windows reg \<Longrightarrow> cleanup_turn now tw t reg = Some (t', reg') \<Longrightarrow> reachable windows reg'"
| removes: "reachable windows reg \<Longrightarrow> remove_service sid reg = Some reg' \<Longrightarrow> reachable windows reg'"
| persists: "reachable windows reg \<Longrightarrow> reachable windows (snd (set_persistent sid p reg))"
| receives: "reachable windows reg \<Longrightarrow> reachable windows (at_session (reader_reads x) sid i reg)"
| ends: "reachable windows reg \<Longrightarrow> reachable windows (at_session reader_ends sid i reg)"
| writes: "reachable windows reg \<Longrightarrow> reachable windows (at_session (snd \<circ> writer_takes) sid i reg)"
| fails: "reachable windows reg \<Longrightarrow> reachable windows (at_session writer_fails sid i reg)"

subsubsection \<open>Sessions\<close>

lemma send_input_ok: "session_ok w s \<Longrightarrow> send_input x s = Some s' \<Longrightarrow> session_ok w s'"
  by (auto simp: session_ok_def send_input_def chan_send_def split: option.splits if_splits)

lemma session_stop_effects:
  "session_stop s = Some (s', es) \<Longrightarrow> es = (case child s of None \<Rightarrow> [] | Some p \<Rightarrow> [Killed p])"
  by (auto simp: session_stop_def split: option.splits)

lemma session_ok_threads:
  assumes "session_ok w s"
  shows "session_ok w (reader_reads x s)" "session_ok w (reader_ends s)" "session_ok w (snd (writer_takes s))"
    "session_ok w (writer_fails s)"
  using assms
  by (auto simp: session_ok_def reader_reads_def reader_ends_def writer_takes_def writer_fails_def
      chan_try_send_def split: option.splits list.splits if_splits)

lemma utf8_len_append: "utf8_len (a @ b) = utf8_len a + utf8_len b"
  by (simp add: utf8_len_def into_bytes_def)

lemma utf8_len_butlast: "utf8_len (butlast t) \<le> utf8_len t"
  by (cases t rule: rev_cases) (simp_all add: utf8_len_append)

lemma utf8_len_prefix: "prefix a b \<Longrightarrow> utf8_len a \<le> utf8_len b"
  by (auto simp: prefix_def utf8_len_append)

lemma utf8_len_Nil [simp]: "utf8_len [] = 0"
  by (simp add: utf8_len_def into_bytes_def)

lemma spawn_shell_ok:
  assumes "spawn_shell e (new_session now i r c) = Inr s"
  shows "session_ok (on_windows e) (s\<lparr>input_tx := Some [], output_rx := Some [], is_opened := True\<rparr>)"
  using assms
  by (auto simp: spawn_shell_def session_ok_def new_session_def split: if_splits option.splits prod.splits)

lemma dropWhile_rev_prefix: "prefix (rev (dropWhile P (rev t))) t"
proof -
  have "suffix (dropWhile P (rev t)) (rev t)" by (simp add: suffix_dropWhile)
  then show ?thesis by (simp add: suffix_to_prefix)
qed

lemma last_space_prefix: "last_space t = Some u \<Longrightarrow> prefix u t"
proof -
  assume "last_space t = Some u"
  then have u: "u = rev (tl (dropWhile (\<lambda>c. c \<noteq> 32) (rev t)))" by (auto simp: last_space_def split: if_splits)
  have "suffix (tl (dropWhile (\<lambda>c. c \<noteq> 32) (rev t))) (rev t)"
    by (meson suffix_dropWhile suffix_order.trans suffix_tl)
  then show ?thesis by (simp add: u suffix_to_prefix)
qed

lemma track_key_len: "utf8_len (fst st) \<le> 1024 \<Longrightarrow> utf8_len (fst (track_key c st)) \<le> 1024"
proof -
  assume a: "utf8_len (fst st) \<le> 1024"
  obtain cb h where st: "st = (cb, h)" by (metis surj_pair)
  have "last_space (trim_end cb) = Some t \<Longrightarrow> utf8_len t \<le> utf8_len cb" for t
    using last_space_prefix [of "trim_end cb" t] dropWhile_rev_prefix [of is_space cb]
    by (auto simp: trim_end_def intro!: utf8_len_prefix elim: prefix_order.trans)
  with a show ?thesis
    using utf8_len_butlast [of cb] by (auto simp: track_key_def st Let_def split: option.splits)
qed

lemma track_keys_len: "utf8_len (fst st) \<le> 1024 \<Longrightarrow> utf8_len (fst (fold track_key cs st)) \<le> 1024"
  by (induction cs arbitrary: st) (simp_all add: track_key_len)

lemma edit_key_ok:
  assumes "edit_key c (s, echo, h, es) = Some (s', echo', h', es')" and "session_ok w s" and "no_kill es"
  shows "session_ok w s' \<and> no_kill es'"
proof -
  have up: "session_ok w (t\<lparr>line_buffer := l\<rparr>) = session_ok w t"
    "session_ok w t \<Longrightarrow> session_ok w (t\<lparr>command_buffer := []\<rparr>)" for t l
    by (auto simp: session_ok_def)
  show ?thesis
  proof (cases "c = 13 \<or> c = 10")
    case True
    with assms(1) obtain s1 where "send_input (into_bytes (line_buffer s) @ [13, 10]) (s\<lparr>line_buffer := []\<rparr>) = Some s1"
      and "s' = s1\<lparr>command_buffer := []\<rparr>" "es' = es"
      by (auto simp: edit_key_def Let_def split: option.splits)
    then show ?thesis using send_input_ok [of w "s\<lparr>line_buffer := []\<rparr>"] assms(2,3) up by auto
  next
    case False
    with assms show ?thesis
      by (auto simp: edit_key_def Let_def up no_kill_def split: if_splits)
  qed
qed

lemma edit_keys_ok:
  assumes "edit_keys cs (s, echo, h, es) = Some (s', echo', h', es')" and "session_ok w s" and "no_kill es"
  shows "session_ok w s' \<and> no_kill es'"
  using assms
proof (induction cs arbitrary: s echo h es)
  case (Cons c cs)
  then obtain s1 echo1 h1 es1 where "edit_key c (s, echo, h, es) = Some (s1, echo1, h1, es1)"
    "edit_keys cs (s1, echo1, h1, es1) = Some (s', echo', h', es')"
    by (auto split: option.splits)
  with Cons.IH [of s1] edit_key_ok [of c s echo h es] Cons.prems show ?case by blast
qed simp

subsubsection \<open>Services\<close>

lemma no_kill_append [simp]: "no_kill (a @ b) \<longleftrightarrow> no_kill a \<and> no_kill b"
  and no_kill_Nil [simp]: "no_kill []"
  by (auto simp: no_kill_def)

lemma service_ok_put [simp]:
  "service_ok w svc \<Longrightarrow> session_ok w s \<Longrightarrow> service_ok w (svc\<lparr>terms := put i s (terms svc)\<rparr>)"
  by (simp add: service_ok_def)

lemma service_ok_del [simp]: "service_ok w svc \<Longrightarrow> service_ok w (svc\<lparr>terms := del i (terms svc)\<rparr>)"
  by (simp add: service_ok_def)

lemma service_ok_fields [simp]:
  "service_ok w (svc\<lparr>last_activity := t\<rparr>) = service_ok w svc"
  "service_ok w (svc\<lparr>is_persistent := p\<rparr>) = service_ok w svc"
  "service_ok w (svc\<lparr>needs_session_sync := n\<rparr>) = service_ok w svc"
  by (simp_all add: service_ok_def)

lemma service_ok_get: "service_ok w svc \<Longrightarrow> map_of (terms svc) i = Some s \<Longrightarrow> session_ok w s"
  by (auto simp: service_ok_def dest: all_vals_get)

lemma drop_dead_ok:
  assumes "drop_dead i svc = Some (svc', es)" and "service_ok w svc"
  shows "service_ok w svc' \<and> (w \<longrightarrow> no_kill es)"
  using assms service_ok_get [of w svc i]
  by (auto simp: drop_dead_def session_ok_def dest!: session_stop_effects split: option.splits if_splits)

lemma handle_open_drops:
  "handle_open e now sid i r c svc = Some (m, svc', es) \<Longrightarrow> \<exists>svc1. drop_dead i svc = Some (svc1, es)"
  by (auto simp: handle_open_def Let_def reopen_def split: option.splits prod.splits sum.splits)

lemma handle_open_ok:
  assumes "handle_open e now sid i r c svc = Some (m, svc', es)" and "service_ok (on_windows e) svc"
  shows "service_ok (on_windows e) svc' \<and> (on_windows e \<longrightarrow> no_kill es)"
proof -
  from handle_open_drops [OF assms(1)] obtain svc1 where d: "drop_dead i svc = Some (svc1, es)" by blast
  note ok = drop_dead_ok [OF d assms(2)]
  have "service_ok (on_windows e) svc'"
  proof (cases "map_of (terms svc1) i")
    case None
    then show ?thesis using assms(1) d ok spawn_shell_ok [of e]
      by (auto simp: handle_open_def Let_def service_ok_def split: sum.splits)
  next
    case (Some s)
    with ok have "session_ok (on_windows e) (s\<lparr>is_opened := True\<rparr>)"
      using service_ok_get [of "on_windows e" svc1 i s] by (simp add: session_ok_def)
    then show ?thesis
      using assms(1) d ok Some by (auto simp: handle_open_def reopen_def Let_def service_ok_def)
  qed
  with ok show ?thesis by blast
qed

lemma handle_resize_ok:
  assumes "handle_resize f now i r c svc = (m, svc', es)" and "service_ok w svc"
  shows "service_ok w svc' \<and> es = []"
proof (cases "map_of (terms svc) i")
  case (Some s)
  with assms(2) have "session_ok w (s\<lparr>ts_last_activity := now, rows := ucast r, cols := ucast c\<rparr>)"
    using service_ok_get [of w svc i s] by (simp add: session_ok_def)
  with Some assms show ?thesis by (auto simp: handle_resize_def Let_def)
qed (use assms in \<open>auto simp: handle_resize_def\<close>)

lemma handle_data_ok:
  assumes "handle_data windows now i dat svc = Some (m, svc', es)" and "service_ok w svc"
  shows "service_ok w svc' \<and> no_kill es"
proof (cases "map_of (terms svc) i")
  case None
  with assms show ?thesis by (auto simp: handle_data_def)
next
  case (Some s)
  define s0 where "s0 = s\<lparr>ts_last_activity := now\<rparr>"
  have s0: "session_ok w s0" using service_ok_get [OF assms(2) Some] by (simp add: s0_def session_ok_def)
  show ?thesis
  proof (cases windows)
    case True
    with assms(1) Some obtain s1 echo h where k: "edit_keys (from_utf8_lossy dat) (s0, [], None, []) = Some (s1, echo, h, es)"
      and svc': "svc' = svc\<lparr>terms := put i (if echo = [] then s1
        else s1\<lparr>output_rx := map_option (chan_try_send (into_bytes echo)) (output_rx s1)\<rparr>) (terms svc)\<rparr>"
      by (auto simp: handle_data_def s0_def Let_def split: option.splits)
    from edit_keys_ok [OF k s0] have "session_ok w s1" "no_kill es" by auto
    moreover from this(1) have "session_ok w (s1\<lparr>output_rx := map_option (chan_try_send x) (output_rx s1)\<rparr>)" for x
      by (auto simp: session_ok_def chan_try_send_def)
    ultimately show ?thesis using assms(2) by (simp add: svc')
  next
    case False
    obtain cb h where k: "fold track_key (from_utf8_lossy dat) (command_buffer s0, None) = (cb, h)"
      by (metis surj_pair)
    have "session_ok w (s0\<lparr>command_buffer := cb\<rparr>)"
      using s0 track_keys_len [of "(command_buffer s0, None)" "from_utf8_lossy dat"] by (simp add: k session_ok_def)
    with False assms Some k show ?thesis
      by (auto simp: handle_data_def s0_def Let_def dest: send_input_ok split: option.splits)
  qed
qed

lemma handle_close_ok:
  assumes "handle_close i svc = Some (m, svc', es)" and "service_ok w svc"
  shows "service_ok w svc' \<and> (w \<longrightarrow> no_kill es)"
  using assms service_ok_get [of w svc i]
  by (auto simp: handle_close_def session_ok_def dest!: session_stop_effects split: option.splits)

lemma read_session_ok:
  assumes "read_session f now i s = Some (cl, rs, s')" and "session_ok w s"
  shows "session_ok w s'"
  using assms by (auto simp: read_session_def Let_def session_ok_def split: if_splits option.splits)

lemma read_sessions_ok:
  assumes "read_sessions l f now ss = Some (cl, rs, ss')" and "all_vals (session_ok w) ss"
  shows "map fst ss' = map fst ss \<and> all_vals (session_ok w) ss'"
  using assms
proof (induction l f now ss arbitrary: cl rs ss' rule: read_sessions.induct)
  case (2 l f now i s ss)
  then obtain c1 r1 s1 cl2 rs2 ss2 where
    "(if l i then Some (False, [], s) else read_session f now i s) = Some (c1, r1, s1)"
    "read_sessions l f now ss = Some (cl2, rs2, ss2)" "ss' = (i, s1) # ss2"
    by (auto split: option.splits prod.splits)
  moreover from this(1) 2(3) have "session_ok w s1"
    by (auto intro: read_session_ok split: if_splits)
  ultimately show ?case using 2 by auto
qed simp

lemma close_session_ok:
  assumes "close_session tw p i svc = Some (r, svc', es)" and "service_ok w svc"
  shows "service_ok w svc' \<and> (w \<longrightarrow> no_kill es)"
proof (cases "map_of (terms svc) i")
  case (Some s)
  then have "session_ok w s" using assms(2) service_ok_get by blast
  then have "session_ok w (s\<lparr>child := None\<rparr>)" by (simp add: session_ok_def)
  moreover have "w \<longrightarrow> child s = None" using \<open>session_ok w s\<close> by (simp add: session_ok_def)
  ultimately show ?thesis using assms Some
    by (auto simp: close_session_def Let_def dest!: session_stop_effects split: if_splits option.splits)
qed (use assms in \<open>auto simp: close_session_def\<close>)

lemma close_sessions_ok:
  assumes "close_sessions tw p ids svc = Some (rs, svc', es)" and "service_ok w svc"
  shows "service_ok w svc' \<and> (w \<longrightarrow> no_kill es)"
  using assms
proof (induction ids arbitrary: svc rs es)
  case (Cons i ids)
  then obtain r1 svc1 es1 rs2 es2 where one: "close_session tw p i svc = Some (r1, svc1, es1)"
    and rest: "close_sessions tw p ids svc1 = Some (rs2, svc', es2)" and es: "es = es1 @ es2"
    by (auto split: option.splits prod.splits)
  from close_session_ok [OF one Cons.prems(2)] have "service_ok w svc1" "w \<longrightarrow> no_kill es1" by auto
  with Cons.IH [OF rest] show ?case by (simp add: es)
qed simp

subsubsection \<open>The registry\<close>

lemma registry_ok_services [simp]:
  "registry_ok w (reg\<lparr>tasks := t\<rparr>) = registry_ok w reg"
  "registry_ok w (reg\<lparr>cleanup_task := b\<rparr>) = registry_ok w reg"
  by (simp_all add: registry_ok_def)

lemma registry_ok_perform [simp]: "registry_ok w reg \<Longrightarrow> w \<longrightarrow> no_kill es \<Longrightarrow> registry_ok w (perform es reg)"
  by (auto simp: registry_ok_def perform_def)

lemma registry_ok_get: "registry_ok w reg \<Longrightarrow> get_service sid reg = Some svc \<Longrightarrow> service_ok w svc"
  by (auto simp: registry_ok_def get_service_def dest: all_vals_get)

lemma registry_ok_put:
  assumes "registry_ok w reg" and "service_ok w svc" and "get_service sid reg \<noteq> None"
  shows "registry_ok w (reg\<lparr>services := put sid svc (services reg)\<rparr>)"
  using assms by (auto simp: registry_ok_def length_put get_service_def)

lemma reset_status_ok: "service_ok w svc \<Longrightarrow> service_ok w (reset_status p svc)"
  by (auto simp: service_ok_def reset_status_def case_prod_unfold all_vals_def list_all_iff comp_def session_ok_def)

lemma get_or_create_ok: "registry_ok w reg \<Longrightarrow> registry_ok w (snd (get_or_create_service now sid p u reg))"
proof -
  assume ok: "registry_ok w reg"
  show ?thesis
  proof (cases "get_service sid reg")
    case None
    have "service_ok w (persistent_service_new now p u)" by (simp add: service_ok_def persistent_service_new_def)
    with ok None show ?thesis
      using reset_status_ok [of w "persistent_service_new now p u" p]
      by (simp add: get_or_create_service_def registry_ok_def length_put get_service_def)
  next
    case (Some svc)
    with ok have "service_ok w (reset_status p svc)" by (intro reset_status_ok registry_ok_get)
    with ok Some show ?thesis by (simp add: get_or_create_service_def registry_ok_put)
  qed
qed

lemma stop_all_ok: "stop_all ss = Some es \<Longrightarrow> all_vals (session_ok w) ss \<Longrightarrow> w \<Longrightarrow> no_kill es"
  by (induction ss arbitrary: es)
    (auto simp: session_ok_def dest!: session_stop_effects split: option.splits)

lemma remove_service_ok:
  assumes "remove_service sid reg = Some reg'" and "registry_ok w reg"
  shows "registry_ok w reg'"
proof (cases "get_service sid reg")
  case (Some svc)
  with assms(1) obtain es where st: "stop_all (terms svc) = Some es"
    and reg': "reg' = perform es (reg\<lparr>services := del sid (services reg)\<rparr>)"
    by (auto simp: remove_service_def split: option.splits)
  have "service_ok w svc" using Some assms(2) registry_ok_get by blast
  then have "w \<longrightarrow> no_kill es" by (auto simp: service_ok_def intro: stop_all_ok [OF st])
  moreover have "registry_ok w (reg\<lparr>services := del sid (services reg)\<rparr>)"
    using assms(2) length_del [of sid "services reg"] by (auto simp: registry_ok_def)
  ultimately show ?thesis by (simp add: reg')
qed (use assms in \<open>auto simp: remove_service_def\<close>)

lemma cleanup_turn_ok:
  assumes "cleanup_turn now tw t reg = Some (t', reg')" and "registry_ok w reg"
  shows "registry_ok w reg'"
proof -
  have "remove_services ids r = Some r' \<Longrightarrow> registry_ok w r \<Longrightarrow> registry_ok w r'" for ids r r'
    by (induction ids arbitrary: r) (auto split: option.splits dest: remove_service_ok)
  with assms show ?thesis
    by (auto simp: cleanup_turn_def cleanup_inactive_services_def check_zombie_terminals_def Let_def split: if_splits)
qed

lemma handle_action_ok:
  assumes "handle_action e f now sid a reg = Some (r, reg')" and "registry_ok (on_windows e) reg"
  shows "registry_ok (on_windows e) reg'"
proof (cases "get_service sid reg")
  case (Some svc)
  define svc0 where "svc0 = svc\<lparr>last_activity := now\<rparr>"
  have ok: "service_ok (on_windows e) svc0" using Some assms(2) registry_ok_get by (simp add: svc0_def)
  from assms(1) Some obtain svc' es where h: "act_on e f now sid a svc0 = Some (r, svc', es)"
    and reg': "reg' = perform es (reg\<lparr>services := put sid svc' (services reg)\<rparr>)"
    by (auto simp: handle_action_def svc0_def split: option.splits)
  have "service_ok (on_windows e) svc' \<and> (on_windows e \<longrightarrow> no_kill es)"
    using h ok
    by (cases a) (auto simp: act_on_def dest: handle_open_ok handle_resize_ok handle_data_ok handle_close_ok)
  with assms(2) Some show ?thesis by (simp add: reg' registry_ok_put)
qed (use assms in \<open>auto simp: handle_action_def\<close>)

lemma read_outputs_ok:
  assumes "read_outputs e now p sid reg = Some (rs, reg')" and "registry_ok w reg"
  shows "registry_ok w reg'"
proof (cases "get_service sid reg")
  case (Some svc)
  with assms(1) obtain cl rs1 ss rs2 svc' es where
    r: "read_sessions (locked e) (compress e) now (terms svc) = Some (cl, rs1, ss)"
    and c: "close_sessions (try_wait e) p cl (svc\<lparr>terms := ss\<rparr>) = Some (rs2, svc', es)"
    and reg': "reg' = perform es (reg\<lparr>services := put sid svc' (services reg)\<rparr>)"
    by (auto simp: read_outputs_def split: option.splits)
  have "service_ok w svc" using Some assms(2) registry_ok_get by blast
  with read_sessions_ok [OF r, of w] have "service_ok w (svc\<lparr>terms := ss\<rparr>)" by (simp add: service_ok_def)
  from close_sessions_ok [OF c this] assms(2) Some show ?thesis by (simp add: reg' registry_ok_put)
qed (use assms in \<open>auto simp: read_outputs_def\<close>)

lemma at_session_ok:
  assumes "registry_ok w reg" and "\<And>s. session_ok w s \<Longrightarrow> session_ok w (f s)"
  shows "registry_ok w (at_session f sid i reg)"
proof -
  { fix svc s assume g: "get_service sid reg = Some svc" "map_of (terms svc) i = Some s"
    with assms have "service_ok w (svc\<lparr>terms := put i (f s) (terms svc)\<rparr>)"
      by (intro service_ok_put registry_ok_get [OF assms(1)] assms(2) service_ok_get) }
  with assms(1) show ?thesis
    by (auto simp: at_session_def registry_ok_put split: option.splits)
qed

lemma reachable_ok: "reachable w reg \<Longrightarrow> registry_ok w reg"
proof (induction rule: reachable.induct)
  case start
  then show ?case by (simp add: empty_registry_def registry_ok_def)
next
  case (persists reg sid p)
  then show ?case
    by (auto simp: set_persistent_def registry_ok_put registry_ok_get split: option.splits)
next
  case (acts reg e f now sid a r reg')
  then show ?case using handle_action_ok by blast
qed (auto intro: get_or_create_ok read_outputs_ok cleanup_turn_ok remove_service_ok at_session_ok session_ok_threads
      simp: comp_def)

text \<open>
  C24. Whatever the connections, the threads and the clean-up do, and in whatever order, the host never keeps more
  than 100 terminal services, each under one name, and no terminal queues more than 100 messages in either
  direction or remembers more than 1024 bytes of a command line.
\<close>

theorem registry_bounded:
  assumes "reachable windows reg"
  shows "length (services reg) \<le> 100 \<and> distinct (map fst (services reg)) \<and>
    (\<forall>sid svc i s. get_service sid reg = Some svc \<and> map_of (terms svc) i = Some s \<longrightarrow>
      (\<exists>q. output_rx s = Some q \<and> length q \<le> 100) \<and>
      (case input_tx s of None \<Rightarrow> True | Some q \<Rightarrow> length q \<le> 100) \<and> utf8_len (command_buffer s) \<le> 1024)"
proof -
  have ok: "registry_ok windows reg" using assms by (rule reachable_ok)
  { fix sid svc i s assume "get_service sid reg = Some svc" "map_of (terms svc) i = Some s"
    then have "session_ok windows s" using ok registry_ok_get service_ok_get by blast
    then have "(\<exists>q. output_rx s = Some q \<and> length q \<le> 100) \<and>
        (case input_tx s of None \<Rightarrow> True | Some q \<Rightarrow> length q \<le> 100) \<and> utf8_len (command_buffer s) \<le> 1024"
      by (auto simp: session_ok_def CHANNEL_BUFFER_SIZE_def split: option.splits) }
  with ok show ?thesis by (auto simp: registry_ok_def MAX_SERVICES_def)
qed

text \<open>
  On Windows the process of a terminal is not kept in its session: in every reachable state no process has ever
  been killed or handed to the reaper, and opening a terminal that exists starts a new shell, whose number is
  the answer, instead of reconnecting to the one that runs.
\<close>

theorem windows_reopen_is_new:
  assumes "reachable True reg" and "on_windows e" and "get_service sid reg = Some svc" and "pipe_spawns e = Some n"
    and "handle_action e f now sid (OpenTerminal i r c) reg = Some (m, reg')"
  shows "(\<exists>others. m = Inr (Some (Opened i True ''Terminal opened'' n sid others))) \<and>
    (\<forall>p. Killed p \<notin> set (done_to reg') \<and> ToReaper p \<notin> set (done_to reg'))"
proof
  have ok: "registry_ok True reg" using assms(1) by (rule reachable_ok)
  define svc0 where "svc0 = svc\<lparr>last_activity := now\<rparr>"
  have "service_ok True svc0" using assms(3) ok registry_ok_get by (simp add: svc0_def)
  from assms(3,5) obtain svc' es where h: "handle_open e now sid i r c svc0 = Some (m, svc', es)"
    by (auto simp: handle_action_def act_on_def svc0_def split: option.splits)
  from handle_open_drops [OF h] obtain svc1 where d: "drop_dead i svc0 = Some (svc1, es)" by blast
  have "map_of (terms svc1) i = None"
    using d service_ok_get [OF \<open>service_ok True svc0\<close>, of i]
    by (auto simp: drop_dead_def session_dead_def session_ok_def split: option.splits if_splits)
  with h d assms(2,4) show "\<exists>others. m = Inr (Some (Opened i True ''Terminal opened'' n sid others))"
    by (auto simp: handle_open_def spawn_shell_def Let_def)
  have "registry_ok True reg'" using handle_action_ok [OF assms(5)] ok assms(2) by simp
  then show "\<forall>p. Killed p \<notin> set (done_to reg') \<and> ToReaper p \<notin> set (done_to reg')"
    by (auto simp: registry_ok_def no_kill_def)
qed

subsection \<open>What one turn delivers\<close>

text \<open>Bytes that the reader thread gets one after the other fill the channel; the rest is dropped.\<close>

definition receives :: "bytes list \<Rightarrow> terminal_session \<Rightarrow> terminal_session" where
  "receives xs s = fold reader_reads xs s"

lemma receives_fills:
  assumes "reader s = Reading" and "\<not> exiting s" and "output_rx s = Some q" and "length q \<le> CHANNEL_BUFFER_SIZE"
  shows "receives xs s = s\<lparr>output_rx := Some (q @ take (CHANNEL_BUFFER_SIZE - length q) xs)\<rparr>"
  using assms
proof (induction xs arbitrary: s q)
  case Nil
  then show ?case by (simp add: receives_def)
next
  case (Cons x xs)
  let ?s = "reader_reads x s"
  have s: "?s = s\<lparr>output_rx := Some (chan_try_send x q)\<rparr>"
    using Cons.prems by (simp add: reader_reads_def)
  have "receives (x # xs) s = receives xs ?s" by (simp add: receives_def)
  also have "\<dots> = ?s\<lparr>output_rx := Some (chan_try_send x q @ take (CHANNEL_BUFFER_SIZE - length (chan_try_send x q)) xs)\<rparr>"
    using Cons.prems by (intro Cons.IH) (auto simp: s chan_try_send_def)
  finally show ?case
    using Cons.prems by (cases "length q < CHANNEL_BUFFER_SIZE") (auto simp: s chan_try_send_def take_Cons' Suc_diff_Suc)
qed

text \<open>What a controller makes of the replies for one terminal.\<close>

definition shown :: "(bytes \<Rightarrow> bytes) \<Rightarrow> int \<Rightarrow> response list \<Rightarrow> bytes list" where
  "shown decompress i rs = concat (map (\<lambda>r. case r of
     TermData j x z \<Rightarrow> if j = i then [if z then decompress x else x] else [] | _ \<Rightarrow> []) rs)"

lemma shown_append [simp]: "shown d i (rs @ rs') = shown d i rs @ shown d i rs'"
  by (simp add: shown_def)

lemma shown_encode:
  assumes "\<And>x. d (f x) = x"
  shows "shown d i (map (encode_output f j) xs) = (if i = j then xs else [])"
  by (induction xs) (auto simp: shown_def encode_output_def assms)

text \<open>A session that ends in this turn or whose buffer does not take its output is not among them.\<close>

definition readable :: "terminal_session \<Rightarrow> bool" where
  "readable s = ((closed_message_sent s \<or> reader s \<noteq> Finished) \<and>
     (is_opened s \<longrightarrow> append_all (case output_rx s of Some q \<Rightarrow> q | None \<Rightarrow> []) (output_buffer s) \<noteq> None))"

lemma read_session_readable:
  assumes "readable s"
  obtains s' where "read_session f now i s =
    Some (False, if is_opened s then map (encode_output f i) (case output_rx s of Some q \<Rightarrow> q | None \<Rightarrow> []) else [], s')"
    "is_opened s \<longrightarrow> output_rx s' = map_option (\<lambda>_. []) (output_rx s)"
proof -
  have closes: "(\<not> closed_message_sent s \<and> reader s = Finished) = False"
    using assms by (auto simp: readable_def)
  show ?thesis
  proof (cases "is_opened s")
    case False
    then show ?thesis by (intro that [of s]) (simp_all add: read_session_def closes)
  next
    case True
    with assms obtain b where "append_all (case output_rx s of Some q \<Rightarrow> q | None \<Rightarrow> []) (output_buffer s) = Some b"
      by (auto simp: readable_def)
    with True show ?thesis
      by (intro that [of "s\<lparr>output_rx := map_option (\<lambda>_. []) (output_rx s), output_buffer := b,
          ts_last_activity := if (case output_rx s of Some q \<Rightarrow> q | None \<Rightarrow> []) = [] then ts_last_activity s else now\<rparr>"])
        (simp_all add: read_session_def closes Let_def)
  qed
qed

lemma read_sessions_readable:
  assumes "\<forall>(j, t) \<in> set ss. readable t" and "\<And>x. d (f x) = x" and "distinct (map fst ss)"
    and "map_of ss i = Some s" and "is_opened s" and "\<not> l i"
  shows "\<exists>rs ss'. read_sessions l f now ss = Some ([], rs, ss') \<and>
    shown d i rs = (case output_rx s of Some q \<Rightarrow> q | None \<Rightarrow> []) \<and>
    (\<exists>s'. map_of ss' i = Some s' \<and> output_rx s' = map_option (\<lambda>_. []) (output_rx s))"
proof -
  have ex: "\<exists>rs ss'. read_sessions l f now ss = Some ([], rs, ss') \<and> (i \<notin> fst ` set ss \<longrightarrow> shown d i rs = [])"
    if "\<forall>(j, t) \<in> set ss. readable t" for ss
    using that
  proof (induction ss)
    case Nil
    then show ?case by (simp add: shown_def)
  next
    case (Cons x ss)
    obtain j t where x: "x = (j, t)" by (metis surj_pair)
    from Cons.prems x have "readable t" by simp
    then obtain t' where "read_session f now j t =
        Some (False, if is_opened t then map (encode_output f j) (case output_rx t of Some q \<Rightarrow> q | None \<Rightarrow> []) else [], t')"
      by (rule read_session_readable)
    with Cons x show ?case
      by (cases "l j") (auto simp: shown_encode [of d f, OF assms(2)] shown_def [of _ _ "[]"])
  qed
  show ?thesis
    using assms(1,3,4)
  proof (induction ss)
    case (Cons x ss)
    obtain j t where x: "x = (j, t)" by (metis surj_pair)
    from Cons.prems x have "readable t" by simp
    then obtain t' where t': "read_session f now j t =
        Some (False, if is_opened t then map (encode_output f j) (case output_rx t of Some q \<Rightarrow> q | None \<Rightarrow> []) else [], t')"
      "is_opened t \<longrightarrow> output_rx t' = map_option (\<lambda>_. []) (output_rx t)"
      by (rule read_session_readable)
    show ?case
    proof (cases "j = i")
      case True
      with Cons.prems x have "t = s" and "i \<notin> fst ` set ss" by auto
      moreover from ex [of ss] Cons.prems obtain rs ss' where "read_sessions l f now ss = Some ([], rs, ss')"
        "shown d i rs = []" using \<open>i \<notin> fst ` set ss\<close> by auto
      ultimately show ?thesis using True x t' assms(5,6)
        by (auto simp: shown_encode [of d f, OF assms(2)])
    next
      case False
      with Cons.prems x have "map_of ss i = Some s" by auto
      with Cons.IH Cons.prems obtain rs ss' s' where r: "read_sessions l f now ss = Some ([], rs, ss')"
        "shown d i rs = (case output_rx s of Some q \<Rightarrow> q | None \<Rightarrow> [])"
        "map_of ss' i = Some s'" "output_rx s' = map_option (\<lambda>_. []) (output_rx s)" by auto
      show ?thesis
        using False x t'(1) r
        by (cases "l j") (auto simp: shown_encode [of d f, OF assms(2)] shown_def [of _ _ "[]"])
    qed
  qed simp
qed

lemma get_service_put [simp]:
  "get_service sid (reg\<lparr>services := put k svc (services reg)\<rparr>) = (if sid = k then Some svc else get_service sid reg)"
  "get_service sid (perform es reg) = get_service sid reg"
  by (auto simp: get_service_def perform_def)

text \<open>
  C25. Between two turns of the output, at most 100 of the pieces that the shell writes are kept: the turn sends exactly
  these, complete, in order and decompressing to what was written, empties the channel, and the pieces after them
  are lost.
\<close>

theorem turn_delivers:
  assumes "reachable windows reg" and "get_service sid reg = Some svc" and "map_of (terms svc) i = Some s"
    and "is_opened s" and "reader s = Reading" and "output_rx s = Some []" and "\<not> locked e i"
    and "\<And>x. decompress (compress e x) = x"
    and "append_all (take 100 xs) (output_buffer s) \<noteq> None"
    and "\<forall>(j, t) \<in> set (terms svc). j \<noteq> i \<longrightarrow> readable t"
  shows "\<exists>rs reg' svc' s'. read_outputs e now p sid (at_session (receives xs) sid i reg) = Some (rs, reg') \<and>
    shown decompress i rs = take 100 xs \<and>
    get_service sid reg' = Some svc' \<and> map_of (terms svc') i = Some s' \<and> output_rx s' = Some []"
proof -
  have ok: "service_ok windows svc" using assms(1,2) reachable_ok registry_ok_get by blast
  then have "\<not> exiting s" using assms(3) service_ok_get by (auto simp: session_ok_def)
  with assms(5,6) have rx: "receives xs s = s\<lparr>output_rx := Some (take 100 xs)\<rparr>"
    using receives_fills [of s "[]" xs] by (simp add: CHANNEL_BUFFER_SIZE_def)
  define s1 where "s1 = s\<lparr>output_rx := Some (take 100 xs)\<rparr>"
  define svc1 where "svc1 = svc\<lparr>terms := put i s1 (terms svc)\<rparr>"
  have at: "at_session (receives xs) sid i reg = reg\<lparr>services := put sid svc1 (services reg)\<rparr>"
    using assms(2,3) rx by (simp add: at_session_def svc1_def s1_def)
  have "readable s1" using assms(5,9) by (simp add: readable_def s1_def)
  have "set (put i s1 xs) \<subseteq> insert (i, s1) {x \<in> set xs. fst x \<noteq> i}" if "distinct (map fst xs)" for xs
    using that by (induction xs) (auto split: if_splits simp: rev_image_eqI)
  with ok assms(10) \<open>readable s1\<close> have "\<forall>(j, t) \<in> set (terms svc1). readable t"
    by (fastforce simp: svc1_def service_ok_def)
  moreover have "distinct (map fst (terms svc1))" using ok by (simp add: svc1_def service_ok_def)
  moreover have "map_of (terms svc1) i = Some s1" by (simp add: svc1_def)
  moreover have "is_opened s1" using assms(4) by (simp add: s1_def)
  ultimately obtain rs ss' s' where "read_sessions (locked e) (compress e) now (terms svc1) = Some ([], rs, ss')"
    "shown decompress i rs = take 100 xs" "map_of ss' i = Some s'" "output_rx s' = Some []"
    using read_sessions_readable [of "terms svc1" decompress "compress e" i s1 "locked e" now] assms(7,8)
    by (auto simp: s1_def)
  then show ?thesis by (simp add: at read_outputs_def)
qed

subsection \<open>Watching an idle service\<close>

text \<open>
  A controller that only watches: every second the output that has come is read and sent.  The
  list holds the time of each turn and what the shell has written since the one before.
\<close>

fun watch ::
  "read_env \<Rightarrow> string \<Rightarrow> int \<Rightarrow> (nat \<times> bytes list) list \<Rightarrow> registry \<Rightarrow> (response list \<times> registry) option" where
  "watch e sid i [] reg = Some ([], reg)"
| "watch e sid i ((t, xs) # ts) reg =
     (case on_second_timer e t sid (at_session (receives xs) sid i reg) of
        None \<Rightarrow> None
      | Some (rs, reg1) \<Rightarrow>
          (case watch e sid i ts reg1 of None \<Rightarrow> None | Some (rs', reg2) \<Rightarrow> Some (rs @ rs', reg2)))"

text \<open>A terminal that runs, with room for input.\<close>

definition live :: "nat \<Rightarrow> terminal_session \<Rightarrow> bool" where
  "live p s = (child s = Some p \<and> reader s = Reading \<and> \<not> exiting s \<and> is_opened s \<and> output_rx s = Some [] \<and>
     (\<forall>q. input_tx s = Some q \<longrightarrow> length q < CHANNEL_BUFFER_SIZE))"

text \<open>
  A service of the host, one terminal of which has a controller that watches; its other terminals run, too, and write nothing.
\<close>

definition watched :: "string \<Rightarrow> int \<Rightarrow> terminal_service \<Rightarrow> terminal_session \<Rightarrow> registry \<Rightarrow> bool" where
  "watched sid i svc s reg =
     (distinct (map fst (services reg)) \<and> get_service sid reg = Some svc \<and> distinct (map fst (terms svc)) \<and> map_of (terms svc) i = Some s \<and>
      list_all (\<lambda>(j, u). \<exists>q. live q u) (terms svc))"

lemma append_all_append:
  "append_all (xs @ ys) b = (case append_all xs b of None \<Rightarrow> None | Some b' \<Rightarrow> append_all ys b')"
  by (induction xs arbitrary: b) (auto split: option.splits)

lemma quiet_read: "live q u \<Longrightarrow> read_session f now j u = Some (False, [], u)"
  by (simp add: read_session_def live_def)

lemma quiet_reads: "list_all (\<lambda>(j, u). \<exists>q. live q u) ss \<Longrightarrow> read_sessions l f now ss = Some ([], [], ss)"
  by (induction ss) (auto simp: quiet_read)

lemma one_speaks:
  assumes "list_all (\<lambda>(j, u). \<exists>q. live q u) ss" and "distinct (map fst ss)" and "map_of ss i = Some s" and "\<not> l i"
    and "read_session f now i s' = Some (False, rs, s1)"
  shows "read_sessions l f now (put i s' ss) = Some ([], rs, put i s1 ss)"
  using assms(1-4)
proof (induction ss)
  case (Cons x ss)
  obtain j u where x: "x = (j, u)" by (metis surj_pair)
  show ?case
  proof (cases "j = i")
    case True
    with Cons.prems show ?thesis by (simp add: x assms(5) quiet_reads)
  next
    case False
    with Cons.prems have "map_of ss i = Some s" by (simp add: x)
    with Cons False show ?thesis by (auto simp: x quiet_read)
  qed
qed simp

lemma list_all_put:
  assumes "list_all (\<lambda>(j, u). P u) ss" and "P v"
  shows "list_all (\<lambda>(j, u). P u) (put k v ss)"
  using assms by (induction ss) auto

lemma get_put_service [simp]:
  "get_service k (reg\<lparr>services := put sid svc (services reg)\<rparr>) = (if k = sid then Some svc else get_service k reg)"
  by (simp add: get_service_def)

lemma get_perform [simp]: "get_service k (perform es reg) = get_service k reg"
  by (simp add: get_service_def perform_def)

lemma watch_turn:
  assumes "watched sid i svc s reg" and "live p s" and "sid \<noteq> []" and "\<not> locked e i"
    and "append_all (take 100 xs) (output_buffer s) = Some b"
  shows "\<exists>reg1 s1. on_second_timer e t sid (at_session (receives xs) sid i reg) =
      Some (map (encode_output (compress e) i) (take 100 xs), reg1) \<and>
    watched sid i (svc\<lparr>terms := put i s1 (terms svc)\<rparr>) s1 reg1 \<and> live p s1 \<and> output_buffer s1 = b \<and>
    (\<forall>k. k \<noteq> sid \<longrightarrow> get_service k reg1 = get_service k reg)"
proof -
  have rx: "receives xs s = s\<lparr>output_rx := Some (take 100 xs)\<rparr>"
    using receives_fills [of s "[]" xs] assms(2) by (simp add: live_def CHANNEL_BUFFER_SIZE_def)
  note w = assms(1) [unfolded watched_def]
  define svc0 where "svc0 = svc\<lparr>terms := put i (s\<lparr>output_rx := Some (take 100 xs)\<rparr>) (terms svc)\<rparr>"
  define reg0 where "reg0 = reg\<lparr>services := put sid svc0 (services reg)\<rparr>"
  have at: "at_session (receives xs) sid i reg = reg0"
    using w rx by (simp add: at_session_def reg0_def svc0_def)
  have g0: "get_service sid reg0 = Some svc0" by (simp add: reg0_def)
  define s1 where "s1 = s\<lparr>output_rx := Some [], output_buffer := b,
    ts_last_activity := if take 100 xs = [] then ts_last_activity s else t\<rparr>"
  define svc1 where "svc1 = svc\<lparr>terms := put i s1 (terms svc)\<rparr>"
  have l1: "live p s1" using assms(2) by (simp add: live_def s1_def)
  have "read_session (compress e) t i (s\<lparr>output_rx := Some (take 100 xs)\<rparr>) =
      Some (False, map (encode_output (compress e) i) (take 100 xs), s1)"
    using assms(2,5) by (simp add: read_session_def live_def s1_def Let_def)
  from one_speaks [where l = "locked e", OF _ _ _ assms(4) this, of "terms svc" s] w
  have "read_sessions (locked e) (compress e) t (terms svc0) =
      Some ([], map (encode_output (compress e) i) (take 100 xs), terms svc1)"
    by (simp add: svc0_def svc1_def)
  then have "on_second_timer e t sid (at_session (receives xs) sid i reg) =
      Some (map (encode_output (compress e) i) (take 100 xs), perform [] (reg0\<lparr>services := put sid svc1 (services reg0)\<rparr>))"
    using assms(3) by (simp add: at on_second_timer_def read_outputs_def g0) (simp add: svc0_def svc1_def)
  moreover have "watched sid i svc1 s1 (perform [] (reg0\<lparr>services := put sid svc1 (services reg0)\<rparr>))"
    using w l1 list_all_put [of "\<lambda>u. \<exists>q. live q u" "terms svc" s1 i]
    by (auto simp: watched_def svc1_def reg0_def) (simp_all add: perform_def)
  moreover have "get_service k (perform [] (reg0\<lparr>services := put sid svc1 (services reg0)\<rparr>)) = get_service k reg"
    if "k \<noteq> sid" for k
    using that by (simp add: reg0_def)
  ultimately show ?thesis using l1 by (auto simp: svc1_def s1_def)
qed

lemma watch_keeps:
  assumes "watched sid i svc s reg" and "live p s" and "sid \<noteq> []" and "\<not> locked e i"
    and "append_all (concat (map (\<lambda>(t, xs). take 100 xs) ts)) (output_buffer s) \<noteq> None"
  shows "\<exists>rs reg1 s1. watch e sid i ts reg = Some (rs, reg1) \<and>
    rs = map (encode_output (compress e) i) (concat (map (\<lambda>(t, xs). take 100 xs) ts)) \<and>
    watched sid i (svc\<lparr>terms := put i s1 (terms svc)\<rparr>) s1 reg1 \<and> live p s1 \<and>
    (\<forall>k. k \<noteq> sid \<longrightarrow> get_service k reg1 = get_service k reg)"
  using assms
proof (induction ts arbitrary: svc s reg)
  case Nil
  then have "svc\<lparr>terms := put i s (terms svc)\<rparr> = svc" by (simp add: watched_def put_same)
  with Nil show ?case by (intro exI [of _ "[]"] exI [of _ reg] exI [of _ s]) simp
next
  case (Cons x ts)
  obtain t xs where x: "x = (t, xs)" by (metis surj_pair)
  from Cons.prems(5) obtain b where b: "append_all (take 100 xs) (output_buffer s) = Some b"
    "append_all (concat (map (\<lambda>(t, xs). take 100 xs) ts)) b \<noteq> None"
    by (auto simp: x append_all_append split: option.splits)
  from watch_turn [OF Cons.prems(1-4) b(1), of t] obtain reg1 s1 where
    1: "on_second_timer e t sid (at_session (receives xs) sid i reg) =
      Some (map (encode_output (compress e) i) (take 100 xs), reg1)"
    "watched sid i (svc\<lparr>terms := put i s1 (terms svc)\<rparr>) s1 reg1" "live p s1" "output_buffer s1 = b"
    "\<forall>k. k \<noteq> sid \<longrightarrow> get_service k reg1 = get_service k reg" by blast
  from Cons.IH [OF 1(2,3) Cons.prems(3,4)] b(2) 1(4) obtain reg2 s2 where
    "watch e sid i ts reg1 = Some (map (encode_output (compress e) i) (concat (map (\<lambda>(t, xs). take 100 xs) ts)), reg2)"
    "watched sid i (svc\<lparr>terms := put i s2 (terms svc)\<rparr>) s2 reg2" "live p s2"
    "\<forall>k. k \<noteq> sid \<longrightarrow> get_service k reg2 = get_service k reg1" by auto
  then show ?case using 1(1,5) by (auto simp: x)
qed

text \<open>What the clean-up does with the services that it removes.\<close>

lemma stop_live:
  assumes "list_all (\<lambda>(j, u). \<exists>q. live q u) ss"
  shows "\<exists>ks. stop_all ss = Some ks \<and> (\<forall>i s p. map_of ss i = Some s \<longrightarrow> live p s \<longrightarrow> Killed p \<in> set ks)"
  using assms
proof (induction ss)
  case (Cons x ss)
  obtain j u where x: "x = (j, u)" by (metis surj_pair)
  from Cons.prems obtain q where q: "live q u" by (auto simp: x)
  have "send_input [13, 10] u \<noteq> None"
    using q by (auto simp: send_input_def chan_send_def live_def split: option.splits)
  then obtain u' where "session_stop u = Some (u', [Killed q])"
    using q by (auto simp: session_stop_def live_def split: option.splits)
  moreover have "p = q" if "live p u" for p using that q by (simp add: live_def)
  ultimately show ?case using Cons by (auto simp: x split: if_splits) blast+
qed simp

lemma remove_services_effect:
  assumes "\<forall>k \<in> set ks. \<forall>v. get_service k reg = Some v \<longrightarrow> stop_all (terms v) \<noteq> None"
  shows "\<exists>reg'. remove_services ks reg = Some reg' \<and> set (done_to reg) \<subseteq> set (done_to reg') \<and>
    (\<forall>k. get_service k reg' = (if k \<in> set ks then None else get_service k reg)) \<and>
    (\<forall>k \<in> set ks. \<forall>v es. get_service k reg = Some v \<longrightarrow> stop_all (terms v) = Some es \<longrightarrow> set es \<subseteq> set (done_to reg'))"
  using assms
proof (induction ks arbitrary: reg)
  case (Cons k ks)
  show ?case
  proof (cases "get_service k reg")
    case None
    then have "remove_services (k # ks) reg = remove_services ks reg" by (simp add: remove_service_def)
    with Cons.IH [of reg] Cons.prems None show ?thesis by (auto; metis)
  next
    case (Some v)
    with Cons.prems obtain es where es: "stop_all (terms v) = Some es" by auto
    let ?reg1 = "perform es (reg\<lparr>services := del k (services reg)\<rparr>)"
    have get1: "get_service j ?reg1 = (if j = k then None else get_service j reg)" for j
      by (simp add: get_service_def perform_def)
    have "remove_services (k # ks) reg = remove_services ks ?reg1" by (simp add: remove_service_def Some es)
    moreover have "\<forall>j \<in> set ks. \<forall>v. get_service j ?reg1 = Some v \<longrightarrow> stop_all (terms v) \<noteq> None"
      using Cons.prems get1 by auto
    from Cons.IH [OF this] obtain reg' where r: "remove_services ks ?reg1 = Some reg'"
      "set (done_to ?reg1) \<subseteq> set (done_to reg')"
      "\<forall>j. get_service j reg' = (if j \<in> set ks then None else get_service j ?reg1)"
      "\<forall>j \<in> set ks. \<forall>v es. get_service j ?reg1 = Some v \<longrightarrow> stop_all (terms v) = Some es \<longrightarrow> set es \<subseteq> set (done_to reg')"
      by blast
    have d: "set (done_to reg) \<subseteq> set (done_to reg')" "set es \<subseteq> set (done_to reg')"
      using r(2) by (simp_all add: perform_def)
    have "set es' \<subseteq> set (done_to reg')" if "j \<in> set (k # ks)" "get_service j reg = Some u" "stop_all (terms u) = Some es'"
      for j u es'
      using that r(4) get1 d(2) Some es by (cases "j = k") auto
    with r(1,3) d(1) calculation get1 show ?thesis by (intro exI [of _ reg']) auto
  qed
qed simp

lemma cleanup_effect:
  assumes "distinct (map fst (services reg))"
    and "\<forall>k v. get_service k reg = Some v \<longrightarrow> idle now v \<longrightarrow> stop_all (terms v) \<noteq> None"
  shows "\<exists>reg'. cleanup_inactive_services now reg = Some reg' \<and>
    (\<forall>k v. get_service k reg = Some v \<longrightarrow>
      get_service k reg' = (if idle now v then None else Some v) \<and>
      (\<forall>es. idle now v \<longrightarrow> stop_all (terms v) = Some es \<longrightarrow> set es \<subseteq> set (done_to reg')))"
proof -
  let ?ks = "map fst (filter (\<lambda>(_, svc). idle now svc) (services reg))"
  have mem: "k \<in> set ?ks \<longleftrightarrow> idle now v" if "get_service k reg = Some v" for k v
  proof -
    have "(k, u) \<in> set (services reg) \<longleftrightarrow> u = v" for u
      unfolding map_of_eq_Some_iff [OF assms(1), symmetric] using that by (auto simp: get_service_def)
    then show ?thesis by force
  qed
  have "\<forall>k \<in> set ?ks. \<forall>v. get_service k reg = Some v \<longrightarrow> stop_all (terms v) \<noteq> None"
    using assms(2) mem by blast
  from remove_services_effect [OF this] obtain reg' where r: "remove_services ?ks reg = Some reg'"
    "\<forall>k. get_service k reg' = (if k \<in> set ?ks then None else get_service k reg)"
    "\<forall>k \<in> set ?ks. \<forall>v es. get_service k reg = Some v \<longrightarrow> stop_all (terms v) = Some es \<longrightarrow> set es \<subseteq> set (done_to reg')"
    by blast
  have "\<forall>es. k \<in> set ?ks \<longrightarrow> stop_all (terms v) = Some es \<longrightarrow> set es \<subseteq> set (done_to reg')"
    if "get_service k reg = Some v" for k v
    using r(3) that by blast
  then have "get_service k reg' = (if idle now v then None else Some v) \<and>
      (\<forall>es. idle now v \<longrightarrow> stop_all (terms v) = Some es \<longrightarrow> set es \<subseteq> set (done_to reg'))"
    if v: "get_service k reg = Some v" for k v
    using v r(2) mem [OF v] by metis
  with r(1) show ?thesis by (intro exI [of _ reg']) (simp add: cleanup_inactive_services_def)
qed

text \<open>
  C26. Output does not count as activity of a service.  A terminal that its controller only watches, the other terminals of
  its service silent, gets all its output shown at every turn; after more than an hour without a request the clean-up
  kills it when its service is not persistent, the controller gets no message about the end of it, and its next action is
  answered with an error.  When the service is persistent the clean-up leaves it and its terminal alone.  (The clean-up
  stops the services one after the other; the other idle ones are taken to be such as can be stopped.)
\<close>

theorem watched_terminal_killed:
  assumes "watched sid i svc s reg" and "live p s" and "sid \<noteq> []" and "\<not> locked e i"
    and "append_all (concat (map (\<lambda>(t, xs). take 100 xs) ts)) (output_buffer s) \<noteq> None"
    and "3600000 < now - last_activity svc" and "\<And>x. decompress (compress e x) = x"
    and "\<forall>k v. k \<noteq> sid \<longrightarrow> get_service k reg = Some v \<longrightarrow> idle now v \<longrightarrow> stop_all (terms v) \<noteq> None"
  shows "\<exists>rs reg1 reg2. watch e sid i ts reg = Some (rs, reg1) \<and>
    shown decompress i rs = concat (map (\<lambda>(t, xs). take 100 xs) ts) \<and>
    cleanup_inactive_services now reg1 = Some reg2 \<and>
    (if is_persistent svc
     then \<exists>svc2 s2. get_service sid reg2 = Some svc2 \<and> map_of (terms svc2) i = Some s2 \<and> child s2 = Some p
     else Killed p \<in> set (done_to reg2) \<and> on_second_timer e now sid reg2 = Some ([], reg2) \<and>
       handle_action oe f now sid a reg2 = Some (Inr (Some (TermError (''Terminal service '' @ sid @ '' not found''))), reg2))"
proof -
  from watch_keeps [OF assms(1-5)] obtain rs reg1 s1 where w: "watch e sid i ts reg = Some (rs, reg1)"
    "rs = map (encode_output (compress e) i) (concat (map (\<lambda>(t, xs). take 100 xs) ts))"
    "watched sid i (svc\<lparr>terms := put i s1 (terms svc)\<rparr>) s1 reg1" "live p s1"
    "\<forall>k. k \<noteq> sid \<longrightarrow> get_service k reg1 = get_service k reg" by blast
  define svc1 where "svc1 = svc\<lparr>terms := put i s1 (terms svc)\<rparr>"
  have 1: "distinct (map fst (services reg1))" "get_service sid reg1 = Some svc1" "map_of (terms svc1) i = Some s1"
    "list_all (\<lambda>(j, u). \<exists>q. live q u) (terms svc1)"
    using w(3) by (simp_all add: watched_def svc1_def)
  from stop_live [OF 1(4)] 1(3) w(4) obtain es where es: "stop_all (terms svc1) = Some es" "Killed p \<in> set es" by blast
  have "\<forall>k v. get_service k reg1 = Some v \<longrightarrow> idle now v \<longrightarrow> stop_all (terms v) \<noteq> None"
    using assms(8) w(5) 1(2) es(1) by (metis option.distinct(1) option.inject)
  from cleanup_effect [OF 1(1) this] obtain reg2 where c: "cleanup_inactive_services now reg1 = Some reg2"
    "get_service sid reg2 = (if idle now svc1 then None else Some svc1)"
    "idle now svc1 \<Longrightarrow> set es \<subseteq> set (done_to reg2)"
    using 1(2) es(1) by blast
  have "terms svc1 \<noteq> []" using 1(3) by auto
  then have "idle now svc1 \<longleftrightarrow> \<not> is_persistent svc"
    using assms(6) by (simp add: idle_def SERVICE_IDLE_TIMEOUT_def svc1_def)
  with c 1(3) es(2) w(4) have "if is_persistent svc
     then \<exists>svc2 s2. get_service sid reg2 = Some svc2 \<and> map_of (terms svc2) i = Some s2 \<and> child s2 = Some p
     else Killed p \<in> set (done_to reg2) \<and> on_second_timer e now sid reg2 = Some ([], reg2) \<and>
       handle_action oe f now sid a reg2 = Some (Inr (Some (TermError (''Terminal service '' @ sid @ '' not found''))), reg2)"
    by (auto simp: live_def on_second_timer_def read_outputs_def handle_action_def)
  then show ?thesis
    using w(1) c(1) shown_encode [of decompress "compress e" i i, OF assms(7)] by (auto simp: w(2))
qed

subsection \<open>Samples\<close>

definition sample_env :: read_env where
  "sample_env = \<lparr>locked = (\<lambda>_. False), compress = id, try_wait = (\<lambda>_. Running)\<rparr>"

definition unix_host :: open_env where
  "unix_host = \<lparr>on_windows = False, env_var = (\<lambda>_. None), path_exists = (\<lambda>_. False), pty_opens = True,
     pty_spawns = Some (7, Some 42), pty_writer = True, pty_reader = True, pipe_spawns = None\<rparr>"

definition windows_host :: open_env where
  "windows_host = unix_host\<lparr>on_windows := True, pipe_spawns := Some 42\<rparr>"

definition one_service :: registry where
  "one_service = snd (get_or_create_service 0 ''t'' False False empty_registry)"

definition opened_on :: "open_env \<Rightarrow> registry" where
  "opened_on e = (case handle_action e (\<lambda>_ _. None) 0 ''t'' (OpenTerminal 1 24 80) one_service of
     Some (_, reg) \<Rightarrow> reg | None \<Rightarrow> one_service)"

definition sample_session :: terminal_session where
  "sample_session = (new_session 0 1 24 80)\<lparr>pid := 42, pty := True, child := Some 7, reader := Reading, writer := True,
     input_tx := Some [], output_rx := Some [], is_opened := True\<rparr>"

lemma opened_unix:
  "handle_action unix_host (\<lambda>_ _. None) 0 ''t'' (OpenTerminal 1 24 80) one_service =
    Some (Inr (Some (Opened 1 True ''Terminal opened'' 42 ''t'' [])), opened_on unix_host)"
  "services (opened_on unix_host) = [(''t'', (persistent_service_new 0 False False)\<lparr>terms := [(1, sample_session)]\<rparr>)]"
  by (simp_all add: opened_on_def one_service_def get_or_create_service_def empty_registry_def get_service_def
      MAX_SERVICES_def persistent_service_new_def reset_status_def handle_action_def act_on_def handle_open_def
      drop_dead_def spawn_shell_def unix_host_def sample_session_def new_session_def perform_def to_reap_def Let_def)

lemma reachable_one: "reachable w one_service"
  unfolding one_service_def by (intro reachable.opens reachable.start)

lemma reachable_unix: "reachable False (opened_on unix_host)"
  by (rule reachable.acts [OF reachable_one _ opened_unix(1)]) (simp add: unix_host_def)

lemma registry_bounded_witness:
  "length (services (opened_on unix_host)) \<le> 100 \<and> distinct (map fst (services (opened_on unix_host)))"
  using registry_bounded [OF reachable_unix] by (intro conjI) (elim conjE, assumption)+

lemma windows_reopen_is_new_witness:
  "(\<exists>m reg'. handle_action windows_host (\<lambda>_ _. None) 5 ''t'' (OpenTerminal 1 24 80) (opened_on windows_host) = Some (m, reg') \<and>
    (\<exists>others. m = Inr (Some (Opened 1 True ''Terminal opened'' 42 ''t'' others))) \<and>
    (\<forall>p. Killed p \<notin> set (done_to reg') \<and> ToReaper p \<notin> set (done_to reg')))"
proof -
  note defs = one_service_def get_or_create_service_def empty_registry_def get_service_def
      MAX_SERVICES_def persistent_service_new_def reset_status_def handle_action_def act_on_def handle_open_def
      drop_dead_def spawn_shell_def unix_host_def windows_host_def new_session_def perform_def to_reap_def Let_def
      session_dead_def session_stop_def send_input_def chan_send_def CHANNEL_BUFFER_SIZE_def del_def
  have 1: "handle_action windows_host (\<lambda>_ _. None) 0 ''t'' (OpenTerminal 1 24 80) one_service =
      Some (Inr (Some (Opened 1 True ''Terminal opened'' 42 ''t'' [])), opened_on windows_host)"
    by (simp add: defs opened_on_def)
  have r: "reachable True (opened_on windows_host)"
    by (rule reachable.acts [OF reachable_one _ 1]) (simp add: windows_host_def)
  have "get_service ''t'' (opened_on windows_host) \<noteq> None" by (simp add: defs opened_on_def)
  then obtain svc where svc: "get_service ''t'' (opened_on windows_host) = Some svc" by blast
  have "handle_action windows_host (\<lambda>_ _. None) 5 ''t'' (OpenTerminal 1 24 80) (opened_on windows_host) \<noteq> None"
    by (simp add: defs opened_on_def)
  then obtain m reg' where h: "handle_action windows_host (\<lambda>_ _. None) 5 ''t'' (OpenTerminal 1 24 80)
    (opened_on windows_host) = Some (m, reg')" by force
  show ?thesis using windows_reopen_is_new [OF r _ svc _ h, of 42] h by (simp add: windows_host_def)
qed

lemma append_char: "append_all [[36]] output_buffer_new = Some (output_buffer_new\<lparr>buf_lines := [[36]],
    total_size := 1, last_line_incomplete := True\<rparr>)"
  by (simp add: append_output_def complete_line_def output_buffer_new_def trim.simps MAX_OUTPUT_BUFFER_SIZE_def
      MAX_BUFFER_LINES_def)

lemma turn_delivers_witness:
  "\<exists>rs reg' svc' s'. read_outputs sample_env 5 False ''t'' (at_session (receives [[36]]) ''t'' 1 (opened_on unix_host)) =
      Some (rs, reg') \<and> shown id 1 rs = take 100 [[36]] \<and>
    get_service ''t'' reg' = Some svc' \<and> map_of (terms svc') 1 = Some s' \<and> output_rx s' = Some []"
proof (rule turn_delivers [OF reachable_unix])
  show "get_service ''t'' (opened_on unix_host) =
      Some ((persistent_service_new 0 False False)\<lparr>terms := [(1, sample_session)]\<rparr>)"
    by (simp add: get_service_def opened_unix(2))
  show "append_all (take 100 [[36]]) (output_buffer sample_session) \<noteq> None"
    using append_char by (simp add: sample_session_def new_session_def)
qed (simp_all add: sample_session_def new_session_def sample_env_def)

lemma watched_terminal_killed_witness:
  "\<exists>rs reg1 reg2. watch sample_env ''t'' 1 [(1000 :: nat, [[36]])] (opened_on unix_host) = Some (rs, reg1) \<and>
    shown id 1 rs = concat (map (\<lambda>(t, xs). take 100 xs) [(1000 :: nat, [[36]])]) \<and>
    cleanup_inactive_services 3600001 reg1 = Some reg2 \<and> Killed 7 \<in> set (done_to reg2) \<and>
    on_second_timer sample_env 3600001 ''t'' reg2 = Some ([], reg2) \<and>
    handle_action unix_host (\<lambda>_ _. None) 3600001 ''t'' (CloseTerminal 1) reg2 =
      Some (Inr (Some (TermError (''Terminal service '' @ ''t'' @ '' not found''))), reg2)"
proof -
  let ?svc = "(persistent_service_new 0 False False)\<lparr>terms := [(1, sample_session)]\<rparr>"
  have w: "watched ''t'' 1 ?svc sample_session (opened_on unix_host)"
    by (simp add: watched_def get_service_def opened_unix(2))
      (simp add: sample_session_def new_session_def live_def CHANNEL_BUFFER_SIZE_def)
  have l: "live 7 sample_session" by (simp add: sample_session_def new_session_def live_def CHANNEL_BUFFER_SIZE_def)
  have b: "append_all (concat (map (\<lambda>(t, xs). take 100 xs) [(1000 :: nat, [[36]])])) (output_buffer sample_session) \<noteq> None"
    using append_char by (simp add: sample_session_def new_session_def)
  have others: "\<forall>k v. k \<noteq> ''t'' \<longrightarrow> get_service k (opened_on unix_host) = Some v \<longrightarrow> idle 3600001 v \<longrightarrow> stop_all (terms v) \<noteq> None"
    by (simp add: get_service_def opened_unix(2))
  from watched_terminal_killed [where e = sample_env and now = 3600001 and decompress = id, OF w l _ _ b _ _ others,
      of unix_host "\<lambda>_ _. None" "CloseTerminal 1"]
  show ?thesis by (simp add: sample_env_def persistent_service_new_def)
qed

end
