(* ===== verification/Terminal_Login.thy ===== *)
theory Terminal_Login
  imports Terminal_Registry Login_Properties
begin

text \<open>
  Logging in to a terminal: the registry of \<open>Terminal_Service\<close> under the login of \<open>Login\<close>.
  A login request makes or takes over the service that it names before its password is looked at,
  so what the registry holds is up to anybody who can reach the host.
\<close>













end
