(* ===== verification/Client_Config.thy ===== *)
theory Client_Config
  imports Session_Control Addresses
begin

text \<open>
  The controlling side's record of a peer, \<^verbatim>\<open>LoginConfigHandler\<close> of \<^verbatim>\<open>src/client.rs\<close>: the stored
  configuration of the peer with the switches of the user interface, the option messages that follow
  from them, the choice of the password with which to log in, and what is remembered of it.

  The state is the handler with the configurations on disk, a map from the identifier of a peer.  The
  messages are those of \<open>Login\<close> and \<open>Session_Control\<close>, so that both ends of a session speak of the
  same values.  Reading a configuration back gives what was stored; serialisation and the encryption of
  its passwords are the subject of \<open>Stored_Secrets\<close>.
\<close>

subsection \<open>The state\<close>

datatype conn_kind = DEFAULT_CONN | FILE_TRANSFER | PORT_FORWARD | RDP | VIEW_CAMERA | TERMINAL

datatype password_source = PersonalAb string | SharedAb string | Undefined

record peer_config =
  pc_password :: string
  pc_view_style :: string
  pc_scroll_style :: string
  pc_edge_thickness :: int
  pc_image_quality :: string
  pc_custom_image_quality :: "int list"
  pc_show_remote_cursor :: bool
  pc_lock_after_session_end :: bool
  pc_privacy_mode :: bool
  pc_allow_swap_key :: bool
  pc_direct_failures :: int
  pc_disable_audio :: bool
  pc_disable_clipboard :: bool
  pc_enable_file_copy_paste :: bool
  pc_show_quality_monitor :: bool
  pc_follow_remote_cursor :: bool
  pc_follow_remote_window :: bool
  pc_keyboard_mode :: string
  pc_view_only :: bool
  pc_show_my_cursor :: bool
  pc_reverse_mouse_wheel :: string
  pc_individual_windows :: string
  pc_use_all_displays :: string
  pc_trackpad_speed :: int
  pc_custom_resolutions :: "string \<Rightarrow> (int \<times> int) option"
  pc_options :: "string \<Rightarrow> string option"
  pc_ui_flutter :: "string \<Rightarrow> string option"
  pc_info :: "string \<times> string \<times> string"

text \<open>The salt and the challenge that the peer has sent.\<close>

type_synonym hash = "string \<times> string"

record conn_token =
  token_password :: string
  token_source :: password_source
  token_session :: u64

record handler =
  h_id :: string
  conn_type :: conn_kind
  is_terminal_admin :: bool
  h_hash :: hash
  h_password :: string
  h_tokenex :: string
  remember :: bool
  config :: peer_config
  h_port_forward :: "string \<times> int"
  h_version :: int
  features :: "(bool \<times> bool) option"
  h_session_id :: u64
  restarting_remote_device :: bool
  force_relay :: bool
  direct :: "bool option"
  received :: bool
  switch_uuid :: "string option"
  custom_fps :: "int option"
  selected_windows_session_id :: "nat option"
  password_source :: password_source
  shared_password :: "string option"
  record_state :: bool
  record_permission :: bool

text \<open>An entry of the address book: its name and the identifiers and coded password hashes of its peers.\<close>

record client_env =
  default_config :: peer_config
  flutter :: bool
  sha :: "string \<Rightarrow> string"
  decode64 :: "string \<Rightarrow> string option"
  parse_i32 :: "string \<Rightarrow> int option"
  string_map :: "string \<Rightarrow> (string \<Rightarrow> string option)"
  map_string :: "(string \<Rightarrow> string option) \<Rightarrow> string"
  decoding :: nat
  random_id :: u64
  connect_arg :: "string option"
  terminal_admin :: "string option"
  my_config_id :: string
  my_avatar :: string
  last_token :: "string option"
  builtin :: "string \<Rightarrow> string"
  user_info_name :: string
  system_user :: string
  platform_name :: string
  my_hwid :: string
  access_token :: string
  ab_access_token :: string
  ab_entries :: "(string \<times> (string \<times> string) list) list"
  parse_uuid :: "string \<Rightarrow> string option"
  lowercase :: "string \<Rightarrow> string"

type_synonym disk = "string \<Rightarrow> peer_config option"
type_synonym client = "handler \<times> disk"

definition load_peer :: "client_env \<Rightarrow> disk \<Rightarrow> string \<Rightarrow> peer_config" where
  "load_peer e d i = (case d i of Some c \<Rightarrow> c | None \<Rightarrow> default_config e)"

definition load_config :: "client_env \<Rightarrow> client \<Rightarrow> peer_config" where
  "load_config e st = (case st of (h, d) \<Rightarrow> load_peer e d (h_id h))"

definition save_config :: "peer_config \<Rightarrow> client \<Rightarrow> client" where
  "save_config c st = (case st of (h, d) \<Rightarrow> (h\<lparr>config := c\<rparr>, d(h_id h \<mapsto> c)))"

definition get_option :: "handler \<Rightarrow> string \<Rightarrow> string" where
  "get_option h k = (case pc_options (config h) k of Some v \<Rightarrow> v | None \<Rightarrow> [])"

text \<open>The operations that change one value of the stored configuration.\<close>

definition change :: "client_env \<Rightarrow> (peer_config \<Rightarrow> peer_config) \<Rightarrow> client \<Rightarrow> client" where
  "change e f st = save_config (f (load_config e st)) st"

definition set_option :: "client_env \<Rightarrow> string \<Rightarrow> string \<Rightarrow> client \<Rightarrow> client" where
  "set_option e k v = change e (\<lambda>c. c\<lparr>pc_options := (pc_options c)(k \<mapsto> v)\<rparr>)"

definition save_view_style :: "client_env \<Rightarrow> string \<Rightarrow> client \<Rightarrow> client" where
  "save_view_style e v = change e (\<lambda>c. c\<lparr>pc_view_style := v\<rparr>)"

definition save_keyboard_mode :: "client_env \<Rightarrow> string \<Rightarrow> client \<Rightarrow> client" where
  "save_keyboard_mode e v = change e (\<lambda>c. c\<lparr>pc_keyboard_mode := v\<rparr>)"

definition save_reverse_mouse_wheel :: "client_env \<Rightarrow> string \<Rightarrow> client \<Rightarrow> client" where
  "save_reverse_mouse_wheel e v = change e (\<lambda>c. c\<lparr>pc_reverse_mouse_wheel := v\<rparr>)"

definition save_displays_as_individual_windows :: "client_env \<Rightarrow> string \<Rightarrow> client \<Rightarrow> client" where
  "save_displays_as_individual_windows e v = change e (\<lambda>c. c\<lparr>pc_individual_windows := v\<rparr>)"

definition save_use_all_my_displays :: "client_env \<Rightarrow> string \<Rightarrow> client \<Rightarrow> client" where
  "save_use_all_my_displays e v = change e (\<lambda>c. c\<lparr>pc_use_all_displays := v\<rparr>)"

definition save_scroll_style :: "client_env \<Rightarrow> string \<Rightarrow> client \<Rightarrow> client" where
  "save_scroll_style e v = change e (\<lambda>c. c\<lparr>pc_scroll_style := v\<rparr>)"

definition save_edge_scroll_edge_thickness :: "client_env \<Rightarrow> int \<Rightarrow> client \<Rightarrow> client" where
  "save_edge_scroll_edge_thickness e v = change e (\<lambda>c. c\<lparr>pc_edge_thickness := v\<rparr>)"

definition save_ui_flutter :: "client_env \<Rightarrow> string \<Rightarrow> string \<Rightarrow> client \<Rightarrow> client" where
  "save_ui_flutter e k v =
     change e (\<lambda>c. c\<lparr>pc_ui_flutter := (pc_ui_flutter c)(k := if v = [] then None else Some v)\<rparr>)"

definition get_ui_flutter :: "handler \<Rightarrow> string \<Rightarrow> string" where
  "get_ui_flutter h k = (case pc_ui_flutter (config h) k of Some v \<Rightarrow> v | None \<Rightarrow> [])"

definition set_direct_failure :: "client_env \<Rightarrow> int \<Rightarrow> client \<Rightarrow> client" where
  "set_direct_failure e v = change e (\<lambda>c. c\<lparr>pc_direct_failures := v\<rparr>)"

definition save_trackpad_speed :: "client_env \<Rightarrow> int \<Rightarrow> client \<Rightarrow> client" where
  "save_trackpad_speed e v = change e (\<lambda>c. c\<lparr>pc_trackpad_speed := v\<rparr>)"

definition get_custom_resolution :: "handler \<Rightarrow> int \<Rightarrow> (int \<times> int) option" where
  "get_custom_resolution h display = pc_custom_resolutions (config h) (int_decimal display)"

definition set_custom_resolution :: "client_env \<Rightarrow> int \<Rightarrow> (int \<times> int) option \<Rightarrow> client \<Rightarrow> client" where
  "set_custom_resolution e display wh =
     change e (\<lambda>c. c\<lparr>pc_custom_resolutions := (pc_custom_resolutions c)(int_decimal display := wh)\<rparr>)"

definition get_username :: "handler \<Rightarrow> string \<Rightarrow> string" where
  "get_username h peer_username = (if peer_username = [] then fst (pc_info (config h)) else peer_username)"

definition should_auto_login :: "handler \<Rightarrow> string" where
  "should_auto_login h =
     (if get_option h ''os-password'' \<noteq> [] \<and> pc_lock_after_session_end (config h) \<and> get_option h ''auto-login'' \<noteq> []
      then get_option h ''os-password'' else [])"

text \<open>The directory in which a file transfer starts, one for each user of the peer.\<close>

definition get_remote_dir :: "client_env \<Rightarrow> handler \<Rightarrow> string" where
  "get_remote_dir e h =
     (case string_map e (get_option h ''remote_dir'') (fst (pc_info (config h))) of Some p \<Rightarrow> p | None \<Rightarrow> [])"

definition get_all_remote_dir :: "client_env \<Rightarrow> handler \<Rightarrow> string \<Rightarrow> string" where
  "get_all_remote_dir e h path =
     map_string e ((string_map e (get_option h ''remote_dir''))
       (fst (pc_info (config h)) := if path = [] then None else Some path))"

definition get_key_terminal_service_id :: "handler \<Rightarrow> string" where
  "get_key_terminal_service_id h =
     (if is_terminal_admin h then ''terminal-admin-service-id'' else ''terminal-service-id'')"

subsection \<open>Switches\<close>

definition i32 :: "int \<Rightarrow> int" where
  "i32 x = sint (word_of_int x :: u32)"

definition yes_no :: "bool \<Rightarrow> bool_option" where
  "yes_no b = (if b then Yes else No)"

definition no_options :: option_message where
  "no_options = \<lparr>opt_image_quality = QualityNotSet, opt_custom_image_quality = 0, opt_custom_fps = 0,
     opt_supported_decoding = None, opt_lock_after_session_end = NotSet, opt_show_remote_cursor = NotSet,
     opt_follow_remote_cursor = NotSet, opt_follow_remote_window = NotSet, opt_disable_audio = NotSet,
     opt_enable_file_transfer = NotSet, opt_disable_clipboard = NotSet, opt_disable_keyboard = NotSet,
     opt_privacy_mode = NotSet, opt_block_input = NotSet, opt_show_my_cursor = NotSet\<rparr>"

definition get_toggle_option :: "handler \<Rightarrow> string \<Rightarrow> bool" where
  "get_toggle_option h name =
     (let c = config h
      in if name = ''show-remote-cursor'' then pc_show_remote_cursor c
         else if name = ''lock-after-session-end'' then pc_lock_after_session_end c
         else if name = ''privacy-mode'' then pc_privacy_mode c
         else if name = ''enable-file-copy-paste'' then pc_enable_file_copy_paste c
         else if name = ''disable-audio'' then pc_disable_audio c
         else if name = ''disable-clipboard'' then pc_disable_clipboard c
         else if name = ''show-quality-monitor'' then pc_show_quality_monitor c
         else if name = ''allow_swap_key'' then pc_allow_swap_key c
         else if name = ''view-only'' then pc_view_only c
         else if name = ''show-my-cursor'' then pc_show_my_cursor c
         else if name = ''follow-remote-cursor'' then pc_follow_remote_cursor c
         else if name = ''follow-remote-window'' then pc_follow_remote_window c
         else get_option h name \<noteq> [])"

text \<open>Switching \<open>view-only\<close>: the message restricts the session, or gives back what the configuration says.\<close>

definition toggle_view_only :: "handler \<Rightarrow> peer_config \<Rightarrow> peer_config \<times> option_message" where
  "toggle_view_only h c =
     (let c1 = c\<lparr>pc_view_only := \<not> pc_view_only c\<rparr>
      in if pc_view_only c1 then
           (c1, no_options\<lparr>opt_disable_keyboard := Yes, opt_disable_clipboard := Yes, opt_show_remote_cursor := Yes,
                  opt_enable_file_transfer := No, opt_lock_after_session_end := No\<rparr>)
         else
           (let o' = no_options\<lparr>opt_disable_keyboard := No,
                  opt_disable_clipboard := yes_no (get_toggle_option h ''disable-clipboard''),
                  opt_show_remote_cursor := yes_no (get_toggle_option h ''show-remote-cursor''),
                  opt_enable_file_transfer := yes_no (pc_enable_file_copy_paste (config h)),
                  opt_lock_after_session_end := yes_no (pc_lock_after_session_end (config h))\<rparr>
            in if pc_show_my_cursor c1 then (c1\<lparr>pc_show_my_cursor := False\<rparr>, o'\<lparr>opt_show_my_cursor := No\<rparr>)
               else (c1, o')))"

text \<open>The switches with a field of their own; \<open>None\<close> for every other name.\<close>

definition toggle_known :: "handler \<Rightarrow> string \<Rightarrow> peer_config \<Rightarrow> (peer_config \<times> option_message) option" where
  "toggle_known h name c =
     (if name = ''show-remote-cursor'' then
        Some (c\<lparr>pc_show_remote_cursor := \<not> pc_show_remote_cursor c\<rparr>,
              no_options\<lparr>opt_show_remote_cursor := yes_no (\<not> pc_show_remote_cursor c)\<rparr>)
      else if name = ''follow-remote-cursor'' then
        Some (c\<lparr>pc_follow_remote_cursor := \<not> pc_follow_remote_cursor c\<rparr>,
              no_options\<lparr>opt_follow_remote_cursor := yes_no (\<not> pc_follow_remote_cursor c)\<rparr>)
      else if name = ''follow-remote-window'' then
        Some (c\<lparr>pc_follow_remote_window := \<not> pc_follow_remote_window c\<rparr>,
              no_options\<lparr>opt_follow_remote_window := yes_no (\<not> pc_follow_remote_window c)\<rparr>)
      else if name = ''disable-audio'' then
        Some (c\<lparr>pc_disable_audio := \<not> pc_disable_audio c\<rparr>,
              no_options\<lparr>opt_disable_audio := yes_no (\<not> pc_disable_audio c)\<rparr>)
      else if name = ''disable-clipboard'' then
        Some (c\<lparr>pc_disable_clipboard := \<not> pc_disable_clipboard c\<rparr>,
              no_options\<lparr>opt_disable_clipboard := yes_no (\<not> pc_disable_clipboard c)\<rparr>)
      else if name = ''lock-after-session-end'' then
        Some (c\<lparr>pc_lock_after_session_end := \<not> pc_lock_after_session_end c\<rparr>,
              no_options\<lparr>opt_lock_after_session_end := yes_no (\<not> pc_lock_after_session_end c)\<rparr>)
      else if name = ''privacy-mode'' then
        Some (c, no_options\<lparr>opt_privacy_mode := yes_no (\<not> pc_privacy_mode c)\<rparr>)
      else if name = ''enable-file-copy-paste'' then
        Some (c\<lparr>pc_enable_file_copy_paste := \<not> pc_enable_file_copy_paste c\<rparr>,
              no_options\<lparr>opt_enable_file_transfer := yes_no (\<not> pc_enable_file_copy_paste c)\<rparr>)
      else if name = ''block-input'' then Some (c, no_options\<lparr>opt_block_input := Yes\<rparr>)
      else if name = ''unblock-input'' then Some (c, no_options\<lparr>opt_block_input := No\<rparr>)
      else if name = ''show-quality-monitor'' then
        Some (c\<lparr>pc_show_quality_monitor := \<not> pc_show_quality_monitor c\<rparr>, no_options)
      else if name = ''allow_swap_key'' then Some (c\<lparr>pc_allow_swap_key := \<not> pc_allow_swap_key c\<rparr>, no_options)
      else if name = ''view-only'' then Some (toggle_view_only h c)
      else if name = ''show-my-cursor'' then
        Some (c\<lparr>pc_show_my_cursor := \<not> pc_show_my_cursor c\<rparr>,
              no_options\<lparr>opt_show_my_cursor := yes_no (\<not> pc_show_my_cursor c)\<rparr>)
      else None)"

definition toggle_option :: "client_env \<Rightarrow> string \<Rightarrow> client \<Rightarrow> option_message option \<times> client" where
  "toggle_option e name st =
     (case st of (h, d) \<Rightarrow>
        (case toggle_known h name (load_config e st) of
           Some (c, o') \<Rightarrow>
             (Some o', if name = ''block-input'' \<or> name = ''unblock-input'' then st else save_config c st)
         | None \<Rightarrow>
             (let set = (case pc_options (config h) name of Some v \<Rightarrow> v \<noteq> [] | None \<Rightarrow> False);
                  c = (config h)\<lparr>pc_options := (pc_options (config h))(name := if set then None else Some ''Y'')\<rparr>
              in (None, h\<lparr>config := c\<rparr>, d(h_id h \<mapsto> c)))))"

text \<open>Whether a switch empties the clipboard of files on the controlling side.\<close>

definition empties_clipboard :: "option_message option \<Rightarrow> bool" where
  "empties_clipboard m = (case m of Some o' \<Rightarrow> opt_enable_file_transfer o' = No | None \<Rightarrow> False)"

subsection \<open>The quality of the picture\<close>

definition get_image_quality_enum :: "string \<Rightarrow> bool \<Rightarrow> image_quality option" where
  "get_image_quality_enum q ignore_default =
     (if q = ''low'' then Some QualityLow
      else if q = ''best'' then Some QualityBest
      else if q = ''balanced'' then (if ignore_default then None else Some QualityBalanced)
      else None)"

definition save_custom_image_quality :: "client_env \<Rightarrow> int \<Rightarrow> client \<Rightarrow> option_message \<times> client" where
  "save_custom_image_quality e q st =
     (no_options\<lparr>opt_custom_image_quality := i32 (q * 256)\<rparr>,
      change e (\<lambda>c. c\<lparr>pc_image_quality := ''custom'', pc_custom_image_quality := [q]\<rparr>) st)"

definition save_image_quality :: "client_env \<Rightarrow> string \<Rightarrow> client \<Rightarrow> option_message option \<times> client" where
  "save_image_quality e v st =
     (map_option (\<lambda>q. no_options\<lparr>opt_image_quality := q\<rparr>) (get_image_quality_enum v False),
      change e (\<lambda>c. c\<lparr>pc_image_quality := v\<rparr>) st)"

definition set_custom_fps :: "client_env \<Rightarrow> int \<Rightarrow> bool \<Rightarrow> client \<Rightarrow> option_message \<times> client" where
  "set_custom_fps e fps save st =
     (let st1 = (if save then change e (\<lambda>c. c\<lparr>pc_options := (pc_options c)(''custom-fps'' \<mapsto> int_decimal fps)\<rparr>) st
                 else st)
      in (no_options\<lparr>opt_custom_fps := fps\<rparr>,
          case st1 of (h, d) \<Rightarrow> (h\<lparr>custom_fps := Some (uint (word_of_int fps :: usize))\<rparr>, d)))"

text \<open>The measured rate of decoded frames, over windows of at most thirty.\<close>

record fps_state =
  skip_beginning :: nat
  fps_count :: nat
  fps_duration :: nat
  measured_fps :: "nat option"

definition fps_calculate :: "bool \<Rightarrow> nat \<Rightarrow> fps_state \<Rightarrow> fps_state" where
  "fps_calculate format_changed elapsed s =
     (let s0 = (if format_changed then s\<lparr>fps_count := 0, fps_duration := 0, skip_beginning := 0\<rparr> else s)
      in if skip_beginning s0 < 3 then s0\<lparr>skip_beginning := skip_beginning s0 + 1\<rparr>
         else
           (let s1 = s0\<lparr>fps_duration := fps_duration s0 + elapsed, fps_count := fps_count s0 + 1\<rparr>;
                ms = fps_duration s1 div 1000;
                s2 = (if fps_count s1 mod 10 = 0 \<and> 0 < ms then s1\<lparr>measured_fps := Some (fps_count s1 * 1000 div ms)\<rparr>
                      else s1)
            in if 30 \<le> fps_count s2 then s2\<lparr>fps_count := 0, fps_duration := 0\<rparr> else s2))"

text \<open>The options of a login; what the handler notes of the frame rate on the way is its new state.\<close>

definition quality_options :: "client_env \<Rightarrow> bool \<Rightarrow> client \<Rightarrow> option_message \<times> client" where
  "quality_options e ignore_default st =
     (case st of (h, d) \<Rightarrow>
        (case get_image_quality_enum (pc_image_quality (config h)) ignore_default of
           Some q \<Rightarrow> (no_options\<lparr>opt_image_quality := q\<rparr>, st)
         | None \<Rightarrow>
             if pc_image_quality (config h) = ''custom'' then
               (let q = (case pc_custom_image_quality (load_config e st) of [] \<Rightarrow> 50 | q # _ \<Rightarrow> q);
                    o' = no_options\<lparr>opt_custom_image_quality := i32 (q * 256)\<rparr>
                in case pc_options (config h) ''custom-fps'' of
                     Some v \<Rightarrow>
                       if flutter e then
                         (let f = (case parse_i32 e v of Some f \<Rightarrow> f | None \<Rightarrow> 30)
                          in (o'\<lparr>opt_custom_fps := f\<rparr>, h\<lparr>custom_fps := Some (uint (word_of_int f :: usize))\<rparr>, d))
                       else (o', st)
                   | None \<Rightarrow> (o', st))
             else (no_options, st)))"

definition set_if :: "bool \<Rightarrow> bool_option" where
  "set_if b = (if b then Yes else NotSet)"

definition get_option_message :: "client_env \<Rightarrow> bool \<Rightarrow> client \<Rightarrow> option_message option \<times> client" where
  "get_option_message e ignore_default st =
     (if conn_type (fst st) \<in> {PORT_FORWARD, RDP, FILE_TRANSFER} then (None, st)
      else
        (case quality_options e ignore_default st of
           (o', h, d) \<Rightarrow>
             (let view_only = get_toggle_option h ''view-only''
              in (Some (o'\<lparr>opt_disable_keyboard := set_if view_only,
                     opt_show_remote_cursor := set_if (view_only \<or> get_toggle_option h ''show-remote-cursor''),
                     opt_show_my_cursor := set_if (view_only \<and> get_toggle_option h ''show-my-cursor''),
                     opt_follow_remote_cursor := set_if (get_toggle_option h ''follow-remote-cursor''),
                     opt_follow_remote_window := set_if (get_toggle_option h ''follow-remote-window''),
                     opt_lock_after_session_end :=
                       set_if (\<not> view_only \<and> get_toggle_option h ''lock-after-session-end''),
                     opt_disable_audio := set_if (get_toggle_option h ''disable-audio''),
                     opt_enable_file_transfer :=
                       set_if (\<not> view_only \<and> get_toggle_option h ''enable-file-copy-paste''),
                     opt_disable_clipboard := set_if (view_only \<or> get_toggle_option h ''disable-clipboard''),
                     opt_supported_decoding := Some (decoding e)\<rparr>), h, d))))"

subsection \<open>Passwords\<close>

definition salted :: "client_env \<Rightarrow> string \<Rightarrow> hash \<Rightarrow> string" where
  "salted e p hs = sha e (p @ fst hs)"

definition answer :: "client_env \<Rightarrow> string \<Rightarrow> hash \<Rightarrow> string" where
  "answer e hp hs = sha e (hp @ snd hs)"

definition is_personal_ab :: "password_source \<Rightarrow> string \<Rightarrow> bool" where
  "is_personal_ab src p = (p \<noteq> [] \<and> (case src of PersonalAb q \<Rightarrow> q = p | _ \<Rightarrow> False))"

definition is_shared_ab :: "client_env \<Rightarrow> password_source \<Rightarrow> string \<Rightarrow> hash \<Rightarrow> bool" where
  "is_shared_ab e src p hs = (p \<noteq> [] \<and> (case src of SharedAb q \<Rightarrow> salted e q hs = p | _ \<Rightarrow> False))"

text \<open>A session begins: with what it was told, and with the token of the session before it.\<close>

definition initialize ::
  "client_env \<Rightarrow> string \<Rightarrow> conn_kind \<Rightarrow> string option \<Rightarrow> bool \<Rightarrow> string option \<Rightarrow> conn_token option \<Rightarrow> string
     \<Rightarrow> client \<Rightarrow> client" where
  "initialize e i kind uuid relay shared token tk st =
     (case st of (h, d) \<Rightarrow>
        (let c = load_peer e d i;
             k = (case connect_arg e of
                    Some a \<Rightarrow> if take 26 a = ''hoptodesk://file-transfer/'' then FILE_TRANSFER else kind
                  | None \<Rightarrow> kind);
             h1 = h\<lparr>h_id := i, conn_type := k, h_tokenex := tk, config := c, remember := (pc_password c \<noteq> [])\<rparr>;
             h2 = (case token of
                     Some t \<Rightarrow> h1\<lparr>h_password := token_password t, password_source := token_source t\<rparr>
                   | None \<Rightarrow> h1);
             sid = (case token of Some t \<Rightarrow> token_session t | None \<Rightarrow> 0);
             sid1 = (if sid \<noteq> 0 then sid else if random_id e \<noteq> 0 then random_id e else 1)
         in (h2\<lparr>h_session_id := sid1, restarting_remote_device := False,
                 force_relay := (option2bool ''force-always-relay'' (get_option h2 ''force-always-relay'') \<or> relay),
                 direct := None, received := False, switch_uuid := uuid, selected_windows_session_id := None,
                 shared_password := shared, record_state := False, record_permission := True,
                 is_terminal_admin := (kind = TERMINAL \<and> terminal_admin e = Some ''Y'')\<rparr>, d)))"

definition get_conn_token :: "handler \<Rightarrow> conn_token option" where
  "get_conn_token h =
     (if h_password h = [] then None
      else Some \<lparr>token_password = h_password h, token_source = password_source h, token_session = h_session_id h\<rparr>)"

text \<open>The login request with the options and the account of the system that it names.\<close>

record client_login =
  cl_request :: login_request
  cl_option :: "option_message option"
  cl_os_login :: "string \<times> string"
  cl_avatar :: string

definition login_tokenex :: "client_env \<Rightarrow> string" where
  "login_tokenex e =
     (let stored = (case last_token e of Some t \<Rightarrow> t | None \<Rightarrow> [])
      in case connect_arg e of
           Some a \<Rightarrow>
             (let parts = split_char CHR ''/'' a
              in if 5 \<le> length parts \<and> length (parts ! 4) = 32 then parts ! 4 else stored)
         | None \<Rightarrow> stored)"

definition client_name :: "client_env \<Rightarrow> string" where
  "client_name e =
     (if builtin e ''display-name'' \<noteq> [] then builtin e ''display-name''
      else if user_info_name e \<noteq> [] then user_info_name e
      else system_user e)"

definition client_union :: "client_env \<Rightarrow> handler \<Rightarrow> login_union" where
  "client_union e h =
     (case conn_type h of
        FILE_TRANSFER \<Rightarrow> LoginFileTransfer (get_remote_dir e h) (get_option h ''remote_show_hidden'' \<noteq> [])
      | VIEW_CAMERA \<Rightarrow> LoginViewCamera
      | PORT_FORWARD \<Rightarrow> LoginPortForward (fst (h_port_forward h)) (snd (h_port_forward h))
      | RDP \<Rightarrow> LoginPortForward (fst (h_port_forward h)) (snd (h_port_forward h))
      | TERMINAL \<Rightarrow> LoginTerminal (get_option h (get_key_terminal_service_id h))
      | DEFAULT_CONN \<Rightarrow> LoginDefault)"

definition create_login_msg :: "client_env \<Rightarrow> string \<Rightarrow> string \<Rightarrow> string \<Rightarrow> client \<Rightarrow> client_login \<times> client" where
  "create_login_msg e os_user os_pw password st =
     (case get_option_message e True st of
        (o', h, d) \<Rightarrow>
          (\<lparr>cl_request = \<lparr>my_id = my_config_id e, my_name = client_name e, my_platform = platform_name e,
              username = h_id h, lr_password = password, session_id = h_session_id h,
              lr_hwid = (if get_option h ''trust-this-device'' = ''Y'' then my_hwid e else []),
              tokenex = login_tokenex e, lr_version = nat (get_version_number ''1.40.7''),
              lr_union = client_union e h\<rparr>,
            cl_option = o', cl_os_login = (os_user, os_pw), cl_avatar = my_avatar e\<rparr>, h, d))"

text \<open>The messages that the handler shows and sends.\<close>

datatype client_act =
    MsgBox string string string string
  | SendLogin client_login
  | SendSwitchLogin string login_request

definition ab_password :: "client_env \<Rightarrow> string \<Rightarrow> string option" where
  "ab_password e i =
     (if access_token e \<noteq> [] \<and> access_token e = ab_access_token e then
        (case find (\<lambda>(name, _). name = ''My address book'' \<or> name = ''Legacy address book'') (ab_entries e) of
           Some (_, peers) \<Rightarrow>
             (case map_of peers i of
                Some coded \<Rightarrow> (case decode64 e coded of Some p \<Rightarrow> if p = [] then None else Some p | None \<Rightarrow> None)
              | None \<Rightarrow> None)
         | None \<Rightarrow> None)
      else None)"

text \<open>The order in which the passwords are tried, with where the chosen one comes from.\<close>

definition choose_password :: "client_env \<Rightarrow> string \<Rightarrow> hash \<Rightarrow> handler \<Rightarrow> string \<times> password_source" where
  "choose_password e preset hs h =
     (let s0 = (h_password h, password_source h);
          s1 = (if fst s0 = [] \<and> preset \<noteq> [] then (salted e preset hs, Undefined) else s0);
          s2 = (case shared_password h of
                  Some sp \<Rightarrow> if sp = [] then s1 else (salted e sp hs, SharedAb sp) | None \<Rightarrow> s1);
          s3 = (if fst s2 = [] then
                  (pc_password (config h), if pc_password (config h) = [] then snd s2 else Undefined) else s2);
          s4 = (if fst s3 = [] then
                  (case ab_password e (h_id h) of Some p \<Rightarrow> (p, PersonalAb p) | None \<Rightarrow> s3) else s3)
      in if fst s4 = [] \<and> builtin e ''default-connect-password'' \<noteq> [] then
           (salted e (builtin e ''default-connect-password'') hs, SharedAb (builtin e ''default-connect-password''))
         else s4)"

definition handle_hash :: "client_env \<Rightarrow> string \<Rightarrow> hash \<Rightarrow> client \<Rightarrow> client_act list \<times> client" where
  "handle_hash e preset hs st =
     (case st of (h0, d0) \<Rightarrow>
        (let uuid = (case switch_uuid h0 of Some u \<Rightarrow> parse_uuid e u | None \<Rightarrow> None);
             h = h0\<lparr>h_hash := hs, switch_uuid := None\<rparr>
         in case uuid of
              Some u \<Rightarrow>
                (case create_login_msg e [] [] [] (h, d0) of
                   (m, h1, d1) \<Rightarrow> ([SendSwitchLogin u (cl_request m)], h1\<lparr>password_source := Undefined\<rparr>, d1))
            | None \<Rightarrow>
                (case choose_password e preset hs h of
                   (p, src) \<Rightarrow>
                     (let h1 = h\<lparr>shared_password := None, h_password := p, password_source := src\<rparr>
                      in if conn_type h1 = TERMINAL \<and> is_terminal_admin h1 then
                           ([MsgBox (if p = [] then ''terminal-admin-login-password'' else ''terminal-admin-login'') [] [] []],
                            h1, d0)
                         else
                           (let os = (\<lambda>k. if conn_type h1 = TERMINAL then [] else get_option h1 k)
                            in case create_login_msg e (os ''os-username'') (os ''os-password'')
                                   (if p = [] then [] else answer e p hs) (h1, d0) of
                                 (m, st2) \<Rightarrow>
                                   ((if p = [] then [MsgBox ''input-password'' ''Password Required'' [] []] else []) @
                                    [SendLogin m], st2))))))"

definition handle_login_from_ui ::
  "client_env \<Rightarrow> string \<Rightarrow> string \<Rightarrow> string \<Rightarrow> bool \<Rightarrow> client \<Rightarrow> client_act list \<times> client" where
  "handle_login_from_ui e os_user os_pw password rem st =
     (case st of (h, d) \<Rightarrow>
        (let h1 =
           (if password = [] then
              (if h_password h \<noteq> [] then h
               else h\<lparr>h_password := pc_password (config h),
                      password_source := (if pc_password (config h) = [] then password_source h else Undefined)\<rparr>)
            else h\<lparr>h_password := salted e password (h_hash h), password_source := Undefined, remember := rem\<rparr>)
         in case create_login_msg e os_user os_pw (answer e (h_password h1) (h_hash h1)) (h1, d) of
              (m, st2) \<Rightarrow> ([SendLogin m], st2)))"

text \<open>What is remembered once the peer has answered.\<close>

definition remembered_password :: "client_env \<Rightarrow> handler \<Rightarrow> string \<Rightarrow> string" where
  "remembered_password e h stored =
     (let p = h_password h
      in if remember h then
           (if p \<noteq> [] \<and> p \<noteq> stored \<and> \<not> is_shared_ab e (password_source h) p (h_hash h) then p else stored)
         else if is_personal_ab (password_source h) p then p
         else [])"

definition mode_of_string :: "string \<Rightarrow> keyboard_mode option" where
  "mode_of_string m =
     (if m = ''legacy'' then Some Legacy else if m = ''map'' then Some Map
      else if m = ''translate'' then Some Translate else if m = ''auto'' then Some Auto else None)"

definition peer_keyboard_mode :: "client_env \<Rightarrow> string \<Rightarrow> string \<Rightarrow> string \<Rightarrow> string" where
  "peer_keyboard_mode e version platform mode =
     (let v = get_version_number version
      in if mode = [] then
           (if is_keyboard_mode_supported (lowercase e) Map v platform then ''map'' else ''legacy'')
         else
           (let current = (case mode_of_string mode of Some m \<Rightarrow> m | None \<Rightarrow> Legacy)
            in if current \<in> set (get_supported_keyboard_modes (lowercase e) v platform) then mode else ''legacy''))"

record peer_info =
  pi_username :: string
  pi_hostname :: string
  pi_platform :: string
  pi_version :: string
  pi_features :: "(bool \<times> bool) option"

definition handle_peer_info :: "client_env \<Rightarrow> peer_info \<Rightarrow> client \<Rightarrow> client" where
  "handle_peer_info e pi st =
     (case st of (h, d) \<Rightarrow>
        (let h1 = h\<lparr>h_version := (if pi_version pi = [] then h_version h else get_version_number (pi_version pi)),
                     features := pi_features pi\<rparr>;
             c = load_config e (h1, d);
             c1 = c\<lparr>pc_info := (pi_username pi, pi_hostname pi, pi_platform pi),
                     pc_password := remembered_password e h1 (pc_password c),
                     pc_keyboard_mode := peer_keyboard_mode e (pi_version pi) (pi_platform pi) (pc_keyboard_mode c)\<rparr>
         in save_config c1 (h1, d)))"

definition is_privacy_mode_supported :: "handler \<Rightarrow> bool" where
  "is_privacy_mode_supported h = (case features h of Some (p, _) \<Rightarrow> p | None \<Rightarrow> False)"

definition is_remote_printing_supported :: "handler \<Rightarrow> bool" where
  "is_remote_printing_supported h = (case features h of Some (_, r) \<Rightarrow> r | None \<Rightarrow> False)"

subsection \<open>Errors of the login\<close>

definition login_error_map :: "(string \<times> string \<times> string \<times> string \<times> bool) list" where
  "login_error_map =
     [(''Desktop session not ready'', ''session-login'', [], [], True),
      (''Desktop xsession failed'', ''session-re-login'', [], [], True),
      (''Desktop session another user login'', ''info-nocancel'', ''another_user_login_title_tip'',
         ''another_user_login_text_tip'', False),
      (''Desktop xorg not found'', ''info-nocancel'', ''xorg_not_found_title_tip'', ''xorg_not_found_text_tip'', True),
      (''Desktop none'', ''info-nocancel'', ''no_desktop_title_tip'', ''no_desktop_text_tip'', True),
      (''Desktop session not ready, password empty'', ''session-login-password'', [], [], True),
      (''Desktop session not ready, password wrong'', ''session-login-re-password'', [], [], True),
      (''No Password Access'', ''wait-remote-accept-nook'', ''Prompt'',
         ''Please wait for the remote side to accept your session request...'', True)]"

definition handle_login_error :: "client_env \<Rightarrow> string \<Rightarrow> client \<Rightarrow> bool \<times> client_act list \<times> client" where
  "handle_login_error e err st =
     (case st of (h, d) \<Rightarrow>
        if err = ''Empty Password'' then
          (True, [MsgBox ''input-password'' ''Password Required'' [] []], h\<lparr>h_password := []\<rparr>, d)
        else if err = ''Wrong Password'' then
          (True, [MsgBox ''re-input-password'' err ''Do you want to enter again?'' []], h\<lparr>h_password := []\<rparr>, d)
        else if err = ''Wrong 2FA Code'' \<or> err = ''2FA Required'' then
          (True, [MsgBox ''input-2fa'' err [] []],
           if get_option h ''trust-this-device'' = ''Y'' then set_option e ''trust-this-device'' [] st else st)
        else (case map_of login_error_map err of
            Some (ty, title, body, again) \<Rightarrow> (again, [MsgBox ty title body []], st)
          | None \<Rightarrow> (False, [MsgBox ''error'' ''Login Error'' err []], st)))"

text \<open>Which errors lead to another attempt.\<close>

definition contains_text :: "string \<Rightarrow> string \<Rightarrow> bool" where
  "contains_text t x = (\<exists>n \<in> set [0..<Suc (length t)]. take (length x) (drop n t) = x)"

definition check_if_retry :: "client_env \<Rightarrow> string \<Rightarrow> string \<Rightarrow> string \<Rightarrow> bool" where
  "check_if_retry e msgtype title body =
     (let low = lowercase e body
      in if msgtype \<noteq> ''error'' then False
         else if title = ''Login Error'' \<and> low = ''offline'' then True
         else if title \<noteq> ''Connection Error'' then False
         else if contains_text body ''10054'' \<or> contains_text body ''104'' then True
         else if contains_text low ''try later'' then True
         else if take 23 low = ''both connections failed'' then True
         else \<not> (\<exists>x \<in> set [''offline'', ''not exist'', ''handshake'', ''failed'', ''resolve'', ''mismatch'', ''manually'',
                  ''as expected'', ''closed the session'', ''not allowed'']. contains_text low x))"

end
