(* ===== verification/Client_Session.thy ===== *)
theory Client_Session
  imports Client_Config Login_Properties
begin

text \<open>
  Both ends of a session: the switches of the controlling side with the options that the controlled side
  holds on their account, and the passwords of the controlling side with the login that checks them.
\<close>

subsection \<open>What an option message does to the flags\<close>

definition with_opt :: "bool_option \<Rightarrow> bool \<Rightarrow> bool" where
  "with_opt q old = (if q = NotSet then old else q = Yes)"

text \<open>A step of the controlled side, seen on the connection alone.\<close>

definition acts_on :: "step \<Rightarrow> (control \<Rightarrow> control) \<Rightarrow> bool" where
  "acts_on f g = (\<forall>st. fst (snd (f st)) = g (fst st))"

lemma acts_onD: "acts_on f g \<Longrightarrow> fst (snd (f st)) = g (fst st)"
  by (cases st) (simp add: acts_on_def)

lemma acts_on_run:
  "acts_on (run_steps []) id"
  "acts_on f g \<Longrightarrow> acts_on (run_steps fs) gs \<Longrightarrow> acts_on (run_steps (f # fs)) (gs \<circ> g)"
  by (auto simp: acts_on_def split: prod.splits) (metis fst_conv snd_conv)

lemmas opt_step_defs = opt_quality_def opt_fps_def opt_decoding_def opt_lock_def opt_cursor_def opt_follow_cursor_def
  opt_follow_window_def opt_audio_def opt_file_def opt_clipboard_def opt_keyboard_def opt_privacy_def opt_block_def
  opt_my_cursor_def sub_clipboard_def sub_file_clipboard_def sub_audio_def sub_cursor_def set_to_def with_opt_def

lemma acts_on_opts:
  "acts_on (opt_quality o') id" "acts_on (opt_fps o') id" "acts_on (opt_decoding o') id"
  "acts_on (opt_lock o') (\<lambda>c. c\<lparr>lock_after_session_end := with_opt (opt_lock_after_session_end o') (lock_after_session_end c)\<rparr>)"
  "acts_on (opt_cursor o') (\<lambda>c. c\<lparr>show_remote_cursor := with_opt (opt_show_remote_cursor o') (show_remote_cursor c)\<rparr>)"
  "acts_on (opt_follow_cursor o') (\<lambda>c. c\<lparr>follow_remote_cursor := with_opt (opt_follow_remote_cursor o') (follow_remote_cursor c)\<rparr>)"
  "acts_on (opt_follow_window o') (\<lambda>c. c\<lparr>follow_remote_window := with_opt (opt_follow_remote_window o') (follow_remote_window c)\<rparr>)"
  "acts_on (opt_audio o') (\<lambda>c. c\<lparr>disable_audio := with_opt (opt_disable_audio o') (disable_audio c)\<rparr>)"
  "acts_on (opt_file b e o') (\<lambda>c. if os_kind b = Windows \<or> unix_file_copy_paste b
     then c\<lparr>enable_file_transfer := with_opt (opt_enable_file_transfer o') (enable_file_transfer c)\<rparr> else c)"
  "acts_on (opt_clipboard e o') (\<lambda>c. c\<lparr>disable_clipboard := with_opt (opt_disable_clipboard o') (disable_clipboard c)\<rparr>)"
  "acts_on (opt_keyboard b e o') (\<lambda>c. c\<lparr>disable_keyboard := with_opt (opt_disable_keyboard o') (disable_keyboard c)\<rparr>)"
  "acts_on (opt_privacy o') id" "acts_on (opt_block o') id"
  "acts_on (opt_my_cursor b o') (\<lambda>c. c\<lparr>show_my_cursor := with_opt (opt_show_my_cursor o') (show_my_cursor c)\<rparr>)"
  by (auto simp: acts_on_def opt_step_defs Let_def split: option.splits)

text \<open>The flags after a whole message.\<close>

definition with_options :: "build \<Rightarrow> option_message \<Rightarrow> control \<Rightarrow> control" where
  "with_options b o' c =
     c\<lparr>lock_after_session_end := with_opt (opt_lock_after_session_end o') (lock_after_session_end c),
       show_remote_cursor := with_opt (opt_show_remote_cursor o') (show_remote_cursor c),
       follow_remote_cursor := with_opt (opt_follow_remote_cursor o') (follow_remote_cursor c),
       follow_remote_window := with_opt (opt_follow_remote_window o') (follow_remote_window c),
       disable_audio := with_opt (opt_disable_audio o') (disable_audio c),
       enable_file_transfer :=
         (if os_kind b = Windows \<or> unix_file_copy_paste b
          then with_opt (opt_enable_file_transfer o') (enable_file_transfer c) else enable_file_transfer c),
       disable_clipboard := with_opt (opt_disable_clipboard o') (disable_clipboard c),
       disable_keyboard := with_opt (opt_disable_keyboard o') (disable_keyboard c),
       show_my_cursor := with_opt (opt_show_my_cursor o') (show_my_cursor c)\<rparr>"

lemma update_options_flags: "fst (snd (update_options b e o' st)) = with_options b o' (fst st)"
proof -
  note runs = acts_on_run(2) [OF acts_on_opts(1)] acts_on_run(2) [OF acts_on_opts(2)] acts_on_run(2) [OF acts_on_opts(3)]
    acts_on_run(2) [OF acts_on_opts(4)] acts_on_run(2) [OF acts_on_opts(5)] acts_on_run(2) [OF acts_on_opts(6)]
    acts_on_run(2) [OF acts_on_opts(7)] acts_on_run(2) [OF acts_on_opts(8)] acts_on_run(2) [OF acts_on_opts(9)]
    acts_on_run(2) [OF acts_on_opts(10)] acts_on_run(2) [OF acts_on_opts(11)] acts_on_run(2) [OF acts_on_opts(12)]
    acts_on_run(2) [OF acts_on_opts(13)] acts_on_run(2) [OF acts_on_opts(14)]
  have "\<exists>g. acts_on (update_options b e o') g \<and> (\<forall>c. g c = with_options b o' c)"
    unfolding update_options_def
    by (rule exI, rule conjI, (rule runs acts_on_run(1))+) (simp add: with_options_def)
  then show ?thesis using acts_onD by fastforce
qed

subsection \<open>The switches of both sides agree\<close>

text \<open>
  What the stored configuration of the peer asks of the controlled side; the own pointer is on only
  together with \<open>view-only\<close>.
\<close>

definition shows_config :: "build \<Rightarrow> peer_config \<Rightarrow> control \<Rightarrow> bool" where
  "shows_config b p c =
     (disable_keyboard c = pc_view_only p \<and>
      disable_clipboard c = (pc_view_only p \<or> pc_disable_clipboard p) \<and>
      show_remote_cursor c = (pc_view_only p \<or> pc_show_remote_cursor p) \<and>
      show_my_cursor c = (pc_view_only p \<and> pc_show_my_cursor p) \<and>
      follow_remote_cursor c = pc_follow_remote_cursor p \<and>
      follow_remote_window c = pc_follow_remote_window p \<and>
      lock_after_session_end c = (\<not> pc_view_only p \<and> pc_lock_after_session_end p) \<and>
      disable_audio c = pc_disable_audio p \<and>
      (pc_show_my_cursor p \<longrightarrow> pc_view_only p) \<and>
      (os_kind b = Windows \<or> unix_file_copy_paste b \<longrightarrow>
        enable_file_transfer c = (\<not> pc_view_only p \<and> pc_enable_file_copy_paste p)))"

text \<open>
  What the flags are whatever the user switches.  The flags that \<open>view-only\<close> does not touch are those of the
  configuration; each of the four that it overrides is that of the configuration too, or, while \<open>view-only\<close> is on,
  the value that \<open>view-only\<close> gives it.
\<close>

definition overridden :: "bool \<Rightarrow> bool \<Rightarrow> bool \<Rightarrow> bool \<Rightarrow> bool" where
  "overridden only v own flag = (flag = own \<or> only \<and> flag = v)"

definition follows_config :: "build \<Rightarrow> peer_config \<Rightarrow> control \<Rightarrow> bool" where
  "follows_config b p c =
     (disable_keyboard c = pc_view_only p \<and>
      show_my_cursor c = pc_show_my_cursor p \<and>
      follow_remote_cursor c = pc_follow_remote_cursor p \<and>
      follow_remote_window c = pc_follow_remote_window p \<and>
      disable_audio c = pc_disable_audio p \<and>
      overridden (pc_view_only p) True (pc_disable_clipboard p) (disable_clipboard c) \<and>
      overridden (pc_view_only p) True (pc_show_remote_cursor p) (show_remote_cursor c) \<and>
      overridden (pc_view_only p) False (pc_lock_after_session_end p) (lock_after_session_end c) \<and>
      (os_kind b = Windows \<or> unix_file_copy_paste b \<longrightarrow>
        overridden (pc_view_only p) False (pc_enable_file_copy_paste p) (enable_file_transfer c)))"

lemma options_of_the_user [simp]:
  "shows_config b (p\<lparr>pc_options := g\<rparr>) c \<longleftrightarrow> shows_config b p c"
  "follows_config b (p\<lparr>pc_options := g\<rparr>) c \<longleftrightarrow> follows_config b p c"
  by (simp_all add: shows_config_def follows_config_def)

lemma shows_follows: "shows_config b p c \<Longrightarrow> follows_config b p c"
  by (auto simp: shows_config_def follows_config_def overridden_def)

lemma follows_shows:
  "follows_config b p c \<Longrightarrow> \<not> pc_view_only p \<Longrightarrow> \<not> pc_show_my_cursor p \<Longrightarrow> shows_config b p c"
  by (simp add: shows_config_def follows_config_def overridden_def)

text \<open>
  The four switches that \<open>view-only\<close> overrides are left alone while it is on, and the pointer of the
  controlling side is switched only then.
\<close>

definition settled :: "string \<Rightarrow> peer_config \<Rightarrow> bool" where
  "settled name p =
     (if pc_view_only p then
        name \<notin> {''show-remote-cursor'', ''disable-clipboard'', ''lock-after-session-end'', ''enable-file-copy-paste''}
      else name \<noteq> ''show-my-cursor'')"

type_synonym both = "client \<times> ctl"

definition toggle_both :: "client_env \<Rightarrow> build \<Rightarrow> env \<Rightarrow> string \<Rightarrow> both \<Rightarrow> both" where
  "toggle_both ce b e name st =
     (case toggle_option ce name (fst st) of
        (Some o', cl) \<Rightarrow> (cl, snd (update_options b e o' (snd st)))
      | (None, cl) \<Rightarrow> (cl, snd st))"

fun toggle_all :: "client_env \<Rightarrow> build \<Rightarrow> env \<Rightarrow> string list \<Rightarrow> both \<Rightarrow> both" where
  "toggle_all ce b e [] st = st"
| "toggle_all ce b e (n # ns) st = toggle_all ce b e ns (toggle_both ce b e n st)"

fun all_settled :: "client_env \<Rightarrow> build \<Rightarrow> env \<Rightarrow> string list \<Rightarrow> both \<Rightarrow> bool" where
  "all_settled ce b e [] st = True"
| "all_settled ce b e (n # ns) st =
     (settled n (config (fst (fst st))) \<and> all_settled ce b e ns (toggle_both ce b e n st))"

text \<open>What is in memory is what is stored.\<close>

definition stored :: "client \<Rightarrow> bool" where
  "stored st = (case st of (h, d) \<Rightarrow> d (h_id h) = Some (config h))"

lemma stored_load: "stored st \<Longrightarrow> load_config e st = config (fst st)"
  by (auto simp: stored_def load_config_def load_peer_def)

lemma save_config_stored [simp]: "stored (save_config c st)" "config (fst (save_config c st)) = c"
  by (auto simp: stored_def save_config_def split: prod.splits)

lemmas name_simps = yes_no_def with_options_def with_opt_def no_options_def

definition switch_names :: "string list" where
  "switch_names = [''show-remote-cursor'',
     ''follow-remote-cursor'',
     ''follow-remote-window'',
     ''disable-audio'',
     ''disable-clipboard'',
     ''lock-after-session-end'',
     ''privacy-mode'',
     ''enable-file-copy-paste'',
     ''block-input'',
     ''unblock-input'',
     ''show-quality-monitor'',
     ''allow_swap_key'',
     ''view-only'',
     ''show-my-cursor'']"

lemma toggle_known_name: "toggle_known h name c = Some x \<Longrightarrow> name \<in> set switch_names"
  by (rule ccontr) (simp add: toggle_known_def switch_names_def)

text \<open>Each switch on its own.\<close>

lemmas toggle_evals =
  toggle_known_def [where name = "''show-remote-cursor''", simplified]
  toggle_known_def [where name = "''follow-remote-cursor''", simplified]
  toggle_known_def [where name = "''follow-remote-window''", simplified]
  toggle_known_def [where name = "''disable-audio''", simplified]
  toggle_known_def [where name = "''disable-clipboard''", simplified]
  toggle_known_def [where name = "''lock-after-session-end''", simplified]
  toggle_known_def [where name = "''privacy-mode''", simplified]
  toggle_known_def [where name = "''enable-file-copy-paste''", simplified]
  toggle_known_def [where name = "''block-input''", simplified]
  toggle_known_def [where name = "''unblock-input''", simplified]
  toggle_known_def [where name = "''show-quality-monitor''", simplified]
  toggle_known_def [where name = "''allow_swap_key''", simplified]
  toggle_known_def [where name = "''view-only''", simplified]
  toggle_known_def [where name = "''show-my-cursor''", simplified]

lemma shows_with_options:
  "shows_config b p (with_options b o' c) \<longleftrightarrow>
     with_opt (opt_disable_keyboard o') (disable_keyboard c) = pc_view_only p \<and>
     with_opt (opt_disable_clipboard o') (disable_clipboard c) = (pc_view_only p \<or> pc_disable_clipboard p) \<and>
     with_opt (opt_show_remote_cursor o') (show_remote_cursor c) = (pc_view_only p \<or> pc_show_remote_cursor p) \<and>
     with_opt (opt_show_my_cursor o') (show_my_cursor c) = (pc_view_only p \<and> pc_show_my_cursor p) \<and>
     with_opt (opt_follow_remote_cursor o') (follow_remote_cursor c) = pc_follow_remote_cursor p \<and>
     with_opt (opt_follow_remote_window o') (follow_remote_window c) = pc_follow_remote_window p \<and>
     with_opt (opt_lock_after_session_end o') (lock_after_session_end c) =
       (\<not> pc_view_only p \<and> pc_lock_after_session_end p) \<and>
     with_opt (opt_disable_audio o') (disable_audio c) = pc_disable_audio p \<and>
     (pc_show_my_cursor p \<longrightarrow> pc_view_only p) \<and>
     (os_kind b = Windows \<or> unix_file_copy_paste b \<longrightarrow>
       with_opt (opt_enable_file_transfer o') (enable_file_transfer c) =
         (\<not> pc_view_only p \<and> pc_enable_file_copy_paste p))"
  by (simp add: shows_config_def with_options_def)

lemma follows_with_options:
  "follows_config b p (with_options b o' c) \<longleftrightarrow>
     with_opt (opt_disable_keyboard o') (disable_keyboard c) = pc_view_only p \<and>
     with_opt (opt_show_my_cursor o') (show_my_cursor c) = pc_show_my_cursor p \<and>
     with_opt (opt_follow_remote_cursor o') (follow_remote_cursor c) = pc_follow_remote_cursor p \<and>
     with_opt (opt_follow_remote_window o') (follow_remote_window c) = pc_follow_remote_window p \<and>
     with_opt (opt_disable_audio o') (disable_audio c) = pc_disable_audio p \<and>
     overridden (pc_view_only p) True (pc_disable_clipboard p) (with_opt (opt_disable_clipboard o') (disable_clipboard c)) \<and>
     overridden (pc_view_only p) True (pc_show_remote_cursor p)
       (with_opt (opt_show_remote_cursor o') (show_remote_cursor c)) \<and>
     overridden (pc_view_only p) False (pc_lock_after_session_end p)
       (with_opt (opt_lock_after_session_end o') (lock_after_session_end c)) \<and>
     (os_kind b = Windows \<or> unix_file_copy_paste b \<longrightarrow>
       overridden (pc_view_only p) False (pc_enable_file_copy_paste p)
         (with_opt (opt_enable_file_transfer o') (enable_file_transfer c)))"
  by (simp add: follows_config_def with_options_def)

lemma with_opt_simps [simp]: "with_opt NotSet x = x" "with_opt Yes x" "\<not> with_opt No x" "with_opt (yes_no y) x = y"
  by (simp_all add: with_opt_def yes_no_def)

lemma no_options_simps [simp]:
  "opt_disable_keyboard no_options = NotSet" "opt_disable_clipboard no_options = NotSet"
  "opt_show_remote_cursor no_options = NotSet" "opt_show_my_cursor no_options = NotSet"
  "opt_follow_remote_cursor no_options = NotSet" "opt_follow_remote_window no_options = NotSet"
  "opt_lock_after_session_end no_options = NotSet" "opt_disable_audio no_options = NotSet"
  "opt_enable_file_transfer no_options = NotSet"
  by (simp_all add: no_options_def)

lemma toggle_view_only_shows:
  assumes "shows_config b (config h) c" and "toggle_view_only h (config h) = (p, o')"
  shows "shows_config b p (with_options b o' c)"
proof -
  note flags = assms(1) [unfolded shows_config_def]
  have cl: "get_toggle_option h ''disable-clipboard'' = pc_disable_clipboard (config h)"
    "get_toggle_option h ''show-remote-cursor'' = pc_show_remote_cursor (config h)"
    by (simp_all add: get_toggle_option_def)
  show ?thesis
  proof (cases "pc_view_only (config h)")
    case False
    then have "p = (config h)\<lparr>pc_view_only := True\<rparr>"
      "o' = no_options\<lparr>opt_disable_keyboard := Yes, opt_disable_clipboard := Yes, opt_show_remote_cursor := Yes,
         opt_enable_file_transfer := No, opt_lock_after_session_end := No\<rparr>"
      using assms(2) by (simp_all add: toggle_view_only_def Let_def)
    with flags False show ?thesis unfolding shows_with_options by simp
  next
    case True
    show ?thesis
    proof (cases "pc_show_my_cursor (config h)")
      case c: True
      have "p = (config h)\<lparr>pc_view_only := False, pc_show_my_cursor := False\<rparr>"
        "o' = no_options\<lparr>opt_disable_keyboard := No, opt_disable_clipboard := yes_no (pc_disable_clipboard (config h)),
           opt_show_remote_cursor := yes_no (pc_show_remote_cursor (config h)),
           opt_enable_file_transfer := yes_no (pc_enable_file_copy_paste (config h)),
           opt_lock_after_session_end := yes_no (pc_lock_after_session_end (config h)), opt_show_my_cursor := No\<rparr>"
        using assms(2) True c by (simp_all add: toggle_view_only_def Let_def cl)
      with flags True c show ?thesis unfolding shows_with_options by simp
    next
      case c: False
      have "p = (config h)\<lparr>pc_view_only := False\<rparr>"
        "o' = no_options\<lparr>opt_disable_keyboard := No, opt_disable_clipboard := yes_no (pc_disable_clipboard (config h)),
           opt_show_remote_cursor := yes_no (pc_show_remote_cursor (config h)),
           opt_enable_file_transfer := yes_no (pc_enable_file_copy_paste (config h)),
           opt_lock_after_session_end := yes_no (pc_lock_after_session_end (config h))\<rparr>"
        using assms(2) True c by (simp_all add: toggle_view_only_def Let_def cl)
      with flags True c show ?thesis unfolding shows_with_options by simp
    qed
  qed
qed

text \<open>The fourteen switches, with what each changes and sends.\<close>

lemma toggle_known_cases:
  assumes "toggle_known h name (config h) = Some (p, o')"
  shows "(name = ''show-remote-cursor'' \<and> p = (config h)\<lparr>pc_show_remote_cursor := \<not> pc_show_remote_cursor (config h)\<rparr> \<and>
      o' = no_options\<lparr>opt_show_remote_cursor := yes_no (\<not> pc_show_remote_cursor (config h))\<rparr>)
    \<or> (name = ''follow-remote-cursor'' \<and> p = (config h)\<lparr>pc_follow_remote_cursor := \<not> pc_follow_remote_cursor (config h)\<rparr> \<and>
      o' = no_options\<lparr>opt_follow_remote_cursor := yes_no (\<not> pc_follow_remote_cursor (config h))\<rparr>)
    \<or> (name = ''follow-remote-window'' \<and> p = (config h)\<lparr>pc_follow_remote_window := \<not> pc_follow_remote_window (config h)\<rparr> \<and>
      o' = no_options\<lparr>opt_follow_remote_window := yes_no (\<not> pc_follow_remote_window (config h))\<rparr>)
    \<or> (name = ''disable-audio'' \<and> p = (config h)\<lparr>pc_disable_audio := \<not> pc_disable_audio (config h)\<rparr> \<and>
      o' = no_options\<lparr>opt_disable_audio := yes_no (\<not> pc_disable_audio (config h))\<rparr>)
    \<or> (name = ''disable-clipboard'' \<and> p = (config h)\<lparr>pc_disable_clipboard := \<not> pc_disable_clipboard (config h)\<rparr> \<and>
      o' = no_options\<lparr>opt_disable_clipboard := yes_no (\<not> pc_disable_clipboard (config h))\<rparr>)
    \<or> (name = ''lock-after-session-end'' \<and> p = (config h)\<lparr>pc_lock_after_session_end := \<not> pc_lock_after_session_end (config h)\<rparr> \<and>
      o' = no_options\<lparr>opt_lock_after_session_end := yes_no (\<not> pc_lock_after_session_end (config h))\<rparr>)
    \<or> (name = ''enable-file-copy-paste'' \<and> p = (config h)\<lparr>pc_enable_file_copy_paste := \<not> pc_enable_file_copy_paste (config h)\<rparr> \<and>
      o' = no_options\<lparr>opt_enable_file_transfer := yes_no (\<not> pc_enable_file_copy_paste (config h))\<rparr>)
    \<or> (name = ''show-my-cursor'' \<and> p = (config h)\<lparr>pc_show_my_cursor := \<not> pc_show_my_cursor (config h)\<rparr> \<and>
      o' = no_options\<lparr>opt_show_my_cursor := yes_no (\<not> pc_show_my_cursor (config h))\<rparr>)
    \<or> (name = ''privacy-mode'' \<and> p = config h \<and>
      o' = no_options\<lparr>opt_privacy_mode := yes_no (\<not> pc_privacy_mode (config h))\<rparr>)
    \<or> (name = ''block-input'' \<and> p = config h \<and>
      o' = no_options\<lparr>opt_block_input := Yes\<rparr>)
    \<or> (name = ''unblock-input'' \<and> p = config h \<and>
      o' = no_options\<lparr>opt_block_input := No\<rparr>)
    \<or> (name = ''show-quality-monitor'' \<and> p = (config h)\<lparr>pc_show_quality_monitor := \<not> pc_show_quality_monitor (config h)\<rparr> \<and>
      o' = no_options)
    \<or> (name = ''allow_swap_key'' \<and> p = (config h)\<lparr>pc_allow_swap_key := \<not> pc_allow_swap_key (config h)\<rparr> \<and>
      o' = no_options)
    \<or> (name = ''view-only'' \<and> toggle_view_only h (config h) = (p, o'))"
proof -
  have "name \<in> set switch_names" using assms by (rule toggle_known_name)
  then have "name = ''show-remote-cursor'' \<or>
    name = ''follow-remote-cursor'' \<or>
    name = ''follow-remote-window'' \<or>
    name = ''disable-audio'' \<or>
    name = ''disable-clipboard'' \<or>
    name = ''lock-after-session-end'' \<or>
    name = ''privacy-mode'' \<or>
    name = ''enable-file-copy-paste'' \<or>
    name = ''block-input'' \<or>
    name = ''unblock-input'' \<or>
    name = ''show-quality-monitor'' \<or>
    name = ''allow_swap_key'' \<or>
    name = ''view-only'' \<or>
    name = ''show-my-cursor''"
    by (simp add: switch_names_def)
  then show ?thesis
  proof (elim disjE)
    assume name: "name = ''show-remote-cursor''"
    then have "p = (config h)\<lparr>pc_show_remote_cursor := \<not> pc_show_remote_cursor (config h)\<rparr>"
      "o' = no_options\<lparr>opt_show_remote_cursor := yes_no (\<not> pc_show_remote_cursor (config h))\<rparr>"
      using assms by (simp_all add: toggle_evals)
    with name show ?thesis by simp
  next
    assume name: "name = ''follow-remote-cursor''"
    then have "p = (config h)\<lparr>pc_follow_remote_cursor := \<not> pc_follow_remote_cursor (config h)\<rparr>"
      "o' = no_options\<lparr>opt_follow_remote_cursor := yes_no (\<not> pc_follow_remote_cursor (config h))\<rparr>"
      using assms by (simp_all add: toggle_evals)
    with name show ?thesis by simp
  next
    assume name: "name = ''follow-remote-window''"
    then have "p = (config h)\<lparr>pc_follow_remote_window := \<not> pc_follow_remote_window (config h)\<rparr>"
      "o' = no_options\<lparr>opt_follow_remote_window := yes_no (\<not> pc_follow_remote_window (config h))\<rparr>"
      using assms by (simp_all add: toggle_evals)
    with name show ?thesis by simp
  next
    assume name: "name = ''disable-audio''"
    then have "p = (config h)\<lparr>pc_disable_audio := \<not> pc_disable_audio (config h)\<rparr>"
      "o' = no_options\<lparr>opt_disable_audio := yes_no (\<not> pc_disable_audio (config h))\<rparr>"
      using assms by (simp_all add: toggle_evals)
    with name show ?thesis by simp
  next
    assume name: "name = ''disable-clipboard''"
    then have "p = (config h)\<lparr>pc_disable_clipboard := \<not> pc_disable_clipboard (config h)\<rparr>"
      "o' = no_options\<lparr>opt_disable_clipboard := yes_no (\<not> pc_disable_clipboard (config h))\<rparr>"
      using assms by (simp_all add: toggle_evals)
    with name show ?thesis by simp
  next
    assume name: "name = ''lock-after-session-end''"
    then have "p = (config h)\<lparr>pc_lock_after_session_end := \<not> pc_lock_after_session_end (config h)\<rparr>"
      "o' = no_options\<lparr>opt_lock_after_session_end := yes_no (\<not> pc_lock_after_session_end (config h))\<rparr>"
      using assms by (simp_all add: toggle_evals)
    with name show ?thesis by simp
  next
    assume name: "name = ''privacy-mode''"
    then have "p = config h"
      "o' = no_options\<lparr>opt_privacy_mode := yes_no (\<not> pc_privacy_mode (config h))\<rparr>"
      using assms by (auto simp: toggle_evals)
    with name show ?thesis by simp
  next
    assume name: "name = ''enable-file-copy-paste''"
    then have "p = (config h)\<lparr>pc_enable_file_copy_paste := \<not> pc_enable_file_copy_paste (config h)\<rparr>"
      "o' = no_options\<lparr>opt_enable_file_transfer := yes_no (\<not> pc_enable_file_copy_paste (config h))\<rparr>"
      using assms by (simp_all add: toggle_evals)
    with name show ?thesis by simp
  next
    assume name: "name = ''block-input''"
    then have "p = config h"
      "o' = no_options\<lparr>opt_block_input := Yes\<rparr>"
      using assms by (auto simp: toggle_evals)
    with name show ?thesis by simp
  next
    assume name: "name = ''unblock-input''"
    then have "p = config h"
      "o' = no_options\<lparr>opt_block_input := No\<rparr>"
      using assms by (auto simp: toggle_evals)
    with name show ?thesis by simp
  next
    assume name: "name = ''show-quality-monitor''"
    then have "p = (config h)\<lparr>pc_show_quality_monitor := \<not> pc_show_quality_monitor (config h)\<rparr>"
      "o' = no_options"
      using assms by (simp_all add: toggle_evals)
    with name show ?thesis by simp
  next
    assume name: "name = ''allow_swap_key''"
    then have "p = (config h)\<lparr>pc_allow_swap_key := \<not> pc_allow_swap_key (config h)\<rparr>"
      "o' = no_options"
      using assms by (simp_all add: toggle_evals)
    with name show ?thesis by simp
  next
    assume name: "name = ''view-only''"
    show ?thesis
      using assms [unfolded name] name by (simp add: toggle_evals)
  next
    assume name: "name = ''show-my-cursor''"
    then have "p = (config h)\<lparr>pc_show_my_cursor := \<not> pc_show_my_cursor (config h)\<rparr>"
      "o' = no_options\<lparr>opt_show_my_cursor := yes_no (\<not> pc_show_my_cursor (config h))\<rparr>"
      using assms by (simp_all add: toggle_evals)
    with name show ?thesis by simp
  qed
qed

lemma toggle_known_shows:
  assumes "toggle_known h name (config h) = Some (p, o')" and "shows_config b (config h) c"
    and "settled name (config h)"
  shows "shows_config b p (with_options b o' c)"
proof (cases "name = ''view-only''")
  case True
  with assms(1,2) show ?thesis by (simp add: toggle_evals toggle_view_only_shows)
next
  case False
  note flags = assms(2) [unfolded shows_config_def]
  from toggle_known_cases [OF assms(1)] False show ?thesis
    by (elim disjE conjE)
      (insert flags assms(3), cases "pc_view_only (config h)"; simp add: shows_with_options settled_def)+
qed

lemma toggle_view_only_follows:
  assumes "follows_config b (config h) c" and "toggle_view_only h (config h) = (p, o')"
  shows "follows_config b p (with_options b o' c)"
proof -
  have cl: "get_toggle_option h ''disable-clipboard'' = pc_disable_clipboard (config h)"
    "get_toggle_option h ''show-remote-cursor'' = pc_show_remote_cursor (config h)"
    by (simp_all add: get_toggle_option_def)
  show ?thesis
    using assms
    by (cases "pc_view_only (config h)"; cases "pc_show_my_cursor (config h)")
      (auto simp: toggle_view_only_def Let_def cl follows_with_options, auto simp: follows_config_def overridden_def)
qed

lemma toggle_known_follows:
  assumes "toggle_known h name (config h) = Some (p, o')" and "follows_config b (config h) c"
  shows "follows_config b p (with_options b o' c)"
proof (cases "name = ''view-only''")
  case True
  with assms show ?thesis by (simp add: toggle_evals toggle_view_only_follows)
next
  case False
  note flags = assms(2) [unfolded follows_config_def]
  from toggle_known_cases [OF assms(1)] False show ?thesis
    by (elim disjE conjE)
      (insert flags, cases "pc_view_only (config h)"; simp add: follows_with_options overridden_def)+
qed

text \<open>One switch on both sides: what is stored changes, and what is sent reaches the flags.\<close>

lemma toggle_both_effect:
  assumes "stored cl"
  obtains (own) "toggle_known (fst cl) name (config (fst cl)) = None"
      "\<exists>g. config (fst (fst (toggle_both ce b e name (cl, ct)))) = (config (fst cl))\<lparr>pc_options := g\<rparr>"
      "snd (toggle_both ce b e name (cl, ct)) = ct" "stored (fst (toggle_both ce b e name (cl, ct)))"
  | (known) p o' where "toggle_known (fst cl) name (config (fst cl)) = Some (p, o')"
      "config (fst (fst (toggle_both ce b e name (cl, ct)))) = p"
      "fst (snd (toggle_both ce b e name (cl, ct))) = with_options b o' (fst ct)"
      "stored (fst (toggle_both ce b e name (cl, ct)))"
proof -
  obtain h d where cl: "cl = (h, d)" by (metis surj_pair)
  have load: "load_config ce cl = config h" using assms(1) stored_load [of cl ce] by (simp add: cl)
  show thesis
  proof (cases "toggle_known h name (config h)")
    case None
    let ?c = "(config h)\<lparr>pc_options := (pc_options (config h))(name :=
      if (case pc_options (config h) name of Some v \<Rightarrow> v \<noteq> [] | None \<Rightarrow> False) then None else Some ''Y'')\<rparr>"
    have "toggle_option ce name cl = (None, h\<lparr>config := ?c\<rparr>, d(h_id h \<mapsto> ?c))"
      using None load by (simp add: toggle_option_def cl Let_def)
    then have "toggle_both ce b e name (cl, ct) = ((h\<lparr>config := ?c\<rparr>, d(h_id h \<mapsto> ?c)), ct)"
      by (simp add: toggle_both_def)
    with None show ?thesis by (intro own) (auto simp: cl stored_def)
  next
    case (Some x)
    then obtain p o' where k: "toggle_known h name (config h) = Some (p, o')" by (cases x) auto
    define cl' where "cl' = (if name = ''block-input'' \<or> name = ''unblock-input'' then cl else save_config p cl)"
    have "toggle_both ce b e name (cl, ct) = (cl', snd (update_options b e o' ct))"
      using k load by (simp add: toggle_both_def toggle_option_def cl cl'_def)
    moreover have "stored cl'" using assms(1) by (simp add: cl'_def)
    moreover have "config (fst cl') = p" using k by (auto simp: cl'_def cl toggle_known_def)
    ultimately show ?thesis using k by (intro known [of p o']) (simp_all add: cl update_options_flags)
  qed
qed

lemma toggle_both_shows:
  assumes "stored cl" and "shows_config b (config (fst cl)) (fst ct)" and "settled name (config (fst cl))"
  shows "stored (fst (toggle_both ce b e name (cl, ct))) \<and>
    shows_config b (config (fst (fst (toggle_both ce b e name (cl, ct))))) (fst (snd (toggle_both ce b e name (cl, ct))))"
  using assms(1)
proof (cases rule: toggle_both_effect [where name = name and ce = ce and b = b and e = e and ct = ct])
  case own
  from own(2) obtain g where "config (fst (fst (toggle_both ce b e name (cl, ct)))) = (config (fst cl))\<lparr>pc_options := g\<rparr>" ..
  with assms(2) own(3,4) show ?thesis by simp
next
  case (known p o')
  with toggle_known_shows [OF known(1) assms(2,3)] show ?thesis by simp
qed

lemma toggle_both_follows:
  assumes "stored cl" and "follows_config b (config (fst cl)) (fst ct)"
  shows "stored (fst (toggle_both ce b e name (cl, ct))) \<and>
    follows_config b (config (fst (fst (toggle_both ce b e name (cl, ct))))) (fst (snd (toggle_both ce b e name (cl, ct))))"
  using assms(1)
proof (cases rule: toggle_both_effect [where name = name and ce = ce and b = b and e = e and ct = ct])
  case own
  from own(2) obtain g where "config (fst (fst (toggle_both ce b e name (cl, ct)))) = (config (fst cl))\<lparr>pc_options := g\<rparr>" ..
  with assms(2) own(3,4) show ?thesis by simp
next
  case (known p o')
  with toggle_known_follows [OF known(1) assms(2)] show ?thesis by simp
qed

lemma toggle_all_shows:
  assumes "stored (fst st)" and "shows_config b (config (fst (fst st))) (fst (snd st))" and "all_settled ce b e names st"
  shows "shows_config b (config (fst (fst (toggle_all ce b e names st)))) (fst (snd (toggle_all ce b e names st)))"
  using assms
proof (induction names arbitrary: st)
  case (Cons n ns)
  obtain cl ct where st: "st = (cl, ct)" by (metis surj_pair)
  from toggle_both_shows [where cl = cl and ct = ct and name = n and ce = ce and e = e] Cons.prems Cons.IH [of "toggle_both ce b e n st"] show ?case
    by (simp add: st)
qed simp

lemma toggle_all_follows:
  assumes "stored (fst st)" and "follows_config b (config (fst (fst st))) (fst (snd st))"
  shows "follows_config b (config (fst (fst (toggle_all ce b e names st)))) (fst (snd (toggle_all ce b e names st)))"
  using assms
proof (induction names arbitrary: st)
  case (Cons n ns)
  obtain cl ct where st: "st = (cl, ct)" by (metis surj_pair)
  from toggle_both_follows [where cl = cl and ct = ct and name = n and ce = ce and e = e] Cons.prems Cons.IH [of "toggle_both ce b e n st"] show ?case
    by (simp add: st)
qed simp

text \<open>A session that begins: the connection is new, and the options of the login are applied.\<close>

lemma login_options_show:
  assumes "get_option_message ce True cl = (Some o', cl')" and "pc_show_my_cursor (config (fst cl)) \<longrightarrow> pc_view_only (config (fst cl))"
    and "\<not> disable_keyboard c" and "\<not> disable_clipboard c" and "\<not> show_remote_cursor c" and "\<not> show_my_cursor c"
    and "\<not> follow_remote_cursor c" and "\<not> follow_remote_window c" and "\<not> lock_after_session_end c"
    and "\<not> disable_audio c" and "\<not> enable_file_transfer c"
  shows "shows_config b (config (fst cl)) (with_options b o' c)" and "config (fst cl') = config (fst cl)"
    and "stored cl \<Longrightarrow> stored cl'"
proof -
  obtain q h d where q: "quality_options ce True cl = (q, h, d)" by (metis prod_cases3)
  then have cl': "cl' = (h, d)" using assms(1) by (auto simp: get_option_message_def Let_def split: if_splits)
  have h: "config h = config (fst cl)" "h_id h = h_id (fst cl)" "d = snd cl"
    using q by (auto simp: quality_options_def Let_def split: prod.splits option.splits if_splits)
  show "config (fst cl') = config (fst cl)" by (simp add: cl' h)
  show "stored cl \<Longrightarrow> stored cl'" by (simp add: cl' h stored_def split: prod.splits)
  let ?p = "config (fst cl)"
  let ?v = "pc_view_only ?p"
  have o': "o' = q\<lparr>opt_disable_keyboard := set_if ?v,
      opt_show_remote_cursor := set_if (?v \<or> pc_show_remote_cursor ?p),
      opt_show_my_cursor := set_if (?v \<and> pc_show_my_cursor ?p),
      opt_follow_remote_cursor := set_if (pc_follow_remote_cursor ?p),
      opt_follow_remote_window := set_if (pc_follow_remote_window ?p),
      opt_lock_after_session_end := set_if (\<not> ?v \<and> pc_lock_after_session_end ?p),
      opt_disable_audio := set_if (pc_disable_audio ?p),
      opt_enable_file_transfer := set_if (\<not> ?v \<and> pc_enable_file_copy_paste ?p),
      opt_disable_clipboard := set_if (?v \<or> pc_disable_clipboard ?p),
      opt_supported_decoding := Some (decoding ce)\<rparr>"
    using assms(1) q by (simp add: get_option_message_def get_toggle_option_def h Let_def split: if_splits)
  have set_if: "with_opt (set_if x) False = x" for x by (simp add: set_if_def)
  show "shows_config b ?p (with_options b o' c)"
    unfolding shows_with_options o' using assms(2-11) by (simp add: set_if)
qed

text \<open>
  C28. The options of the login, applied by a fresh connection of the controlled side, and the messages of any sequence
  of switches after it, keep the flags of the controlled side in step with the stored configuration of the peer, from a
  configuration that has the own pointer on only together with \<open>view-only\<close>.  The keyboard, the pointers that are
  followed, the own pointer and the sound are always as stored.  Each of the four flags that \<open>view-only\<close> overrides
  (clipboard, remote cursor, lock at the end, file transfer) is as stored, too, unless \<open>view-only\<close> is on: then it has the
  value that \<open>view-only\<close> gives it or the stored one, which a switch of that flag sends in the meantime.  So when
  \<open>view-only\<close> and the own pointer are off at the end, every flag is what the next login would ask for; and so it is with
  \<open>view-only\<close> on, when the four switches are left alone while it is on and the own pointer is while it is off.
\<close>

theorem options_in_sync:
  assumes "stored cl" and "pc_show_my_cursor (config (fst cl)) \<longrightarrow> pc_view_only (config (fst cl))"
    and "get_option_message ce True cl = (Some o', cl')"
    and "st0 = (cl', snd (update_options b e o' (control_new e conn primary, srv)))"
    and "((h, d), c, srv') = toggle_all ce b e names st0"
  shows "follows_config b (config h) c \<and>
    (\<not> pc_view_only (config h) \<and> \<not> pc_show_my_cursor (config h) \<or> all_settled ce b e names st0 \<longrightarrow>
      shows_config b (config h) c)"
proof -
  let ?c = "control_new e conn primary"
  have off: "\<not> disable_keyboard ?c" "\<not> disable_clipboard ?c" "\<not> show_remote_cursor ?c" "\<not> show_my_cursor ?c"
    "\<not> follow_remote_cursor ?c" "\<not> follow_remote_window ?c" "\<not> lock_after_session_end ?c" "\<not> disable_audio ?c"
    "\<not> enable_file_transfer ?c"
    by (simp_all add: control_new_def)
  note login = login_options_show [OF assms(3,2) off]
  have st: "stored (fst st0)" using login(3) assms(1) by (simp add: assms(4))
  have sh: "shows_config b (config (fst (fst st0))) (fst (snd st0))"
    using login(1,2) by (simp add: assms(4) update_options_flags)
  have "fst (fst (toggle_all ce b e names st0)) = h" "fst (snd (toggle_all ce b e names st0)) = c"
    by (simp_all add: assms(5) [symmetric])
  with toggle_all_follows [OF st shows_follows [OF sh], of ce e names] toggle_all_shows [OF st sh, of ce e names]
    follows_shows show ?thesis by auto
qed

text \<open>What the switch of the clipboard does while \<open>view-only\<close> is on.\<close>

theorem clipboard_opens_in_view_only:
  assumes "stored cl" and "shows_config b (config (fst cl)) (fst ct)" and "pc_view_only (config (fst cl))"
    and "clipboard (fst ct)" and "pc_disable_clipboard (config (fst cl))"
  shows "pc_view_only (config (fst (fst (toggle_both ce b e ''disable-clipboard'' (cl, ct))))) \<and>
    \<not> clipboard_enabled (fst ct) \<and>
    clipboard_enabled (fst (snd (toggle_both ce b e ''disable-clipboard'' (cl, ct))))"
proof -
  obtain h d where cl: "cl = (h, d)" by (metis surj_pair)
  let ?p = "(config h)\<lparr>pc_disable_clipboard := \<not> pc_disable_clipboard (config h)\<rparr>"
  let ?o = "no_options\<lparr>opt_disable_clipboard := yes_no (\<not> pc_disable_clipboard (config h))\<rparr>"
  have "load_config ce cl = config h" using assms(1) stored_load [of cl ce] by (simp add: cl)
  then have "toggle_both ce b e ''disable-clipboard'' (cl, ct) = (save_config ?p cl, snd (update_options b e ?o ct))"
    by (simp add: toggle_both_def toggle_option_def cl toggle_evals)
  moreover have "disable_clipboard (fst ct)" using assms(2,3) by (simp add: shows_config_def)
  ultimately show ?thesis using assms(3,4,5)
    by (simp add: update_options_flags clipboard_enabled_def with_options_def cl yes_no_def)
qed

subsection \<open>Passwords of both sides\<close>

lemma get_option_message_keeps:
  assumes "get_option_message e b st = (o', h', d')"
  shows "d' = snd st \<and> h'\<lparr>custom_fps := None\<rparr> = (fst st)\<lparr>custom_fps := None\<rparr>"
  using assms
  by (auto simp: get_option_message_def quality_options_def Let_def split: prod.splits option.splits if_splits)

lemma create_login_msg_keeps:
  assumes "create_login_msg e u pw p st = (m, h', d')"
  shows "d' = snd st \<and> h'\<lparr>custom_fps := None\<rparr> = (fst st)\<lparr>custom_fps := None\<rparr>"
  using assms get_option_message_keeps [of e True st]
  by (auto simp: create_login_msg_def split: prod.splits)

text \<open>The fields that matter below do not depend on the noted frame rate.\<close>

lemma same_but_fps:
  assumes "h\<lparr>custom_fps := None\<rparr> = g\<lparr>custom_fps := None\<rparr>"
  shows "h_id h = h_id g" "h_password h = h_password g" "h_hash h = h_hash g" "remember h = remember g"
    "config h = config g" "password_source h = password_source g"
  using assms by (cases h; cases g; simp)+

text \<open>The login that a request with a given password leads to.\<close>

lemma login_request_fields:
  assumes "create_login_msg e u pw p (h, d) = (m, st')"
  shows "lr_password (cl_request m) = p" "username (cl_request m) = h_id h" "lr_union (cl_request m) = client_union e h"
    "lr_version (cl_request m) = 1040007" "tokenex (cl_request m) = login_tokenex e"
proof -
  obtain o' h' d' where g: "get_option_message e True (h, d) = (o', h', d')" by (metis prod_cases3)
  have k: "h'\<lparr>custom_fps := None\<rparr> = h\<lparr>custom_fps := None\<rparr>" using get_option_message_keeps [OF g] by simp
  have "conn_type h' = conn_type h" "h_port_forward h' = h_port_forward h" "is_terminal_admin h' = is_terminal_admin h"
    using k by (cases h; cases h'; simp)+
  then have "client_union e h' = client_union e h"
    using same_but_fps [OF k]
    by (cases "conn_type h")
      (simp_all add: client_union_def Client_Config.get_option_def get_remote_dir_def get_key_terminal_service_id_def)
  moreover have "get_version_number ''1.40.7'' = 1040007" by code_simp
  ultimately show "lr_password (cl_request m) = p" "username (cl_request m) = h_id h"
    "lr_union (cl_request m) = client_union e h" "lr_version (cl_request m) = 1040007"
    "tokenex (cl_request m) = login_tokenex e"
    using assms g same_but_fps [OF k] by (auto simp: create_login_msg_def)
qed

text \<open>A controlled side that lets the right permanent password in: nothing else stands between.\<close>

definition admits :: "env \<Rightarrow> string \<Rightarrow> connection \<Rightarrow> world \<Rightarrow> bool" where
  "admits e i c w =
     (\<not> authorized c \<and> \<not> require_2fa c \<and> own_id e = i \<and> approve_mode e \<noteq> Click \<and> permanent_enabled e \<and>
      permanent_password e \<noteq> [] \<and> \<not> privacy_mode e \<and> desktop_error e = [] \<and> option_of e ''sso-login'' \<noteq> ''true'' \<and>
      login_failures w 0 (ip c) = None)"

lemma admitted:
  assumes "admits e i c w" and "username r = i" and "lr_union r = LoginDefault" and "lr_password r \<noteq> []"
    and "tokenex r = [] \<or> \<not> team_file e"
    and "lr_password r = sha256 e (sha256 e (permanent_password e @ hash_salt c) @ hash_challenge c)"
  shows "\<exists>rs c' w'. on_login_request e r c w = (True, rs, c', w') \<and> authorized c'"
proof -
  define c1 where "c1 = handle_login_request_without_validation e w r c"
  have c1: "lr c1 = r" "\<not> authorized c1" "\<not> require_2fa c1" "hash_salt c1 = hash_salt c" "hash_challenge c1 = hash_challenge c"
    "ip c1 = ip c" "from_switch c1 = from_switch c"
    using assms(1)
    by (auto simp: c1_def handle_login_request_without_validation_def admits_def Let_def split: option.splits)
  have prep: "prepare_login e c1 (lr_union r) = Inr c1"
    using assms(1,3) by (simp add: prepare_login_def admits_def)
  have dig: "digest e c1 (permanent_password e) = lr_password r" by (simp add: digest_def c1 assms(6))
  have acc: "\<exists>rs c' w'. accept_login e [] c1 w1 = (True, rs, c', w') \<and> authorized c'" for w1
    using c1 by (simp add: accept_login_def send_logon_response_def split: prod.splits)
  obtain rec w1 where rec: "is_recent_session e False c1 w = (rec, w1)" by (metis surj_pair)
  have fails: "login_failures w1 0 (ip c1) = None"
    using rec assms(1) c1 by (auto simp: is_recent_session_def live_sessions_def admits_def Let_def)
  have "fst (validate_password e c1 w1)"
    using assms(1,4,5) dig c1
    by (auto simp: validate_password_def validate_one_password_def admits_def Let_def)
  then obtain w2 where v: "validate_password e c1 w1 = (True, w2)" by (metis prod.collapse)
  have valid: "has_valid_password e" using assms(1) by (simp add: has_valid_password_def admits_def)
  have "\<exists>rs c' w'. check_login e [] c1 w = (True, rs, c', w') \<and> authorized c'"
  proof (cases rec)
    case True
    with rec acc [of w1] assms(1,2) c1 valid show ?thesis by (simp add: check_login_def admits_def Let_def)
  next
    case False
    with rec v fails acc assms(1,2,4) c1 valid show ?thesis
      by (simp add: check_login_def check_failure_def admits_def Let_def split: prod.splits)
  qed
  then show ?thesis using c1 prep assms(1) by (simp add: on_login_request_def admits_def flip: c1_def)
qed

text \<open>The two sessions: in the first the user types the password, in the second nobody does.\<close>

text \<open>
  C29. A password that the user types once with \<open>remember\<close>, and that the peer then confirms, opens the next session
  without the user: whatever the new challenge, the request that the controlling side sends on its own is accepted
  by a controlled side that has this permanent password and the same salt.
\<close>

theorem remembered_login:
  assumes "handle_login_from_ui ce u pw p True (h, d) = (acts1, h1, d1)" and "p \<noteq> []" and "sha ce = sha256 e"
    and "h_hash h = (hash_salt c, hash_challenge c)"
    and "handle_peer_info ce pi (h1, d1) = (h2, d2)"
    and "initialize ce (h_id h) DEFAULT_CONN None relay None None tk (g\<lparr>h_password := []\<rparr>, d2) = (g1, d3)"
    and "connect_arg ce = None"
    and "handle_hash ce [] (hash_salt c', hash_challenge c') (g1, d3) = (acts2, g2, d4)"
    and "hash_salt c' = hash_salt c" and "salted ce p (h_hash h) \<noteq> []"
    and "answer ce (salted ce p (h_hash h)) (hash_salt c', hash_challenge c') \<noteq> []"
    and "admits e (h_id h) c' w" and "permanent_password e = p" and "last_token ce = None"
  shows "\<exists>m rs c'' w'. acts2 = [SendLogin m] \<and>
    on_login_request e (cl_request m) c' w = (True, rs, c'', w') \<and> authorized c''"
proof -
  let ?hp = "salted ce p (h_hash h)"
  define h0 where "h0 = h\<lparr>h_password := ?hp, password_source := Undefined, remember := True\<rparr>"
  obtain m0 where "create_login_msg ce u pw (answer ce ?hp (h_hash h)) (h0, d) = (m0, h1, d1)"
    using assms(1,2) by (auto simp: handle_login_from_ui_def h0_def split: prod.splits)
  note k1 = create_login_msg_keeps [OF this]
  have h1: "h_id h1 = h_id h" "h_password h1 = ?hp" "h_hash h1 = h_hash h" "remember h1" "password_source h1 = Undefined"
    using same_but_fps [of h1 h0] k1 by (simp_all add: h0_def)
  have "remembered_password ce (h1\<lparr>h_version := x, features := y\<rparr>) q = ?hp" for q x y
    using h1 assms(10) by (simp add: remembered_password_def is_shared_ab_def Let_def)
  then have stored: "\<exists>pc. d2 (h_id h) = Some pc \<and> pc_password pc = ?hp"
    using assms(5) h1(1) by (auto simp: handle_peer_info_def save_config_def Let_def)
  then obtain pc where pc: "d2 (h_id h) = Some pc" "pc_password pc = ?hp" by blast
  have g1: "h_id g1 = h_id h" "config g1 = pc" "h_password g1 = []" "switch_uuid g1 = None" "shared_password g1 = None"
    "conn_type g1 = DEFAULT_CONN" "d3 = d2"
    using assms(6,7) pc by (auto simp: initialize_def load_peer_def Let_def)
  let ?hs = "(hash_salt c', hash_challenge c')"
  define g0 where "g0 = g1\<lparr>h_hash := ?hs, switch_uuid := None\<rparr>"
  have "choose_password ce [] ?hs g0 = (?hp, Undefined)"
    using g1 pc(2) assms(10) by (simp add: choose_password_def g0_def Let_def)
  then obtain u' pw' m st where c2: "create_login_msg ce u' pw' (answer ce ?hp ?hs)
      (g0\<lparr>shared_password := None, h_password := ?hp, password_source := Undefined\<rparr>, d3) = (m, st)"
    and acts2: "acts2 = [SendLogin m]"
    using assms(8,10) g1 by (auto simp: handle_hash_def g0_def Let_def split: prod.splits)
  note fields = login_request_fields [OF c2]
  have union: "lr_union (cl_request m) = LoginDefault" using fields(3) g1(6) by (simp add: client_union_def g0_def)
  have "tokenex (cl_request m) = []" using fields(5) assms(7,14) by (simp add: login_tokenex_def)
  moreover have "lr_password (cl_request m) =
      sha256 e (sha256 e (permanent_password e @ hash_salt c') @ hash_challenge c')"
    using fields(1) assms(3,4,9,13) by (simp add: answer_def salted_def)
  moreover have "lr_password (cl_request m) \<noteq> []" using fields(1) assms(11) by simp
  moreover have "username (cl_request m) = h_id h" using fields(2) g1(1) by (simp add: g0_def)
  ultimately have "\<exists>rs c'' w'. on_login_request e (cl_request m) c' w = (True, rs, c'', w') \<and> authorized c''"
    using admitted [OF assms(12)] union by simp
  with acts2 show ?thesis by blast
qed

text \<open>A password that was shared for one session is not kept.\<close>

text \<open>
  C30. A password that was shared for one session is used before every other and does not stay: after the peer has
  confirmed it the stored configuration has the password that it had before, or none when nothing is to be
  remembered.
\<close>

theorem shared_password_not_kept:
  assumes "shared_password h = Some sp" and "sp \<noteq> []" and "switch_uuid h = None" and "salted ce sp hs \<noteq> []"
    and "handle_hash ce preset hs (h, d) = (acts, h1, d1)" and "handle_peer_info ce pi (h1, d1) = (h2, d2)"
  shows "d2 (h_id h) = Some (config h2) \<and>
    pc_password (config h2) = (if remember h then pc_password (load_peer ce d (h_id h)) else [])"
proof -
  define h0 where "h0 = h\<lparr>h_hash := hs, switch_uuid := None\<rparr>"
  have ch: "choose_password ce preset hs h0 = (salted ce sp hs, SharedAb sp)"
    using assms(1,2,4) by (simp add: choose_password_def h0_def Let_def)
  define h0' where "h0' = h0\<lparr>shared_password := None, h_password := salted ce sp hs, password_source := SharedAb sp\<rparr>"
  have "d1 = d \<and> h1\<lparr>custom_fps := None\<rparr> = h0'\<lparr>custom_fps := None\<rparr>"
  proof (cases "conn_type h = TERMINAL \<and> is_terminal_admin h")
    case True
    then show ?thesis using assms(3,5) ch by (simp add: handle_hash_def h0_def h0'_def Let_def)
  next
    case False
    then obtain u pw p m where "create_login_msg ce u pw p (h0', d) = (m, h1, d1)"
      using assms(3,5) ch by (auto simp: handle_hash_def h0_def h0'_def Let_def split: prod.splits)
    from create_login_msg_keeps [OF this] show ?thesis by simp
  qed
  then have d1: "d1 = d" and h1: "h_id h1 = h_id h" "h_password h1 = salted ce sp hs" "h_hash h1 = hs"
    "remember h1 = remember h" "password_source h1 = SharedAb sp"
    using same_but_fps [of h1 h0'] by (simp_all add: h0'_def h0_def)
  have "remembered_password ce (h1\<lparr>h_version := x, features := y\<rparr>) q = (if remember h then q else [])" for q x y
    using h1 assms(4) by (simp add: remembered_password_def is_shared_ab_def is_personal_ab_def Let_def)
  then show ?thesis
    using assms(6) h1(1) by (auto simp: handle_peer_info_def save_config_def load_config_def d1 Let_def)
qed

text \<open>Confirming an empty password field counts as a wrong guess.\<close>

theorem empty_password_counts:
  assumes "handle_login_from_ui ce u pw [] rem (h, d) = ([SendLogin m], st')" and "h_password h = []"
    and "pc_password (config h) = []" and "\<And>x. sha ce x \<noteq> []"
  shows "lr_password (cl_request m) = sha ce (snd (h_hash h)) \<and> lr_password (cl_request m) \<noteq> []"
proof -
  obtain h1 where "create_login_msg ce u pw (answer ce [] (h_hash h)) (h1, d) = (m, st')"
    using assms(1-3) by (auto simp: handle_login_from_ui_def split: prod.splits)
  then show ?thesis using login_request_fields(1) assms(4) by (auto simp: answer_def)
qed

text \<open>The version that every login names is below the one from which several sessions of a system are offered.\<close>

lemma own_version_is_old: "\<not> is_support_multi_ui_session ''1.40.7'' \<and> \<not> is_support_screenshot ''1.40.7''"
  by code_simp

subsection \<open>Samples\<close>

definition plain_config :: peer_config where
  "plain_config = \<lparr>pc_password = [], pc_view_style = [], pc_scroll_style = [], pc_edge_thickness = 100,
     pc_image_quality = ''balanced'', pc_custom_image_quality = [], pc_show_remote_cursor = False,
     pc_lock_after_session_end = False, pc_privacy_mode = False, pc_allow_swap_key = False, pc_direct_failures = 0,
     pc_disable_audio = False, pc_disable_clipboard = False, pc_enable_file_copy_paste = True,
     pc_show_quality_monitor = False, pc_follow_remote_cursor = False, pc_follow_remote_window = False,
     pc_keyboard_mode = [], pc_view_only = False, pc_show_my_cursor = False, pc_reverse_mouse_wheel = [],
     pc_individual_windows = [], pc_use_all_displays = [], pc_trackpad_speed = 100, pc_custom_resolutions = (\<lambda>_. None),
     pc_options = (\<lambda>_. None), pc_ui_flutter = (\<lambda>_. None), pc_info = ([], [], [])\<rparr>"

definition plain_client_env :: client_env where
  "plain_client_env = \<lparr>default_config = plain_config, flutter = False, sha = (\<lambda>s. s), decode64 = (\<lambda>_. None),
     parse_i32 = (\<lambda>_. None), string_map = (\<lambda>_ _. None), map_string = (\<lambda>_. []), decoding = 0, random_id = 5,
     connect_arg = None, terminal_admin = None, my_config_id = ''7'', my_avatar = [], last_token = None,
     builtin = (\<lambda>_. []), user_info_name = [], system_user = ''u'', platform_name = ''Linux'', my_hwid = [],
     access_token = [], ab_access_token = [], ab_entries = [], parse_uuid = (\<lambda>_. None), lowercase = (\<lambda>s. s)\<rparr>"

definition plain_handler :: handler where
  "plain_handler = \<lparr>h_id = ''42'', conn_type = DEFAULT_CONN, is_terminal_admin = False, h_hash = (''s'', ''c''), h_password = [],
     h_tokenex = [], remember = False, config = plain_config, h_port_forward = ([], 0), h_version = 0, features = None,
     h_session_id = 5, restarting_remote_device = False, force_relay = False, direct = None, received = False,
     switch_uuid = None, custom_fps = None, selected_windows_session_id = None, password_source = Undefined,
     shared_password = None, record_state = False, record_permission = True\<rparr>"

definition plain_disk :: disk where
  "plain_disk = (\<lambda>_. Some plain_config)"

definition plain_build :: build where
  "plain_build = \<lparr>os_kind = Windows, unix_file_copy_paste = False, is_win10 = True, whiteboard_supported = True\<rparr>"

lemma plain_stored: "stored (plain_handler, plain_disk)"
  by (simp add: stored_def plain_handler_def plain_disk_def)

lemma plain_options: "\<exists>o'. get_option_message plain_client_env True (plain_handler, plain_disk) = (Some o', plain_handler, plain_disk)"
  by (simp add: get_option_message_def quality_options_def get_image_quality_enum_def plain_handler_def plain_config_def Let_def)

definition plain_server :: server where
  "plain_server = \<lparr>connections = [], services = [], id_count = 0, conn_count = 0\<rparr>"

definition plain_switches :: "string list" where
  "plain_switches = [''view-only'', ''disable-clipboard'', ''view-only'']"

lemma options_in_sync_witness:
  "\<exists>o' cl' h d c srv. get_option_message plain_client_env True (plain_handler, plain_disk) = (Some o', cl') \<and>
    ((h, d), c, srv) = toggle_all plain_client_env plain_build plain_env plain_switches
      (cl', snd (update_options plain_build plain_env o' (control_new plain_env new_connection 0, plain_server))) \<and>
    follows_config plain_build (config h) c"
proof -
  obtain o' where o': "get_option_message plain_client_env True (plain_handler, plain_disk) = (Some o', plain_handler, plain_disk)"
    using plain_options by blast
  obtain h d c srv where r: "((h, d), c, srv) = toggle_all plain_client_env plain_build plain_env plain_switches
      ((plain_handler, plain_disk),
        snd (update_options plain_build plain_env o' (control_new plain_env new_connection 0, plain_server)))"
    by (metis surj_pair)
  from options_in_sync [OF plain_stored _ o' refl r] o' r show ?thesis
    by (auto simp: plain_handler_def plain_config_def)
qed

definition viewer_config :: peer_config where
  "viewer_config = plain_config\<lparr>pc_view_only := True, pc_disable_clipboard := True\<rparr>"

definition viewed :: control where
  "viewed = (control_new plain_env new_connection 0)\<lparr>disable_keyboard := True, disable_clipboard := True,
     show_remote_cursor := True, clipboard := True\<rparr>"

lemma clipboard_opens_in_view_only_witness:
  "clipboard_enabled (fst (snd (toggle_both plain_client_env plain_build plain_env ''disable-clipboard''
    ((plain_handler\<lparr>config := viewer_config\<rparr>, \<lambda>_. Some viewer_config), (viewed, plain_server)))))"
proof -
  have "stored (plain_handler\<lparr>config := viewer_config\<rparr>, \<lambda>_. Some viewer_config)" by (simp add: stored_def)
  moreover have "shows_config plain_build viewer_config viewed"
    by (simp add: shows_config_def viewer_config_def plain_config_def viewed_def control_new_def)
  ultimately show ?thesis
    using clipboard_opens_in_view_only [of "(plain_handler\<lparr>config := viewer_config\<rparr>, \<lambda>_. Some viewer_config)"
        plain_build "(viewed, plain_server)" plain_client_env plain_env]
    by (simp add: viewer_config_def viewed_def)
qed

definition remembering :: env where
  "remembering = plain_env\<lparr>permanent_password := ''p''\<rparr>"

definition open_connection :: "string \<Rightarrow> connection" where
  "open_connection challenge = new_connection\<lparr>require_2fa := False, hash_challenge := challenge\<rparr>"

lemma remembered_login_witness:
  "\<exists>acts1 st1 st2 st3 acts2 st4 m rs c'' w'.
    handle_login_from_ui plain_client_env [] [] ''p'' True (plain_handler, plain_disk) = (acts1, st1) \<and>
    handle_peer_info plain_client_env \<lparr>pi_username = [], pi_hostname = [], pi_platform = [], pi_version = [], pi_features = None\<rparr> st1 = st2 \<and>
    initialize plain_client_env ''42'' DEFAULT_CONN None False None None [] (plain_handler\<lparr>h_password := []\<rparr>, snd st2) = st3 \<and>
    handle_hash plain_client_env [] (''s'', ''d'') st3 = (acts2, st4) \<and> acts2 = [SendLogin m] \<and>
    on_login_request remembering (cl_request m) (open_connection ''d'') empty_world = (True, rs, c'', w') \<and> authorized c''"
proof -
  let ?pi = "\<lparr>pi_username = [], pi_hostname = [], pi_platform = [], pi_version = [], pi_features = None\<rparr>"
  obtain acts1 h1 d1 where 1: "handle_login_from_ui plain_client_env [] [] ''p'' True (plain_handler, plain_disk) = (acts1, h1, d1)"
    by (metis prod_cases3)
  obtain h2 d2 where 2: "handle_peer_info plain_client_env ?pi (h1, d1) = (h2, d2)" by (metis surj_pair)
  obtain g1 d3 where 3: "initialize plain_client_env (h_id plain_handler) DEFAULT_CONN None False None None []
      (plain_handler\<lparr>h_password := []\<rparr>, d2) = (g1, d3)" by (metis surj_pair)
  obtain acts2 g2 d4 where 4: "handle_hash plain_client_env []
      (hash_salt (open_connection ''d''), hash_challenge (open_connection ''d'')) (g1, d3) = (acts2, g2, d4)"
    by (metis prod_cases3)
  have "\<exists>m rs c'' w'. acts2 = [SendLogin m] \<and>
    on_login_request remembering (cl_request m) (open_connection ''d'') empty_world = (True, rs, c'', w') \<and> authorized c''"
    by (rule remembered_login [OF 1 _ _ _ 2 3 _ 4, where c = "open_connection ''c''"])
      (simp_all add: plain_client_env_def remembering_def plain_env_def plain_handler_def open_connection_def
        new_connection_def salted_def answer_def admits_def approve_mode_def permanent_enabled_def
        verification_method_def empty_world_def)
  with 1 2 3 4 show ?thesis by (force simp: plain_handler_def open_connection_def new_connection_def)
qed

lemma shared_password_not_kept_witness:
  "\<exists>acts h1 d1 h2 d2. handle_hash plain_client_env [] (''s'', ''c'') (plain_handler\<lparr>shared_password := Some ''x''\<rparr>, plain_disk) =
      (acts, h1, d1) \<and>
    handle_peer_info plain_client_env \<lparr>pi_username = [], pi_hostname = [], pi_platform = [], pi_version = [], pi_features = None\<rparr>
      (h1, d1) = (h2, d2) \<and> d2 ''42'' = Some (config h2) \<and> pc_password (config h2) = []"
proof -
  let ?h = "plain_handler\<lparr>shared_password := Some ''x''\<rparr>"
  obtain acts h1 d1 where 1: "handle_hash plain_client_env [] (''s'', ''c'') (?h, plain_disk) = (acts, h1, d1)"
    by (metis prod_cases3)
  obtain h2 d2 where 2: "handle_peer_info plain_client_env
      \<lparr>pi_username = [], pi_hostname = [], pi_platform = [], pi_version = [], pi_features = None\<rparr> (h1, d1) = (h2, d2)"
    by (metis surj_pair)
  have "d2 (h_id ?h) = Some (config h2) \<and>
    pc_password (config h2) = (if remember ?h then pc_password (load_peer plain_client_env plain_disk (h_id ?h)) else [])"
    by (rule shared_password_not_kept [where sp = "''x''", OF _ _ _ _ 1 2]) (simp_all add: plain_handler_def plain_client_env_def salted_def)
  with 1 2 show ?thesis by (simp add: plain_handler_def)
qed

end
