(* ===== verification/Client_Keyboard.thy ===== *)
theory Client_Keyboard
  imports Input_Service Utf8 Addresses
begin

text \<open>
  The keyboard and the mouse of the controlling side: \<^verbatim>\<open>src/keyboard.rs\<close> as it is built for Linux without the
  \<^verbatim>\<open>flutter\<close> feature, with the input operations of a session in \<^verbatim>\<open>src/ui_session_interface.rs\<close> and of
  \<^verbatim>\<open>src/client.rs\<close>.  A local event becomes messages for the peer, which are the \<open>key_event\<close>s that
  \<open>Input_Service\<close> takes.

  The state is the record \<open>grab\<close> of the two tables of the process, \<^verbatim>\<open>TO_RELEASE\<close> and \<^verbatim>\<open>MODIFIERS_STATE\<close>.  What the
  \<^verbatim>\<open>rdev\<close> crate knows of key codes, and what the keyboard says of its modifiers and lock modes, are arguments.  The
  names of platforms are ASCII; a \<^verbatim>\<open>char\<close> of a key is its scalar value.
\<close>

subsection \<open>Local events\<close>

text \<open>A key of \<^verbatim>\<open>rdev\<close> by its name in the crate, or an unknown one by its code.\<close>

datatype rkey = RKey string | RUnknown nat

datatype event_kind = KeyPress rkey | KeyRelease rkey | OtherEvent

record unicode_info =
  uni_name :: "utext option"
  is_dead :: bool

record local_event =
  event_type :: event_kind
  event_unicode :: "unicode_info option"
  platform_code :: nat
  position_code :: nat

record grab =
  to_release :: "rkey \<Rightarrow> local_event option"
  modifiers_state :: "rkey \<Rightarrow> bool option"

record grab_env =
  peer_name :: string
  local_state :: "key \<Rightarrow> bool"
  iso_layout :: bool
  to_win_code :: "nat \<Rightarrow> nat option"
  to_macos_code :: "nat \<Rightarrow> nat option"
  to_macos_iso_code :: "nat \<Rightarrow> nat option"
  to_android_code :: "nat \<Rightarrow> nat option"
  win_key :: "nat \<Rightarrow> rkey"
  win_code :: "rkey \<Rightarrow> nat option"
  macos_key :: "nat \<Rightarrow> rkey"
  macos_code :: "rkey \<Rightarrow> nat option"
  linux_key :: "nat \<Rightarrow> rkey"
  linux_code :: "rkey \<Rightarrow> nat option"

definition modifier_keys :: "rkey list" where
  "modifier_keys = [RKey ''ShiftLeft'', RKey ''ShiftRight'', RKey ''ControlLeft'', RKey ''ControlRight'', RKey ''Alt'',
     RKey ''AltGr'', RKey ''MetaLeft'', RKey ''MetaRight'']"

definition initial_grab :: grab where
  "initial_grab = \<lparr>to_release = (\<lambda>k. None), modifiers_state = map_of (map (\<lambda>k. (k, False)) modifier_keys)\<rparr>"

text \<open>\<^verbatim>\<open>to_lowercase\<close> and the removal of white space, on ASCII.\<close>

definition lower_char :: "char \<Rightarrow> char" where
  "lower_char c = (if 65 \<le> (of_char c :: nat) \<and> (of_char c :: nat) \<le> 90 then char_of (of_char c + 32 :: nat) else c)"

definition lower :: "string \<Rightarrow> string" where "lower s = map lower_char s"

definition is_whitespace :: "char \<Rightarrow> bool" where
  "is_whitespace c = (of_char c \<in> {9, 10, 11, 12, 13, 32 :: nat})"

definition peer_of :: "string \<Rightarrow> string" where
  "peer_of s = filter (\<lambda>c. \<not> is_whitespace c) (lower s)"

subsection \<open>Classes of keys\<close>

definition is_numpad_rdev_key :: "rkey \<Rightarrow> bool" where
  "is_numpad_rdev_key k = (k \<in> set (map RKey
     [''Kp0'', ''Kp1'', ''Kp2'', ''Kp3'', ''Kp4'', ''Kp5'', ''Kp6'', ''Kp7'', ''Kp8'', ''Kp9'', ''KpMinus'',
      ''KpMultiply'', ''KpDivide'', ''KpPlus'', ''KpDecimal'']))"

definition is_letter_rdev_key :: "rkey \<Rightarrow> bool" where
  "is_letter_rdev_key k = (k \<in> set (map (\<lambda>c. RKey (''Key'' @ [c])) ''ABCDEFGHIJKLMNOPQRSTUVWXYZ''))"

definition is_letter_rdev_key_ex :: "rkey \<Rightarrow> bool" where
  "is_letter_rdev_key_ex k = (k \<in> set (map RKey
     [''LeftBracket'', ''RightBracket'', ''SemiColon'', ''Quote'', ''Comma'', ''Dot'']))"

definition event_key :: "local_event \<Rightarrow> rkey option" where
  "event_key ev = (case event_type ev of KeyPress k \<Rightarrow> Some k | KeyRelease k \<Rightarrow> Some k | OtherEvent \<Rightarrow> None)"

definition is_numpad_key :: "local_event \<Rightarrow> bool" where
  "is_numpad_key ev = (case event_key ev of Some k \<Rightarrow> is_numpad_rdev_key k | None \<Rightarrow> False)"

definition is_letter_key_4_lock_modes :: "local_event \<Rightarrow> bool" where
  "is_letter_key_4_lock_modes ev =
     (case event_key ev of Some k \<Rightarrow> is_letter_rdev_key k \<or> is_letter_rdev_key_ex k | None \<Rightarrow> False)"

definition is_long_press :: "local_event \<Rightarrow> grab \<Rightarrow> bool" where
  "is_long_press ev g = (case event_type ev of KeyPress k \<Rightarrow> modifiers_state g k = Some True | _ \<Rightarrow> False)"

definition update_modifiers_state :: "local_event \<Rightarrow> grab \<Rightarrow> grab" where
  "update_modifiers_state ev g =
     (case event_type ev of
        KeyPress k \<Rightarrow>
          if modifiers_state g k = None then g else g\<lparr>modifiers_state := (modifiers_state g)(k \<mapsto> True)\<rparr>
      | KeyRelease k \<Rightarrow>
          if modifiers_state g k = None then g else g\<lparr>modifiers_state := (modifiers_state g)(k \<mapsto> False)\<rparr>
      | OtherEvent \<Rightarrow> g)"

definition update_to_release :: "local_event \<Rightarrow> grab \<Rightarrow> grab" where
  "update_to_release ev g =
     (case event_type ev of
        KeyPress k \<Rightarrow> g\<lparr>to_release := (to_release g)(k \<mapsto> ev)\<rparr>
      | KeyRelease k \<Rightarrow> g\<lparr>to_release := (to_release g)(k := None)\<rparr>
      | OtherEvent \<Rightarrow> g)"

text \<open>An entry that is missing makes \<^verbatim>\<open>unwrap\<close> panic; the table always has its eight.\<close>

definition modifier_down :: "grab \<Rightarrow> string \<Rightarrow> bool" where
  "modifier_down g k = (modifiers_state g (RKey k) = Some True)"

definition get_modifiers_state ::
  "grab \<Rightarrow> bool \<times> bool \<times> bool \<times> bool \<Rightarrow> bool \<times> bool \<times> bool \<times> bool" where
  "get_modifiers_state g = (\<lambda>(alt, ctrl, shift, command).
     (modifier_down g ''Alt'' \<or> modifier_down g ''AltGr'' \<or> alt,
      modifier_down g ''ControlLeft'' \<or> modifier_down g ''ControlRight'' \<or> ctrl,
      modifier_down g ''ShiftLeft'' \<or> modifier_down g ''ShiftRight'' \<or> shift,
      modifier_down g ''MetaLeft'' \<or> modifier_down g ''MetaRight'' \<or> command))"

subsection \<open>Legacy mode\<close>

text \<open>The modes are the numbers of the protocol.\<close>

definition get_keyboard_mode_enum :: "string \<Rightarrow> int" where
  "get_keyboard_mode_enum mode =
     (if mode = ''map'' then 1 else if mode = ''translate'' then 2 else if mode = ''legacy'' then 0 else 1)"

definition new_event :: key_event where
  "new_event = \<lparr>ev_down = False, ev_press = False, ev_union = NoKey, ev_modifiers = [], ev_mode = 0\<rparr>"

definition is_control_key :: "key_event \<Rightarrow> int \<Rightarrow> bool" where
  "is_control_key evt ck = (case ev_union evt of ControlKey v \<Rightarrow> v = ck | _ \<Rightarrow> False)"

definition legacy_modifiers :: "bool \<times> bool \<times> bool \<times> bool \<Rightarrow> key_event \<Rightarrow> key_event" where
  "legacy_modifiers = (\<lambda>(alt, ctrl, shift, command) evt.
     evt\<lparr>ev_modifiers := ev_modifiers evt @
       (if alt \<and> \<not> is_control_key evt ck_Alt \<and> \<not> is_control_key evt ck_RAlt then [ck_Alt] else []) @
       (if shift \<and> \<not> is_control_key evt ck_Shift \<and> \<not> is_control_key evt ck_RShift then [ck_Shift] else []) @
       (if ctrl \<and> \<not> is_control_key evt ck_Control \<and> \<not> is_control_key evt ck_RControl then [ck_Control] else []) @
       (if command \<and> \<not> is_control_key evt ck_Meta \<and> \<not> is_control_key evt ck_RWin then [ck_Meta] else [])\<rparr>)"

definition event_lock_screen :: key_event where
  "event_lock_screen = new_event\<lparr>ev_union := ControlKey ck_LockScreen, ev_down := True, ev_mode := 0\<rparr>"

definition event_ctrl_alt_del :: "grab_env \<Rightarrow> key_event" where
  "event_ctrl_alt_del e =
     (if peer_name e = ''Windows'' then new_event\<lparr>ev_union := ControlKey ck_CtrlAltDel, ev_down := True, ev_mode := 0\<rparr>
      else (legacy_modifiers (True, True, False, False) (new_event\<lparr>ev_union := ControlKey 5\<rparr>))
             \<lparr>ev_press := True, ev_mode := 0\<rparr>)"

definition numpad_without_lock :: "(string \<times> string) list" where
  "numpad_without_lock =
     [(''Kp0'', ''Insert''), (''KpDecimal'', ''Delete''), (''Kp1'', ''End''),
      (''Kp2'', ''DownArrow''), (''Kp3'', ''PageDown''), (''Kp4'', ''LeftArrow''),
      (''Kp5'', ''Clear''), (''Kp6'', ''RightArrow''), (''Kp7'', ''Home''), (''Kp8'', ''UpArrow''),
      (''Kp9'', ''PageUp'')]"

definition convert_numpad_keys :: "grab_env \<Rightarrow> rkey \<Rightarrow> rkey" where
  "convert_numpad_keys e k =
     (if local_state e KNumLock then k
      else case k of
          RKey n \<Rightarrow> (case map_of numpad_without_lock n of Some m \<Rightarrow> RKey m | None \<Rightarrow> k)
        | RUnknown _ \<Rightarrow> k)"

definition control_keys :: "(string \<times> int) list" where
  "control_keys =
     [(''Alt'', 1), (''AltGr'', 75), (''Backspace'', 2), (''ControlLeft'', 4),
      (''ControlRight'', 74), (''DownArrow'', 6), (''Escape'', 8), (''F1'', 9), (''F10'', 10),
      (''F11'', 11), (''F12'', 12), (''F2'', 13), (''F3'', 14), (''F4'', 15), (''F5'', 16),
      (''F6'', 17), (''F7'', 18), (''F8'', 19), (''F9'', 20), (''LeftArrow'', 22),
      (''MetaLeft'', 23), (''MetaRight'', 64), (''Return'', 27), (''RightArrow'', 28),
      (''ShiftLeft'', 29), (''ShiftRight'', 73), (''Space'', 30), (''Tab'', 31), (''UpArrow'', 32),
      (''Delete'', 5), (''Apps'', 65), (''Cancel'', 43), (''Clear'', 44), (''Kana'', 47),
      (''Hangul'', 48), (''Junja'', 49), (''Final'', 50), (''Hanja'', 51), (''Hanji'', 51),
      (''Lang2'', 53), (''Print'', 55), (''Select'', 54), (''Execute'', 56), (''PrintScreen'', 57),
      (''Help'', 59), (''Sleep'', 60), (''Separator'', 61), (''KpReturn'', 72), (''Kp0'', 33),
      (''Kp1'', 34), (''Kp2'', 35), (''Kp3'', 36), (''Kp4'', 37), (''Kp5'', 38), (''Kp6'', 39),
      (''Kp7'', 40), (''Kp8'', 41), (''Kp9'', 42), (''KpDivide'', 70), (''KpMultiply'', 66),
      (''KpDecimal'', 69), (''KpMinus'', 68), (''KpPlus'', 67), (''Home'', 21), (''End'', 7),
      (''Insert'', 58), (''PageUp'', 26), (''PageDown'', 25), (''Pause'', 46)]"

definition control_key_of :: "rkey \<Rightarrow> int option" where
  "control_key_of k = (case k of RKey n \<Rightarrow> map_of control_keys n | RUnknown _ \<Rightarrow> None)"

definition key_chars :: "(string \<times> nat) list" where
  "key_chars =
     [(''Num1'', 49), (''Num2'', 50), (''Num3'', 51), (''Num4'', 52), (''Num5'', 53), (''Num6'', 54),
      (''Num7'', 55), (''Num8'', 56), (''Num9'', 57), (''Num0'', 48), (''KeyA'', 97),
      (''KeyB'', 98), (''KeyC'', 99), (''KeyD'', 100), (''KeyE'', 101), (''KeyF'', 102),
      (''KeyG'', 103), (''KeyH'', 104), (''KeyI'', 105), (''KeyJ'', 106), (''KeyK'', 107),
      (''KeyL'', 108), (''KeyM'', 109), (''KeyN'', 110), (''KeyO'', 111), (''KeyP'', 112),
      (''KeyQ'', 113), (''KeyR'', 114), (''KeyS'', 115), (''KeyT'', 116), (''KeyU'', 117),
      (''KeyV'', 118), (''KeyW'', 119), (''KeyX'', 120), (''KeyY'', 121), (''KeyZ'', 122),
      (''Comma'', 44), (''Dot'', 46), (''SemiColon'', 59), (''Quote'', 39), (''LeftBracket'', 91),
      (''RightBracket'', 93), (''Slash'', 47), (''BackSlash'', 92), (''Minus'', 45),
      (''Equal'', 61), (''BackQuote'', 96)]"

definition char_of_key :: "rkey \<Rightarrow> nat" where
  "char_of_key k =
     (case k of RKey n \<Rightarrow> (case map_of key_chars n of Some c \<Rightarrow> c | None \<Rightarrow> 0) | RUnknown _ \<Rightarrow> 0)"

text \<open>The character that the local keyboard gives: the first one of at most two bytes, the middle dot as a back quote.\<close>

definition typed_char :: "local_event \<Rightarrow> nat" where
  "typed_char ev =
     (let c = (case (case event_unicode ev of Some u \<Rightarrow> uni_name u | None \<Rightarrow> None) of
                 Some s \<Rightarrow> if utf8_len s \<le> 2 then (case s of c # _ \<Rightarrow> c | [] \<Rightarrow> 0) else 0
               | None \<Rightarrow> 0)
      in if c = 0xB7 then 96 else c)"

text \<open>
  What is sent on the side, and what is returned: at most one event.
\<close>

definition legacy_keys ::
  "grab_env \<Rightarrow> local_event \<Rightarrow> rkey \<Rightarrow> bool \<Rightarrow> key_event \<Rightarrow> grab \<Rightarrow> key_event list \<times> key_event list" where
  "legacy_keys e ev k0 down evt g =
     (let is_win = (peer_name e = ''Windows'');
          k = (if is_win then convert_numpad_keys e k0 else k0);
          alt = local_state e KAlt;
          ctrl = (local_state e KControl \<or> local_state e KRightControl);
          shift = (local_state e KShift \<or> local_state e KRightShift);
          command = local_state e KMeta;
          finish = (\<lambda>u. ([], [(legacy_modifiers (get_modifiers_state g (alt, ctrl, shift, command)) (evt\<lparr>ev_union := u\<rparr>))
                               \<lparr>ev_down := down \<or> ev_down evt\<rparr>]))
      in if k = RKey ''Delete'' \<and> is_win \<and> ctrl \<and> alt then ([event_ctrl_alt_del e], [])
         else if k \<in> {RKey ''CapsLock'', RKey ''NumLock'', RKey ''ScrollLock''} then ([], [])
         else case control_key_of k of
             Some ck \<Rightarrow> finish (ControlKey ck)
           | None \<Rightarrow>
               (let c = (if typed_char ev = 0 then char_of_key k else typed_char ev)
                in if c = 0 then ([], [])
                   else if c = 108 \<and> is_win \<and> command then ([event_lock_screen], [])
                   else finish (Chr c)))"

definition legacy_keyboard_events ::
  "grab_env \<Rightarrow> local_event \<Rightarrow> key_event \<Rightarrow> grab \<Rightarrow> key_event list \<times> key_event list" where
  "legacy_keyboard_events e ev evt g =
     (case event_type ev of
        KeyPress k \<Rightarrow> legacy_keys e ev k True evt g
      | KeyRelease k \<Rightarrow> legacy_keys e ev k False evt g
      | OtherEvent \<Rightarrow> ([], []))"

subsection \<open>Map and translate mode\<close>

definition peer_keycode :: "grab_env \<Rightarrow> string \<Rightarrow> nat \<Rightarrow> nat option" where
  "peer_keycode e peer code =
     (if peer = ''windows'' then to_win_code e code
      else if peer = ''macos'' then (if iso_layout e then to_macos_iso_code e code else to_macos_code e code)
      else if peer = ''android'' then to_android_code e code
      else Some code)"

definition map_keyboard_events :: "grab_env \<Rightarrow> string \<Rightarrow> local_event \<Rightarrow> key_event \<Rightarrow> key_event list" where
  "map_keyboard_events e peer ev evt =
     (case event_type ev of
        OtherEvent \<Rightarrow> []
      | k \<Rightarrow> (case peer_keycode e peer (position_code ev) of
               Some code \<Rightarrow> [evt\<lparr>ev_down := (case k of KeyPress _ \<Rightarrow> True | _ \<Rightarrow> False), ev_union := Chr code\<rparr>]
             | None \<Rightarrow> []))"

definition try_fill_unicode :: "local_event \<Rightarrow> key_event \<Rightarrow> key_event list" where
  "try_fill_unicode ev evt =
     (case event_unicode ev of
        Some u \<Rightarrow> (case uni_name u of
                     Some n \<Rightarrow> if n \<noteq> [] then [evt\<lparr>ev_union := Seq n, ev_down := True\<rparr>] else []
                   | None \<Rightarrow> [])
      | None \<Rightarrow> [])"

definition is_altgr :: "local_event \<Rightarrow> bool" where "is_altgr ev = (platform_code ev = 0xFE03)"

definition is_dead_event :: "local_event \<Rightarrow> bool" where
  "is_dead_event ev = (case event_unicode ev of Some u \<Rightarrow> is_dead u | None \<Rightarrow> False)"

definition is_key_press :: "local_event \<Rightarrow> bool" where
  "is_key_press ev = (case event_type ev of KeyPress _ \<Rightarrow> True | _ \<Rightarrow> False)"

definition translate_keyboard_events :: "grab_env \<Rightarrow> string \<Rightarrow> local_event \<Rightarrow> key_event \<Rightarrow> key_event list" where
  "translate_keyboard_events e peer ev evt =
     (if is_dead_event ev then []
      else if is_numpad_key ev then map_keyboard_events e peer ev evt
      else if is_altgr ev then []
      else let events = (if is_key_press ev then try_fill_unicode ev evt else [])
           in if events = [] then map_keyboard_events e peer ev evt else events)"

subsection \<open>One event\<close>

text \<open>The lock modes go along with the keys that depend on them; given as bits, or read from the keyboard.\<close>

definition parse_add_lock_modes_modifiers :: "int \<Rightarrow> bool \<Rightarrow> bool \<Rightarrow> key_event \<Rightarrow> key_event" where
  "parse_add_lock_modes_modifiers modes numpad letter evt =
     evt\<lparr>ev_modifiers := ev_modifiers evt @ (if letter \<and> bit modes 1 then [ck_CapsLock] else []) @
           (if numpad \<and> bit modes 2 then [ck_NumLock] else [])\<rparr>"

definition add_lock_modes_modifiers :: "grab_env \<Rightarrow> bool \<Rightarrow> bool \<Rightarrow> key_event \<Rightarrow> key_event" where
  "add_lock_modes_modifiers e numpad letter evt =
     evt\<lparr>ev_modifiers := ev_modifiers evt @ (if letter \<and> local_state e KCapsLock then [ck_CapsLock] else []) @
           (if numpad \<and> local_state e KNumLock then [ck_NumLock] else [])\<rparr>"

text \<open>What is sent on the side, what is returned to be sent, and the state after it.\<close>

definition event_to_key_events ::
  "grab_env \<Rightarrow> local_event \<Rightarrow> int \<Rightarrow> int option \<Rightarrow> grab \<Rightarrow> key_event list \<times> key_event list \<times> grab" where
  "event_to_key_events e ev mode lock_modes g =
     (let peer = peer_of (peer_name e);
          g1 = update_to_release ev (update_modifiers_state ev g);
          evt = new_event\<lparr>ev_mode := mode\<rparr>;
          (side, events) =
            (if mode = 1 then ([], map_keyboard_events e peer ev evt)
             else if mode = 2 then ([], translate_keyboard_events e peer ev evt)
             else legacy_keyboard_events e ev evt g1);
          numpad = is_numpad_key ev;
          letter = is_letter_key_4_lock_modes ev;
          add = (case lock_modes of Some m \<Rightarrow> parse_add_lock_modes_modifiers m numpad letter
                 | None \<Rightarrow> add_lock_modes_modifiers e numpad letter)
      in (side, if mode \<noteq> 2 \<or> numpad then map add events else events, g1))"

definition process_event ::
  "grab_env \<Rightarrow> string \<Rightarrow> local_event \<Rightarrow> int option \<Rightarrow> grab \<Rightarrow> key_event list \<times> grab" where
  "process_event e mode ev lock_modes g =
     (if is_long_press ev g then ([], g)
      else case event_to_key_events e ev (get_keyboard_mode_enum mode) lock_modes g of
          (side, events, g') \<Rightarrow> (side @ events, g'))"

text \<open>The keys that are pressed when the window is left, in the order of the hash map.\<close>

definition release_remote_key :: "grab_env \<Rightarrow> string \<Rightarrow> rkey \<times> local_event \<Rightarrow> grab \<Rightarrow> key_event list \<times> grab" where
  "release_remote_key e mode = (\<lambda>(k, ev) g.
     (let up = ev\<lparr>event_type := KeyRelease k\<rparr>;
          (o1, g1) = process_event e mode up None g
      in if k = RKey ''Alt'' \<or> k = RKey ''AltGr'' then
           (let (o2, g2) = process_event e mode (ev\<lparr>event_type := KeyPress k\<rparr>) None g1;
                (o3, g3) = process_event e mode up None g2
            in (o1 @ o2 @ o3, g3))
         else (o1, g1)))"

fun release_all :: "grab_env \<Rightarrow> string \<Rightarrow> (rkey \<times> local_event) list \<Rightarrow> grab \<Rightarrow> key_event list \<times> grab" where
  "release_all e mode [] g = ([], g)"
| "release_all e mode (r # rs) g =
     (case release_remote_key e mode r g of
        (o1, g1) \<Rightarrow> (case release_all e mode rs g1 of (o2, g2) \<Rightarrow> (o1 @ o2, g2)))"

definition entries :: "rkey list \<Rightarrow> grab \<Rightarrow> (rkey \<times> local_event) list" where
  "entries order g = List.map_filter (\<lambda>k. map_option (Pair k) (to_release g k)) order"

definition release_remote_keys :: "grab_env \<Rightarrow> string \<Rightarrow> rkey list \<Rightarrow> grab \<Rightarrow> key_event list \<times> grab" where
  "release_remote_keys e mode order g = release_all e mode (entries order g) (g\<lparr>to_release := (\<lambda>k. None)\<rparr>)"

text \<open>The loop that grabs the keyboard passes on what is no key, and drops a key that it does not know.\<close>

definition grab_event :: "grab_env \<Rightarrow> string \<Rightarrow> local_event \<Rightarrow> grab \<Rightarrow> key_event list \<times> grab" where
  "grab_event e mode ev g =
     (case event_key ev of Some (RKey _) \<Rightarrow> process_event e mode ev None g | _ \<Rightarrow> ([], g))"

subsection \<open>The session\<close>

text \<open>The mode that a session asks for, as far as the peer has it.\<close>

definition keyboard_mode_from_str :: "string \<Rightarrow> keyboard_mode option" where
  "keyboard_mode_from_str s =
     map_of [(''legacy'', Legacy), (''map'', Map), (''translate'', Translate), (''auto'', Auto)] s"

definition keyboard_mode_name :: "keyboard_mode \<Rightarrow> string" where
  "keyboard_mode_name m =
     (case m of Legacy \<Rightarrow> ''legacy'' | Map \<Rightarrow> ''map'' | Translate \<Rightarrow> ''translate'' | Auto \<Rightarrow> ''auto'')"

definition resolve_auto_keyboard_mode :: "int \<Rightarrow> string \<Rightarrow> string" where
  "resolve_auto_keyboard_mode version platform =
     (if is_keyboard_mode_supported lower Map version platform then keyboard_mode_name Map else keyboard_mode_name Legacy)"

definition get_keyboard_mode :: "string \<Rightarrow> int \<Rightarrow> string \<Rightarrow> string" where
  "get_keyboard_mode mode version platform =
     (case keyboard_mode_from_str mode of
        Some m \<Rightarrow>
          if m \<noteq> Auto \<and> is_keyboard_mode_supported lower m version platform then keyboard_mode_name m
          else resolve_auto_keyboard_mode version platform
      | None \<Rightarrow> resolve_auto_keyboard_mode version platform)"

text \<open>
  Control and the meta key change places when the user asks for it.  A number that is no control key counts as 0, a
  key code that the crate does not know too.
\<close>

definition enum_value_or_default :: "int \<Rightarrow> int" where
  "enum_value_or_default ck = (if 0 \<le> ck \<and> ck \<le> 79 \<or> ck = 100 \<or> ck = 101 then ck else 0)"

definition swap_control_key :: "int \<Rightarrow> int" where
  "swap_control_key v =
     (let ck = enum_value_or_default v
      in if ck = ck_Control then ck_Meta else if ck = ck_Meta then ck_Control
         else if ck = ck_RControl then ck_Meta else if ck = ck_RWin then ck_Control else ck)"

definition swap_rkey :: "rkey \<Rightarrow> rkey" where
  "swap_rkey k =
     (if k = RKey ''ControlLeft'' then RKey ''MetaLeft'' else if k = RKey ''MetaLeft'' then RKey ''ControlLeft''
      else if k = RKey ''ControlRight'' then RKey ''MetaLeft'' else if k = RKey ''MetaRight'' then RKey ''ControlLeft''
      else k)"

definition swap_code :: "grab_env \<Rightarrow> nat \<Rightarrow> nat" where
  "swap_code e code =
     (let peer = peer_of (peer_name e);
          key = (if peer = ''windows'' then win_code e (swap_rkey (win_key e code))
                 else if peer = ''macos'' then macos_code e (swap_rkey (macos_key e code))
                 else linux_code e (swap_rkey (linux_key e code)))
      in case key of Some c \<Rightarrow> c | None \<Rightarrow> 0)"

definition swap_modifier_key :: "grab_env \<Rightarrow> bool \<Rightarrow> key_event \<Rightarrow> key_event" where
  "swap_modifier_key e allow_swap_key evt =
     (if \<not> allow_swap_key then evt
      else evt\<lparr>ev_union := (case ev_union evt of
                  ControlKey ck \<Rightarrow> ControlKey (swap_control_key ck)
                | Chr code \<Rightarrow> if code \<noteq> 0 then Chr (swap_code e code) else Chr code
                | u \<Rightarrow> u),
               ev_modifiers := map swap_control_key (ev_modifiers evt)\<rparr>)"

definition send_key_event :: "grab_env \<Rightarrow> bool \<Rightarrow> key_event \<Rightarrow> key_event" where
  "send_key_event e allow_swap_key evt = swap_modifier_key e allow_swap_key evt"

subsection \<open>The mouse\<close>

definition swap_modifier_mouse :: "bool \<Rightarrow> mouse_event \<Rightarrow> mouse_event" where
  "swap_modifier_mouse allow_swap_key me =
     (if allow_swap_key then me\<lparr>me_modifiers := map swap_control_key (me_modifiers me)\<rparr> else me)"

text \<open>\<^verbatim>\<open>send_mouse\<close> of \<^verbatim>\<open>client.rs\<close>, and the one of a session, which looks at the keyboard and at the options first.\<close>

definition client_send_mouse :: "bool \<Rightarrow> int \<Rightarrow> int \<Rightarrow> int \<Rightarrow> bool \<times> bool \<times> bool \<times> bool \<Rightarrow> mouse_event" where
  "client_send_mouse allow_swap_key buttons x y = (\<lambda>(alt, ctrl, shift, command).
     swap_modifier_mouse allow_swap_key
       \<lparr>me_mask = buttons, me_x = x, me_y = y,
        me_modifiers = (if alt then [ck_Alt] else []) @ (if shift then [ck_Shift] else []) @
          (if ctrl then [ck_Control] else []) @ (if command then [ck_Meta] else [])\<rparr>)"

definition get_scroll_xy :: "bool \<Rightarrow> int \<times> int \<Rightarrow> int \<times> int" where
  "get_scroll_xy reverse xy = (if reverse then (neg_i32 (fst xy), neg_i32 (snd xy)) else xy)"

text \<open>The bits 3 and 4 of a mask are the left and the right button.\<close>

definition swap_buttons :: "bool \<Rightarrow> int \<Rightarrow> int" where
  "swap_buttons swap_lr buttons =
     (if bit buttons 3 \<noteq> bit buttons 4 \<and> swap_lr then
        (if bit buttons 3 then (buttons AND NOT 8) OR 16 else (buttons AND NOT 16) OR 8)
      else buttons)"

record mouse_options =
  allow_swap :: bool
  reverse_wheel :: bool
  swap_left_right :: bool

definition session_send_mouse ::
  "mouse_options \<Rightarrow> int \<Rightarrow> int \<Rightarrow> int \<Rightarrow> bool \<times> bool \<times> bool \<times> bool \<Rightarrow> grab \<Rightarrow> mouse_event" where
  "session_send_mouse opts buttons x y mods g =
     (let (x1, y1) = (if buttons = MOUSE_TYPE_WHEEL \<or> buttons = MOUSE_TYPE_TRACKPAD
                      then get_scroll_xy (reverse_wheel opts) (x, y) else (x, y))
      in client_send_mouse (allow_swap opts) (swap_buttons (swap_left_right opts) buttons) x1 y1
           (get_modifiers_state g mods))"

subsection \<open>The two tables agree\<close>

text \<open>
  The keys of the table of modifiers are the eight modifier keys, and one is down there just when it is among the keys that
  are to be released.
\<close>

definition tables_agree :: "grab \<Rightarrow> bool" where
  "tables_agree g \<longleftrightarrow> (\<forall>k. modifiers_state g k =
     (if k \<in> set modifier_keys then Some (to_release g k \<noteq> None) else None))"

lemma tables_agree_initial: "tables_agree initial_grab"
  unfolding tables_agree_def initial_grab_def modifier_keys_def by simp

text \<open>Which keys a step leaves to be released.\<close>

lemma process_event_to_release:
  assumes "process_event e mode ev lm g = (evs, g')"
  shows "to_release g' = (if is_long_press ev g then to_release g else
    case event_type ev of
      KeyPress k \<Rightarrow> (to_release g)(k \<mapsto> ev) | KeyRelease k \<Rightarrow> (to_release g)(k := None) | OtherEvent \<Rightarrow> to_release g)"
  using assms
  by (auto simp: process_event_def event_to_key_events_def update_to_release_def update_modifiers_state_def Let_def
      split: if_splits event_kind.splits prod.splits)

lemma process_event_modifiers:
  assumes "process_event e mode ev lm g = (evs, g')"
  shows "modifiers_state g' k =
    (case modifiers_state g k of None \<Rightarrow> None
     | Some b \<Rightarrow> Some (if event_type ev = KeyPress k then True else if event_type ev = KeyRelease k then False else b))"
  using assms
  by (auto simp: process_event_def is_long_press_def event_to_key_events_def update_to_release_def
      update_modifiers_state_def Let_def split: if_splits event_kind.splits prod.splits option.splits)

end
