(* ===== verification/Client_Input.thy ===== *)
theory Client_Input
  imports Client_Keyboard Session_Input
begin

text \<open>
  Input from end to end: what the controlling side makes of local events (\<open>Client_Keyboard\<close>), sent to a connection
  and through it to the keyboard of the controlled side (\<open>Session_Input\<close>).  The relation \<open>typing\<close> holds the runs of
  the controlling side; \<open>effect\<close> says what a message can do to the set of held keys.
\<close>

subsection \<open>Text and passwords\<close>

definition input_string :: "utext \<Rightarrow> peer_input" where
  "input_string v = KeyMsg (new_event\<lparr>ev_union := Seq v\<rparr>)"

abbreviation (input) "LEFT_DOWN \<equiv> 9 :: int"
abbreviation (input) "LEFT_UP \<equiv> 10 :: int"
abbreviation (input) "RIGHT_DOWN \<equiv> 17 :: int"
abbreviation (input) "RIGHT_UP \<equiv> 18 :: int"

definition activate_os :: "bool \<Rightarrow> bool \<Rightarrow> peer_input list" where
  "activate_os allow_swap_key send_left_click =
     map (\<lambda>(m, x, y). MouseMsg (client_send_mouse allow_swap_key m x y (False, False, False, False)))
       [(LEFT_UP, 0, 0), (0, 0, 0), (0, 3, 3),
        (if send_left_click then LEFT_DOWN else RIGHT_DOWN, 0, 0),
        (if send_left_click then LEFT_UP else RIGHT_UP, 0, 0)]"

definition input_os_password :: "bool \<Rightarrow> utext \<Rightarrow> bool \<Rightarrow> peer_input list" where
  "input_os_password allow_swap_key p activate =
     (if activate then activate_os allow_swap_key (p \<noteq> []) else []) @
     (if p = [] then []
      else [KeyMsg (new_event\<lparr>ev_press := True, ev_union := Seq p\<rparr>),
            KeyMsg (new_event\<lparr>ev_press := True, ev_union := ControlKey ck_Return\<rparr>)])"

subsection \<open>What a message does to the held keys\<close>

definition effect :: "input_env \<Rightarrow> key_event \<Rightarrow> key set \<Rightarrow> key set" where
  "effect ie evt H =
     (case ev_union evt of
        Chr c \<Rightarrow> if ev_down evt then insert (code_key ie c) H else H - {code_key ie c}
      | _ \<Rightarrow> H)"

lemma effect_mono: "H \<subseteq> H' \<Longrightarrow> effect ie evt H \<subseteq> effect ie evt H'"
  by (auto simp: effect_def split: key_union.split)

lemma effects_mono: "H \<subseteq> H' \<Longrightarrow> fold (effect ie) evts H \<subseteq> fold (effect ie) evts H'"
  by (induction evts arbitrary: H H') (simp_all add: effect_mono)

lemma effect_press [simp]: "effect ie (evt\<lparr>ev_press := b\<rparr>) = effect ie evt"
  by (rule ext) (simp add: effect_def split: key_union.split)

lemma handle_mode_effect:
  assumes "ev_mode evt \<in> {1, 2}" and "ev_mode evt = 2 \<or> (\<exists>c. ev_union evt = Chr c)"
  shows "held (kbd (handle_mode ie t evt st)) \<subseteq> effect ie evt (held (kbd st))"
proof -
  have clicks: "held (fold (\<lambda>c. key_click ie (KLayout c)) s kb) \<subseteq> held kb" for s kb
    by (rule held_fold_shrinks) (auto simp: held_simps)
  show ?thesis
    using assms
    by (auto simp: handle_mode_def map_keyboard_mode_def translate_keyboard_mode_def sim_rdev_rawkey_position_def
        effect_def ev_chr_def held_simps Let_def dest!: subsetD [OF clicks] split: key_union.splits if_splits)
qed

lemma handle_key_effect:
  assumes "ev_mode evt \<in> {1, 2}" and "ev_mode evt = 2 \<or> (\<exists>c. ev_union evt = Chr c)" and "\<not> exiting st"
  shows "held (kbd (handle_key ie t evt st)) \<subseteq> effect ie evt (held (kbd st))"
proof (cases "lock_sync ie evt")
  case None
  with assms handle_mode_effect [OF assms(1,2)] show ?thesis by (simp add: handle_key_def)
next
  case (Some n)
  obtain h kb where h: "lock_modes_new ie evt n (kbd st) = (h, kb)" by (cases "lock_modes_new ie evt n (kbd st)")
  let ?st = "handle_mode ie t evt (st\<lparr>kbd := kb\<rparr>)"
  have "held (kbd (handle_key ie t evt st)) \<subseteq> held (kbd ?st)"
    using Some h assms(3) by (simp add: handle_key_def lock_modes_held(2))
  also have "\<dots> \<subseteq> effect ie evt (held kb)" using handle_mode_effect [OF assms(1,2), of ie t "st\<lparr>kbd := kb\<rparr>"] by simp
  also have "\<dots> \<subseteq> effect ie evt (held (kbd st))" by (rule effect_mono) (rule lock_modes_held(1) [OF h])
  finally show ?thesis .
qed

text \<open>A message that the key went down may be followed by the release, which the connection makes up.\<close>

lemma press_and_release_effect:
  assumes "ev_mode evt \<in> {1, 2}" and "ev_mode evt = 2 \<or> (\<exists>c. ev_union evt = Chr c)" and "\<not> exiting st"
    and "press \<longrightarrow> ev_down evt"
  shows "held (kbd (press_and_release ie t evt press st)) \<subseteq> effect ie evt (held (kbd st))"
proof (cases press)
  case False
  with assms handle_key_effect [of "evt\<lparr>ev_press := False\<rparr>" st ie t] show ?thesis
    by (simp add: press_and_release_def)
next
  case True
  let ?down = "evt\<lparr>ev_press := False, ev_down := True\<rparr>" and ?up = "evt\<lparr>ev_press := False, ev_down := False\<rparr>"
  have "held (kbd (handle_key ie t ?up (handle_key ie t ?down st))) \<subseteq>
      effect ie ?up (held (kbd (handle_key ie t ?down st)))"
    using assms by (intro handle_key_effect) auto
  also have "\<dots> \<subseteq> effect ie ?up (effect ie ?down (held (kbd st)))"
    using assms by (intro effect_mono handle_key_effect) auto
  also have "\<dots> \<subseteq> effect ie evt (held (kbd st))"
    using True assms(4) by (auto simp: effect_def split: key_union.split)
  finally show ?thesis using True by (simp add: press_and_release_def Let_def)
qed

lemma press_and_release_exiting [simp]: "exiting (press_and_release ie t evt press st) = exiting st"
  by (simp add: press_and_release_def Let_def)

text \<open>The messages of map and of translate mode that the controlling side sends.\<close>

definition plain_message :: "key_event \<Rightarrow> bool" where
  "plain_message evt \<longleftrightarrow> ev_mode evt \<in> {1, 2} \<and> (ev_mode evt = 2 \<or> (\<exists>c. ev_union evt = Chr c)) \<and> \<not> ev_press evt"

lemma peer_step_effect:
  assumes "plain_message evt" and "\<not> exiting (fst (inp th))" and "may_control (ctl s)"
    and "peer_step ie t (KeyMsg evt) (s, th) = (outs, s', th')"
  shows "held (kbd (fst (inp th'))) \<subseteq> effect ie evt (held (kbd (fst (inp th)))) \<and>
    \<not> exiting (fst (inp th')) \<and> ctl s' = ctl s"
proof -
  obtain press where msg: "fst (on_input ie (KeyMsg evt) s) = [InKey evt press]" and down: "press \<longrightarrow> ev_down evt"
    using assms(1,3)
    by (cases "is_press ie evt"; cases "ev_union evt")
      (auto simp: on_input_def on_key_event_def may_control_def peer_keyboard_enabled_def Let_def is_press_def
        plain_message_def)
  have "s' = snd (on_input ie (KeyMsg evt) s)" using assms(4) by (auto simp: peer_step_def split: prod.splits)
  then have "ctl s' = ctl s" by simp
  moreover have "fst (inp th') = press_and_release ie t evt press (fst (inp th))"
    using assms(4) msg by (auto simp: peer_step_def handle_input_def split: prod.splits)
  ultimately show ?thesis
    using press_and_release_effect [of evt "fst (inp th)" press ie t] assms(1,2) down by (auto simp: plain_message_def)
qed

text \<open>Messages with the times at which they arrive.\<close>

definition arrive :: "(nat \<times> key_event) list \<Rightarrow> (nat \<times> peer_input) list" where
  "arrive evts = map (\<lambda>(t, evt). (t, KeyMsg evt)) evts"

lemma peer_run_effect:
  assumes "\<forall>evt \<in> set (map snd evts). plain_message evt" and "\<not> exiting (fst (inp th))" and "may_control (ctl s)"
    and "peer_run ie (arrive evts) (s, th) = (s', th')"
  shows "held (kbd (fst (inp th'))) \<subseteq> fold (effect ie) (map snd evts) (held (kbd (fst (inp th))))"
  using assms
proof (induction evts arbitrary: s th)
  case (Cons tm evts)
  obtain t evt where tm: "tm = (t, evt)" by (cases tm)
  obtain outs s1 th1 where step: "peer_step ie t (KeyMsg evt) (s, th) = (outs, s1, th1)"
    by (cases "peer_step ie t (KeyMsg evt) (s, th)") auto
  have one: "held (kbd (fst (inp th1))) \<subseteq> effect ie evt (held (kbd (fst (inp th))))" "\<not> exiting (fst (inp th1))"
      "ctl s1 = ctl s"
    using peer_step_effect [OF _ Cons.prems(2,3) step] Cons.prems(1) tm by auto
  have "held (kbd (fst (inp th'))) \<subseteq> fold (effect ie) (map snd evts) (held (kbd (fst (inp th1))))"
    using Cons.IH [of th1 s1] Cons.prems step tm one by (simp add: arrive_def)
  also have "\<dots> \<subseteq> fold (effect ie) (map snd evts) (effect ie evt (held (kbd (fst (inp th)))))"
    by (rule effects_mono) (rule one(1))
  finally show ?case using tm by simp
qed (simp add: arrive_def)

subsection \<open>Runs of the controlling side\<close>

text \<open>
  An event of a key has the key code \<open>pc\<close> that belongs to the key.  In translate mode a key that only makes an accent
  and the one that chooses the third level send nothing.
\<close>

definition key_coded :: "(rkey \<Rightarrow> nat) \<Rightarrow> local_event \<Rightarrow> bool" where
  "key_coded pc ev \<longleftrightarrow> (case event_key ev of Some k \<Rightarrow> position_code ev = pc k | None \<Rightarrow> True)"

definition mode_passes :: "string \<Rightarrow> local_event \<Rightarrow> bool" where
  "mode_passes mode ev \<longleftrightarrow> get_keyboard_mode_enum mode = 1 \<or>
     get_keyboard_mode_enum mode = 2 \<and> \<not> is_dead_event ev \<and> \<not> is_altgr ev"

definition to_be_released :: "grab \<Rightarrow> rkey set" where "to_be_released g = {k. to_release g k \<noteq> None}"

definition enumerates :: "rkey list \<Rightarrow> grab \<Rightarrow> bool" where
  "enumerates order g \<longleftrightarrow> distinct order \<and> set order = to_be_released g"

text \<open>
  The messages of a run, which the session has still to swap.  The state \<open>l\<close> of the local modifiers and lock modes may
  change from one event to the next, and so may the mode.
\<close>

inductive typing :: "grab_env \<Rightarrow> (rkey \<Rightarrow> nat) \<Rightarrow> grab \<Rightarrow> key_event list \<Rightarrow> grab \<Rightarrow> bool" for e pc g0 where
  start: "typing e pc g0 [] g0"
| key: "typing e pc g0 os g \<Longrightarrow> key_coded pc ev \<Longrightarrow> mode_passes mode ev \<Longrightarrow>
    process_event (e\<lparr>local_state := l\<rparr>) mode ev lm g = (os', g') \<Longrightarrow> typing e pc g0 (os @ os') g'"
| leave: "typing e pc g0 os g \<Longrightarrow> enumerates order g \<Longrightarrow>
    (\<And>k ev. to_release g k = Some ev \<Longrightarrow> mode_passes mode ev) \<Longrightarrow>
    release_remote_keys (e\<lparr>local_state := l\<rparr>) mode order g = (os', g') \<Longrightarrow> typing e pc g0 (os @ os') g'"

inductive_cases typingE: "typing e pc g0 os g"

text \<open>The key code that the peer is sent for a key, and the keys of the peer for a set of keys.\<close>

definition code_sent :: "grab_env \<Rightarrow> bool \<Rightarrow> (rkey \<Rightarrow> nat) \<Rightarrow> rkey \<Rightarrow> nat option" where
  "code_sent e sw pc k =
     map_option (\<lambda>c. if sw \<and> c \<noteq> 0 then swap_code e c else c) (peer_keycode e (peer_of (peer_name e)) (pc k))"

definition peer_keys :: "input_env \<Rightarrow> grab_env \<Rightarrow> bool \<Rightarrow> (rkey \<Rightarrow> nat) \<Rightarrow> rkey set \<Rightarrow> key set" where
  "peer_keys ie e sw pc K = {code_key ie c | c k. k \<in> K \<and> code_sent e sw pc k = Some c}"

lemma peer_keys_simps [simp]:
  "peer_keys ie e sw pc {} = {}"
  "peer_keys ie e sw pc (insert k K) =
    (case code_sent e sw pc k of Some c \<Rightarrow> {code_key ie c} | None \<Rightarrow> {}) \<union> peer_keys ie e sw pc K"
  by (auto simp: peer_keys_def split: option.split)

lemma peer_keys_Un: "peer_keys ie e sw pc (A \<union> B) = peer_keys ie e sw pc A \<union> peer_keys ie e sw pc B"
  by (auto simp: peer_keys_def)

lemma peer_keycode_local [simp]: "peer_keycode (e\<lparr>local_state := l\<rparr>) = peer_keycode e"
  by (intro ext) (simp add: peer_keycode_def)

lemma modifiers_kept:
  "ev_union (parse_add_lock_modes_modifiers m n l evt) = ev_union evt"
  "ev_down (parse_add_lock_modes_modifiers m n l evt) = ev_down evt"
  "ev_press (parse_add_lock_modes_modifiers m n l evt) = ev_press evt"
  "ev_mode (parse_add_lock_modes_modifiers m n l evt) = ev_mode evt"
  "ev_union (add_lock_modes_modifiers e n l evt) = ev_union evt"
  "ev_down (add_lock_modes_modifiers e n l evt) = ev_down evt"
  "ev_press (add_lock_modes_modifiers e n l evt) = ev_press evt"
  "ev_mode (add_lock_modes_modifiers e n l evt) = ev_mode evt"
  by (simp_all add: parse_add_lock_modes_modifiers_def add_lock_modes_modifiers_def)

lemma map_events_key:
  "map_keyboard_events e peer ev evt =
    (case event_key ev of
       Some k \<Rightarrow> (case peer_keycode e peer (position_code ev) of
                   Some c \<Rightarrow> [evt\<lparr>ev_down := is_key_press ev, ev_union := Chr c\<rparr>] | None \<Rightarrow> [])
     | None \<Rightarrow> [])"
  by (simp add: map_keyboard_events_def event_key_def is_key_press_def split: event_kind.split option.split)

text \<open>What one event sends in these modes: nothing, a text when a key goes down, or the code of the key.\<close>

definition event_message :: "grab_env \<Rightarrow> (rkey \<Rightarrow> nat) \<Rightarrow> local_event \<Rightarrow> key_event \<Rightarrow> bool" where
  "event_message e pc ev evt \<longleftrightarrow> ev_mode evt \<in> {1, 2} \<and> \<not> ev_press evt \<and>
     (is_key_press ev \<and> ev_mode evt = 2 \<and> (\<exists>n. ev_union evt = Seq n) \<or>
      (\<exists>k c. event_key ev = Some k \<and> peer_keycode e (peer_of (peer_name e)) (pc k) = Some c \<and>
         ev_union evt = Chr c \<and> ev_down evt = is_key_press ev))"

lemma raw_messages:
  assumes "key_coded pc ev" and "peer = peer_of (peer_name e)"
  shows "\<forall>m \<in> set (map_keyboard_events e peer ev (new_event\<lparr>ev_mode := 1\<rparr>)). event_message e pc ev m"
    and "\<forall>m \<in> set (map_keyboard_events e peer ev (new_event\<lparr>ev_mode := 2\<rparr>)). event_message e pc ev m"
    and "\<forall>m \<in> set (translate_keyboard_events e peer ev (new_event\<lparr>ev_mode := 2\<rparr>)). event_message e pc ev m"
proof -
  show one: "\<forall>m \<in> set (map_keyboard_events e peer ev (new_event\<lparr>ev_mode := 1\<rparr>)). event_message e pc ev m"
    and two: "\<forall>m \<in> set (map_keyboard_events e peer ev (new_event\<lparr>ev_mode := 2\<rparr>)). event_message e pc ev m"
    using assms by (auto simp: map_events_key event_message_def key_coded_def new_event_def split: option.splits)
  show "\<forall>m \<in> set (translate_keyboard_events e peer ev (new_event\<lparr>ev_mode := 2\<rparr>)). event_message e pc ev m"
    using two
    by (auto simp: translate_keyboard_events_def try_fill_unicode_def event_message_def new_event_def Let_def
        split: option.splits if_splits)
qed

lemma raw_released:
  assumes "key_coded pc ev" and "event_type ev = KeyRelease k" and "peer_keycode e peer (pc k) = Some c"
  shows "map_keyboard_events e peer ev evt = [evt\<lparr>ev_down := False, ev_union := Chr c\<rparr>]"
    and "\<not> is_dead_event ev \<Longrightarrow> \<not> is_altgr ev \<Longrightarrow>
      translate_keyboard_events e peer ev evt = [evt\<lparr>ev_down := False, ev_union := Chr c\<rparr>]"
  using assms by (simp_all add: map_events_key key_coded_def event_key_def is_key_press_def translate_keyboard_events_def)

definition add_locks :: "grab_env \<Rightarrow> local_event \<Rightarrow> int option \<Rightarrow> key_event \<Rightarrow> key_event" where
  "add_locks e ev lm =
     (case lm of Some m \<Rightarrow> parse_add_lock_modes_modifiers m (is_numpad_key ev) (is_letter_key_4_lock_modes ev)
      | None \<Rightarrow> add_lock_modes_modifiers e (is_numpad_key ev) (is_letter_key_4_lock_modes ev))"

lemma add_locks_kept [simp]:
  "ev_union (add_locks e ev lm evt) = ev_union evt" "ev_down (add_locks e ev lm evt) = ev_down evt"
  "ev_press (add_locks e ev lm evt) = ev_press evt" "ev_mode (add_locks e ev lm evt) = ev_mode evt"
  by (simp_all add: add_locks_def modifiers_kept split: option.split)

text \<open>The events of a step, before the lock modes are added.\<close>

definition raw_events :: "grab_env \<Rightarrow> string \<Rightarrow> local_event \<Rightarrow> key_event list" where
  "raw_events e mode ev =
     (if get_keyboard_mode_enum mode = 1
      then map_keyboard_events e (peer_of (peer_name e)) ev (new_event\<lparr>ev_mode := 1\<rparr>)
      else translate_keyboard_events e (peer_of (peer_name e)) ev (new_event\<lparr>ev_mode := 2\<rparr>))"

lemma map_events_local [simp]: "map_keyboard_events (e\<lparr>local_state := l\<rparr>) = map_keyboard_events e"
  by (intro ext) (simp add: map_events_key split: option.split)

lemma raw_events_local [simp]: "raw_events (e\<lparr>local_state := l\<rparr>) = raw_events e"
  by (intro ext) (simp add: raw_events_def translate_keyboard_events_def Let_def)

lemma raw_events_messages: "key_coded pc ev \<Longrightarrow> \<forall>m \<in> set (raw_events e mode ev). event_message e pc ev m"
  using raw_messages [of pc ev _ e] by (simp add: raw_events_def)

lemma raw_events_released:
  assumes "key_coded pc ev" and "event_type ev = KeyRelease k" and "mode_passes mode ev"
    and "peer_keycode e (peer_of (peer_name e)) (pc k) = Some c"
  shows "\<exists>m. raw_events e mode ev = [m] \<and> ev_union m = Chr c \<and> \<not> ev_down m"
  using assms raw_released [OF assms(1,2,4)] by (auto simp: raw_events_def mode_passes_def)

lemma process_event_sends:
  assumes "process_event e mode ev lm g = (os, g')" and "mode_passes mode ev" and "\<not> is_long_press ev g"
  shows "os = map id (raw_events e mode ev) \<or> os = map (add_locks e ev lm) (raw_events e mode ev)"
  using assms
  by (auto simp: process_event_def event_to_key_events_def mode_passes_def raw_events_def add_locks_def Let_def
      split: if_splits)

lemma event_message_locks [simp]: "event_message e pc ev (add_locks e' ev' lm m) = event_message e pc ev m"
  by (simp add: event_message_def)

lemma process_event_messages:
  assumes "process_event (e\<lparr>local_state := l\<rparr>) mode ev lm g = (os, g')" and "mode_passes mode ev" and "key_coded pc ev"
  shows "\<forall>m \<in> set os. event_message e pc ev m"
proof (cases "is_long_press ev g")
  case True
  with assms(1) show ?thesis by (simp add: process_event_def)
next
  case False
  from process_event_sends [OF assms(1,2) False] raw_events_messages [OF assms(3), of e mode] show ?thesis by auto
qed

lemma process_event_released:
  assumes "process_event (e\<lparr>local_state := l\<rparr>) mode ev lm g = (os, g')" and "mode_passes mode ev" and "key_coded pc ev"
    and "event_type ev = KeyRelease k" and "peer_keycode e (peer_of (peer_name e)) (pc k) = Some c"
  shows "\<exists>m. os = [m] \<and> ev_union m = Chr c \<and> \<not> ev_down m"
proof -
  have "\<not> is_long_press ev g" using assms(4) by (simp add: is_long_press_def)
  from process_event_sends [OF assms(1,2) this] raw_events_released [OF assms(3,4,2,5)] show ?thesis by auto
qed

subsection \<open>From the controlling side to the held keys\<close>

lemma sent_plain:
  assumes "event_message e pc ev m" shows "plain_message (send_key_event e' sw m)"
proof (cases "ev_union m")
  case (Chr c)
  with assms show ?thesis
    by (cases "c = 0") (auto simp: event_message_def plain_message_def send_key_event_def swap_modifier_key_def)
qed (use assms in \<open>auto simp: event_message_def plain_message_def send_key_event_def swap_modifier_key_def\<close>)

lemma sent_effect:
  "effect ie (send_key_event e sw m) H =
    (case ev_union m of
       Chr c \<Rightarrow> (let k = code_key ie (if sw \<and> c \<noteq> 0 then swap_code e c else c)
                 in if ev_down m then insert k H else H - {k})
     | _ \<Rightarrow> H)"
  by (simp add: effect_def send_key_event_def swap_modifier_key_def Let_def split: key_union.split)

lemma pressed_effect:
  assumes "event_message e pc ev m" and "event_key ev = Some k" and "is_key_press ev"
  shows "effect ie (send_key_event e sw m) H \<subseteq> H \<union> peer_keys ie e sw pc {k}"
  using assms by (auto simp: event_message_def sent_effect code_sent_def Let_def)

lemma no_key_effect:
  assumes "event_message e pc ev m" and "event_key ev = None" shows False
  using assms by (auto simp: event_message_def is_key_press_def event_key_def split: event_kind.splits)

text \<open>One event: what may be held afterwards, beside \<open>X\<close>, belongs to a key that is to be released.\<close>

lemma process_event_effect:
  assumes "process_event (e\<lparr>local_state := l\<rparr>) mode ev lm g = (os, g')" and "mode_passes mode ev" and "key_coded pc ev"
    and "H \<subseteq> X \<union> peer_keys ie e sw pc (to_be_released g \<union> (case event_type ev of KeyRelease k \<Rightarrow> {k} | _ \<Rightarrow> {}))"
  shows "fold (effect ie) (map (send_key_event e sw) os) H \<subseteq> X \<union> peer_keys ie e sw pc (to_be_released g')"
proof (cases "is_long_press ev g")
  case True
  then obtain k where "event_type ev = KeyPress k" by (auto simp: is_long_press_def split: event_kind.splits)
  with True assms(1,4) show ?thesis by (simp add: process_event_def)
next
  case False
  note table = process_event_to_release [OF assms(1)]
  note messages = process_event_messages [OF assms(1-3)]
  show ?thesis
  proof (cases "event_type ev")
    case (KeyPress k)
    with table False have "to_be_released g' = insert k (to_be_released g)" by (auto simp: to_be_released_def)
    moreover have "fold (effect ie) (map (send_key_event e sw) ms) H' \<subseteq> H' \<union> peer_keys ie e sw pc {k}"
      if "\<forall>m \<in> set ms. event_message e pc ev m" for ms H'
      using that
    proof (induction ms arbitrary: H')
      case (Cons m ms)
      from Cons.prems pressed_effect [of e pc ev m k ie sw H'] KeyPress
      have "effect ie (send_key_event e sw m) H' \<subseteq> H' \<union> peer_keys ie e sw pc {k}"
        by (simp add: event_key_def is_key_press_def)
      with Cons.IH [of "effect ie (send_key_event e sw m) H'"] Cons.prems show ?case by auto
    qed simp
    ultimately show ?thesis using messages assms(4) KeyPress by fastforce
  next
    case (KeyRelease k)
    with table have g': "to_be_released g' = to_be_released g - {k}" by (auto simp: to_be_released_def is_long_press_def)
    have split: "peer_keys ie e sw pc (to_be_released g \<union> {k}) \<subseteq>
        peer_keys ie e sw pc {k} \<union> peer_keys ie e sw pc (to_be_released g')"
      by (auto simp: peer_keys_def g')
    show ?thesis
    proof (cases "peer_keycode e (peer_of (peer_name e)) (pc k)")
      case None
      then have "os = []" using messages KeyRelease
        by (cases os) (auto simp: event_message_def event_key_def is_key_press_def)
      with None split assms(4) KeyRelease show ?thesis by (auto simp: code_sent_def)
    next
      case (Some c)
      from process_event_released [OF assms(1-3) KeyRelease Some] obtain m where
        m: "os = [m]" "ev_union m = Chr c" "\<not> ev_down m" by auto
      define K where "K = code_key ie (if sw \<and> c \<noteq> 0 then swap_code e c else c)"
      have "fold (effect ie) (map (send_key_event e sw) os) H = H - {K}" using m by (simp add: sent_effect K_def)
      moreover have "peer_keys ie e sw pc {k} = {K}" using Some by (simp add: code_sent_def K_def)
      ultimately show ?thesis using split assms(4) KeyRelease by auto
    qed
  next
    case OtherEvent
    then have "os = []" using messages no_key_effect [of e pc ev]
      by (cases os) (auto simp: event_key_def)
    with OtherEvent table assms(4) False show ?thesis by (simp add: to_be_released_def)
  qed
qed

lemma map_filter_Cons:
  "List.map_filter f (x # xs) = (case f x of Some y \<Rightarrow> y # List.map_filter f xs | None \<Rightarrow> List.map_filter f xs)"
  by (simp add: map_filter_simps)

lemma entries_set: "set (entries order g) = {(k, ev). k \<in> set order \<and> to_release g k = Some ev}"
  by (force simp: entries_def List.map_filter_def)

lemma released_key_coded: "key_coded pc ev \<Longrightarrow> event_key ev = Some k \<Longrightarrow> key_coded pc (ev\<lparr>event_type := KeyRelease k\<rparr>)"
  "key_coded pc ev \<Longrightarrow> event_key ev = Some k \<Longrightarrow> key_coded pc (ev\<lparr>event_type := KeyPress k\<rparr>)"
  "mode_passes mode (ev\<lparr>event_type := t\<rparr>) = mode_passes mode ev"
  by (auto simp: key_coded_def event_key_def mode_passes_def is_dead_event_def is_altgr_def)

lemma released_to_be_released:
  assumes "process_event e mode ev lm g = (os, g')" and "event_type ev = KeyRelease k"
  shows "to_be_released g' = to_be_released g - {k}"
  using process_event_to_release [OF assms(1)] assms(2) by (auto simp: to_be_released_def is_long_press_def)

lemma release_remote_key_effect:
  assumes "release_remote_key (e\<lparr>local_state := l\<rparr>) mode (k, ev) g = (os, g')"
    and "mode_passes mode ev" and "key_coded pc ev" and "event_key ev = Some k"
    and "H \<subseteq> X \<union> peer_keys ie e sw pc (insert k (to_be_released g))"
  shows "fold (effect ie) (map (send_key_event e sw) os) H \<subseteq> X \<union> peer_keys ie e sw pc (to_be_released g')"
proof -
  let ?e = "e\<lparr>local_state := l\<rparr>" and ?up = "ev\<lparr>event_type := KeyRelease k\<rparr>" and ?down = "ev\<lparr>event_type := KeyPress k\<rparr>"
  note coded = released_key_coded(1,2) [OF assms(3,4)]
  have passes: "mode_passes mode ?up" "mode_passes mode ?down" using assms(2) by (simp_all add: released_key_coded(3))
  have step: "fold (effect ie) (map (send_key_event e sw) o1) H' \<subseteq> X \<union> peer_keys ie e sw pc (to_be_released g2)"
    if "process_event ?e mode ?up None g1 = (o1, g2)"
      and "H' \<subseteq> X \<union> peer_keys ie e sw pc (insert k (to_be_released g1))" for o1 g1 g2 H'
    using process_event_effect [OF that(1) passes(1) coded(1), where H = H' and X = X] that(2) by simp
  obtain o1 g1 where 1: "process_event ?e mode ?up None g = (o1, g1)" by (cases "process_event ?e mode ?up None g")
  from step [OF 1 assms(5)]
  have one: "fold (effect ie) (map (send_key_event e sw) o1) H \<subseteq> X \<union> peer_keys ie e sw pc (to_be_released g1)" .
  show ?thesis
  proof (cases "k = RKey ''Alt'' \<or> k = RKey ''AltGr''")
    case False
    with assms(1) 1 one show ?thesis by (simp add: release_remote_key_def Let_def)
  next
    case True
    obtain o2 g2 where 2: "process_event ?e mode ?down None g1 = (o2, g2)" by (cases "process_event ?e mode ?down None g1")
    obtain o3 g3 where 3: "process_event ?e mode ?up None g2 = (o3, g3)" by (cases "process_event ?e mode ?up None g2")
    have "fold (effect ie) (map (send_key_event e sw) (o1 @ o2)) H \<subseteq> X \<union> peer_keys ie e sw pc (to_be_released g2)"
      using process_event_effect [OF 2 passes(2) coded(2), where sw = sw and ie = ie and X = X
          and H = "fold (effect ie) (map (send_key_event e sw) o1) H"] one by simp
    then have "fold (effect ie) (map (send_key_event e sw) (o1 @ o2)) H \<subseteq>
        X \<union> peer_keys ie e sw pc (insert k (to_be_released g2))" by auto
    from step [OF 3 this] have "fold (effect ie) (map (send_key_event e sw) (o1 @ o2 @ o3)) H \<subseteq>
        X \<union> peer_keys ie e sw pc (to_be_released g3)" by simp
    moreover have "os = o1 @ o2 @ o3 \<and> g' = g3"
      using assms(1) True 1 2 3 by (auto simp: release_remote_key_def Let_def)
    ultimately show ?thesis by simp
  qed
qed

lemma release_remote_key_table:
  assumes "release_remote_key e mode (k, ev) g = (os, g')"
  shows "to_be_released g' = to_be_released g - {k}"
proof -
  let ?up = "ev\<lparr>event_type := KeyRelease k\<rparr>" and ?down = "ev\<lparr>event_type := KeyPress k\<rparr>"
  obtain o1 g1 where 1: "process_event e mode ?up None g = (o1, g1)" by (cases "process_event e mode ?up None g")
  have t1: "to_be_released g1 = to_be_released g - {k}" by (rule released_to_be_released [OF 1]) simp
  show ?thesis
  proof (cases "k = RKey ''Alt'' \<or> k = RKey ''AltGr''")
    case False
    with assms 1 t1 show ?thesis by (simp add: release_remote_key_def Let_def)
  next
    case True
    obtain o2 g2 where 2: "process_event e mode ?down None g1 = (o2, g2)" by (cases "process_event e mode ?down None g1")
    obtain o3 g3 where 3: "process_event e mode ?up None g2 = (o3, g3)" by (cases "process_event e mode ?up None g2")
    have "to_be_released g3 = to_be_released g2 - {k}" by (rule released_to_be_released [OF 3]) simp
    moreover have "to_be_released g2 - {k} = to_be_released g1 - {k}"
      using process_event_to_release [OF 2] by (auto simp: to_be_released_def split: if_splits)
    ultimately show ?thesis using assms True 1 2 3 t1 by (simp add: release_remote_key_def Let_def)
  qed
qed

lemma release_all_effect:
  assumes "release_all (e\<lparr>local_state := l\<rparr>) mode rs g = (os, g')"
    and "\<And>k ev. (k, ev) \<in> set rs \<Longrightarrow> mode_passes mode ev \<and> key_coded pc ev \<and> event_key ev = Some k"
    and "H \<subseteq> X \<union> peer_keys ie e sw pc (fst ` set rs \<union> to_be_released g)"
  shows "fold (effect ie) (map (send_key_event e sw) os) H \<subseteq> X \<union> peer_keys ie e sw pc (to_be_released g') \<and>
    to_be_released g' = to_be_released g - fst ` set rs"
  using assms
proof (induction rs arbitrary: g os H)
  case Nil
  then show ?case by simp
next
  case (Cons r rs)
  obtain k ev where r: "r = (k, ev)" by (cases r)
  obtain o1 g1 where 1: "release_remote_key (e\<lparr>local_state := l\<rparr>) mode (k, ev) g = (o1, g1)"
    by (cases "release_remote_key (e\<lparr>local_state := l\<rparr>) mode (k, ev) g")
  obtain o2 where 2: "release_all (e\<lparr>local_state := l\<rparr>) mode rs g1 = (o2, g')" and os: "os = o1 @ o2"
    using Cons.prems(1) r 1 by (auto split: prod.splits)
  have ev: "mode_passes mode ev" "key_coded pc ev" "event_key ev = Some k" using Cons.prems(2) r by auto
  have "H \<subseteq> (X \<union> peer_keys ie e sw pc (fst ` set rs)) \<union> peer_keys ie e sw pc (insert k (to_be_released g))"
    using Cons.prems(3) r by (auto simp: peer_keys_Un)
  from release_remote_key_effect [OF 1 ev this]
  have eff: "fold (effect ie) (map (send_key_event e sw) o1) H \<subseteq>
      X \<union> peer_keys ie e sw pc (fst ` set rs \<union> to_be_released g1)" by (auto simp: peer_keys_Un)
  have rest: "mode_passes mode ev \<and> key_coded pc ev \<and> event_key ev = Some k" if "(k, ev) \<in> set rs" for k ev
    using that by (intro Cons.prems(2)) simp
  have "to_be_released g - fst ` set (r # rs) = to_be_released g1 - fst ` set rs"
    using release_remote_key_table [OF 1] r by auto
  with Cons.IH [OF 2 rest eff] show ?case unfolding os map_append fold_append comp_apply by metis
qed

lemma release_remote_keys_effect:
  assumes "release_remote_keys (e\<lparr>local_state := l\<rparr>) mode order g = (os, g')" and "enumerates order g"
    and "\<And>k ev. to_release g k = Some ev \<Longrightarrow> mode_passes mode ev \<and> key_coded pc ev \<and> event_key ev = Some k"
    and "H \<subseteq> X \<union> peer_keys ie e sw pc (to_be_released g)"
  shows "fold (effect ie) (map (send_key_event e sw) os) H \<subseteq> X \<and> to_be_released g' = {}"
proof -
  have none: "to_be_released (g\<lparr>to_release := (\<lambda>k. None)\<rparr>) = {}" by (simp add: to_be_released_def)
  have keys: "fst ` set (entries order g) = to_be_released g"
    using assms(2) by (force simp: entries_set enumerates_def to_be_released_def)
  from assms(1) have all: "release_all (e\<lparr>local_state := l\<rparr>) mode (entries order g) (g\<lparr>to_release := (\<lambda>k. None)\<rparr>) = (os, g')"
    by (simp add: release_remote_keys_def)
  have "H \<subseteq> X \<union> peer_keys ie e sw pc (fst ` set (entries order g) \<union> to_be_released (g\<lparr>to_release := (\<lambda>k. None)\<rparr>))"
    using assms(4) by (simp add: keys none)
  from release_all_effect [OF all _ this] assms(3) have
    "fold (effect ie) (map (send_key_event e sw) os) H \<subseteq> X \<union> peer_keys ie e sw pc (to_be_released g')"
    "to_be_released g' = {}"
    by (auto simp: entries_set none)
  then show ?thesis by simp
qed

text \<open>What is stored for a key is the event that it went down.\<close>

definition stored_ok :: "(rkey \<Rightarrow> nat) \<Rightarrow> grab \<Rightarrow> bool" where
  "stored_ok pc g \<longleftrightarrow> (\<forall>k ev. to_release g k = Some ev \<longrightarrow> key_coded pc ev \<and> event_key ev = Some k)"

lemma process_event_stored:
  assumes "process_event e mode ev lm g = (os, g')" and "key_coded pc ev" and "stored_ok pc g"
  shows "stored_ok pc g'"
  using process_event_to_release [OF assms(1)] assms(2,3)
  by (auto simp: stored_ok_def event_key_def split: event_kind.splits if_splits)

lemma typing_invariant:
  assumes "typing e pc g0 os g" and "to_be_released g0 = {}" and "H \<subseteq> own"
  shows "stored_ok pc g \<and>
    fold (effect ie) (map (send_key_event e sw) os) H \<subseteq> own \<union> peer_keys ie e sw pc (to_be_released g)"
  using assms(1)
proof induction
  case start
  with assms(2,3) show ?case by (auto simp: stored_ok_def to_be_released_def)
next
  case (key os g ev mode l lm os' g')
  let ?H = "fold (effect ie) (map (send_key_event e sw) os) H"
  have "?H \<subseteq> own \<union> peer_keys ie e sw pc (to_be_released g \<union> (case event_type ev of KeyRelease k \<Rightarrow> {k} | _ \<Rightarrow> {}))"
    using key.IH by (auto simp: peer_keys_Un)
  from process_event_effect [OF key.hyps(4,3,2) this] process_event_stored [OF key.hyps(4,2)] key.IH
  show ?case by simp
next
  case (leave os g order mode l os' g')
  let ?H = "fold (effect ie) (map (send_key_event e sw) os) H"
  have stored: "mode_passes mode ev \<and> key_coded pc ev \<and> event_key ev = Some k" if "to_release g k = Some ev" for k ev
    using leave.IH leave.hyps(3) [OF that] that by (auto simp: stored_ok_def)
  from leave.IH have "?H \<subseteq> own \<union> peer_keys ie e sw pc (to_be_released g)" by simp
  from release_remote_keys_effect [OF leave.hyps(4,2) stored this]
  show ?case by (auto simp: stored_ok_def to_be_released_def)
qed

subsection \<open>The table of modifiers\<close>

definition agree_upto :: "rkey set \<Rightarrow> grab \<Rightarrow> bool" where
  "agree_upto P g \<longleftrightarrow> (\<forall>k. modifiers_state g k =
     (if k \<in> set modifier_keys then Some (k \<in> P \<union> to_be_released g) else None))"

lemma agree_upto_none: "agree_upto {} g = tables_agree g"
  by (simp add: agree_upto_def tables_agree_def to_be_released_def)

lemma process_event_agree:
  assumes "process_event e mode ev lm g = (os, g')" and "agree_upto Q g"
    and "Q = P \<or> (\<exists>k. event_type ev = KeyRelease k \<and> Q = insert k P)" and "event_type ev \<notin> KeyRelease ` P"
  shows "agree_upto P g'"
proof (cases "is_long_press ev g")
  case True
  with assms(1,2,3) show ?thesis by (auto simp: process_event_def is_long_press_def split: event_kind.splits)
next
  case False
  with process_event_to_release [OF assms(1)] assms(2,3,4) show ?thesis
    by (auto simp: agree_upto_def process_event_modifiers [OF assms(1)] to_be_released_def split: event_kind.splits)
qed

lemma release_remote_key_agree:
  assumes "release_remote_key e mode (k, ev) g = (os, g')" and "agree_upto (insert k P) g" and "k \<notin> P"
  shows "agree_upto P g'"
proof -
  let ?up = "ev\<lparr>event_type := KeyRelease k\<rparr>" and ?down = "ev\<lparr>event_type := KeyPress k\<rparr>"
  have up: "agree_upto P g2" if "process_event e mode ?up None g1 = (o1, g2)" "agree_upto (insert k P) g1" for o1 g1 g2
    using process_event_agree [OF that, of P] assms(3) by auto
  obtain o1 g1 where 1: "process_event e mode ?up None g = (o1, g1)" by (cases "process_event e mode ?up None g")
  show ?thesis
  proof (cases "k = RKey ''Alt'' \<or> k = RKey ''AltGr''")
    case False
    with assms(1) 1 up [OF 1 assms(2)] show ?thesis by (simp add: release_remote_key_def Let_def)
  next
    case True
    obtain o2 g2 where 2: "process_event e mode ?down None g1 = (o2, g2)" by (cases "process_event e mode ?down None g1")
    obtain o3 g3 where 3: "process_event e mode ?up None g2 = (o3, g3)" by (cases "process_event e mode ?up None g2")
    have "agree_upto P g2" using process_event_agree [OF 2 up [OF 1 assms(2)]] by auto
    moreover have "k \<in> to_be_released g2 \<or> is_long_press ?down g1"
      using process_event_to_release [OF 2] by (auto simp: to_be_released_def)
    moreover have "\<not> is_long_press ?down g1"
      using up [OF 1 assms(2)] assms(3) released_to_be_released [OF 1, of k]
      by (auto simp: is_long_press_def agree_upto_def)
    ultimately have "agree_upto (insert k P) g2" by (auto simp: agree_upto_def)
    from up [OF 3 this] show ?thesis using assms(1) True 1 2 3 by (auto simp: release_remote_key_def Let_def)
  qed
qed

lemma release_all_agree:
  assumes "release_all e mode rs g = (os, g')" and "agree_upto (fst ` set rs) g" and "distinct (map fst rs)"
  shows "agree_upto {} g'"
  using assms
proof (induction rs arbitrary: g os)
  case (Cons r rs)
  obtain k ev o1 g1 where 1: "r = (k, ev)" "release_remote_key e mode (k, ev) g = (o1, g1)"
    by (cases r, cases "release_remote_key e mode r g") auto
  obtain o2 where 2: "release_all e mode rs g1 = (o2, g')" using Cons.prems(1) 1 by (auto split: prod.splits)
  have "agree_upto (fst ` set rs) g1" using release_remote_key_agree [OF 1(2)] Cons.prems(2,3) 1(1) by simp
  from Cons.IH [OF 2 this] Cons.prems(3) show ?case by simp
qed simp

lemma entries_keys: "map fst (entries order g) = filter (\<lambda>k. to_release g k \<noteq> None) order"
  by (induction order) (auto simp: entries_def map_filter_simps)

lemma release_remote_keys_agree:
  assumes "release_remote_keys e mode order g = (os, g')" and "enumerates order g" and "tables_agree g"
  shows "tables_agree g'"
proof -
  have keys: "fst ` set (entries order g) = to_be_released g"
    using assms(2) by (force simp: entries_set enumerates_def to_be_released_def)
  have "agree_upto (fst ` set (entries order g)) (g\<lparr>to_release := (\<lambda>k. None)\<rparr>)"
    using assms(3) unfolding keys by (simp add: agree_upto_def tables_agree_def to_be_released_def)
  from release_all_agree [OF _ this] assms(1,2) show ?thesis
    by (simp add: release_remote_keys_def enumerates_def agree_upto_none entries_keys)
qed

lemma typing_agree:
  assumes "typing e pc g0 os g" and "tables_agree g0" shows "tables_agree g"
  using assms(1)
proof induction
  case (key os g ev mode l lm os' g')
  with process_event_agree [of _ mode ev lm g os' g' "{}" "{}"] show ?case by (simp add: agree_upto_none)
qed (use assms(2) release_remote_keys_agree in auto)

lemma release_remote_keys_messages:
  assumes "release_remote_keys (e\<lparr>local_state := l\<rparr>) mode order g = (os, g')"
    and "\<And>k ev. to_release g k = Some ev \<Longrightarrow> mode_passes mode ev \<and> key_coded pc ev \<and> event_key ev = Some k"
  shows "\<forall>m \<in> set os. \<exists>ev. event_message e pc ev m"
proof -
  let ?e = "e\<lparr>local_state := l\<rparr>"
  have one: "\<forall>m \<in> set o1. \<exists>ev. event_message e pc ev m"
    if "release_remote_key ?e mode (k, ev) g1 = (o1, g2)" "mode_passes mode ev" "key_coded pc ev" "event_key ev = Some k"
    for k ev g1 o1 g2
  proof -
    have up: "\<forall>m \<in> set o3. \<exists>ev. event_message e pc ev m"
      if "process_event ?e mode (ev\<lparr>event_type := t\<rparr>) None g3 = (o3, g4)" "t \<in> {KeyRelease k, KeyPress k}" for t g3 g4 o3
      using process_event_messages [OF that(1), of pc] that(2) released_key_coded(1,2) [OF \<open>key_coded pc ev\<close> \<open>event_key ev = Some k\<close>]
        released_key_coded(3) [where mode = mode and ev = ev] \<open>mode_passes mode ev\<close> by auto
    from that(1) show ?thesis
      by (fastforce simp: release_remote_key_def Let_def split: prod.splits if_splits dest!: up)
  qed
  have "\<forall>m \<in> set os. \<exists>ev. event_message e pc ev m"
    if "release_all ?e mode rs g1 = (os, g2)"
      and "\<And>k ev. (k, ev) \<in> set rs \<Longrightarrow> mode_passes mode ev \<and> key_coded pc ev \<and> event_key ev = Some k" for rs os g1 g2
    using that
  proof (induction rs arbitrary: g1 os)
    case (Cons r rs)
    obtain k ev o1 g3 where 1: "r = (k, ev)" "release_remote_key ?e mode (k, ev) g1 = (o1, g3)"
      by (cases r, cases "release_remote_key ?e mode r g1") auto
    obtain o2 where 2: "release_all ?e mode rs g3 = (o2, g2)" "os = o1 @ o2"
      using Cons.prems(1) 1 by (auto split: prod.splits)
    have rest: "mode_passes mode ev \<and> key_coded pc ev \<and> event_key ev = Some k" if "(k, ev) \<in> set rs" for k ev
      using that by (intro Cons.prems(2)) simp
    have "mode_passes mode ev \<and> key_coded pc ev \<and> event_key ev = Some k" using 1(1) by (intro Cons.prems(2)) simp
    with one [OF 1(2)] Cons.IH [OF 2(1) rest] 2(2) show ?case by auto
  qed simp
  from this [of "entries order g" "g\<lparr>to_release := (\<lambda>k. None)\<rparr>" os g'] assms show ?thesis
    by (auto simp: release_remote_keys_def entries_set)
qed

lemma typing_stored:
  assumes "typing e pc g0 os g" and "to_be_released g0 = {}" shows "stored_ok pc g"
  using typing_invariant [OF assms, of "{}" "{}"] by simp

lemma typing_messages:
  assumes "typing e pc g0 os g" and "to_be_released g0 = {}"
  shows "\<forall>m \<in> set os. \<exists>ev. event_message e pc ev m"
  using assms(1)
proof induction
  case (key os g ev mode l lm os' g')
  from process_event_messages [OF key.hyps(4,3,2)] key.IH show ?case by auto
next
  case (leave os g order mode l os' g')
  have stored: "mode_passes mode ev \<and> key_coded pc ev \<and> event_key ev = Some k" if "to_release g k = Some ev" for k ev
    using typing_stored [OF leave.hyps(1) assms(2)] leave.hyps(3) [OF that] that by (auto simp: stored_ok_def)
  from release_remote_keys_messages [OF leave.hyps(4) stored] leave.IH show ?case by auto
qed simp

text \<open>
  C31. Leaving the window lets go of every key.  Take any run of the controlling side in map and translate mode, in the latter
  without dead keys and AltGr: keys
  going down and up, repeated, with any state of the local lock modes, in any order, the window left and
  entered again, that ends with the window being left; let its messages reach a connection that may control,
  one after the other, at any times, in a session whose modifiers are swapped or not.  Whatever was held before, no key more is
  held on the controlled machine, nothing is left to be released, and a click carries no modifier.
\<close>

theorem leaving_releases_all:
  fixes times :: "nat list"
  assumes "typing e pc g0 os g" and "to_be_released g0 = {}" and "tables_agree g0"
    and "enumerates order g" and "\<And>k ev. to_release g k = Some ev \<Longrightarrow> mode_passes mode ev"
    and "release_remote_keys (e\<lparr>local_state := l\<rparr>) mode order g = (os', g')"
    and "length times = length (os @ os')"
    and "peer_run ie (arrive (zip times (map (send_key_event e sw) (os @ os')))) (s, th) = (s', th')"
    and "may_control (ctl s)" and "\<not> exiting (fst (inp th))" and "held (kbd (fst (inp th))) \<subseteq> own"
  shows "held (kbd (fst (inp th'))) \<subseteq> own \<and> to_be_released g' = {} \<and>
    get_modifiers_state g' (False, False, False, False) = (False, False, False, False)"
proof -
  from assms(1,4,5,6) have run: "typing e pc g0 (os @ os') g'" by (rule typing.leave)
  let ?sent = "map (send_key_event e sw) (os @ os')"
  have inv: "stored_ok pc g \<and> fold (effect ie) (map (send_key_event e sw) os) (held (kbd (fst (inp th)))) \<subseteq>
      own \<union> peer_keys ie e sw pc (to_be_released g)"
    by (rule typing_invariant [OF assms(1,2,11)])
  then have stored: "mode_passes mode ev \<and> key_coded pc ev \<and> event_key ev = Some k" if "to_release g k = Some ev" for k ev
    using that assms(5) [OF that] by (auto simp: stored_ok_def)
  from inv have "fold (effect ie) (map (send_key_event e sw) os) (held (kbd (fst (inp th)))) \<subseteq>
      own \<union> peer_keys ie e sw pc (to_be_released g)" by simp
  from release_remote_keys_effect [OF assms(6,4) stored this]
  have none: "fold (effect ie) ?sent (held (kbd (fst (inp th)))) \<subseteq> own" "to_be_released g' = {}" by simp_all
  have "\<forall>m \<in> set (os @ os'). \<exists>ev. event_message e pc ev m" by (rule typing_messages [OF run assms(2)])
  then have "\<forall>evt \<in> set (map snd (zip times ?sent)). plain_message evt"
    using assms(7) sent_plain by (fastforce simp: map_snd_zip)
  from peer_run_effect [OF this assms(10,9,8)] assms(7) none
  have "held (kbd (fst (inp th'))) \<subseteq> own" by (simp add: map_snd_zip)
  moreover have "get_modifiers_state g' (False, False, False, False) = (False, False, False, False)"
    using typing_agree [OF run assms(3)] none(2)
    by (simp add: tables_agree_def get_modifiers_state_def modifier_down_def to_be_released_def)
  ultimately show ?thesis using none(2) by simp
qed

subsection \<open>A sample session with a peer on Linux\<close>

text \<open>The key codes are those of X11: 37 is Control, 133 the meta key, 38 the key of the letter A.\<close>

definition x11_key :: "nat \<Rightarrow> rkey" where
  "x11_key c = (if c = 37 then RKey ''ControlLeft'' else if c = 133 then RKey ''MetaLeft''
                else if c = 38 then RKey ''KeyA'' else RUnknown c)"

definition x11_code :: "rkey \<Rightarrow> nat option" where
  "x11_code k = (if k = RKey ''ControlLeft'' then Some 37 else if k = RKey ''MetaLeft'' then Some 133
                 else if k = RKey ''KeyA'' then Some 38 else None)"

definition x11_env :: grab_env where
  "x11_env = \<lparr>peer_name = ''Linux'', local_state = (\<lambda>k. False), iso_layout = False, to_win_code = (\<lambda>c. None),
     to_macos_code = (\<lambda>c. None), to_macos_iso_code = (\<lambda>c. None), to_android_code = (\<lambda>c. None),
     win_key = RUnknown, win_code = (\<lambda>k. None), macos_key = RUnknown, macos_code = (\<lambda>k. None),
     linux_key = x11_key, linux_code = x11_code\<rparr>"

definition x11_input :: input_env where
  "x11_input = plain_input_env\<lparr>code_key := (\<lambda>c. if c = 37 then KControl else if c = 133 then KMeta else KRaw c),
     skip_led_code := (\<lambda>c. c = 37 \<or> c = 133)\<rparr>"

definition control_down :: local_event where
  "control_down = \<lparr>event_type = KeyPress (RKey ''ControlLeft''), event_unicode = None, platform_code = 0,
     position_code = 37\<rparr>"

lemma x11_peer: "peer_of (peer_name x11_env) = ''linux''"
  unfolding x11_env_def by code_simp

lemma x11_local [simp]: "x11_env\<lparr>local_state := (\<lambda>k. False)\<rparr> = x11_env"
  by (simp add: x11_env_def)

definition control_held :: grab where
  "control_held = update_to_release control_down (update_modifiers_state control_down initial_grab)"

lemma control_initial: "modifiers_state initial_grab (RKey ''ControlLeft'') = Some False"
  by (simp add: initial_grab_def modifier_keys_def)

lemma control_pressed:
  "process_event x11_env ''map'' control_down None initial_grab =
    ([new_event\<lparr>ev_mode := 1, ev_down := True, ev_union := Chr 37\<rparr>], control_held)"
proof -
  have "\<not> is_long_press control_down initial_grab"
    using control_initial by (simp add: is_long_press_def control_down_def)
  then show ?thesis
    by (simp add: process_event_def event_to_key_events_def get_keyboard_mode_enum_def map_keyboard_events_def
        x11_peer control_held_def is_numpad_key_def event_key_def is_letter_key_4_lock_modes_def Let_def)
      (simp add: control_down_def new_event_def x11_env_def peer_keycode_def add_lock_modes_modifiers_def)
qed

lemma control_held_table:
  "to_release control_held = [RKey ''ControlLeft'' \<mapsto> control_down]" "tables_agree control_held"
  "to_be_released control_held = {RKey ''ControlLeft''}"
proof -
  have "agree_upto {} control_held"
    using process_event_agree [OF control_pressed, of "{}" "{}"] tables_agree_initial by (simp add: agree_upto_none)
  then show "tables_agree control_held" by (simp add: agree_upto_none)
  show t: "to_release control_held = [RKey ''ControlLeft'' \<mapsto> control_down]"
    using control_initial by (simp add: control_held_def update_to_release_def update_modifiers_state_def initial_grab_def
        control_down_def)
  then show "to_be_released control_held = {RKey ''ControlLeft''}" by (auto simp: to_be_released_def)
qed

definition control_left :: grab where
  "control_left = snd (release_remote_keys x11_env ''map'' [RKey ''ControlLeft''] control_held)"

lemma control_released:
  "release_remote_keys x11_env ''map'' [RKey ''ControlLeft''] control_held =
    ([new_event\<lparr>ev_mode := 1, ev_down := False, ev_union := Chr 37\<rparr>], control_left)"
proof -
  have "entries [RKey ''ControlLeft''] control_held = [(RKey ''ControlLeft'', control_down)]"
    by (simp add: entries_def map_filter_simps control_held_table)
  then have "fst (release_remote_keys x11_env ''map'' [RKey ''ControlLeft''] control_held) =
      [new_event\<lparr>ev_mode := 1, ev_down := False, ev_union := Chr 37\<rparr>]"
    by (simp add: release_remote_keys_def release_remote_key_def is_long_press_def
        process_event_def event_to_key_events_def get_keyboard_mode_enum_def map_keyboard_events_def
        x11_peer is_numpad_key_def event_key_def is_letter_key_4_lock_modes_def Let_def split: prod.split)
      (simp add: control_down_def new_event_def x11_env_def peer_keycode_def add_lock_modes_modifiers_def)
  then show ?thesis by (simp add: control_left_def prod_eq_iff)
qed

lemma sample_passes: "mode_passes ''map'' ev"
  by (simp add: mode_passes_def get_keyboard_mode_enum_def)

theorem leaving_releases_all_witness:
  "held (kbd (fst (inp (snd (peer_run x11_input
     (arrive [(1, new_event\<lparr>ev_mode := 1, ev_down := True, ev_union := Chr 37\<rparr>),
              (5, new_event\<lparr>ev_mode := 1, ev_down := False, ev_union := Chr 37\<rparr>)])
     (input_control True, idle_thread)))))) = {}"
proof -
  let ?e = "x11_env\<lparr>local_state := (\<lambda>k. False)\<rparr>"
  have coded: "key_coded (\<lambda>k. 37) control_down" by (simp add: key_coded_def event_key_def control_down_def)
  have run: "typing x11_env (\<lambda>k. 37) initial_grab
      ([] @ [new_event\<lparr>ev_mode := 1, ev_down := True, ev_union := Chr 37\<rparr>]) control_held"
    by (rule typing.key [OF typing.start coded sample_passes, where l = "\<lambda>k. False" and lm = None])
      (simp add: control_pressed)
  have none: "to_be_released initial_grab = {}" by (simp add: to_be_released_def initial_grab_def)
  have order: "enumerates [RKey ''ControlLeft''] control_held" by (simp add: enumerates_def control_held_table)
  have released: "release_remote_keys ?e ''map'' [RKey ''ControlLeft''] control_held =
      ([new_event\<lparr>ev_mode := 1, ev_down := False, ev_union := Chr 37\<rparr>], control_left)"
    by (simp add: control_released)
  show ?thesis
    using leaving_releases_all [OF run none tables_agree_initial order sample_passes released, where times = "[1, 5]"
        and ie = x11_input and sw = False and s = "input_control True" and th = idle_thread and own = "{}",
        OF _ prod.collapse [symmetric]]
    by (simp add: send_key_event_def swap_modifier_key_def input_control_may)
      (simp add: idle_thread_def idle_input_def)
qed

subsection \<open>Swapped modifiers\<close>

lemma map_message:
  assumes "may_control (ctl s)" and "\<not> exiting (fst (inp th))" and "ev_mode evt = 1" "ev_union evt = Chr c"
    "\<not> ev_press evt" and "skip_led_code ie c" and "key_is_modifier (code_key ie c)"
    and "peer_step ie t (KeyMsg evt) (s, th) = (outs, s', th')"
  shows "kbd (fst (inp th')) = simulate_code ie c (ev_down evt) (kbd (fst (inp th))) \<and>
    \<not> exiting (fst (inp th')) \<and> ctl s' = ctl s"
proof -
  have "modifier_of ie evt = Some (code_key ie c)" using assms(3,4,7) by (simp add: modifier_of_def ev_chr_def)
  then have "\<not> is_press ie evt" by (simp add: is_press_def)
  with assms(1) have "fst (on_input ie (KeyMsg evt) s) = [InKey evt False]"
    by (simp add: on_input_def may_control_def peer_keyboard_enabled_def on_key_event_def Let_def)
  moreover have "s' = snd (on_input ie (KeyMsg evt) s)" using assms(8) by (auto simp: peer_step_def split: prod.splits)
  ultimately have "fst (inp th') = handle_key ie t (evt\<lparr>ev_press := False\<rparr>) (fst (inp th))" "ctl s' = ctl s"
    using assms(8) by (auto simp: peer_step_def handle_input_def press_and_release_def split: prod.splits)
  with assms(2-7) show ?thesis
    by (simp add: handle_key_def lock_sync_def is_legacy_mode_def handle_mode_def map_keyboard_mode_def ev_chr_def
        sim_rdev_rawkey_position_def on_kbd_def record_pressed_key_def)
qed

text \<open>
  C32. A swap between press and release.  The session swaps Control and the meta key when it sends, and the table of the
  keys to be released knows nothing of it: when the user turns swapping on while such a key is down and leaves
  the window, the release goes to the other key, and the key that was pressed stays held on the controlled machine.
\<close>

theorem swap_toggle_sticks:
  assumes "ev_mode down = 1" "ev_union down = Chr c" "ev_down down" "\<not> ev_press down"
    and "ev_mode up = 1" "ev_union up = Chr c" "\<not> ev_down up" "\<not> ev_press up" and "c \<noteq> 0"
    and "skip_led_code ie c" "key_is_modifier (code_key ie c)"
    and "skip_led_code ie (swap_code e c)" "key_is_modifier (code_key ie (swap_code e c))"
    and "code_key ie (swap_code e c) \<noteq> code_key ie c"
    and "may_control (ctl s)" and "\<not> exiting (fst (inp th))"
    and "peer_run ie (arrive [(t, send_key_event e False down), (t', send_key_event e True up)]) (s, th) = (s', th')"
  shows "code_key ie c \<in> held (kbd (fst (inp th')))"
proof -
  obtain o1 s1 th1 where 1: "peer_step ie t (KeyMsg (send_key_event e False down)) (s, th) = (o1, s1, th1)"
    by (cases "peer_step ie t (KeyMsg (send_key_event e False down)) (s, th)") auto
  obtain o2 s2 th2 where 2: "peer_step ie t' (KeyMsg (send_key_event e True up)) (s1, th1) = (o2, s2, th2)"
    by (cases "peer_step ie t' (KeyMsg (send_key_event e True up)) (s1, th1)") auto
  have first: "kbd (fst (inp th1)) = simulate_code ie c True (kbd (fst (inp th)))" "\<not> exiting (fst (inp th1))"
      "ctl s1 = ctl s"
    using map_message [OF assms(15,16) _ _ _ assms(10,11) 1] assms(1-4)
    by (simp_all add: send_key_event_def swap_modifier_key_def)
  have "kbd (fst (inp th2)) = simulate_code ie (swap_code e c) False (kbd (fst (inp th1)))"
    using map_message [OF _ first(2) _ _ _ assms(12,13) 2] assms(5-9,15) first(3)
    by (simp add: send_key_event_def swap_modifier_key_def)
  with first(1) assms(14,17) 1 2 show ?thesis by (simp add: arrive_def held_simps)
qed

lemma x11_swap: "swap_code x11_env 37 = 133"
  unfolding swap_code_def x11_peer by (simp add: x11_env_def x11_key_def x11_code_def swap_rkey_def)

theorem swap_toggle_sticks_witness:
  "KControl \<in> held (kbd (fst (inp (snd (peer_run x11_input
     (arrive [(1, send_key_event x11_env False (new_event\<lparr>ev_mode := 1, ev_down := True, ev_union := Chr 37\<rparr>)),
              (5, send_key_event x11_env True (new_event\<lparr>ev_mode := 1, ev_down := False, ev_union := Chr 37\<rparr>))])
     (input_control True, idle_thread))))))"
proof -
  have key: "code_key x11_input 37 = KControl" "code_key x11_input 133 = KMeta"
      "skip_led_code x11_input 37" "skip_led_code x11_input 133"
    by (simp_all add: x11_input_def)
  show ?thesis
    using swap_toggle_sticks [OF _ _ _ _ _ _ _ _ _ _ _ _ _ _ _ _ prod.collapse [symmetric],
        where c = 37 and ie = x11_input and e = x11_env and s = "input_control True" and th = idle_thread and t = 1
          and t' = 5 and down = "new_event\<lparr>ev_mode := 1, ev_down := True, ev_union := Chr 37\<rparr>"
          and up = "new_event\<lparr>ev_mode := 1, ev_down := False, ev_union := Chr 37\<rparr>"]
    by (simp add: key x11_swap input_control_may key_is_modifier_def)
      (simp add: new_event_def idle_thread_def idle_input_def)
qed

text \<open>In legacy mode a message carries a character where the swap reads a key code: a percent sign becomes another one.\<close>

lemma legacy_character_swapped:
  "ev_union (send_key_event x11_env True (new_event\<lparr>ev_down := True, ev_union := Chr 37\<rparr>)) = Chr 133"
  "ev_union (send_key_event x11_env True (new_event\<lparr>ev_down := True, ev_union := Chr 98\<rparr>)) = Chr 0"
proof -
  have "swap_code x11_env 98 = 0"
    unfolding swap_code_def x11_peer by (simp add: x11_env_def x11_key_def x11_code_def swap_rkey_def)
  then show "ev_union (send_key_event x11_env True (new_event\<lparr>ev_down := True, ev_union := Chr 37\<rparr>)) = Chr 133"
    "ev_union (send_key_event x11_env True (new_event\<lparr>ev_down := True, ev_union := Chr 98\<rparr>)) = Chr 0"
    by (simp_all add: send_key_event_def swap_modifier_key_def x11_swap)
qed

subsection \<open>The password of the operating system\<close>

lemma fix_modifier_idle:
  "held kb = {} \<Longrightarrow> k \<notin> {KCapsLock, KNumLock} \<Longrightarrow> fix_modifier mods ck k kb = kb"
  by (auto simp: fix_modifier_def get_modifier_state_def get_key_state_def split: key.split)

lemma fix_modifiers_idle: "held kb = {} \<Longrightarrow> fix_modifiers mods ck kb = kb"
  by (simp add: fix_modifiers_def fix_modifier_idle)

text \<open>A message that asks for a press reaches the input thread, a text as one event, a key as a press and a release.\<close>

lemma press_message:
  assumes "may_control (ctl s)" and "ev_mode evt = 0" "ev_press evt" and "\<not> evt_is_modifier evt"
    and "peer_step ie t (KeyMsg evt) (s, th) = (outs, s', th')"
  shows "ctl s' = ctl s \<and> fst (inp th') =
    press_and_release ie t evt (case ev_union evt of Unicode _ \<Rightarrow> False | Seq _ \<Rightarrow> False | _ \<Rightarrow> True) (fst (inp th))"
proof -
  have "modifier_of ie evt = None" using assms(2) by (simp add: modifier_of_def)
  with assms(3,4) have "is_press ie evt" by (simp add: is_press_def)
  with assms(1) have "fst (on_input ie (KeyMsg evt) s) =
      [InKey evt (case ev_union evt of Unicode _ \<Rightarrow> False | Seq _ \<Rightarrow> False | _ \<Rightarrow> True)]"
    by (simp add: on_input_def may_control_def peer_keyboard_enabled_def on_key_event_def Let_def split: key_union.split)
  moreover have "s' = snd (on_input ie (KeyMsg evt) s)" using assms(5) by (auto simp: peer_step_def split: prod.splits)
  ultimately show ?thesis using assms(5) by (auto simp: peer_step_def handle_input_def split: prod.splits)
qed

lemma text_handled:
  assumes "ev_mode evt = 0" "ev_union evt = Seq p" "\<not> ev_down evt" "ck_CapsLock \<notin> set (ev_modifiers evt)"
    and "\<not> exiting st" "\<not> caps_lock (kbd st)"
  shows "handle_key ie t evt st = on_kbd (key_sequence p) st"
  using assms
  by (simp add: handle_key_def lock_sync_def lock_modes_new_def lock_modes_drop_def is_modifier_enabled_def
      get_key_state_def handle_mode_def legacy_keyboard_mode_def sync_modifiers_def on_kbd_def release_keys_def)

lemma return_handled:
  assumes "ev_mode evt = 0" "ev_union evt = ControlKey ck_Return" "ev_modifiers evt = []"
    and "\<not> exiting st" "held (kbd st) \<subseteq> {KNamed ''Return''}" "can_press ie (KNamed ''Return'')"
    and "ev_down evt \<longrightarrow> held (kbd st) = {}"
  shows "kbd (handle_key ie t evt st) =
    (if ev_down evt then press_key (KNamed ''Return'') (kbd st) else key_up (KNamed ''Return'') (kbd st))"
proof -
  have key: "control_key_value_to_key 27 = Some (KNamed ''Return'')" by (simp add: control_key_value_to_key_def KEY_MAP_def)
  show ?thesis
    using assms
    by (auto simp: handle_key_def lock_sync_def skip_led_sync_control_key_def handle_mode_def legacy_keyboard_mode_def
        sync_modifiers_def release_unpressed_modifiers_def fix_modifiers_idle release_keys_def
        process_control_key_def key key_down_def is_function_key_def Let_def)
qed

text \<open>
  The password reaches the machine as it is.  When nothing is held on the controlled machine, its Caps Lock is off and
  it can press the key, then the messages that enter the password of the operating system, without the clicks that wake it,
  type exactly the text, then Return goes down and up, and nothing stays held.
\<close>

theorem os_password_typed:
  assumes "p \<noteq> []" and "0 \<notin> set p" and "can_press ie (KNamed ''Return'')"
    and "may_control (ctl s)" and "\<not> exiting (fst (inp th))"
    and "held (kbd (fst (inp th))) = {}" and "\<not> caps_lock (kbd (fst (inp th)))"
    and "peer_run ie (map (Pair t) (input_os_password sw p False)) (s, th) = (s', th')"
  shows "sent (kbd (fst (inp th'))) =
      sent (kbd (fst (inp th))) @ [Text p, Down (KNamed ''Return''), Up (KNamed ''Return'')] \<and>
    held (kbd (fst (inp th'))) = {}"
proof -
  define m1 where "m1 = new_event\<lparr>ev_press := True, ev_union := Seq p\<rparr>"
  define m2 where "m2 = new_event\<lparr>ev_press := True, ev_union := ControlKey ck_Return\<rparr>"
  obtain o1 s1 th1 where 1: "peer_step ie t (KeyMsg m1) (s, th) = (o1, s1, th1)"
    by (cases "peer_step ie t (KeyMsg m1) (s, th)") auto
  obtain o2 s2 th2 where 2: "peer_step ie t (KeyMsg m2) (s1, th1) = (o2, s2, th2)"
    by (cases "peer_step ie t (KeyMsg m2) (s1, th1)") auto
  have run: "s' = s2" "th' = th2"
    using assms(1,8) 1 2 by (simp_all add: input_os_password_def m1_def [symmetric] m2_def [symmetric])
  have first: "kbd (fst (inp th1)) = (kbd (fst (inp th)))\<lparr>sent := sent (kbd (fst (inp th))) @ [Text p]\<rparr>"
      "exiting (fst (inp th1)) = exiting (fst (inp th))" "ctl s1 = ctl s"
    using press_message [OF assms(4) _ _ _ 1] assms(2,5,7)
    by (simp_all add: m1_def new_event_def evt_is_modifier_def press_and_release_def text_handled key_sequence_def
        on_kbd_def)
  define down where "down = handle_key ie t (m2\<lparr>ev_press := False, ev_down := True\<rparr>) (fst (inp th1))"
  have "fst (inp th2) = handle_key ie t (m2\<lparr>ev_press := False, ev_down := False\<rparr>) down"
    using press_message [OF _ _ _ _ 2] assms(4) first(3)
    by (simp add: m2_def new_event_def evt_is_modifier_def press_and_release_def down_def)
  moreover have "kbd down = press_key (KNamed ''Return'') (kbd (fst (inp th1)))" "\<not> exiting down"
    using return_handled [of "m2\<lparr>ev_press := False, ev_down := True\<rparr>" "fst (inp th1)" ie t] assms(3,5,6) first
    by (simp_all add: m2_def new_event_def down_def)
  ultimately have "kbd (fst (inp th2)) =
      key_up (KNamed ''Return'') (press_key (KNamed ''Return'') (kbd (fst (inp th1))))"
    using return_handled [of "m2\<lparr>ev_press := False, ev_down := False\<rparr>" down ie t] assms(3,6) first(1)
    by (simp add: m2_def new_event_def held_simps)
  with assms(6) first(1) show ?thesis by (simp add: run held_simps press_key_def key_up_def)
qed

theorem os_password_typed_witness:
  "sent (kbd (fst (inp (snd (peer_run plain_input_env (map (Pair 1) (input_os_password False [115, 51] False))
     (input_control True, idle_thread)))))) = [Text [115, 51], Down (KNamed ''Return''), Up (KNamed ''Return'')]"
  using os_password_typed [where p = "[115, 51]" and ie = plain_input_env and s = "input_control True" and th = idle_thread
      and t = 1 and sw = False, OF _ _ _ _ _ _ _ prod.collapse [symmetric]]
  by (simp add: input_control_may plain_input_env_def) (simp add: idle_thread_def idle_input_def)

end
