(* ===== verification/Client_Files.thy ===== *)
theory Client_Files
  imports Session_Files Addresses
begin

text \<open>
  The file transfers of the controlling side, \<^verbatim>\<open>Remote\<close> in \<^verbatim>\<open>src/client/io_loop.rs\<close>: what it does with the requests
  of its user interface (\<open>from_ui\<close>) and with the file responses of the peer (\<open>from_peer\<close>), as it is built for Linux.
  Uploads are read jobs, downloads are write jobs; removing a directory is a job of its own.

  A confirmation that panics (see \<open>job_confirm\<close>) is \<open>None\<close>.  Times are milliseconds.  The progress shown to
  the user is left out, and the result of renaming is a field of \<open>fs_calls\<close>.
\<close>

subsection \<open>State and messages\<close>

record removal_job =
  rj_files :: "file_entry list"
  rj_path :: string
  rj_sep :: string
  rj_remote :: bool
  rj_no_confirm :: bool
  rj_last_update :: nat

definition removal_job_new :: "nat \<Rightarrow> file_entry list \<Rightarrow> string \<Rightarrow> string \<Rightarrow> bool \<Rightarrow> removal_job" where
  "removal_job_new t files path sep rem =
     \<lparr>rj_files = files, rj_path = path, rj_sep = sep, rj_remote = rem, rj_no_confirm = False, rj_last_update = t\<rparr>"

record remote =
  uploads :: "transfer_job list"
  downloads :: "transfer_job list"
  removals :: "int \<Rightarrow> removal_job option"
  local_fs :: fsys

record remote_env =
  rm_os :: os
  rm_decompress :: "bytes \<Rightarrow> bytes"
  rm_json :: "file_digest \<Rightarrow> bytes"
  rm_of_json :: "bytes \<Rightarrow> file_digest option"
  rm_calls :: fs_calls
  rm_version :: nat
  rm_direct :: bool
  rm_peer_windows :: bool
  rm_sep :: "bool \<Rightarrow> string"

datatype ui_msg =
    SendFiles int job_type string string int bool bool
  | AddJob int job_type string string int bool bool
  | ResumeJob int bool
  | SetNoConfirm int
  | ConfirmDeleteFiles int int
  | SetConfirmOverrideFile int int bool bool bool
  | RemoveDirAll int string bool bool
  | CancelJob int
  | RemoveDir int string
  | RemoveFile int string int bool
  | CreateDir int string bool
  | RenameFile int string string bool

datatype peer_response =
    RespDir int string "file_entry list"
  | RespDigest transfer_digest bool
  | RespBlock file_block
  | RespDone int int
  | RespError int string int

text \<open>
  What a handler does: messages to the peer, requests to itself, and what the user sees; the timer is set to its short period.
\<close>

datatype client_out =
    ToPeer file_action
  | ToSelf ui_msg
  | JobError int string int
  | JobDone int int
  | AskDelete int int string
  | AskOverwrite int int string bool bool
  | ShowFolder int string "file_entry list" bool bool
  | FastTimer

text \<open>\<^verbatim>\<open>i32 as usize\<close> on a file number plus one, which wraps.\<close>

definition next_index :: "int \<Rightarrow> nat" where
  "next_index n = as_usize (sint (word_of_int (n + 1) :: u32))"

definition handle_job_status :: "nat \<Rightarrow> int \<Rightarrow> int \<Rightarrow> string option \<Rightarrow> remote \<Rightarrow> client_out list \<times> remote" where
  "handle_job_status t i n err st =
     (let shown = (case err of Some e \<Rightarrow> JobError i e n | None \<Rightarrow> JobDone i n)
      in case removals st i of
           None \<Rightarrow> ([shown], st)
         | Some j \<Rightarrow>
             if \<not> rj_no_confirm j then ([shown], st)
             else if next_index n < length (rj_files j) then
               (let path = rj_path j @ rj_sep j @ entry_name (rj_files j ! next_index n);
                    ask = ToSelf (RemoveFile i path (int (next_index n)) (rj_remote j))
                in if 1000 \<le> t - rj_last_update j
                   then ([ask, shown], st\<lparr>removals := (removals st)(i \<mapsto> j\<lparr>rj_last_update := t\<rparr>)\<rparr>)
                   else ([ask], st))
             else ([shown], st\<lparr>removals := (removals st)(i := None)\<rparr>))"

subsection \<open>The requests of the user interface\<close>

definition overwrite_request :: "int \<Rightarrow> int \<Rightarrow> bool \<Rightarrow> send_confirm" where
  "overwrite_request i n need =
     \<lparr>confirm_id = i, confirm_file_num = n, confirm_union = Some (if need then OffsetBlk 0 else Skip True)\<rparr>"

definition send_message :: "transfer_job \<Rightarrow> int \<Rightarrow> job_type \<Rightarrow> file_action" where
  "send_message j i t = FaSend \<lparr>snd_id = i, snd_path = job_remote j, snd_hidden = show_hidden j,
     snd_file_num = file_num j, snd_type = int_of_job_type t\<rparr>"

definition receive_message :: "transfer_job \<Rightarrow> int \<Rightarrow> file_action" where
  "receive_message j i = FaReceive \<lparr>rcv_id = i, rcv_path = job_remote j, rcv_files = job_files j,
     rcv_file_num = file_num j, rcv_total_size = job_total_size j\<rparr>"

text \<open>A new download: a write job whose files are not known yet; \<open>left_over\<close> marks a job left over from the last session.\<close>

definition download_job :: "remote_env \<Rightarrow> int \<Rightarrow> job_type \<Rightarrow> string \<Rightarrow> data_source \<Rightarrow> int \<Rightarrow> bool \<Rightarrow> bool \<Rightarrow> transfer_job" where
  "download_job e i ty path to n hidden left_over =
     (new_write i ty path to n hidden True [] (Session_Files.can_enable_overwrite_detection (rm_version e)))
       \<lparr>is_last_job := left_over, direct := rm_direct e\<rparr>"

definition upload_job ::
  "remote_env \<Rightarrow> int \<Rightarrow> job_type \<Rightarrow> string \<Rightarrow> string \<Rightarrow> int \<Rightarrow> bool \<Rightarrow> bool \<Rightarrow> string + transfer_job" where
  "upload_job e i ty path to n hidden left_over =
     map_sum id (\<lambda>j. j\<lparr>is_last_job := left_over, direct := rm_direct e\<rparr>)
       (new_read (list_files (rm_calls e)) i ty to (FilePath path) n hidden False
         (Session_Files.can_enable_overwrite_detection (rm_version e)))"

definition send_files ::
  "remote_env \<Rightarrow> nat \<Rightarrow> bool \<Rightarrow> int \<Rightarrow> job_type \<Rightarrow> string \<Rightarrow> string \<Rightarrow> int \<Rightarrow> bool \<Rightarrow> bool \<Rightarrow> remote
     \<Rightarrow> client_out list \<times> remote" where
  "send_files e t left_over i ty path to n hidden rem st =
     (if rem then
        (let source = (if left_over \<or> ty = Generic then FilePath to else MemoryCursor []);
             j = download_job e i ty path source n hidden left_over
         in (if left_over then [] else [ToPeer (send_message j i ty)], st\<lparr>downloads := downloads st @ [j]\<rparr>))
      else (case upload_job e i ty path to n hidden left_over of
          Inl err \<Rightarrow> handle_job_status t i (-1) (Some err) st
        | Inr j \<Rightarrow>
            (ShowFolder i path (job_files j) True True # FastTimer # (if left_over then [] else [ToPeer (receive_message j i)]),
             st\<lparr>uploads := uploads st @ [j]\<rparr>)))"

definition resume_job :: "remote_env \<Rightarrow> int \<Rightarrow> bool \<Rightarrow> remote \<Rightarrow> client_out list \<times> remote" where
  "resume_job e i rem st =
     (if rem then
        (case get_job i (downloads st) of
           None \<Rightarrow> ([], st)
         | Some j \<Rightarrow>
             (let j' = j\<lparr>is_last_job := False, is_resume := True\<rparr>
              in ([ToPeer (send_message j' i Generic)], st\<lparr>downloads := update_job i j' (downloads st)\<rparr>)))
      else (case get_job i (uploads st) of
           None \<Rightarrow> ([], st)
         | Some j \<Rightarrow>
             (case data_source j of
                MemoryCursor _ \<Rightarrow> ([], st)
              | FilePath _ \<Rightarrow>
                  (let j' = set_finished_size_on_resume (j\<lparr>is_last_job := False, is_resume := True\<rparr>)
                   in ([ToPeer (receive_message j' i)], st\<lparr>uploads := update_job i j' (uploads st)\<rparr>)))))"

text \<open>The answer of the user to the question whether a file is overwritten.\<close>

definition set_confirm_override_file ::
  "remote_env \<Rightarrow> int \<Rightarrow> int \<Rightarrow> bool \<Rightarrow> bool \<Rightarrow> bool \<Rightarrow> remote \<Rightarrow> (client_out list \<times> remote) option" where
  "set_confirm_override_file e i n need rem up st =
     (let jobs = (if up then uploads st else downloads st);
          req = overwrite_request i n need
      in case get_job i jobs of
           None \<Rightarrow> Some ([], st)
         | Some j \<Rightarrow>
             map_option (\<lambda>j'.
               if up then ([], st\<lparr>uploads := update_job i j' jobs\<rparr>)
               else ([ToPeer (FaSendConfirm req)], st\<lparr>downloads := update_job i j' jobs\<rparr>))
               (job_confirm (rm_os e) (local_fs st)
                 (if rem then set_overwrite_strategy j (Some need) else j) req))"

definition cancel_job :: "int \<Rightarrow> remote \<Rightarrow> client_out list \<times> remote" where
  "cancel_job i st =
     (case remove_job i (downloads st) of
        (r, ds) \<Rightarrow>
          ([ToPeer (FaCancel i)],
           st\<lparr>downloads := ds, uploads := snd (remove_job i (uploads st)), removals := (removals st)(i := None),
             local_fs := (case r of Some j \<Rightarrow> remove_download_file (local_fs st) j | None \<Rightarrow> local_fs st)\<rparr>))"

text \<open>Removing a file and creating a directory on this side.\<close>

definition local_remove_file :: "os \<Rightarrow> fsys \<Rightarrow> string \<Rightarrow> string + fsys" where
  "local_remove_file os fs p =
     (if is_file fs p \<and> can_remove os p then Inr (remove_file fs p) else Inl (os_error os))"

definition local_create_dir :: "os \<Rightarrow> fsys \<Rightarrow> string \<Rightarrow> string + fsys" where
  "local_create_dir os fs p = (if can_create os p then Inr (create_dir_all fs p) else Inl (os_error os))"

definition after_call :: "nat \<Rightarrow> int \<Rightarrow> int \<Rightarrow> string + fsys \<Rightarrow> remote \<Rightarrow> client_out list \<times> remote" where
  "after_call t i n r st =
     (case r of
        Inl err \<Rightarrow> handle_job_status t i n (Some err) st
      | Inr fs \<Rightarrow> handle_job_status t i n None (st\<lparr>local_fs := fs\<rparr>))"

definition from_ui :: "remote_env \<Rightarrow> nat \<Rightarrow> ui_msg \<Rightarrow> remote \<Rightarrow> (client_out list \<times> remote) option" where
  "from_ui e t m st =
     (case m of
        SendFiles i ty path to n hidden rem \<Rightarrow> Some (send_files e t False i ty path to n hidden rem st)
      | AddJob i ty path to n hidden rem \<Rightarrow> Some (send_files e t True i ty path to n hidden rem st)
      | ResumeJob i rem \<Rightarrow> Some (resume_job e i rem st)
      | SetNoConfirm i \<Rightarrow>
          Some ([], case removals st i of
                      Some j \<Rightarrow> st\<lparr>removals := (removals st)(i \<mapsto> j\<lparr>rj_no_confirm := True\<rparr>)\<rparr> | None \<Rightarrow> st)
      | ConfirmDeleteFiles i n \<Rightarrow>
          Some (case removals st i of
                  Some j \<Rightarrow> if as_usize n < length (rj_files j)
                            then [AskDelete i n (entry_name (rj_files j ! as_usize n))] else []
                | None \<Rightarrow> [], st)
      | SetConfirmOverrideFile i n need rem up \<Rightarrow> set_confirm_override_file e i n need rem up st
      | RemoveDirAll i path rem hidden \<Rightarrow>
          Some (if rem then
                  ([ToPeer (FaAllFiles i path hidden)],
                   st\<lparr>removals := (removals st)(i \<mapsto> removal_job_new t [] path (rm_sep e rem) rem)\<rparr>)
                else (case list_files (rm_calls e) path hidden of
                    Inr files \<Rightarrow>
                      ([ShowFolder i path files True False],
                       st\<lparr>removals := (removals st)(i \<mapsto> removal_job_new t files path (rm_sep e rem) rem)\<rparr>)
                  | Inl err \<Rightarrow> handle_job_status t i (-1) (Some err) st))
      | CancelJob i \<Rightarrow> Some (cancel_job i st)
      | RemoveDir i path \<Rightarrow> Some ([ToPeer (FaRemoveDir i path True)], st)
      | RemoveFile i path n rem \<Rightarrow>
          Some (if rem then ([ToPeer (FaRemoveFile i path n)], st)
                else after_call t i n (local_remove_file (rm_os e) (local_fs st) path) st)
      | CreateDir i path rem \<Rightarrow>
          Some (if rem then ([ToPeer (FaCreate i path)], st)
                else after_call t i (-1) (local_create_dir (rm_os e) (local_fs st) path) st)
      | RenameFile i path new rem \<Rightarrow>
          Some (if rem then ([ToPeer (FaRename i path new)], st)
                else handle_job_status t i (-1)
                       (case call_result (rm_calls e) (FsRename i path new) of Inl err \<Rightarrow> Some err | Inr _ \<Rightarrow> None) st))"

subsection \<open>The responses of the peer\<close>

definition to_slash :: "file_entry \<Rightarrow> file_entry" where
  "to_slash f = f\<lparr>entry_name := map (\<lambda>c. if c = char_of (92 :: nat) then CHR ''/'' else c) (entry_name f)\<rparr>"

definition on_dir :: "remote_env \<Rightarrow> int \<Rightarrow> string \<Rightarrow> file_entry list \<Rightarrow> remote \<Rightarrow> client_out list \<times> remote" where
  "on_dir e i path files0 st =
     (let files = (if rm_peer_windows e then map to_slash files0 else files0)
      in ([ShowFolder i path files False False],
          case get_job i (downloads st) of
            Some j \<Rightarrow>
              (case set_files (local_fs st) j files of
                 (fs, j') \<Rightarrow> st\<lparr>local_fs := fs, downloads := update_job i (set_finished_size_on_resume j') (downloads st)\<rparr>)
          | None \<Rightarrow>
              (case removals st i of
                 Some j \<Rightarrow> st\<lparr>removals := (removals st)(i \<mapsto> j\<lparr>rj_files := files\<rparr>)\<rparr> | None \<Rightarrow> st)))"

text \<open>How a job answers a digest by itself: resuming a file that was identical so far, or by its strategy.\<close>

definition digest_answer :: "transfer_job \<Rightarrow> transfer_digest \<Rightarrow> send_confirm option" where
  "digest_answer j d =
     (let resumed = (td_is_identical d \<and> is_resume j \<and> 0 < td_transferred_size d);
          offset = (if resumed then ucast (td_transferred_size d) else 0 :: u32)
      in case (if resumed then Some True else default_overwrite_strategy j) of
           Some overwrite \<Rightarrow>
             Some \<lparr>confirm_id = td_id d, confirm_file_num = td_file_num d,
                   confirm_union = Some (if overwrite then OffsetBlk offset else Skip True)\<rparr>
         | None \<Rightarrow> None)"

definition on_upload_digest :: "remote_env \<Rightarrow> transfer_digest \<Rightarrow> remote \<Rightarrow> (client_out list \<times> remote) option" where
  "on_upload_digest e d st =
     (case get_job (td_id d) (uploads st) of
        None \<Rightarrow> Some ([], st)
      | Some j \<Rightarrow>
          (let k = as_usize (td_file_num d)
           in if length (job_files j) \<le> k then Some ([], st)
              else case data_source j of
                  MemoryCursor _ \<Rightarrow> Some ([], st)
                | FilePath p \<Rightarrow>
                    (case digest_answer j d of
                       Some req \<Rightarrow>
                         map_option (\<lambda>j'. ([ToPeer (FaSendConfirm req)], st\<lparr>uploads := update_job (td_id d) j' (uploads st)\<rparr>))
                           (job_confirm (rm_os e) (local_fs st) j req)
                     | None \<Rightarrow>
                         Some ([AskOverwrite (td_id d) (td_file_num d) (job_join p (entry_name (job_files j ! k))) True
                                  (td_is_identical d)], st))))"

definition on_download_digest :: "remote_env \<Rightarrow> transfer_digest \<Rightarrow> remote \<Rightarrow> (client_out list \<times> remote) option" where
  "on_download_digest e d st =
     (case get_job (td_id d) (downloads st) of
        None \<Rightarrow> Some ([], st)
      | Some j0 \<Rightarrow>
          (let k = as_usize (td_file_num d)
           in if length (job_files j0) \<le> k then Some ([], st)
              else case data_source j0 of
                  MemoryCursor _ \<Rightarrow> Some ([], st)
                | FilePath p \<Rightarrow>
                    (let path = job_join p (entry_name (job_files j0 ! k));
                         j = set_digest j0 (td_file_size d) (td_last_modified d);
                         confirm = (\<lambda>req.
                           map_option (\<lambda>j'. ([ToPeer (FaSendConfirm req)],
                               st\<lparr>downloads := update_job (td_id d) j' (downloads st)\<rparr>))
                             (job_confirm (rm_os e) (local_fs st) j req))
                     in case is_write_need_confirmation (rm_of_json e) (local_fs st)
                              (is_support_file_transfer_resume_num (int (rm_version e)) \<and> is_resume j) path d of
                          IsSame \<Rightarrow> confirm (overwrite_request (td_id d) (td_file_num d) False)
                        | NoSuchFile \<Rightarrow> confirm (overwrite_request (td_id d) (td_file_num d) True)
                        | NeedConfirm d' \<Rightarrow>
                            (case digest_answer j d' of
                               Some req \<Rightarrow> confirm req
                             | None \<Rightarrow>
                                 Some ([AskOverwrite (td_id d') (td_file_num d') path False (td_is_identical d')],
                                       st\<lparr>downloads := update_job (td_id d) j (downloads st)\<rparr>)))))"

text \<open>A block that cannot be written is dropped.\<close>

definition on_block :: "remote_env \<Rightarrow> file_block \<Rightarrow> remote \<Rightarrow> client_out list \<times> remote" where
  "on_block e b st =
     (case get_job (blk_id b) (downloads st) of
        None \<Rightarrow> ([], st)
      | Some j \<Rightarrow>
          (case job_write (rm_os e) (rm_decompress e) (rm_json e) (local_fs st) j b of
             (r, fs, j') \<Rightarrow> ([], st\<lparr>local_fs := fs, downloads := update_job (blk_id b) j' (downloads st)\<rparr>)))"

definition on_done :: "nat \<Rightarrow> int \<Rightarrow> int \<Rightarrow> remote \<Rightarrow> client_out list \<times> remote" where
  "on_done t i n st =
     (case remove_job i (downloads st) of
        (None, _) \<Rightarrow> handle_job_status t i n None st
      | (Some j, ds) \<Rightarrow>
          (let st' = st\<lparr>local_fs := modify_time (local_fs st) j, downloads := ds\<rparr>
           in if job_type j = Generic then handle_job_status t i n (job_error j) st' else ([], st')))"

definition on_error :: "nat \<Rightarrow> int \<Rightarrow> string \<Rightarrow> int \<Rightarrow> remote \<Rightarrow> client_out list \<times> remote" where
  "on_error t i err n st =
     (case remove_job i (downloads st) of
        (None, _) \<Rightarrow> handle_job_status t i n (Some err) st
      | (Some j, ds) \<Rightarrow>
          (let st' = st\<lparr>downloads := ds\<rparr>
           in if job_type j = Generic then handle_job_status t i n (Some err) st' else ([], st')))"

definition from_peer :: "remote_env \<Rightarrow> nat \<Rightarrow> peer_response \<Rightarrow> remote \<Rightarrow> (client_out list \<times> remote) option" where
  "from_peer e t m st =
     (case m of
        RespDir i path files \<Rightarrow> Some (on_dir e i path files st)
      | RespDigest d up \<Rightarrow> if up then on_upload_digest e d st else on_download_digest e d st
      | RespBlock b \<Rightarrow> Some (on_block e b st)
      | RespDone i n \<Rightarrow> Some (on_done t i n st)
      | RespError i err n \<Rightarrow> Some (on_error t i err n st))"

end
