(* ===== verification/Client_Download.thy ===== *)
theory Client_Download
  imports Client_Files Transfer_Ticks
begin

text \<open>
  A download from end to end: the controlling side (\<open>Client_Files\<close>) asks for files, a connection of the controlled side
  (\<open>Session_Files\<close>) reads them, tick by tick, both confirm each file, and the controlling side writes them.
  Also what becomes of the errors of a download and of a removal.
\<close>

subsection \<open>Both sides in turns\<close>

text \<open>The controlled side: what a connection for files needs of its system, and its handlers.\<close>

record host =
  h_calls :: fs_calls
  h_os :: os
  h_fs :: fsys
  h_compress :: "bytes \<Rightarrow> bytes"
  h_detect :: bool
  h_direct :: bool
  h_conn :: int

definition response_of :: "transfer_msg \<Rightarrow> peer_response" where
  "response_of m =
     (case m of
        MsgDigest i n modified sz resume \<Rightarrow>
          RespDigest \<lparr>td_id = i, td_file_num = n, td_last_modified = modified, td_file_size = sz,
            td_is_identical = False, td_transferred_size = 0\<rparr> False
      | MsgBlock b \<Rightarrow> RespBlock b
      | MsgError i err n \<Rightarrow> RespError i err n
      | MsgDone i n \<Rightarrow> RespDone i n)"

definition effect_responses :: "file_effect list \<Rightarrow> peer_response list" where
  "effect_responses es = concat (map (\<lambda>x. case x of
     PeerDir i p files \<Rightarrow> [RespDir i p files] | PeerError i err n \<Rightarrow> [RespError i err n] | _ \<Rightarrow> []) es)"

definition peer_actions :: "client_out list \<Rightarrow> file_action list" where
  "peer_actions os = concat (map (\<lambda>x. case x of ToPeer a \<Rightarrow> [a] | _ \<Rightarrow> []) os)"

fun from_peer_all :: "remote_env \<Rightarrow> nat \<Rightarrow> peer_response list \<Rightarrow> remote \<Rightarrow> (client_out list \<times> remote) option" where
  "from_peer_all e t [] st = Some ([], st)"
| "from_peer_all e t (m # ms) st =
     (case from_peer e t m st of
        None \<Rightarrow> None
      | Some (o1, st1) \<Rightarrow> map_option (\<lambda>(o2, st2). (o1 @ o2, st2)) (from_peer_all e t ms st1))"

fun serve_all :: "host \<Rightarrow> nat \<Rightarrow> file_action list \<Rightarrow> file_state \<Rightarrow> (file_effect list \<times> file_state) option" where
  "serve_all h t [] f = Some ([], f)"
| "serve_all h t (a # as) f =
     (case on_file_request (h_calls h) (h_os h) (h_fs h) t (h_detect h) (h_conn h) a f of
        None \<Rightarrow> None
      | Some (e1, f1) \<Rightarrow> map_option (\<lambda>(e2, f2). (e1 @ e2, f2)) (serve_all h t as f1))"

text \<open>
  The start: the request of the user, its handling by the controlled side, and the listing that comes back.  Then the turns: a
  tick of the controlled side, all its messages, and what the controlling side answers.
\<close>

definition download_start ::
  "remote_env \<Rightarrow> host \<Rightarrow> nat \<Rightarrow> ui_msg \<Rightarrow> file_state \<Rightarrow> remote \<Rightarrow> (client_out list \<times> file_state \<times> remote) option" where
  "download_start e h t m f st =
     (case from_ui e t m st of
        None \<Rightarrow> None
      | Some (o1, st1) \<Rightarrow>
          (case serve_all h t (peer_actions o1) f of
             None \<Rightarrow> None
           | Some (es, f1) \<Rightarrow>
               map_option (\<lambda>(o2, st2). (o1 @ o2, f1, st2)) (from_peer_all e t (effect_responses es) st1)))"

definition download_turn ::
  "remote_env \<Rightarrow> host \<Rightarrow> nat \<Rightarrow> file_state \<times> remote \<Rightarrow> (client_out list \<times> file_state \<times> remote) option" where
  "download_turn e h t = (\<lambda>(f, st).
     case handle_read_jobs (h_os h) (h_compress h) (h_fs h) (h_direct h) (read_jobs f) of
       (ms, js) \<Rightarrow>
         (case from_peer_all e t (map response_of ms) st of
            None \<Rightarrow> None
          | Some (o1, st1) \<Rightarrow>
              map_option (\<lambda>(es, f1). (o1, f1, st1)) (serve_all h t (peer_actions o1) (f\<lparr>read_jobs := js\<rparr>))))"

fun download_turns ::
  "remote_env \<Rightarrow> host \<Rightarrow> nat \<Rightarrow> nat \<Rightarrow> file_state \<times> remote \<Rightarrow> (client_out list \<times> file_state \<times> remote) option" where
  "download_turns e h t 0 s = Some ([], s)"
| "download_turns e h t (Suc k) s =
     (case download_turn e h t s of
        None \<Rightarrow> None
      | Some (o1, s1) \<Rightarrow> map_option (\<lambda>(o2, s2). (o1 @ o2, s2)) (download_turns e h t k s1))"

subsection \<open>Lists of jobs\<close>

lemma get_update_job: "get_job i js = Some j \<Longrightarrow> job_id j' = i \<Longrightarrow> get_job i (update_job i j' js) = Some j'"
  by (induction js) (auto split: if_splits)

lemma remove_update_job:
  "get_job i js = Some j \<Longrightarrow> job_id j' = i \<Longrightarrow> remove_job i (update_job i j' js) = (Some j', snd (remove_job i js))"
  by (induction js) (auto split: prod.splits if_splits)

lemma get_job_id: "get_job i js = Some j \<Longrightarrow> job_id j = i"
  by (induction js) (auto split: if_splits)

lemma get_remove_job: "get_job i js = Some j \<Longrightarrow> remove_job i js = (Some j, snd (remove_job i js))"
  by (induction js) (auto split: prod.splits if_splits)

lemma update_update_job:
  "job_id j' = i \<Longrightarrow> update_job i j2 (update_job i j' js) = update_job i j2 js"
  by (induction js) auto

lemma job_write_settings:
  assumes "job_write env decompress json fs w b = (r, fs', w')"
  shows "file_error w' = file_error w" "file_skipped w' = file_skipped w" "is_resume w' = is_resume w"
    "job_type w' = job_type w"
proof -
  have prep: "file_error w1 = file_error w \<and> file_skipped w1 = file_skipped w \<and> is_resume w1 = is_resume w \<and> job_type w1 = job_type w"
    if "prepare_stream env json fs w b = (r1, fs1, w1)" for r1 fs1 w1
    using that by (auto simp: prepare_stream_def Let_def split: data_source.splits if_splits sum.splits)
  show "file_error w' = file_error w" "file_skipped w' = file_skipped w" "is_resume w' = is_resume w" "job_type w' = job_type w"
    using assms by (auto simp: job_write_def Let_def split: if_splits prod.splits sum.splits bool.splits option.splits
        dest!: prep)
qed


subsection \<open>The controlling side of a download\<close>

text \<open>What a download is about: its number, the paths on both sides, the files and their contents.\<close>

record plan =
  pl_id :: int
  pl_source :: string
  pl_target :: string
  pl_files :: "file_entry list"
  pl_data :: "nat \<Rightarrow> bytes"

abbreviation goal :: "plan \<Rightarrow> nat \<Rightarrow> string" where
  "goal p n \<equiv> target (pl_target p) (pl_files p) n"

abbreviation origin :: "plan \<Rightarrow> nat \<Rightarrow> string" where
  "origin p n \<equiv> target (pl_source p) (pl_files p) n"

definition fresh_writer :: "plan \<Rightarrow> transfer_job \<Rightarrow> bool" where
  "fresh_writer p w \<longleftrightarrow> receiver_ok (pl_target p) (pl_id p) (pl_files p) w \<and> file_error w = None \<and>
     \<not> file_skipped w \<and> \<not> is_resume w"

definition all_before :: "plan \<Rightarrow> nat \<Rightarrow> fsys \<Rightarrow> transfer_job \<Rightarrow> bool" where
  "all_before p n fs w \<longleftrightarrow> (\<forall>k < n. in_place (pl_target p) (pl_files p) (pl_data p) (modify_time fs w) k)"

definition absent_from :: "plan \<Rightarrow> nat \<Rightarrow> fsys \<Rightarrow> bool" where
  "absent_from p n fs \<longleftrightarrow> (\<forall>k. n \<le> k \<longrightarrow> k < length (pl_files p) \<longrightarrow> fs_files fs (goal p k) = None)"

text \<open>The writer before file \<open>n\<close>, and in it with \<open>c\<close> written.\<close>

definition before_file :: "plan \<Rightarrow> nat \<Rightarrow> fsys \<Rightarrow> transfer_job \<Rightarrow> bool" where
  "before_file p n fs w \<longleftrightarrow> fresh_writer p w \<and> all_before p n fs w \<and> absent_from p n fs \<and>
     (\<exists>m \<le> n. file_num w = int m \<and> (m < n \<or> data_stream w = None))"

definition in_file :: "plan \<Rightarrow> nat \<Rightarrow> bytes \<Rightarrow> fsys \<Rightarrow> transfer_job \<Rightarrow> bool" where
  "in_file p n c fs w \<longleftrightarrow> fresh_writer p w \<and> all_before p n fs w \<and> absent_from p (Suc n) fs \<and>
     file_num w = int n \<and> data_stream w = Some (FileStream (goal p n @ ''.download'') (length c)) \<and>
     map_option file_data (fs_files fs (goal p n @ ''.download'')) = Some c"

definition writer_at :: "plan \<Rightarrow> nat \<Rightarrow> nat \<Rightarrow> fsys \<Rightarrow> transfer_job \<Rightarrow> bool" where
  "writer_at p n pos fs w =
     (if pos = 0 then before_file p n fs w else in_file p n (take pos (pl_data p n)) fs w)"

definition plan_ok :: "remote_env \<Rightarrow> host \<Rightarrow> plan \<Rightarrow> bool" where
  "plan_ok e h p \<longleftrightarrow> independent (pl_target p) (pl_files p) \<and> grants (rm_os e) \<and> \<not> rm_peer_windows e \<and>
     (\<forall>b. rm_decompress e (h_compress h b) = b) \<and>
     (\<forall>n < length (pl_files p). \<not> is_dir_marker (entry_name (pl_files p ! n)) \<and> can_open (h_os h) (origin p n) \<and>
        can_read (h_os h) (origin p n) \<and> map_option file_data (fs_files (h_fs h) (origin p n)) = Some (pl_data p n))"

lemma apart:
  assumes "independent rp files" and "a < length files" and "b < length files"
  shows "a \<noteq> b \<Longrightarrow> target rp files a \<noteq> target rp files b" "target rp files a \<noteq> target rp files b @ ''.download''"
    "target rp files a \<noteq> target rp files b @ ''.digest''"
  using assms unfolding independent_def by metis+

text \<open>A file that is written is left behind: it is in place as soon as the writer goes on.\<close>

lemma in_file_done:
  assumes "plan_ok e h p" and "n < length (pl_files p)" and "in_file p n (pl_data p n) fs w"
  shows "before_file p (Suc n) fs w"
proof -
  have w: "receiver_ok (pl_target p) (pl_id p) (pl_files p) w" "file_num w = int n"
    using assms(3) by (simp_all add: in_file_def fresh_writer_def)
  obtain f where f: "fs_files fs (goal p n @ ''.download'') = Some f" "file_data f = pl_data p n"
    using assms(3) by (auto simp: in_file_def)
  have "in_place (pl_target p) (pl_files p) (pl_data p) (modify_time fs w) n"
    using modify_time_target [OF w assms(2) f(1)] f(2) by (simp add: in_place_def)
  then have "all_before p (Suc n) fs w"
    using assms(3) by (auto simp: all_before_def in_file_def less_Suc_eq)
  then show ?thesis
    using assms(3) w by (auto simp: before_file_def in_file_def)
qed

lemma modify_time_apart:
  assumes "independent rp files" and "receiver_ok rp i files w" and "file_num w = int m"
    and "m < length files" and "k < length files" and "k \<noteq> m"
  shows "fs_files (modify_time fs w) (target rp files k) = fs_files fs (target rp files k)"
  by (rule modify_time_other [OF assms(2,3) apart(1) [OF assms(1,5,4,6)] apart(2,3) [OF assms(1,5,4)]])

lemma writer_first:
  assumes ok: "plan_ok e h p" and n: "n < length (pl_files p)" and w: "before_file p n fs w"
    and b: "blk_id b = pl_id p" "blk_file_num b = int n"
  shows "\<exists>fs' w'. job_write (rm_os e) (rm_decompress e) json fs w b = (Inr (), fs', w') \<and>
    in_file p n (decoded (rm_decompress e) b) fs' w'"
proof -
  let ?rp = "pl_target p" and ?fl = "pl_files p"
  have ind: "independent ?rp ?fl" and g: "grants (rm_os e)" and mark: "\<not> is_dir_marker (entry_name (?fl ! n))"
    using ok n by (simp_all add: plan_ok_def)
  obtain m where m: "file_num w = int m" "m \<le> n" "m < n \<or> data_stream w = None"
    using w by (auto simp: before_file_def)
  have new: "m \<noteq> n \<or> data_stream w = None" and rw: "receiver_ok ?rp (pl_id p) ?fl w" and ml: "m < length ?fl"
    using m w n by (auto simp: before_file_def fresh_writer_def)
  have can: "can_create (rm_os e) q" "can_remove (rm_os e) q" "can_write (rm_os e) q" for q
    using g by (simp_all add: grants_def)
  from job_write_first [OF rw n mark m(1) new b can, where decompress = "rm_decompress e" and json = json]
  obtain fs' w' f where one: "job_write (rm_os e) (rm_decompress e) json fs w b = (Inr (), fs', w')"
    and w': "receiver_ok ?rp (pl_id p) ?fl w'" "file_num w' = int n"
      "data_stream w' = Some (FileStream (goal p n @ ''.download'') (length (decoded (rm_decompress e) b)))"
    and f: "fs_files fs' (goal p n @ ''.download'') = Some f" "file_data f = decoded (rm_decompress e) b"
    and frame: "\<forall>q. q \<noteq> goal p n @ ''.download'' \<longrightarrow> q \<noteq> goal p n @ ''.digest'' \<longrightarrow>
      fs_files fs' q = fs_files (modify_time fs w) q" by blast
  have fr: "fs_files fs' (goal p k) = fs_files (modify_time fs w) (goal p k)" if "k < length ?fl" for k
    using frame apart(2,3) [OF ind that n] by simp
  have "all_before p n fs' w'"
    unfolding all_before_def
  proof (intro allI impI)
    fix k assume k: "k < n"
    with n have kl: "k < length ?fl" by simp
    have "fs_files (modify_time fs' w') (goal p k) = fs_files (modify_time fs w) (goal p k)"
      using modify_time_apart [OF ind w'(1,2) n kl] k fr [OF kl] by simp
    with w k show "in_place ?rp ?fl (pl_data p) (modify_time fs' w') k"
      by (simp add: before_file_def all_before_def in_place_def)
  qed
  moreover have "absent_from p (Suc n) fs'"
    unfolding absent_from_def
  proof (intro allI impI)
    fix k assume k: "Suc n \<le> k" "k < length ?fl"
    then have "fs_files fs' (goal p k) = fs_files fs (goal p k)"
      using fr [OF k(2)] modify_time_apart [OF ind rw m(1) ml k(2)] m(2) by simp
    with w k show "fs_files fs' (goal p k) = None" by (simp add: before_file_def absent_from_def)
  qed
  ultimately show ?thesis
    using one w' f w job_write_settings [OF one]
    by (intro exI [of _ fs'] exI [of _ w']) (simp add: in_file_def before_file_def fresh_writer_def)
qed

lemma writer_more:
  assumes ok: "plan_ok e h p" and n: "n < length (pl_files p)" and w: "in_file p n c fs w"
    and b: "blk_id b = pl_id p" "blk_file_num b = int n"
  shows "\<exists>fs' w'. job_write (rm_os e) (rm_decompress e) json fs w b = (Inr (), fs', w') \<and>
    in_file p n (c @ decoded (rm_decompress e) b) fs' w'"
proof -
  let ?rp = "pl_target p" and ?fl = "pl_files p" and ?q = "goal p n @ ''.download''"
  have ind: "independent ?rp ?fl" and mark: "\<not> is_dir_marker (entry_name (?fl ! n))" and can: "can_write (rm_os e) ?q"
    using ok n by (simp_all add: plan_ok_def grants_def)
  obtain f where f: "fs_files fs ?q = Some f" "file_data f = c" using w by (auto simp: in_file_def)
  have rw: "receiver_ok ?rp (pl_id p) ?fl w" "file_num w = int n" "data_stream w = Some (FileStream ?q (length c))"
    using w by (simp_all add: in_file_def fresh_writer_def)
  from job_write_more [OF rw(1) n mark rw(2,3) f b can, where decompress = "rm_decompress e" and json = json]
  obtain fs' w' f' where one: "job_write (rm_os e) (rm_decompress e) json fs w b = (Inr (), fs', w')"
    and w': "receiver_ok ?rp (pl_id p) ?fl w'" "file_num w' = int n"
      "data_stream w' = Some (FileStream ?q (length (c @ decoded (rm_decompress e) b)))"
    and f': "fs_files fs' ?q = Some f'" "file_data f' = c @ decoded (rm_decompress e) b"
    and frame: "\<forall>q. q \<noteq> ?q \<longrightarrow> fs_files fs' q = fs_files fs q" by blast
  have fr: "fs_files fs' (goal p k) = fs_files fs (goal p k)" if "k < length ?fl" for k
    using frame apart(2) [OF ind that n] by simp
  have "all_before p n fs' w'"
    unfolding all_before_def
  proof (intro allI impI)
    fix k assume k: "k < n"
    with n have kl: "k < length ?fl" by simp
    have "fs_files (modify_time fs' w') (goal p k) = fs_files (modify_time fs w) (goal p k)"
      using modify_time_apart [OF ind w'(1,2) n kl] modify_time_apart [OF ind rw(1,2) n kl] k fr [OF kl] by simp
    with w k show "in_place ?rp ?fl (pl_data p) (modify_time fs' w') k"
      by (simp add: in_file_def all_before_def in_place_def)
  qed
  moreover have "absent_from p (Suc n) fs'" using w fr by (simp add: in_file_def absent_from_def)
  ultimately show ?thesis
    using one w' f' w job_write_settings [OF one]
    by (intro exI [of _ fs'] exI [of _ w']) (simp add: in_file_def fresh_writer_def)
qed

text \<open>A block of file \<open>n\<close> at \<open>pos\<close>: the next bytes of the file, or none at its end.\<close>

lemma writer_block:
  assumes ok: "plan_ok e h p" and n: "n < length (pl_files p)" and w: "writer_at p n pos fs w"
    and b: "blk_id b = pl_id p" "blk_file_num b = int n"
    and dat: "decoded (rm_decompress e) b = take s (drop pos (pl_data p n))" "0 < s"
  shows "\<exists>fs' w'. job_write (rm_os e) (rm_decompress e) json fs w b = (Inr (), fs', w') \<and>
    (if drop pos (pl_data p n) = [] then writer_at p (Suc n) 0 fs' w'
     else writer_at p n (pos + length (take s (drop pos (pl_data p n)))) fs' w')"
proof -
  let ?d = "take s (drop pos (pl_data p n))"
  obtain fs' w' where wr: "job_write (rm_os e) (rm_decompress e) json fs w b = (Inr (), fs', w')"
    and c: "in_file p n (take pos (pl_data p n) @ ?d) fs' w'"
    using w writer_first [OF ok n _ b, of fs w json] writer_more [OF ok n _ b, of "take pos (pl_data p n)" fs w json] dat(1)
    by (cases "pos = 0") (auto simp: writer_at_def)
  have "if drop pos (pl_data p n) = [] then writer_at p (Suc n) 0 fs' w' else writer_at p n (pos + length ?d) fs' w'"
  proof (cases "drop pos (pl_data p n) = []")
    case True
    then have "in_file p n (pl_data p n) fs' w'" using c by simp
    from in_file_done [OF ok n this] True show ?thesis by (simp add: writer_at_def)
  next
    case False
    moreover have "take (length ?d) (drop pos (pl_data p n)) = ?d"
      by (cases "s \<le> length (drop pos (pl_data p n))") (auto simp: min_def)
    ultimately have "take pos (pl_data p n) @ ?d = take (pos + length ?d) (pl_data p n)" "0 < length ?d"
      using dat(2) by (simp_all only: take_add) (simp add: take_eq_Nil)
    then have nz: "pos + length ?d \<noteq> 0" by simp
    have "writer_at p n (pos + length ?d) fs' w'"
      using c \<open>take pos (pl_data p n) @ ?d = _\<close> by (simp only: writer_at_def if_not_P [OF nz])
    with False show ?thesis by simp
  qed
  with wr show ?thesis by blast
qed


text \<open>The state of the controlling side with this download as its last one.\<close>

definition client_at :: "plan \<Rightarrow> transfer_job list \<Rightarrow> nat \<Rightarrow> nat \<Rightarrow> remote \<Rightarrow> bool" where
  "client_at p js n pos st \<longleftrightarrow> removals st (pl_id p) = None \<and> get_job (pl_id p) js = None \<and>
     (\<exists>w. downloads st = js @ [w] \<and> writer_at p n pos (local_fs st) w)"

lemma writer_at_id: "writer_at p n pos fs w \<Longrightarrow> receiver_ok (pl_target p) (pl_id p) (pl_files p) w"
  by (auto simp: writer_at_def before_file_def in_file_def fresh_writer_def split: if_splits)

lemma writer_at_job_id: "writer_at p n pos fs w \<Longrightarrow> job_id w = pl_id p"
  using writer_at_id by (simp add: receiver_ok_def)

lemma client_block:
  assumes ok: "plan_ok e h p" and n: "n < length (pl_files p)" and st: "client_at p js n pos st"
    and b: "blk_id b = pl_id p" "blk_file_num b = int n"
    and dat: "decoded (rm_decompress e) b = take s (drop pos (pl_data p n))" "0 < s"
  shows "\<exists>st'. from_peer e t (RespBlock b) st = Some ([], st') \<and>
    (if drop pos (pl_data p n) = [] then client_at p js (Suc n) 0 st'
     else client_at p js n (pos + length (take s (drop pos (pl_data p n)))) st')"
proof -
  obtain w where w: "downloads st = js @ [w]" "writer_at p n pos (local_fs st) w"
    and fresh: "get_job (pl_id p) js = None" "removals st (pl_id p) = None"
    using st by (auto simp: client_at_def)
  from writer_block [OF ok n w(2) b dat, where json = "rm_json e"]
  obtain fs' w' where wr: "job_write (rm_os e) (rm_decompress e) (rm_json e) (local_fs st) w b = (Inr (), fs', w')"
    and w': "if drop pos (pl_data p n) = [] then writer_at p (Suc n) 0 fs' w'
      else writer_at p n (pos + length (take s (drop pos (pl_data p n)))) fs' w'" by blast
  have id: "job_id w = pl_id p" by (rule writer_at_job_id [OF w(2)])
  show ?thesis
    using w fresh id wr w' b(1)
    by (intro exI [of _ "st\<lparr>local_fs := fs', downloads := js @ [w']\<rparr>"])
      (auto simp: from_peer_def on_block_def get_job_last update_job_last client_at_def)
qed

lemma modify_time_cong:
  "job_type w' = job_type w \<Longrightarrow> data_source w' = data_source w \<Longrightarrow> file_num w' = file_num w \<Longrightarrow>
    job_files w' = job_files w \<Longrightarrow> modify_time fs w' = modify_time fs w"
  by (cases "data_source w") (simp_all add: modify_time_def Let_def)

text \<open>A digest of a file that is not there yet is answered with the request to send all of it.\<close>

lemma client_digest:
  assumes n: "n < length (pl_files p)" and st: "client_at p js n 0 st"
  shows "\<exists>st'. from_peer e t (response_of (MsgDigest (pl_id p) (int n) modified sz False)) st =
      Some ([ToPeer (FaSendConfirm (overwrite_request (pl_id p) (int n) True))], st') \<and> client_at p js n 0 st'"
proof -
  obtain w where w: "downloads st = js @ [w]" "before_file p n (local_fs st) w"
    and fresh: "get_job (pl_id p) js = None" "removals st (pl_id p) = None"
    using st by (auto simp: client_at_def writer_at_def)
  have rw: "receiver_ok (pl_target p) (pl_id p) (pl_files p) w" "\<not> is_resume w"
    using w(2) by (simp_all add: before_file_def fresh_writer_def)
  then have id: "job_id w = pl_id p" "data_source w = FilePath (pl_target p)" "job_files w = pl_files p"
    by (simp_all add: receiver_ok_def)
  have new: "fs_files (local_fs st) (goal p n) = None" using w(2) n by (simp add: before_file_def absent_from_def)
  let ?w1 = "set_digest w sz modified" and ?req = "overwrite_request (pl_id p) (int n) True"
  define w2 where "w2 = (if file_num w = int n then set_file_confirmed ?w1 True else ?w1)"
  have conf: "job_confirm (rm_os e) (local_fs st) ?w1 ?req = Some w2"
    by (simp add: job_confirm_def overwrite_request_def w2_def set_digest_def)
  have "job_id w2 = pl_id p"
    by (simp add: w2_def set_digest_def set_file_confirmed_def id)
  moreover have "modify_time (local_fs st) w2 = modify_time (local_fs st) w"
    by (rule modify_time_cong) (simp_all add: w2_def set_digest_def set_file_confirmed_def)
  then have "before_file p n (local_fs st) w2"
    using w(2)
    by (auto simp: before_file_def fresh_writer_def receiver_ok_def all_before_def w2_def set_digest_def
        set_file_confirmed_def)
  ultimately show ?thesis
    using w(1) fresh id new conf n rw(2)
    by (intro exI [of _ "st\<lparr>downloads := js @ [w2]\<rparr>"])
      (auto simp: from_peer_def response_of_def on_download_digest_def get_job_last update_job_last client_at_def
        writer_at_def is_write_need_confirmation_def set_digest_def Let_def)
qed

lemma client_done:
  assumes "client_at p js (length (pl_files p)) 0 st"
  shows "\<exists>st'. from_peer e t (RespDone (pl_id p) n) st = Some ([JobDone (pl_id p) n], st') \<and> downloads st' = js \<and>
    (\<forall>k < length (pl_files p). in_place (pl_target p) (pl_files p) (pl_data p) (local_fs st') k)"
proof -
  obtain w where w: "downloads st = js @ [w]" "before_file p (length (pl_files p)) (local_fs st) w"
    and fresh: "get_job (pl_id p) js = None" "removals st (pl_id p) = None"
    using assms by (auto simp: client_at_def writer_at_def)
  then have "job_id w = pl_id p" "job_type w = Generic" "job_error w = None"
    by (simp_all add: before_file_def fresh_writer_def receiver_ok_def job_error_def job_skipped_def)
  with w fresh show ?thesis
    by (simp add: from_peer_def on_done_def remove_job_last handle_job_status_def before_file_def all_before_def)
qed

subsection \<open>The controlled side of a download\<close>

definition reader_ok :: "host \<Rightarrow> plan \<Rightarrow> nat \<Rightarrow> transfer_job \<Rightarrow> bool" where
  "reader_ok h p n j \<longleftrightarrow> data_source j = FilePath (pl_source p) \<and> job_files j = pl_files p \<and> job_id j = pl_id p \<and>
     job_type j = Generic \<and> file_num j = int n \<and> \<not> is_last_job j \<and> \<not> is_resume j \<and> file_error j = None \<and> \<not> file_skipped j \<and>
     enable_overwrite_detection j = h_detect h"

text \<open>A reader at \<open>pos\<close> of file \<open>n\<close>, before it has opened it or with a stream that has been confirmed; and one that waits.\<close>

definition reader_at :: "host \<Rightarrow> plan \<Rightarrow> nat \<Rightarrow> nat \<Rightarrow> transfer_job \<Rightarrow> bool" where
  "reader_at h p n pos j \<longleftrightarrow> reader_ok h p n j \<and> n \<le> length (pl_files p) \<and> pos \<le> length (pl_data p n) \<and>
     (data_stream j = None \<and> pos = 0 \<and> \<not> file_confirmed j \<and> \<not> file_is_waiting j \<or>
      data_stream j = Some (FileStream (origin p n) pos) \<and> n < length (pl_files p) \<and> (h_detect h \<longrightarrow> file_confirmed j))"

definition reader_waits :: "host \<Rightarrow> plan \<Rightarrow> nat \<Rightarrow> transfer_job \<Rightarrow> bool" where
  "reader_waits h p n j \<longleftrightarrow> reader_ok h p n j \<and> n < length (pl_files p) \<and>
     data_stream j = Some (FileStream (origin p n) 0) \<and> h_detect h"

lemma read_digest:
  assumes "plan_ok e h p" and "reader_at h p n pos j" and "n < length (pl_files p)" and "h_detect h"
    and "data_stream j = None"
  shows "\<exists>j' modified sz. job_read (h_os h) (h_compress h) (h_fs h) j =
      (Inr None, j', [MsgDigest (pl_id p) (int n) modified sz False]) \<and> reader_waits h p n j' \<and> \<not> job_completed j'"
proof -
  obtain f where f: "fs_files (h_fs h) (origin p n) = Some f"
    and os: "can_open (h_os h) (origin p n)" "\<not> is_dir_marker (entry_name (pl_files p ! n))"
    using assms(1,3) by (auto simp: plan_ok_def)
  have r: "reader_ok h p n j" using assms(2) by (simp add: reader_at_def)
  then have j: "data_source j = FilePath (pl_source p)" "job_files j = pl_files p" "job_id j = pl_id p"
    "job_type j = Generic" "file_num j = int n" "\<not> is_resume j" "enable_overwrite_detection j"
    using assms(4) by (simp_all add: reader_ok_def)
  let ?j1 = "j\<lparr>data_stream := Some (FileStream (origin p n) 0), file_confirmed := False, file_is_waiting := False\<rparr>"
  have op: "open_source (h_os h) (h_fs h) j = Inr (?j1, entry_name (pl_files p ! n))"
    using j f os assms(3,5) by (simp add: open_source_def is_file_def Let_def)
  have "job_read (h_os h) (h_compress h) (h_fs h) j = (Inr None, ?j1\<lparr>file_is_waiting := True\<rparr>,
      [MsgDigest (pl_id p) (int n) (file_mtime f) (word_of_nat (length (file_data f))) False])"
    using j f by (simp add: job_read_def op send_current_digest_def)
  moreover have "reader_waits h p n (?j1\<lparr>file_is_waiting := True\<rparr>)"
    using r assms(3,4) by (simp add: reader_waits_def reader_ok_def)
  moreover have "\<not> job_completed (?j1\<lparr>file_is_waiting := True\<rparr>)"
    using j(7) by (simp add: job_completed_def)
  ultimately show ?thesis by blast
qed

lemma read_end:
  assumes "reader_at h p (length (pl_files p)) pos j"
  shows "\<exists>j'. job_read (h_os h) (h_compress h) (h_fs h) j = (Inr None, j', []) \<and> job_completed j' \<and> job_error j' = None \<and>
    job_id j' = pl_id p \<and> file_num j' = int (length (pl_files p))"
  using assms
  by (auto simp: reader_at_def reader_ok_def job_read_def open_source_def job_completed_def job_error_def job_skipped_def)


lemma read_next:
  assumes ok: "plan_ok e h p" and j: "reader_at h p n pos j" and n: "n < length (pl_files p)"
    and open_j: "h_detect h \<longrightarrow> data_stream j \<noteq> None"
  shows "\<exists>b j'. job_read (h_os h) (h_compress h) (h_fs h) j = (Inr (Some b), j', []) \<and>
    blk_id b = pl_id p \<and> blk_file_num b = int n \<and>
    decoded (rm_decompress e) b = take (block_size j) (drop pos (pl_data p n)) \<and>
    (if drop pos (pl_data p n) = [] then reader_at h p (Suc n) 0 j' \<and> data_stream j' = None
     else reader_at h p n (pos + length (take (block_size j) (drop pos (pl_data p n)))) j' \<and> data_stream j' \<noteq> None)"
proof -
  let ?D = "pl_data p" and ?buf = "take (block_size j) (drop pos (pl_data p n))"
  obtain f where f: "fs_files (h_fs h) (origin p n) = Some f" "file_data f = ?D n"
    and os: "can_open (h_os h) (origin p n)" "can_read (h_os h) (origin p n)" "\<not> is_dir_marker (entry_name (pl_files p ! n))"
    using ok n by (auto simp: plan_ok_def)
  have inv: "rm_decompress e (h_compress h x) = x" for x using ok by (simp add: plan_ok_def)
  have r: "data_source j = FilePath (pl_source p)" "job_files j = pl_files p" "job_id j = pl_id p"
    "job_type j = Generic" "file_num j = int n" "enable_overwrite_detection j = h_detect h" and ro: "reader_ok h p n j"
    and pos: "pos \<le> length (?D n)"
    using j by (simp_all add: reader_at_def reader_ok_def)
  define j1 where "j1 = (if data_stream j = None
    then j\<lparr>data_stream := Some (FileStream (origin p n) 0), file_confirmed := False, file_is_waiting := False\<rparr> else j)"
  have op: "open_source (h_os h) (h_fs h) j = Inr (j1, entry_name (pl_files p ! n))"
    using r f os n by (simp add: open_source_def is_file_def j1_def Let_def)
  have j1: "data_stream j1 = Some (FileStream (origin p n) pos)" "direct j1 = direct j" "reader_ok h p n j1"
    "h_detect h \<longrightarrow> file_confirmed j1"
    using j open_j ro by (auto simp: j1_def reader_at_def reader_ok_def)
  have r1: "data_source j1 = FilePath (pl_source p)" "job_id j1 = pl_id p" "file_num j1 = int n" "job_type j1 = Generic"
    "enable_overwrite_detection j1 = h_detect h"
    using j1(3) by (simp_all add: reader_ok_def)
  have rd: "job_read (h_os h) (h_compress h) (h_fs h) j =
      (case read_block (h_os h) (h_compress h) (h_fs h) j1 (entry_name (pl_files p ! n)) of (res, j2) \<Rightarrow> (res, j2, []))"
    using r1 j1(4) by (auto simp: job_read_def op)
  have fill: "read_fill (h_os h) (stream_bytes (h_fs h) (FileStream (origin p n) pos)) pos (block_size j) = ?buf"
    by (simp add: read_fill_take stream_bytes_def f)
  show ?thesis
  proof (cases "drop pos (?D n) = []")
    case True
    then have "read_block (h_os h) (h_compress h) (h_fs h) j1 (entry_name (pl_files p ! n)) =
        (Inr (Some \<lparr>blk_id = pl_id p, blk_file_num = int n, blk_data = [], blk_compressed = False\<rparr>),
         (advance_file j1)\<lparr>data_stream := None\<rparr>)"
      using j1 r1 os fill by (simp add: read_block_def stream_readable_def stream_pos_def Let_def block_size_def)
    moreover have "reader_at h p (Suc n) 0 ((advance_file j1)\<lparr>data_stream := None\<rparr>)"
      using j1(3) n by (simp add: reader_at_def reader_ok_def advance_file_def)
    ultimately show ?thesis using True by (simp add: rd decoded_def)
  next
    case False
    then have ne: "?buf \<noteq> []" by (simp add: take_eq_Nil)
    obtain b where rb: "read_block (h_os h) (h_compress h) (h_fs h) j1 (entry_name (pl_files p ! n)) =
        (Inr (Some b), j1\<lparr>data_stream := Some (FileStream (origin p n) (pos + length ?buf)),
           finished_size := finished_size j1 + word_of_nat (length ?buf),
           transferred := transferred j1 + word_of_nat (length (blk_data b))\<rparr>)"
      and b: "blk_id b = pl_id p" "blk_file_num b = int n" "decoded (rm_decompress e) b = ?buf"
      using j1 r1 os fill ne inv
      by (auto simp: read_block_def stream_readable_def stream_pos_def stream_seek_def Let_def block_size_def decoded_def)
    have "pos + length ?buf \<le> length (?D n)" using pos by simp
    then have "reader_at h p n (pos + length ?buf) (j1\<lparr>data_stream := Some (FileStream (origin p n) (pos + length ?buf)),
        finished_size := finished_size j1 + word_of_nat (length ?buf),
        transferred := transferred j1 + word_of_nat (length (blk_data b))\<rparr>)"
      using j1(3,4) n by (simp add: reader_at_def reader_ok_def)
    with rb b False show ?thesis by (simp add: rd)
  qed
qed


subsection \<open>Turns\<close>

text \<open>What is left to do: every file needs its bytes, its opening and its end.\<close>

definition work_left :: "plan \<Rightarrow> nat \<Rightarrow> nat \<Rightarrow> bool \<Rightarrow> nat" where
  "work_left p n pos opened =
     sum_list (map (\<lambda>k. length (pl_data p k) + 2) [n..<length (pl_files p)]) - pos - (if opened then 1 else 0)"

lemma work_left_file:
  "n < length (pl_files p) \<Longrightarrow> work_left p n pos o1 = work_left p (Suc n) 0 False + length (pl_data p n) + 2 - pos - (if o1 then 1 else 0)"
  by (simp add: work_left_def upt_conv_Cons)

lemma work_left_less:
  assumes "n < length (pl_files p)" and "pos \<le> length (pl_data p n)"
  shows "work_left p (Suc n) 0 False < work_left p n pos o1"
    "pos < pos' \<Longrightarrow> pos' \<le> length (pl_data p n) \<Longrightarrow> work_left p n pos' True < work_left p n pos True"
    "pos' \<le> length (pl_data p n) \<Longrightarrow> pos \<le> pos' \<Longrightarrow> work_left p n pos' True < work_left p n pos False"
  using assms by (auto simp: work_left_file)

definition asks_all :: "plan \<Rightarrow> nat \<Rightarrow> file_action" where
  "asks_all p n = FaSendConfirm (overwrite_request (pl_id p) (int n) True)"

text \<open>
  How a burst of the reader may end whose messages are all taken by a receiver: in the middle of a file, with a question
  about the file that was opened, or at the end of the job.  \<open>m\<close> bounds the work that is left; \<open>holds\<close> says how far the
  receiver is, \<open>ended\<close> that it has everything, \<open>ask\<close> and \<open>tell\<close> are what it answers.
\<close>

definition burst_end ::
  "host \<Rightarrow> plan \<Rightarrow> (nat \<Rightarrow> nat \<Rightarrow> 's \<Rightarrow> bool) \<Rightarrow> ('s \<Rightarrow> bool) \<Rightarrow> (nat \<Rightarrow> 'o list) \<Rightarrow> 'o list \<Rightarrow> nat \<Rightarrow> 'o list
     \<Rightarrow> transfer_job \<Rightarrow> bool \<Rightarrow> 's \<Rightarrow> bool" where
  "burst_end h p holds ended ask tell m os j fin st \<longleftrightarrow>
     (\<not> fin \<and> os = [] \<and> (\<exists>n pos. reader_at h p n pos j \<and> holds n pos st \<and>
        work_left p n pos (data_stream j \<noteq> None) < m)) \<or>
     (\<not> fin \<and> (\<exists>n. os = ask n \<and> reader_waits h p n j \<and> holds n 0 st \<and> work_left p n 0 True < m)) \<or>
     (fin \<and> os = tell \<and> ended st \<and> job_id j = pl_id p)"

lemma burst_end_mono:
  assumes "burst_end h p holds ended ask tell m os j fin st" and "m \<le> m'"
  shows "burst_end h p holds ended ask tell m' os j fin st"
proof -
  have "x < m \<Longrightarrow> x < m'" for x using assms(2) by simp
  with assms(1) show ?thesis unfolding burst_end_def by blast
qed

fun take_msgs :: "(transfer_msg \<Rightarrow> 's \<Rightarrow> ('o list \<times> 's) option) \<Rightarrow> transfer_msg list \<Rightarrow> 's \<Rightarrow> ('o list \<times> 's) option" where
  "take_msgs f [] s = Some ([], s)"
| "take_msgs f (m # ms) s =
     (case f m s of
        None \<Rightarrow> None
      | Some (o1, s1) \<Rightarrow> map_option (\<lambda>(o2, s2). (o1 @ o2, s2)) (take_msgs f ms s1))"

text \<open>
  What a transfer needs of the side that receives: it takes the next block of a file, answers the digest of a file that is
  not there with a question for all of it, and has every file in place at the end of the job.
\<close>

locale file_receiver =
  fixes env_of :: "'e \<Rightarrow> remote_env"
    and holds :: "plan \<Rightarrow> 'x \<Rightarrow> nat \<Rightarrow> nat \<Rightarrow> 's \<Rightarrow> bool"
    and ended :: "plan \<Rightarrow> 'x \<Rightarrow> 's \<Rightarrow> bool"
    and takes :: "'e \<Rightarrow> transfer_msg \<Rightarrow> 's \<Rightarrow> ('o list \<times> 's) option"
    and ask :: "plan \<Rightarrow> nat \<Rightarrow> 'o list"
    and tell :: "plan \<Rightarrow> 'o list"
  assumes takes_block: "\<lbrakk>plan_ok (env_of e) h p; n < length (pl_files p); holds p x n pos s;
      blk_id b = pl_id p; blk_file_num b = int n;
      decoded (rm_decompress (env_of e)) b = take l (drop pos (pl_data p n)); 0 < l\<rbrakk> \<Longrightarrow>
      \<exists>s'. takes e (MsgBlock b) s = Some ([], s') \<and>
        (if drop pos (pl_data p n) = [] then holds p x (Suc n) 0 s'
         else holds p x n (pos + length (take l (drop pos (pl_data p n)))) s')"
    and takes_digest: "\<lbrakk>plan_ok (env_of e) h p; n < length (pl_files p); holds p x n 0 s\<rbrakk> \<Longrightarrow>
      \<exists>s'. takes e (MsgDigest (pl_id p) (int n) modified sz False) s = Some (ask p n, s') \<and> holds p x n 0 s'"
    and takes_done: "holds p x (length (pl_files p)) 0 s \<Longrightarrow>
      \<exists>s'. takes e (MsgDone (pl_id p) (int (length (pl_files p)))) s = Some (tell p, s') \<and> ended p x s'"
begin

abbreviation burst_ends where
  "burst_ends h p x \<equiv> burst_end h p (holds p x) (ended p x) (ask p) (tell p)"

lemma burst:
  assumes ok: "plan_ok (env_of e) h p"
  shows "reader_at h p n pos j \<Longrightarrow> holds p x n pos st \<Longrightarrow>
    \<exists>ms j' fin os st'. read_burst (h_os h) (h_compress h) (h_fs h) mx k sent j = (ms, j', fin) \<and>
      take_msgs (takes e) ms st = Some (os, st') \<and>
      burst_ends h p x (work_left p n pos (data_stream j \<noteq> None) + (if k = 0 then 1 else 0)) os j' fin st'"
proof (induction k arbitrary: n pos j st sent)
  case 0
  have "burst_ends h p x (work_left p n pos (data_stream j \<noteq> None) + 1) [] j False st"
    unfolding burst_end_def by (intro disjI1 conjI exI [of _ n] exI [of _ pos]) (use 0 in simp_all)
  then show ?case by auto
next
  case (Suc k)
  let ?L = "length (pl_files p)"
  have n: "n \<le> ?L" and pos: "pos \<le> length (pl_data p n)" using Suc.prems(1) by (simp_all add: reader_at_def)
  consider (fin) "n = ?L" | (ask) "n < ?L" "h_detect h" "data_stream j = None"
    | (block) "n < ?L" "h_detect h \<longrightarrow> data_stream j \<noteq> None"
    using n by fastforce
  then show ?case
  proof cases
    case fin
    have "pos = 0" using Suc.prems(1) fin by (auto simp: reader_at_def)
    with Suc.prems(2) fin have c: "holds p x ?L 0 st" by simp
    from takes_done [OF c, where e = e] obtain st'
      where st': "takes e (MsgDone (pl_id p) (int ?L)) st = Some (tell p, st')" "ended p x st'" by blast
    from read_end [of h p pos j] Suc.prems(1) fin obtain j'
      where "job_read (h_os h) (h_compress h) (h_fs h) j = (Inr None, j', [])" "job_completed j'" "job_error j' = None"
        "job_id j' = pl_id p" "file_num j' = int ?L" by blast
    then have "read_burst (h_os h) (h_compress h) (h_fs h) mx (Suc k) sent j = ([MsgDone (pl_id p) (int ?L)], j', True)"
      "burst_ends h p x m (tell p) j' True st'" for m
      using st'(2) by (simp_all add: burst_end_def)
    moreover have "take_msgs (takes e) [MsgDone (pl_id p) (int ?L)] st = Some (tell p, st')" using st'(1) by simp
    ultimately show ?thesis by blast
  next
    case ask
    have p0: "pos = 0" using Suc.prems(1) ask by (auto simp: reader_at_def)
    from read_digest [OF ok Suc.prems(1) ask] obtain j' modified sz
      where j': "job_read (h_os h) (h_compress h) (h_fs h) j = (Inr None, j', [MsgDigest (pl_id p) (int n) modified sz False])"
        "reader_waits h p n j'" "\<not> job_completed j'" by blast
    from takes_digest [OF ok ask(1), of x st modified sz] Suc.prems(2) p0 obtain st'
      where st': "takes e (MsgDigest (pl_id p) (int n) modified sz False) st = Some (ask p n, st')" "holds p x n 0 st'"
      by blast
    have "work_left p n 0 True < work_left p n 0 False" by (rule work_left_less(3) [OF ask(1)]) simp_all
    then have "burst_ends h p x (work_left p n 0 False + m) (ask p n) j' False st'" for m
      unfolding burst_end_def by (intro disjI2 disjI1 conjI exI [of _ n]) (use j'(2) st'(2) in simp_all)
    from this [of 0] have "burst_ends h p x (work_left p n pos (data_stream j \<noteq> None) + (if Suc k = 0 then 1 else 0))
        (ask p n) j' False st'"
      using ask(3) p0 by simp
    moreover have "read_burst (h_os h) (h_compress h) (h_fs h) mx (Suc k) sent j =
        ([MsgDigest (pl_id p) (int n) modified sz False], j', False)" using j'(1,3) by simp
    moreover have "take_msgs (takes e) [MsgDigest (pl_id p) (int n) modified sz False] st = Some (ask p n, st')"
      using st'(1) by simp
    ultimately show ?thesis by blast
  next
    case block
    let ?d = "take (block_size j) (drop pos (pl_data p n))"
    from read_next [OF ok Suc.prems(1) block] obtain b j1
      where rd: "job_read (h_os h) (h_compress h) (h_fs h) j = (Inr (Some b), j1, [])"
        and b: "blk_id b = pl_id p" "blk_file_num b = int n" "decoded (rm_decompress (env_of e)) b = ?d"
        and j1: "if drop pos (pl_data p n) = [] then reader_at h p (Suc n) 0 j1 \<and> data_stream j1 = None
          else reader_at h p n (pos + length ?d) j1 \<and> data_stream j1 \<noteq> None" by blast
    from takes_block [OF ok block(1) Suc.prems(2) b block_size_pos] obtain st1
      where st1: "takes e (MsgBlock b) st = Some ([], st1)"
        and c1: "if drop pos (pl_data p n) = [] then holds p x (Suc n) 0 st1 else holds p x n (pos + length ?d) st1"
      by blast
    have "\<exists>n1 pos1. reader_at h p n1 pos1 j1 \<and> holds p x n1 pos1 st1 \<and>
        work_left p n1 pos1 (data_stream j1 \<noteq> None) < work_left p n pos (data_stream j \<noteq> None)"
    proof (cases "drop pos (pl_data p n) = []")
      case True
      with j1 c1 work_left_less(1) [OF block(1) pos] show ?thesis
        by (intro exI [of _ "Suc n"] exI [of _ 0]) simp
    next
      case False
      then have "pos < pos + length ?d" "pos + length ?d \<le> length (pl_data p n)" by auto
      with work_left_less(2,3) [OF block(1) pos, of "pos + length ?d"]
      have "work_left p n (pos + length ?d) True < work_left p n pos (data_stream j \<noteq> None)"
        by (cases "data_stream j = None") simp_all
      with False j1 c1 show ?thesis by (intro exI [of _ n] exI [of _ "pos + length ?d"]) simp
    qed
    then obtain n1 pos1 where nx: "reader_at h p n1 pos1 j1" "holds p x n1 pos1 st1"
      "work_left p n1 pos1 (data_stream j1 \<noteq> None) < work_left p n pos (data_stream j \<noteq> None)" by blast
    show ?thesis
    proof (cases "k = 0 \<or> mx \<le> sent + length (blk_data b)")
      case True
      have "burst_ends h p x (work_left p n pos (data_stream j \<noteq> None) + m) [] j1 False st1" for m
        unfolding burst_end_def by (intro disjI1 conjI exI [of _ n1] exI [of _ pos1]) (use nx in simp_all)
      moreover have "read_burst (h_os h) (h_compress h) (h_fs h) mx (Suc k) sent j = ([MsgBlock b], j1, False)"
        using True rd by (simp add: Let_def)
      moreover have "take_msgs (takes e) [MsgBlock b] st = Some ([], st1)" using st1 by simp
      ultimately show ?thesis by blast
    next
      case False
      from Suc.IH [OF nx(1,2), of "sent + length (blk_data b)"] obtain ms j' fin os st'
        where ih: "read_burst (h_os h) (h_compress h) (h_fs h) mx k (sent + length (blk_data b)) j1 = (ms, j', fin)"
          "take_msgs (takes e) ms st1 = Some (os, st')"
          "burst_ends h p x (work_left p n1 pos1 (data_stream j1 \<noteq> None) + (if k = 0 then 1 else 0)) os j' fin st'"
        by blast
      have "burst_ends h p x (work_left p n pos (data_stream j \<noteq> None)) os j' fin st'"
        by (rule burst_end_mono [OF ih(3)]) (use nx(3) in simp)
      then have "burst_ends h p x (work_left p n pos (data_stream j \<noteq> None) + (if Suc k = 0 then 1 else 0)) os j' fin st'"
        by simp
      moreover have "read_burst (h_os h) (h_compress h) (h_fs h) mx (Suc k) sent j = (MsgBlock b # ms, j', fin)"
        using rd ih(1) False by (simp add: Let_def)
      moreover have "take_msgs (takes e) (MsgBlock b # ms) st = Some (os, st')" using st1 ih(2) by simp
      ultimately show ?thesis by blast
    qed
  qed
qed

end

text \<open>The controlling side is such a receiver.\<close>

definition client_ended :: "plan \<Rightarrow> transfer_job list \<Rightarrow> remote \<Rightarrow> bool" where
  "client_ended p js st \<longleftrightarrow> downloads st = js \<and>
     (\<forall>k < length (pl_files p). in_place (pl_target p) (pl_files p) (pl_data p) (local_fs st) k)"

interpretation to_client: file_receiver "\<lambda>e. e" client_at client_ended "\<lambda>e m. from_peer e t (response_of m)"
  "\<lambda>p n. [ToPeer (asks_all p n)]" "\<lambda>p. [JobDone (pl_id p) (int (length (pl_files p)))]" for t
proof
  fix e h p n pos x b l and s :: remote
  assume "plan_ok e h p" "n < length (pl_files p)" "client_at p x n pos s" "blk_id b = pl_id p" "blk_file_num b = int n"
    "decoded (rm_decompress e) b = take l (drop pos (pl_data p n))" "0 < l"
  from client_block [OF this, of t] show "\<exists>s'. from_peer e t (response_of (MsgBlock b)) s = Some ([], s') \<and>
      (if drop pos (pl_data p n) = [] then client_at p x (Suc n) 0 s'
       else client_at p x n (pos + length (take l (drop pos (pl_data p n)))) s')" by (simp add: response_of_def)
next
  fix e h p n x modified sz and s :: remote
  assume "n < length (pl_files p)" "client_at p x n 0 s"
  from client_digest [OF this] show "\<exists>s'. from_peer e t (response_of (MsgDigest (pl_id p) (int n) modified sz False)) s =
      Some ([ToPeer (asks_all p n)], s') \<and> client_at p x n 0 s'" by (simp add: asks_all_def)
next
  fix e p x and s :: remote
  assume "client_at p x (length (pl_files p)) 0 s"
  from client_done [OF this] show "\<exists>s'. from_peer e t (response_of (MsgDone (pl_id p) (int (length (pl_files p))))) s =
      Some ([JobDone (pl_id p) (int (length (pl_files p)))], s') \<and> client_ended p x s'"
    by (simp add: response_of_def client_ended_def)
qed

lemma from_peer_all_take: "from_peer_all e t (map response_of ms) st = take_msgs (\<lambda>m. from_peer e t (response_of m)) ms st"
  by (induction ms arbitrary: st) (auto split: option.splits)

lemma serve_confirm:
  assumes "reader_waits h p n j" and "read_jobs f = [j]"
  shows "serve_all h t [asks_all p n] f = Some ([], f\<lparr>read_jobs := [set_file_confirmed j True]\<rparr>)"
    "reader_at h p n 0 (set_file_confirmed j True)" "data_stream (set_file_confirmed j True) \<noteq> None"
  using assms
  by (auto simp: reader_waits_def reader_ok_def reader_at_def set_file_confirmed_def asks_all_def on_file_request_def
      overwrite_request_def job_confirm_def)

lemma peer_actions_to_peer [simp]: "peer_actions (map ToPeer as) = as"
  by (induction as) (simp_all add: peer_actions_def)

lemma turn_taken:
  assumes ok: "plan_ok e h p" and f: "read_jobs f = [j]" and j: "reader_at h p n pos j" and st: "client_at p js n pos st"
  shows "\<exists>f' st'.
    (\<exists>as n' pos' j'. download_turn e h t (f, st) = Some (map ToPeer as, f', st') \<and> read_jobs f' = [j'] \<and>
       reader_at h p n' pos' j' \<and> client_at p js n' pos' st' \<and>
       work_left p n' pos' (data_stream j' \<noteq> None) < work_left p n pos (data_stream j \<noteq> None)) \<or>
    (download_turn e h t (f, st) = Some ([JobDone (pl_id p) (int (length (pl_files p)))], f', st') \<and>
       read_jobs f' = [] \<and> downloads st' = js \<and>
       (\<forall>k < length (pl_files p). in_place (pl_target p) (pl_files p) (pl_data p) (local_fs st') k))"
proof -
  let ?m = "work_left p n pos (data_stream j \<noteq> None)"
  let ?mx = "if h_direct h then 16 * 1024 * 1024 else 2 * 1024 * 1024 :: nat" and ?k = "if h_direct h then 128 else 32 :: nat"
  from to_client.burst [OF ok j st, of ?mx ?k 0 t] obtain ms j' fin os st'
    where b: "read_burst (h_os h) (h_compress h) (h_fs h) ?mx ?k 0 j = (ms, j', fin)"
      and c: "from_peer_all e t (map response_of ms) st = Some (os, st')"
      and be: "to_client.burst_ends h p js ?m os j' fin st'" by (auto simp: from_peer_all_take split: if_splits)
  have "\<not> is_last_job j" using j by (simp add: reader_at_def reader_ok_def)
  with b have hr: "handle_read_jobs (h_os h) (h_compress h) (h_fs h) (h_direct h) [j] = (ms, if fin then [] else [j'])"
    by (simp add: handle_read_jobs_def Let_def)
  let ?f = "f\<lparr>read_jobs := if fin then [] else [j']\<rparr>"
  have turn: "download_turn e h t (f, st) = map_option (\<lambda>(es, f1). (os, f1, st')) (serve_all h t (peer_actions os) ?f)"
    by (simp add: download_turn_def f hr c)
  from be consider
      (go) n' pos' where "\<not> fin" "os = []" "reader_at h p n' pos' j'" "client_at p js n' pos' st'"
        "work_left p n' pos' (data_stream j' \<noteq> None) < ?m"
    | (ask) n' where "\<not> fin" "os = [ToPeer (asks_all p n')]" "reader_waits h p n' j'" "client_at p js n' 0 st'"
        "work_left p n' 0 True < ?m"
    | (over) "fin" "os = [JobDone (pl_id p) (int (length (pl_files p)))]" "downloads st' = js"
        "\<forall>k < length (pl_files p). in_place (pl_target p) (pl_files p) (pl_data p) (local_fs st') k"
    unfolding burst_end_def client_ended_def by blast
  then show ?thesis
  proof cases
    case go
    then show ?thesis
      by (intro exI [of _ ?f] exI [of _ st'] disjI1 exI [of _ "[]"] exI [of _ n'] exI [of _ pos'] exI [of _ j'])
        (simp add: turn peer_actions_def)
  next
    case ask
    let ?j = "set_file_confirmed j' True"
    have "read_jobs ?f = [j']" using ask(1) by simp
    note conf = serve_confirm [OF ask(3) this]
    have "peer_actions os = [asks_all p n']" by (simp add: ask(2) peer_actions_def)
    then have "download_turn e h t (f, st) = Some (map ToPeer [asks_all p n'], f\<lparr>read_jobs := [?j]\<rparr>, st')"
      using conf(1) by (simp add: turn ask(2))
    with conf(2,3) ask(4,5) show ?thesis
      by (intro exI [of _ "f\<lparr>read_jobs := [?j]\<rparr>"] exI [of _ st'] disjI1 exI [of _ "[asks_all p n']"] exI [of _ n']
          exI [of _ "0 :: nat"] exI [of _ ?j]) simp
  next
    case over
    then show ?thesis
      by (intro exI [of _ ?f] exI [of _ st'] disjI2) (simp add: turn peer_actions_def)
  qed
qed

lemma turns_taken:
  assumes ok: "plan_ok e h p"
  shows "read_jobs f = [j] \<Longrightarrow> reader_at h p n pos j \<Longrightarrow> client_at p js n pos st \<Longrightarrow>
    \<exists>k as f' st'. download_turns e h t k (f, st) =
        Some (map ToPeer as @ [JobDone (pl_id p) (int (length (pl_files p)))], f', st') \<and>
      read_jobs f' = [] \<and> downloads st' = js \<and>
      (\<forall>k < length (pl_files p). in_place (pl_target p) (pl_files p) (pl_data p) (local_fs st') k)"
proof (induction "work_left p n pos (data_stream j \<noteq> None)" arbitrary: f j n pos st rule: less_induct)
  case less
  from turn_taken [OF ok less.prems, of t] show ?case
  proof (elim exE disjE conjE)
    fix f1 st1 as n1 pos1 j1
    assume one: "download_turn e h t (f, st) = Some (map ToPeer as, f1, st1)"
      and nx: "read_jobs f1 = [j1]" "reader_at h p n1 pos1 j1" "client_at p js n1 pos1 st1"
        "work_left p n1 pos1 (data_stream j1 \<noteq> None) < work_left p n pos (data_stream j \<noteq> None)"
    from less.hyps [OF nx(4,1,2,3)] obtain k bs f2 st2
      where "download_turns e h t k (f1, st1) = Some (map ToPeer bs @ [JobDone (pl_id p) (int (length (pl_files p)))], f2, st2)"
        "read_jobs f2 = []" "downloads st2 = js"
        "\<forall>k < length (pl_files p). in_place (pl_target p) (pl_files p) (pl_data p) (local_fs st2) k" by blast
    with one show ?thesis
      by (intro exI [of _ "Suc k"] exI [of _ "as @ bs"] exI [of _ f2] exI [of _ st2]) simp
  next
    fix f1 st1
    assume "download_turn e h t (f, st) = Some ([JobDone (pl_id p) (int (length (pl_files p)))], f1, st1)"
      "read_jobs f1 = []" "downloads st1 = js"
      "\<forall>k < length (pl_files p). in_place (pl_target p) (pl_files p) (pl_data p) (local_fs st1) k"
    then show ?thesis
      by (intro exI [of _ "Suc 0"] exI [of _ "[]"] exI [of _ f1] exI [of _ st1]) simp
  qed
qed

lemma start_taken:
  assumes ok: "plan_ok e h p" and ls: "list_files (h_calls h) (pl_source p) hidden = Inr (pl_files p)"
    and f: "read_jobs f = []" and st: "get_job (pl_id p) (downloads st) = None" "removals st (pl_id p) = None"
    and new: "absent_from p 0 (local_fs st)"
  shows "\<exists>f1 st1 j. download_start e h t (SendFiles (pl_id p) Generic (pl_source p) (pl_target p) 0 hidden True) f st =
      Some ([ToPeer (FaSend \<lparr>snd_id = pl_id p, snd_path = pl_source p, snd_hidden = hidden, snd_file_num = 0, snd_type = 0\<rparr>),
        ShowFolder (pl_id p) (pl_source p) (pl_files p) False False], f1, st1) \<and>
    read_jobs f1 = [j] \<and> reader_at h p 0 0 j \<and> client_at p (downloads st) 0 0 st1"
proof -
  let ?w = "download_job e (pl_id p) Generic (pl_source p) (FilePath (pl_target p)) 0 hidden False"
  let ?w1 = "?w\<lparr>job_files := pl_files p\<rparr>"
  define j where "j = (new_write (pl_id p) Generic [] (FilePath (pl_source p)) 0 hidden False (pl_files p) (h_detect h))
    \<lparr>job_total_size := sum_sizes (pl_files p), transfer_job.is_remote := True\<rparr>"
  let ?f1 = "f\<lparr>read_jobs := [j], file_transferred := True\<rparr>"
  have mark: "\<forall>x \<in> set (pl_files p). \<not> is_dir_marker (entry_name x)"
    using ok by (auto simp: plan_ok_def in_set_conv_nth)
  have "fold (\<lambda>f fs. if is_dir_marker (entry_name f) then create_dir_all fs (job_join (pl_target p) (entry_name f)) else fs)
      xs fs = fs" if "\<forall>x \<in> set xs. \<not> is_dir_marker (entry_name x)" for xs fs
    using that by (induction xs) simp_all
  note no_dirs = this [OF mark]
  have wid: "job_id ?w = pl_id p" "job_id ?w1 = pl_id p" by (simp_all add: download_job_def new_write_def)
  have ui: "from_ui e t (SendFiles (pl_id p) Generic (pl_source p) (pl_target p) 0 hidden True) st =
      Some ([ToPeer (send_message ?w (pl_id p) Generic)], st\<lparr>downloads := downloads st @ [?w]\<rparr>)"
    by (simp add: from_ui_def send_files_def Let_def)
  have msg: "send_message ?w (pl_id p) Generic =
      FaSend \<lparr>snd_id = pl_id p, snd_path = pl_source p, snd_hidden = hidden, snd_file_num = 0, snd_type = 0\<rparr>"
    by (simp add: send_message_def download_job_def new_write_def int_of_job_type_def)
  have serve: "serve_all h t (peer_actions [ToPeer (send_message ?w (pl_id p) Generic)]) f =
      Some ([PeerDir (pl_id p) (pl_source p) (pl_files p), FileTimer], ?f1)"
    using ls f by (simp add: msg peer_actions_def on_file_request_def on_send_def job_type_of_int_def new_read_def j_def
        Let_def) (simp add: new_write_def)
  have dir: "from_peer_all e t (effect_responses [PeerDir (pl_id p) (pl_source p) (pl_files p), FileTimer])
      (st\<lparr>downloads := downloads st @ [?w]\<rparr>) =
    Some ([ShowFolder (pl_id p) (pl_source p) (pl_files p) False False], st\<lparr>downloads := downloads st @ [?w1]\<rparr>)"
  proof -
    have src: "data_source ?w = FilePath (pl_target p)" "\<not> is_resume ?w"
      by (simp_all add: download_job_def new_write_def)
    have "set_files (local_fs st) ?w (pl_files p) = (local_fs st, ?w1)"
      by (simp add: set_files_def src no_dirs)
    moreover have "set_finished_size_on_resume ?w1 = ?w1" by (simp add: set_finished_size_on_resume_def src)
    moreover have "get_job (pl_id p) (downloads st @ [?w]) = Some ?w"
      by (simp add: get_job_last [OF st(1)] wid)
    moreover have "update_job (pl_id p) ?w1 (downloads st @ [?w]) = downloads st @ [?w1]"
      by (rule update_job_last [OF st(1) wid(1)])
    moreover have "\<not> rm_peer_windows e" using ok by (simp add: plan_ok_def)
    ultimately have "on_dir e (pl_id p) (pl_source p) (pl_files p) (st\<lparr>downloads := downloads st @ [?w]\<rparr>) =
      ([ShowFolder (pl_id p) (pl_source p) (pl_files p) False False], st\<lparr>downloads := downloads st @ [?w1]\<rparr>)"
      by (simp add: on_dir_def Let_def)
    then show ?thesis by (simp add: effect_responses_def from_peer_def)
  qed
  have "reader_at h p 0 0 j"
    by (simp add: reader_at_def reader_ok_def j_def new_write_def)
  moreover have "client_at p (downloads st) 0 0 (st\<lparr>downloads := downloads st @ [?w1]\<rparr>)"
    using st new
    by (simp add: client_at_def writer_at_def before_file_def fresh_writer_def receiver_ok_def all_before_def
        download_job_def new_write_def)
  ultimately show ?thesis
    using ui serve dir msg
    by (intro exI [of _ ?f1] exI [of _ "st\<lparr>downloads := downloads st @ [?w1]\<rparr>"] exI [of _ j])
      (simp add: download_start_def)
qed


subsection \<open>A download arrives\<close>

text \<open>
  C3. A download arrives.  The controlling side asks for the files of a directory; the controlled side lists them, reads
  them in ticks, with or without overwrite detection, and asks about each file it opens; the controlling side answers and
  writes.  When the files can be read, none of them is on the controlling side yet and it may write there, then some number
  of turns brings the download to its end: every file is in place with the content and the time of its source, both sides
  forget the job, and the user sees one message, that the job is done; the rest goes to the peer, and nothing is asked.
\<close>

theorem download_completes:
  assumes "list_files (h_calls h) path hidden = Inr files"
    and "\<And>n. n < length files \<Longrightarrow> \<not> is_dir_marker (entry_name (files ! n)) \<and> can_open (h_os h) (target path files n) \<and>
      can_read (h_os h) (target path files n) \<and> map_option file_data (fs_files (h_fs h) (target path files n)) = Some (D n)"
    and "independent to files" and "grants (rm_os e)" and "\<And>b. rm_decompress e (h_compress h b) = b"
    and "\<not> rm_peer_windows e" and "\<And>n. n < length files \<Longrightarrow> fs_files (local_fs st) (target to files n) = None"
    and "get_job i (downloads st) = None" and "removals st i = None" and "read_jobs f = []"
  shows "\<exists>f1 st1 k as f2 st2.
    download_start e h t (SendFiles i Generic path to 0 hidden True) f st =
      Some ([ToPeer (FaSend \<lparr>snd_id = i, snd_path = path, snd_hidden = hidden, snd_file_num = 0, snd_type = 0\<rparr>),
        ShowFolder i path files False False], f1, st1) \<and>
    download_turns e h t k (f1, st1) = Some (map ToPeer as @ [JobDone i (int (length files))], f2, st2) \<and>
    (\<forall>n < length files. in_place to files D (local_fs st2) n) \<and> read_jobs f2 = [] \<and> downloads st2 = downloads st"
proof -
  let ?p = "\<lparr>pl_id = i, pl_source = path, pl_target = to, pl_files = files, pl_data = D\<rparr>"
  have ok: "plan_ok e h ?p" using assms(2-6) by (simp add: plan_ok_def)
  have "absent_from ?p 0 (local_fs st)" using assms(7) by (simp add: absent_from_def)
  with start_taken [OF ok, of hidden f st t] assms(1,8-10) obtain f1 st1 j
    where "download_start e h t (SendFiles i Generic path to 0 hidden True) f st =
      Some ([ToPeer (FaSend \<lparr>snd_id = i, snd_path = path, snd_hidden = hidden, snd_file_num = 0, snd_type = 0\<rparr>),
        ShowFolder i path files False False], f1, st1)"
      and s: "read_jobs f1 = [j]" "reader_at h ?p 0 0 j" "client_at ?p (downloads st) 0 0 st1" by auto
  moreover from turns_taken [OF ok s, of t] obtain k as f2 st2
    where "download_turns e h t k (f1, st1) = Some (map ToPeer as @ [JobDone i (int (length files))], f2, st2)"
      "read_jobs f2 = []" "downloads st2 = downloads st" "\<forall>k < length files. in_place to files D (local_fs st2) k" by auto
  ultimately show ?thesis by blast
qed

text \<open>Two files and a system that grants everything, with overwrite detection.\<close>

definition open_host :: host where
  "open_host = \<lparr>h_calls = \<lparr>list_files = (\<lambda>_ _. Inr two_files), call_result = (\<lambda>_. Inr ())\<rparr>, h_os = open_os, h_fs = small_fs,
     h_compress = (\<lambda>b. b), h_detect = True, h_direct = False, h_conn = 1\<rparr>"

definition open_env :: remote_env where
  "open_env = \<lparr>rm_os = open_os, rm_decompress = (\<lambda>b. b), rm_json = (\<lambda>_. []), rm_of_json = (\<lambda>_. None),
     rm_calls = upload_calls, rm_version = 1040005, rm_direct = False, rm_peer_windows = False, rm_sep = (\<lambda>_. ''/'')\<rparr>"

definition empty_remote :: remote where
  "empty_remote = \<lparr>uploads = [], downloads = [], removals = (\<lambda>_. None), local_fs = \<lparr>fs_files = (\<lambda>_. None), fs_dirs = {}\<rparr>\<rparr>"

lemma download_completes_witness:
  "\<exists>f1 st1 k as f2 st2.
    download_start open_env open_host 0 (SendFiles 1 Generic ''/s'' ''/r'' 0 True True) upload_state empty_remote =
      Some ([ToPeer (FaSend \<lparr>snd_id = 1, snd_path = ''/s'', snd_hidden = True, snd_file_num = 0, snd_type = 0\<rparr>),
        ShowFolder 1 ''/s'' two_files False False], f1, st1) \<and>
    download_turns open_env open_host 0 k (f1, st1) = Some (map ToPeer as @ [JobDone 1 (int (length two_files))], f2, st2) \<and>
    (\<forall>n < length two_files. in_place ''/r'' two_files (\<lambda>n. if n = 0 then [1, 2, 3] else []) (local_fs st2) n) \<and>
    read_jobs f2 = [] \<and> downloads st2 = downloads empty_remote"
proof (rule download_completes)
  fix n assume "n < length two_files"
  with small_sender show "\<not> is_dir_marker (entry_name (two_files ! n)) \<and> can_open (h_os open_host) (target ''/s'' two_files n) \<and>
      can_read (h_os open_host) (target ''/s'' two_files n) \<and>
      map_option file_data (fs_files (h_fs open_host) (target ''/s'' two_files n)) = Some (if n = 0 then [1, 2, 3] else [])"
    by (auto simp: sender_ok_def open_host_def Let_def)
qed (simp_all add: open_host_def open_env_def empty_remote_def upload_state_def)

end
