(* ===== verification/Client_Removal.thy ===== *)
theory Client_Removal
  imports Client_Download
begin

text \<open>
  What becomes of errors on the controlling side: of blocks that cannot be written (\<open>on_block\<close>), and of files that
  cannot be removed while the chain of a directory's removal runs (\<open>handle_job_status\<close>).
\<close>

subsection \<open>Requests to itself\<close>

text \<open>The queue of the session: a handler's requests to itself come after those that wait; the rest is shown or sent.
  Each request is served at the next of the given times.\<close>

definition self_requests :: "client_out list \<Rightarrow> ui_msg list" where
  "self_requests os = concat (map (\<lambda>x. case x of ToSelf m \<Rightarrow> [m] | _ \<Rightarrow> []) os)"

definition outward_only :: "client_out list \<Rightarrow> client_out list" where
  "outward_only os = concat (map (\<lambda>x. case x of ToSelf m \<Rightarrow> [] | _ \<Rightarrow> [x]) os)"

fun run_self :: "remote_env \<Rightarrow> nat list \<Rightarrow> ui_msg list \<Rightarrow> remote \<Rightarrow> (client_out list \<times> remote) option" where
  "run_self e ts [] st = Some ([], st)"
| "run_self e [] (m # ms) st = None"
| "run_self e (t # ts) (m # ms) st =
     (case from_ui e t m st of
        None \<Rightarrow> None
      | Some (o1, st1) \<Rightarrow>
          map_option (\<lambda>(o2, st2). (outward_only o1 @ o2, st2)) (run_self e ts (ms @ self_requests o1) st1))"

subsection \<open>The removal of a directory on this side\<close>

definition removal_path :: "removal_job \<Rightarrow> nat \<Rightarrow> string" where
  "removal_path j k = rj_path j @ rj_sep j @ entry_name (rj_files j ! k)"

definition removable :: "os \<Rightarrow> fsys \<Rightarrow> string \<Rightarrow> bool" where
  "removable os fs q \<longleftrightarrow> is_file fs q \<and> can_remove os q"

definition file_status :: "os \<Rightarrow> fsys \<Rightarrow> int \<Rightarrow> removal_job \<Rightarrow> nat \<Rightarrow> client_out" where
  "file_status os fs i j k = (if removable os fs (removal_path j k) then JobDone i (int k) else JobError i (os_error os) (int k))"

lemma sint_u32: "sint (word_of_int m :: u32) = signed_take_bit 31 m"
  by (simp add: signed_of_int)

lemma next_index_int:
  assumes "Suc k < 2 ^ 31"
  shows "next_index (int k) = Suc k"
proof -
  have "signed_take_bit 31 (int k + 1) = int k + 1"
    by (rule signed_take_bit_int_eq_self) (use assms in simp_all)
  then show ?thesis by (simp only: next_index_def sint_u32) (simp add: as_usize_def)
qed

lemma local_removal:
  "from_ui e t (RemoveFile i (removal_path j k) (int k) False) st =
     Some (if removable (rm_os e) (local_fs st) (removal_path j k)
           then handle_job_status t i (int k) None (st\<lparr>local_fs := remove_file (local_fs st) (removal_path j k)\<rparr>)
           else handle_job_status t i (int k) (Some (os_error (rm_os e))) st)"
  by (simp add: from_ui_def after_call_def local_remove_file_def removable_def)

definition cleared :: "os \<Rightarrow> fsys \<Rightarrow> removal_job \<Rightarrow> nat \<Rightarrow> string \<Rightarrow> fs_file option" where
  "cleared os fs j k q =
     (if can_remove os q \<and> (\<exists>n. k \<le> n \<and> n < length (rj_files j) \<and> q = removal_path j n) then None else fs_files fs q)"

text \<open>The files whose outcome is told, for requests served at the given times from file \<open>k\<close> on, when an outcome was last told
  at \<open>u\<close>.\<close>

fun reported :: "nat \<Rightarrow> nat list \<Rightarrow> nat \<Rightarrow> nat list" where
  "reported u [] k = []"
| "reported u [t] k = [k]"
| "reported u (t # t' # ts) k =
     (if 1000 \<le> t - u then k # reported t (t' # ts) (Suc k) else reported u (t' # ts) (Suc k))"

lemma reported_range: "n \<in> set (reported u ts k) \<Longrightarrow> k \<le> n \<and> n < k + length ts"
  by (induction u ts k rule: reported.induct) (auto split: if_splits)

lemma reported_fast: "ts \<noteq> [] \<Longrightarrow> \<forall>t \<in> set ts. t < u + 1000 \<Longrightarrow> reported u ts k = [k + length ts - 1]"
  by (induction u ts k rule: reported.induct) auto

lemma reported_last: "ts \<noteq> [] \<Longrightarrow> k + length ts - 1 \<in> set (reported u ts k)"
  by (induction u ts k rule: reported.induct) auto

lemma file_status_outward [simp]:
  "outward_only (file_status os fs i j k # xs) = file_status os fs i j k # outward_only xs"
  "self_requests (file_status os fs i j k # xs) = self_requests xs"
  "outward_only (ToSelf m # xs) = outward_only xs" "self_requests (ToSelf m # xs) = m # self_requests xs"
  "outward_only [] = []" "self_requests [] = []"
  by (simp_all add: outward_only_def self_requests_def file_status_def)

abbreviation told_at :: "removal_job \<Rightarrow> nat \<Rightarrow> removal_job" where
  "told_at j u \<equiv> j\<lparr>rj_last_update := u\<rparr>"

lemma removal_path_told [simp]: "removal_path (told_at j u) = removal_path j"
  by (simp add: fun_eq_iff removal_path_def)

text \<open>One request of the chain: the file goes when it may, the next one is asked for, and the outcome is told after a second.\<close>

lemma chain_step:
  assumes "rj_no_confirm j" and "\<not> rj_remote j" and "length (rj_files j) < 2 ^ 31" and "Suc k < length (rj_files j)"
    and "removals st i = Some (told_at j u)"
    and "fs1 = (if removable (rm_os e) (local_fs st) (removal_path j k)
                then remove_file (local_fs st) (removal_path j k) else local_fs st)"
  shows "from_ui e t (RemoveFile i (removal_path j k) (int k) False) st =
    (let ask = ToSelf (RemoveFile i (removal_path j (Suc k)) (int (Suc k)) False)
     in if 1000 \<le> t - u
        then Some ([ask, file_status (rm_os e) (local_fs st) i j k],
                   st\<lparr>local_fs := fs1, removals := (removals st)(i \<mapsto> told_at j t)\<rparr>)
        else Some ([ask], st\<lparr>local_fs := fs1\<rparr>))"
proof -
  have nx: "next_index (int k) = Suc k" using assms(3,4) by (intro next_index_int) simp
  show ?thesis
    unfolding local_removal file_status_def using assms(1,2,4,5) nx
    by (simp add: handle_job_status_def removal_path_def Let_def assms(6))
qed

lemma chain_end:
  assumes "rj_no_confirm j" and "length (rj_files j) < 2 ^ 31" and "length (rj_files j) = Suc k"
    and "removals st i = Some (told_at j u)"
    and "fs1 = (if removable (rm_os e) (local_fs st) (removal_path j k)
                then remove_file (local_fs st) (removal_path j k) else local_fs st)"
  shows "from_ui e t (RemoveFile i (removal_path j k) (int k) False) st =
    Some ([file_status (rm_os e) (local_fs st) i j k], st\<lparr>local_fs := fs1, removals := (removals st)(i := None)\<rparr>)"
proof -
  have nx: "next_index (int k) = Suc k" using assms(2,3) by (intro next_index_int) simp
  show ?thesis
    unfolding local_removal file_status_def using assms(1,3,4) nx
    by (simp add: handle_job_status_def Let_def assms(5))
qed

lemma after_removal:
  assumes "fs1 = (if removable os fs q then remove_file fs q else fs)"
  shows "fs_files fs1 p = (if p = q \<and> can_remove os q then None else fs_files fs p)" "fs_dirs fs1 = fs_dirs fs"
  by (auto simp: assms removable_def is_file_def remove_file_def)

lemma cleared_step:
  assumes "fs1 = (if removable os fs (removal_path j k) then remove_file fs (removal_path j k) else fs)"
    and "k < length (rj_files j)"
  shows "cleared os fs1 j (Suc k) = cleared os fs j k"
proof
  fix q
  have "(\<exists>n\<ge>k. n < length (rj_files j) \<and> q = removal_path j n) \<longleftrightarrow>
      q = removal_path j k \<or> (\<exists>n\<ge>Suc k. n < length (rj_files j) \<and> q = removal_path j n)"
    using assms(2) by (metis Suc_leD Suc_le_eq le_neq_implies_less order_refl)
  then show "cleared os fs1 j (Suc k) q = cleared os fs j k q"
    by (auto simp: cleared_def after_removal(1) [OF assms(1)])
qed

lemma later_status:
  assumes "fs1 = (if removable os fs (removal_path j k) then remove_file fs (removal_path j k) else fs)"
    and "inj_on (removal_path j) {..<length (rj_files j)}" and "k < n" and "n < length (rj_files j)"
  shows "file_status os fs1 i j n = file_status os fs i j n"
proof -
  have "removal_path j n \<noteq> removal_path j k"
    using inj_onD [OF assms(2), of n k] assms(3,4) by auto
  then show ?thesis by (simp add: file_status_def removable_def is_file_def after_removal(1) [OF assms(1)])
qed

lemma removal_chain:
  assumes "rj_no_confirm j" and "\<not> rj_remote j" and "length (rj_files j) < 2 ^ 31"
    and "inj_on (removal_path j) {..<length (rj_files j)}"
  shows "ts \<noteq> [] \<Longrightarrow> length (rj_files j) = k + length ts \<Longrightarrow> removals st i = Some (told_at j u) \<Longrightarrow>
    run_self e ts [RemoveFile i (removal_path j k) (int k) False] st =
      Some (map (file_status (rm_os e) (local_fs st) i j) (reported u ts k),
            st\<lparr>local_fs := (local_fs st)\<lparr>fs_files := cleared (rm_os e) (local_fs st) j k\<rparr>,
               removals := (removals st)(i := None)\<rparr>)"
proof (induction u ts k arbitrary: st rule: reported.induct)
  case (1 u k)
  then show ?case by simp
next
  case (2 u t k)
  define fs1 where "fs1 = (if removable (rm_os e) (local_fs st) (removal_path j k)
      then remove_file (local_fs st) (removal_path j k) else local_fs st)"
  have n: "length (rj_files j) = Suc k" using 2 by simp
  have "fs_files fs1 = cleared (rm_os e) (local_fs st) j k"
    by (auto simp: fun_eq_iff cleared_def after_removal(1) [OF fs1_def] n less_Suc_eq)
  then have "fs1 = (local_fs st)\<lparr>fs_files := cleared (rm_os e) (local_fs st) j k\<rparr>"
    using after_removal(2) [OF fs1_def] by simp
  with chain_end [OF assms(1,3) n 2(3) fs1_def] show ?case by (simp add: fun_upd_def)
next
  case (3 u t t' ts k)
  define fs1 where "fs1 = (if removable (rm_os e) (local_fs st) (removal_path j k)
      then remove_file (local_fs st) (removal_path j k) else local_fs st)"
  have n: "Suc k < length (rj_files j)" "length (rj_files j) = Suc k + length (t' # ts)" using 3 by simp_all
  note step = chain_step [OF assms(1,2,3) n(1) 3(5) fs1_def, of t, unfolded Let_def]
  have later: "map (file_status (rm_os e) fs1 i j) (reported v (t' # ts) (Suc k)) =
      map (file_status (rm_os e) (local_fs st) i j) (reported v (t' # ts) (Suc k))" for v
    using n(2) by (intro map_cong refl later_status [OF fs1_def assms(4)]) (auto dest: reported_range)
  note clear = cleared_step [OF fs1_def Suc_lessD [OF n(1)]] and dirs = after_removal(2) [OF fs1_def]
  show ?case
  proof (cases "1000 \<le> t - u")
    case True
    let ?st1 = "st\<lparr>local_fs := fs1, removals := (removals st)(i \<mapsto> told_at j t)\<rparr>"
    have "removals ?st1 i = Some (told_at j t)" by simp
    from 3(1) [OF True _ n(2) this] True step later [of t] show ?thesis
      by (simp add: clear dirs fun_upd_def [symmetric] split: option.splits)
  next
    case False
    have "removals (st\<lparr>local_fs := fs1\<rparr>) i = Some (told_at j u)" using 3(5) by simp
    from 3(2) [OF False _ n(2) this] False step later [of u] show ?thesis
      by (simp add: clear dirs)
  qed
qed

text \<open>
  C33. The chain of a removal goes to its end and hides what fails on the way.  When the user has agreed to the removal of
  all the files of a directory on this side, files with different paths, the request to remove the first file sets off the
  removal of all of them, each by a request of the session to itself, served at any times \<open>ts\<close>: every file that may be
  removed is gone, every other one stays, and the removal is forgotten.  The user is told the outcome of the files
  \<open>reported\<close> only: that of the last file, and that of a file before it when a second has passed since the last outcome
  told.  Every other failure stays hidden; a removal that takes less than a second tells the outcome of the last file and
  nothing else, so it is reported done although files of it could not be removed.
\<close>

theorem removal_hides_errors:
  assumes "removals st i = Some j" and "rj_no_confirm j" and "\<not> rj_remote j"
    and "rj_files j \<noteq> []" and "length (rj_files j) < 2 ^ 31" and "inj_on (removal_path j) {..<length (rj_files j)}"
    and "length ts = length (rj_files j)"
  shows "(\<exists>st'. run_self e ts [RemoveFile i (removal_path j 0) 0 False] st =
      Some (map (file_status (rm_os e) (local_fs st) i j) (reported (rj_last_update j) ts 0), st') \<and>
    (\<forall>n < length (rj_files j). removable (rm_os e) (local_fs st) (removal_path j n) \<longrightarrow>
      \<not> is_file (local_fs st') (removal_path j n)) \<and>
    (\<forall>q. \<not> (\<exists>n < length (rj_files j). q = removal_path j n) \<or> \<not> can_remove (rm_os e) q \<longrightarrow>
      fs_files (local_fs st') q = fs_files (local_fs st) q) \<and>
    removals st' i = None) \<and>
    length (rj_files j) - 1 \<in> set (reported (rj_last_update j) ts 0) \<and>
    ((\<forall>t \<in> set ts. t < rj_last_update j + 1000) \<longrightarrow> reported (rj_last_update j) ts 0 = [length (rj_files j) - 1])"
proof -
  have ts: "ts \<noteq> []" "length (rj_files j) = 0 + length ts" using assms(4,7) by auto
  have "removals st i = Some (told_at j (rj_last_update j))" using assms(1) by simp
  from removal_chain [OF assms(2,3,5,6) ts this, of e] reported_fast [OF ts(1), of "rj_last_update j" 0]
    reported_last [OF ts(1), of 0 "rj_last_update j"] assms(7)
  show ?thesis by (auto simp: cleared_def removable_def is_file_def)
qed

text \<open>Two files, of which the first may not be removed.\<close>

definition picky_env :: remote_env where
  "picky_env = open_env\<lparr>rm_os := open_os\<lparr>can_remove := (\<lambda>q. q \<noteq> ''/s/a'')\<rparr>\<rparr>"

definition two_removals :: removal_job where
  "two_removals = \<lparr>rj_files = two_files, rj_path = ''/s'', rj_sep = ''/'', rj_remote = False, rj_no_confirm = True,
     rj_last_update = 0\<rparr>"

definition removing :: remote where
  "removing = empty_remote\<lparr>removals := [1 \<mapsto> two_removals], local_fs := small_fs\<rparr>"

lemma removal_hides_errors_witness:
  "\<exists>st'. run_self picky_env [0, 0] [RemoveFile 1 ''/s/a'' 0 False] removing = Some ([JobDone 1 1], st') \<and>
     is_file (local_fs st') ''/s/a'' \<and> \<not> is_file (local_fs st') ''/s/b'' \<and> removals st' 1 = None"
proof -
  have paths: "removal_path two_removals 0 = ''/s/a''" "removal_path two_removals (Suc 0) = ''/s/b''"
    and len: "length (rj_files two_removals) = 2"
    by (simp_all add: removal_path_def two_removals_def two_files_def)
  have inj: "inj_on (removal_path two_removals) {..<length (rj_files two_removals)}"
    by (simp add: inj_on_def len paths lessThan_Suc numeral_2_eq_2)
  have fs: "is_file small_fs ''/s/a''" "is_file small_fs ''/s/b''" by (simp_all add: is_file_def small_fs_def)
  have st: "removals removing 1 = Some two_removals" "local_fs removing = small_fs" by (simp_all add: removing_def)
  have shown: "reported (rj_last_update two_removals) [0, 0] 0 = [1]" by (simp add: two_removals_def)
  have "rj_no_confirm two_removals" "\<not> rj_remote two_removals"
    "rj_files two_removals \<noteq> []" "length (rj_files two_removals) < 2 ^ 31"
    by (simp_all add: two_removals_def two_files_def)
  from removal_hides_errors [OF st(1) this inj, of "[0, 0]" picky_env] obtain st'
    where run: "run_self picky_env [0, 0] [RemoveFile 1 ''/s/a'' 0 False] removing =
        Some ([file_status (rm_os picky_env) small_fs 1 two_removals 1], st')"
      and gone: "\<forall>n < 2. removable (rm_os picky_env) small_fs (removal_path two_removals n) \<longrightarrow>
        \<not> is_file (local_fs st') (removal_path two_removals n)"
      and kept: "\<forall>q. \<not> (\<exists>n < 2. q = removal_path two_removals n) \<or> \<not> can_remove (rm_os picky_env) q \<longrightarrow>
        fs_files (local_fs st') q = fs_files small_fs q"
      and rm: "removals st' 1 = None"
    by (auto simp: len paths st shown)
  have "fs_files (local_fs st') ''/s/a'' = fs_files small_fs ''/s/a''"
    using kept by (simp add: picky_env_def)
  with fs(1) have "is_file (local_fs st') ''/s/a''" by (simp add: is_file_def)
  moreover have "removable (rm_os picky_env) small_fs (removal_path two_removals 1)"
    by (simp add: removable_def paths fs picky_env_def open_os_def)
  moreover from this gone have "\<not> is_file (local_fs st') (removal_path two_removals 1)" by simp
  ultimately show ?thesis
    using run rm by (simp add: file_status_def paths)
qed

subsection \<open>Blocks that cannot be written\<close>

text \<open>Nothing of the download is there: neither the files nor parts of them.\<close>

definition nothing_there :: "string \<Rightarrow> file_entry list \<Rightarrow> fsys \<Rightarrow> bool" where
  "nothing_there rp files fs \<longleftrightarrow> (\<forall>k < length files. fs_files fs (target rp files k) = None \<and>
     fs_files fs (target rp files k @ ''.download'') = None)"

lemma modify_time_nothing:
  assumes "nothing_there rp files fs" and "receiver_ok rp i files w"
  shows "nothing_there rp files (modify_time fs w)"
  using assms
  by (auto simp: nothing_there_def modify_time_def receiver_ok_def Let_def remove_file_def rename_file_def set_file_mtime_def)

lemma nothing_there_keep:
  "nothing_there rp files fs \<Longrightarrow> nothing_there rp files (remove_file fs q)"
  "nothing_there rp files fs \<Longrightarrow> nothing_there rp files (create_dir_all fs q)"
  by (auto simp: nothing_there_def remove_file_def create_dir_all_def)

lemma refused_write:
  assumes none: "nothing_there rp files fs" and w: "receiver_ok rp i files w" "data_stream w = None"
    and no: "\<And>q. \<not> can_create env q" and wr: "job_write env decompress json fs w b = (r, fs', w')"
  shows "nothing_there rp files fs' \<and> receiver_ok rp i files w' \<and> data_stream w' = None"
proof -
  note mt = modify_time_nothing [OF none w(1)]
  have src: "data_source w = FilePath rp" "job_files w = files" using w(1) by (simp_all add: receiver_ok_def)
  have prep: "nothing_there rp files fs1 \<and> receiver_ok rp i files w1 \<and> data_stream w1 = None"
    if p: "prepare_stream env json fs w b = (q, fs1, w1)" for q fs1 w1
    using p none mt w src
    by (auto simp: prepare_stream_def Let_def file_create_def no receiver_ok_def intro!: nothing_there_keep split: if_splits)
  show ?thesis
    using wr none w by (auto simp: job_write_def Let_def dest: prep split: if_splits prod.splits sum.splits bool.splits)
qed


lemma refused_blocks:
  assumes "\<And>q. \<not> can_create (rm_os e) q"
  shows "get_job i (downloads st) = Some w \<Longrightarrow> receiver_ok rp i files w \<Longrightarrow> data_stream w = None \<Longrightarrow>
    file_error w = None \<Longrightarrow> \<not> file_skipped w \<Longrightarrow> nothing_there rp files (local_fs st) \<Longrightarrow> \<forall>b \<in> set bs. blk_id b = i \<Longrightarrow>
    \<exists>st' w'. from_peer_all e t (map RespBlock bs) st = Some ([], st') \<and> get_job i (downloads st') = Some w' \<and>
      receiver_ok rp i files w' \<and> file_error w' = None \<and> \<not> file_skipped w' \<and> nothing_there rp files (local_fs st') \<and>
      removals st' = removals st"
proof (induction bs arbitrary: st w)
  case Nil
  then show ?case by auto
next
  case (Cons b bs)
  obtain r fs' w1 where wr: "job_write (rm_os e) (rm_decompress e) (rm_json e) (local_fs st) w b = (r, fs', w1)"
    by (cases "job_write (rm_os e) (rm_decompress e) (rm_json e) (local_fs st) w b")
  have w1: "nothing_there rp files fs'" "receiver_ok rp i files w1" "data_stream w1 = None"
    using refused_write [OF Cons.prems(6,2,3) assms wr] by simp_all
  let ?st = "st\<lparr>local_fs := fs', downloads := update_job i w1 (downloads st)\<rparr>"
  have id: "job_id w1 = i" using w1(2) by (simp add: receiver_ok_def)
  have "from_peer e t (RespBlock b) st = Some ([], ?st)"
    using Cons.prems(1,7) wr by (simp add: from_peer_def on_block_def)
  moreover have "get_job i (downloads ?st) = Some w1" using get_update_job [OF Cons.prems(1) id] by simp
  moreover have "file_error w1 = None" "\<not> file_skipped w1" using job_write_settings [OF wr] Cons.prems(4,5) by simp_all
  ultimately show ?case using Cons.IH [of ?st w1] w1 Cons.prems(7) by auto
qed

text \<open>
  C34. A download that wrote nothing is reported done.  When the system refuses to create any file, every block of a download
  fails to be written, whatever blocks come; the error of each is dropped, none is told to the user or to the peer, and
  at the end the user is told that the job is done, while no file of it, nor a part of one, exists.
\<close>

theorem failed_download_reported_done:
  assumes "get_job i (downloads st) = Some w" and "receiver_ok rp i files w" and "data_stream w = None"
    and "file_error w = None" and "\<not> file_skipped w" and "removals st i = None"
    and "nothing_there rp files (local_fs st)" and "\<And>q. \<not> can_create (rm_os e) q" and "\<forall>b \<in> set bs. blk_id b = i"
  shows "\<exists>st'. from_peer_all e t (map RespBlock bs @ [RespDone i n]) st = Some ([JobDone i n], st') \<and>
    nothing_there rp files (local_fs st')"
proof -
  from refused_blocks [OF assms(8,1-5,7,9), of t] obtain st' w'
    where st': "from_peer_all e t (map RespBlock bs) st = Some ([], st')" "get_job i (downloads st') = Some w'"
      and w': "receiver_ok rp i files w'" "file_error w' = None" "\<not> file_skipped w'" "nothing_there rp files (local_fs st')"
        "removals st' = removals st" by blast
  have split: "from_peer_all e t (map RespBlock bs @ [RespDone i n]) st =
      map_option (\<lambda>(os, s). ([] @ os, s)) (from_peer_all e t [RespDone i n] st')"
    if "from_peer_all e t (map RespBlock bs) st = Some ([], st')" for st
    using that by (induction bs arbitrary: st) (auto split: option.splits prod.splits)
  have "job_type w' = Generic" "job_error w' = None"
    using w' by (simp_all add: receiver_ok_def job_error_def job_skipped_def)
  moreover obtain ds where "remove_job i (downloads st') = (Some w', ds)" using get_remove_job [OF st'(2)] by blast
  ultimately have "from_peer_all e t [RespDone i n] st' =
      Some ([JobDone i n], st'\<lparr>local_fs := modify_time (local_fs st') w', downloads := ds\<rparr>)"
    using w'(5) assms(6)
    by (simp add: from_peer_def on_done_def handle_job_status_def)
  with split [OF st'(1)] modify_time_nothing [OF w'(4,1)] show ?thesis by simp
qed

text \<open>A download of two files onto a system where nothing can be created.\<close>

definition full_env :: remote_env where
  "full_env = open_env\<lparr>rm_os := open_os\<lparr>can_create := (\<lambda>_. False)\<rparr>\<rparr>"

lemma failed_download_reported_done_witness:
  "\<exists>st'. from_peer_all full_env 0
      (map RespBlock [\<lparr>blk_id = 1, blk_file_num = 0, blk_data = [1, 2, 3], blk_compressed = False\<rparr>] @ [RespDone 1 2])
      (empty_remote\<lparr>downloads := [small_job ''/r'']\<rparr>) = Some ([JobDone 1 2], st') \<and>
    nothing_there ''/r'' two_files (local_fs st')"
  by (rule failed_download_reported_done [where w = "small_job ''/r''"])
    (simp_all add: empty_remote_def nothing_there_def full_env_def, simp_all add: small_job_def new_write_def)

end
