(* ===== verification/Client_Upload.thy ===== *)
theory Client_Upload
  imports Client_Download
begin

text \<open>
  An upload from end to end: the controlling side (\<open>Client_Files\<close>) asks a connection of the controlled side
  (\<open>Session_Files\<close>) to receive files and reads them, tick by tick; the connection hands the messages to its connection
  manager, which asks about each file and writes it.  The same contract \<open>file_receiver\<close> that the controlling side keeps for
  a download is kept here by the connection manager.
\<close>

subsection \<open>Both sides in turns\<close>

text \<open>What the peer sends of its read jobs, as the connection gets it.\<close>

definition request_of :: "transfer_msg \<Rightarrow> file_response" where
  "request_of m =
     (case m of
        MsgDigest i n modified sz resume \<Rightarrow> FrDigest i n sz modified resume
      | MsgBlock b \<Rightarrow> FrBlock b
      | MsgError i err n \<Rightarrow> FrError i err n
      | MsgDone i n \<Rightarrow> FrDone i n)"

text \<open>The confirmation of a file that this side sends: a \<open>FileAction\<close> of the peer.\<close>

definition on_send_confirm :: "remote_env \<Rightarrow> send_confirm \<Rightarrow> remote \<Rightarrow> remote option" where
  "on_send_confirm e r st =
     (case get_job (confirm_id r) (uploads st) of
        Some j \<Rightarrow>
          map_option (\<lambda>j'. st\<lparr>uploads := update_job (confirm_id r) j' (uploads st)\<rparr>) (job_confirm (rm_os e) (local_fs st) j r)
      | None \<Rightarrow> Some st)"

text \<open>What the connection manager answers goes to the peer as it is; its log and the listings of directories do not
  belong to a transfer.\<close>

definition on_reply :: "remote_env \<Rightarrow> nat \<Rightarrow> cm_reply \<Rightarrow> remote \<Rightarrow> (client_out list \<times> remote) option" where
  "on_reply e t r st =
     (case r of
        CmError i err n \<Rightarrow> from_peer e t (RespError i err n) st
      | CmDone i n \<Rightarrow> from_peer e t (RespDone i n) st
      | CmConfirm q \<Rightarrow> map_option (\<lambda>st'. ([], st')) (on_send_confirm e q st)
      | CmDigest d up \<Rightarrow> from_peer e t (RespDigest d up) st
      | _ \<Rightarrow> Some ([], st))"

fun on_replies :: "remote_env \<Rightarrow> nat \<Rightarrow> cm_reply list \<Rightarrow> remote \<Rightarrow> (client_out list \<times> remote) option" where
  "on_replies e t [] st = Some ([], st)"
| "on_replies e t (r # rs) st =
     (case on_reply e t r st of
        None \<Rightarrow> None
      | Some (o1, st1) \<Rightarrow> map_option (\<lambda>(o2, st2). (o1 @ o2, st2)) (on_replies e t rs st1))"

text \<open>The controlled side: the system of the connection, its options, and the connection manager.\<close>

record target_host =
  th_calls :: fs_calls
  th_os :: os
  th_fs :: fsys
  th_env :: env
  th_cm :: cm_env

fun connection_takes ::
  "target_host \<Rightarrow> peer_file_msg list \<Rightarrow> control \<Rightarrow> file_state \<Rightarrow> (file_effect list \<times> control \<times> file_state) option" where
  "connection_takes g [] c f = Some ([], c, f)"
| "connection_takes g (Action a # ms) c f =
     (case on_file_action (th_calls g) (th_os g) (th_fs g) (th_env g) a c f of
        None \<Rightarrow> None
      | Some (es, c1, f1) \<Rightarrow> map_option (\<lambda>(es', s). (es @ es', s)) (connection_takes g ms c1 f1))"
| "connection_takes g (Response r # ms) c f =
     map_option (\<lambda>(es', s). (map ToCm (on_file_response r) @ es', s)) (connection_takes g ms c f)"

record upload_system =
  us_remote :: remote
  us_control :: control
  us_files :: file_state
  us_cm :: cm_state
  us_pending :: "file_action list"

text \<open>
  A turn: a tick of the controlling side, the connection with what was sent before the tick and the messages of the tick, the
  connection manager, and the controlling side with what comes back; what it sends on that account waits for the next turn.
\<close>

definition upload_turn ::
  "remote_env \<Rightarrow> (bytes \<Rightarrow> bytes) \<Rightarrow> target_host \<Rightarrow> nat \<Rightarrow> upload_system \<Rightarrow> (client_out list \<times> upload_system) option" where
  "upload_turn e compress g t s =
     (case handle_read_jobs (rm_os e) compress (local_fs (us_remote s)) (rm_direct e) (uploads (us_remote s)) of
       (ms, js) \<Rightarrow>
         (case connection_takes g (map Action (us_pending s) @ map (\<lambda>m. Response (request_of m)) ms) (us_control s) (us_files s) of
            None \<Rightarrow> None
          | Some (es, c, f) \<Rightarrow>
              (case handle_fs_all (th_cm g) (cm_requests es) (us_cm s) of
                 None \<Rightarrow> None
               | Some (rs, cm) \<Rightarrow>
                   (case from_peer_all e t (effect_responses es) ((us_remote s)\<lparr>uploads := js\<rparr>) of
                      None \<Rightarrow> None
                    | Some (o1, st1) \<Rightarrow>
                        map_option (\<lambda>(o2, st2). (o1 @ o2,
                            \<lparr>us_remote = st2, us_control = c, us_files = f, us_cm = cm, us_pending = peer_actions (o1 @ o2)\<rparr>))
                          (on_replies e t rs st1)))))"

fun upload_turns ::
  "remote_env \<Rightarrow> (bytes \<Rightarrow> bytes) \<Rightarrow> target_host \<Rightarrow> nat \<Rightarrow> nat \<Rightarrow> upload_system \<Rightarrow> (client_out list \<times> upload_system) option" where
  "upload_turns e compress g t 0 s = Some ([], s)"
| "upload_turns e compress g t (Suc k) s =
     (case upload_turn e compress g t s of
        None \<Rightarrow> None
      | Some (o1, s1) \<Rightarrow> map_option (\<lambda>(o2, s2). (o1 @ o2, s2)) (upload_turns e compress g t k s1))"

subsection \<open>The connection manager receives\<close>

definition as_remote :: "cm_env \<Rightarrow> remote_env" where
  "as_remote ce = \<lparr>rm_os = cm_os ce, rm_decompress = cm_decompress ce, rm_json = cm_json ce, rm_of_json = cm_of_json ce,
     rm_calls = cm_calls ce, rm_version = 0, rm_direct = False, rm_peer_windows = False, rm_sep = (\<lambda>_. [])\<rparr>"

abbreviation cm_plan :: "plan \<Rightarrow> plan" where
  "cm_plan p \<equiv> p\<lparr>pl_files := cm_files (pl_files p)\<rparr>"

lemma cm_plan_ok: "plan_ok e h p \<Longrightarrow> plan_ok e h (cm_plan p)"
  by (simp add: plan_ok_def)

definition cm_takes :: "cm_env \<Rightarrow> transfer_msg \<Rightarrow> cm_state \<Rightarrow> (cm_reply list \<times> cm_state) option" where
  "cm_takes ce m cm = handle_fs_all ce (on_file_response (request_of m)) cm"

definition cm_at :: "plan \<Rightarrow> transfer_job list \<Rightarrow> nat \<Rightarrow> nat \<Rightarrow> cm_state \<Rightarrow> bool" where
  "cm_at p js n pos cm \<longleftrightarrow> get_job (pl_id p) js = None \<and>
     (\<exists>w. write_jobs cm = js @ [w] \<and> writer_at (cm_plan p) n pos (cm_fs cm) w)"

definition cm_ended :: "plan \<Rightarrow> transfer_job list \<Rightarrow> cm_state \<Rightarrow> bool" where
  "cm_ended p js cm \<longleftrightarrow> write_jobs cm = js \<and>
     (\<forall>k < length (pl_files p). in_place (pl_target p) (pl_files p) (pl_data p) (cm_fs cm) k)"

definition send_all :: "plan \<Rightarrow> nat \<Rightarrow> cm_reply" where
  "send_all p n = CmConfirm \<lparr>confirm_id = pl_id p, confirm_file_num = int n, confirm_union = Some (OffsetBlk 0)\<rparr>"

definition all_done :: "plan \<Rightarrow> cm_reply list" where
  "all_done p = [CmDone (pl_id p) (int (length (pl_files p))), CmLog (pl_id p) True False []]"

lemma cm_block:
  assumes ok: "plan_ok (as_remote ce) h p" and n: "n < length (pl_files p)" and cm: "cm_at p js n pos cm"
    and b: "blk_id b = pl_id p" "blk_file_num b = int n"
    and dat: "decoded (cm_decompress ce) b = take l (drop pos (pl_data p n))" "0 < l"
  shows "\<exists>cm'. cm_takes ce (MsgBlock b) cm = Some ([], cm') \<and>
    (if drop pos (pl_data p n) = [] then cm_at p js (Suc n) 0 cm'
     else cm_at p js n (pos + length (take l (drop pos (pl_data p n)))) cm')"
proof -
  obtain w where w: "write_jobs cm = js @ [w]" "writer_at (cm_plan p) n pos (cm_fs cm) w" and fresh: "get_job (pl_id p) js = None"
    using cm by (auto simp: cm_at_def)
  from writer_block [OF cm_plan_ok [OF ok] _ w(2), of b l "cm_json ce"] n b dat
  obtain fs' w' where wr: "job_write (cm_os ce) (cm_decompress ce) (cm_json ce) (cm_fs cm) w b = (Inr (), fs', w')"
    and w': "if drop pos (pl_data p n) = [] then writer_at (cm_plan p) (Suc n) 0 fs' w'
      else writer_at (cm_plan p) n (pos + length (take l (drop pos (pl_data p n)))) fs' w'"
    by (auto simp: as_remote_def cong: if_cong)
  have id: "job_id w = pl_id p" using writer_at_job_id [OF w(2)] by simp
  have "cm_takes ce (MsgBlock b) cm = Some ([], cm\<lparr>cm_fs := fs', write_jobs := js @ [w']\<rparr>)"
    using w(1) fresh id wr b(1)
    by (simp add: cm_takes_def request_of_def on_file_response_def handle_fs_def cm_write_block_def get_job_last update_job_last)
  with w' fresh show ?thesis by (auto simp: cm_at_def)
qed

lemma cm_digest:
  assumes n: "n < length (pl_files p)" and cm: "cm_at p js n 0 cm"
  shows "\<exists>cm'. cm_takes ce (MsgDigest (pl_id p) (int n) modified sz False) cm = Some ([send_all p n], cm') \<and> cm_at p js n 0 cm'"
proof -
  obtain w where w: "write_jobs cm = js @ [w]" "before_file (cm_plan p) n (cm_fs cm) w" and fresh: "get_job (pl_id p) js = None"
    using cm by (auto simp: cm_at_def writer_at_def)
  have rw: "job_id w = pl_id p" "data_source w = FilePath (pl_target p)" "job_files w = cm_files (pl_files p)"
    using w(2) by (simp_all add: before_file_def fresh_writer_def receiver_ok_def)
  have new: "fs_files (cm_fs cm) (job_join (pl_target p) (entry_name (pl_files p ! n))) = None"
    using w(2) n by (simp add: before_file_def absent_from_def)
  let ?w = "set_digest w sz modified"
  have "modify_time (cm_fs cm) ?w = modify_time (cm_fs cm) w" by (rule modify_time_cong) (simp_all add: set_digest_def)
  then have "before_file (cm_plan p) n (cm_fs cm) ?w"
    using w(2) by (auto simp: before_file_def fresh_writer_def receiver_ok_def all_before_def set_digest_def)
  moreover have "cm_takes ce (MsgDigest (pl_id p) (int n) modified sz False) cm =
      Some ([send_all p n], cm\<lparr>write_jobs := js @ [?w]\<rparr>)"
    using w(1) fresh rw new n
    by (simp add: cm_takes_def request_of_def on_file_response_def handle_fs_def cm_check_digest_def get_job_last
        update_job_last is_write_need_confirmation_def send_all_def Let_def)
  ultimately show ?thesis using fresh by (auto simp: cm_at_def writer_at_def)
qed

lemma cm_done:
  assumes "cm_at p js (length (pl_files p)) 0 cm"
  shows "\<exists>cm'. cm_takes ce (MsgDone (pl_id p) (int (length (pl_files p)))) cm = Some (all_done p, cm') \<and> cm_ended p js cm'"
proof -
  obtain w where w: "write_jobs cm = js @ [w]" "before_file (cm_plan p) (length (pl_files p)) (cm_fs cm) w"
    and fresh: "get_job (pl_id p) js = None"
    using assms by (auto simp: cm_at_def writer_at_def)
  then have "job_id w = pl_id p" by (simp add: before_file_def fresh_writer_def receiver_ok_def)
  with w fresh show ?thesis
    by (simp add: cm_takes_def request_of_def on_file_response_def handle_fs_def remove_job_last all_done_def cm_ended_def
        before_file_def all_before_def in_place_cm_files)
qed

interpretation to_cm: file_receiver as_remote cm_at cm_ended cm_takes "\<lambda>p n. [send_all p n]" all_done
proof
  fix e h p n pos x b l and s :: cm_state
  assume "plan_ok (as_remote e) h p" "n < length (pl_files p)" "cm_at p x n pos s" "blk_id b = pl_id p" "blk_file_num b = int n"
    "decoded (rm_decompress (as_remote e)) b = take l (drop pos (pl_data p n))" "0 < l"
  then show "\<exists>s'. cm_takes e (MsgBlock b) s = Some ([], s') \<and> (if drop pos (pl_data p n) = [] then cm_at p x (Suc n) 0 s'
      else cm_at p x n (pos + length (take l (drop pos (pl_data p n)))) s')"
    by (intro cm_block) (simp_all add: as_remote_def)
qed (rule cm_digest cm_done; assumption)+

lemma cm_all_take:
  "handle_fs_all ce (concat (map (\<lambda>m. on_file_response (request_of m)) ms)) cm = take_msgs (cm_takes ce) ms cm"
  by (induction ms arbitrary: cm) (auto simp: handle_fs_all_append cm_takes_def split: option.splits)

subsection \<open>Turns\<close>

text \<open>The controlling side as the one that reads.\<close>

definition reading_host :: "remote_env \<Rightarrow> (bytes \<Rightarrow> bytes) \<Rightarrow> fsys \<Rightarrow> host" where
  "reading_host e compress fs = \<lparr>h_calls = rm_calls e, h_os = rm_os e, h_fs = fs, h_compress = compress,
     h_detect = Session_Files.can_enable_overwrite_detection (rm_version e), h_direct = rm_direct e, h_conn = 0\<rparr>"

definition open_for_files :: "control \<Rightarrow> bool" where
  "open_for_files c \<longleftrightarrow> file_transfer (base c) \<noteq> None \<and> delayed_read_dir c = None"

text \<open>
  The system with the reader \<open>j\<close> of this upload alone on the controlling side, and the connection manager as far as it
  comes with what is on its way.
\<close>

definition upload_at ::
  "remote_env \<Rightarrow> (bytes \<Rightarrow> bytes) \<Rightarrow> target_host \<Rightarrow> fsys \<Rightarrow> plan \<Rightarrow> transfer_job list \<Rightarrow> nat \<Rightarrow> nat \<Rightarrow> transfer_job
     \<Rightarrow> upload_system \<Rightarrow> bool" where
  "upload_at e compress g fs p js n pos j s \<longleftrightarrow>
     uploads (us_remote s) = [j] \<and> local_fs (us_remote s) = fs \<and> get_job (pl_id p) (downloads (us_remote s)) = None \<and>
     removals (us_remote s) (pl_id p) = None \<and> reader_at (reading_host e compress fs) p n pos j \<and>
     (\<exists>es c f cm. connection_takes g (map Action (us_pending s)) (us_control s) (us_files s) = Some (es, c, f) \<and>
        effect_responses es = [] \<and> handle_fs_all (th_cm g) (cm_requests es) (us_cm s) = Some ([], cm) \<and> cm_at p js n pos cm)"

lemma connection_append:
  "connection_takes g (ms @ ns) c f =
     (case connection_takes g ms c f of
        None \<Rightarrow> None
      | Some (es, c1, f1) \<Rightarrow> map_option (\<lambda>(es', s). (es @ es', s)) (connection_takes g ns c1 f1))"
proof (induction g ms c f rule: connection_takes.induct)
  case (1 g c f)
  show ?case by (cases "connection_takes g ns c f") auto
next
  case (2 g a ms c f)
  show ?case
    by (cases "on_file_action (th_calls g) (th_os g) (th_fs g) (th_env g) a c f")
      (auto simp: 2 option.map_comp comp_def split_beta map_option_case split: option.split)
next
  case (3 g r ms c f)
  show ?case by (auto simp: 3 option.map_comp comp_def split_beta map_option_case split: option.split)
qed

lemma connection_responses:
  "connection_takes g (map (\<lambda>m. Response (request_of m)) ms) c f =
     Some (map ToCm (concat (map (\<lambda>m. on_file_response (request_of m)) ms)), c, f)"
  by (induction ms) simp_all

lemma effect_parts [simp]:
  "cm_requests (map ToCm xs) = xs" "effect_responses (map ToCm xs) = []"
  "cm_requests (es @ es') = cm_requests es @ cm_requests es'"
  "effect_responses (es @ es') = effect_responses es @ effect_responses es'"
  by (induction xs) (simp_all add: cm_requests_def effect_responses_def)

lemma no_job_removed: "get_job i js = None \<Longrightarrow> remove_job i js = (None, js)"
  by (induction js) (auto split: if_splits)

lemma replies_confirm:
  assumes "reader_waits h p n j" and "uploads st = [j]"
  shows "on_replies e t [send_all p n] st = Some ([], st\<lparr>uploads := [set_file_confirmed j True]\<rparr>)"
    "reader_at h p n 0 (set_file_confirmed j True)" "data_stream (set_file_confirmed j True) \<noteq> None"
  using assms
  by (auto simp: reader_waits_def reader_ok_def reader_at_def set_file_confirmed_def on_reply_def on_send_confirm_def
      send_all_def job_confirm_def)

lemma replies_done:
  assumes "get_job (pl_id p) (downloads st) = None" and "removals st (pl_id p) = None"
  shows "on_replies e t (all_done p) st = Some ([JobDone (pl_id p) (int (length (pl_files p)))], st)"
  using assms
  by (simp add: all_done_def on_reply_def from_peer_def on_done_def no_job_removed handle_job_status_def)

lemma upload_turn_taken:
  assumes ok: "plan_ok (as_remote (th_cm g)) (reading_host e compress fs) p" and at: "upload_at e compress g fs p js n pos j s"
  shows "\<exists>s'.
    (\<exists>n' pos' j'. upload_turn e compress g t s = Some ([], s') \<and> upload_at e compress g fs p js n' pos' j' s' \<and>
       work_left p n' pos' (data_stream j' \<noteq> None) < work_left p n pos (data_stream j \<noteq> None)) \<or>
    (upload_turn e compress g t s = Some ([JobDone (pl_id p) (int (length (pl_files p)))], s') \<and>
       uploads (us_remote s') = [] \<and> us_pending s' = [] \<and> cm_ended p js (us_cm s'))"
proof -
  let ?h = "reading_host e compress fs" and ?m = "work_left p n pos (data_stream j \<noteq> None)" and ?st = "us_remote s"
  let ?mx = "if h_direct ?h then 16 * 1024 * 1024 else 2 * 1024 * 1024 :: nat" and ?k = "if h_direct ?h then 128 else 32 :: nat"
  note a = at [unfolded upload_at_def]
  from a obtain es c f cm where pend: "connection_takes g (map Action (us_pending s)) (us_control s) (us_files s) = Some (es, c, f)"
      "effect_responses es = []" "handle_fs_all (th_cm g) (cm_requests es) (us_cm s) = Some ([], cm)"
    and cm: "cm_at p js n pos cm" and j: "reader_at ?h p n pos j" by blast
  from to_cm.burst [OF ok j cm, of ?mx ?k 0] obtain ms j' fin rs cm'
    where b: "read_burst (h_os ?h) (h_compress ?h) (h_fs ?h) ?mx ?k 0 j = (ms, j', fin)"
      and tk: "take_msgs (cm_takes (th_cm g)) ms cm = Some (rs, cm')"
      and be: "to_cm.burst_ends ?h p js ?m rs j' fin cm'" by (auto split: if_splits)
  have "\<not> is_last_job j" using j by (simp add: reader_at_def reader_ok_def)
  with b have "handle_read_jobs (h_os ?h) (h_compress ?h) (h_fs ?h) (h_direct ?h) [j] = (ms, if fin then [] else [j'])"
    by (simp add: handle_read_jobs_def Let_def)
  then have hr: "handle_read_jobs (rm_os e) compress (local_fs ?st) (rm_direct e) (uploads ?st) = (ms, if fin then [] else [j'])"
    using a by (simp add: reading_host_def)
  have conn: "connection_takes g (map Action (us_pending s) @ map (\<lambda>m. Response (request_of m)) ms) (us_control s) (us_files s) =
      Some (es @ map ToCm (concat (map (\<lambda>m. on_file_response (request_of m)) ms)), c, f)"
    by (simp add: connection_append pend(1) connection_responses)
  have cms: "handle_fs_all (th_cm g) (cm_requests es @ concat (map (\<lambda>m. on_file_response (request_of m)) ms)) (us_cm s) =
      Some (rs, cm')"
    by (simp add: handle_fs_all_append pend(3) cm_all_take tk)
  let ?st1 = "?st\<lparr>uploads := if fin then [] else [j']\<rparr>"
  have turn: "upload_turn e compress g t s =
      map_option (\<lambda>(os, st2). (os, \<lparr>us_remote = st2, us_control = c, us_files = f, us_cm = cm', us_pending = peer_actions os\<rparr>))
        (on_replies e t rs ?st1)"
    by (simp add: upload_turn_def hr conn cms pend(2))
  have next_at: "upload_at e compress g fs p js n' pos' j1
      \<lparr>us_remote = ?st\<lparr>uploads := [j1]\<rparr>, us_control = c, us_files = f, us_cm = cm', us_pending = []\<rparr>"
    if "reader_at ?h p n' pos' j1" "cm_at p js n' pos' cm'" for n' pos' j1
    using a that by (simp add: upload_at_def effect_responses_def cm_requests_def)
  from be consider
      (go) n' pos' where "\<not> fin" "rs = []" "reader_at ?h p n' pos' j'" "cm_at p js n' pos' cm'"
        "work_left p n' pos' (data_stream j' \<noteq> None) < ?m"
    | (asked) n' where "\<not> fin" "rs = [send_all p n']" "reader_waits ?h p n' j'" "cm_at p js n' 0 cm'" "work_left p n' 0 True < ?m"
    | (over) "fin" "rs = all_done p" "cm_ended p js cm'"
    unfolding burst_end_def by blast
  then show ?thesis
  proof cases
    case go
    have "upload_turn e compress g t s = Some ([],
        \<lparr>us_remote = ?st\<lparr>uploads := [j']\<rparr>, us_control = c, us_files = f, us_cm = cm', us_pending = []\<rparr>)"
      using go(1,2) by (simp add: turn peer_actions_def)
    with next_at [OF go(3,4)] go(5) show ?thesis by blast
  next
    case asked
    let ?j = "set_file_confirmed j' True"
    have "uploads ?st1 = [j']" using asked(1) by simp
    note conf = replies_confirm(1) [OF asked(3) this, of e t] replies_confirm(2,3) [OF asked(3) this]
    have "upload_turn e compress g t s = Some ([],
        \<lparr>us_remote = ?st\<lparr>uploads := [?j]\<rparr>, us_control = c, us_files = f, us_cm = cm', us_pending = []\<rparr>)"
      using asked(1,2) conf(1) by (simp add: turn peer_actions_def)
    moreover have "work_left p n' 0 (data_stream ?j \<noteq> None) < ?m" using asked(5) conf(3) by simp
    ultimately show ?thesis using next_at [OF conf(2) asked(4)] by blast
  next
    case over
    have "on_replies e t (all_done p) ?st1 = Some ([JobDone (pl_id p) (int (length (pl_files p)))], ?st1)"
      by (rule replies_done) (use a in simp_all)
    with over have "upload_turn e compress g t s = Some ([JobDone (pl_id p) (int (length (pl_files p)))],
        \<lparr>us_remote = ?st\<lparr>uploads := []\<rparr>, us_control = c, us_files = f, us_cm = cm', us_pending = []\<rparr>)"
      by (simp add: turn peer_actions_def)
    with over(3) show ?thesis by (intro exI disjI2) (rule conjI, assumption, simp)
  qed
qed

lemma upload_turns_taken:
  assumes ok: "plan_ok (as_remote (th_cm g)) (reading_host e compress fs) p"
  shows "upload_at e compress g fs p js n pos j s \<Longrightarrow>
    \<exists>k s'. upload_turns e compress g t k s = Some ([JobDone (pl_id p) (int (length (pl_files p)))], s') \<and>
      uploads (us_remote s') = [] \<and> us_pending s' = [] \<and> cm_ended p js (us_cm s')"
proof (induction "work_left p n pos (data_stream j \<noteq> None)" arbitrary: n pos j s rule: less_induct)
  case less
  from upload_turn_taken [OF ok less.prems, of t] show ?case
  proof (elim exE disjE conjE)
    fix s1 n1 pos1 j1
    assume one: "upload_turn e compress g t s = Some ([], s1)" and nx: "upload_at e compress g fs p js n1 pos1 j1 s1"
      "work_left p n1 pos1 (data_stream j1 \<noteq> None) < work_left p n pos (data_stream j \<noteq> None)"
    from less.hyps [OF nx(2,1)] obtain k s2
      where "upload_turns e compress g t k s1 = Some ([JobDone (pl_id p) (int (length (pl_files p)))], s2)"
        "uploads (us_remote s2) = []" "us_pending s2 = []" "cm_ended p js (us_cm s2)" by blast
    with one show ?thesis by (intro exI [of _ "Suc k"] exI [of _ s2]) simp
  next
    fix s1
    assume "upload_turn e compress g t s = Some ([JobDone (pl_id p) (int (length (pl_files p)))], s1)"
      "uploads (us_remote s1) = []" "us_pending s1 = []" "cm_ended p js (us_cm s1)"
    then show ?thesis by (intro exI [of _ "Suc 0"] exI [of _ s1]) simp
  qed
qed

subsection \<open>An upload arrives\<close>

text \<open>The start: what the request of the user sends is on its way.\<close>

definition upload_start ::
  "remote_env \<Rightarrow> nat \<Rightarrow> ui_msg \<Rightarrow> control \<Rightarrow> file_state \<Rightarrow> cm_state \<Rightarrow> remote \<Rightarrow> (client_out list \<times> upload_system) option" where
  "upload_start e t m c f cm st =
     map_option (\<lambda>(o1, st1). (o1, \<lparr>us_remote = st1, us_control = c, us_files = f, us_cm = cm, us_pending = peer_actions o1\<rparr>))
       (from_ui e t m st)"

definition wants :: "int \<Rightarrow> string \<Rightarrow> file_entry list \<Rightarrow> receive_request" where
  "wants i to files =
     \<lparr>rcv_id = i, rcv_path = to, rcv_files = files, rcv_file_num = 0, rcv_total_size = sum_sizes files\<rparr>"

lemma request_taken:
  assumes "open_for_files c" and "\<forall>x \<in> set (pl_files p). \<not> is_dir_marker (entry_name x)"
    and "get_job (pl_id p) (write_jobs cm) = None" and "absent_from p 0 (cm_fs cm)"
  shows "\<exists>es c1 f1 cm1. connection_takes g [Action (FaReceive (wants (pl_id p) (pl_target p) (pl_files p)))] c f = Some (es, c1, f1) \<and>
    effect_responses es = [] \<and> handle_fs_all ce (cm_requests es) cm = Some ([], cm1) \<and> cm_at p (write_jobs cm) 0 0 cm1"
proof -
  let ?od = "Session_Files.can_enable_overwrite_detection (lr_version (lr (base c)))"
  let ?m = "FsNewWrite (pl_target p) (pl_id p) 0 (map (\<lambda>x. (entry_name x, entry_modified x)) (pl_files p)) ?od
    (sum_sizes (pl_files p)) (cid c)"
  define w where "w = (new_write (pl_id p) Generic [] (FilePath (pl_target p)) 0 False False (cm_files (pl_files p)) ?od)
    \<lparr>job_total_size := sum_sizes (pl_files p)\<rparr>"
  have "connection_takes g [Action (FaReceive (wants (pl_id p) (pl_target p) (pl_files p)))] c f =
      Some ([ToCm ?m], c, f\<lparr>file_transferred := True\<rparr>)"
    using assms(1) by (simp add: open_for_files_def on_file_action_def on_file_request_def wants_def)
  moreover have "handle_fs_all ce (cm_requests [ToCm ?m]) cm = Some ([], cm\<lparr>write_jobs := write_jobs cm @ [w]\<rparr>)"
    by (simp add: cm_requests_def handle_fs_def new_write_without_markers [OF assms(2)] w_def)
  moreover have "before_file (cm_plan p) 0 (cm_fs cm) w"
    using assms(4)
    by (simp add: before_file_def fresh_writer_def receiver_ok_def all_before_def absent_from_def w_def new_write_def)
  then have "cm_at p (write_jobs cm) 0 0 (cm\<lparr>write_jobs := write_jobs cm @ [w]\<rparr>)"
    using assms(3) by (simp add: cm_at_def writer_at_def)
  moreover have "effect_responses [ToCm ?m] = []" by (simp add: effect_responses_def)
  ultimately show ?thesis by blast
qed

lemma upload_started:
  assumes ls: "list_files (rm_calls e) path hidden = Inr (pl_files p)" and p: "pl_source p = path"
    and st: "uploads st = []" "get_job (pl_id p) (downloads st) = None" "removals st (pl_id p) = None"
    and c: "open_for_files c" and mark: "\<forall>x \<in> set (pl_files p). \<not> is_dir_marker (entry_name x)"
    and cm: "get_job (pl_id p) (write_jobs cm) = None" "absent_from p 0 (cm_fs cm)"
  shows "\<exists>j s. upload_start e t (SendFiles (pl_id p) Generic path (pl_target p) 0 hidden False) c f cm st =
      Some ([ShowFolder (pl_id p) path (pl_files p) True True, FastTimer,
        ToPeer (FaReceive (wants (pl_id p) (pl_target p) (pl_files p)))], s) \<and>
    upload_at e compress g (local_fs st) p (write_jobs cm) 0 0 j s"
proof -
  define j where "j = (new_write (pl_id p) Generic (pl_target p) (FilePath path) 0 hidden False (pl_files p)
    (Session_Files.can_enable_overwrite_detection (rm_version e)))
    \<lparr>job_total_size := sum_sizes (pl_files p), is_last_job := False, direct := rm_direct e\<rparr>"
  let ?r = "FaReceive (wants (pl_id p) (pl_target p) (pl_files p))"
  let ?s = "\<lparr>us_remote = st\<lparr>uploads := [j]\<rparr>, us_control = c, us_files = f, us_cm = cm, us_pending = [?r]\<rparr>"
  have "upload_job e (pl_id p) Generic path (pl_target p) 0 hidden False = Inr j"
    using ls by (simp add: upload_job_def new_read_def j_def Let_def)
  moreover have "receive_message j (pl_id p) = ?r" by (simp add: receive_message_def wants_def j_def new_write_def)
  moreover have "job_files j = pl_files p" by (simp add: j_def new_write_def)
  ultimately have "upload_start e t (SendFiles (pl_id p) Generic path (pl_target p) 0 hidden False) c f cm st =
      Some ([ShowFolder (pl_id p) path (pl_files p) True True, FastTimer, ToPeer ?r], ?s)"
    using st(1) by (simp add: upload_start_def from_ui_def send_files_def peer_actions_def)
  moreover have "reader_at (reading_host e compress (local_fs st)) p 0 0 j"
    using p by (simp add: reader_at_def reader_ok_def j_def new_write_def reading_host_def)
  then have "upload_at e compress g (local_fs st) p (write_jobs cm) 0 0 j ?s"
    using st(2,3) request_taken [OF c mark cm, of g f "th_cm g"] by (simp add: upload_at_def)
  ultimately show ?thesis by blast
qed

text \<open>
  C16. An upload arrives.  The controlling side lists the files of a directory and asks the connection of the controlled side to
  receive them; it reads them in ticks, with or without overwrite detection on either side, and with detection asks about
  each file it opens; the connection manager answers and writes.  When the directory is listed without markers of
  directories, its files can be read, none of them is at the target yet and the connection manager may write there, then some
  number of turns brings the upload to its end: every file is in place with the content and the time of its source, both
  sides forget the job, and all that the user sees after the start is that the job is done.
\<close>

theorem upload_completes:
  assumes "list_files (rm_calls e) path hidden = Inr files"
    and "\<And>n. n < length files \<Longrightarrow> \<not> is_dir_marker (entry_name (files ! n)) \<and> can_open (rm_os e) (target path files n) \<and>
      can_read (rm_os e) (target path files n) \<and> map_option file_data (fs_files (local_fs st) (target path files n)) = Some (D n)"
    and "independent to files" and "grants (cm_os (th_cm g))" and "\<And>b. cm_decompress (th_cm g) (compress b) = b"
    and "\<And>n. n < length files \<Longrightarrow> fs_files (cm_fs cm) (target to files n) = None"
    and "uploads st = []" and "get_job i (downloads st) = None" and "removals st i = None"
    and "get_job i (write_jobs cm) = None" and "file_transfer (base c) \<noteq> None" and "delayed_read_dir c = None"
  shows "\<exists>s k s'.
    upload_start e t (SendFiles i Generic path to 0 hidden False) c f cm st =
      Some ([ShowFolder i path files True True, FastTimer, ToPeer (FaReceive (wants i to files))], s) \<and>
    upload_turns e compress g t k s = Some ([JobDone i (int (length files))], s') \<and>
    (\<forall>n < length files. in_place to files D (cm_fs (us_cm s')) n) \<and>
    uploads (us_remote s') = [] \<and> write_jobs (us_cm s') = write_jobs cm \<and> us_pending s' = []"
proof -
  let ?p = "\<lparr>pl_id = i, pl_source = path, pl_target = to, pl_files = files, pl_data = D\<rparr>"
  have ok: "plan_ok (as_remote (th_cm g)) (reading_host e compress (local_fs st)) ?p"
    using assms(2-5) by (simp add: plan_ok_def as_remote_def reading_host_def)
  have new: "absent_from ?p 0 (cm_fs cm)" using assms(6) by (simp add: absent_from_def)
  have mark: "\<forall>x \<in> set (pl_files ?p). \<not> is_dir_marker (entry_name x)"
    using assms(2) by (auto simp: in_set_conv_nth)
  have c: "open_for_files c" using assms(11,12) by (simp add: open_for_files_def)
  from upload_started [of e path hidden ?p st c cm t f compress g] assms(1,7-10) c mark new obtain j s
    where start: "upload_start e t (SendFiles i Generic path to 0 hidden False) c f cm st =
        Some ([ShowFolder i path files True True, FastTimer, ToPeer (FaReceive (wants i to files))], s)"
      and at: "upload_at e compress g (local_fs st) ?p (write_jobs cm) 0 0 j s" by auto
  from upload_turns_taken [OF ok at, of t] obtain k s'
    where "upload_turns e compress g t k s = Some ([JobDone i (int (length files))], s')"
      "uploads (us_remote s') = []" "us_pending s' = []" "cm_ended ?p (write_jobs cm) (us_cm s')" by auto
  then show ?thesis
    using start by (intro exI [of _ s] exI [of _ k] exI [of _ s']) (simp add: cm_ended_def)
qed

text \<open>Two files, sent with overwrite detection to a system that grants everything.\<close>

definition granting_host :: target_host where
  "granting_host = \<lparr>th_calls = upload_calls, th_os = open_os, th_fs = small_fs, th_env = plain_env, th_cm = upload_cm\<rparr>"

definition listing_env :: remote_env where
  "listing_env = open_env\<lparr>rm_calls := \<lparr>list_files = (\<lambda>_ _. Inr two_files), call_result = (\<lambda>_. Inr ())\<rparr>\<rparr>"

lemma upload_completes_witness:
  "\<exists>s k s'.
    upload_start listing_env 0 (SendFiles 1 Generic ''/s'' ''/r'' 0 True False) upload_control upload_state
        \<lparr>cm_fs = \<lparr>fs_files = (\<lambda>_. None), fs_dirs = {}\<rparr>, write_jobs = []\<rparr> (empty_remote\<lparr>local_fs := small_fs\<rparr>) =
      Some ([ShowFolder 1 ''/s'' two_files True True, FastTimer, ToPeer (FaReceive (wants 1 ''/r'' two_files))], s) \<and>
    upload_turns listing_env (\<lambda>b. b) granting_host 0 k s = Some ([JobDone 1 (int (length two_files))], s') \<and>
    (\<forall>n < length two_files. in_place ''/r'' two_files (\<lambda>n. if n = 0 then [1, 2, 3] else []) (cm_fs (us_cm s')) n) \<and>
    uploads (us_remote s') = [] \<and>
    write_jobs (us_cm s') = write_jobs \<lparr>cm_fs = \<lparr>fs_files = (\<lambda>_. None), fs_dirs = {}\<rparr>, write_jobs = []\<rparr> \<and> us_pending s' = []"
proof (rule upload_completes)
  fix n assume "n < length two_files"
  with small_sender show "\<not> is_dir_marker (entry_name (two_files ! n)) \<and> can_open (rm_os listing_env) (target ''/s'' two_files n) \<and>
      can_read (rm_os listing_env) (target ''/s'' two_files n) \<and>
      map_option file_data (fs_files (local_fs (empty_remote\<lparr>local_fs := small_fs\<rparr>)) (target ''/s'' two_files n)) =
        Some (if n = 0 then [1, 2, 3] else [])"
    by (auto simp: sender_ok_def listing_env_def open_env_def Let_def)
qed (simp_all add: listing_env_def open_env_def granting_host_def upload_cm_def empty_remote_def upload_control_def control_new_def)

end
