(* ===== verification/Configuration.thy ===== *)
theory Configuration
  imports Login Stored_Secrets "HOL-Library.AList"
begin

text \<open>
  The configuration of a process, \<^verbatim>\<open>libs/hbb_common/src/config.rs\<close>: the options with the settings that a custom build
  fixes or gives defaults for, the two configuration files and the local one, what is encrypted in them, the trusted
  devices, the latencies of the servers and the proxy.

  The state is what the process holds in memory, with the files.  A file holds the value that was stored: serialisation
  as TOML and the directory of the files are not modelled, and storing succeeds.  Secrets are the bytes of their UTF-8
  form, as in \<open>Stored_Secrets\<close>.  Random numbers, the JSON form of the devices and the clock are arguments.
\<close>

subsection \<open>State\<close>

type_synonym settings = "string \<Rightarrow> string option"

record app_settings =
  overwrite :: settings
  defaults :: settings
  overwrite_local :: settings
  defaults_local :: settings
  overwrite_display :: settings
  defaults_display :: settings
  hard :: settings

datatype proxy_type = AutoProxy | Socks5 | HttpProxy

record socks5_server =
  sk_proxy :: string
  sk_username :: string
  sk_password :: bytes
  sk_type :: proxy_type

record config =
  cf_id :: bytes
  cf_enc_id :: bytes
  cf_temporary :: bytes
  cf_permanent :: bytes
  cf_salt :: bytes
  cf_key_pair :: "bytes \<times> bytes"
  cf_key_confirmed :: bool
  cf_keys_confirmed :: "string \<Rightarrow> bool option"

record config2 =
  c2_rendezvous_server :: string
  c2_nat_type :: int
  c2_serial :: int
  c2_unlock_pin :: bytes
  c2_trusted_devices :: bytes
  c2_socks :: "socks5_server option"
  c2_options :: settings

record local_config =
  lc_remote_id :: string
  lc_kb_layout_type :: string
  lc_size :: "int \<times> int \<times> int \<times> int"
  lc_fav :: "string list"
  lc_options :: settings
  lc_flutter :: settings

record conf_env =
  app :: app_settings
  secrets :: crypto
  clock :: env
  devices_json :: "trusted_device list \<Rightarrow> bytes"
  devices_parse :: "bytes \<Rightarrow> trusted_device list option"
  draw :: "nat \<Rightarrow> nat"

record conf =
  mem1 :: config
  mem2 :: config2
  mem_local :: local_config
  file1 :: "config option"
  file2 :: "config2 option"
  file_local :: "local_config option"
  device_cache :: "trusted_device list \<times> bool"
  online :: "(string \<times> int) list"
  resolved_proxy :: "proxy_type option"
  all_proxy :: "string option"

definition default_config :: config where
  "default_config = \<lparr>cf_id = [], cf_enc_id = [], cf_temporary = [], cf_permanent = [], cf_salt = [],
     cf_key_pair = ([], []), cf_key_confirmed = False, cf_keys_confirmed = (\<lambda>_. None)\<rparr>"

definition default_config2 :: config2 where
  "default_config2 = \<lparr>c2_rendezvous_server = [], c2_nat_type = 0, c2_serial = 0, c2_unlock_pin = [],
     c2_trusted_devices = [], c2_socks = None, c2_options = (\<lambda>_. None)\<rparr>"

definition default_local :: local_config where
  "default_local = \<lparr>lc_remote_id = [], lc_kb_layout_type = [], lc_size = (0, 0, 0, 0), lc_fav = [],
     lc_options = (\<lambda>_. None), lc_flutter = (\<lambda>_. None)\<rparr>"

definition ENCRYPT_MAX_LEN :: nat where "ENCRYPT_MAX_LEN = 128"
definition SERIAL :: int where "SERIAL = 3"

subsection \<open>Options\<close>

definition get_or :: "settings \<Rightarrow> settings \<Rightarrow> settings \<Rightarrow> string \<Rightarrow> string option" where
  "get_or a b c k = (case a k of Some v \<Rightarrow> Some v | None \<Rightarrow> (case b k of Some v \<Rightarrow> Some v | None \<Rightarrow> c k))"

definition is_option_can_save :: "settings \<Rightarrow> string \<Rightarrow> settings \<Rightarrow> string \<Rightarrow> bool" where
  "is_option_can_save over k dflt v \<longleftrightarrow> \<not> (over k \<noteq> None \<or> dflt k = Some v)"

definition or_empty :: "string option \<Rightarrow> string" where
  "or_empty x = (case x of Some v \<Rightarrow> v | None \<Rightarrow> [])"

text \<open>Setting a value in a map of options, where the empty value removes the entry; the flag says whether anything changed.\<close>

definition put_option :: "string \<Rightarrow> string \<Rightarrow> settings \<Rightarrow> settings \<times> bool" where
  "put_option k v m =
     (let v2 = (if v = [] then None else Some v)
      in if v2 \<noteq> m k then (m(k := v2), True) else (m, False))"

definition get_option :: "conf_env \<Rightarrow> string \<Rightarrow> conf \<Rightarrow> string" where
  "get_option e k st = or_empty (get_or (overwrite (app e)) (c2_options (mem2 st)) (defaults (app e)) k)"

definition get_bool_option :: "conf_env \<Rightarrow> string \<Rightarrow> conf \<Rightarrow> bool" where
  "get_bool_option e k st = option2bool k (get_option e k st)"

definition get_options :: "conf_env \<Rightarrow> conf \<Rightarrow> settings" where
  "get_options e st = (defaults (app e) ++ c2_options (mem2 st)) ++ overwrite (app e)"

definition is_some_hard_option :: "conf_env \<Rightarrow> string \<Rightarrow> bool" where
  "is_some_hard_option e k = (hard (app e) k = Some ''Y'')"

definition is_incoming_only :: "conf_env \<Rightarrow> bool" where
  "is_incoming_only e = (hard (app e) ''conn-type'' = Some ''incoming'')"

definition is_outgoing_only :: "conf_env \<Rightarrow> bool" where
  "is_outgoing_only e = (hard (app e) ''conn-type'' = Some ''outgoing'')"

subsection \<open>What is stored\<close>

definition seal :: "conf_env \<Rightarrow> bytes \<Rightarrow> bytes" where
  "seal e s = encrypt_str_or_original (secrets e) s V00 ENCRYPT_MAX_LEN"

definition unseal :: "conf_env \<Rightarrow> bytes \<Rightarrow> bytes \<times> bool \<times> bool" where
  "unseal e s = decrypt_str_or_original (secrets e) s V00"

definition sealed1 :: "conf_env \<Rightarrow> config \<Rightarrow> config" where
  "sealed1 e c = c\<lparr>cf_temporary := seal e (cf_temporary c), cf_permanent := seal e (cf_permanent c),
     cf_enc_id := seal e (cf_id c), cf_id := []\<rparr>"

definition sealed2 :: "conf_env \<Rightarrow> config2 \<Rightarrow> config2" where
  "sealed2 e c = c\<lparr>c2_socks := map_option (\<lambda>s. s\<lparr>sk_password := seal e (sk_password s)\<rparr>) (c2_socks c),
     c2_unlock_pin := seal e (c2_unlock_pin c)\<rparr>"

definition store1 :: "conf_env \<Rightarrow> config \<Rightarrow> conf \<Rightarrow> conf" where
  "store1 e c st = st\<lparr>mem1 := c, file1 := Some (sealed1 e c)\<rparr>"

definition store2 :: "conf_env \<Rightarrow> config2 \<Rightarrow> conf \<Rightarrow> conf" where
  "store2 e c st = st\<lparr>mem2 := c, file2 := Some (sealed2 e c)\<rparr>"

definition store_local :: "local_config \<Rightarrow> conf \<Rightarrow> conf" where
  "store_local c st = st\<lparr>mem_local := c, file_local := Some c\<rparr>"

definition load2 :: "conf_env \<Rightarrow> conf \<Rightarrow> conf" where
  "load2 e st =
     (let c = (case file2 st of Some c \<Rightarrow> c | None \<Rightarrow> default_config2);
          st1 = (case c2_socks c of Some s \<Rightarrow> snd (snd (unseal e (sk_password s))) | None \<Rightarrow> False);
          (pin, _, st2) = unseal e (c2_unlock_pin c);
          c' = c\<lparr>c2_socks := map_option (\<lambda>s. s\<lparr>sk_password := fst (unseal e (sk_password s))\<rparr>) (c2_socks c),
            c2_unlock_pin := pin\<rparr>
      in if st1 \<or> st2 then store2 e c' st else st\<lparr>mem2 := c'\<rparr>)"

text \<open>The characters of passwords by their codes: the digits from 2 on, and the letters without l and o.\<close>

definition CHARS :: "nat list" where "CHARS = [50..<58] @ [97..<108] @ [109, 110] @ [112..<123]"

definition get_auto_password :: "conf_env \<Rightarrow> nat \<Rightarrow> bytes" where
  "get_auto_password e n = map (\<lambda>i. of_nat (CHARS ! (draw e i mod length CHARS))) [0..<n]"

text \<open>\<^verbatim>\<open>gen_range(100_000_000..400_000_000)\<close> as decimal digits.\<close>

fun digits :: "nat \<Rightarrow> bytes" where
  "digits n = (if n < 10 then [] else digits (n div 10)) @ [of_nat (48 + n mod 10)]"

declare digits.simps [simp del]

definition get_auto_id :: "conf_env \<Rightarrow> bytes" where
  "get_auto_id e = digits (100000000 + draw e 0 mod 300000000)"

definition password_length :: "conf_env \<Rightarrow> conf \<Rightarrow> nat" where
  "password_length e st =
     (let l = get_option e ''temporary-password-length'' st in if l = ''8'' then 8 else if l = ''10'' then 10 else 6)"

definition load1 :: "conf_env \<Rightarrow> conf \<Rightarrow> conf" where
  "load1 e st =
     (let c0 = (case file1 st of Some c \<Rightarrow> c | None \<Rightarrow> default_config);
          (temp, store0) =
            (if get_option e ''unattended-access'' st \<noteq> ''true'' \<or> cf_temporary c0 = []
             then (get_auto_password e (password_length e st), True)
             else (fst (unseal e (cf_temporary c0)), snd (snd (unseal e (cf_temporary c0)))));
          (perm, _, store1') = unseal e (cf_permanent c0);
          c1 = c0\<lparr>cf_temporary := temp, cf_permanent := perm\<rparr>;
          (id', encrypted, store2') = unseal e (cf_enc_id c1);
          plain = (cf_id c1 \<noteq> [] \<and> cf_enc_id c1 = [] \<and> \<not> fst (snd (unseal e (cf_id c1))));
          c2 = (if encrypted then c1\<lparr>cf_id := id'\<rparr> else if plain then c1 else c1\<lparr>cf_id := get_auto_id e\<rparr>);
          store = (store0 \<or> store1' \<or> (if encrypted then store2' else True))
      in if store then store1 e c2 st else st\<lparr>mem1 := c2\<rparr>)"

definition load_local :: "conf \<Rightarrow> conf" where
  "load_local st = st\<lparr>mem_local := (case file_local st of Some c \<Rightarrow> c | None \<Rightarrow> default_local)\<rparr>"

subsection \<open>The proxy\<close>

definition effective_type :: "conf \<Rightarrow> proxy_type \<Rightarrow> proxy_type" where
  "effective_type st t =
     (case t of
        HttpProxy \<Rightarrow> HttpProxy
      | Socks5 \<Rightarrow> Socks5
      | AutoProxy \<Rightarrow> (if resolved_proxy st = Some HttpProxy then HttpProxy else Socks5))"

definition proxy_scheme :: "conf \<Rightarrow> socks5_server \<Rightarrow> string" where
  "proxy_scheme st s = (if effective_type st (sk_type s) = HttpProxy then ''http'' else ''socks5'')"

definition utf8_chars :: "bytes \<Rightarrow> string" where
  "utf8_chars b = map (\<lambda>x. char_of (unat x)) b"

definition proxy_url :: "conf \<Rightarrow> socks5_server \<Rightarrow> string" where
  "proxy_url st s =
     (if sk_username s \<noteq> []
      then proxy_scheme st s @ ''://'' @ sk_username s @ '':'' @ utf8_chars (sk_password s) @ ''@'' @ sk_proxy s
      else proxy_scheme st s @ ''://'' @ sk_proxy s)"

definition sync_proxy_env :: "conf \<Rightarrow> conf" where
  "sync_proxy_env st =
     st\<lparr>all_proxy :=
       (case c2_socks (mem2 st) of
          Some s \<Rightarrow> if sk_proxy s \<noteq> [] then Some (proxy_url st s) else None
        | None \<Rightarrow> None)\<rparr>"

datatype network_type = Direct | ProxySocks | ProxyHttp

definition get_network_type :: "conf \<Rightarrow> network_type" where
  "get_network_type st =
     (case c2_socks (mem2 st) of
        None \<Rightarrow> Direct
      | Some s \<Rightarrow> if effective_type st (sk_type s) = HttpProxy then ProxyHttp else ProxySocks)"

definition set_socks :: "conf_env \<Rightarrow> socks5_server option \<Rightarrow> conf \<Rightarrow> conf" where
  "set_socks e s st =
     (if c2_socks (mem2 st) = s then st
      else sync_proxy_env ((store2 e ((mem2 st)\<lparr>c2_socks := s\<rparr>) st)\<lparr>resolved_proxy := None\<rparr>))"

text \<open>The cache of \<^verbatim>\<open>resolve_proxy_type\<close>; the detection is an argument.\<close>

definition resolve_proxy_type :: "proxy_type \<Rightarrow> socks5_server \<Rightarrow> conf \<Rightarrow> proxy_type \<times> conf" where
  "resolve_proxy_type detected s st =
     (case sk_type s of
        AutoProxy \<Rightarrow>
          (case resolved_proxy st of Some t \<Rightarrow> (t, st) | None \<Rightarrow> (detected, st\<lparr>resolved_proxy := Some detected\<rparr>))
      | t \<Rightarrow> (t, st))"

text \<open>A new process: the files are as they were, the rest is loaded; the first configuration asks for options of the second.\<close>

definition restart :: "conf_env \<Rightarrow> conf \<Rightarrow> conf" where
  "restart e st =
     load_local (load1 e (sync_proxy_env (load2 e (st\<lparr>device_cache := ([], False), online := [], resolved_proxy := None\<rparr>))))"

subsection \<open>Setting\<close>

definition set_options :: "conf_env \<Rightarrow> settings \<Rightarrow> conf \<Rightarrow> conf" where
  "set_options e v st =
     (let v' = (\<lambda>k. case v k of
                  Some x \<Rightarrow> if is_option_can_save (overwrite (app e)) k (defaults (app e)) x then Some x else None
                | None \<Rightarrow> None)
      in if c2_options (mem2 st) = v' then st else store2 e ((mem2 st)\<lparr>c2_options := v'\<rparr>) st)"

definition config_set_option :: "conf_env \<Rightarrow> string \<Rightarrow> string \<Rightarrow> conf \<Rightarrow> conf" where
  "config_set_option e k v st =
     (if \<not> is_option_can_save (overwrite (app e)) k (defaults (app e)) v then st
      else case put_option k v (c2_options (mem2 st)) of
          (m, True) \<Rightarrow> store2 e ((mem2 st)\<lparr>c2_options := m\<rparr>) st
        | (_, False) \<Rightarrow> st)"

definition set_id :: "conf_env \<Rightarrow> bytes \<Rightarrow> conf \<Rightarrow> conf" where
  "set_id e i st = (if i = cf_id (mem1 st) then st else store1 e ((mem1 st)\<lparr>cf_id := i\<rparr>) st)"

definition get_id :: "conf_env \<Rightarrow> conf \<Rightarrow> bytes \<times> conf" where
  "get_id e st =
     (if cf_id (mem1 st) = [] then (get_auto_id e, set_id e (get_auto_id e) st) else (cf_id (mem1 st), st))"

definition set_nat_type :: "conf_env \<Rightarrow> int \<Rightarrow> conf \<Rightarrow> conf" where
  "set_nat_type e n st =
     (if n = c2_nat_type (mem2 st) then st else store2 e ((mem2 st)\<lparr>c2_nat_type := n\<rparr>) st)"

definition set_serial :: "conf_env \<Rightarrow> int \<Rightarrow> conf \<Rightarrow> conf" where
  "set_serial e n st = (if n = c2_serial (mem2 st) then st else store2 e ((mem2 st)\<lparr>c2_serial := n\<rparr>) st)"

definition get_serial :: "conf \<Rightarrow> int" where
  "get_serial st = max (c2_serial (mem2 st)) SERIAL"

definition set_key_confirmed :: "conf_env \<Rightarrow> bool \<Rightarrow> conf \<Rightarrow> conf" where
  "set_key_confirmed e v st =
     (if cf_key_confirmed (mem1 st) = v then st
      else store1 e ((mem1 st)\<lparr>cf_key_confirmed := v,
        cf_keys_confirmed := (if v then cf_keys_confirmed (mem1 st) else (\<lambda>_. None))\<rparr>) st)"

definition get_host_key_confirmed :: "string \<Rightarrow> conf \<Rightarrow> bool" where
  "get_host_key_confirmed h st = (cf_keys_confirmed (mem1 st) h = Some True)"

definition set_host_key_confirmed :: "conf_env \<Rightarrow> string \<Rightarrow> bool \<Rightarrow> conf \<Rightarrow> conf" where
  "set_host_key_confirmed e h v st =
     (if get_host_key_confirmed h st = v then st
      else store1 e ((mem1 st)\<lparr>cf_keys_confirmed := (cf_keys_confirmed (mem1 st))(h \<mapsto> v)\<rparr>) st)"

definition set_temporary_password :: "conf_env \<Rightarrow> bytes \<Rightarrow> conf \<Rightarrow> conf" where
  "set_temporary_password e p st =
     (if p = cf_temporary (mem1 st) then st else store1 e ((mem1 st)\<lparr>cf_temporary := p\<rparr>) st)"

definition set_salt :: "conf_env \<Rightarrow> bytes \<Rightarrow> conf \<Rightarrow> conf" where
  "set_salt e s st = (if s = cf_salt (mem1 st) then st else store1 e ((mem1 st)\<lparr>cf_salt := s\<rparr>) st)"

definition get_salt :: "conf_env \<Rightarrow> conf \<Rightarrow> bytes \<times> conf" where
  "get_salt e st =
     (if cf_salt (mem1 st) = [] then (get_auto_password e 6, set_salt e (get_auto_password e 6) st)
      else (cf_salt (mem1 st), st))"

definition set_unlock_pin :: "conf_env \<Rightarrow> bytes \<Rightarrow> conf \<Rightarrow> conf" where
  "set_unlock_pin e p st =
     (if p = c2_unlock_pin (mem2 st) then st else store2 e ((mem2 st)\<lparr>c2_unlock_pin := p\<rparr>) st)"

subsection \<open>Trusted devices\<close>

definition set_trusted_devices :: "conf_env \<Rightarrow> trusted_device list \<Rightarrow> conf \<Rightarrow> conf" where
  "set_trusted_devices e ds st =
     (let ds' = filter (\<lambda>d. \<not> outdate (clock e) d) ds; json = devices_json e ds'; max_len = 1024 * 1024
      in if max_len < length json then st
         else (store2 e ((mem2 st)\<lparr>c2_trusted_devices := encrypt_str_or_original (secrets e) json V00 max_len\<rparr>) st)
                \<lparr>device_cache := (ds', True)\<rparr>)"

definition get_trusted_devices :: "conf_env \<Rightarrow> conf \<Rightarrow> trusted_device list \<times> conf" where
  "get_trusted_devices e st =
     (case device_cache st of
        (ds, True) \<Rightarrow> (ds, st)
      | (_, False) \<Rightarrow>
          (case unseal e (c2_trusted_devices (mem2 st)) of
             (json, succ, store) \<Rightarrow>
               if \<not> succ then ([], st)
               else
                 (let ds0 = (case devices_parse e json of Some ds \<Rightarrow> ds | None \<Rightarrow> []);
                      ds = filter (\<lambda>d. \<not> outdate (clock e) d) ds0;
                      st' = (if store \<or> length ds \<noteq> length ds0 then set_trusted_devices e ds st else st)
                  in (ds, st'\<lparr>device_cache := (ds, True)\<rparr>))))"

definition add_device :: "conf_env \<Rightarrow> trusted_device \<Rightarrow> conf \<Rightarrow> conf" where
  "add_device e d st =
     (case get_trusted_devices e st of
        (ds, st') \<Rightarrow> set_trusted_devices e (filter (\<lambda>x. dev_hwid x \<noteq> dev_hwid d) ds @ [d]) st')"

definition remove_devices :: "conf_env \<Rightarrow> string list \<Rightarrow> conf \<Rightarrow> conf" where
  "remove_devices e hwids st =
     (case get_trusted_devices e st of
        (ds, st') \<Rightarrow> set_trusted_devices e (filter (\<lambda>x. dev_hwid x \<notin> set hwids) ds) st')"

definition clear_trusted_devices :: "conf_env \<Rightarrow> conf \<Rightarrow> conf" where
  "clear_trusted_devices e st = set_trusted_devices e [] st"

definition set_permanent_password :: "conf_env \<Rightarrow> bytes \<Rightarrow> conf \<Rightarrow> conf" where
  "set_permanent_password e p st =
     (if p = cf_permanent (mem1 st) then st
      else clear_trusted_devices e (store1 e ((mem1 st)\<lparr>cf_permanent := p\<rparr>) st))"

subsection \<open>Latencies of the servers\<close>

definition get_online_state :: "conf \<Rightarrow> int" where
  "get_online_state st = (if online st = [] then 0 else Max (snd ` set (online st)))"

fun best_host :: "(string \<times> int) list \<Rightarrow> string \<times> int \<Rightarrow> string \<times> int" where
  "best_host [] best = best"
| "best_host ((h, d) # rest) best = best_host rest (if 0 < d \<and> d < snd best then (h, d) else best)"

definition update_latency :: "conf_env \<Rightarrow> string \<Rightarrow> int \<Rightarrow> conf \<Rightarrow> conf" where
  "update_latency e h d st =
     (let st1 = st\<lparr>online := AList.update h d (online st)\<rparr>;
          best = fst (best_host (online st1) ([], 2 ^ 63 - 1))
      in if best \<noteq> [] \<and> best \<noteq> c2_rendezvous_server (mem2 st1)
         then store2 e ((mem2 st1)\<lparr>c2_rendezvous_server := best\<rparr>) st1 else st1)"

subsection \<open>The local configuration\<close>

definition local_get_option :: "conf_env \<Rightarrow> string \<Rightarrow> conf \<Rightarrow> string" where
  "local_get_option e k st =
     or_empty (get_or (overwrite_local (app e)) (lc_options (mem_local st)) (defaults_local (app e)) k)"

definition local_set_option :: "conf_env \<Rightarrow> string \<Rightarrow> string \<Rightarrow> conf \<Rightarrow> conf" where
  "local_set_option e k v st =
     (if \<not> is_option_can_save (overwrite_local (app e)) k (defaults_local (app e)) v then st
      else if k = ''lang'' \<and> v = ''default'' then
        store_local ((mem_local st)\<lparr>lc_options := (lc_options (mem_local st))(k \<mapsto> [])\<rparr>) st
      else case put_option k v (lc_options (mem_local st)) of
          (m, True) \<Rightarrow> store_local ((mem_local st)\<lparr>lc_options := m\<rparr>) st
        | (_, False) \<Rightarrow> st)"

definition get_flutter_option :: "conf_env \<Rightarrow> string \<Rightarrow> conf \<Rightarrow> string" where
  "get_flutter_option e k st =
     or_empty (get_or (overwrite_local (app e)) (lc_flutter (mem_local st)) (defaults_local (app e)) k)"

definition set_flutter_option :: "string \<Rightarrow> string \<Rightarrow> conf \<Rightarrow> conf" where
  "set_flutter_option k v st =
     (case put_option k v (lc_flutter (mem_local st)) of
        (m, True) \<Rightarrow> store_local ((mem_local st)\<lparr>lc_flutter := m\<rparr>) st
      | (_, False) \<Rightarrow> st)"

definition set_kb_layout_type :: "string \<Rightarrow> conf \<Rightarrow> conf" where
  "set_kb_layout_type k st = store_local ((mem_local st)\<lparr>lc_kb_layout_type := k\<rparr>) st"

definition set_size :: "int \<Rightarrow> int \<Rightarrow> int \<Rightarrow> int \<Rightarrow> conf \<Rightarrow> conf" where
  "set_size x y w h st =
     (if (x, y, w, h) = lc_size (mem_local st) \<or> w < 300 \<or> h < 300 then st
      else store_local ((mem_local st)\<lparr>lc_size := (x, y, w, h)\<rparr>) st)"

definition set_remote_id :: "string \<Rightarrow> conf \<Rightarrow> conf" where
  "set_remote_id i st =
     (if i = lc_remote_id (mem_local st) then st else store_local ((mem_local st)\<lparr>lc_remote_id := i\<rparr>) st)"

definition set_fav :: "string list \<Rightarrow> conf \<Rightarrow> conf" where
  "set_fav f st = (if f = lc_fav (mem_local st) then st else store_local ((mem_local st)\<lparr>lc_fav := f\<rparr>) st)"

subsection \<open>The defaults of the user for new peers\<close>

definition get_after :: "conf_env \<Rightarrow> string \<Rightarrow> settings \<Rightarrow> string option" where
  "get_after e k opts = get_or (overwrite_display (app e)) opts (defaults_display (app e)) k"

definition get_string :: "conf_env \<Rightarrow> string \<Rightarrow> string \<Rightarrow> string list \<Rightarrow> settings \<Rightarrow> string" where
  "get_string e k dflt others opts =
     (case get_after e k opts of Some v \<Rightarrow> if v \<in> set others then v else dflt | None \<Rightarrow> dflt)"

text \<open>Numbers, for any type of number with its parser, printer and order.\<close>

definition get_num_string ::
  "(string \<Rightarrow> 'n option) \<Rightarrow> ('n \<Rightarrow> string) \<Rightarrow> ('n \<Rightarrow> 'n \<Rightarrow> bool) \<Rightarrow> conf_env \<Rightarrow> string \<Rightarrow> 'n \<Rightarrow> 'n \<Rightarrow> 'n \<Rightarrow> settings \<Rightarrow> string"
where
  "get_num_string parse shown le e k dflt mn mx opts =
     (case get_after e k opts of
        Some s \<Rightarrow> (let v = (case parse s of Some v \<Rightarrow> v | None \<Rightarrow> dflt) in if le mn v \<and> le v mx then shown v else shown dflt)
      | None \<Rightarrow> shown dflt)"

definition set_default :: "conf_env \<Rightarrow> string \<Rightarrow> string \<Rightarrow> settings \<Rightarrow> settings" where
  "set_default e k v opts =
     (if \<not> is_option_can_save (overwrite_display (app e)) k (defaults_display (app e)) v then opts
      else opts(k := (if v = [] then None else Some v)))"

end
