(* ===== verification/Configuration_Properties.thy ===== *)
theory Configuration_Properties
  imports Configuration Login_Properties
begin

text \<open>
  What the configuration keeps: the files follow the memory through any operations, a new process finds the values of
  the old one, the effect of setting an option, the trusted devices, and where values are lost.
\<close>

subsection \<open>Operations\<close>

datatype conf_op =
    SetOption string string
  | SetOptions settings
  | SetId bytes
  | GetId
  | SetNatType int
  | SetSerial int
  | SetKeyConfirmed bool
  | SetHostKeyConfirmed string bool
  | SetTemporaryPassword bytes
  | SetPermanentPassword bytes
  | SetSalt bytes
  | GetSalt
  | SetUnlockPin bytes
  | SetSocks "socks5_server option"
  | AddDevice trusted_device
  | RemoveDevices "string list"
  | ClearDevices
  | GetDevices
  | UpdateLatency string int
  | LocalSetOption string string
  | SetFlutterOption string string
  | SetKbLayoutType string
  | SetSize int int int int
  | SetRemoteId string
  | SetFav "string list"
  | ResolveProxy proxy_type socks5_server

fun perform :: "conf_env \<Rightarrow> conf_op \<Rightarrow> conf \<Rightarrow> conf" where
  "perform e (SetOption k v) st = config_set_option e k v st"
| "perform e (SetOptions m) st = set_options e m st"
| "perform e (SetId i) st = set_id e i st"
| "perform e GetId st = snd (get_id e st)"
| "perform e (SetNatType n) st = set_nat_type e n st"
| "perform e (SetSerial n) st = set_serial e n st"
| "perform e (SetKeyConfirmed v) st = set_key_confirmed e v st"
| "perform e (SetHostKeyConfirmed h v) st = set_host_key_confirmed e h v st"
| "perform e (SetTemporaryPassword p) st = set_temporary_password e p st"
| "perform e (SetPermanentPassword p) st = set_permanent_password e p st"
| "perform e (SetSalt s) st = set_salt e s st"
| "perform e GetSalt st = snd (get_salt e st)"
| "perform e (SetUnlockPin p) st = set_unlock_pin e p st"
| "perform e (SetSocks s) st = set_socks e s st"
| "perform e (AddDevice d) st = add_device e d st"
| "perform e (RemoveDevices hs) st = remove_devices e hs st"
| "perform e ClearDevices st = clear_trusted_devices e st"
| "perform e GetDevices st = snd (get_trusted_devices e st)"
| "perform e (UpdateLatency h d) st = update_latency e h d st"
| "perform e (LocalSetOption k v) st = local_set_option e k v st"
| "perform e (SetFlutterOption k v) st = set_flutter_option k v st"
| "perform e (SetKbLayoutType k) st = set_kb_layout_type k st"
| "perform e (SetSize x y w h) st = set_size x y w h st"
| "perform e (SetRemoteId i) st = set_remote_id i st"
| "perform e (SetFav f) st = set_fav f st"
| "perform e (ResolveProxy t s) st = snd (resolve_proxy_type t s st)"

definition performs :: "conf_env \<Rightarrow> conf_op list \<Rightarrow> conf \<Rightarrow> conf" where
  "performs e ops st = fold (perform e) ops st"

subsection \<open>The files follow the memory\<close>

definition follows :: "'c option \<Rightarrow> 'c \<Rightarrow> ('c \<Rightarrow> 'c) \<Rightarrow> 'c \<Rightarrow> bool" where
  "follows f dflt sealed m \<longleftrightarrow> f = Some (sealed m) \<or> f = None \<and> m = dflt"

definition in_sync :: "conf_env \<Rightarrow> conf \<Rightarrow> bool" where
  "in_sync e st \<longleftrightarrow> follows (file1 st) default_config (sealed1 e) (mem1 st) \<and>
     follows (file2 st) default_config2 (sealed2 e) (mem2 st) \<and> follows (file_local st) default_local id (mem_local st)"

lemma in_sync_store [simp]:
  "in_sync e st \<Longrightarrow> in_sync e (store1 e c1 st)" "in_sync e st \<Longrightarrow> in_sync e (store2 e c2 st)"
  "in_sync e st \<Longrightarrow> in_sync e (store_local c3 st)"
  by (simp_all add: in_sync_def follows_def store1_def store2_def store_local_def)

lemma in_sync_volatile [simp]:
  "in_sync e (st\<lparr>device_cache := x\<rparr>) = in_sync e st" "in_sync e (st\<lparr>online := y\<rparr>) = in_sync e st"
  "in_sync e (st\<lparr>resolved_proxy := z\<rparr>) = in_sync e st" "in_sync e (st\<lparr>all_proxy := w\<rparr>) = in_sync e st"
  by (simp_all add: in_sync_def)

lemma in_sync_proxy [simp]: "in_sync e (sync_proxy_env st) = in_sync e st"
  by (simp add: sync_proxy_env_def)

lemma in_sync_devices [simp]: "in_sync e st \<Longrightarrow> in_sync e (set_trusted_devices e ds st)"
  by (simp add: set_trusted_devices_def Let_def)

lemma in_sync_get_devices [simp]: "in_sync e st \<Longrightarrow> in_sync e (snd (get_trusted_devices e st))"
  by (auto simp: get_trusted_devices_def Let_def split: prod.split bool.split)

text \<open>A secret that the files can hold: short enough, text, and not of the form of a stored one.\<close>

definition sealable :: "conf_env \<Rightarrow> bytes \<Rightarrow> bool" where
  "sealable e v \<longleftrightarrow> length v \<le> ENCRYPT_MAX_LEN \<and> lossy (secrets e) v = v \<and> \<not> fst (snd (unseal e v))"

lemma seal_nothing [simp]: "seal e [] = []" "unseal e [] = ([], False, False)"
  by (simp_all add: unseal_def seal_def decrypt_str_or_original_def encrypt_str_or_original_def encrypt_def VERSION_LEN_def)

lemma unseal_seal:
  assumes "crypto_ok (secrets e)" and "sealable e v"
  shows "unseal e (seal e v) = (v, v \<noteq> [], False)"
proof (cases "v = []")
  case True
  then show ?thesis by simp
next
  case False
  let ?k = "secrets e" and ?s = "V00 @ b64_encode (secrets e) (box_seal (secrets e) v (keybuf (secrets e)))"
  have "seal e v = ?s"
    using assms(2) False
    by (simp add: seal_def sealable_def unseal_def encrypt_str_or_original_def encrypt_def symmetric_crypt_def)
  moreover have "unseal e ?s = (v, True, False)"
    using stored_form [OF assms(1) False] assms(2)
    by (simp add: unseal_def sealable_def decrypt_str_or_original_def VERSION_LEN_def V00_def Let_def)
  ultimately show ?thesis using False by simp
qed

lemma seal_empty: "crypto_ok (secrets e) \<Longrightarrow> sealable e v \<Longrightarrow> seal e v = [] \<longleftrightarrow> v = []"
  using unseal_seal [of e v] by (cases "v = []") auto

text \<open>What the state must hold for its files to give it back.\<close>

definition secrets_ok :: "conf_env \<Rightarrow> conf \<Rightarrow> bool" where
  "secrets_ok e st \<longleftrightarrow> crypto_ok (secrets e) \<and> cf_id (mem1 st) \<noteq> [] \<and> sealable e (cf_id (mem1 st)) \<and>
     sealable e (cf_temporary (mem1 st)) \<and> sealable e (cf_permanent (mem1 st)) \<and> sealable e (c2_unlock_pin (mem2 st)) \<and>
     (\<forall>s. c2_socks (mem2 st) = Some s \<longrightarrow> sealable e (sk_password s))"

lemma load2_sealed:
  assumes "follows (file2 st) default_config2 (sealed2 e) m" and "crypto_ok (secrets e)" and "sealable e (c2_unlock_pin m)"
    and "\<And>s. c2_socks m = Some s \<Longrightarrow> sealable e (sk_password s)"
  shows "load2 e st = st\<lparr>mem2 := m\<rparr>"
proof (cases "file2 st")
  case None
  with assms(1) have "m = default_config2" by (simp add: follows_def)
  with None show ?thesis
    by (simp add: load2_def default_config2_def)
next
  case (Some f)
  with assms(1) have f: "f = sealed2 e m" by (simp add: follows_def)
  note pin = unseal_seal [OF assms(2,3)]
  show ?thesis
  proof (cases "c2_socks m")
    case None
    with Some pin show ?thesis by (simp add: load2_def f sealed2_def)
  next
    case (Some s)
    with \<open>file2 st = Some f\<close> pin unseal_seal [OF assms(2) assms(4) [OF Some]] show ?thesis
      by (simp add: load2_def f sealed2_def)
  qed
qed

lemma load1_sealed:
  assumes "file1 st = Some (sealed1 e m)" and "crypto_ok (secrets e)" and "cf_id m \<noteq> []" and "sealable e (cf_id m)"
    and "sealable e (cf_temporary m)" and "sealable e (cf_permanent m)"
  defines "fresh \<equiv> get_option e ''unattended-access'' st \<noteq> ''true'' \<or> cf_temporary m = []"
  defines "m' \<equiv> m\<lparr>cf_enc_id := seal e (cf_id m),
      cf_temporary := (if fresh then get_auto_password e (password_length e st) else cf_temporary m)\<rparr>"
  shows "load1 e st = (if fresh then store1 e m' st else st\<lparr>mem1 := m'\<rparr>)"
proof -
  note u = unseal_seal [OF assms(2)]
  have e: "seal e (cf_temporary m) = [] \<longleftrightarrow> cf_temporary m = []" by (rule seal_empty [OF assms(2,5)])
  show ?thesis
    using assms(1,3)
    by (simp add: load1_def sealed1_def u assms(4,5,6) e fresh_def m'_def Let_def)
qed


lemma perform_in_sync: "in_sync e st \<Longrightarrow> in_sync e (perform e op st)"
proof (cases op)
  case (AddDevice d)
  assume "in_sync e st"
  then show ?thesis using in_sync_get_devices [of e st]
    by (cases "get_trusted_devices e st") (simp add: AddDevice add_device_def)
next
  case (RemoveDevices hs)
  assume "in_sync e st"
  then show ?thesis using in_sync_get_devices [of e st]
    by (cases "get_trusted_devices e st") (simp add: RemoveDevices remove_devices_def)
qed (auto simp: config_set_option_def set_options_def set_id_def get_id_def set_nat_type_def set_serial_def set_key_confirmed_def
    set_host_key_confirmed_def set_temporary_password_def set_permanent_password_def set_salt_def get_salt_def
    set_unlock_pin_def set_socks_def clear_trusted_devices_def update_latency_def local_set_option_def
    set_flutter_option_def set_kb_layout_type_def set_size_def set_remote_id_def set_fav_def resolve_proxy_type_def Let_def
    split: prod.split bool.split option.split proxy_type.split)

lemma performs_in_sync: "in_sync e st \<Longrightarrow> in_sync e (performs e ops st)"
  unfolding performs_def by (induction ops arbitrary: st) (simp_all add: perform_in_sync)

lemma restart_sealed:
  assumes "in_sync e st" and "secrets_ok e st"
  defines "keeps \<equiv> get_option e ''unattended-access'' st = ''true'' \<and> cf_temporary (mem1 st) \<noteq> []"
  shows "mem1 (restart e st) = (mem1 st)\<lparr>cf_enc_id := seal e (cf_id (mem1 st)),
      cf_temporary := (if keeps then cf_temporary (mem1 st) else get_auto_password e (password_length e st))\<rparr>"
    and "mem2 (restart e st) = mem2 st" and "mem_local (restart e st) = mem_local st" and "in_sync e (restart e st)"
    and "device_cache (restart e st) = ([], False)"
proof -
  let ?s0 = "st\<lparr>device_cache := ([], False), online := [], resolved_proxy := None\<rparr>"
  define s1 where "s1 = sync_proxy_env (?s0\<lparr>mem2 := mem2 st\<rparr>)"
  have l2: "load2 e ?s0 = ?s0\<lparr>mem2 := mem2 st\<rparr>"
    by (rule load2_sealed) (use assms(1,2) in \<open>simp_all add: in_sync_def secrets_ok_def\<close>)
  have s1: "mem2 s1 = mem2 st" "file2 s1 = file2 st" "file1 s1 = file1 st" "file_local s1 = file_local st"
    "device_cache s1 = ([], False)"
    by (simp_all add: s1_def sync_proxy_env_def)
  have opt: "get_option e k s1 = get_option e k st" for k by (simp add: get_option_def s1)
  then have len: "password_length e s1 = password_length e st" by (simp add: password_length_def)
  have f1: "file1 s1 = Some (sealed1 e (mem1 st))"
    using assms(1,2) by (auto simp: s1 in_sync_def secrets_ok_def follows_def default_config_def)
  have ok: "crypto_ok (secrets e)" "cf_id (mem1 st) \<noteq> []" "sealable e (cf_id (mem1 st))" "sealable e (cf_temporary (mem1 st))"
    "sealable e (cf_permanent (mem1 st))" using assms(2) by (simp_all add: secrets_ok_def)
  let ?m = "(mem1 st)\<lparr>cf_enc_id := seal e (cf_id (mem1 st)),
      cf_temporary := (if keeps then cf_temporary (mem1 st) else get_auto_password e (password_length e st))\<rparr>"
  have l1: "load1 e s1 = (if keeps then s1\<lparr>mem1 := ?m\<rparr> else store1 e ?m s1)"
    using load1_sealed [OF f1 ok] by (simp add: opt len keeps_def)
  have r: "restart e st = load_local (load1 e s1)" by (simp add: restart_def l2 s1_def)
  have lc: "(case file_local st of Some c \<Rightarrow> c | None \<Rightarrow> default_local) = mem_local st"
    using assms(1) by (auto simp: in_sync_def follows_def)
  have same: "sealed1 e ((mem1 st)\<lparr>cf_enc_id := x\<rparr>) = sealed1 e (mem1 st)" for x by (simp add: sealed1_def)
  show "mem1 (restart e st) = ?m" "mem2 (restart e st) = mem2 st" "mem_local (restart e st) = mem_local st"
    "device_cache (restart e st) = ([], False)"
    by (simp_all add: r l1 load_local_def lc s1 store1_def)
  show "in_sync e (restart e st)"
    using assms(1) f1 lc
    by (cases keeps) (auto simp: r l1 load_local_def store1_def in_sync_def follows_def s1 same)
qed

text \<open>
  C35. Settings survive.  Take a process whose files follow its memory, and any sequence of settings: options, names, serials,
  passwords, confirmed keys, proxies, trusted devices, the local settings.  If the secrets that are then in memory can be
  stored (text of at most 128 bytes that does not look encrypted), a new process that reads the files has every value that
  the old one had in memory; only the password for one session is a new one unless unattended access keeps it, and the
  files follow the memory again.
\<close>

theorem settings_survive:
  assumes "in_sync e st" and "secrets_ok e (performs e ops st)"
  shows "let old = performs e ops st; new = restart e old in
    mem1 new = (mem1 old)\<lparr>cf_enc_id := seal e (cf_id (mem1 old)),
      cf_temporary := (if get_option e ''unattended-access'' old = ''true'' \<and> cf_temporary (mem1 old) \<noteq> []
        then cf_temporary (mem1 old) else get_auto_password e (password_length e old))\<rparr> \<and>
    mem2 new = mem2 old \<and> mem_local new = mem_local old \<and> in_sync e new"
  using restart_sealed [OF performs_in_sync [OF assms(1)] assms(2)] by (simp add: Let_def)

subsection \<open>A password that is too long\<close>

lemma load1_permanent:
  "file1 st = Some c \<Longrightarrow> cf_permanent (mem1 (load1 e st)) = fst (unseal e (cf_permanent c))"
  by (simp add: load1_def store1_def Let_def split: prod.split)

lemma load2_file1: "file1 (load2 e st) = file1 st"
  by (simp add: load2_def store2_def Let_def split: prod.split)

text \<open>
  A permanent password of more than 128 bytes is in force until the process ends; the next one has none, because
  the file holds the empty string for a secret over the limit.
\<close>

theorem long_password_lost:
  assumes "ENCRYPT_MAX_LEN < length p" and "\<not> fst (snd (unseal e p))" and "p \<noteq> cf_permanent (mem1 st)"
  shows "cf_permanent (mem1 (set_permanent_password e p st)) = p \<and>
    cf_permanent (mem1 (restart e (set_permanent_password e p st))) = []"
proof -
  have s: "seal e p = []"
    using assms(1,2) by (simp add: seal_def unseal_def encrypt_str_or_original_def)
  have keep: "mem1 (set_trusted_devices e ds x) = mem1 x" "file1 (set_trusted_devices e ds x) = file1 x" for ds x
    by (simp_all add: set_trusted_devices_def store2_def Let_def)
  let ?st = "set_permanent_password e p st"
  have f: "file1 ?st = Some (sealed1 e ((mem1 st)\<lparr>cf_permanent := p\<rparr>))" "cf_permanent (mem1 ?st) = p"
    using assms(3) by (simp_all add: set_permanent_password_def clear_trusted_devices_def keep store1_def)
  have "file1 (sync_proxy_env (load2 e (?st\<lparr>device_cache := ([], False), online := [], resolved_proxy := None\<rparr>))) =
      Some (sealed1 e ((mem1 st)\<lparr>cf_permanent := p\<rparr>))"
    by (simp add: sync_proxy_env_def load2_file1 f)
  from load1_permanent [OF this] f(2) s show ?thesis
    by (simp add: restart_def load_local_def sealed1_def)
qed


subsection \<open>Options\<close>

lemma get_option_map: "get_option e k st = or_empty (get_options e st k)"
  by (auto simp: get_option_def get_options_def get_or_def map_add_def split: option.split)

lemma put_option_at: "fst (put_option k v m) = m(k := if v = [] then None else Some v)"
  by (auto simp: put_option_def Let_def)

lemma set_option_get:
  "get_option e k' (config_set_option e k v st) =
     (if k' = k \<and> is_option_can_save (overwrite (app e)) k (defaults (app e)) v
      then (if v = [] then or_empty (defaults (app e) k) else v)
      else get_option e k' st)"
proof -
  have m: "c2_options (mem2 (config_set_option e k v st)) =
      (if is_option_can_save (overwrite (app e)) k (defaults (app e)) v
       then (c2_options (mem2 st))(k := if v = [] then None else Some v) else c2_options (mem2 st))"
    by (auto simp: config_set_option_def put_option_def store2_def Let_def)
  show ?thesis
    by (auto simp: get_option_def m get_or_def is_option_can_save_def or_empty_def split: option.split)
qed

text \<open>
  C36. What setting an option does, and that a default cannot be chosen again.  Every other option keeps its value; a fixed
  option keeps it too; a value that is not the default is what is read afterwards, and the empty value brings the default
  back.  But setting an option to the value that is its default changes nothing: when the user had chosen another value,
  that value stays in force.
\<close>

theorem default_not_chosen_again:
  "get_option e k' (config_set_option e k v st) =
     (if k' = k \<and> is_option_can_save (overwrite (app e)) k (defaults (app e)) v
      then (if v = [] then or_empty (defaults (app e) k) else v)
      else get_option e k' st) \<and>
   (overwrite (app e) k = None \<longrightarrow> defaults (app e) k = Some d \<longrightarrow> c2_options (mem2 st) k = Some w \<longrightarrow>
     get_option e k (config_set_option e k d st) = w)"
  by (simp add: set_option_get) (auto simp: is_option_can_save_def get_option_def get_or_def or_empty_def)

definition plain_settings :: app_settings where
  "plain_settings = \<lparr>overwrite = (\<lambda>_. None), defaults = [''a'' \<mapsto> ''d''], overwrite_local = (\<lambda>_. None), defaults_local = (\<lambda>_. None),
     overwrite_display = (\<lambda>_. None), defaults_display = (\<lambda>_. None), hard = (\<lambda>_. None)\<rparr>"

definition plain_conf_env :: conf_env where
  "plain_conf_env = \<lparr>app = plain_settings, secrets = toy_crypto, clock = plain_env,
     devices_json = (\<lambda>ds. 91 # replicate (length ds) 0), devices_parse = (\<lambda>_. None), draw = (\<lambda>i. i)\<rparr>"

definition first_conf :: conf where
  "first_conf = \<lparr>mem1 = default_config\<lparr>cf_id := [49, 50]\<rparr>, mem2 = default_config2\<lparr>c2_options := [''a'' \<mapsto> ''w'']\<rparr>,
     mem_local = default_local, file1 = Some (sealed1 plain_conf_env (default_config\<lparr>cf_id := [49, 50]\<rparr>)),
     file2 = Some (sealed2 plain_conf_env (default_config2\<lparr>c2_options := [''a'' \<mapsto> ''w'']\<rparr>)), file_local = None,
     device_cache = ([], False), online = [], resolved_proxy = None, all_proxy = None\<rparr>"

lemma default_not_chosen_again_witness:
  "get_option plain_conf_env ''a'' (config_set_option plain_conf_env ''a'' ''d'' first_conf) = ''w''"
proof -
  have "overwrite (app plain_conf_env) ''a'' = None" "defaults (app plain_conf_env) ''a'' = Some ''d''"
    "c2_options (mem2 first_conf) ''a'' = Some ''w''"
    by (simp_all add: plain_conf_env_def plain_settings_def first_conf_def)
  with default_not_chosen_again [of plain_conf_env "''a''" "''a''" "''d''" first_conf "''d''" "''w''"] show ?thesis by blast
qed

text \<open>The values that the unit test of the program checks.\<close>

definition tested_env :: conf_env where
  "tested_env = plain_conf_env\<lparr>app := plain_settings\<lparr>defaults := [''b'' \<mapsto> ''a'', ''c'' \<mapsto> ''a''],
     overwrite := [''b'' \<mapsto> ''c'', ''c'' \<mapsto> ''f'', ''d'' \<mapsto> ''c'']\<rparr>\<rparr>"

definition tested_conf :: conf where
  "tested_conf = first_conf\<lparr>mem2 := default_config2\<lparr>c2_options := [''a'' \<mapsto> ''b'', ''b'' \<mapsto> ''b'']\<rparr>\<rparr>"

lemma tested_options:
  "c2_options (mem2 (set_options tested_env [''b'' \<mapsto> ''c'', ''d'' \<mapsto> ''c'', ''c'' \<mapsto> ''a''] tested_conf)) = (\<lambda>_. None)"
  "get_option tested_env ''a'' tested_conf = ''b''" "get_option tested_env ''c'' tested_conf = ''f''"
  "get_option tested_env ''b'' tested_conf = ''c''" "get_option tested_env ''d'' tested_conf = ''c''"
  by (auto simp: tested_env_def tested_conf_def plain_conf_env_def plain_settings_def get_option_def get_or_def or_empty_def
      set_options_def is_option_can_save_def first_conf_def default_config2_def store2_def fun_eq_iff Let_def split: option.split)

lemma settings_survive_witness:
  "mem2 (restart plain_conf_env (performs plain_conf_env [SetOption ''b'' ''x'', SetUnlockPin [7]] first_conf)) =
     mem2 (performs plain_conf_env [SetOption ''b'' ''x'', SetUnlockPin [7]] first_conf)"
proof -
  have "in_sync plain_conf_env first_conf"
    by (simp add: in_sync_def follows_def first_conf_def)
  moreover have "secrets_ok plain_conf_env (performs plain_conf_env [SetOption ''b'' ''x'', SetUnlockPin [7]] first_conf)"
    by (simp add: secrets_ok_def performs_def config_set_option_def put_option_def is_option_can_save_def store2_def set_unlock_pin_def
        first_conf_def default_config_def default_config2_def plain_conf_env_def plain_settings_def crypto_ok_def toy_crypto_def
        sealable_def unseal_def decrypt_str_or_original_def VERSION_LEN_def ENCRYPT_MAX_LEN_def Let_def)
  ultimately show ?thesis
    using settings_survive [of plain_conf_env first_conf "[SetOption ''b'' ''x'', SetUnlockPin [7]]"]
    by (simp add: Let_def)
qed

lemma long_password_lost_witness:
  "cf_permanent (mem1 (restart plain_conf_env (set_permanent_password plain_conf_env (replicate 129 1) first_conf))) = []"
proof -
  have "take 2 (replicate 129 (1 :: u8)) = [1, 1]" by (simp add: numeral_2_eq_2)
  moreover have "[1, 1] \<noteq> V00" by (simp add: V00_def)
  ultimately have "\<not> fst (snd (unseal plain_conf_env (replicate 129 1)))"
    by (simp add: unseal_def decrypt_str_or_original_def VERSION_LEN_def Let_def)
  moreover have "ENCRYPT_MAX_LEN < length (replicate 129 (1 :: u8))" by (simp add: ENCRYPT_MAX_LEN_def)
  moreover have "replicate 129 1 \<noteq> cf_permanent (mem1 first_conf)" by (simp add: first_conf_def default_config_def)
  ultimately show ?thesis using long_password_lost by blast
qed

subsection \<open>Trusted devices\<close>

text \<open>What the JSON form of the devices must be like: it reads back, is text, does not look encrypted, and is within the limit.\<close>

definition json_ok :: "conf_env \<Rightarrow> trusted_device list \<Rightarrow> bool" where
  "json_ok e ds \<longleftrightarrow> devices_parse e (devices_json e ds) = Some ds \<and> devices_json e ds \<noteq> [] \<and>
     take 2 (devices_json e ds) \<noteq> V00 \<and> lossy (secrets e) (devices_json e ds) = devices_json e ds \<and>
     length (devices_json e ds) \<le> 1024 * 1024"

definition fits :: "conf_env \<Rightarrow> trusted_device list \<Rightarrow> bool" where
  "fits e ds \<longleftrightarrow> json_ok e (filter (\<lambda>d. \<not> outdate (clock e) d) ds)"

lemma stored_devices:
  assumes "crypto_ok (secrets e)" and "json_ok e ds" and "length (devices_json e ds) \<le> n"
  shows "unseal e (encrypt_str_or_original (secrets e) (devices_json e ds) V00 n) = (devices_json e ds, True, False)"
proof -
  let ?j = "devices_json e ds" and ?s = "V00 @ b64_encode (secrets e) (box_seal (secrets e) (devices_json e ds) (keybuf (secrets e)))"
  have j: "?j \<noteq> []" "take 2 ?j \<noteq> V00" "lossy (secrets e) ?j = ?j" using assms(2) by (simp_all add: json_ok_def)
  have "encrypt_str_or_original (secrets e) ?j V00 n = ?s"
    using j assms(3)
    by (simp add: encrypt_str_or_original_def decrypt_str_or_original_def VERSION_LEN_def encrypt_def symmetric_crypt_def Let_def)
  moreover have "unseal e ?s = (?j, True, False)"
    using stored_form [OF assms(1) j(1)] j(3)
    by (simp add: unseal_def decrypt_str_or_original_def VERSION_LEN_def V00_def Let_def)
  ultimately show ?thesis by simp
qed

lemma devices_after_restart:
  assumes "in_sync e st" and "secrets_ok e st" and "fits e ds"
  shows "fst (get_trusted_devices e (restart e (set_trusted_devices e ds st))) = filter (\<lambda>d. \<not> outdate (clock e) d) ds"
proof -
  let ?st = "set_trusted_devices e ds st" and ?ds = "filter (\<lambda>d. \<not> outdate (clock e) d) ds"
  have st: "?st = (store2 e ((mem2 st)\<lparr>c2_trusted_devices := encrypt_str_or_original (secrets e) (devices_json e ?ds) V00 (1024 * 1024)\<rparr>) st)
      \<lparr>device_cache := (?ds, True)\<rparr>"
    using assms(3) by (simp add: set_trusted_devices_def fits_def json_ok_def Let_def)
  have "secrets_ok e ?st" using assms(2) by (simp add: st secrets_ok_def store2_def)
  with restart_sealed(2,5) [OF in_sync_devices [OF assms(1)]]
  have r: "mem2 (restart e ?st) = mem2 ?st" "device_cache (restart e ?st) = ([], False)" by blast+
  have c: "crypto_ok (secrets e)" using assms(2) by (simp add: secrets_ok_def)
  have u: "unseal e (c2_trusted_devices (mem2 ?st)) = (devices_json e ?ds, True, False)"
    using stored_devices [OF c assms(3) [unfolded fits_def], of "1024 * 1024"] assms(3)
    by (simp add: st store2_def fits_def json_ok_def)
  show ?thesis
    using assms(3) by (simp add: get_trusted_devices_def r u fits_def json_ok_def Let_def)
qed


lemma secrets_ok_devices: "secrets_ok e (set_trusted_devices e ds st) = secrets_ok e st"
  by (simp add: set_trusted_devices_def secrets_ok_def store2_def Let_def)

lemma secrets_ok_cache: "secrets_ok e (st\<lparr>device_cache := x\<rparr>) = secrets_ok e st"
  by (simp add: secrets_ok_def)

lemma secrets_ok_get_devices: "secrets_ok e (snd (get_trusted_devices e st)) = secrets_ok e st"
  by (auto simp: get_trusted_devices_def Let_def secrets_ok_cache secrets_ok_devices split: prod.split bool.split)

text \<open>A generated password is text and has no zero in it, so it can be stored.\<close>

lemma unat_numeral_u8: "unat (128 :: u8) = 128" "unat (48 :: u8) = 48"
  by simp_all

lemma CHARS_ascii:
  assumes "c \<in> set CHARS"
  shows "of_nat c < (128 :: u8) \<and> of_nat c \<noteq> (48 :: u8)"
proof -
  from assms have c: "c < 128" "c \<noteq> 48" by (auto simp: CHARS_def)
  then have "unat (of_nat c :: u8) = c" by (simp add: unat_of_nat)
  with c show ?thesis by (metis unat_numeral_u8(1,2) word_less_nat_alt)
qed

lemma length_CHARS: "length CHARS = 32"
  by (simp add: CHARS_def)

lemma auto_password_char:
  assumes "b \<in> set (get_auto_password e n)"
  shows "b < 128 \<and> b \<noteq> 48"
proof -
  from assms obtain i where b: "b = of_nat (CHARS ! (draw e i mod length CHARS))"
    unfolding get_auto_password_def by auto
  have "draw e i mod length CHARS < length CHARS" by (simp add: length_CHARS)
  then have "CHARS ! (draw e i mod length CHARS) \<in> set CHARS" by (rule nth_mem)
  from CHARS_ascii [OF this] show ?thesis unfolding b .
qed

definition text_ok :: "conf_env \<Rightarrow> bool" where
  "text_ok e \<longleftrightarrow> (\<forall>v. (\<forall>b \<in> set v. b < 128) \<longrightarrow> lossy (secrets e) v = v)"

lemma sealable_auto:
  assumes "text_ok e" and "n \<le> 128"
  shows "sealable e (get_auto_password e n)"
proof -
  let ?p = "get_auto_password e n"
  have "take VERSION_LEN ?p \<noteq> V00"
  proof
    assume "take VERSION_LEN ?p = V00"
    then have "48 \<in> set (take VERSION_LEN ?p)" by (simp add: V00_def)
    from auto_password_char [OF in_set_takeD [OF this]] show False by simp
  qed
  then have "\<not> fst (snd (unseal e ?p))"
    by (simp add: unseal_def decrypt_str_or_original_def Let_def)
  moreover have "length ?p = n" by (simp add: get_auto_password_def)
  moreover have "lossy (secrets e) ?p = ?p" using assms(1) auto_password_char by (simp add: text_ok_def)
  ultimately show ?thesis using assms(2) by (simp add: sealable_def ENCRYPT_MAX_LEN_def)
qed

text \<open>
  C37. A trusted device is trusted for its password.  A device that is added and has not expired is among the trusted
  devices of the next process; when the permanent password is then changed to another one, no device is trusted any more,
  neither in this process nor in the next.  (The JSON form reads back, does not look encrypted, and the list is
  within its limit of a megabyte.)
\<close>

theorem devices_end_with_password:
  assumes "in_sync e st" and "secrets_ok e st" and "\<not> outdate (clock e) d"
    and "fits e (filter (\<lambda>x. dev_hwid x \<noteq> dev_hwid d) (fst (get_trusted_devices e st)) @ [d])" and "fits e []"
    and "text_ok e" and "sealable e p" and "p \<noteq> cf_permanent (mem1 (restart e (add_device e d st)))"
  shows "let st1 = restart e (add_device e d st); st2 = set_permanent_password e p st1 in
    d \<in> set (fst (get_trusted_devices e st1)) \<and>
    fst (get_trusted_devices e st2) = [] \<and> fst (get_trusted_devices e (restart e st2)) = []"
proof -
  obtain ds s0 where g: "get_trusted_devices e st = (ds, s0)" by (cases "get_trusted_devices e st")
  let ?ds = "filter (\<lambda>x. dev_hwid x \<noteq> dev_hwid d) ds @ [d]"
  have s0: "in_sync e s0" "secrets_ok e s0"
    using in_sync_get_devices [OF assms(1)] secrets_ok_get_devices [of e st] assms(2) by (simp_all add: g)
  have ad: "add_device e d st = set_trusted_devices e ?ds s0" by (simp add: add_device_def g)
  define st1 where "st1 = restart e (add_device e d st)"
  have f: "fits e ?ds" using assms(4) by (simp add: g)
  have one: "d \<in> set (fst (get_trusted_devices e st1))"
    using devices_after_restart [OF s0 f] assms(3) by (simp add: st1_def ad)
  have s1: "in_sync e (add_device e d st)" "secrets_ok e (add_device e d st)"
    using s0 by (simp_all add: ad secrets_ok_devices)
  note r1 = restart_sealed [OF s1, folded st1_def]
  have id1: "cf_id (mem1 st1) = cf_id (mem1 (add_device e d st))" "cf_permanent (mem1 st1) = cf_permanent (mem1 (add_device e d st))"
    by (simp_all add: r1(1))
  define sp where "sp = store1 e ((mem1 st1)\<lparr>cf_permanent := p\<rparr>) st1"
  have sp2: "set_permanent_password e p st1 = set_trusted_devices e [] sp"
    using assms(8) by (simp add: set_permanent_password_def clear_trusted_devices_def sp_def st1_def)
  have "password_length e (add_device e d st) \<le> 128" by (simp add: password_length_def Let_def)
  from sealable_auto [OF assms(6) this] s1(2) have "sealable e (cf_temporary (mem1 st1))"
    by (simp add: r1(1) secrets_ok_def)
  then have ok: "secrets_ok e sp"
    using s1(2) r1(2) assms(7) id1 by (simp add: sp_def secrets_ok_def store1_def)
  have sy: "in_sync e sp" using r1(4) by (simp add: sp_def)
  have "fst (get_trusted_devices e (set_trusted_devices e [] sp)) = []"
    using assms(5) by (simp add: get_trusted_devices_def set_trusted_devices_def fits_def json_ok_def)
  moreover have "fst (get_trusted_devices e (restart e (set_trusted_devices e [] sp))) = []"
    using devices_after_restart [OF sy ok assms(5)] by simp
  ultimately show ?thesis
    using one by (simp add: sp2 flip: st1_def)
qed


definition my_phone :: trusted_device where
  "my_phone = \<lparr>dev_hwid = ''h'', dev_time = 0, dev_id = ''i'', dev_name = ''n'', dev_platform = ''p''\<rparr>"

definition phone_env :: conf_env where
  "phone_env = plain_conf_env\<lparr>devices_json := (\<lambda>ds. 1 # replicate (length ds) 1),
     devices_parse := (\<lambda>b. Some (replicate (length b - 1) my_phone))\<rparr>"

lemma phone_env_simps:
  "secrets phone_env = toy_crypto" "clock phone_env = plain_env" "app phone_env = plain_settings"
  "devices_json phone_env ds = 1 # replicate (length ds) 1" "devices_parse phone_env b = Some (replicate (length b - 1) my_phone)"
  by (simp_all add: phone_env_def plain_conf_env_def)

lemma not_outdate_phone: "\<not> outdate plain_env my_phone"
  by (simp add: outdate_def my_phone_def plain_env_def)

lemma phone_fits: "fits phone_env []" "fits phone_env [my_phone]"
  by (simp_all add: fits_def json_ok_def phone_env_simps not_outdate_phone toy_crypto_def V00_def)

lemma toy_sealable: "length v \<le> 128 \<Longrightarrow> take 2 v \<noteq> V00 \<Longrightarrow> secrets e = toy_crypto \<Longrightarrow> sealable e v"
  by (simp add: sealable_def unseal_def decrypt_str_or_original_def VERSION_LEN_def ENCRYPT_MAX_LEN_def toy_crypto_def Let_def)

definition phone_conf :: conf where
  "phone_conf = \<lparr>mem1 = default_config\<lparr>cf_id := [1]\<rparr>, mem2 = default_config2, mem_local = default_local,
     file1 = Some (sealed1 phone_env (default_config\<lparr>cf_id := [1]\<rparr>)), file2 = None, file_local = None,
     device_cache = ([], False), online = [], resolved_proxy = None, all_proxy = None\<rparr>"

lemma devices_end_with_password_witness:
  "fst (get_trusted_devices phone_env (restart phone_env
     (set_permanent_password phone_env [1] (restart phone_env (add_device phone_env my_phone phone_conf))))) = []"
proof -
  have sy: "in_sync phone_env phone_conf" by (simp add: in_sync_def follows_def phone_conf_def)
  have c: "crypto_ok (secrets phone_env)" by (simp add: phone_env_simps crypto_ok_def toy_crypto_def)
  have ok: "secrets_ok phone_env phone_conf"
    using c by (simp add: secrets_ok_def phone_conf_def default_config_def default_config2_def)
      (simp add: toy_sealable phone_env_simps V00_def)
  have g: "fst (get_trusted_devices phone_env phone_conf) = []"
    by (simp add: get_trusted_devices_def phone_conf_def default_config2_def)
  have f: "fits phone_env (filter (\<lambda>x. dev_hwid x \<noteq> dev_hwid my_phone) (fst (get_trusted_devices phone_env phone_conf)) @ [my_phone])"
    by (simp add: g phone_fits)
  have t: "text_ok phone_env" by (simp add: text_ok_def phone_env_simps toy_crypto_def)
  have p: "sealable phone_env [1]" by (rule toy_sealable) (simp_all add: V00_def phone_env_simps)
  have ad: "in_sync phone_env (add_device phone_env my_phone phone_conf)"
    "secrets_ok phone_env (add_device phone_env my_phone phone_conf)"
    "cf_permanent (mem1 (add_device phone_env my_phone phone_conf)) = []"
    using sy ok perform_in_sync [OF sy, of "AddDevice my_phone"]
    by (simp_all add: add_device_def get_trusted_devices_def phone_conf_def default_config2_def secrets_ok_devices)
      (simp add: set_trusted_devices_def store2_def default_config_def Let_def)
  have "[1] \<noteq> cf_permanent (mem1 (restart phone_env (add_device phone_env my_phone phone_conf)))"
    by (simp add: restart_sealed(1) [OF ad(1,2)] ad(3))
  from devices_end_with_password [OF sy ok _ f phone_fits(1) t p this] show ?thesis
    by (simp add: Let_def phone_env_simps not_outdate_phone)
qed


subsection \<open>The nearest server\<close>

lemma best_host_in: "best_host hs b = b \<or> (best_host hs b \<in> set hs \<and> 0 < snd (best_host hs b))"
  by (induction hs b rule: best_host.induct) (auto split: if_splits)

lemma best_host_start: "snd (best_host hs b) \<le> snd b"
  by (induction hs b rule: best_host.induct) (auto split: if_splits)

lemma best_host_least: "(h, d) \<in> set hs \<Longrightarrow> 0 < d \<Longrightarrow> snd (best_host hs b) \<le> d"
proof (induction hs b rule: best_host.induct)
  case (2 h' d' rest best)
  show ?case
  proof (cases "(h, d) = (h', d')")
    case True
    with 2(3) best_host_start [of rest "if 0 < d' \<and> d' < snd best then (h', d') else best"] show ?thesis
      by (auto split: if_splits)
  next
    case False
    with 2 show ?thesis by auto
  qed
qed simp

text \<open>
  The server in use is the nearest one known.  After a latency is noted, when some server has answered in
  less than the largest number, the configured server has the least positive latency of all.
\<close>

theorem nearest_server_used:
  fixes e h d st
  defines "st' \<equiv> update_latency e h d st"
  assumes "(h0, d0) \<in> set (online st')" and "0 < d0" and "d0 < 2 ^ 63 - 1" and "\<forall>(g, x) \<in> set (online st'). g \<noteq> []"
  shows "\<exists>x. (c2_rendezvous_server (mem2 st'), x) \<in> set (online st') \<and> 0 < x \<and>
    (\<forall>(g, y) \<in> set (online st'). 0 < y \<longrightarrow> x \<le> y)"
proof -
  let ?hs = "AList.update h d (online st)" and ?b = "([], 2 ^ 63 - 1) :: string \<times> int"
  have on: "online st' = ?hs" by (simp add: st'_def update_latency_def store2_def Let_def)
  have "snd (best_host ?hs ?b) \<le> d0" by (rule best_host_least) (use assms(2,3) in \<open>simp_all add: on\<close>)
  with assms(4) have ne: "best_host ?hs ?b \<noteq> ?b" by auto
  with best_host_in [of ?hs ?b] have b: "best_host ?hs ?b \<in> set ?hs" "0 < snd (best_host ?hs ?b)" by auto
  obtain g x where gx: "best_host ?hs ?b = (g, x)" by (cases "best_host ?hs ?b")
  have "(g, x) \<in> set (online st')" using b(1) by (simp only: on gx)
  with assms(5) have "g \<noteq> []" by blast
  then have "c2_rendezvous_server (mem2 st') = g"
    by (auto simp: st'_def update_latency_def gx [simplified] store2_def Let_def)
  moreover have "\<forall>(g', y) \<in> set ?hs. 0 < y \<longrightarrow> x \<le> y"
    using best_host_least [of _ _ ?hs ?b] by (auto simp: gx [simplified])
  ultimately show ?thesis using b by (auto simp: on gx [simplified])
qed

lemma nearest_server_used_witness:
  "\<exists>x. (c2_rendezvous_server (mem2 (update_latency plain_conf_env ''s'' 5 first_conf)), x)
      \<in> set (online (update_latency plain_conf_env ''s'' 5 first_conf)) \<and> 0 < x"
proof -
  have on: "online (update_latency plain_conf_env ''s'' 5 first_conf) = [(''s'', 5)]"
    by (simp add: update_latency_def first_conf_def store2_def Let_def)
  show ?thesis
    using nearest_server_used [of "''s''" 5 plain_conf_env "''s''" 5 first_conf] by (auto simp: on)
qed

subsection \<open>The proxy of the environment\<close>

text \<open>
  A proxy whose type is to be found out is announced to the HTTP clients as a socks5 proxy, in the environment, before
  its type is known; when it turns out to be an HTTP proxy, the network type of the process says so and the
  environment still says socks5.
\<close>

theorem proxy_env_stale:
  assumes "sk_type s = AutoProxy" and "sk_proxy s \<noteq> []" and "c2_socks (mem2 st) \<noteq> Some s"
  shows "let st' = snd (resolve_proxy_type HttpProxy s (set_socks e (Some s) st)) in
    get_network_type st' = ProxyHttp \<and> (\<exists>rest. all_proxy st' = Some (''socks5'' @ rest))"
  using assms
  by (simp add: set_socks_def resolve_proxy_type_def sync_proxy_env_def store2_def get_network_type_def effective_type_def
      proxy_url_def proxy_scheme_def Let_def)

lemma proxy_env_stale_witness:
  "get_network_type (snd (resolve_proxy_type HttpProxy \<lparr>sk_proxy = ''p:1'', sk_username = [], sk_password = [], sk_type = AutoProxy\<rparr>
     (set_socks plain_conf_env (Some \<lparr>sk_proxy = ''p:1'', sk_username = [], sk_password = [], sk_type = AutoProxy\<rparr>) first_conf)))
   = ProxyHttp"
  using proxy_env_stale [of "\<lparr>sk_proxy = ''p:1'', sk_username = [], sk_password = [], sk_type = AutoProxy\<rparr>" first_conf plain_conf_env]
  by (simp add: first_conf_def default_config2_def Let_def)

end
