(* ===== verification/Peer_Files.thy ===== *)
theory Peer_Files
  imports Prelude
begin

text \<open>
  The files of the peers, \<^verbatim>\<open>PeerConfig\<close> in \<^verbatim>\<open>libs/hbb_common/src/config.rs\<close>: the name of the file of a peer, storing,
  loading and removing it, and the list of the peers, which reads their names back from the directory.

  The directory is a list of its files with their names relative to it, in the order of \<^verbatim>\<open>read_dir\<close>; a name with a slash
  is a file of a directory below.  Of a configuration only the platform matters here, the rest is \<open>'c\<close>.  Base64 is the
  \<^verbatim>\<open>sodiumoxide\<close> crate, and decoding with its default for what is no base64 is one argument.
\<close>

record base64 =
  b64_text :: "string \<Rightarrow> string"
  b64_untext :: "string \<Rightarrow> string"

record 'c peer_file =
  pf_time :: nat
  pf_platform :: string
  pf_rest :: 'c

type_synonym 'c peer_dir = "(string \<times> 'c peer_file) list"

definition forbidden :: "string \<Rightarrow> bool" where
  "forbidden i \<longleftrightarrow> (\<exists>c \<in> set i. c \<in> set ''<>:/|?*'' \<or> c = char_of (92 :: nat))"

definition BASE64 :: string where "BASE64 = ''base64_''"

definition encoded_id :: "base64 \<Rightarrow> string \<Rightarrow> string" where
  "encoded_id b i = (if forbidden i then BASE64 @ b64_text b i else i)"

text \<open>
  \<^verbatim>\<open>with_extension\<close> adds \<^verbatim>\<open>.toml\<close> to every name that is one, also to one with a dot; a slash at the end is not part
  of a name.  The paths of the identifiers \<open>[]\<close>, \<^verbatim>\<open>.\<close> and \<^verbatim>\<open>..\<close> end in no name of their own; they are left out here.
\<close>

definition with_toml :: "string \<Rightarrow> string" where
  "with_toml n = rev (dropWhile (\<lambda>c. c = CHR ''/'') (rev n)) @ ''.toml''"

definition peer_path :: "base64 \<Rightarrow> string \<Rightarrow> string" where
  "peer_path b i = with_toml (encoded_id b i)"

definition store_peer :: "base64 \<Rightarrow> string \<Rightarrow> 'c peer_file \<Rightarrow> 'c peer_dir \<Rightarrow> 'c peer_dir" where
  "store_peer b i c dir = (peer_path b i, c) # filter (\<lambda>(n, _). n \<noteq> peer_path b i) dir"

definition load_peer_file :: "base64 \<Rightarrow> string \<Rightarrow> 'c peer_dir \<Rightarrow> 'c peer_file option" where
  "load_peer_file b i dir = map_of dir (peer_path b i)"

definition remove_path :: "string \<Rightarrow> 'c peer_dir \<Rightarrow> 'c peer_dir" where
  "remove_path n dir = filter (\<lambda>(m, _). m \<noteq> n) dir"

definition remove_peer :: "base64 \<Rightarrow> string \<Rightarrow> 'c peer_dir \<Rightarrow> 'c peer_dir" where
  "remove_peer b i dir = remove_path (peer_path b i) dir"

definition peer_exists :: "base64 \<Rightarrow> string \<Rightarrow> 'c peer_dir \<Rightarrow> bool" where
  "peer_exists b i dir = (map_of dir (peer_path b i) \<noteq> None)"

subsection \<open>The list of the peers\<close>

definition is_peer_file :: "string \<Rightarrow> bool" where
  "is_peer_file n \<longleftrightarrow> CHR ''/'' \<notin> set n \<and> 5 < length n \<and> drop (length n - 5) n = ''.toml''"

definition file_stem :: "string \<Rightarrow> string" where
  "file_stem n = take (length n - 5) n"

definition decoded_id :: "base64 \<Rightarrow> string \<Rightarrow> string" where
  "decoded_id b s = (if take 7 s = BASE64 \<and> length s \<noteq> 7 then b64_untext b (drop 7 s) else s)"

text \<open>
  One pass over the names: a file whose identifier is asked for is loaded by that identifier, and removed when what was
  loaded has no platform; a configuration that is not there has none.
\<close>

fun scan :: "base64 \<Rightarrow> string list option \<Rightarrow> string list \<Rightarrow> 'c peer_dir \<Rightarrow> (string \<times> 'c peer_file) list \<times> 'c peer_dir" where
  "scan b filters [] dir = ([], dir)"
| "scan b filters (n # ns) dir =
     (let i = decoded_id b (file_stem n)
      in if \<not> is_peer_file n \<or> (case filters of Some fs \<Rightarrow> i \<notin> set fs | None \<Rightarrow> False) then scan b filters ns dir
         else case load_peer_file b i dir of
             Some c \<Rightarrow>
               if pf_platform c = [] then scan b filters ns (remove_path n dir)
               else (case scan b filters ns dir of (ps, dir') \<Rightarrow> ((i, c) # ps, dir'))
           | None \<Rightarrow> scan b filters ns (remove_path n dir))"

definition peers :: "base64 \<Rightarrow> string list option \<Rightarrow> 'c peer_dir \<Rightarrow> (string \<times> 'c peer_file) list \<times> 'c peer_dir" where
  "peers b filters dir =
     (case scan b filters (map fst dir) dir of (ps, dir') \<Rightarrow> (rev (sort_key (\<lambda>(i, c). pf_time c) ps), dir'))"

subsection \<open>What is stored is listed\<close>

text \<open>
  The identifiers whose name reads back: it is the name of a file, has no slash, and looks like base64 only if it is.
\<close>

definition readable_id :: "base64 \<Rightarrow> string \<Rightarrow> bool" where
  "readable_id b i \<longleftrightarrow> i \<noteq> [] \<and> i \<noteq> ''.'' \<and> i \<noteq> ''..'' \<and>
     (if forbidden i then CHR ''/'' \<notin> set (b64_text b i) \<and> b64_text b i \<noteq> [] \<and> b64_untext b (b64_text b i) = i
      else \<not> (take 7 i = BASE64 \<and> length i \<noteq> 7))"

lemma slash_forbidden:
  assumes "CHR ''/'' \<in> set i"
  shows "forbidden i"
  unfolding forbidden_def by (rule bexI [OF _ assms]) simp

lemma BASE64_simps: "length BASE64 = 7" "BASE64 \<noteq> []" "CHR ''/'' \<notin> set BASE64"
  by (simp_all add: BASE64_def)

lemma readable_name:
  assumes "readable_id b i"
  shows "peer_path b i = encoded_id b i @ ''.toml''" "is_peer_file (peer_path b i)"
    "decoded_id b (file_stem (peer_path b i)) = i"
proof -
  have ns: "CHR ''/'' \<notin> set (encoded_id b i)"
  proof (cases "forbidden i")
    case True
    with assms BASE64_simps(3) show ?thesis by (simp add: readable_id_def encoded_id_def)
  next
    case False
    with slash_forbidden show ?thesis by (auto simp: encoded_id_def)
  qed
  then have "dropWhile (\<lambda>c. c = CHR ''/'') (rev (encoded_id b i)) = rev (encoded_id b i)"
    by (cases "encoded_id b i" rule: rev_cases) auto
  then show p: "peer_path b i = encoded_id b i @ ''.toml''"
    by (simp add: peer_path_def with_toml_def)
  have "encoded_id b i \<noteq> []" using assms BASE64_simps(2) by (simp add: readable_id_def encoded_id_def)
  then show "is_peer_file (peer_path b i)" using ns by (simp add: p is_peer_file_def)
  have st: "file_stem (peer_path b i) = encoded_id b i" by (simp add: p file_stem_def)
  show "decoded_id b (file_stem (peer_path b i)) = i"
  proof (cases "forbidden i")
    case True
    then have "encoded_id b i = BASE64 @ b64_text b i" by (simp add: encoded_id_def)
    with True assms BASE64_simps(1) show ?thesis by (simp add: st decoded_id_def readable_id_def)
  next
    case False
    then have "encoded_id b i = i" by (simp add: encoded_id_def)
    with False assms show ?thesis by (auto simp: st decoded_id_def readable_id_def)
  qed
qed

lemma readable_path_inj:
  assumes "readable_id b i" and "readable_id b j" and "peer_path b i = peer_path b j"
  shows "i = j"
  using readable_name(3) [OF assms(1)] readable_name(3) [OF assms(2)] assms(3) by metis

text \<open>A directory that holds the files of known peers.\<close>

definition dir_of :: "base64 \<Rightarrow> (string \<times> 'c peer_file) list \<Rightarrow> 'c peer_dir" where
  "dir_of b ps = map (\<lambda>(i, c). (peer_path b i, c)) ps"

lemma map_of_dir:
  assumes "distinct (map fst ps)" and "\<forall>(i, c) \<in> set ps. readable_id b i" and "(i, c) \<in> set ps"
  shows "map_of (dir_of b ps) (peer_path b i) = Some c"
proof -
  have ok: "readable_id b x" if "x \<in> fst ` set ps" for x using assms(2) that by auto
  have inj: "inj_on (peer_path b) (fst ` set ps)"
  proof (rule inj_onI)
    fix x y assume "x \<in> fst ` set ps" "y \<in> fst ` set ps" "peer_path b x = peer_path b y"
    then show "x = y" using readable_path_inj ok by blast
  qed
  have "map fst (dir_of b ps) = map (peer_path b) (map fst ps)" by (simp add: dir_of_def case_prod_beta)
  with assms(1) inj have "distinct (map fst (dir_of b ps))" by (simp add: distinct_map comp_inj_on)
  moreover have "(peer_path b i, c) \<in> set (dir_of b ps)" using assms(3) by (force simp: dir_of_def)
  ultimately show ?thesis by simp
qed

lemma scan_dir:
  assumes "distinct (map fst ps)" and "\<forall>(i, c) \<in> set ps. readable_id b i \<and> pf_platform c \<noteq> []" and "set qs \<subseteq> set ps"
  shows "scan b filters (map fst (dir_of b qs)) (dir_of b ps) =
    (filter (\<lambda>(i, c). case filters of Some fs \<Rightarrow> i \<in> set fs | None \<Rightarrow> True) qs, dir_of b ps)"
  using assms(3)
proof (induction qs)
  case Nil
  then show ?case by (simp add: dir_of_def)
next
  case (Cons q qs)
  obtain i c where q: "q = (i, c)" by (cases q)
  have ic: "(i, c) \<in> set ps" "readable_id b i" "pf_platform c \<noteq> []" using Cons.prems assms(2) by (auto simp: q)
  have "map_of (dir_of b ps) (peer_path b i) = Some c"
    by (rule map_of_dir [OF assms(1) _ ic(1)]) (use assms(2) in auto)
  moreover have "map fst (dir_of b (q # qs)) = peer_path b i # map fst (dir_of b qs)" by (simp add: dir_of_def q)
  ultimately show ?case
    using Cons ic readable_name(2,3) [OF ic(2)] by (auto simp: q load_peer_file_def Let_def split: option.split)
qed

text \<open>
  The list of the peers is what was stored.  When the directory holds the files of peers with different
  identifiers that read back, each with a platform, the list has exactly them, the most recent first, or those that are asked
  for, and no file is touched.
\<close>

theorem peers_listed:
  assumes "distinct (map fst ps)" and "\<forall>(i, c) \<in> set ps. readable_id b i \<and> pf_platform c \<noteq> []"
  shows "set (fst (peers b filters (dir_of b ps))) =
      {(i, c) \<in> set ps. case filters of Some fs \<Rightarrow> i \<in> set fs | None \<Rightarrow> True} \<and>
    sorted (rev (map (\<lambda>(i, c). pf_time c) (fst (peers b filters (dir_of b ps))))) \<and>
    snd (peers b filters (dir_of b ps)) = dir_of b ps"
proof -
  let ?qs = "filter (\<lambda>(i, c). case filters of Some fs \<Rightarrow> i \<in> set fs | None \<Rightarrow> True) ps"
  have p: "peers b filters (dir_of b ps) = (rev (sort_key (\<lambda>(i, c). pf_time c) ?qs), dir_of b ps)"
    using scan_dir [OF assms, of ps] by (simp add: peers_def)
  have "sorted (map (\<lambda>(i, c). pf_time c) (sort_key (\<lambda>(i, c). pf_time c) ?qs))" by (rule sorted_sort_key)
  then show ?thesis by (auto simp: p rev_map)
qed

subsection \<open>What is not\<close>

lemma map_of_remove_path: "map_of dir m = None \<Longrightarrow> map_of (remove_path n dir) m = None"
  by (auto simp: map_of_eq_None_iff remove_path_def)

lemma scan_subset: "set (snd (scan b filters ns dir)) \<subseteq> set dir"
proof (induction b filters ns dir rule: scan.induct)
  case (2 b filters n ns dir)
  have "set (remove_path n dir) \<subseteq> set dir" by (auto simp: remove_path_def)
  with 2 show ?case
    by (auto simp: Let_def split: option.split prod.split) (blast+)?
qed simp

lemma scan_gone:
  assumes "is_peer_file n"
  shows "n \<in> set ns \<Longrightarrow> load_peer_file b (decoded_id b (file_stem n)) dir = None \<Longrightarrow>
    n \<notin> fst ` set (snd (scan b None ns dir))"
proof (induction ns arbitrary: dir)
  case (Cons m ns)
  have keep: "load_peer_file b (decoded_id b (file_stem n)) (remove_path m dir) = None"
    using Cons.prems(2) by (simp add: load_peer_file_def map_of_remove_path)
  show ?case
  proof (cases "m = n")
    case True
    have "n \<notin> fst ` set (remove_path n dir)" by (auto simp: remove_path_def)
    then have "n \<notin> fst ` set (snd (scan b None ns (remove_path n dir)))" using scan_subset by fastforce
    with True Cons.prems(2) assms show ?thesis by (simp add: Let_def)
  next
    case False
    with Cons.prems(1) have "n \<in> set ns" by simp
    with Cons.IH [of dir] Cons.IH [of "remove_path m dir"] Cons.prems(2) keep show ?thesis
      by (auto simp: Let_def split: option.split prod.split)
  qed
qed simp

text \<open>
  C38. Listing can delete a peer.  An identifier that begins with the mark of base64 is stored under its own name; the list
  takes the rest of it for base64 and looks for the configuration of another peer; when there is none it removes the
  file: after the user has looked at the list the peer is gone, whatever its configuration was.
\<close>

theorem listing_deletes_peer:
  assumes "\<not> forbidden i" and "take 7 i = BASE64" and "length i \<noteq> 7"
    and "\<not> peer_exists b (b64_untext b (drop 7 i)) (store_peer b i c dir)"
  shows "peer_exists b i (store_peer b i c dir) \<and> \<not> peer_exists b i (snd (peers b None (store_peer b i c dir)))"
proof -
  let ?dir = "store_peer b i c dir"
  have ns: "CHR ''/'' \<notin> set i" using assms(1) slash_forbidden by blast
  then have "dropWhile (\<lambda>c. c = CHR ''/'') (rev i) = rev i" by (cases i rule: rev_cases) auto
  then have p: "peer_path b i = i @ ''.toml''" using assms(1) by (simp add: peer_path_def with_toml_def encoded_id_def)
  have "i \<noteq> []" using assms(2) BASE64_simps(2) by auto
  with ns have n: "is_peer_file (peer_path b i)" by (simp add: p is_peer_file_def)
  have "decoded_id b (file_stem (peer_path b i)) = b64_untext b (drop 7 i)"
    using assms(2,3) by (simp add: p file_stem_def decoded_id_def)
  with assms(4) have "load_peer_file b (decoded_id b (file_stem (peer_path b i))) ?dir = None"
    by (simp add: load_peer_file_def peer_exists_def)
  from scan_gone [OF n _ this, of "map fst ?dir"]
  have "peer_path b i \<notin> fst ` set (snd (scan b None (map fst ?dir) ?dir))" by (simp add: store_peer_def)
  then show ?thesis
    by (simp add: peer_exists_def peers_def map_of_eq_None_iff case_prod_beta) (simp add: store_peer_def)
qed

definition toy_base64 :: base64 where
  "toy_base64 = \<lparr>b64_text = (\<lambda>s. s), b64_untext = (\<lambda>s. s)\<rparr>"

definition my_peer :: "unit peer_file" where
  "my_peer = \<lparr>pf_time = 3, pf_platform = ''Linux'', pf_rest = ()\<rparr>"

lemma not_forbidden_letters: "\<not> forbidden ''base64_x''" "\<not> forbidden ''x''"
  by (simp_all add: forbidden_def BASE64_def char_of_def)

lemma listing_deletes_peer_witness:
  "\<not> peer_exists toy_base64 ''base64_x'' (snd (peers toy_base64 None (store_peer toy_base64 ''base64_x'' my_peer [])))"
  using listing_deletes_peer [of "''base64_x''" toy_base64 my_peer "[]"] not_forbidden_letters
  by (simp add: BASE64_def toy_base64_def peer_exists_def store_peer_def peer_path_def with_toml_def encoded_id_def)

lemma peers_listed_witness:
  "set (fst (peers toy_base64 None (dir_of toy_base64 [(''x'', my_peer)]))) = {(''x'', my_peer)}"
  using peers_listed [of "[(''x'', my_peer)]" toy_base64 None] not_forbidden_letters
  by (simp add: readable_id_def my_peer_def BASE64_def)

end
