(* ===== verification/Client_Fps.thy ===== *)
theory Client_Fps
  imports Qos_Properties
begin

text \<open>
  The frame rate that the controlling side asks for, \<open>fps_control\<close> in \<^verbatim>\<open>src/client/io_loop.rs\<close>: once per status interval it
  looks at the queues of frames that wait to be decoded and at the speed of the decoders, asks the controlled side for a
  rate, and refreshes a display whose queue is too long.  The last part puts it together with \<open>Video_Qos\<close> of the controlled side.

  The threads are an association list over the displays in an arbitrary order.  Counters are natural numbers; times are
  seconds.
\<close>

record fps_ctl =
  refresh_times :: nat
  last_refresh_instant :: "nat option"
  idle_counter :: nat
  inactive_counter :: nat

record video_thread =
  queue_len :: nat
  queue_cap :: nat
  decode_fps :: "nat option"
  fps_ctl :: fps_ctl

record fps_state =
  video_threads :: "(nat \<times> video_thread) list"
  chosen_fps :: "nat option"
  last_auto_fps :: "nat option"

datatype fps_out = SetFps nat | RefreshVideo nat

definition inactive_threshold :: nat where "inactive_threshold = 15"

definition count_inactive :: "(nat \<Rightarrow> int option) \<Rightarrow> nat \<times> video_thread \<Rightarrow> nat \<times> video_thread" where
  "count_inactive seen = (\<lambda>(d, t).
     let c = fps_ctl t; r = (case seen d of Some f \<Rightarrow> f | None \<Rightarrow> 0)
     in (d, t\<lparr>fps_ctl := c\<lparr>inactive_counter := (if r = 0 then inactive_counter c + 1 else 0)\<rparr>\<rparr>))"

definition custom_limit :: "nat option \<Rightarrow> nat" where
  "custom_limit c = (let f = (case c of Some f \<Rightarrow> f | None \<Rightarrow> 30) in if f < 5 \<or> 120 < f then 30 else f)"

text \<open>The least speed of the decoders at work; none when one of them is not known, \<^verbatim>\<open>min().flatten()\<close>.\<close>

definition min_decode_fps :: "(nat \<times> video_thread) list \<Rightarrow> nat option" where
  "min_decode_fps ts =
     (let fs = map (decode_fps \<circ> snd) (filter (\<lambda>(d, t). inactive_counter (fps_ctl t) < inactive_threshold) ts)
      in if fs = [] \<or> None \<in> set fs then None else Some (Min (set (map the fs))))"

definition limited_fps :: "bool \<Rightarrow> nat \<Rightarrow> nat \<Rightarrow> nat" where
  "limited_fps dir decode custom = min custom (if dir then decode * 9 div 10 else decode * 4 div 5)"

text \<open>The trend of one display: whether its rate is to fall, to rise, or neither.\<close>

definition fps_trending :: "nat \<Rightarrow> nat \<Rightarrow> video_thread \<Rightarrow> bool option \<times> video_thread" where
  "fps_trending limited last_auto t =
     (let c = fps_ctl t; len = queue_len t; with = (\<lambda>i. t\<lparr>fps_ctl := c\<lparr>idle_counter := i\<rparr>\<rparr>)
      in case decode_fps t of
           None \<Rightarrow> (None, t)
         | Some decode \<Rightarrow>
             if inactive_threshold < inactive_counter c then (None, t)
             else if 1 < len \<and> limited < last_auto \<or> max 1 (decode div 2) < len then (Some False, with 0)
             else if len \<le> 1 then
               (if 3 < idle_counter c + 1 \<and> last_auto + 3 \<le> limited then Some True else None, with (idle_counter c + 1))
             else (None, with 0))"

definition refresh_display :: "nat \<Rightarrow> nat \<Rightarrow> nat \<times> video_thread \<Rightarrow> fps_out list \<times> nat \<times> video_thread" where
  "refresh_display now decode = (\<lambda>(d, t).
     let c = fps_ctl t; tolerable = min decode (queue_cap t div 2)
     in if refresh_times c < 20 \<and> tolerable < queue_len t \<and>
           (refresh_times c = 0 \<or> (case last_refresh_instant c of Some s \<Rightarrow> 10 < now - s | None \<Rightarrow> False))
        then ([RefreshVideo d],
              d, t\<lparr>fps_ctl := c\<lparr>refresh_times := refresh_times c + 1, last_refresh_instant := Some now\<rparr>\<rparr>)
        else ([], d, t))"

definition auto_fps :: "bool \<Rightarrow> nat \<Rightarrow> nat \<Rightarrow> nat" where
  "auto_fps should_decrease limited max_len = max 1 (if should_decrease \<and> limited < max_len then limited div 2 else limited)"

text \<open>Whether a new rate is asked for, from the trends of all displays, and the threads with their counters.\<close>

definition fps_decision ::
  "bool \<Rightarrow> nat \<Rightarrow> nat option \<Rightarrow> nat \<Rightarrow> (nat \<times> video_thread) list \<Rightarrow> nat option \<times> (nat \<times> video_thread) list" where
  "fps_decision dir custom last_auto decode ts =
     (let limited = limited_fps dir decode custom;
          max_len = (if ts = [] then 0 else Max (set (map (queue_len \<circ> snd) ts)));
          cur = (case last_auto of Some f \<Rightarrow> f | None \<Rightarrow> custom);
          trends = map (\<lambda>(d, t). (d, fps_trending limited cur t)) ts;
          dec = (\<exists>(d, r) \<in> set trends. fst r = Some False);
          inc = (\<not> dec \<and> (\<exists>(d, r) \<in> set trends. fst r = Some True));
          f = auto_fps dec limited max_len
      in (if (last_auto = None \<or> dec \<or> inc) \<and> last_auto \<noteq> Some f then Some f else None,
          map (\<lambda>(d, r). (d, snd r)) trends))"

definition fps_control :: "nat \<Rightarrow> bool \<Rightarrow> (nat \<Rightarrow> int option) \<Rightarrow> fps_state \<Rightarrow> fps_out list \<times> fps_state" where
  "fps_control now dir seen st =
     (let ts = map (count_inactive seen) (video_threads st)
      in case min_decode_fps ts of
           None \<Rightarrow> ([], st\<lparr>video_threads := ts\<rparr>)
         | Some decode \<Rightarrow>
             (case fps_decision dir (custom_limit (chosen_fps st)) (last_auto_fps st) decode ts of
                (ask, ts1) \<Rightarrow>
                  (let refreshed = map (refresh_display now decode) ts1
                   in ((case ask of Some f \<Rightarrow> [SetFps f] | None \<Rightarrow> []) @ concat (map fst refreshed),
                       st\<lparr>video_threads := map snd refreshed,
                         last_auto_fps := (case ask of Some f \<Rightarrow> Some f | None \<Rightarrow> last_auto_fps st)\<rparr>))))"

subsection \<open>What is asked for\<close>

lemma custom_limit_range: "5 \<le> custom_limit c" "custom_limit c \<le> 120"
  by (simp_all add: custom_limit_def Let_def)

lemma auto_fps_range: "limited \<le> 120 \<Longrightarrow> 1 \<le> auto_fps b limited m \<and> auto_fps b limited m \<le> 120"
  by (auto simp: auto_fps_def)

lemma refreshes_set_nothing: "SetFps f \<notin> set (concat (map fst (map (refresh_display now decode) ts)))"
  by (auto simp: refresh_display_def Let_def split: prod.splits if_splits)

lemma fps_decision_asks:
  assumes "fps_decision dir custom last_auto decode ts = (Some f, ts1)" and "custom \<le> 120"
  shows "last_auto \<noteq> Some f \<and> 1 \<le> f \<and> f \<le> 120"
proof -
  have "limited_fps dir decode custom \<le> 120" using assms(2) by (simp add: limited_fps_def min_le_iff_disj)
  note r = auto_fps_range [OF this]
  from assms(1) obtain b m where "f = auto_fps b (limited_fps dir decode custom) m" "last_auto \<noteq> Some f"
    unfolding fps_decision_def Let_def by (auto split: if_splits)
  with r show ?thesis by blast
qed

lemma fps_control_sends:
  assumes "SetFps f \<in> set (fst (fps_control now dir seen st))"
  shows "last_auto_fps (snd (fps_control now dir seen st)) = Some f \<and> last_auto_fps st \<noteq> Some f \<and> 1 \<le> f \<and> f \<le> 120"
proof (cases "min_decode_fps (map (count_inactive seen) (video_threads st))")
  case None
  with assms show ?thesis by (simp add: fps_control_def Let_def)
next
  case (Some decode)
  obtain ask ts1 where d: "fps_decision dir (custom_limit (chosen_fps st)) (last_auto_fps st) decode
      (map (count_inactive seen) (video_threads st)) = (ask, ts1)" by fastforce
  have "ask = Some f"
    using assms refreshes_set_nothing [of f now decode ts1]
    by (cases ask) (auto simp: fps_control_def Some d Let_def)
  with fps_decision_asks [of dir "custom_limit (chosen_fps st)" "last_auto_fps st" decode] d custom_limit_range(2)
  show ?thesis by (simp add: fps_control_def Some Let_def)
qed

text \<open>
  C39. What the controlling side asks for is what it gets at most.  A rate that the control asks for is new, is between 1
  and 120 frames per second, so the controlled side takes it, and after its next adjustment the controlled side encodes
  no faster than that, whatever the other users want.
\<close>

theorem asked_rate_obeyed:
  assumes "SetFps f \<in> set (fst (fps_control now dir seen st))"
    and "qos_ok q" and "map_of (users q) i \<noteq> None" and "adjust_fps t (user_custom_fps i (of_nat f) q) = Some q'"
  shows "1 \<le> f \<and> f \<le> 120 \<and> last_auto_fps st \<noteq> Some f \<and> unat (qos_fps q') \<le> f"
proof -
  note f = fps_control_sends [OF assms(1)]
  have u: "unat (of_nat f :: u32) = f" using f by (simp add: unat_of_nat)
  have r: "MIN_FPS \<le> (of_nat f :: u32)" "(of_nat f :: u32) \<le> MAX_FPS"
    using f by (simp_all add: word_le_nat_alt u MIN_FPS_def MAX_FPS_def)
  obtain u0 where u0: "map_of (users q) i = Some u0" using assms(3) by auto
  let ?q = "user_custom_fps i (of_nat f) q"
  have q: "?q = with_user i (\<lambda>u. u\<lparr>custom_fps := Some (of_nat f)\<rparr>) q" using r by (simp add: user_custom_fps_def)
  have "user_ok (u0\<lparr>custom_fps := Some (of_nat f)\<rparr>)"
    using qos_okE [OF assms(2) u0] r by (simp add: user_ok_def)
  then have "qos_ok ?q" unfolding q using with_user_ok [OF assms(2)] r by (auto simp: user_ok_def)
  moreover have "(i, u0\<lparr>custom_fps := Some (of_nat f)\<rparr>) \<in> set (users ?q)"
    using u0 by (intro map_of_SomeD) (simp add: q with_user_def map_of_map_entry)
  ultimately have "qos_fps q' \<le> of_nat f" using adjust_fps_limits [OF _ assms(4)] by fastforce
  then show ?thesis using f by (simp add: word_le_nat_alt u)
qed

subsection \<open>A quiet session\<close>

fun fps_rounds :: "nat \<Rightarrow> bool \<Rightarrow> (nat \<Rightarrow> int option) \<Rightarrow> nat \<Rightarrow> fps_state \<Rightarrow> fps_out list \<times> fps_state" where
  "fps_rounds now dir seen 0 st = ([], st)"
| "fps_rounds now dir seen (Suc n) st =
     (case fps_control now dir seen st of
        (o1, st1) \<Rightarrow> (case fps_rounds (Suc now) dir seen n st1 of (o2, st2) \<Rightarrow> (o1 @ o2, st2)))"

definition rates :: "fps_out list \<Rightarrow> nat list" where
  "rates os = concat (map (\<lambda>x. case x of SetFps f \<Rightarrow> [f] | RefreshVideo d \<Rightarrow> []) os)"

lemma rates_append [simp]: "rates (xs @ ys) = rates xs @ rates ys"
  by (simp add: rates_def)

lemma rates_refresh [simp]: "rates (concat (map fst (map (refresh_display now decode) ts))) = []"
  by (induction ts) (auto simp: rates_def refresh_display_def Let_def split: prod.splits)

fun quiet_thread :: "nat \<Rightarrow> nat \<Rightarrow> (nat \<Rightarrow> int option) \<Rightarrow> nat \<times> video_thread \<Rightarrow> bool" where
  "quiet_thread decode idle seen (d, t) \<longleftrightarrow>
     queue_len t \<le> 1 \<and> decode_fps t = Some decode \<and> idle \<le> idle_counter (fps_ctl t) \<and> (case seen d of Some r \<Rightarrow> r \<noteq> 0 | None \<Rightarrow> False)"

definition quiet :: "nat \<Rightarrow> nat \<Rightarrow> (nat \<Rightarrow> int option) \<Rightarrow> fps_state \<Rightarrow> bool" where
  "quiet decode idle seen st \<longleftrightarrow> video_threads st \<noteq> [] \<and> list_all (quiet_thread decode idle seen) (video_threads st)"

lemma quiet_counted:
  assumes "quiet_thread decode idle seen x"
  shows "quiet_thread decode idle seen (count_inactive seen x) \<and> inactive_counter (fps_ctl (snd (count_inactive seen x))) = 0"
  using assms by (cases x) (auto simp: count_inactive_def Let_def split: option.splits)

definition calm :: "nat \<Rightarrow> nat \<Rightarrow> (nat \<Rightarrow> int option) \<Rightarrow> nat \<times> video_thread \<Rightarrow> bool" where
  "calm decode idle seen x \<longleftrightarrow> quiet_thread decode idle seen x \<and> inactive_counter (fps_ctl (snd x)) = 0"

lemma calm_decode: "ts \<noteq> [] \<Longrightarrow> list_all (calm decode idle seen) ts \<Longrightarrow> min_decode_fps ts = Some decode"
proof -
  assume ne: "ts \<noteq> []" and q: "list_all (calm decode idle seen) ts"
  have "filter (\<lambda>(d, t). inactive_counter (fps_ctl t) < inactive_threshold) ts = ts"
    using q by (intro filter_True) (auto simp: calm_def inactive_threshold_def list_all_iff)
  moreover have "map (decode_fps \<circ> snd) ts = replicate (length ts) (Some decode)"
    using q by (intro replicate_eqI) (auto simp: calm_def list_all_iff)
  ultimately show ?thesis using ne by (simp add: min_decode_fps_def)
qed

lemma calm_trend:
  assumes "calm decode idle seen (d, t)"
  shows "fps_trending limited a t =
    (if 3 \<le> idle_counter (fps_ctl t) \<and> a + 3 \<le> limited then Some True else None,
     t\<lparr>fps_ctl := (fps_ctl t)\<lparr>idle_counter := idle_counter (fps_ctl t) + 1\<rparr>\<rparr>)"
  using assms by (auto simp: calm_def fps_trending_def Let_def inactive_threshold_def)

lemma calm_round:
  assumes "calm decode idle seen (d, t)"
  shows "quiet_thread decode (Suc idle) seen (snd (refresh_display now m (d, snd (fps_trending limited a t))))"
  using assms by (simp add: calm_trend [OF assms]) (auto simp: calm_def refresh_display_def Let_def)

text \<open>What the displays of a quiet session decide, and what the round leaves of them.\<close>

lemma calm_decision:
  assumes ts: "ts \<noteq> []" "list_all (calm decode idle seen) ts" and l: "l = limited_fps dir decode custom"
  shows "fst (fps_decision dir custom (Some a) decode ts)
       = (if (\<exists>(d, t) \<in> set ts. 3 \<le> idle_counter (fps_ctl t)) \<and> a + 3 \<le> l then Some l else None)" (is ?F)
    and "list_all (quiet_thread decode (Suc idle) seen) (map snd (map (refresh_display now m) (snd (fps_decision dir custom (Some a) decode ts))))" (is ?S)
proof -
  let ?tr = "map (\<lambda>(d, t). (d, fps_trending l a t)) ts"
  have T: "fst (fps_trending l a t) = (if 3 \<le> idle_counter (fps_ctl t) \<and> a + 3 \<le> l then Some True else None)"
    if "(d, t) \<in> set ts" for d t
    using ts(2) that calm_trend [of decode idle seen d t l a] by (auto simp: list_all_iff)
  have dec: "\<not> (\<exists>(d, r) \<in> set ?tr. fst r = Some False)" using T by (auto split: if_splits)
  have inc: "(\<exists>(d, r) \<in> set ?tr. fst r = Some True) \<longleftrightarrow> (\<exists>(d, t) \<in> set ts. 3 \<le> idle_counter (fps_ctl t)) \<and> a + 3 \<le> l"
  proof -
    have "(\<exists>(d, r) \<in> set ?tr. fst r = Some True) \<longleftrightarrow> (\<exists>(d, t) \<in> set ts. fst (fps_trending l a t) = Some True)"
      by (simp add: split_def)
    also have "\<dots> \<longleftrightarrow> (\<exists>(d, t) \<in> set ts. 3 \<le> idle_counter (fps_ctl t) \<and> a + 3 \<le> l)"
      by (intro bex_cong refl) (auto simp: T split: if_splits)
    finally show ?thesis by auto
  qed
  show ?F by (simp only: fps_decision_def Let_def option.case l [symmetric] dec inc) (auto simp: auto_fps_def)
  have "snd (fps_decision dir custom (Some a) decode ts) = map (\<lambda>(d, t). (d, snd (fps_trending l a t))) ts"
    by (simp add: fps_decision_def Let_def l [symmetric] split_def)
  then show ?S using ts(2) by (auto simp: list_all_iff dest!: bspec intro: calm_round)
qed

lemma quiet_round:
  assumes q: "quiet decode idle seen st" and a: "last_auto_fps st = Some a"
    and l: "l = limited_fps dir decode (custom_limit (chosen_fps st))" and r: "fps_control now dir seen st = (os, st')"
  shows "quiet decode (Suc idle) seen st'" and "chosen_fps st' = chosen_fps st"
    and "rates os = [] \<and> last_auto_fps st' = Some a \<and> (a + 3 \<le> l \<longrightarrow> idle < 3) \<or>
         rates os = [l] \<and> last_auto_fps st' = Some l \<and> a + 3 \<le> l"
proof -
  let ?ts = "map (count_inactive seen) (video_threads st)"
  have ts: "?ts \<noteq> []" "list_all (calm decode idle seen) ?ts"
    using q quiet_counted [of decode idle seen] unfolding list_all_iff by (auto simp: quiet_def calm_def list_all_iff simp del: quiet_thread.simps)
  note m = calm_decode [OF ts]
  obtain ask ts1 where d: "fps_decision dir (custom_limit (chosen_fps st)) (Some a) decode ?ts = (ask, ts1)" by fastforce
  note c = calm_decision(1) [OF ts l, where a = a, unfolded d fst_conv snd_conv]
    calm_decision(2) [OF ts l, where a = a and now = now and m = decode, unfolded d fst_conv snd_conv]
  have R: "os = (case ask of Some f \<Rightarrow> [SetFps f] | None \<Rightarrow> []) @ concat (map fst (map (refresh_display now decode) ts1))"
      "st' = st\<lparr>video_threads := map snd (map (refresh_display now decode) ts1),
                last_auto_fps := (case ask of Some f \<Rightarrow> Some f | None \<Rightarrow> last_auto_fps st)\<rparr>"
    using r by (simp_all add: fps_control_def m a d Let_def)
  have "ts1 \<noteq> []" using ts(1) arg_cong [OF d, of "length \<circ> snd"] by (auto simp: fps_decision_def Let_def)
  with c(2) show "quiet decode (Suc idle) seen st'" by (simp add: R quiet_def)
  show "chosen_fps st' = chosen_fps st" by (simp add: R)
  have idle: "(\<exists>(d, t) \<in> set ?ts. 3 \<le> idle_counter (fps_ctl t)) \<or> idle < 3"
    using ts by (cases ?ts) (auto simp: calm_def)
  show "rates os = [] \<and> last_auto_fps st' = Some a \<and> (a + 3 \<le> l \<longrightarrow> idle < 3) \<or>
        rates os = [l] \<and> last_auto_fps st' = Some l \<and> a + 3 \<le> l"
    using c(1) idle unfolding R rates_append rates_refresh
    by (cases "(\<exists>(d, t) \<in> set ?ts. 3 \<le> idle_counter (fps_ctl t)) \<and> a + 3 \<le> l") (auto simp: rates_def a)
qed

lemma quiet_kept:
  "quiet decode idle seen st \<Longrightarrow> last_auto_fps st = Some l \<Longrightarrow> l = limited_fps dir decode (custom_limit (chosen_fps st)) \<Longrightarrow>
   rates (fst (fps_rounds now dir seen n st)) = [] \<and> last_auto_fps (snd (fps_rounds now dir seen n st)) = Some l"
proof (induction n arbitrary: now idle st)
  case 0
  then show ?case by (simp add: rates_def)
next
  case (Suc n)
  obtain os st' where r: "fps_control now dir seen st = (os, st')" by fastforce
  note q = quiet_round [OF Suc.prems r]
  from Suc.IH [OF q(1), of "Suc now"] q(2,3) Suc.prems(3) show ?case by (auto simp: r split: prod.splits)
qed

lemma quiet_rises:
  "quiet decode idle seen st \<Longrightarrow> last_auto_fps st = Some a \<Longrightarrow> l = limited_fps dir decode (custom_limit (chosen_fps st)) \<Longrightarrow>
   a + 3 \<le> l \<Longrightarrow> 3 < idle + n \<Longrightarrow> 0 < n \<Longrightarrow>
   rates (fst (fps_rounds now dir seen n st)) = [l] \<and> last_auto_fps (snd (fps_rounds now dir seen n st)) = Some l"
proof (induction n arbitrary: now idle st)
  case 0
  then show ?case by simp
next
  case (Suc n)
  obtain os st' where r: "fps_control now dir seen st = (os, st')" by fastforce
  note q = quiet_round [OF Suc.prems(1-3) r]
  from q(3) show ?case
  proof
    assume k: "rates os = [] \<and> last_auto_fps st' = Some a \<and> (a + 3 \<le> l \<longrightarrow> idle < 3)"
    with Suc.prems have "0 < n" "3 < Suc idle + n" by auto
    with Suc.IH [OF q(1), of "Suc now"] k q(2) Suc.prems(3,4) show ?thesis by (auto simp: r split: prod.splits)
  next
    assume k: "rates os = [l] \<and> last_auto_fps st' = Some l \<and> a + 3 \<le> l"
    with quiet_kept [OF q(1), of l dir "Suc now" n] q(2) Suc.prems(3) show ?thesis by (auto simp: r split: prod.splits)
  qed
qed

text \<open>
  C40. After a pause the rate comes back.  When no display has more than one frame waiting, pictures arrive on each of
  them and their decoders run at a known speed, a session whose rate had been lowered by three frames or more asks once,
  within four rounds, for the rate that the decoders can take, and never changes its mind while it stays quiet.
\<close>

theorem rate_recovers:
  assumes "quiet decode 0 seen st" and "last_auto_fps st = Some a"
    and "a + 3 \<le> limited_fps dir decode (custom_limit (chosen_fps st))" and "4 \<le> n"
  shows "rates (fst (fps_rounds now dir seen n st)) = [limited_fps dir decode (custom_limit (chosen_fps st))]"
  using quiet_rises [OF assms(1,2) refl assms(3), of n now] assms(4) by simp

text \<open>
  A decoder that falls behind can be sent more.  When a display has more frames waiting than half of what it decodes in a
  second, but not more than the limit, the control asks for the limit itself, even when the rate before was lower.
\<close>

theorem overload_raises_rate:
  assumes m: "min_decode_fps (map (count_inactive seen) (video_threads st)) = Some decode"
    and l: "l = limited_fps dir decode (custom_limit (chosen_fps st))"
    and t: "(d, t) \<in> set (map (count_inactive seen) (video_threads st))" "decode_fps t = Some df"
      "inactive_counter (fps_ctl t) \<le> 15" "max 1 (df div 2) < queue_len t"
    and q: "\<forall>x \<in> set (video_threads st). queue_len (snd x) \<le> l"
    and a: "last_auto_fps st = Some a" "a < l"
  shows "SetFps l \<in> set (fst (fps_control now dir seen st))"
proof -
  let ?ts = "map (count_inactive seen) (video_threads st)"
  have ql: "queue_len (snd (count_inactive seen x)) = queue_len (snd x)" for x
    by (cases x) (simp add: count_inactive_def Let_def)
  have "fst (fps_trending l a t) = Some False"
    using t by (simp add: fps_trending_def Let_def inactive_threshold_def)
  then have dec: "\<exists>(d, r) \<in> set (map (\<lambda>(d, t). (d, fps_trending l a t)) ?ts). fst r = Some False"
    unfolding set_map using imageI [OF t(1), of "\<lambda>(d, t). (d, fps_trending l a t)"]
    by (intro bexI [of _ "(d, fps_trending l a t)"]) simp_all
  have "Max (set (map (queue_len \<circ> snd) ?ts)) \<le> l" using t(1) q by (subst Max_le_iff) (auto simp: ql)
  then have max: "(if ?ts = [] then 0 else Max (set (map (queue_len \<circ> snd) ?ts))) \<le> l" by simp
  have "fst (fps_decision dir (custom_limit (chosen_fps st)) (Some a) decode ?ts) = Some l"
    using dec max a(2) by (simp only: fps_decision_def Let_def option.case l [symmetric]) (auto simp: auto_fps_def)
  then show ?thesis by (auto simp: fps_control_def m a(1) Let_def split: prod.splits)
qed

subsection \<open>Instances\<close>

definition one_display :: "nat \<Rightarrow> nat option \<Rightarrow> fps_state" where
  "one_display len a =
     \<lparr>video_threads = [(0, \<lparr>queue_len = len, queue_cap = 120, decode_fps = Some 20,
                          fps_ctl = \<lparr>refresh_times = 0, last_refresh_instant = None, idle_counter = 0, inactive_counter = 3\<rparr>\<rparr>)],
      chosen_fps = Some 60, last_auto_fps = a\<rparr>"

definition pictures :: "nat \<Rightarrow> int option" where
  "pictures = (\<lambda>d. if d = 0 then Some 12 else None)"

lemmas fps_evaluation = one_display_def pictures_def fps_control_def count_inactive_def Let_def min_decode_fps_def
  inactive_threshold_def fps_decision_def limited_fps_def custom_limit_def fps_trending_def auto_fps_def refresh_display_def

lemma first_ask: "SetFps 16 \<in> set (fst (fps_control 7 False pictures (one_display 0 None)))"
  by (simp add: fps_evaluation del: set_filter set_map)

lemma asked_rate_obeyed_witness:
  "(1::nat) \<le> 16 \<and> (16::nat) \<le> 120 \<and> last_auto_fps (one_display 0 None) \<noteq> Some 16 \<and>
   unat (qos_fps ((user_custom_fps 1 16 slow_qos)\<lparr>qos_fps := 2\<rparr>)) \<le> 16"
proof -
  have "adjust_fps 500 (user_custom_fps 1 16 slow_qos) = Some ((user_custom_fps 1 16 slow_qos)\<lparr>qos_fps := 2\<rparr>)"
    by (simp add: user_custom_fps_def with_user_def adjust_fps_def slow_qos_def slow_user_def user_data_new_def
      user_delay_new_def qos_default_def highest_fps_def user_fps_def clamp_def MIN_FPS_def MAX_FPS_def INIT_FPS_def Let_def)
  moreover have "map_of (users slow_qos) 1 \<noteq> None" by (simp add: slow_qos_def)
  ultimately show ?thesis using asked_rate_obeyed [OF first_ask slow_qos_ok] by fastforce
qed

lemma rate_recovers_witness:
  "quiet 20 0 pictures (one_display 1 (Some 8)) \<and>
   rates (fst (fps_rounds 7 False pictures 9 (one_display 1 (Some 8)))) = [16]"
proof -
  have q: "quiet 20 0 pictures (one_display 1 (Some 8))" by (simp add: quiet_def one_display_def pictures_def)
  have l: "limited_fps False 20 (custom_limit (chosen_fps (one_display 1 (Some 8)))) = 16"
    by (simp add: limited_fps_def custom_limit_def one_display_def)
  show ?thesis using rate_recovers [OF q, of 8 False 9 7] l q by (simp add: one_display_def)
qed

lemma overload_raises_rate_witness:
  "SetFps 16 \<in> set (fst (fps_control 7 False pictures (one_display 12 (Some 8))))"
proof (rule overload_raises_rate [of pictures _ 20 _ False 0 "snd (count_inactive pictures (hd (video_threads (one_display 12 (Some 8)))))" 20 8])
qed (simp_all add: one_display_def min_decode_fps_def count_inactive_def pictures_def Let_def inactive_threshold_def
     limited_fps_def custom_limit_def)

end
