(* ===== verification/Spec2Isabelle.thy ===== *)
theory Spec2Isabelle
  imports Bytes_Codec Framed_Stream Terminal_Buffer Terminal_Emulator
    Transfer_Roundtrip Transfer_Control Transfer_Ticks Directory
    Qos_Properties Service_Hub Login_Properties Stored_Secrets
    Server Privacy_Mode Session_Control Session_Files Session_Properties
    Handshake Session_Input Addresses Rendezvous Api_Cache Relay_Candidates Terminal_Login
    Client_Session Client_Input Client_Removal Client_Upload
    Configuration_Properties Peer_Files Client_Fps
begin

text \<open>
  \<^bold>\<open>The program.\<close>  HopToDesk is a remote desktop program in Rust, a fork of RustDesk.  A controlled machine
  accepts connections, asks for a proof of permission, and then serves screen, sound, terminal and files; a
  controlling machine shows them.  Both sides exchange protobuf messages in frames over TCP.  This library
  models the parts with logic of their own and leaves the calls to the platform, to encoder libraries and to
  the user interface out.

  \<^bold>\<open>The path of a message.\<close>
  \<^item> \<^verbatim>\<open>Bytes_Codec\<close> is \<^verbatim>\<open>libs/hbb_common/src/bytes_codec.rs\<close>: \<open>encode\<close> writes a header of one to four bytes
    with the length, \<open>decode\<close> is one call of the decoder on the bytes read so far, with its state
    (\<open>decode_state\<close>), raw mode and packet limit.  A length is a \<open>64 word\<close> where the code has a \<open>usize\<close>.  The
    locale \<open>incremental_decoder\<close> of \<^verbatim>\<open>Stream_Decoder\<close> holds the contract of a decoder that is called while bytes
    arrive; the codec is its interpretation, and the round trip over arbitrary reads is its consequence.
  \<^item> \<^verbatim>\<open>Framed_Stream\<close> is the framed stream of \<^verbatim>\<open>tcp.rs\<close>: sending, receiving, peeking, and the encryption with a
    nonce counted in a \<open>u64\<close>.  The secret box is a parameter that opens what it sealed.

  \<^bold>\<open>Finding each other.\<close>
  \<^item> \<^verbatim>\<open>Api_Cache\<close> is \<^verbatim>\<open>api.rs\<close>: the answer of the service that names the servers, in memory and in the configuration,
    with its rate limits.  The theorems bound how often the service is asked and say when a call has an answer.
  \<^item> \<^verbatim>\<open>Rendezvous\<close> is \<^verbatim>\<open>rendezvous_mediator.rs\<close>: the choice of the signal server, a session with it as a state
    machine over ticks and packets (\<open>tick\<close>, \<open>packet\<close>, \<open>relay_packet\<close>), the pace of its restarts, and the direct server.
    A silent server is left within a bound, an answering one is kept.
  \<^item> \<^verbatim>\<open>Relay_Candidates\<close> is \<^verbatim>\<open>turn_client.rs\<close>: the list of relays and the search of the controlling side among them,
    which is bounded and finds a relay that works.
  \<^item> \<^verbatim>\<open>Addresses\<close> holds the mangled addresses and the version numbers of \<^verbatim>\<open>hbb_common/src/lib.rs\<close>, with the features
    that a version has.
  \<^item> \<^verbatim>\<open>Handshake\<close> is the key exchange of \<^verbatim>\<open>server.rs\<close> and \<^verbatim>\<open>client.rs\<close>.  Both sides are processes that send and
    receive; \<open>net_step\<close> lets them run in any order.  The cryptography is a parameter.  The theorems show that honest
    sides agree, what a peer without the key can reach, and with what results the controlled side ends.

  \<^bold>\<open>Permission.\<close>
  \<^item> \<^verbatim>\<open>Login\<close> holds the login messages of \<^verbatim>\<open>server/connection.rs\<close>: \<open>on_login_request\<close>, \<open>on_auth_2fa\<close>,
    \<open>on_switch_sides_response\<close>, the click of the local user (\<open>on_cm_authorize\<close>), the checks of the three kinds
    of passwords, recent sessions, and the failure counts of \<open>check_failure\<close> and \<open>update_failure\<close>.  One state is
    a pair of the connection and the shared tables.  Hashes, codes and the clock are parameters.
    \<^verbatim>\<open>Login_Properties\<close> shows by what steps alone a connection becomes authorised, what bounds the guesses of
    one address, and where the code allows more than it means to.
  \<^item> \<^verbatim>\<open>Stored_Secrets\<close> is the encryption of stored secrets in \<^verbatim>\<open>password_security.rs\<close>.

  \<^bold>\<open>Files.\<close>
  \<^item> \<^verbatim>\<open>Transfer_Job\<close> holds the jobs of \<^verbatim>\<open>fs.rs\<close>: \<open>job_read\<close>, \<open>job_write\<close>, \<open>prepare_stream\<close>, \<open>modify_time\<close>,
    \<open>job_confirm\<close>, \<open>set_stream_offset\<close>, the digest check and \<open>handle_read_jobs\<close>, over an explicit file system
    (\<open>os\<close>, a map from paths to content and time).  Compression is a parameter with its inverse.
  \<^item> \<^verbatim>\<open>Transfer_Roundtrip\<close> runs a read job into a write job and shows that all files arrive;
    \<^verbatim>\<open>Transfer_Control\<close> is about resuming and about empty directories, \<^verbatim>\<open>Transfer_Ticks\<close> about the scheduling of
    several jobs, the confirmations and the panic of \<open>confirm\<close>.
  \<^item> \<^verbatim>\<open>Directory\<close> lists a tree of files, and removes its empty directories.

  \<^bold>\<open>Screen, services and terminal.\<close>
  \<^item> \<^verbatim>\<open>Video_Qos\<close> is \<^verbatim>\<open>server/video_qos.rs\<close> whole: per-user delays and requests, the frame rate and the bitrate
    ratio.  The code computes ratios in \<open>f32\<close>; \<^verbatim>\<open>Float32\<close> gives these as rationals rounded to 24 bits, to
    nearest, ties to even.  \<^verbatim>\<open>Qos_Properties\<close> shows that no event panics and that the values stay in range, the
    meaning of the round-trip estimate, the reaction to delays, and the independence of the hash order.
  \<^item> \<^verbatim>\<open>Service_Hub\<close> is \<^verbatim>\<open>server/service.rs\<close>: the two maps of subscribers and every send, refined against the
    automaton of one connection; the loops that run a service.
  \<^item> \<^verbatim>\<open>Terminal_Buffer\<close> is the output buffer of \<^verbatim>\<open>server/terminal_service.rs\<close>; its trimming loop is a
    \<open>partial_function\<close>, since it need not end.  \<^verbatim>\<open>Terminal_Emulator\<close> is \<^verbatim>\<open>ui/terminal_emulator.rs\<close>: rendering of
    rows, dirty rows, scrolled views and the payload for the page; the \<^verbatim>\<open>vt100\<close> parser is a parameter.
  \<^item> \<^verbatim>\<open>Terminal_Service\<close> is the rest of \<^verbatim>\<open>server/terminal_service.rs\<close>: the registry of services (\<open>registry\<close>), their
    sessions with bounded channels, the actions of a controller, the turns that read the output, and the clean-up.
    A send that waits for room is \<open>None\<close>.  \<^verbatim>\<open>Terminal_Registry\<close> shows the bounds that every reachable state keeps, what
    a turn delivers and what it loses, and two ways in which a shell ends or goes on unlike it should;
    \<^verbatim>\<open>Terminal_Login\<close> puts the registry under the login and shows that no password is needed to fill it.
    \<^verbatim>\<open>Utf8\<close> has the decoding of bytes into text, with its round trip.

  \<^bold>\<open>The session of a controlled machine.\<close>
  \<^item> \<^verbatim>\<open>Server\<close> is \<^verbatim>\<open>server.rs\<close>: the table of services and connections, who is subscribed to what, and which
    displays a connection captures.  The locale \<open>subscriber_set\<close> states what one service promises, its
    interpretation is the hub; \<open>subscription_table\<close> states what a table of services promises, its interpretation
    is the server.  No operation brings back a connection that has left.
  \<^item> \<^verbatim>\<open>Session_Control\<close> holds the handlers of permissions (\<open>switch_permission\<close>), options (\<open>update_options\<close>, one
    definition for each option), displays and voice calls of \<^verbatim>\<open>server/connection.rs\<close>, as steps on the pair of the
    connection (\<open>control\<close>, which holds the \<open>connection\<close> of the login) and the server.  \<^verbatim>\<open>Session_Properties\<close> shows
    that the subscriptions follow the permissions, by an invariant of the steps that rests on the table's
    contract, and the four places where they do not.
  \<^item> \<^verbatim>\<open>Session_Files\<close> holds the file messages of a connection and the handler \<open>handle_fs\<close> of the connection manager
    (\<^verbatim>\<open>ui_cm_interface.rs\<close>), and relays the blocks of a whole job.
  \<^item> \<^verbatim>\<open>Privacy_Mode\<close> is \<^verbatim>\<open>privacy_mode.rs\<close> with the implementation of macOS and the handlers of a connection: who
    may own the mode, and the request that takes it away from its owner.
  \<^item> \<^verbatim>\<open>Input_Service\<close> is the simulation of keys and mouse of \<^verbatim>\<open>server/input_service.rs\<close> on an explicit keyboard
    (\<open>keyboard\<close>), as built for Linux.  Its invariant \<open>held_ok\<close> says that what is held is on record; from it follows that
    the exit of the service releases everything.  \<^verbatim>\<open>Session_Input\<close> is the way of an input message from a connection to
    it, with the permissions.

  \<^bold>\<open>The controlling side.\<close>
  \<^item> \<^verbatim>\<open>Client_Config\<close> is the record that \<^verbatim>\<open>client.rs\<close> keeps of a peer (\<open>handler\<close>, with the stored \<open>peer_config\<close>s as a
    map): the switches with their option messages, the order in which passwords are tried, what is remembered, and
    the errors of a login.  \<^verbatim>\<open>Client_Session\<close> puts it together with \<open>Session_Control\<close> and \<open>Login\<close>: whatever is
    switched, the flags of the controlled side follow the configuration, up to what \<open>view-only\<close> overrides while it is on; a
    remembered password opens the next session, a shared one is not kept.
  \<^item> \<^verbatim>\<open>Client_Keyboard\<close> is \<^verbatim>\<open>keyboard.rs\<close> for Linux and the input messages of \<^verbatim>\<open>ui_session_interface.rs\<close>: from the events
    of the grabbed keyboard (\<open>process_event\<close>, with the tables of \<open>grab\<close>) to key messages in each mode, with the swap
    of modifiers at sending.  \<^verbatim>\<open>Client_Input\<close> composes it with \<open>Input_Service\<close>: leaving the window releases every key,
    and a switch of the swap in the middle of a press does not.
  \<^item> \<^verbatim>\<open>Client_Files\<close> is the file part of \<^verbatim>\<open>client/io_loop.rs\<close>: \<open>from_ui\<close> takes the requests of the user interface,
    \<open>from_peer\<close> the responses of the peer, on a \<open>remote\<close> of upload, download and removal jobs.  \<^verbatim>\<open>Client_Download\<close> and
    \<^verbatim>\<open>Client_Upload\<close> run both sides in turns.  The locale \<open>file_receiver\<close> is what a transfer needs of the side that writes:
    it takes the next block, asks for a file it does not have, and has everything at the end.  The controlling side
    (\<open>client_at\<close>) is one interpretation and the connection manager (\<open>cm_at\<close>) the other; the measure \<open>work_left\<close> falls with
    every turn, so both kinds of transfer end, with every file in place.  \<^verbatim>\<open>Client_Removal\<close> follows the errors of a download
    and the chain of a removal (\<open>run_self\<close>, one time for each request): which failures the user is told (\<open>reported\<close>).
  \<^item> \<^verbatim>\<open>Client_Fps\<close> is \<open>fps_control\<close> of \<^verbatim>\<open>client/io_loop.rs\<close>: the rate that the controlling side asks for, its
    range, and its recovery.

  \<^bold>\<open>Settings.\<close>
  \<^item> \<^verbatim>\<open>Configuration\<close> is \<^verbatim>\<open>hbb_common/src/config.rs\<close>: the two files and the local one with their memory, what is encrypted in
    them (\<open>sealed1\<close>, \<open>sealed2\<close>), loading, storing, the options with their defaults and fixed values, trusted devices.
    \<^verbatim>\<open>Configuration_Properties\<close> shows that settings survive a restart and what ends with a password.
    \<^verbatim>\<open>Peer_Files\<close> holds the files of the peers: their names, and what the listing keeps and loses.

  \<^bold>\<open>Conventions.\<close>  A \<open>u64\<close>, \<open>u32\<close> or \<open>usize\<close> is a word where overflow can matter; strings are character lists or
  their UTF-8 bytes; a \<open>HashMap\<close> is an association list in an arbitrary order; an \<open>anyhow\<close> error is the left of a
  sum, and a panic is \<open>None\<close> or its own constructor.  \<^verbatim>\<open>Prelude\<close> has the type names and general lemmas.  Loops over
  lists are recursive functions; \<open>run_turns\<close> and \<open>ticks\<close> take the number of turns, and the theorems on them
  either hold for every number or say how many are enough.

  \<^bold>\<open>Not modelled.\<close>  The rest of the message loop of the controlling session, the clipboards and their files, the input of
  platforms other than Linux, capture and codecs, sockets and port forwarding, TOML and the directories of the settings, the
  user interfaces, and the vendored TURN and STUN crates: in large part calls to the platform.  Transfers of printer data
  and the markers of empty directories are modelled, but outside the end-to-end theorems.
\<close>

end
